(* ===== verification/Prelude.thy ===== *)
theory Prelude
  imports Complex_Main "HOL-Library.Char_ord" "HOL-Library.List_Lexorder" "HOL-Library.Multiset"
begin

text \<open>
  The shared vocabulary of the development: the exceptions of the Python code as values, the
  character classes and bounded patterns of the message schemas, lists of rows as the tables of
  the SQLite databases, and the generic lemmas on lists that the component theories use.

  Python strings are \<open>string\<close>s whose characters are the code points below 256; string order is
  the code point order (\<open>List_Lexorder\<close> over \<open>Char_ord\<close>), which is also SQLite's order on TEXT.
  Python integers are \<open>int\<close>. Python floats (clock readings and lease times, always finite here)
  are \<open>rat\<close> with exact arithmetic.
\<close>

named_theorems valid_defs \<open>the validity predicates of the message schemas\<close>

section \<open>Exceptions as values\<close>

text \<open>
  \<open>Conflict\<close> is the exception of \<open>execution/ledger.py\<close>; its text is either a machine-readable
  reason (\<open>Reason\<close>) or one of the fixed sentences, which are named. \<open>Failure\<close> is the API failure
  of \<open>errors.py\<close> with its code and HTTP status. \<open>IntegrityError\<close> is a violated SQL constraint,
  \<open>X509Error\<close> stands for the exceptions of the certificate library.
\<close>

datatype sentence =
    Offer_absent_or_changed
  | Offer_reload
  | Mode_is_installed
  | Generation_stale
  | Plan_differs
  | Slot_reserved
  | Resources_insufficient
  | Storage_insufficient
  | Gpu_reserved
  | Not_current_attempt
  | Lease_required
  | Offer_changed_before_start
  | Not_awaiting_start
  | Lease_refused_state
  | Lease_expired
  | Offer_absent
  | Offer_reduced
  | Lease_stale
  | Lease_deadline
  | Already_released
  | Outcome_required
  | Cleanup_required
  | Outcome_fixed
  | Cleanup_unconfirmed
  | Binding_changed
  | Recovery_limit
  | Other_installation
  | No_slot_fits
  | Storage_released
  | Stop_pending
  | Rejected_no_output
  | Retained_storage

datatype ctext = Reason string | Sentence sentence

datatype exn =
    ValueError
  | Conflict ctext
  | InputFailure string
  | Failure string nat
  | IntegrityError
  | OSError
  | KeyError
  | IndexError
  | TimeoutError
  | AssertionError
  | X509Error

type_synonym 'a res = "exn + 'a"

section \<open>Character classes and bounded patterns\<close>

definition in_range :: "char \<Rightarrow> char \<Rightarrow> char \<Rightarrow> bool" where
  "in_range lo hi c \<longleftrightarrow> lo \<le> c \<and> c \<le> hi"

definition is_digit :: "char \<Rightarrow> bool" where
  "is_digit c \<longleftrightarrow> in_range (CHR ''0'') (CHR ''9'') c"

definition is_lower :: "char \<Rightarrow> bool" where
  "is_lower c \<longleftrightarrow> in_range (CHR ''a'') (CHR ''z'') c"

definition is_upper :: "char \<Rightarrow> bool" where
  "is_upper c \<longleftrightarrow> in_range (CHR ''A'') (CHR ''Z'') c"

definition is_alpha :: "char \<Rightarrow> bool" where
  "is_alpha c \<longleftrightarrow> is_lower c \<or> is_upper c"

definition is_alnum :: "char \<Rightarrow> bool" where
  "is_alnum c \<longleftrightarrow> is_alpha c \<or> is_digit c"

definition is_hex :: "char \<Rightarrow> bool" where
  "is_hex c \<longleftrightarrow> is_digit c \<or> in_range (CHR ''a'') (CHR ''f'') c"

text \<open>\<open>^H T{0,n}$\<close>: one character of the class \<open>H\<close>, then at most \<open>n\<close> of the class \<open>T\<close>.\<close>

definition head_tail :: "(char \<Rightarrow> bool) \<Rightarrow> (char \<Rightarrow> bool) \<Rightarrow> nat \<Rightarrow> string \<Rightarrow> bool" where
  "head_tail h t n s \<longleftrightarrow> (case s of [] \<Rightarrow> False | c # cs \<Rightarrow> h c \<and> length cs \<le> n \<and> list_all t cs)"

section \<open>Lists\<close>

lemma sum_list_filter_le:
  fixes f :: "'a \<Rightarrow> int"
  assumes "\<And>x. x \<in> set xs \<Longrightarrow> 0 \<le> f x"
  shows "sum_list (map f (filter P xs)) \<le> sum_list (map f xs)"
  using assms by (induction xs) (auto simp: add_increasing)

lemma sum_list_filter_mono:
  fixes f :: "'a \<Rightarrow> int"
  assumes "\<And>x. x \<in> set xs \<Longrightarrow> 0 \<le> f x" and "\<And>x. x \<in> set xs \<Longrightarrow> P x \<Longrightarrow> Q x"
  shows "sum_list (map f (filter P xs)) \<le> sum_list (map f (filter Q xs))"
  using assms
proof (induction xs)
  case (Cons x xs)
  then have "sum_list (map f (filter P xs)) \<le> sum_list (map f (filter Q xs))" by simp
  moreover have "0 \<le> f x" and "P x \<Longrightarrow> Q x" using Cons.prems by auto
  ultimately show ?case by auto
qed simp

lemma sum_list_nonneg_int:
  fixes f :: "'a \<Rightarrow> int"
  assumes "\<And>x. x \<in> set xs \<Longrightarrow> 0 \<le> f x"
  shows "0 \<le> sum_list (map f xs)"
  using assms by (induction xs) auto

lemma ex_pair_Suc:
  "(\<exists>i j. i < j \<and> j < Suc n \<and> P i j) \<longleftrightarrow>
     (\<exists>j<n. P 0 (Suc j)) \<or> (\<exists>i j. i < j \<and> j < n \<and> P (Suc i) (Suc j))"
proof
  assume "\<exists>i j. i < j \<and> j < Suc n \<and> P i j"
  then obtain i j where "i < j" "j < Suc n" "P i j" by blast
  then show "(\<exists>j<n. P 0 (Suc j)) \<or> (\<exists>i j. i < j \<and> j < n \<and> P (Suc i) (Suc j))"
    by (cases i; cases j) auto
next
  assume "(\<exists>j<n. P 0 (Suc j)) \<or> (\<exists>i j. i < j \<and> j < n \<and> P (Suc i) (Suc j))"
  then show "\<exists>i j. i < j \<and> j < Suc n \<and> P i j"
    by (metis Suc_less_eq zero_less_Suc)
qed

section \<open>Tables\<close>

text \<open>
  A table is the list of its rows; \<open>key\<close> reads the primary key. \<open>find_row\<close> is
  \<open>SELECT ... WHERE key = k\<close>, \<open>put_row\<close> an \<open>UPDATE ... WHERE key = k\<close>, \<open>add_row\<close> an \<open>INSERT\<close>.
\<close>

definition find_row :: "('r \<Rightarrow> 'k) \<Rightarrow> 'r list \<Rightarrow> 'k \<Rightarrow> 'r option" where
  "find_row key rows k = find (\<lambda>r. key r = k) rows"

definition put_row :: "('r \<Rightarrow> 'k) \<Rightarrow> 'k \<Rightarrow> ('r \<Rightarrow> 'r) \<Rightarrow> 'r list \<Rightarrow> 'r list" where
  "put_row key k f rows = map (\<lambda>r. if key r = k then f r else r) rows"

definition add_row :: "'r \<Rightarrow> 'r list \<Rightarrow> 'r list" where
  "add_row r rows = rows @ [r]"

lemma find_row_Some: "find_row key rows k = Some r \<Longrightarrow> r \<in> set rows \<and> key r = k"
  by (auto simp: find_row_def find_Some_iff)

lemma find_row_None: "find_row key rows k = None \<longleftrightarrow> (\<forall>r\<in>set rows. key r \<noteq> k)"
  by (auto simp: find_row_def find_None_iff)

lemma find_row_distinct:
  assumes "distinct (map key rows)" and "r \<in> set rows"
  shows "find_row key rows (key r) = Some r"
  using assms by (induction rows) (auto simp: find_row_def)

lemma find_row_add:
  "find_row key (add_row r rows) k =
     (case find_row key rows k of Some q \<Rightarrow> Some q | None \<Rightarrow> if key r = k then Some r else None)"
  by (induction rows) (auto simp: find_row_def add_row_def)

lemma find_row_put:
  assumes "\<And>r. key (f r) = key r"
  shows "find_row key (put_row key k f rows) j =
     (if j = k then map_option f (find_row key rows k) else find_row key rows j)"
  using assms by (induction rows) (auto simp: find_row_def put_row_def)

lemma map_key_put:
  assumes "\<And>r. key (f r) = key r"
  shows "map key (put_row key k f rows) = map key rows"
  using assms by (induction rows) (auto simp: put_row_def)

lemma set_put_row:
  "r \<in> set (put_row key k f rows) \<Longrightarrow>
     (r \<in> set rows \<and> key r \<noteq> k) \<or> (\<exists>q\<in>set rows. key q = k \<and> r = f q)"
  by (auto simp: put_row_def split: if_splits)

section \<open>Systems with an invariant\<close>

text \<open>The states a system reaches from its start states by its steps.\<close>

inductive reach :: "('s \<Rightarrow> bool) \<Rightarrow> ('s \<Rightarrow> 's \<Rightarrow> bool) \<Rightarrow> 's \<Rightarrow> bool" for start step where
  reach_start: "start s \<Longrightarrow> reach start step s"
| reach_step: "reach start step s \<Longrightarrow> step s t \<Longrightarrow> reach start step t"

lemma reach_run: "reach start step s \<Longrightarrow> step\<^sup>*\<^sup>* s t \<Longrightarrow> reach start step t"
  by (rotate_tac, induction rule: rtranclp_induct) (auto intro: reach_step)

locale invariant_system =
  fixes start :: "'s \<Rightarrow> bool" and step :: "'s \<Rightarrow> 's \<Rightarrow> bool" and inv :: "'s \<Rightarrow> bool"
  assumes start_inv: "start s \<Longrightarrow> inv s"
    and step_inv: "step s t \<Longrightarrow> inv s \<Longrightarrow> inv t"
begin

lemma reach_inv: "reach start step s \<Longrightarrow> inv s"
  by (induction rule: reach.induct) (auto intro: start_inv step_inv)

lemma run_inv: "step\<^sup>*\<^sup>* s t \<Longrightarrow> inv s \<Longrightarrow> inv t"
  by (induction rule: rtranclp_induct) (auto intro: step_inv)

end

text \<open>A relation between the states before and after that every step keeps.\<close>

locale progress_system = invariant_system +
  fixes rel :: "'s \<Rightarrow> 's \<Rightarrow> bool"
  assumes rel_refl: "rel s s"
    and rel_trans: "rel s t \<Longrightarrow> rel t u \<Longrightarrow> rel s u"
    and step_rel: "step s t \<Longrightarrow> inv s \<Longrightarrow> rel s t"
begin

lemma run_rel: "step\<^sup>*\<^sup>* s t \<Longrightarrow> inv s \<Longrightarrow> rel s t"
  by (induction rule: rtranclp_induct) (auto intro: rel_refl rel_trans step_rel run_inv)

lemma reach_rel: "reach start step s \<Longrightarrow> step\<^sup>*\<^sup>* s t \<Longrightarrow> rel s t"
  by (auto intro: run_rel reach_inv)

end

text \<open>A system whose steps are steps of an abstract specification.\<close>

locale refinement_system = invariant_system +
  fixes abs :: "'s \<Rightarrow> 'a" and astep :: "'a \<Rightarrow> 'a \<Rightarrow> bool"
  assumes simulation: "step s t \<Longrightarrow> inv s \<Longrightarrow> astep (abs s) (abs t)"
begin

lemma run_refines: "step\<^sup>*\<^sup>* s t \<Longrightarrow> inv s \<Longrightarrow> astep\<^sup>*\<^sup>* (abs s) (abs t)"
proof (induction rule: rtranclp_induct)
  case (step t u)
  then have "astep (abs t) (abs u)" using simulation run_inv by blast
  with step show ?case by simp
qed simp

lemma reach_refines: "reach start step s \<Longrightarrow> reach (\<lambda>a. \<exists>s. start s \<and> a = abs s) astep (abs s)"
  by (induction rule: reach.induct) (auto intro: reach.intros simulation reach_inv)

end

end
