(* ===== verification/Json_Codec.thy ===== *)
theory Json_Codec
  imports Prelude
begin

text \<open>
  What the code uses of Python's \<open>json\<close> module: \<open>execution/spec.py\<close> encodes every value with
  \<open>json.dumps(value, sort_keys=True, separators=(",", ":"), allow_nan=False)\<close> before hashing,
  measuring or storing it. \<open>dumps\<close> is that encoder (ASCII output, sorted keys, no spaces); the
  main result is that it is injective on dictionaries with sorted distinct keys, so a digest
  of the encoding binds the whole value.
\<close>

datatype json =
    JNull
  | JBool bool
  | JInt int
  | JStr string
  | JArr "json list"
  | JObj "(string \<times> json) list"

section \<open>Numbers\<close>

definition digit_char :: "nat \<Rightarrow> char" where
  "digit_char d = char_of (48 + d)"

fun show_nat :: "nat \<Rightarrow> string" where
  "show_nat n = (if n < 10 then [digit_char n] else show_nat (n div 10) @ [digit_char (n mod 10)])"

declare show_nat.simps [simp del]

definition show_int :: "int \<Rightarrow> string" where
  "show_int i = (if i < 0 then CHR ''-'' # show_nat (nat (- i)) else show_nat (nat i))"

section \<open>Strings\<close>

definition hex_char :: "nat \<Rightarrow> char" where
  "hex_char d = (if d < 10 then digit_char d else char_of (87 + d))"

text \<open>Python's \<open>ESCAPE_ASCII\<close>: the quote, the backslash, and everything outside space to tilde.\<close>

definition esc_char :: "char \<Rightarrow> string" where
  "esc_char c =
     (if c = CHR 0x22 then [CHR 0x5C, CHR 0x22]
      else if c = CHR 0x5C then [CHR 0x5C, CHR 0x5C]
      else if c = CHR 0x0A then [CHR 0x5C, CHR ''n'']
      else if c = CHR 0x0D then [CHR 0x5C, CHR ''r'']
      else if c = CHR 0x09 then [CHR 0x5C, CHR ''t'']
      else if c = CHR 0x0C then [CHR 0x5C, CHR ''f'']
      else if c = CHR 0x08 then [CHR 0x5C, CHR ''b'']
      else if 32 \<le> (of_char c :: nat) \<and> (of_char c :: nat) \<le> 126 then [c]
      else [CHR 0x5C, CHR ''u'', CHR ''0'', CHR ''0'',
            hex_char (of_char c div 16), hex_char (of_char c mod 16)])"

definition quoted :: "string \<Rightarrow> string" where
  "quoted s = CHR 0x22 # concat (map esc_char s) @ [CHR 0x22]"

section \<open>Values\<close>

fun join :: "string list \<Rightarrow> string" where
  "join [] = []"
| "join [x] = x"
| "join (x # y # ys) = x @ CHR '','' # join (y # ys)"

fun dumps :: "json \<Rightarrow> string" where
  "dumps JNull = ''null''"
| "dumps (JBool b) = (if b then ''true'' else ''false'')"
| "dumps (JInt i) = show_int i"
| "dumps (JStr s) = quoted s"
| "dumps (JArr xs) = CHR ''['' # join (map dumps xs) @ '']''"
| "dumps (JObj kvs) =
     CHR ''{'' # join (map snd (sort_key fst
        (map (\<lambda>(k, v). (k, quoted k @ CHR '':'' # dumps v)) kvs))) @ ''}''"

text \<open>A value as a parsed document has it: every dictionary lists its keys once, in order.\<close>

fun canonical :: "json \<Rightarrow> bool" where
  "canonical (JArr xs) = list_all canonical xs"
| "canonical (JObj kvs) = (sorted_wrt (<) (map fst kvs) \<and> list_all (\<lambda>(k, v). canonical v) kvs)"
| "canonical _ = True"

section \<open>The encoding of numbers is injective\<close>

definition nodigit :: "string \<Rightarrow> bool" where
  "nodigit xs \<longleftrightarrow> (case xs of [] \<Rightarrow> True | c # _ \<Rightarrow> \<not> is_digit c)"

lemma less_eq_char_nat: "c \<le> d \<longleftrightarrow> (of_char c :: nat) \<le> of_char d"
  by (simp add: less_eq_char_def)

lemma is_digit_nat: "is_digit c \<longleftrightarrow> 48 \<le> (of_char c :: nat) \<and> (of_char c :: nat) \<le> 57"
  by (simp add: is_digit_def in_range_def less_eq_char_nat)

lemma of_char_digit: "d < 10 \<Longrightarrow> (of_char (digit_char d) :: nat) = 48 + d"
  by (simp add: digit_char_def)

lemma is_digit_digit_char: "d < 10 \<Longrightarrow> is_digit (digit_char d)"
  by (simp add: is_digit_nat of_char_digit)

lemma show_nat_digits: "list_all is_digit (show_nat n)"
proof (induction n rule: show_nat.induct)
  case (1 n)
  then show ?case
    by (subst show_nat.simps) (auto simp: is_digit_digit_char)
qed

lemma show_nat_nonempty: "show_nat n \<noteq> []"
  by (subst show_nat.simps) simp

definition read_nat :: "string \<Rightarrow> nat" where
  "read_nat s = foldl (\<lambda>a c. 10 * a + (of_char c - 48)) 0 s"

lemma read_show_nat: "read_nat (show_nat n) = n"
proof (induction n rule: show_nat.induct)
  case (1 n)
  show ?case
  proof (cases "n < 10")
    case True
    then show ?thesis by (subst show_nat.simps) (simp add: read_nat_def of_char_digit)
  next
    case False
    then have "read_nat (show_nat n) = 10 * read_nat (show_nat (n div 10)) + n mod 10"
      by (subst show_nat.simps) (simp add: read_nat_def of_char_digit)
    with 1 False show ?thesis by simp
  qed
qed

lemma show_nat_prefix:
  assumes "show_nat n @ xs = show_nat m @ ys" and "nodigit xs" and "nodigit ys"
  shows "n = m \<and> xs = ys"
proof -
  have tw: "takeWhile is_digit (show_nat k @ zs) = show_nat k" if "nodigit zs" for k zs
    using that show_nat_digits [of k]
    by (auto simp: takeWhile_append nodigit_def list_all_iff split: list.splits)
  from assms have "show_nat n = show_nat m" by (metis tw)
  with assms(1) show ?thesis by (metis read_show_nat same_append_eq)
qed

lemma show_nat_hd: "\<exists>c cs. show_nat n = c # cs \<and> is_digit c"
  using show_nat_digits [of n] show_nat_nonempty [of n] by (cases "show_nat n") auto

lemma show_int_prefix:
  assumes "show_int i @ xs = show_int j @ ys" and "nodigit xs" and "nodigit ys"
  shows "i = j \<and> xs = ys"
proof -
  have minus: "\<not> is_digit (CHR ''-'')" by (simp add: is_digit_nat)
  have hd: "show_nat k @ zs \<noteq> CHR ''-'' # us" for k zs us
    using show_nat_hd [of k] minus by auto
  consider "i < 0" "j < 0" | "\<not> i < 0" "\<not> j < 0"
    using assms(1) hd hd [symmetric] by (cases "i < 0"; cases "j < 0") (auto simp: show_int_def)
  then show ?thesis
  proof cases
    case 1
    with assms show_nat_prefix [of "nat (- i)" xs "nat (- j)" ys]
    have "nat (- i) = nat (- j) \<and> xs = ys" by (simp add: show_int_def)
    with 1 show ?thesis by arith
  next
    case 2
    with assms show_nat_prefix [of "nat i" xs "nat j" ys]
    have "nat i = nat j \<and> xs = ys" by (simp add: show_int_def)
    with 2 show ?thesis by arith
  qed
qed

lemma show_int_hd: "\<exists>c cs. show_int i = c # cs \<and> (is_digit c \<or> c = CHR ''-'')"
  using show_nat_hd [of "nat i"] by (auto simp: show_int_def)

section \<open>The encoding of strings is injective\<close>

definition unhex :: "char \<Rightarrow> nat" where
  "unhex c = (if (of_char c :: nat) < 58 then of_char c - 48 else of_char c - 87)"

lemma unhex_hex_char: "d < 16 \<Longrightarrow> unhex (hex_char d) = d"
  by (auto simp: unhex_def hex_char_def digit_char_def)

text \<open>Reading one escaped character back.\<close>

fun unesc :: "string \<Rightarrow> char \<times> string" where
  "unesc (a # xs) =
     (if a \<noteq> CHR 0x5C then (a, xs)
      else case xs of
        b # ys \<Rightarrow>
          if b = CHR ''n'' then (CHR 0x0A, ys)
          else if b = CHR ''r'' then (CHR 0x0D, ys)
          else if b = CHR ''t'' then (CHR 0x09, ys)
          else if b = CHR ''f'' then (CHR 0x0C, ys)
          else if b = CHR ''b'' then (CHR 0x08, ys)
          else if b = CHR ''u'' then
            (case ys of _ # _ # h # l # zs \<Rightarrow> (char_of (16 * unhex h + unhex l), zs) | _ \<Rightarrow> (b, ys))
          else (b, ys)
      | [] \<Rightarrow> (a, xs))"
| "unesc [] = (CHR 0x00, [])"

lemma unesc_esc_char: "unesc (esc_char c @ xs) = (c, xs)"
proof -
  have "(of_char c :: nat) div 16 < 16"
    using nat_of_char_less_256 [of c] by linarith
  then show ?thesis
    by (auto simp: esc_char_def unhex_hex_char)
qed

lemma esc_char_prefix: "esc_char c @ xs = esc_char d @ ys \<Longrightarrow> c = d \<and> xs = ys"
  by (metis unesc_esc_char prod.inject)

lemma esc_char_hd: "\<exists>h t. esc_char c = h # t \<and> h \<noteq> CHR 0x22"
  by (simp add: esc_char_def)

lemma esc_string_prefix:
  "concat (map esc_char s) @ CHR 0x22 # xs = concat (map esc_char t) @ CHR 0x22 # ys \<Longrightarrow>
     s = t \<and> xs = ys"
proof (induction s arbitrary: t)
  case Nil
  then show ?case using esc_char_hd by (cases t) (auto, metis append_Cons list.inject)
next
  case (Cons c s)
  show ?case
  proof (cases t)
    case Nil
    with Cons.prems show ?thesis using esc_char_hd [of c] by auto
  next
    case (Cons d t')
    with Cons.prems have "esc_char c @ concat (map esc_char s) @ CHR 0x22 # xs =
        esc_char d @ concat (map esc_char t') @ CHR 0x22 # ys" by simp
    from esc_char_prefix [OF this] Cons.IH [of t'] Cons show ?thesis by simp
  qed
qed

lemma quoted_prefix: "quoted s @ xs = quoted t @ ys \<Longrightarrow> s = t \<and> xs = ys"
  by (rule esc_string_prefix) (simp add: quoted_def)

section \<open>The encoding of values is injective\<close>

lemma join_Cons: "join (x # xs) @ z = x @ (if xs = [] then z else CHR '','' # join xs @ z)"
  by (cases xs) auto

text \<open>
  A sequence of items between a bracket and its closing character \<open>c\<close>, each item encoded by a
  prefix-free \<open>e\<close>, is read back uniquely.
\<close>

lemma join_prefix:
  assumes item: "\<And>x y r s. x \<in> set xs \<Longrightarrow> y \<in> set ys \<Longrightarrow> e x @ r = e y @ s \<Longrightarrow>
      nodigit r \<Longrightarrow> nodigit s \<Longrightarrow> x = y \<and> r = s"
    and start: "\<And>x r s'. x \<in> set xs \<union> set ys \<Longrightarrow> e x @ r \<noteq> c # s'"
    and c: "\<not> is_digit c" "c \<noteq> CHR '',''"
    and eq: "join (map e xs) @ c # r = join (map e ys) @ c # s"
  shows "xs = ys \<and> r = s"
  using item start eq
proof (induction xs arbitrary: ys)
  case Nil
  show ?case
  proof (cases ys)
    case Nil
    with Nil.prems show ?thesis by simp
  next
    case (Cons y ys')
    with Nil.prems(3) have "e y @ (if ys' = [] then c # s else CHR '','' # join (map e ys') @ c # s) = c # r"
      by (simp add: join_Cons)
    with Nil.prems(2) [of y] Cons show ?thesis by auto
  qed
next
  case (Cons x xs)
  let ?tl = "\<lambda>zs q. if zs = [] then c # q else CHR '','' # join (map e zs) @ c # q"
  have nd: "nodigit (?tl zs q)" for zs q
    using c(1) by (simp add: nodigit_def is_digit_nat)
  show ?case
  proof (cases ys)
    case Nil
    with Cons.prems(3) have "e x @ ?tl xs r = c # s" by (simp add: join_Cons)
    with Cons.prems(2) [of x] show ?thesis by auto
  next
    case ys: (Cons y ys')
    with Cons.prems(3) have "e x @ ?tl xs r = e y @ ?tl ys' s" by (simp add: join_Cons)
    then have "x = y \<and> ?tl xs r = ?tl ys' s"
      by (intro Cons.prems(1)) (simp_all add: ys nd)
    then have xy: "x = y" and tl: "?tl xs r = ?tl ys' s" by blast+
    show ?thesis
    proof (cases "xs = [] \<or> ys' = []")
      case True
      with tl c(2) xy ys show ?thesis by (auto split: if_splits)
    next
      case False
      with tl have "join (map e xs) @ c # r = join (map e ys') @ c # s" by simp
      moreover have "\<And>u v p q. u \<in> set xs \<Longrightarrow> v \<in> set ys' \<Longrightarrow> e u @ p = e v @ q \<Longrightarrow>
          nodigit p \<Longrightarrow> nodigit q \<Longrightarrow> u = v \<and> p = q"
        using Cons.prems(1) ys by auto
      moreover have "\<And>u p q. u \<in> set xs \<union> set ys' \<Longrightarrow> e u @ p \<noteq> c # q"
        using Cons.prems(2) ys by auto
      ultimately have "xs = ys' \<and> r = s" using Cons.IH [of ys'] by blast
      with xy ys show ?thesis by simp
    qed
  qed
qed

text \<open>The first character of an encoding tells which constructor it came from.\<close>

definition char_tag :: "char \<Rightarrow> char" where
  "char_tag c = (if is_digit c \<or> c = CHR ''-'' then CHR ''0'' else c)"

fun json_tag :: "json \<Rightarrow> char" where
  "json_tag JNull = CHR ''n''"
| "json_tag (JBool b) = (if b then CHR ''t'' else CHR ''f'')"
| "json_tag (JInt _) = CHR ''0''"
| "json_tag (JStr _) = CHR 0x22"
| "json_tag (JArr _) = CHR ''[''"
| "json_tag (JObj _) = CHR ''{''"

lemma dumps_tag: "\<exists>c cs. dumps v = c # cs \<and> char_tag c = json_tag v"
  using show_int_hd by (cases v) (auto simp: char_tag_def quoted_def is_digit_nat, metis)

lemma dumps_start: "char_tag c \<noteq> json_tag v \<Longrightarrow> dumps v @ r \<noteq> c # s"
  using dumps_tag [of v] by auto

lemma dumps_tag_eq: "dumps a @ xs = dumps b @ ys \<Longrightarrow> json_tag a = json_tag b"
  using dumps_tag [of a] dumps_tag [of b] by (metis append_Cons list.inject)

lemma sort_encoded_fields:
  assumes "sorted_wrt (<) (map fst kvs)"
  shows "map snd (sort_key fst (map (\<lambda>(k, v). (k, quoted k @ CHR '':'' # dumps v)) kvs)) =
    map (\<lambda>(k, v). quoted k @ CHR '':'' # dumps v) kvs"
proof -
  have "sorted (map fst (map (\<lambda>(k, v). (k, quoted k @ CHR '':'' # dumps v)) kvs))"
    using strict_sorted_imp_sorted [OF assms] by (simp add: comp_def case_prod_unfold)
  then show ?thesis by (simp add: sorted_sort_id sort_key_id_if_sorted case_prod_unfold comp_def)
qed

theorem dumps_prefix:
  assumes "canonical a" and "canonical b" and "dumps a @ xs = dumps b @ ys"
    and "nodigit xs" and "nodigit ys"
  shows "a = b \<and> xs = ys"
  using assms
proof (induction a arbitrary: b xs ys)
  case (JNull b)
  moreover have "json_tag b = CHR ''n''"
    using dumps_tag_eq [OF JNull.prems(3)] by simp
  ultimately show ?case by (cases b) (auto split: if_splits)
next
  case (JBool v b)
  moreover have "json_tag b = json_tag (JBool v)"
    using dumps_tag_eq [OF JBool.prems(3)] by simp
  ultimately show ?case by (cases b) (auto split: if_splits)
next
  case (JInt i b)
  have "json_tag b = json_tag (JInt i)"
    using dumps_tag_eq [OF JInt.prems(3)] by simp
  then obtain j where "b = JInt j" by (cases b) (auto split: if_splits)
  with JInt.prems show ?case using show_int_prefix [of i xs j ys] by simp
next
  case (JStr s b)
  have "json_tag b = json_tag (JStr s)"
    using dumps_tag_eq [OF JStr.prems(3)] by simp
  then obtain t where "b = JStr t" by (cases b) (auto split: if_splits)
  with JStr.prems(3) show ?case using quoted_prefix [of s xs t ys] by simp
next
  case (JArr us b)
  have "json_tag b = json_tag (JArr us)"
    using dumps_tag_eq [OF JArr.prems(3)] by simp
  then obtain vs where b: "b = JArr vs" by (cases b) (auto split: if_splits)
  have "us = vs \<and> xs = ys"
  proof (rule join_prefix)
    show "join (map dumps us) @ CHR '']'' # xs = join (map dumps vs) @ CHR '']'' # ys"
      using JArr.prems(3) b by simp
    show "\<And>x y r s. x \<in> set us \<Longrightarrow> y \<in> set vs \<Longrightarrow> dumps x @ r = dumps y @ s \<Longrightarrow>
        nodigit r \<Longrightarrow> nodigit s \<Longrightarrow> x = y \<and> r = s"
      using JArr.IH JArr.prems(1,2) b by (auto simp: list_all_iff)
    show "\<And>x r s. x \<in> set us \<union> set vs \<Longrightarrow> dumps x @ r \<noteq> CHR '']'' # s"
    proof (rule dumps_start)
      show "char_tag (CHR '']'') \<noteq> json_tag x" for x
        by (cases x) (auto simp: char_tag_def is_digit_nat)
    qed
  qed (simp_all add: is_digit_nat)
  with b show ?case by simp
next
  case (JObj us b)
  have "json_tag b = json_tag (JObj us)"
    using dumps_tag_eq [OF JObj.prems(3)] by simp
  then obtain vs where b: "b = JObj vs" by (cases b) (auto split: if_splits)
  let ?e = "\<lambda>(k, v). quoted k @ CHR '':'' # dumps v"
  have "us = vs \<and> xs = ys"
  proof (rule join_prefix)
    show "join (map ?e us) @ CHR ''}'' # xs = join (map ?e vs) @ CHR ''}'' # ys"
      using JObj.prems(1-3) b by (simp add: sort_encoded_fields)
    fix x y r s
    assume x: "x \<in> set us" and y: "y \<in> set vs" and eq: "?e x @ r = ?e y @ s"
      and nd: "nodigit r" "nodigit s"
    obtain k v k' v' where xy: "x = (k, v)" "y = (k', v')" by fastforce
    with eq have "quoted k @ CHR '':'' # dumps v @ r = quoted k' @ CHR '':'' # dumps v' @ s" by simp
    from quoted_prefix [OF this] have k: "k = k'" and v: "dumps v @ r = dumps v' @ s" by auto
    have "v = v' \<and> r = s"
    proof (rule JObj.IH [of x v])
      show "v \<in> Basic_BNFs.snds x" using xy by simp
      show "canonical v" "canonical v'"
        using JObj.prems(1,2) b x y xy by (auto simp: list_all_iff)
    qed (use x v nd in auto)
    with k xy show "x = y \<and> r = s" by simp
  next
    show "\<And>x r s. x \<in> set us \<union> set vs \<Longrightarrow> ?e x @ r \<noteq> CHR ''}'' # s"
      by (auto simp: quoted_def)
  qed (simp_all add: is_digit_nat)
  with b show ?case by simp
qed

corollary dumps_inject:
  assumes "canonical a" and "canonical b" and "dumps a = dumps b"
  shows "a = b"
  using dumps_prefix [OF assms(1,2), of "[]" "[]"] assms(3) by (simp add: nodigit_def)

section \<open>A bound on the length of the encoding\<close>

fun json_bound :: "json \<Rightarrow> nat" where
  "json_bound JNull = 4"
| "json_bound (JBool b) = 5"
| "json_bound (JInt i) = nat \<bar>i\<bar> + 2"
| "json_bound (JStr s) = 6 * length s + 2"
| "json_bound (JArr xs) = 2 + sum_list (map (\<lambda>x. json_bound x + 1) xs)"
| "json_bound (JObj kvs) = 2 + sum_list (map (\<lambda>(k, v). 6 * length k + 4 + json_bound v) kvs)"

lemma length_show_nat: "length (show_nat n) \<le> n + 1"
proof (induction n rule: show_nat.induct)
  case (1 n)
  show ?case
  proof (cases "n < 10")
    case False
    have "n div 10 + 1 \<le> n" using False by linarith
    with 1 [OF False] False show ?thesis by (subst show_nat.simps) simp
  qed (simp add: show_nat.simps)
qed

lemma length_quoted: "length (quoted s) \<le> 6 * length s + 2"
proof -
  have e: "length (esc_char c) \<le> 6" for c by (simp add: esc_char_def)
  have "length (concat (map esc_char s)) \<le> 6 * length s"
  proof (induction s)
    case (Cons c s)
    then show ?case using e [of c] by simp
  qed simp
  then show ?thesis by (simp add: quoted_def)
qed

lemma length_join: "length (join xs) \<le> sum_list (map (\<lambda>x. length x + 1) xs)"
  by (induction xs rule: join.induct) auto

lemma sum_list_sort_key: "sum_list (map f (sort_key k xs)) = (sum_list (map f xs) :: nat)"
  by (metis mset_map mset_sort sum_mset_sum_list)

lemma length_dumps: "length (dumps v) \<le> json_bound v"
proof (induction v rule: dumps.induct)
  case (3 i)
  then show ?case using length_show_nat [of "nat i"] length_show_nat [of "nat (- i)"] by (simp add: show_int_def)
next
  case (4 s)
  then show ?case using length_quoted by simp
next
  case (5 xs)
  then have "sum_list (map (\<lambda>x. length x + 1) (map dumps xs)) \<le> sum_list (map (\<lambda>x. json_bound x + 1) xs)"
    by (simp add: comp_def) (intro sum_list_mono, simp)
  with length_join [of "map dumps xs"] show ?case by simp
next
  case (6 kvs)
  let ?e = "\<lambda>(k, v). (k, quoted k @ CHR '':'' # dumps v)"
  let ?l = "\<lambda>p. length (snd p) + 1"
  have "sum_list (map ?l (map ?e kvs)) \<le> sum_list (map (\<lambda>(k, v). 6 * length k + 4 + json_bound v) kvs)"
    unfolding map_map
  proof (rule sum_list_mono)
    fix p assume p: "p \<in> set kvs"
    obtain k v where kv: "p = (k, v)" by (cases p)
    have "length (dumps v) \<le> json_bound v" using 6 p kv by auto
    then show "(?l \<circ> ?e) p \<le> (\<lambda>(k, v). 6 * length k + 4 + json_bound v) p"
      using length_quoted [of k] by (simp add: kv)
  qed
  moreover have "length (join (map snd (sort_key fst (map ?e kvs)))) \<le> sum_list (map ?l (map ?e kvs))"
    using length_join [of "map snd (sort_key fst (map ?e kvs))"] sum_list_sort_key [of ?l fst "map ?e kvs"]
    by (simp add: comp_def)
  ultimately show ?case by simp
qed simp_all

end
