(* ===== verification/Sha256.thy ===== *)
theory Sha256
  imports Json_Codec "HOL-Library.Word"
begin

unbundle bit_operations_syntax

text \<open>
  What the code uses of Python's \<open>hashlib\<close>: \<open>sha256_hex s\<close> is \<open>hashlib.sha256(s).hexdigest()\<close>
  (FIPS 180-4, over 32-bit words) of the bytes of \<open>s\<close>. The development only needs that a digest
  is 64 lower-case hexadecimal characters and that it is a function of its input.
\<close>

type_synonym u32 = "32 word"

definition rotr :: "nat \<Rightarrow> u32 \<Rightarrow> u32" where
  "rotr n w = drop_bit n w OR push_bit (32 - n) w"

text \<open>
  The round constants are the first 32 bits of the fractional parts of the cube roots of the
  first 64 primes, the initial state those of the square roots of the first eight. \<open>root_bits\<close>
  builds the integer root bit by bit from the highest.
\<close>

fun root_bits :: "nat \<Rightarrow> nat \<Rightarrow> nat \<Rightarrow> nat \<Rightarrow> nat" where
  "root_bits k n 0 acc = acc"
| "root_bits k n (Suc i) acc = root_bits k n i (if (acc + 2 ^ i) ^ k \<le> n then acc + 2 ^ i else acc)"

definition frac_root :: "nat \<Rightarrow> nat \<Rightarrow> u32" where
  "frac_root k p = word_of_nat (root_bits k (p * 2 ^ (32 * k)) 36 0)"

definition sha_primes :: "nat list" where
  "sha_primes = filter (\<lambda>n. 2 \<le> n \<and> (\<forall>d\<in>set [2..<n]. n mod d \<noteq> 0)) [0..<312]"

definition sha_k :: "u32 list" where
  "sha_k = map (frac_root 3) sha_primes"

type_synonym sha_state = "u32 \<times> u32 \<times> u32 \<times> u32 \<times> u32 \<times> u32 \<times> u32 \<times> u32"

definition sha_init :: sha_state where
  "sha_init = (frac_root 2 2, frac_root 2 3, frac_root 2 5, frac_root 2 7,
     frac_root 2 11, frac_root 2 13, frac_root 2 17, frac_root 2 19)"

fun sha_round :: "u32 \<times> u32 \<Rightarrow> sha_state \<Rightarrow> sha_state" where
  "sha_round (k, w) (a, b, c, d, e, f, g, h) =
     (let s1 = rotr 6 e XOR rotr 11 e XOR rotr 25 e;
          ch = (e AND f) XOR (NOT e AND g);
          t1 = h + s1 + ch + k + w;
          s0 = rotr 2 a XOR rotr 13 a XOR rotr 22 a;
          maj = (a AND b) XOR (a AND c) XOR (b AND c);
          t2 = s0 + maj
      in (t1 + t2, a, b, c, d + t1, e, f, g))"

text \<open>The message schedule: \<open>n\<close> more words after the ones in \<open>ws\<close>.\<close>

fun sha_extend :: "nat \<Rightarrow> u32 list \<Rightarrow> u32 list" where
  "sha_extend 0 ws = ws"
| "sha_extend (Suc n) ws =
     (let t = length ws; w15 = ws ! (t - 15); w2 = ws ! (t - 2);
          s0 = rotr 7 w15 XOR rotr 18 w15 XOR drop_bit 3 w15;
          s1 = rotr 17 w2 XOR rotr 19 w2 XOR drop_bit 10 w2
      in sha_extend n (ws @ [ws ! (t - 16) + s0 + ws ! (t - 7) + s1]))"

fun sha_words :: "char list \<Rightarrow> u32 list" where
  "sha_words (a # b # c # d # bs) =
     (push_bit 24 (of_char a) OR push_bit 16 (of_char b) OR push_bit 8 (of_char c) OR of_char d) # sha_words bs"
| "sha_words _ = []"

fun sha_add :: "sha_state \<Rightarrow> sha_state \<Rightarrow> sha_state" where
  "sha_add (a, b, c, d, e, f, g, h) (a', b', c', d', e', f', g', h') =
     (a + a', b + b', c + c', d + d', e + e', f + f', g + g', h + h')"

definition sha_block :: "sha_state \<Rightarrow> char list \<Rightarrow> sha_state" where
  "sha_block st bs = sha_add st (fold sha_round (zip sha_k (sha_extend 48 (sha_words bs))) st)"

function sha_blocks :: "sha_state \<Rightarrow> char list \<Rightarrow> sha_state" where
  "sha_blocks st bs = (if bs = [] then st else sha_blocks (sha_block st (take 64 bs)) (drop 64 bs))"
  by pat_completeness auto
termination
  by (relation "measure (\<lambda>(st, bs). length bs)") auto

declare sha_blocks.simps [simp del]

fun be_bytes :: "nat \<Rightarrow> nat \<Rightarrow> char list" where
  "be_bytes 0 n = []"
| "be_bytes (Suc k) n = be_bytes k (n div 256) @ [char_of n]"

definition sha_pad :: "char list \<Rightarrow> char list" where
  "sha_pad m = m @ CHR 0x80 # replicate ((119 - length m mod 64) mod 64) (CHR 0x00) @ be_bytes 8 (8 * length m)"

fun hex_digits :: "nat \<Rightarrow> int \<Rightarrow> string" where
  "hex_digits 0 n = []"
| "hex_digits (Suc k) n = hex_digits k (n div 16) @ [hex_char (nat (n mod 16))]"

definition hex32 :: "u32 \<Rightarrow> string" where
  "hex32 w = hex_digits 8 (uint w)"

definition sha256_hex :: "char list \<Rightarrow> string" where
  "sha256_hex m =
     (let (a, b, c, d, e, f, g, h) = sha_blocks sha_init (sha_pad m)
      in hex32 a @ hex32 b @ hex32 c @ hex32 d @ hex32 e @ hex32 f @ hex32 g @ hex32 h)"

lemma hex_digits_length: "length (hex_digits k n) = k"
  by (induction k arbitrary: n) auto

lemma is_hex_hex_char: "d < 16 \<Longrightarrow> is_hex (hex_char d)"
  by (auto simp: is_hex_def is_digit_nat in_range_def less_eq_char_nat hex_char_def digit_char_def)

lemma hex_digits_hex: "list_all is_hex (hex_digits k n)"
  by (induction k arbitrary: n) (auto simp: is_hex_hex_char)

lemma sha256_hex_shape: "length (sha256_hex m) = 64 \<and> list_all is_hex (sha256_hex m)"
  by (auto simp: sha256_hex_def hex32_def hex_digits_length hex_digits_hex split: prod.splits)

text \<open>The padded message is a whole number of 64-byte blocks.\<close>

lemma sha_pad_blocks: "64 dvd length (sha_pad m)"
proof -
  define q r where "q = length m div 64" and "r = length m mod 64"
  then have m: "length m = 64 * q + r" and r: "r < 64" by auto
  have be: "length (be_bytes k n) = k" for k n by (induction k arbitrary: n) auto
  have "r + 1 + (119 - r) mod 64 + 8 = (if r \<le> 55 then 64 else 128)"
  proof (cases "r \<le> 55")
    case True
    then have "(119 - r) mod 64 = (55 - r + 64) mod 64" by (simp add: algebra_simps)
    also have "\<dots> = 55 - r" by (simp del: add_diff_assoc add_diff_assoc2)
    finally show ?thesis using True by simp
  qed (use r in simp)
  then have "length (sha_pad m) = 64 * q + (if r \<le> 55 then 64 else 128)"
    by (simp add: sha_pad_def be m r)
  then show ?thesis by auto
qed

end
