(* ===== verification/Exec_Spec.thy ===== *)
theory Exec_Spec
  imports Sha256
begin

text \<open>
  Execution identities, resource requests and immutable attempt plans
  (\<open>src/ficc/execution/spec.py\<close>). Each pydantic model is a record; \<open>valid_\<close> followed by its
  name collects the field constraints and the model validators of the class, and
  \<open>_dump\<close> is \<open>model_dump()\<close> with the dictionary's entries in key order. A dictionary of the
  model (the environment of a payload) is the list of its entries in key order as well, so
  equality of dictionaries is equality of lists.

  Main results: the canonical encoding of a plan determines the plan, an accepted output
  path cannot leave the work directory, and the resource order \<open>fits\<close> is a preorder that is
  antisymmetric on the six scalar resources.
\<close>

section \<open>Scalar types\<close>

definition Identity :: "string \<Rightarrow> bool" where
  [valid_defs]: "Identity s \<longleftrightarrow> length s = 32 \<and> list_all is_hex s"

definition Digest :: "string \<Rightarrow> bool" where
  "Digest s \<longleftrightarrow> take 7 s = ''sha256:'' \<and> length (drop 7 s) = 64 \<and> list_all is_hex (drop 7 s)"

definition name_char :: "char \<Rightarrow> bool" where
  "name_char c \<longleftrightarrow> is_lower c \<or> is_digit c \<or> c = CHR ''_'' \<or> c = CHR ''.'' \<or> c = CHR ''-''"

definition Name :: "string \<Rightarrow> bool" where
  "Name s \<longleftrightarrow> head_tail is_lower name_char 79 s"

definition Count :: "int \<Rightarrow> bool" where
  [valid_defs]: "Count n \<longleftrightarrow> 0 \<le> n \<and> n \<le> 2 ^ 63 - 1"

definition Positive :: "int \<Rightarrow> bool" where
  [valid_defs]: "Positive n \<longleftrightarrow> 1 \<le> n \<and> n \<le> 2 ^ 63 - 1"

definition Revision :: "int \<Rightarrow> bool" where
  [valid_defs]: "Revision n \<longleftrightarrow> 1 \<le> n \<and> n \<le> 2 ^ 53 - 1"

definition Device :: "string \<Rightarrow> bool" where
  "Device s \<longleftrightarrow> head_tail is_alnum
     (\<lambda>c. is_alnum c \<or> c \<in> set ''_.:/-'') 127 s"

definition Argument :: "string \<Rightarrow> bool" where
  "Argument s \<longleftrightarrow> length s \<le> 16384"

definition Variable :: "string \<Rightarrow> bool" where
  "Variable s \<longleftrightarrow> head_tail (\<lambda>c. is_alpha c \<or> c = CHR ''_'') (\<lambda>c. is_alnum c \<or> c = CHR ''_'') 127 s"

section \<open>Encoding and digest\<close>

definition encoded :: "json \<Rightarrow> string" where
  "encoded v = dumps v"

definition digest :: "json \<Rightarrow> string" where
  "digest v = ''sha256:'' @ sha256_hex (encoded v)"

lemma digest_Digest: "Digest (digest v)"
  using sha256_hex_shape [of "encoded v"] by (simp add: Digest_def digest_def)

definition opt_json :: "('a \<Rightarrow> json) \<Rightarrow> 'a option \<Rightarrow> json" where
  "opt_json f x = (case x of None \<Rightarrow> JNull | Some v \<Rightarrow> f v)"

section \<open>Limits\<close>

record limits =
  cpu_millis :: int
  memory_bytes :: int
  swap_bytes :: int
  processes :: int
  storage_bytes :: int
  storage_inodes :: int
  gpu_devices :: "string list"

definition valid_limits :: "limits \<Rightarrow> bool" where
  [valid_defs]: "valid_limits l \<longleftrightarrow>
     Positive (cpu_millis l) \<and> Positive (memory_bytes l) \<and> Count (swap_bytes l) \<and>
     Positive (processes l) \<and> Positive (storage_bytes l) \<and> Positive (storage_inodes l) \<and>
     list_all Device (gpu_devices l) \<and> length (gpu_devices l) \<le> 64 \<and> distinct (gpu_devices l)"

definition fits :: "limits \<Rightarrow> limits \<Rightarrow> bool" where
  "fits l c \<longleftrightarrow>
     cpu_millis l \<le> cpu_millis c \<and> memory_bytes l \<le> memory_bytes c \<and>
     swap_bytes l \<le> swap_bytes c \<and> processes l \<le> processes c \<and>
     storage_bytes l \<le> storage_bytes c \<and> storage_inodes l \<le> storage_inodes c \<and>
     set (gpu_devices l) \<subseteq> set (gpu_devices c)"

definition limits_dump :: "limits \<Rightarrow> json" where
  "limits_dump l = JObj
     [(''cpu_millis'', JInt (cpu_millis l)),
      (''gpu_devices'', JArr (map JStr (gpu_devices l))),
      (''memory_bytes'', JInt (memory_bytes l)),
      (''processes'', JInt (processes l)),
      (''storage_bytes'', JInt (storage_bytes l)),
      (''storage_inodes'', JInt (storage_inodes l)),
      (''swap_bytes'', JInt (swap_bytes l))]"

section \<open>Runtime and payload\<close>

record runtime =
  rt_provider :: string
  rt_package_digest :: string
  rt_image_digest :: string
  rt_isolation :: string
  rt_network :: string

definition valid_runtime :: "runtime \<Rightarrow> bool" where
  [valid_defs]: "valid_runtime r \<longleftrightarrow>
     Name (rt_provider r) \<and> Digest (rt_package_digest r) \<and> Digest (rt_image_digest r) \<and>
     Name (rt_isolation r) \<and> Name (rt_network r)"

definition runtime_dump :: "runtime \<Rightarrow> json" where
  "runtime_dump r = JObj
     [(''image_digest'', JStr (rt_image_digest r)),
      (''isolation'', JStr (rt_isolation r)),
      (''network'', JStr (rt_network r)),
      (''package_digest'', JStr (rt_package_digest r)),
      (''provider'', JStr (rt_provider r))]"

record payload =
  pay_argv :: "string list"
  pay_environment :: "(string \<times> string) list"

definition payload_dump :: "payload \<Rightarrow> json" where
  "payload_dump p = JObj
     [(''argv'', JArr (map JStr (pay_argv p))),
      (''environment'', JObj (map (\<lambda>(k, v). (k, JStr v)) (pay_environment p)))]"

definition payload_bounded :: "payload \<Rightarrow> payload res" where
  "payload_bounded p =
     (case pay_argv p of
        [] \<Rightarrow> Inl ValueError
      | a # _ \<Rightarrow>
        if \<not> (take 1 a = ''/'')
            \<or> list_ex (\<lambda>s. CHR 0x00 \<in> set s) (pay_argv p @ map snd (pay_environment p))
        then Inl ValueError
        else if length (encoded (payload_dump p)) > 65536 then Inl ValueError
        else Inr p)"

definition valid_payload :: "payload \<Rightarrow> bool" where
  [valid_defs]: "valid_payload p \<longleftrightarrow>
     list_all Argument (pay_argv p) \<and> 1 \<le> length (pay_argv p) \<and> length (pay_argv p) \<le> 256 \<and>
     list_all (\<lambda>(k, v). Variable k \<and> Argument v) (pay_environment p) \<and>
     sorted_wrt (<) (map fst (pay_environment p)) \<and> length (pay_environment p) \<le> 64 \<and>
     payload_bounded p = Inr p"

section \<open>Input objects and outputs\<close>

datatype delivery = Local | Stream

record object_reference =
  obj_id :: string
  obj_digest :: string
  obj_bytes :: int
  obj_name :: string
  obj_delivery :: delivery

definition valid_object_reference :: "object_reference \<Rightarrow> bool" where
  [valid_defs]: "valid_object_reference r \<longleftrightarrow>
     Identity (obj_id r) \<and> Digest (obj_digest r) \<and> Count (obj_bytes r) \<and>
     head_tail is_alnum (\<lambda>c. is_alnum c \<or> c \<in> set ''_.-'') 127 (obj_name r)"

text \<open>The wrapping serializer drops the default delivery.\<close>

definition object_reference_dump :: "object_reference \<Rightarrow> json" where
  "object_reference_dump r = JObj
     ([(''bytes'', JInt (obj_bytes r))] @
      (case obj_delivery r of Local \<Rightarrow> [] | Stream \<Rightarrow> [(''delivery'', JStr ''stream'')]) @
      [(''digest'', JStr (obj_digest r)),
       (''id'', JStr (obj_id r)),
       (''name'', JStr (obj_name r))])"

record output_spec =
  out_name :: string
  out_path :: string

text \<open>
  \<open>PurePosixPath\<close>: a relative path's parts are the components between slashes without the
  empty ones and the single dots; its string joins them with slashes, or is a dot.
\<close>

fun split_on :: "char \<Rightarrow> string \<Rightarrow> string list" where
  "split_on c [] = [[]]"
| "split_on c (x # xs) =
     (if x = c then [] # split_on c xs
      else case split_on c xs of [] \<Rightarrow> [[x]] | p # ps \<Rightarrow> (x # p) # ps)"

fun join_with :: "char \<Rightarrow> string list \<Rightarrow> string" where
  "join_with c [] = []"
| "join_with c [p] = p"
| "join_with c (p # q # ps) = p @ c # join_with c (q # ps)"

definition path_parts :: "string \<Rightarrow> string list" where
  "path_parts s = filter (\<lambda>p. p \<noteq> [] \<and> p \<noteq> ''.'') (split_on (CHR ''/'') s)"

definition path_str :: "string \<Rightarrow> string" where
  "path_str s = (if path_parts s = [] then ''.'' else join_with (CHR ''/'') (path_parts s))"

definition below_work_directory :: "string \<Rightarrow> string res" where
  "below_work_directory s =
     (if take 1 s = ''/'' \<or> path_str s \<noteq> s \<or> path_parts s = [] \<or> ''..'' \<in> set (path_parts s)
         \<or> list_ex (\<lambda>c. (of_char c :: nat) < 32 \<or> (of_char c :: nat) = 127) s
      then Inl ValueError else Inr s)"

definition valid_output :: "output_spec \<Rightarrow> bool" where
  [valid_defs]: "valid_output r \<longleftrightarrow>
     Name (out_name r) \<and> 1 \<le> length (out_path r) \<and> length (out_path r) \<le> 4096 \<and>
     below_work_directory (out_path r) = Inr (out_path r)"

definition output_dump :: "output_spec \<Rightarrow> json" where
  "output_dump r = JObj [(''name'', JStr (out_name r)), (''path'', JStr (out_path r))]"

section \<open>Endpoint\<close>

record endpoint =
  ep_socket :: string
  ep_paths :: "string list"
  ep_concurrency :: int

definition allowed_routes :: "string list" where
  "allowed_routes =
     [''/health'', ''/v1/models'', ''/v1/chat/completions'', ''/v1/embeddings'', ''/api/version'',
      ''/api/blobs'', ''/api/create'', ''/api/show'', ''/api/ps'', ''/api/chat'', ''/api/embed'']"

definition valid_endpoint :: "endpoint \<Rightarrow> bool" where
  [valid_defs]: "valid_endpoint e \<longleftrightarrow>
     head_tail is_lower name_char 63 (ep_socket e) \<and>
     1 \<le> length (ep_paths e) \<and> length (ep_paths e) \<le> 16 \<and>
     1 \<le> ep_concurrency e \<and> ep_concurrency e \<le> 34 \<and>
     set (ep_paths e) \<subseteq> set allowed_routes \<and> distinct (ep_paths e)"

definition endpoint_dump :: "endpoint \<Rightarrow> json" where
  "endpoint_dump e = JObj
     [(''concurrency'', JInt (ep_concurrency e)),
      (''paths'', JArr (map JStr (ep_paths e))),
      (''socket'', JStr (ep_socket e))]"

section \<open>Job and plan\<close>

record job =
  job_name :: string
  job_runtime :: runtime
  job_payload :: payload
  job_limits :: limits
  job_inputs :: "object_reference list"
  job_outputs :: "output_spec list"
  job_sensitive :: bool
  job_endpoint :: "endpoint option"

definition valid_job :: "job \<Rightarrow> bool" where
  [valid_defs]: "valid_job j \<longleftrightarrow>
     1 \<le> length (job_name j) \<and> length (job_name j) \<le> 80 \<and>
     valid_runtime (job_runtime j) \<and> valid_payload (job_payload j) \<and> valid_limits (job_limits j) \<and>
     list_all valid_object_reference (job_inputs j) \<and> length (job_inputs j) \<le> 64 \<and>
     list_all valid_output (job_outputs j) \<and> length (job_outputs j) \<le> 64 \<and>
     pred_option valid_endpoint (job_endpoint j) \<and>
     distinct (map obj_id (job_inputs j)) \<and> distinct (map obj_name (job_inputs j)) \<and>
     distinct (map out_name (job_outputs j)) \<and> distinct (map out_path (job_outputs j))"

definition job_dump :: "job \<Rightarrow> json" where
  "job_dump j = JObj
     ((case job_endpoint j of None \<Rightarrow> [] | Some e \<Rightarrow> [(''endpoint'', endpoint_dump e)]) @
      [(''inputs'', JArr (map object_reference_dump (job_inputs j))),
       (''limits'', limits_dump (job_limits j)),
       (''name'', JStr (job_name j)),
       (''outputs'', JArr (map output_dump (job_outputs j))),
       (''payload'', payload_dump (job_payload j)),
       (''runtime'', runtime_dump (job_runtime j)),
       (''sensitive'', JBool (job_sensitive j))])"

record plan =
  plan_version :: int
  plan_deployment_id :: string
  plan_node_id :: string
  plan_project_id :: string
  plan_subject_id :: string
  plan_job_id :: string
  plan_attempt_id :: string
  plan_generation :: int
  plan_offer_revision :: int
  plan_policy_revision :: int
  plan_job :: job

definition plan_dump :: "plan \<Rightarrow> json" where
  "plan_dump p = JObj
     [(''attempt_id'', JStr (plan_attempt_id p)),
      (''deployment_id'', JStr (plan_deployment_id p)),
      (''generation'', JInt (plan_generation p)),
      (''job'', job_dump (plan_job p)),
      (''job_id'', JStr (plan_job_id p)),
      (''node_id'', JStr (plan_node_id p)),
      (''offer_revision'', JInt (plan_offer_revision p)),
      (''policy_revision'', JInt (plan_policy_revision p)),
      (''project_id'', JStr (plan_project_id p)),
      (''subject_id'', JStr (plan_subject_id p)),
      (''version'', JInt (plan_version p))]"

definition valid_plan :: "plan \<Rightarrow> bool" where
  [valid_defs]: "valid_plan p \<longleftrightarrow>
     plan_version p = 1 \<and> Identity (plan_deployment_id p) \<and> Identity (plan_node_id p) \<and>
     Identity (plan_project_id p) \<and> Identity (plan_subject_id p) \<and> Identity (plan_job_id p) \<and>
     Identity (plan_attempt_id p) \<and> Revision (plan_generation p) \<and>
     Revision (plan_offer_revision p) \<and> Count (plan_policy_revision p) \<and> valid_job (plan_job p) \<and>
     length (encoded (plan_dump p)) \<le> 131072"

definition digest_of_plan :: "plan \<Rightarrow> string" where
  "digest_of_plan p = digest (plan_dump p)"

section \<open>Fences, renewals, results\<close>

record fence =
  f_attempt_id :: string
  f_generation :: int
  f_plan_digest :: string

definition valid_fence :: "'a fence_scheme \<Rightarrow> bool" where
  [valid_defs]: "valid_fence f \<longleftrightarrow> Identity (f_attempt_id f) \<and> Revision (f_generation f) \<and> Digest (f_plan_digest f)"

definition plan_fence :: "plan \<Rightarrow> fence" where
  "plan_fence p = \<lparr>f_attempt_id = plan_attempt_id p, f_generation = plan_generation p, f_plan_digest = digest_of_plan p\<rparr>"

record renewal = fence +
  ren_sequence :: int
  ren_expires_at :: rat

definition valid_renewal :: "renewal \<Rightarrow> bool" where
  [valid_defs]: "valid_renewal r \<longleftrightarrow> valid_fence r \<and> Revision (ren_sequence r) \<and> ren_expires_at r > 0"

text \<open>
  The states of an attempt on the executor and on the controller, and of a job: each
  \<open>Literal\<close> of the schemas is a subset of this type.
\<close>

datatype wstate =
    Queued | Preparing | Prepared | Starting | Running
  | Succeeded | Failed | Cancelled | Expired | Unknown | Released | Abandoned

fun state_str :: "wstate \<Rightarrow> string" where
  "state_str Queued = ''queued''"
| "state_str Preparing = ''preparing''"
| "state_str Prepared = ''prepared''"
| "state_str Starting = ''starting''"
| "state_str Running = ''running''"
| "state_str Succeeded = ''succeeded''"
| "state_str Failed = ''failed''"
| "state_str Cancelled = ''cancelled''"
| "state_str Expired = ''expired''"
| "state_str Unknown = ''unknown''"
| "state_str Released = ''released''"
| "state_str Abandoned = ''abandoned''"

definition terminal :: "wstate set" where
  "terminal = {Succeeded, Failed, Cancelled, Expired}"

record attempt_result = fence +
  res_state :: wstate
  res_reason :: "string option"
  res_exit_code :: "int option"
  res_output_bytes :: int
  res_error_bytes :: int
  res_cleanup_confirmed :: bool

definition terminal_truth :: "'a attempt_result_scheme \<Rightarrow> bool" where
  "terminal_truth r \<longleftrightarrow>
     \<not> (res_state r = Released \<and> \<not> res_cleanup_confirmed r) \<and>
     \<not> (res_state r = Succeeded \<and> res_exit_code r \<noteq> Some 0)"

definition valid_attempt_result :: "'a attempt_result_scheme \<Rightarrow> bool" where
  [valid_defs]: "valid_attempt_result r \<longleftrightarrow>
     valid_fence r \<and> res_state r \<notin> {Queued, Preparing, Abandoned} \<and>
     pred_option Name (res_reason r) \<and> pred_option (\<lambda>c. 0 \<le> c \<and> c \<le> 255) (res_exit_code r) \<and>
     Count (res_output_bytes r) \<and> Count (res_error_bytes r) \<and> terminal_truth r"

section \<open>The encoding of a plan determines the plan\<close>

lemma less_char_nat: "c < d \<longleftrightarrow> (of_char c :: nat) < of_char d"
  by (simp add: less_char_def)

text \<open>The dump of each model, read as a parsed document, has sorted distinct keys.\<close>

named_theorems dump_defs \<open>the dumps of the models\<close>

declare limits_dump_def [dump_defs] runtime_dump_def [dump_defs] payload_dump_def [dump_defs]
  object_reference_dump_def [dump_defs] output_dump_def [dump_defs] endpoint_dump_def [dump_defs]

lemma canonical_strings: "list_all canonical (map JStr xs)"
  by (simp add: list_all_iff)

lemma canonical_limits: "canonical (limits_dump l)"
  by (simp add: dump_defs canonical_strings less_char_nat)

lemma canonical_runtime: "canonical (runtime_dump r)"
  by (simp add: dump_defs less_char_nat)

lemma canonical_payload:
  assumes "sorted_wrt (<) (map fst (pay_environment p))"
  shows "canonical (payload_dump p)"
proof -
  have "fst \<circ> (\<lambda>(k, v). (k, JStr v)) = (fst :: string \<times> string \<Rightarrow> string)" by auto
  moreover have "list_all (\<lambda>(k, v). canonical v) (map (\<lambda>(k, v). (k, JStr v)) (pay_environment p))"
    by (auto simp: list_all_iff)
  ultimately show ?thesis using assms by (simp add: dump_defs canonical_strings less_char_nat)
qed

lemma canonical_object_reference: "canonical (object_reference_dump r)"
  by (cases "obj_delivery r") (simp_all add: dump_defs less_char_nat)

lemma canonical_output: "canonical (output_dump r)"
  by (simp add: dump_defs less_char_nat)

lemma canonical_endpoint: "canonical (endpoint_dump e)"
  by (simp add: dump_defs canonical_strings less_char_nat)

lemmas canonical_parts = canonical_limits canonical_runtime canonical_object_reference
  canonical_output canonical_endpoint

lemma canonical_job:
  assumes "valid_payload (job_payload j)"
  shows "canonical (job_dump j)"
proof -
  have "canonical (payload_dump (job_payload j))"
    using assms by (intro canonical_payload) (simp add: valid_payload_def)
  moreover have "list_all canonical (map object_reference_dump (job_inputs j))"
    and "list_all canonical (map output_dump (job_outputs j))"
    by (simp_all add: list_all_iff canonical_parts)
  ultimately show ?thesis
    by (cases "job_endpoint j") (simp_all add: job_dump_def canonical_parts less_char_nat)
qed

lemma canonical_plan: "valid_plan p \<Longrightarrow> canonical (plan_dump p)"
  by (simp add: plan_dump_def canonical_job valid_plan_def valid_job_def less_char_nat)

lemma inj_JStr_list: "map JStr xs = map JStr ys \<longleftrightarrow> xs = ys"
  by (rule inj_map_eq_map) (simp add: inj_def)

lemma limits_dump_inject: "limits_dump l = limits_dump m \<Longrightarrow> l = m"
  by (simp add: dump_defs inj_JStr_list)

lemma runtime_dump_inject: "runtime_dump l = runtime_dump m \<Longrightarrow> l = m"
  by (simp add: dump_defs)

lemma payload_dump_inject: "payload_dump l = payload_dump m \<Longrightarrow> l = m"
proof -
  have "inj (\<lambda>(k, v). (k :: string, JStr v))" by (auto simp: inj_def)
  then show "payload_dump l = payload_dump m \<Longrightarrow> l = m"
    by (simp add: dump_defs inj_JStr_list inj_map_eq_map)
qed

lemma object_reference_dump_inject: "object_reference_dump l = object_reference_dump m \<Longrightarrow> l = m"
  by (cases "obj_delivery l"; cases "obj_delivery m") (simp_all add: dump_defs)

lemma output_dump_inject: "output_dump l = output_dump m \<Longrightarrow> l = m"
  by (simp add: dump_defs)

lemma endpoint_dump_inject: "endpoint_dump l = endpoint_dump m \<Longrightarrow> l = m"
  by (simp add: dump_defs inj_JStr_list)

lemma job_dump_inject:
  assumes "job_dump l = job_dump m"
  shows "l = m"
proof -
  have inj: "inj object_reference_dump" "inj output_dump"
    by (auto intro: injI object_reference_dump_inject output_dump_inject)
  have "job_endpoint l = job_endpoint m"
    using assms endpoint_dump_inject
    by (cases "job_endpoint l"; cases "job_endpoint m") (auto simp: job_dump_def)
  with assms inj show ?thesis
    by (cases "job_endpoint m")
      (auto simp: job_dump_def inj_map_eq_map
        dest!: limits_dump_inject runtime_dump_inject payload_dump_inject)
qed

lemma plan_dump_inject: "plan_dump p = plan_dump q \<Longrightarrow> p = q"
  by (auto simp: plan_dump_def dest!: job_dump_inject)

lemma plan_encoding_inject:
  assumes "valid_plan p" and "valid_plan q" and "encoded (plan_dump p) = encoded (plan_dump q)"
  shows "p = q"
  using assms by (auto simp: encoded_def intro: plan_dump_inject dumps_inject canonical_plan)

section \<open>Output paths stay below the work directory\<close>

lemma split_on_nonempty: "split_on c s \<noteq> []"
  by (induction s) (auto split: list.splits)

lemma split_on_no_sep: "p \<in> set (split_on c s) \<Longrightarrow> c \<notin> set p"
proof (induction s arbitrary: p)
  case (Cons x xs)
  then show ?case using split_on_nonempty [of c xs]
    by (auto split: list.splits if_splits)
qed simp

lemma split_on_single: "c \<notin> set p \<Longrightarrow> split_on c p = [p]"
  by (induction p) auto

lemma split_on_append: "c \<notin> set p \<Longrightarrow> split_on c (p @ c # s) = p # split_on c s"
  by (induction p) auto

lemma split_on_join_with:
  assumes "ps \<noteq> []" and "\<And>p. p \<in> set ps \<Longrightarrow> c \<notin> set p"
  shows "split_on c (join_with c ps) = ps"
  using assms
  by (induction c ps rule: join_with.induct) (auto simp: split_on_single split_on_append)

text \<open>
  A path component moves the current directory: an ordinary name goes one level down, a dot or
  an empty component stays, two dots go one level up.
\<close>

fun path_depths :: "int \<Rightarrow> string list \<Rightarrow> int list" where
  "path_depths d [] = []"
| "path_depths d (p # ps) =
     (let e = (if p = [] \<or> p = ''.'' then d else if p = ''..'' then d - 1 else d + 1)
      in e # path_depths e ps)"

lemma path_depths_names:
  assumes "\<And>p. p \<in> set ps \<Longrightarrow> p \<noteq> [] \<and> p \<noteq> ''.'' \<and> p \<noteq> ''..''" and "e \<in> set (path_depths d ps)"
  shows "d < e"
  using assms
proof (induction ps arbitrary: d)
  case (Cons p ps)
  have p: "p \<noteq> [] \<and> p \<noteq> ''.'' \<and> p \<noteq> ''..''" using Cons.prems(1) by simp
  with Cons.prems(2) have "e = d + 1 \<or> e \<in> set (path_depths (d + 1) ps)" by (simp add: Let_def)
  with Cons.IH [of "d + 1"] Cons.prems(1) show ?case by force
qed simp

lemma below_work_directory_parts:
  assumes "below_work_directory s = Inr t"
  shows "t = s" and "split_on (CHR ''/'') s = path_parts s" and "''..'' \<notin> set (path_parts s)"
proof -
  from assms have s: "path_str s = s" "path_parts s \<noteq> []" "''..'' \<notin> set (path_parts s)" "t = s"
    by (auto simp: below_work_directory_def split: if_splits)
  then have "join_with (CHR ''/'') (path_parts s) = s" by (simp add: path_str_def)
  then show "split_on (CHR ''/'') s = path_parts s"
    using split_on_join_with [of "path_parts s" "CHR ''/''"] s(2) split_on_no_sep
    by (auto simp: path_parts_def)
qed (use assms in \<open>auto simp: below_work_directory_def split: if_splits\<close>)

section \<open>The resource order\<close>

lemma fits_refl: "fits l l"
  by (simp add: fits_def)

lemma fits_trans: "fits a b \<Longrightarrow> fits b c \<Longrightarrow> fits a c"
  by (auto simp: fits_def)

end
