(* ===== verification/Exec_Clock.thy ===== *)
theory Exec_Clock
  imports Exec_Spec
begin

text \<open>
  Expiry of execution leases across clock adjustments, suspend and restart
  (\<open>src/ficc/execution/clock.py\<close>). A reading pairs the wall clock with the boot-time clock and
  the boot identity; \<open>deadline\<close> converts a lease's wall-clock expiry into a boot-time deadline
  and \<open>active\<close> decides whether a retained lease still authorises work. The lease fields that
  \<open>deadline\<close> adds to an attempt are the record \<open>lease_timing\<close>.
\<close>

record reading =
  wall :: rat
  elapsed_ns :: int
  boot_id :: string

fun uuid_shape :: "nat list \<Rightarrow> string \<Rightarrow> bool" where
  "uuid_shape [] s = False"
| "uuid_shape [n] s = (length s = n \<and> list_all is_hex s)"
| "uuid_shape (n # ns) s =
     (list_all is_hex (take n s) \<and> length (take n s) = n \<and>
      take 1 (drop n s) = ''-'' \<and> uuid_shape ns (drop (Suc n) s))"

definition valid_reading :: "reading \<Rightarrow> bool" where
  [valid_defs]: "valid_reading r \<longleftrightarrow> wall r > 0 \<and> elapsed_ns r \<ge> 0 \<and> uuid_shape [8, 4, 4, 4, 12] (boot_id r)"

record lease_timing =
  lt_boot_id :: string
  lt_received_ns :: int
  lt_deadline_ns :: int

definition active :: "int \<Rightarrow> rat \<Rightarrow> lease_timing option \<Rightarrow> reading \<Rightarrow> bool" where
  "active sequence expires_at timing now \<longleftrightarrow>
     (case timing of
        None \<Rightarrow> False
      | Some t \<Rightarrow> sequence \<noteq> 0 \<and> lt_boot_id t = boot_id now \<and> expires_at > wall now \<and>
          lt_received_ns t \<le> elapsed_ns now \<and> elapsed_ns now < lt_deadline_ns t)"

definition deadline :: "rat \<Rightarrow> reading \<Rightarrow> rat \<Rightarrow> lease_timing res" where
  "deadline expires_at now maximum_seconds =
     (if maximum_seconds \<le> 0
         \<or> \<not> (wall now < expires_at \<and> expires_at \<le> wall now + maximum_seconds)
      then Inl ValueError
      else let duration_ns = \<lfloor>(expires_at - wall now) * 1000000000\<rfloor>
        in if duration_ns \<le> 0 then Inl ValueError
           else Inr \<lparr>lt_boot_id = boot_id now, lt_received_ns = elapsed_ns now,
                     lt_deadline_ns = elapsed_ns now + duration_ns\<rparr>)"

lemma deadline_timing:
  assumes "deadline e now m = Inr t"
  shows "lt_boot_id t = boot_id now" and "lt_received_ns t = elapsed_ns now"
    and "lt_received_ns t < lt_deadline_ns t"
    and "of_int (lt_deadline_ns t - lt_received_ns t) \<le> m * 1000000000"
    and "wall now < e" and "e \<le> wall now + m"
proof -
  from assms have *: "wall now < e" "e \<le> wall now + m" "0 < \<lfloor>(e - wall now) * 1000000000\<rfloor>"
    and t: "t = \<lparr>lt_boot_id = boot_id now, lt_received_ns = elapsed_ns now,
      lt_deadline_ns = elapsed_ns now + \<lfloor>(e - wall now) * 1000000000\<rfloor>\<rparr>"
    by (auto simp: deadline_def Let_def split: if_splits)
  from * show "wall now < e" and "e \<le> wall now + m" by auto
  from t * show "lt_boot_id t = boot_id now" and "lt_received_ns t = elapsed_ns now"
    and "lt_received_ns t < lt_deadline_ns t" by auto
  have "of_int \<lfloor>(e - wall now) * 1000000000\<rfloor> \<le> (e - wall now) * 1000000000" by linarith
  also have "\<dots> \<le> m * 1000000000" using *(2) by simp
  finally show "of_int (lt_deadline_ns t - lt_received_ns t) \<le> m * 1000000000" using t by simp
qed

lemma active_timing:
  assumes "active q e (Some t) now"
  shows "q \<noteq> 0" "lt_boot_id t = boot_id now" "wall now < e"
    "lt_received_ns t \<le> elapsed_ns now" "elapsed_ns now < lt_deadline_ns t"
  using assms by (auto simp: active_def)

lemma active_None [simp]: "\<not> active q e None now"
  by (simp add: active_def)

end
