(* ===== verification/Exec_Offer.thy ===== *)
theory Exec_Offer
  imports Exec_Clock
begin

text \<open>
  Local consent (\<open>src/ficc/execution/offer.py\<close>): weekly windows, the offer a machine owner
  makes, the reason for which an offer refuses a job, and the check that an owner's settings
  stay inside the administrator's ceiling. The main lemma is that a validated offer admits
  nothing that the ceiling refuses.
\<close>

section \<open>Calendar\<close>

text \<open>
  \<open>datetime.fromtimestamp(now, timezone.utc)\<close> rounds to the nearest microsecond, ties to even;
  the first of January 1970 was a Thursday, day 3 of a week that starts on Monday.
\<close>

definition round_half_even :: "rat \<Rightarrow> int" where
  "round_half_even x =
     (let f = \<lfloor>x\<rfloor>; d = x - of_int f
      in if d < 1 / 2 then f else if d > 1 / 2 then f + 1 else if even f then f else f + 1)"

definition utc_seconds :: "rat \<Rightarrow> int" where
  "utc_seconds now = round_half_even (now * 1000000) div 1000000"

definition utc_weekday :: "rat \<Rightarrow> int" where
  "utc_weekday now = (utc_seconds now div 86400 + 3) mod 7"

definition utc_minute :: "rat \<Rightarrow> int" where
  "utc_minute now = utc_seconds now mod 86400 div 60"

lemma utc_weekday_range: "utc_weekday now \<in> set [0..6]"
  by (simp add: utc_weekday_def)

lemma utc_minute_range: "utc_minute now \<in> set [0..1439]"
  by (simp add: utc_minute_def) linarith

section \<open>Windows\<close>

record window =
  weekdays :: "int list"
  start_minute :: int
  end_minute :: int

definition valid_window :: "window \<Rightarrow> bool" where
  [valid_defs]: "valid_window w \<longleftrightarrow>
     list_all (\<lambda>d. 0 \<le> d \<and> d \<le> 6) (weekdays w) \<and> 1 \<le> length (weekdays w) \<and> length (weekdays w) \<le> 7 \<and>
     0 \<le> start_minute w \<and> start_minute w \<le> 1439 \<and> 1 \<le> end_minute w \<and> end_minute w \<le> 1440 \<and>
     distinct (weekdays w) \<and> start_minute w < end_minute w"

definition contains :: "window \<Rightarrow> rat \<Rightarrow> bool" where
  "contains w now \<longleftrightarrow> utc_weekday now \<in> set (weekdays w) \<and>
     start_minute w \<le> utc_minute now \<and> utc_minute now < end_minute w"

section \<open>Offers\<close>

datatype mode = Managed | Voluntary

datatype control = Active | Paused | Draining | Stopped

fun control_str :: "control \<Rightarrow> string" where
  "control_str Active = ''active''"
| "control_str Paused = ''paused''"
| "control_str Draining = ''draining''"
| "control_str Stopped = ''stopped''"

record offer_settings =
  off_projects :: "string list"
  off_runtimes :: "runtime list"
  off_limits :: limits
  off_schedule_utc :: "window list"
  off_accept_sensitive :: bool

record offer = offer_settings +
  off_revision :: int
  off_mode :: mode
  off_control :: control

definition valid_offer_settings :: "'a offer_settings_scheme \<Rightarrow> bool" where
  [valid_defs]: "valid_offer_settings s \<longleftrightarrow>
     list_all Identity (off_projects s) \<and> length (off_projects s) \<le> 64 \<and>
     list_all valid_runtime (off_runtimes s) \<and> length (off_runtimes s) \<le> 64 \<and>
     valid_limits (off_limits s) \<and>
     list_all valid_window (off_schedule_utc s) \<and> length (off_schedule_utc s) \<le> 64 \<and>
     distinct (off_projects s) \<and> distinct (map runtime_dump (off_runtimes s))"

definition valid_offer :: "offer \<Rightarrow> bool" where
  [valid_defs]: "valid_offer s \<longleftrightarrow> valid_offer_settings s \<and> Revision (off_revision s)"

definition refusal :: "offer \<Rightarrow> string \<Rightarrow> job \<Rightarrow> rat \<Rightarrow> bool \<Rightarrow> string option" where
  "refusal s project job now continuing =
     (if off_control s = Stopped \<or> \<not> continuing \<and> off_control s \<noteq> Active
      then Some (''local_'' @ control_str (off_control s))
      else if project \<notin> set (off_projects s) then Some ''local_project_refused''
      else if job_runtime job \<notin> set (off_runtimes s) then Some ''local_runtime_refused''
      else if \<not> fits (job_limits job) (off_limits s) then Some ''local_resource_limit''
      else if off_schedule_utc s \<noteq> [] \<and> \<not> list_ex (\<lambda>w. contains w now) (off_schedule_utc s)
      then Some ''outside_local_schedule''
      else if job_sensitive job \<and> (off_mode s \<noteq> Managed \<or> \<not> off_accept_sensitive s)
      then Some ''sensitive_data_refused''
      else None)"

text \<open>The \<open>(day, minute)\<close> pairs of a schedule.\<close>

definition window_minutes :: "window list \<Rightarrow> (int \<times> int) list" where
  "window_minutes ws =
     concat (map (\<lambda>w. concat (map (\<lambda>day. map (\<lambda>minute. (day, minute)) [start_minute w..end_minute w - 1])
        (weekdays w))) ws)"

definition all_minutes :: "(int \<times> int) list" where
  "all_minutes = concat (map (\<lambda>day. map (\<lambda>minute. (day, minute)) [0..1439]) [0..6])"

definition validate_offer :: "'a offer_settings_scheme \<Rightarrow> 'b offer_settings_scheme \<Rightarrow> unit res" where
  "validate_offer settings bound =
     (if \<not> set (off_projects settings) \<subseteq> set (off_projects bound) then Inl ValueError
      else if list_ex (\<lambda>r. r \<notin> set (off_runtimes bound)) (off_runtimes settings) then Inl ValueError
      else if \<not> fits (off_limits settings) (off_limits bound) then Inl ValueError
      else if off_accept_sensitive settings \<and> \<not> off_accept_sensitive bound then Inl ValueError
      else if off_schedule_utc bound \<noteq> [] then
        (let approved = window_minutes (off_schedule_utc bound);
             proposed = (if off_schedule_utc settings \<noteq> []
                         then window_minutes (off_schedule_utc settings) else all_minutes)
         in if \<not> set proposed \<subseteq> set approved then Inl ValueError else Inr ())
      else Inr ())"

lemma window_minutes_iff:
  "(utc_weekday now, utc_minute now) \<in> set (window_minutes ws) \<longleftrightarrow> (\<exists>w\<in>set ws. contains w now)"
  by (fastforce simp: window_minutes_def contains_def image_iff)

lemma all_minutes_now: "(utc_weekday now, utc_minute now) \<in> set all_minutes"
  using utc_weekday_range [of now] utc_minute_range [of now] by (force simp: all_minutes_def)

lemma validated_schedule:
  assumes "validate_offer settings bound = Inr ()" and "off_schedule_utc bound \<noteq> []"
    and "off_schedule_utc settings = [] \<or> (\<exists>w\<in>set (off_schedule_utc settings). contains w now)"
  shows "\<exists>w\<in>set (off_schedule_utc bound). contains w now"
proof -
  let ?proposed = "if off_schedule_utc settings \<noteq> [] then window_minutes (off_schedule_utc settings) else all_minutes"
  have "set ?proposed \<subseteq> set (window_minutes (off_schedule_utc bound))"
    using assms(1,2) by (auto simp: validate_offer_def Let_def split: if_splits)
  moreover have "(utc_weekday now, utc_minute now) \<in> set ?proposed"
    using assms(3) by (auto simp: window_minutes_iff all_minutes_now)
  ultimately show ?thesis using window_minutes_iff by blast
qed

lemma refusal_None:
  "refusal s p j now c = None \<longleftrightarrow>
     off_control s \<noteq> Stopped \<and> (c \<or> off_control s = Active) \<and> p \<in> set (off_projects s) \<and>
     job_runtime j \<in> set (off_runtimes s) \<and> fits (job_limits j) (off_limits s) \<and>
     (off_schedule_utc s = [] \<or> (\<exists>w\<in>set (off_schedule_utc s). contains w now)) \<and>
     (job_sensitive j \<longrightarrow> off_mode s = Managed \<and> off_accept_sensitive s)"
  by (auto simp: refusal_def list_ex_iff)

text \<open>A job that may start may also continue: the continuing check is the weaker one.\<close>

lemma refusal_continuing: "refusal s p j now False = None \<Longrightarrow> refusal s p j now True = None"
  by (simp add: refusal_None)

lemma refusal_within:
  assumes "validate_offer offer bound = Inr ()" and "refusal offer project job now continuing = None"
  shows "project \<in> set (off_projects bound) \<and> job_runtime job \<in> set (off_runtimes bound) \<and>
    fits (job_limits job) (off_limits bound) \<and>
    (off_schedule_utc bound = [] \<or> (\<exists>w\<in>set (off_schedule_utc bound). contains w now)) \<and>
    (job_sensitive job \<longrightarrow> off_accept_sensitive bound)"
proof -
  have v: "set (off_projects offer) \<subseteq> set (off_projects bound)" "set (off_runtimes offer) \<subseteq> set (off_runtimes bound)"
    "fits (off_limits offer) (off_limits bound)" "off_accept_sensitive offer \<Longrightarrow> off_accept_sensitive bound"
    using assms(1) by (auto simp: validate_offer_def list_ex_iff split: if_splits)
  note r = assms(2) [unfolded refusal_None]
  have "off_schedule_utc bound = [] \<or> (\<exists>w\<in>set (off_schedule_utc bound). contains w now)"
    using validated_schedule [OF assms(1), of now] r by blast
  then show ?thesis using v r fits_trans by blast
qed

end
