(* ===== verification/Exec_Settings.thy ===== *)
theory Exec_Settings
  imports Exec_Offer
begin

text \<open>
  The administrator-owned configuration of an executor (\<open>src/ficc/execution/settings.py\<close>):
  identities, storage slots, installed providers and the offer ceiling. Reading the file
  (\<open>read_owned\<close>, \<open>load\<close>) is left to the operating system; the model starts at
  \<open>Settings.model_validate\<close>.

  Main result: in accepted settings no path lies in two of the state, socket, storage and cache
  directories.
\<close>

section \<open>Absolute paths\<close>

text \<open>
  \<open>Path\<close> of an absolute path: the root is a slash, or exactly two leading slashes, then the
  components without empty ones and single dots.
\<close>

definition path_root :: "string \<Rightarrow> string" where
  "path_root s = (if take 2 s = ''//'' \<and> take 3 s \<noteq> ''///'' then ''//'' else ''/'')"

definition abs_parts :: "string \<Rightarrow> string list" where
  "abs_parts s = path_root s # path_parts s"

definition abs_str :: "string \<Rightarrow> string" where
  "abs_str s = path_root s @ join_with (CHR ''/'') (path_parts s)"

definition absolute :: "string \<Rightarrow> bool" where
  "absolute s \<longleftrightarrow> take 1 s = ''/'' \<and> abs_str s = s \<and> ''..'' \<notin> set (abs_parts s) \<and>
     list_all (\<lambda>c. (of_char c :: nat) > 32 \<and> (of_char c :: nat) \<noteq> 127 \<and> c \<notin> set '':,'' \<and> c \<noteq> CHR 0x5C) s"

definition Absolute :: "string \<Rightarrow> bool" where
  "Absolute s \<longleftrightarrow> 2 \<le> length s \<and> length s \<le> 4096 \<and> absolute s"

text \<open>\<open>a in b.parents\<close>: the parts of \<open>a\<close> are a proper prefix of those of \<open>b\<close>.\<close>

definition path_in_parents :: "string \<Rightarrow> string \<Rightarrow> bool" where
  "path_in_parents a b \<longleftrightarrow> length (abs_parts a) < length (abs_parts b) \<and>
     take (length (abs_parts a)) (abs_parts b) = abs_parts a"

definition path_eq :: "string \<Rightarrow> string \<Rightarrow> bool" where
  "path_eq a b \<longleftrightarrow> abs_parts a = abs_parts b"

section \<open>Slots, providers, cache\<close>

definition Account :: "string \<Rightarrow> bool" where
  "Account s \<longleftrightarrow> head_tail (\<lambda>c. is_lower c \<or> c = CHR ''_'')
     (\<lambda>c. is_lower c \<or> is_digit c \<or> c \<in> set ''_-'') 30 s"

definition UserID :: "int \<Rightarrow> bool" where
  "UserID n \<longleftrightarrow> 1 \<le> n \<and> n \<le> 2 ^ 31 - 1"

definition Filesystem_uuid :: "string \<Rightarrow> bool" where
  "Filesystem_uuid s \<longleftrightarrow> 8 \<le> length s \<and> length s \<le> 80 \<and> list_all (\<lambda>c. is_alnum c \<or> c = CHR ''-'') s"

record slot =
  slot_id :: string
  slot_generation :: int
  slot_mount :: string
  slot_filesystem_uuid :: string
  slot_account :: string
  slot_uid :: int
  slot_gid :: int
  slot_storage_bytes :: int
  slot_storage_inodes :: int

definition valid_slot :: "slot \<Rightarrow> bool" where
  [valid_defs]: "valid_slot s \<longleftrightarrow> Name (slot_id s) \<and> Revision (slot_generation s) \<and> Absolute (slot_mount s) \<and>
     Filesystem_uuid (slot_filesystem_uuid s) \<and> Account (slot_account s) \<and> UserID (slot_uid s) \<and>
     UserID (slot_gid s) \<and> Positive (slot_storage_bytes s) \<and> Positive (slot_storage_inodes s)"

record provider =
  prov_id :: string
  prov_package_digest :: string
  prov_configuration :: json

definition provider_bounded :: "json \<Rightarrow> bool" where
  "provider_bounded v \<longleftrightarrow> length (encoded v) \<le> 65536"

definition valid_provider :: "provider \<Rightarrow> bool" where
  [valid_defs]: "valid_provider p \<longleftrightarrow> Name (prov_id p) \<and> Digest (prov_package_digest p) \<and>
     (case prov_configuration p of JObj _ \<Rightarrow> True | _ \<Rightarrow> False) \<and> provider_bounded (prov_configuration p)"

record cache_settings =
  cache_directory :: string
  cache_filesystem_uuid :: string
  cache_maximum_bytes :: int
  cache_maximum_files :: int

definition valid_cache_settings :: "cache_settings \<Rightarrow> bool" where
  [valid_defs]: "valid_cache_settings c \<longleftrightarrow> Absolute (cache_directory c) \<and>
     Filesystem_uuid (cache_filesystem_uuid c) \<and> Positive (cache_maximum_bytes c) \<and>
     1 \<le> cache_maximum_files c \<and> cache_maximum_files c \<le> 4096"

section \<open>Settings\<close>

record settings =
  set_version :: int
  set_installation_id :: string
  set_deployment_id :: string
  set_node_id :: string
  set_mode :: mode
  set_transport_uid :: int
  set_local_owner_uids :: "int list"
  set_maximum_lease_seconds :: int
  set_service :: string
  set_state :: string
  set_sockets :: string
  set_ceiling :: offer_settings
  set_initial_offer :: offer
  set_slots :: "slot list"
  set_providers :: "provider list"
  set_model_cache :: "cache_settings option"

definition settings_paths :: "settings \<Rightarrow> string list" where
  "settings_paths s = [set_state s, set_sockets s] @ map slot_mount (set_slots s) @
     (case set_model_cache s of None \<Rightarrow> [] | Some c \<Rightarrow> [cache_directory c])"

fun paths_overlap :: "string list \<Rightarrow> bool" where
  "paths_overlap [] = False"
| "paths_overlap (a # ps) =
     (list_ex (\<lambda>b. path_eq a b \<or> path_in_parents a b \<or> path_in_parents b a) ps \<or> paths_overlap ps)"

definition consistent :: "settings \<Rightarrow> settings res" where
  "consistent s =
     (if set_service s \<noteq> ''ficc-executor-'' @ set_installation_id s @ ''.service'' then Inl ValueError
      else if off_mode (set_initial_offer s) \<noteq> set_mode s \<or> off_revision (set_initial_offer s) \<noteq> 1
      then Inl ValueError
      else if set_mode s = Managed \<and> set_local_owner_uids s \<noteq> [] then Inl ValueError
      else case validate_offer (set_initial_offer s) (set_ceiling s) of
        Inl e \<Rightarrow> Inl e
      | Inr _ \<Rightarrow>
        if \<not> (distinct (map slot_id (set_slots s)) \<and> distinct (map slot_mount (set_slots s)) \<and>
              distinct (map slot_uid (set_slots s)) \<and> distinct (map slot_account (set_slots s)) \<and>
              distinct (map slot_gid (set_slots s)) \<and> distinct (map prov_id (set_providers s)))
        then Inl ValueError
        else let workload_uids = slot_uid ` set (set_slots s) in
        if set_transport_uid s \<in> workload_uids
           \<or> set (set_local_owner_uids s) \<inter> (workload_uids \<union> {set_transport_uid s}) \<noteq> {}
        then Inl ValueError
        else if paths_overlap (settings_paths s) then Inl ValueError
        else if list_ex (\<lambda>r. map_of (map (\<lambda>p. (prov_id p, prov_package_digest p)) (set_providers s)) (rt_provider r)
               \<noteq> Some (rt_package_digest r)) (off_runtimes (set_ceiling s))
        then Inl ValueError
        else Inr s)"

definition valid_settings :: "settings \<Rightarrow> bool" where
  [valid_defs]: "valid_settings s \<longleftrightarrow>
     set_version s = 1 \<and> Identity (set_installation_id s) \<and> Identity (set_deployment_id s) \<and>
     Identity (set_node_id s) \<and> UserID (set_transport_uid s) \<and>
     list_all UserID (set_local_owner_uids s) \<and> length (set_local_owner_uids s) \<le> 64 \<and>
     distinct (set_local_owner_uids s) \<and>
     5 \<le> set_maximum_lease_seconds s \<and> set_maximum_lease_seconds s \<le> 30 \<and>
     Absolute (set_state s) \<and> Absolute (set_sockets s) \<and>
     valid_offer_settings (set_ceiling s) \<and> valid_offer (set_initial_offer s) \<and>
     1 \<le> length (set_slots s) \<and> length (set_slots s) \<le> 64 \<and> list_all valid_slot (set_slots s) \<and>
     1 \<le> length (set_providers s) \<and> length (set_providers s) \<le> 64 \<and>
     list_all valid_provider (set_providers s) \<and>
     pred_option valid_cache_settings (set_model_cache s) \<and> consistent s = Inr s"

definition check_identity :: "settings \<Rightarrow> plan \<Rightarrow> unit res" where
  "check_identity s p =
     (if plan_deployment_id p \<noteq> set_deployment_id s \<or> plan_node_id p \<noteq> set_node_id s
      then Inl ValueError else Inr ())"

section \<open>Directories are separate\<close>

text \<open>\<open>below d p\<close>: the path \<open>p\<close> is the directory \<open>d\<close> or lies under it.\<close>

definition below :: "string \<Rightarrow> string \<Rightarrow> bool" where
  "below d p \<longleftrightarrow> path_eq d p \<or> path_in_parents d p"

lemma below_iff: "below d p \<longleftrightarrow> take (length (abs_parts d)) (abs_parts p) = abs_parts d"
proof
  assume *: "take (length (abs_parts d)) (abs_parts p) = abs_parts d"
  then have "length (abs_parts d) \<le> length (abs_parts p)" by (metis length_take min.cobounded1)
  with * show "below d p" unfolding below_def path_eq_def path_in_parents_def
    by (metis le_neq_implies_less take_all_iff order_refl)
qed (auto simp: below_def path_eq_def path_in_parents_def)

lemma below_both: "below a p \<Longrightarrow> below b p \<Longrightarrow> below a b \<or> below b a"
proof -
  assume "below a p" "below b p"
  then have a: "abs_parts a = take (length (abs_parts a)) (abs_parts p)"
    and b: "abs_parts b = take (length (abs_parts b)) (abs_parts p)" by (simp_all add: below_iff)
  show ?thesis
  proof (cases "length (abs_parts a) \<le> length (abs_parts b)")
    case True
    then have "take (length (abs_parts a)) (abs_parts b) = abs_parts a"
      by (subst (2) a, subst b) (simp add: min_def)
    then show ?thesis by (simp add: below_iff)
  next
    case False
    then have "take (length (abs_parts b)) (abs_parts a) = abs_parts b"
      by (subst (2) b, subst a) (simp add: min_def)
    then show ?thesis by (simp add: below_iff)
  qed
qed

lemma paths_overlap_iff:
  "paths_overlap ps \<longleftrightarrow> (\<exists>i j. i < j \<and> j < length ps \<and> (below (ps ! i) (ps ! j) \<or> below (ps ! j) (ps ! i)))"
proof (induction ps)
  case (Cons a ps)
  have 1: "list_ex (\<lambda>b. path_eq a b \<or> path_in_parents a b \<or> path_in_parents b a) ps \<longleftrightarrow>
      (\<exists>j<length ps. below a (ps ! j) \<or> below (ps ! j) a)"
    by (auto simp: list_ex_length below_def path_eq_def)
  let ?P = "\<lambda>i j. below ((a # ps) ! i) ((a # ps) ! j) \<or> below ((a # ps) ! j) ((a # ps) ! i)"
  have "(\<exists>i j. i < j \<and> j < length (a # ps) \<and> ?P i j) \<longleftrightarrow>
     (\<exists>j<length ps. ?P 0 (Suc j)) \<or> (\<exists>i j. i < j \<and> j < length ps \<and> ?P (Suc i) (Suc j))"
    using ex_pair_Suc [of "length ps" ?P] by simp
  then show ?case using Cons.IH 1 by simp
qed simp

lemma consistent_paths: "consistent s = Inr t \<Longrightarrow> \<not> paths_overlap (settings_paths s) \<and> t = s"
  by (auto simp: consistent_def Let_def split: if_splits sum.splits)

end
