(* ===== verification/Exec_Protocol.thy ===== *)
theory Exec_Protocol
  imports Exec_Settings
begin

text \<open>
  The messages a client sends to the local executor (\<open>src/ficc/execution/protocol.py\<close>) and the
  authority of the socket peer. A request class is a constructor of \<open>message\<close>; \<open>valid_message\<close>
  collects its field constraints and validators.

  Main results: base64 round trips, so a chunk is accepted exactly when its text is the
  canonical encoding of the bytes its digest names; and the authority table of \<open>authorize\<close>.
\<close>

section \<open>Base64\<close>

definition b64alphabet :: string where
  "b64alphabet = ''ABCDEFGHIJKLMNOPQRSTUVWXYZabcdefghijklmnopqrstuvwxyz0123456789+/''"

definition b64char :: "nat \<Rightarrow> char" where
  "b64char n = b64alphabet ! n"

definition b64val :: "char \<Rightarrow> nat option" where
  "b64val c = map_option fst (find (\<lambda>(n, d). d = c) (enumerate 0 b64alphabet))"

abbreviation ord_nat :: "char \<Rightarrow> nat" where
  "ord_nat c \<equiv> of_char c"

fun b64encode :: "string \<Rightarrow> string" where
  "b64encode [] = []"
| "b64encode [a] =
     [b64char (ord_nat a div 4), b64char (ord_nat a mod 4 * 16), CHR ''='', CHR ''='']"
| "b64encode [a, b] =
     [b64char (ord_nat a div 4), b64char (ord_nat a mod 4 * 16 + ord_nat b div 16),
      b64char (ord_nat b mod 16 * 4), CHR ''='']"
| "b64encode (a # b # c # rest) =
     b64char (ord_nat a div 4) # b64char (ord_nat a mod 4 * 16 + ord_nat b div 16) #
     b64char (ord_nat b mod 16 * 4 + ord_nat c div 64) # b64char (ord_nat c mod 64) # b64encode rest"

text \<open>
  \<open>base64.b64decode(s, validate=True)\<close>: groups of four characters of the alphabet, the last
  padded with one or two equals signs; the bits past the last byte are dropped. Anything else
  raises \<open>binascii.Error\<close>.
\<close>

fun b64decode :: "string \<Rightarrow> string option" where
  "b64decode [] = Some []"
| "b64decode (p # q # r # s # rest) =
     (case (b64val p, b64val q, b64val r, b64val s) of
        (Some i, Some j, Some k, Some l) \<Rightarrow>
          map_option (\<lambda>out. char_of (i * 4 + j div 16) # char_of (j mod 16 * 16 + k div 4)
             # char_of (k mod 4 * 64 + l) # out) (b64decode rest)
      | (Some i, Some j, Some k, None) \<Rightarrow>
          if s = CHR ''='' \<and> rest = []
          then Some [char_of (i * 4 + j div 16), char_of (j mod 16 * 16 + k div 4)] else None
      | (Some i, Some j, None, None) \<Rightarrow>
          if r = CHR ''='' \<and> s = CHR ''='' \<and> rest = [] then Some [char_of (i * 4 + j div 16)] else None
      | _ \<Rightarrow> None)"
| "b64decode _ = None"

lemma b64val_char: "n < 64 \<Longrightarrow> b64val (b64char n) = Some n"
proof -
  have "\<forall>n\<in>set [0..<64]. b64val (b64char n) = Some n" by code_simp
  then show "n < 64 \<Longrightarrow> b64val (b64char n) = Some n" by simp
qed

lemma b64val_pad [simp]: "b64val (CHR ''='') = None"
  by code_simp

lemma ord_nat_less [simp]: "ord_nat c < 256"
  using of_char_of [of "ord_nat c"] by (metis char_of_char mod_less_divisor zero_less_numeral)

lemma digit_split:
  fixes k m n :: nat
  assumes "k < n"
  shows "(m * n + k) div n = m" "(m * n + k) mod n = k"
  using assms by simp_all

lemma sextets:
  fixes x y :: nat
  assumes "x < 256" and "y < 256"
  shows "x div 4 < 64" "x mod 4 * 16 < 64" "x mod 16 * 4 < 64" "x mod 64 < 64"
    "x mod 4 * 16 + y div 16 < 64" "x mod 16 * 4 + y div 64 < 64"
    "y div 16 < 16" "y div 64 < 4"
  using assms by (simp_all add: less_mult_imp_div_less)

lemma b64_group:
  assumes "b64decode (b64encode rest) = Some rest"
  shows "b64decode (b64encode (a # b # c # rest)) = Some (a # b # c # rest)"
proof -
  note s = sextets [OF ord_nat_less [of a] ord_nat_less [of b]] sextets [OF ord_nat_less [of b] ord_nat_less [of c]]
    sextets [OF ord_nat_less [of c] ord_nat_less [of a]]
  note d = digit_split [of "ord_nat b div 16" 16 "ord_nat a mod 4"] digit_split [of "ord_nat c div 64" 4 "ord_nat b mod 16"]
  show ?thesis using assms s d by (simp add: b64val_char)
qed

lemma b64_roundtrip: "b64decode (b64encode s) = Some s"
proof (induction s rule: b64encode.induct)
  case (2 a)
  then show ?case using sextets [OF ord_nat_less [of a] ord_nat_less [of a]] by (simp add: b64val_char)
next
  case (3 a b)
  note s = sextets [OF ord_nat_less [of a] ord_nat_less [of b]] sextets [OF ord_nat_less [of b] ord_nat_less [of a]]
  note d = digit_split [of "ord_nat b div 16" 16 "ord_nat a mod 4"]
  show ?case using s d by (simp add: b64val_char)
qed (use b64_group in simp_all)

section \<open>Messages\<close>

definition INPUT_CHUNK :: nat where
  "INPUT_CHUNK = 8 * 1024 * 1024"

record admission =
  adm_plan :: plan
  adm_lease :: renewal

text \<open>\<open>Admission.binding\<close>: the initial lease names exactly this plan and has sequence one.\<close>

definition admission_binding :: "admission \<Rightarrow> admission res" where
  "admission_binding a =
     (if (f_attempt_id (adm_lease a), f_generation (adm_lease a), f_plan_digest (adm_lease a)) \<noteq>
         (plan_attempt_id (adm_plan a), plan_generation (adm_plan a), digest_of_plan (adm_plan a))
      then Inl ValueError
      else if ren_sequence (adm_lease a) \<noteq> 1 then Inl ValueError
      else Inr a)"

definition valid_admission :: "admission \<Rightarrow> bool" where
  [valid_defs]: "valid_admission a \<longleftrightarrow>
     valid_plan (adm_plan a) \<and> valid_renewal (adm_lease a) \<and> admission_binding a = Inr a"

record request =
  req_version :: int
  req_id :: string

record bound_request = request +
  req_installation_id :: string
  req_ledger_id :: string
  req_admission_version :: int

definition valid_request :: "'a request_scheme \<Rightarrow> bool" where
  [valid_defs]: "valid_request r \<longleftrightarrow> req_version r = 1 \<and> Identity (req_id r)"

definition valid_bound_request :: "bound_request \<Rightarrow> bool" where
  [valid_defs]: "valid_bound_request r \<longleftrightarrow> valid_request r \<and> Identity (req_installation_id r) \<and>
     Identity (req_ledger_id r) \<and> req_admission_version r = 1"

record read_request = fence +
  rd_object :: string
  rd_offset :: int
  rd_length :: int

definition read_object_name :: "string \<Rightarrow> bool" where
  "read_object_name s \<longleftrightarrow> s = ''stdout'' \<or> s = ''stderr'' \<or> take 7 s = ''output:'' \<and> Name (drop 7 s)"

definition valid_read :: "read_request \<Rightarrow> bool" where
  [valid_defs]: "valid_read r \<longleftrightarrow> valid_fence r \<and> read_object_name (rd_object r) \<and> Count (rd_offset r) \<and>
     1 \<le> rd_length r \<and> rd_length r \<le> 1024 * 1024"

record input_object = fence +
  in_object :: string

definition valid_input_object :: "'a input_object_scheme \<Rightarrow> bool" where
  [valid_defs]: "valid_input_object r \<longleftrightarrow> valid_fence r \<and> Identity (in_object r)"

record input_chunk = input_object +
  ch_offset :: int
  ch_data :: string
  ch_digest :: string

definition decoded :: "input_chunk \<Rightarrow> string res" where
  "decoded c =
     (case b64decode (ch_data c) of
        None \<Rightarrow> Inl ValueError
      | Some data \<Rightarrow>
          if length data > INPUT_CHUNK \<or> b64encode data \<noteq> ch_data c then Inl ValueError
          else if ''sha256:'' @ sha256_hex data \<noteq> ch_digest c then Inl ValueError
          else Inr data)"

definition valid_input_chunk :: "input_chunk \<Rightarrow> bool" where
  [valid_defs]: "valid_input_chunk c \<longleftrightarrow> valid_input_object c \<and> Count (ch_offset c) \<and>
     length (ch_data c) \<le> 11184812 \<and> Digest (ch_digest c) \<and> (case decoded c of Inr _ \<Rightarrow> True | Inl _ \<Rightarrow> False)"

datatype endpoint_operation = Ep_open | Ep_read | Ep_cancel

datatype http_method = GET | POST

record endpoint_call = fence +
  ec_stream_id :: string
  ec_operation :: endpoint_operation
  ec_path :: string
  ec_method :: http_method
  ec_body :: string
  ec_input_object :: "string option"
  ec_deadline_seconds :: int

definition valid_endpoint_call :: "endpoint_call \<Rightarrow> bool" where
  [valid_defs]: "valid_endpoint_call c \<longleftrightarrow> valid_fence c \<and> Identity (ec_stream_id c) \<and> length (ec_path c) \<le> 128 \<and>
     length (ec_body c) \<le> 1048576 \<and> pred_option Identity (ec_input_object c) \<and>
     1 \<le> ec_deadline_seconds c \<and> ec_deadline_seconds c \<le> 600"

datatype control_action = Act_start | Act_observe | Act_stop | Act_release

datatype message =
    Prepare bound_request "admission list"
  | RejectAbsent bound_request "plan list"
  | ReconcileAbsent bound_request "plan list"
  | Renew request "renewal list"
  | Control request control_action "fence list"
  | Collect request "read_request list"
  | InputStatus request "input_object list"
  | InputWrite request "input_chunk list"
  | EndpointExchange request "endpoint_call list"
  | Snapshot request "string option"
  | SetOffer request int offer_settings control

text \<open>A batch: between one and \<open>n\<close> valid items with distinct keys.\<close>

definition batch :: "nat \<Rightarrow> ('a \<Rightarrow> bool) \<Rightarrow> ('a \<Rightarrow> 'k) \<Rightarrow> 'a list \<Rightarrow> bool" where
  "batch n ok key xs \<longleftrightarrow> 1 \<le> length xs \<and> length xs \<le> n \<and> list_all ok xs \<and> distinct (map key xs)"

fun valid_message :: "message \<Rightarrow> bool" where
  "valid_message (Prepare r as) =
     (valid_bound_request r \<and> batch 64 valid_admission (\<lambda>a. plan_attempt_id (adm_plan a)) as)"
| "valid_message (RejectAbsent r ps) = (valid_bound_request r \<and> batch 64 valid_plan plan_attempt_id ps)"
| "valid_message (ReconcileAbsent r ps) = (valid_bound_request r \<and> batch 64 valid_plan plan_attempt_id ps)"
| "valid_message (Renew r ls) = (valid_request r \<and> batch 64 valid_renewal f_attempt_id ls)"
| "valid_message (Control r a fs) = (valid_request r \<and> batch 64 valid_fence f_attempt_id fs)"
| "valid_message (Collect r xs) =
     (valid_request r \<and> batch 64 valid_read (\<lambda>x. (f_attempt_id x, rd_object x, rd_offset x)) xs \<and>
      sum_list (map rd_length xs) \<le> 1024 * 1024)"
| "valid_message (InputStatus r xs) =
     (valid_request r \<and> batch 64 valid_input_object (\<lambda>x. (f_attempt_id x, in_object x)) xs)"
| "valid_message (InputWrite r xs) =
     (valid_request r \<and> batch 64 valid_input_chunk (\<lambda>x. (f_attempt_id x, in_object x)) xs \<and>
      sum_list (map (\<lambda>x. case decoded x of Inr d \<Rightarrow> length d | Inl _ \<Rightarrow> 0) xs) \<le> INPUT_CHUNK)"
| "valid_message (EndpointExchange r xs) =
     (valid_request r \<and> 1 \<le> length xs \<and> length xs \<le> 16 \<and> list_all valid_endpoint_call xs)"
| "valid_message (Snapshot r after) = (valid_request r \<and> pred_option Identity after)"
| "valid_message (SetOffer r expected s c) = (valid_request r \<and> Revision expected \<and> valid_offer_settings s)"

definition MAX_MESSAGE :: nat where
  "MAX_MESSAGE = 12 * 1024 * 1024"

text \<open>\<open>validate\<close> stands for pydantic's \<open>MESSAGE.validate_json\<close>.\<close>

definition decode_message :: "(string \<Rightarrow> message res) \<Rightarrow> string \<Rightarrow> message res" where
  "decode_message validate data = (if length data > MAX_MESSAGE then Inl ValueError else validate data)"

section \<open>Authority\<close>

definition authorize :: "message \<Rightarrow> int \<Rightarrow> settings \<Rightarrow> unit res" where
  "authorize request peer_uid s =
     (if peer_uid = 0 then Inr ()
      else case request of
        ReconcileAbsent _ _ \<Rightarrow> Inl ValueError
      | _ \<Rightarrow>
        let local_owner = (set_mode s = Voluntary \<and> peer_uid \<in> set (set_local_owner_uids s)) in
        (case request of
           SetOffer _ _ _ _ \<Rightarrow> if \<not> local_owner then Inl ValueError else Inr ()
         | Snapshot _ _ \<Rightarrow>
             if peer_uid \<noteq> set_transport_uid s \<and> \<not> local_owner then Inl ValueError else Inr ()
         | _ \<Rightarrow> if peer_uid \<noteq> set_transport_uid s then Inl ValueError else Inr ()))"

lemma consistent_accounts:
  assumes "consistent s = Inr t"
  shows "set_transport_uid s \<notin> slot_uid ` set (set_slots s)"
    "set (set_local_owner_uids s) \<inter> (slot_uid ` set (set_slots s) \<union> {set_transport_uid s}) = {}"
    "set_mode s = Managed \<Longrightarrow> set_local_owner_uids s = []"
  using assms by (auto simp: consistent_def Let_def split: if_splits sum.splits)

fun owner_message :: "message \<Rightarrow> bool" where
  "owner_message (SetOffer _ _ _ _) = True"
| "owner_message (Snapshot _ _) = True"
| "owner_message _ = False"

lemma authorize_transport:
  "authorize m uid s = Inr () \<Longrightarrow> \<not> owner_message m \<Longrightarrow> uid = 0 \<or> uid = set_transport_uid s"
  by (cases m) (auto simp: authorize_def Let_def split: if_splits)

lemma authorize_known:
  "authorize m uid s = Inr () \<Longrightarrow> uid = 0 \<or> uid = set_transport_uid s \<or>
     set_mode s = Voluntary \<and> uid \<in> set (set_local_owner_uids s)"
  by (cases m) (auto simp: authorize_def Let_def split: if_splits)

lemma authorize_offer:
  "authorize (SetOffer r e os c) uid s = Inr () \<longleftrightarrow>
     uid = 0 \<or> set_mode s = Voluntary \<and> uid \<in> set (set_local_owner_uids s)"
  by (auto simp: authorize_def Let_def)

end
