(* ===== verification/Exec_Ledger.thy ===== *)
theory Exec_Ledger
  imports Exec_Clock Exec_Protocol
begin

text \<open>
  The executor's durable ledger (\<open>src/ficc/execution/ledger.py\<close>): local offers, attempt fences
  and exclusive reservations. The state is the content of the SQLite database: the settings
  (installation, ledger identity, offer), the \<open>attempts\<close> table and the \<open>devices\<close> table.
  An operation is one transaction: it returns the new state and its result, or the exception,
  after which the database keeps the old state.

  The JSON document of an attempt is the record \<open>attempt_value\<close>; a key that a document may
  lack is an option, a flag that defaults to false is a \<open>bool\<close>. Storage bindings, prepared
  runtimes and payload inspections come from providers and the operating system and are kept
  as \<open>json\<close>.
\<close>

section \<open>State\<close>

record receipt =
  rc_offset :: int
  rc_complete :: bool
  rc_identity :: json

record rejection =
  rj_ledger_id :: string
  rj_observation :: "json option"

record attempt_value =
  v_plan :: plan
  v_plan_digest :: string
  v_slot :: "string option"
  v_binding :: "json option"
  v_state :: wstate
  v_cleanup_confirmed :: bool
  v_lease_sequence :: int
  v_lease_expires_at :: rat
  v_lease_timing :: "lease_timing option"
  v_created_at :: rat
  v_reason :: "string option"
  v_exit_code :: "int option"
  v_output_bytes :: int
  v_error_bytes :: int
  v_admission_rejection :: "rejection option"
  v_prepared_runtime :: "json option"
  v_engine_released :: bool
  v_payload_released :: bool
  v_pending_stop :: "string option"
  v_input_progress :: "(string \<times> receipt) list option"
  v_runtime_binding :: "json option"
  v_outcome :: "wstate option"
  v_storage_recovery :: "(json option \<times> json \<times> rat) list"

record attempt_row =
  row_id :: string
  row_job_id :: string
  row_generation :: int
  row_plan_digest :: string
  row_state :: wstate
  row_slot :: "string option"
  row_value :: attempt_value

record ledger =
  led_installation_id :: "string option"
  led_ledger_id :: "string option"
  led_offer :: "offer option"
  led_attempts :: "attempt_row list"
  led_devices :: "(string \<times> string) list"

definition empty_ledger :: ledger where
  "empty_ledger = \<lparr>led_installation_id = None, led_ledger_id = None, led_offer = None,
     led_attempts = [], led_devices = []\<rparr>"

text \<open>
  \<open>Ledger.__init__\<close> after the file checks: bind the installation and give the ledger its
  identity, the first time a fresh \<open>secrets.token_hex(16)\<close>.
\<close>

definition open_ledger :: "string \<Rightarrow> string \<Rightarrow> ledger \<Rightarrow> ledger res" where
  "open_ledger installation token s =
     (if led_installation_id s \<noteq> None \<and> led_installation_id s \<noteq> Some installation then Inl ValueError
      else let identity = (case led_ledger_id s of None \<Rightarrow> token | Some i \<Rightarrow> i)
        in if \<not> Identity identity then Inl ValueError
           else Inr (s\<lparr>led_installation_id := Some installation, led_ledger_id := Some identity\<rparr>))"

section \<open>Reads\<close>

definition get :: "ledger \<Rightarrow> string \<Rightarrow> attempt_value option" where
  "get s identity = map_option row_value (find_row row_id (led_attempts s) identity)"

definition all_rows :: "ledger \<Rightarrow> attempt_row list" where
  "all_rows s = sort_key row_id (led_attempts s)"

definition all_values :: "ledger \<Rightarrow> attempt_value list" where
  "all_values s = map row_value (all_rows s)"

definition page :: "ledger \<Rightarrow> string option \<Rightarrow> nat \<Rightarrow> attempt_value list \<times> bool" where
  "page s after limit =
     (let rows = take (limit + 1)
        (filter (\<lambda>r. row_id r > (case after of None \<Rightarrow> [] | Some a \<Rightarrow> a)) (all_rows s))
      in (map row_value (take limit rows), length rows > limit))"

definition retained :: "ledger \<Rightarrow> attempt_value list" where
  "retained s = map row_value (filter (\<lambda>r. row_slot r \<noteq> None) (all_rows s))"

definition fenced :: "ledger \<Rightarrow> string \<Rightarrow> int \<Rightarrow> string \<Rightarrow> attempt_value res" where
  "fenced s identity generation plan_digest =
     (case get s identity of
        None \<Rightarrow> Inl (Conflict (Sentence Not_current_attempt))
      | Some v \<Rightarrow>
          if plan_generation (v_plan v) \<noteq> generation \<or> v_plan_digest v \<noteq> plan_digest
          then Inl (Conflict (Sentence Not_current_attempt)) else Inr v)"

section \<open>Writes\<close>

definition save :: "attempt_value \<Rightarrow> ledger \<Rightarrow> ledger" where
  "save v s = s\<lparr>led_attempts := put_row row_id (plan_attempt_id (v_plan v))
     (\<lambda>r. r\<lparr>row_state := v_state v, row_slot := v_slot v, row_value := v\<rparr>) (led_attempts s)\<rparr>"

text \<open>An \<open>INSERT\<close> into \<open>attempts\<close>, with the primary key and the two unique constraints.\<close>

definition insert_attempt :: "attempt_row \<Rightarrow> ledger \<Rightarrow> ledger res" where
  "insert_attempt r s =
     (if list_ex (\<lambda>q. row_id q = row_id r
          \<or> (row_slot r \<noteq> None \<and> row_slot q = row_slot r)
          \<or> (row_job_id q = row_job_id r \<and> row_generation q = row_generation r)) (led_attempts s)
      then Inl IntegrityError
      else Inr (s\<lparr>led_attempts := add_row r (led_attempts s)\<rparr>))"

fun insert_devices :: "string list \<Rightarrow> string \<Rightarrow> ledger \<Rightarrow> ledger res" where
  "insert_devices [] identity s = Inr s"
| "insert_devices (d # ds) identity s =
     (if d \<in> fst ` set (led_devices s) then Inl IntegrityError
      else insert_devices ds identity (s\<lparr>led_devices := add_row (d, identity) (led_devices s)\<rparr>))"

definition delete_devices :: "string \<Rightarrow> ledger \<Rightarrow> ledger" where
  "delete_devices identity s = s\<lparr>led_devices := filter (\<lambda>(d, a). a \<noteq> identity) (led_devices s)\<rparr>"

definition save_offer :: "offer \<Rightarrow> int \<Rightarrow> ledger \<Rightarrow> ledger res" where
  "save_offer v expected s =
     (let before = led_offer s
      in if (case before of None \<Rightarrow> 0 | Some b \<Rightarrow> off_revision b) \<noteq> expected \<or> off_revision v \<noteq> expected + 1
         then Inl (Conflict (Sentence Offer_reload))
         else if (case before of None \<Rightarrow> False | Some b \<Rightarrow> off_mode b \<noteq> off_mode v)
         then Inl (Conflict (Sentence Mode_is_installed))
         else Inr (s\<lparr>led_offer := Some v\<rparr>))"

text \<open>The fields \<open>annotate\<close> accepts; any other name is refused.\<close>

datatype annotation =
    Prepared_runtime json
  | Engine_released bool
  | Payload_released bool
  | Pending_stop string
  | Input_progress "(string \<times> receipt) list"
  | Other_field string

fun annotation_update :: "annotation \<Rightarrow> attempt_value \<Rightarrow> attempt_value" where
  "annotation_update (Prepared_runtime x) v = v\<lparr>v_prepared_runtime := Some x\<rparr>"
| "annotation_update (Engine_released b) v = v\<lparr>v_engine_released := b\<rparr>"
| "annotation_update (Payload_released b) v = v\<lparr>v_payload_released := b\<rparr>"
| "annotation_update (Pending_stop r) v = v\<lparr>v_pending_stop := Some r\<rparr>"
| "annotation_update (Input_progress p) v = v\<lparr>v_input_progress := Some p\<rparr>"
| "annotation_update (Other_field _) v = v"

definition annotate :: "'a fence_scheme \<Rightarrow> annotation list \<Rightarrow> ledger \<Rightarrow> (ledger \<times> attempt_value) res" where
  "annotate fence anns s =
     (case fenced s (f_attempt_id fence) (f_generation fence) (f_plan_digest fence) of
        Inl e \<Rightarrow> Inl e
      | Inr v \<Rightarrow>
          if list_ex (\<lambda>a. case a of Other_field _ \<Rightarrow> True | _ \<Rightarrow> False) anns then Inl ValueError
          else let v' = fold annotation_update anns v in Inr (save v' s, v'))"

section \<open>Reservations\<close>

definition same_job_conflict :: "ledger \<Rightarrow> plan \<Rightarrow> bool" where
  "same_job_conflict s plan \<longleftrightarrow>
     list_ex (\<lambda>v. v_state v \<noteq> Released \<or> plan_generation (v_plan v) \<ge> plan_generation plan)
       (filter (\<lambda>v. plan_job_id (v_plan v) = plan_job_id plan) (all_values s))"

definition total :: "(limits \<Rightarrow> int) \<Rightarrow> attempt_value list \<Rightarrow> int" where
  "total f vs = sum_list (map (\<lambda>v. f (job_limits (plan_job (v_plan v)))) vs)"

definition held_values :: "ledger \<Rightarrow> attempt_value list" where
  "held_values s = filter (\<lambda>v. v_slot v \<noteq> None) (all_values s)"

definition running_values :: "ledger \<Rightarrow> attempt_value list" where
  "running_values s = filter (\<lambda>v. \<not> v_cleanup_confirmed v) (held_values s)"

definition new_value :: "plan \<Rightarrow> string option \<Rightarrow> json option \<Rightarrow> wstate \<Rightarrow> bool \<Rightarrow> rat \<Rightarrow> string option
    \<Rightarrow> rejection option \<Rightarrow> attempt_value" where
  "new_value plan slot binding state cleanup now reason rejected =
     \<lparr>v_plan = plan, v_plan_digest = digest_of_plan plan, v_slot = slot, v_binding = binding,
      v_state = state, v_cleanup_confirmed = cleanup, v_lease_sequence = 0, v_lease_expires_at = 0,
      v_lease_timing = None, v_created_at = now, v_reason = reason, v_exit_code = None,
      v_output_bytes = 0, v_error_bytes = 0, v_admission_rejection = rejected,
      v_prepared_runtime = None, v_engine_released = False, v_payload_released = False,
      v_pending_stop = None, v_input_progress = None, v_runtime_binding = None, v_outcome = None,
      v_storage_recovery = []\<rparr>"

definition value_row :: "attempt_value \<Rightarrow> attempt_row" where
  "value_row v = \<lparr>row_id = plan_attempt_id (v_plan v), row_job_id = plan_job_id (v_plan v),
     row_generation = plan_generation (v_plan v), row_plan_digest = v_plan_digest v,
     row_state = v_state v, row_slot = v_slot v, row_value = v\<rparr>"

definition reject :: "plan \<Rightarrow> rat \<Rightarrow> json option \<Rightarrow> ledger \<Rightarrow> (ledger \<times> attempt_value) res" where
  "reject plan now observation s =
     (case get s (plan_attempt_id plan) of
        Some _ \<Rightarrow>
          (case fenced s (plan_attempt_id plan) (plan_generation plan) (digest_of_plan plan) of
             Inl e \<Rightarrow> Inl e | Inr v \<Rightarrow> Inr (s, v))
      | None \<Rightarrow>
          if same_job_conflict s plan then Inl (Conflict (Sentence Generation_stale))
          else
            let state = (if observation \<noteq> None then Unknown else Failed);
                reason = (if observation \<noteq> None then ''legacy_absence_acknowledged'' else ''admission_rejected'');
                v = new_value plan None None state True now (Some reason)
                      (Some \<lparr>rj_ledger_id = (case led_ledger_id s of None \<Rightarrow> [] | Some i \<Rightarrow> i),
                             rj_observation = observation\<rparr>)
            in (case insert_attempt (value_row v) s of Inl e \<Rightarrow> Inl e | Inr s' \<Rightarrow> Inr (s', v)))"

definition reserve :: "plan \<Rightarrow> string \<Rightarrow> json \<Rightarrow> rat \<Rightarrow> ledger \<Rightarrow> (ledger \<times> attempt_value) res" where
  "reserve plan slot binding now s =
     (case get s (plan_attempt_id plan) of
        Some before \<Rightarrow>
          if v_plan_digest before \<noteq> digest_of_plan plan then Inl (Conflict (Sentence Plan_differs))
          else Inr (s, before)
      | None \<Rightarrow>
          (case led_offer s of
             None \<Rightarrow> Inl (Conflict (Sentence Offer_absent_or_changed))
           | Some offer \<Rightarrow>
               let wanted = job_limits (plan_job plan) in
               if off_revision offer \<noteq> plan_offer_revision plan
               then Inl (Conflict (Sentence Offer_absent_or_changed))
               else (case refusal offer (plan_project_id plan) (plan_job plan) now False of
                 Some reason \<Rightarrow> Inl (Conflict (Reason reason))
               | None \<Rightarrow>
                 if same_job_conflict s plan then Inl (Conflict (Sentence Generation_stale))
                 else if list_ex (\<lambda>v. v_slot v = Some slot) (held_values s)
                 then Inl (Conflict (Sentence Slot_reserved))
                 else if list_ex (\<lambda>f. f wanted + total f (running_values s) > f (off_limits offer))
                     [cpu_millis, memory_bytes, swap_bytes, processes]
                 then Inl (Conflict (Sentence Resources_insufficient))
                 else if list_ex (\<lambda>f. f wanted + total f (held_values s) > f (off_limits offer))
                     [storage_bytes, storage_inodes]
                 then Inl (Conflict (Sentence Storage_insufficient))
                 else if list_ex (\<lambda>d. d \<in> fst ` set (led_devices s)) (gpu_devices wanted)
                 then Inl (Conflict (Sentence Gpu_reserved))
                 else
                   let v = new_value plan (Some slot) (Some binding) Prepared False now None None
                   in (case insert_attempt (value_row v) s of
                         Inl e \<Rightarrow> Inl e
                       | Inr s' \<Rightarrow>
                           (case insert_devices (gpu_devices wanted) (plan_attempt_id plan) s' of
                              Inl e \<Rightarrow> Inl e | Inr s'' \<Rightarrow> Inr (s'', v))))))"

section \<open>The life of an attempt\<close>

definition value_active :: "attempt_value \<Rightarrow> reading \<Rightarrow> bool" where
  "value_active v now = active (v_lease_sequence v) (v_lease_expires_at v) (v_lease_timing v) now"

definition start_requested :: "'a fence_scheme \<Rightarrow> reading \<Rightarrow> ledger \<Rightarrow> (ledger \<times> attempt_value \<times> bool) res" where
  "start_requested fence now s =
     (case fenced s (f_attempt_id fence) (f_generation fence) (f_plan_digest fence) of
        Inl e \<Rightarrow> Inl e
      | Inr v \<Rightarrow>
          if v_state v \<noteq> Prepared then Inr (s, v, False)
          else if \<not> value_active v now then Inl (Conflict (Sentence Lease_required))
          else (case led_offer s of
             None \<Rightarrow> Inl (Conflict (Sentence Offer_changed_before_start))
           | Some offer \<Rightarrow>
               if off_revision offer \<noteq> plan_offer_revision (v_plan v)
               then Inl (Conflict (Sentence Offer_changed_before_start))
               else (case refusal offer (plan_project_id (v_plan v)) (plan_job (v_plan v)) (wall now) False of
                 Some reason \<Rightarrow> Inl (Conflict (Reason reason))
               | None \<Rightarrow> let v' = v\<lparr>v_state := Starting\<rparr> in Inr (save v' s, v', True))))"

definition started :: "'a fence_scheme \<Rightarrow> json \<Rightarrow> ledger \<Rightarrow> ledger res" where
  "started fence binding s =
     (case fenced s (f_attempt_id fence) (f_generation fence) (f_plan_digest fence) of
        Inl e \<Rightarrow> Inl e
      | Inr v \<Rightarrow>
          if v_state v \<noteq> Starting then Inl (Conflict (Sentence Not_awaiting_start))
          else Inr (save (v\<lparr>v_state := Running, v_runtime_binding := Some binding\<rparr>) s))"

definition renew :: "renewal \<Rightarrow> reading \<Rightarrow> rat \<Rightarrow> ledger \<Rightarrow> (ledger \<times> attempt_value) res" where
  "renew request now maximum_seconds s =
     (case fenced s (f_attempt_id request) (f_generation request) (f_plan_digest request) of
        Inl e \<Rightarrow> Inl e
      | Inr v \<Rightarrow>
          if v_state v \<notin> {Prepared, Starting, Running} then Inl (Conflict (Sentence Lease_refused_state))
          else if v_lease_sequence v \<noteq> 0 \<and> \<not> value_active v now then Inl (Conflict (Sentence Lease_expired))
          else (case led_offer s of
             None \<Rightarrow> Inl (Conflict (Sentence Offer_absent))
           | Some offer \<Rightarrow>
             (case refusal offer (plan_project_id (v_plan v)) (plan_job (v_plan v)) (wall now) True of
               Some reason \<Rightarrow> Inl (Conflict (Reason reason))
             | None \<Rightarrow>
               if list_ex (\<lambda>f. total f (running_values s) > f (off_limits offer))
                   [cpu_millis, memory_bytes, swap_bytes, processes]
               then Inl (Conflict (Sentence Offer_reduced))
               else if ren_sequence request \<le> v_lease_sequence v then
                 (if ren_sequence request = v_lease_sequence v \<and> ren_expires_at request = v_lease_expires_at v
                  then Inr (s, v) else Inl (Conflict (Sentence Lease_stale)))
               else (case deadline (ren_expires_at request) now maximum_seconds of
                   Inl _ \<Rightarrow> Inl (Conflict (Sentence Lease_deadline))
                 | Inr timing \<Rightarrow>
                     let v' = v\<lparr>v_lease_sequence := ren_sequence request,
                                v_lease_expires_at := ren_expires_at request,
                                v_lease_timing := Some timing\<rparr>
                     in Inr (save v' s, v')))))"

definition admit :: "admission \<Rightarrow> string \<Rightarrow> json \<Rightarrow> reading \<Rightarrow> rat \<Rightarrow> ledger
    \<Rightarrow> (ledger \<times> attempt_value \<times> bool) res" where
  "admit a slot binding now maximum_seconds s =
     (let before = get s (plan_attempt_id (adm_plan a)) in
      case reserve (adm_plan a) slot binding (wall now) s of
        Inl e \<Rightarrow> Inl e
      | Inr (s', v) \<Rightarrow>
          if before = None then
            (case renew (adm_lease a) now maximum_seconds s' of
               Inl e \<Rightarrow> Inl e | Inr (s'', v') \<Rightarrow> Inr (s'', v', True))
          else Inr (s', v, False))"

definition finish :: "attempt_result \<Rightarrow> ledger \<Rightarrow> ledger res" where
  "finish result s =
     (case fenced s (f_attempt_id result) (f_generation result) (f_plan_digest result) of
        Inl e \<Rightarrow> Inl e
      | Inr v \<Rightarrow>
          if v_state v = Released then Inl (Conflict (Sentence Already_released))
          else if res_state result \<notin> terminal \<union> {Unknown} then Inl (Conflict (Sentence Outcome_required))
          else if res_state result \<in> terminal \<and> \<not> res_cleanup_confirmed result
          then Inl (Conflict (Sentence Cleanup_required))
          else if v_state v \<in> terminal \<and> v_state v \<noteq> res_state result
          then Inl (Conflict (Sentence Outcome_fixed))
          else
            let s' = save (v\<lparr>v_state := res_state result, v_reason := res_reason result,
                             v_exit_code := res_exit_code result, v_output_bytes := res_output_bytes result,
                             v_error_bytes := res_error_bytes result,
                             v_cleanup_confirmed := res_cleanup_confirmed result\<rparr>) s
            in Inr (if res_cleanup_confirmed result then delete_devices (f_attempt_id result) s' else s'))"

definition release :: "'a fence_scheme \<Rightarrow> ledger \<Rightarrow> (ledger \<times> attempt_value) res" where
  "release fence s =
     (case fenced s (f_attempt_id fence) (f_generation fence) (f_plan_digest fence) of
        Inl e \<Rightarrow> Inl e
      | Inr v \<Rightarrow>
          if v_state v = Released then Inr (s, v)
          else if v_state v \<notin> terminal \<union> {Unknown} \<or> \<not> v_cleanup_confirmed v
          then Inl (Conflict (Sentence Cleanup_unconfirmed))
          else let v' = v\<lparr>v_outcome := Some (v_state v), v_state := Released, v_slot := None\<rparr>
            in Inr (delete_devices (f_attempt_id fence) (save v' s), v'))"

definition recover_storage :: "'a fence_scheme \<Rightarrow> json option \<Rightarrow> json \<Rightarrow> rat \<Rightarrow> ledger
    \<Rightarrow> (ledger \<times> attempt_value) res" where
  "recover_storage fence before binding observed_at s =
     (case fenced s (f_attempt_id fence) (f_generation fence) (f_plan_digest fence) of
        Inl e \<Rightarrow> Inl e
      | Inr v \<Rightarrow>
          if v_state v = Released \<or> v_binding v \<noteq> before then Inl (Conflict (Sentence Binding_changed))
          else if length (v_storage_recovery v) \<ge> 64 then Inl (Conflict (Sentence Recovery_limit))
          else
            let v1 = v\<lparr>v_binding := Some binding, v_cleanup_confirmed := True,
                       v_storage_recovery := v_storage_recovery v @ [(before, binding, observed_at)]\<rparr>;
                v2 = (if v_state v1 \<notin> terminal
                      then v1\<lparr>v_state := Unknown, v_reason := Some ''storage_recovered_outcome_unknown'',
                              v_exit_code := None\<rparr>
                      else v1)
            in Inr (delete_devices (f_attempt_id fence) (save v2 s), v2))"

end
