(* ===== verification/Exec_Ledger_Inv.thy ===== *)
theory Exec_Ledger_Inv
  imports Exec_Ledger
begin

text \<open>
  The invariant of the ledger and its preservation by every operation. The columns of a row
  mirror its document, storage slots and GPUs are held by one attempt each, a job has at most
  one attempt that is not released and it is the one with the largest generation, and an
  attempt's state agrees with its cleanup flag, slot and outcome.
\<close>

section \<open>Values of the table\<close>

definition vals :: "ledger \<Rightarrow> attempt_value list" where
  "vals s = map row_value (led_attempts s)"

definition vid :: "attempt_value \<Rightarrow> string" where
  "vid v = plan_attempt_id (v_plan v)"

definition gpus :: "attempt_value \<Rightarrow> string list" where
  "gpus v = gpu_devices (job_limits (plan_job (v_plan v)))"

definition row_ok :: "attempt_row \<Rightarrow> bool" where
  "row_ok r \<longleftrightarrow> r = value_row (row_value r)"

definition mirrored :: "ledger \<Rightarrow> bool" where
  "mirrored s \<longleftrightarrow> (\<forall>r\<in>set (led_attempts s). row_ok r)"

lemma vid_row: "row_ok r \<Longrightarrow> row_id r = vid (row_value r)"
  unfolding row_ok_def by (metis attempt_row.select_convs(1) value_row_def vid_def)

lemma row_ok_value_row [simp]: "row_ok (value_row v)"
  by (simp add: row_ok_def value_row_def)

lemma get_vals: "mirrored s \<Longrightarrow> get s k = find_row vid (vals s) k"
proof -
  have "(\<forall>r\<in>set rs. row_ok r) \<Longrightarrow>
      map_option row_value (find_row row_id rs k) = find_row vid (map row_value rs) k" for rs
    by (induction rs) (auto simp: find_row_def vid_row)
  then show "mirrored s \<Longrightarrow> get s k = find_row vid (vals s) k"
    by (simp add: get_def vals_def mirrored_def)
qed

lemma mset_all_values: "mset (all_values s) = mset (vals s)"
  by (simp add: all_values_def all_rows_def vals_def)

lemma set_all_values: "set (all_values s) = set (vals s)"
  using mset_all_values mset_eq_setD by blast

lemma total_mset: "mset vs = mset ws \<Longrightarrow> total f vs = total f ws"
  by (simp add: total_def flip: sum_mset_sum_list mset_map) (metis mset_map)

lemma total_held: "total f (held_values s) = total f (filter (\<lambda>v. v_slot v \<noteq> None) (vals s))"
  by (rule total_mset) (simp add: held_values_def mset_all_values)

lemma total_running:
  "total f (running_values s) = total f (filter (\<lambda>v. v_slot v \<noteq> None \<and> \<not> v_cleanup_confirmed v) (vals s))"
  by (rule total_mset) (simp add: running_values_def held_values_def mset_all_values conj_commute)

lemma set_held: "set (held_values s) = {v \<in> set (vals s). v_slot v \<noteq> None}"
  by (simp add: held_values_def set_all_values)

lemma same_job_conflict_iff:
  "same_job_conflict s p \<longleftrightarrow> (\<exists>v\<in>set (vals s). plan_job_id (v_plan v) = plan_job_id p \<and>
     (v_state v \<noteq> Released \<or> plan_generation (v_plan v) \<ge> plan_generation p))"
  by (auto simp: same_job_conflict_def list_ex_iff set_all_values)

section \<open>The invariant\<close>

definition value_ok :: "attempt_value \<Rightarrow> bool" where
  "value_ok v \<longleftrightarrow>
     valid_plan (v_plan v) \<and> v_plan_digest v = digest_of_plan (v_plan v) \<and>
     v_state v \<notin> {Queued, Preparing, Abandoned} \<and>
     (\<not> v_cleanup_confirmed v \<longrightarrow> v_slot v \<noteq> None) \<and>
     (v_state v \<in> {Prepared, Starting, Running} \<longrightarrow> \<not> v_cleanup_confirmed v) \<and>
     (v_state v \<in> terminal \<longrightarrow> v_cleanup_confirmed v) \<and>
     (v_state v = Released \<longrightarrow> v_cleanup_confirmed v \<and> v_slot v = None \<and>
        v_outcome v \<in> Some ` (terminal \<union> {Unknown})) \<and>
     0 \<le> v_lease_sequence v \<and> (v_lease_sequence v = 0 \<longleftrightarrow> v_lease_timing v = None)"

definition slots_exclusive :: "attempt_value list \<Rightarrow> bool" where
  "slots_exclusive vs \<longleftrightarrow> (\<forall>v\<in>set vs. \<forall>w\<in>set vs. v_slot v \<noteq> None \<longrightarrow> v_slot v = v_slot w \<longrightarrow> v = w)"

definition jobs_fenced :: "attempt_value list \<Rightarrow> bool" where
  "jobs_fenced vs \<longleftrightarrow> (\<forall>v\<in>set vs. \<forall>w\<in>set vs.
     plan_job_id (v_plan v) = plan_job_id (v_plan w) \<longrightarrow> v \<noteq> w \<longrightarrow>
       plan_generation (v_plan v) \<noteq> plan_generation (v_plan w) \<and>
       (v_state v \<noteq> Released \<longrightarrow>
          v_state w = Released \<and> plan_generation (v_plan w) < plan_generation (v_plan v)))"

definition devices_held :: "attempt_value list \<Rightarrow> (string \<times> string) list \<Rightarrow> bool" where
  "devices_held vs ds \<longleftrightarrow> distinct (map fst ds) \<and>
     (\<forall>d a. (d, a) \<in> set ds \<longleftrightarrow> (\<exists>v\<in>set vs. vid v = a \<and> \<not> v_cleanup_confirmed v \<and> d \<in> set (gpus v)))"

definition ledger_inv :: "ledger \<Rightarrow> bool" where
  "ledger_inv s \<longleftrightarrow> mirrored s \<and> distinct (map vid (vals s)) \<and> (\<forall>v\<in>set (vals s). value_ok v) \<and>
     slots_exclusive (vals s) \<and> jobs_fenced (vals s) \<and> devices_held (vals s) (led_devices s)"

lemma ledger_invD:
  assumes "ledger_inv s"
  shows "mirrored s" "distinct (map vid (vals s))" "\<And>v. v \<in> set (vals s) \<Longrightarrow> value_ok v"
    "slots_exclusive (vals s)" "jobs_fenced (vals s)" "devices_held (vals s) (led_devices s)"
  using assms by (auto simp: ledger_inv_def)

lemma ledger_inv_empty: "ledger_inv empty_ledger"
  by (simp add: ledger_inv_def empty_ledger_def mirrored_def vals_def slots_exclusive_def
      jobs_fenced_def devices_held_def)

lemma get_in_vals: "ledger_inv s \<Longrightarrow> get s k = Some v \<Longrightarrow> v \<in> set (vals s) \<and> vid v = k"
  by (auto simp: get_vals ledger_inv_def dest: find_row_Some)

lemma vals_get: "ledger_inv s \<Longrightarrow> v \<in> set (vals s) \<Longrightarrow> get s (vid v) = Some v"
  by (simp add: get_vals ledger_inv_def find_row_distinct)

lemma fencedD:
  assumes "fenced s i g d = Inr v"
  shows "get s i = Some v" "plan_generation (v_plan v) = g" "v_plan_digest v = d"
  using assms by (auto simp: fenced_def split: option.splits if_splits)

section \<open>Replacing one document\<close>

lemma save_fields [simp]:
  "led_devices (save v s) = led_devices s" "led_offer (save v s) = led_offer s"
  "led_ledger_id (save v s) = led_ledger_id s" "led_installation_id (save v s) = led_installation_id s"
  by (simp_all add: save_def)

lemma delete_devices_fields [simp]:
  "led_attempts (delete_devices i s) = led_attempts s" "led_offer (delete_devices i s) = led_offer s"
  "led_ledger_id (delete_devices i s) = led_ledger_id s"
  "led_installation_id (delete_devices i s) = led_installation_id s"
  "vals (delete_devices i s) = vals s" "get (delete_devices i s) = get s"
  "mirrored (delete_devices i s) = mirrored s"
  by (simp_all add: delete_devices_def vals_def get_def mirrored_def fun_eq_iff)

text \<open>A document that keeps its plan: the shape of every update of an existing attempt.\<close>

definition same_plan :: "attempt_value \<Rightarrow> attempt_value \<Rightarrow> bool" where
  "same_plan v w \<longleftrightarrow> v_plan v = v_plan w \<and> v_plan_digest v = v_plan_digest w"

lemma save_vals:
  assumes "mirrored s" and "get s (vid v) = Some u" and "same_plan u v" and "distinct (map vid (vals s))"
  shows "vals (save v s) = map (\<lambda>w. if vid w = vid v then v else w) (vals s)"
    and "mirrored (save v s)"
proof -
  let ?f = "\<lambda>r. r\<lparr>row_state := v_state v, row_slot := v_slot v, row_value := v\<rparr>"
  have rows: "led_attempts (save v s) = put_row row_id (vid v) ?f (led_attempts s)"
    by (simp add: save_def vid_def)
  have id: "row_id r = vid (row_value r)" if "r \<in> set (led_attempts s)" for r
    using that assms(1) vid_row by (auto simp: mirrored_def)
  show "vals (save v s) = map (\<lambda>w. if vid w = vid v then v else w) (vals s)"
    using id by (simp add: vals_def rows put_row_def)
  have u: "row_value r = u" if "r \<in> set (led_attempts s)" "row_id r = vid v" for r
  proof -
    have "find_row vid (vals s) (vid v) = Some (row_value r)"
      using that id find_row_distinct [OF assms(4), of "row_value r"] by (simp add: vals_def)
    with assms(1,2) show ?thesis by (simp add: get_vals)
  qed
  have "?f r = value_row v" if "r \<in> set (led_attempts s)" "row_id r = vid v" for r
  proof -
    have "r = value_row u" using that u assms(1) by (metis mirrored_def row_ok_def)
    with assms(3) show ?thesis by (simp add: value_row_def same_plan_def)
  qed
  then have "row_ok q" if "q \<in> set (put_row row_id (vid v) ?f (led_attempts s))" for q
    using set_put_row [OF that] assms(1) row_ok_value_row [of v] by (auto simp: mirrored_def)
  then show "mirrored (save v s)" by (simp add: mirrored_def rows)
qed

lemma set_replace:
  assumes "distinct (map vid vs)" and "u \<in> set vs" and "vid v = vid u"
  shows "set (map (\<lambda>w. if vid w = vid v then v else w) vs) = insert v (set vs - {u})"
  using assms by (auto simp: distinct_map inj_on_def)

text \<open>
  The update lemma: an existing document \<open>u\<close> is replaced by \<open>v\<close> with the same plan. The slot
  is kept or given up, a released attempt stays released, confirmed cleanup stays confirmed,
  and the devices are deleted when \<open>v\<close> has confirmed cleanup.
\<close>

text \<open>Replacing one document \<open>u\<close> by a later version \<open>v\<close> of it keeps the fencing of jobs and the devices.\<close>

lemma jobs_replaced:
  assumes fenced: "jobs_fenced vs" and u: "u \<in> set vs" and ws: "set ws = insert v (set vs - {u})"
    and plan: "v_plan v = v_plan u" and rel: "v_state u = Released \<Longrightarrow> v_state v = Released"
  shows "jobs_fenced ws"
  unfolding jobs_fenced_def ws
proof (intro ballI impI)
  fix x y
  assume x: "x \<in> insert v (set vs - {u})" and y: "y \<in> insert v (set vs - {u})"
    and job: "plan_job_id (v_plan x) = plan_job_id (v_plan y)" and ne: "x \<noteq> y"
  define x' y' where "x' = (if x = v then u else x)" and "y' = (if y = v then u else y)"
  have in': "x' \<in> set vs" "y' \<in> set vs" "x' \<noteq> y'"
    using x y ne u unfolding x'_def y'_def by (auto split: if_splits)
  have pl: "v_plan x' = v_plan x" "v_plan y' = v_plan y" using plan by (auto simp: x'_def y'_def)
  have st: "v_state x \<noteq> Released \<Longrightarrow> v_state x' \<noteq> Released" "v_state y' = Released \<Longrightarrow> v_state y = Released"
    using rel by (auto simp: x'_def y'_def split: if_splits)
  show "plan_generation (v_plan x) \<noteq> plan_generation (v_plan y) \<and>
     (v_state x \<noteq> Released \<longrightarrow> v_state y = Released \<and> plan_generation (v_plan y) < plan_generation (v_plan x))"
    using fenced in' pl st job unfolding jobs_fenced_def by metis
qed

lemma devices_replaced:
  assumes held: "devices_held vs ds" and u: "u \<in> set vs" and ws: "set ws = insert v (set vs - {u})"
    and other: "\<And>w. w \<in> set vs - {u} \<Longrightarrow> vid w \<noteq> vid v" and uid: "vid u = vid v" and plan: "v_plan v = v_plan u"
    and clean: "v_cleanup_confirmed u \<Longrightarrow> v_cleanup_confirmed v"
    and devs: "devices = (if v_cleanup_confirmed v then filter (\<lambda>(d, a). a \<noteq> vid v) ds else ds)"
  shows "devices_held ws devices"
  unfolding devices_held_def ws
proof (intro conjI allI)
  show "distinct (map fst devices)" using held devs by (auto simp: devices_held_def distinct_map_filter)
  fix d a
  have old: "(d, a) \<in> set ds \<longleftrightarrow> (\<exists>w\<in>set vs. vid w = a \<and> \<not> v_cleanup_confirmed w \<and> d \<in> set (gpus w))"
    using held by (simp add: devices_held_def)
  show "(d, a) \<in> set devices \<longleftrightarrow> (\<exists>w\<in>insert v (set vs - {u}). vid w = a \<and> \<not> v_cleanup_confirmed w \<and> d \<in> set (gpus w))"
  proof (cases "v_cleanup_confirmed v")
    case True
    then have "(d, a) \<in> set devices \<longleftrightarrow> a \<noteq> vid v \<and> (d, a) \<in> set ds" using devs by auto
    with True old other uid show ?thesis by auto
  next
    case False
    with devs clean have "devices = ds" "\<not> v_cleanup_confirmed u" by auto
    moreover have "(vid v = a \<and> \<not> v_cleanup_confirmed v \<and> d \<in> set (gpus v)) = (vid u = a \<and> \<not> v_cleanup_confirmed u \<and> d \<in> set (gpus u))"
      using False plan uid calculation(2) by (simp add: gpus_def)
    ultimately show ?thesis using old u by blast
  qed
qed

lemma replace_inv:
  assumes inv: "ledger_inv s" and u: "get s (vid v) = Some u" and same: "same_plan u v"
    and ok: "value_ok v" and slot: "v_slot v = v_slot u \<or> v_slot v = None"
    and rel: "v_state u = Released \<Longrightarrow> v_state v = Released"
    and clean: "v_cleanup_confirmed u \<Longrightarrow> v_cleanup_confirmed v"
    and devs: "devices = (if v_cleanup_confirmed v then filter (\<lambda>(d, a). a \<noteq> vid v) (led_devices s)
      else led_devices s)"
  shows "ledger_inv ((save v s)\<lparr>led_devices := devices\<rparr>)"
proof -
  note D = ledger_invD [OF inv]
  have uin: "u \<in> set (vals s)" and uid: "vid u = vid v" using get_in_vals [OF inv u] by auto
  let ?vs = "map (\<lambda>w. if vid w = vid v then v else w) (vals s)"
  have vs: "vals (save v s) = ?vs" and mir: "mirrored (save v s)"
    using save_vals [OF D(1) u same D(2)] by auto
  have set: "set ?vs = insert v (set (vals s) - {u})"
    using set_replace [OF D(2) uin] uid by simp
  have ids: "map vid ?vs = map vid (vals s)" by simp
  have plan: "v_plan v = v_plan u" using same by (simp add: same_plan_def)
  have other: "vid w \<noteq> vid v" if "w \<in> set (vals s) - {u}" for w
    using that uin uid D(2) by (auto simp: distinct_map inj_on_def)
  have slots: "slots_exclusive ?vs"
    using D(4) slot uin unfolding slots_exclusive_def set by (metis Diff_iff insert_iff singletonI)
  have jobs: "jobs_fenced ?vs" by (rule jobs_replaced [OF D(5) uin set plan rel])
  have held: "devices_held ?vs devices" by (rule devices_replaced [OF D(6) uin set other uid plan clean devs])
  have oks: "\<forall>w\<in>set ?vs. value_ok w" unfolding set using D(3) ok by blast
  have "vals ((save v s)\<lparr>led_devices := devices\<rparr>) = ?vs" "mirrored ((save v s)\<lparr>led_devices := devices\<rparr>)"
    using vs mir by (simp_all add: vals_def mirrored_def)
  then show ?thesis
    unfolding ledger_inv_def using D(2) oks slots jobs held ids by (simp del: map_map)
qed

lemma save_inv:
  assumes "ledger_inv s" "get s (vid v) = Some u" "same_plan u v" "value_ok v"
    "v_slot v = v_slot u \<or> v_slot v = None" "v_state u = Released \<Longrightarrow> v_state v = Released"
    "v_cleanup_confirmed u \<Longrightarrow> v_cleanup_confirmed v" "v_cleanup_confirmed v \<Longrightarrow> v_cleanup_confirmed u"
  shows "ledger_inv (save v s)"
proof -
  have "led_devices s = (if v_cleanup_confirmed v then filter (\<lambda>(d, a). a \<noteq> vid v) (led_devices s)
      else led_devices s)"
  proof (cases "v_cleanup_confirmed v")
    case True
    then have "v_cleanup_confirmed u" using assms(8) by simp
    have "a \<noteq> vid v" if da: "(d, a) \<in> set (led_devices s)" for d a
    proof
      assume "a = vid v"
      with da obtain w where "w \<in> set (vals s)" "vid w = vid v" "\<not> v_cleanup_confirmed w"
        using ledger_invD(6) [OF assms(1)] unfolding devices_held_def by blast
      then show False using vals_get [OF assms(1)] assms(2) \<open>v_cleanup_confirmed u\<close> by force
    qed
    then have "filter (\<lambda>(d, a). a \<noteq> vid v) (led_devices s) = led_devices s"
      by (auto simp: filter_id_conv)
    then show ?thesis by simp
  qed simp
  from replace_inv [OF assms(1-7) this] show ?thesis by (simp add: save_def)
qed

lemma save_delete_inv:
  assumes "ledger_inv s" "get s (vid v) = Some u" "same_plan u v" "value_ok v"
    "v_slot v = v_slot u \<or> v_slot v = None" "v_state u = Released \<Longrightarrow> v_state v = Released"
    "v_cleanup_confirmed v"
  shows "ledger_inv (delete_devices (vid v) (save v s))"
  using replace_inv [OF assms(1-6), of "filter (\<lambda>(d, a). a \<noteq> vid v) (led_devices s)"] assms(7)
  by (simp add: delete_devices_def)

section \<open>Inserting a document\<close>

lemma valid_plan_gpus: "valid_plan p \<Longrightarrow> distinct (gpu_devices (job_limits (plan_job p)))"
  by (simp add: valid_plan_def valid_job_def valid_limits_def)

lemma insert_attempt_ok:
  assumes "ledger_inv s" "get s (vid v) = None" "\<not> same_job_conflict s (v_plan v)"
    "v_slot v \<noteq> None \<Longrightarrow> \<forall>w\<in>set (vals s). v_slot w \<noteq> v_slot v"
  shows "insert_attempt (value_row v) s = Inr (s\<lparr>led_attempts := led_attempts s @ [value_row v]\<rparr>)"
proof -
  have ok: "q = value_row (row_value q)" "row_value q \<in> set (vals s)" if "q \<in> set (led_attempts s)" for q
    using that ledger_invD(1) [OF assms(1)] by (auto simp: mirrored_def row_ok_def vals_def)
  have ids: "vid w \<noteq> vid v" if "w \<in> set (vals s)" for w
    using that assms(1,2) vals_get by fastforce
  have "\<not> (row_id q = row_id (value_row v) \<or>
      (row_slot (value_row v) \<noteq> None \<and> row_slot q = row_slot (value_row v)) \<or>
      (row_job_id q = row_job_id (value_row v) \<and> row_generation q = row_generation (value_row v)))"
    if "q \<in> set (led_attempts s)" for q
  proof -
    obtain w where w: "q = value_row w" "w \<in> set (vals s)"
      using ok [OF \<open>q \<in> set (led_attempts s)\<close>] by metis
    have "\<not> (plan_job_id (v_plan w) = plan_job_id (v_plan v) \<and> plan_generation (v_plan w) = plan_generation (v_plan v))"
      using assms(3) w(2) unfolding same_job_conflict_iff by force
    then show ?thesis using ids [OF w(2)] assms(4) w by (auto simp: value_row_def vid_def)
  qed
  then show ?thesis by (auto simp: insert_attempt_def list_ex_iff add_row_def)
qed

lemma insert_devices_ok:
  assumes "distinct ds" "\<forall>d\<in>set ds. d \<notin> fst ` set (led_devices s)"
  shows "insert_devices ds i s = Inr (s\<lparr>led_devices := led_devices s @ map (\<lambda>d. (d, i)) ds\<rparr>)"
  using assms
proof (induction ds arbitrary: s)
  case (Cons d ds)
  let ?s = "s\<lparr>led_devices := led_devices s @ [(d, i)]\<rparr>"
  have "\<forall>e\<in>set ds. e \<notin> fst ` set (led_devices ?s)" using Cons.prems by auto
  with Cons show ?case by (simp add: add_row_def)
qed simp

lemma insert_inv:
  assumes inv: "ledger_inv s" and new: "get s (vid v) = None" and ok: "value_ok v"
    and job: "\<not> same_job_conflict s (v_plan v)"
    and slot: "v_slot v \<noteq> None \<Longrightarrow> \<forall>w\<in>set (vals s). v_slot w \<noteq> v_slot v"
    and dev: "\<not> v_cleanup_confirmed v \<Longrightarrow> \<forall>d\<in>set (gpus v). d \<notin> fst ` set (led_devices s)"
    and devs: "devices = led_devices s @ (if v_cleanup_confirmed v then [] else map (\<lambda>d. (d, vid v)) (gpus v))"
  shows "ledger_inv (s\<lparr>led_attempts := led_attempts s @ [value_row v], led_devices := devices\<rparr>)"
proof -
  note D = ledger_invD [OF inv]
  let ?t = "s\<lparr>led_attempts := led_attempts s @ [value_row v], led_devices := devices\<rparr>"
  have vs: "vals ?t = vals s @ [v]" by (simp add: vals_def value_row_def)
  have ids: "vid w \<noteq> vid v" if "w \<in> set (vals s)" for w
    using that inv new vals_get by fastforce
  have other: "plan_generation (v_plan w) < plan_generation (v_plan v) \<and> v_state w = Released"
    if "w \<in> set (vals s)" "plan_job_id (v_plan w) = plan_job_id (v_plan v)" for w
    using that job unfolding same_job_conflict_iff by force
  have "distinct (gpus v)" using ok valid_plan_gpus by (simp add: value_ok_def gpus_def)
  then have "distinct (map fst devices)"
    using D(6) dev unfolding devs devices_held_def
    by (auto simp: comp_def) (metis fst_conv image_eqI)
  moreover have "(d, a) \<in> set devices \<longleftrightarrow>
      (\<exists>w\<in>set (vals s @ [v]). vid w = a \<and> \<not> v_cleanup_confirmed w \<and> d \<in> set (gpus w))" for d a
    using D(6) unfolding devs devices_held_def by auto
  ultimately have held: "devices_held (vals s @ [v]) devices" by (simp add: devices_held_def)
  have jobs: "jobs_fenced (vals s @ [v])"
    using D(5) other unfolding jobs_fenced_def by (simp add: ball_Un) (metis less_irrefl)
  have slots: "slots_exclusive (vals s @ [v])"
    using D(4) slot unfolding slots_exclusive_def by (auto simp: ball_Un)
  have "mirrored ?t" using D(1) by (auto simp: mirrored_def)
  then show ?thesis
    unfolding ledger_inv_def vs using D(2,3) ok ids held jobs slots by (auto dest!: ids)
qed

section \<open>Every operation keeps the invariant\<close>

lemma value_ok_new:
  assumes "valid_plan p"
  shows "value_ok (new_value p (Some slot) (Some b) Prepared False now None None)"
    "value_ok (new_value p None None (if x then Unknown else Failed) True now r j)"
  using assms by (auto simp: value_ok_def new_value_def terminal_def)

lemma vid_new [simp]: "vid (new_value p sl b st c now r j) = plan_attempt_id p"
  by (simp add: vid_def new_value_def)

lemma reject_inv:
  assumes "ledger_inv s" "valid_plan p" "reject p now obs s = Inr (t, v)"
  shows "ledger_inv t"
proof (cases "get s (plan_attempt_id p)")
  case (Some u)
  then show ?thesis using assms by (auto simp: reject_def split: sum.splits)
next
  case None
  define w where "w = new_value p None None (if obs \<noteq> None then Unknown else Failed) True now
     (Some (if obs \<noteq> None then ''legacy_absence_acknowledged'' else ''admission_rejected''))
     (Some \<lparr>rj_ledger_id = (case led_ledger_id s of None \<Rightarrow> [] | Some i \<Rightarrow> i), rj_observation = obs\<rparr>)"
  have w: "vid w = plan_attempt_id p" "v_plan w = p" "v_slot w = None" "v_cleanup_confirmed w" "value_ok w"
    using value_ok_new(2) [OF assms(2)] by (simp_all add: w_def) (simp_all add: new_value_def)
  have job: "\<not> same_job_conflict s p"
    using assms(3) None by (auto simp: reject_def split: if_splits)
  have "insert_attempt (value_row w) s = Inr (s\<lparr>led_attempts := led_attempts s @ [value_row w]\<rparr>)"
    using insert_attempt_ok [OF assms(1), of w] None job w by simp
  then have t: "t = s\<lparr>led_attempts := led_attempts s @ [value_row w]\<rparr>"
    using assms(3) None job by (auto simp: reject_def Let_def w_def)
  have "ledger_inv (s\<lparr>led_attempts := led_attempts s @ [value_row w], led_devices := led_devices s\<rparr>)"
    using insert_inv [OF assms(1), of w] None job w by simp
  then show ?thesis by (simp add: t)
qed

text \<open>What a reservation that created an attempt checked and did.\<close>

lemma reserve_new:
  assumes inv: "ledger_inv s" and pl: "valid_plan p" and res: "reserve p slot b now s = r"
    and new: "get s (plan_attempt_id p) = None"
  defines "v \<equiv> new_value p (Some slot) (Some b) Prepared False now None None"
  defines "t \<equiv> s\<lparr>led_attempts := led_attempts s @ [value_row v],
      led_devices := led_devices s @ map (\<lambda>d. (d, plan_attempt_id p)) (gpus v)\<rparr>"
  shows "(\<exists>c. r = Inl (Conflict c)) \<or>
     r = Inr (t, v) \<and> ledger_inv t \<and>
     (\<exists>offer. led_offer s = Some offer \<and> off_revision offer = plan_offer_revision p \<and>
        refusal offer (plan_project_id p) (plan_job p) now False = None \<and>
        (\<forall>f\<in>{cpu_millis, memory_bytes, swap_bytes, processes}.
           f (job_limits (plan_job p)) + total f (running_values s) \<le> f (off_limits offer)) \<and>
        (\<forall>f\<in>{storage_bytes, storage_inodes}.
           f (job_limits (plan_job p)) + total f (held_values s) \<le> f (off_limits offer)))"
proof (cases "\<exists>c. r = Inl (Conflict c)")
  case False
  note ex = False [unfolded res [symmetric] reserve_def]
  obtain offer where off: "led_offer s = Some offer" "off_revision offer = plan_offer_revision p"
      "refusal offer (plan_project_id p) (plan_job p) now False = None"
    using ex new by (auto simp: Let_def split: option.splits if_splits)
  note ex = ex [unfolded new off Let_def, simplified]
  have job: "\<not> same_job_conflict s p" and sl: "\<not> list_ex (\<lambda>v. v_slot v = Some slot) (held_values s)"
    and dv: "\<not> list_ex (\<lambda>d. d \<in> fst ` set (led_devices s)) (gpu_devices (job_limits (plan_job p)))"
    and c1: "\<forall>f\<in>{cpu_millis, memory_bytes, swap_bytes, processes}.
           f (job_limits (plan_job p)) + total f (running_values s) \<le> f (off_limits offer)"
    and c2: "\<forall>f\<in>{storage_bytes, storage_inodes}.
           f (job_limits (plan_job p)) + total f (held_values s) \<le> f (off_limits offer)"
    using ex off by (auto simp: not_less split: if_splits)
  have v: "vid v = plan_attempt_id p" "v_plan v = p" "v_slot v = Some slot" "\<not> v_cleanup_confirmed v" "value_ok v"
    using value_ok_new(1) [OF pl] by (simp_all add: v_def) (simp_all add: new_value_def)
  have slots: "\<forall>w\<in>set (vals s). v_slot w \<noteq> v_slot v"
    using sl v(3) by (auto simp: list_ex_iff set_held)
  have gp: "gpus v = gpu_devices (job_limits (plan_job p))" by (simp add: gpus_def v(2))
  have 1: "insert_attempt (value_row v) s = Inr (s\<lparr>led_attempts := led_attempts s @ [value_row v]\<rparr>)"
    using insert_attempt_ok [OF inv, of v] new job v slots by simp
  have 2: "insert_devices (gpus v) (plan_attempt_id p) (s\<lparr>led_attempts := led_attempts s @ [value_row v]\<rparr>) = Inr t"
    using insert_devices_ok [of "gpus v" "s\<lparr>led_attempts := led_attempts s @ [value_row v]\<rparr>"]
      dv valid_plan_gpus [OF pl] by (simp add: gp t_def list_ex_iff)
  have "r = Inr (t, v)"
    using 1 2 new off job sl dv c1 c2
    by (simp add: res [symmetric] reserve_def Let_def gp flip: v_def)
  moreover have "ledger_inv t"
    unfolding t_def using insert_inv [OF inv, of v] new job v slots dv gp by (simp add: list_ex_iff)
  ultimately show ?thesis using off c1 c2 by blast
qed simp

lemma reserve_inv:
  assumes "ledger_inv s" "valid_plan p" "reserve p slot b now s = Inr (t, v)"
  shows "ledger_inv t"
proof (cases "get s (plan_attempt_id p)")
  case None
  then show ?thesis using reserve_new [OF assms] by auto
next
  case (Some u)
  then show ?thesis using assms by (auto simp: reserve_def split: if_splits)
qed

text \<open>An update of the document of the attempt a fence names.\<close>

lemma fenced_save_inv:
  assumes "ledger_inv s" "fenced s i g d = Inr u" "same_plan u v" "value_ok v" "v_slot v = v_slot u"
    "v_state u = Released \<Longrightarrow> v_state v = Released" "v_cleanup_confirmed v = v_cleanup_confirmed u"
  shows "ledger_inv (save v s)"
proof -
  have "vid v = vid u" using assms(3) by (simp add: same_plan_def vid_def)
  then have "get s (vid v) = Some u" using get_in_vals [OF assms(1) fencedD(1) [OF assms(2)]] fencedD(1) [OF assms(2)] by simp
  then show ?thesis using assms save_inv by blast
qed

lemma fenced_delete_inv:
  assumes "ledger_inv s" "fenced s i g d = Inr u" "same_plan u v" "value_ok v"
    "v_slot v = v_slot u \<or> v_slot v = None" "v_state u = Released \<Longrightarrow> v_state v = Released" "v_cleanup_confirmed v"
  shows "ledger_inv (delete_devices i (save v s))"
proof -
  have "vid v = vid u" using assms(3) by (simp add: same_plan_def vid_def)
  moreover have "vid u = i" using get_in_vals [OF assms(1) fencedD(1) [OF assms(2)]] by simp
  ultimately show ?thesis using save_delete_inv [OF assms(1) _ assms(3-)] fencedD(1) [OF assms(2)] by simp
qed

lemma fenced_ok:
  assumes "ledger_inv s" "fenced s i g d = Inr u"
  shows "value_ok u" "u \<in> set (vals s)" "vid u = i"
  using get_in_vals [OF assms(1) fencedD(1) [OF assms(2)]] ledger_invD(3) [OF assms(1)] by auto

lemma annotation_update_keeps [simp]:
  "v_plan (annotation_update a v) = v_plan v" "v_plan_digest (annotation_update a v) = v_plan_digest v"
  "v_slot (annotation_update a v) = v_slot v" "v_state (annotation_update a v) = v_state v"
  "v_cleanup_confirmed (annotation_update a v) = v_cleanup_confirmed v"
  "v_outcome (annotation_update a v) = v_outcome v"
  "v_lease_sequence (annotation_update a v) = v_lease_sequence v"
  "v_lease_expires_at (annotation_update a v) = v_lease_expires_at v"
  "v_lease_timing (annotation_update a v) = v_lease_timing v"
  by (cases a; simp)+

lemma annotations_keep [simp]:
  "v_plan (fold annotation_update as v) = v_plan v"
  "v_plan_digest (fold annotation_update as v) = v_plan_digest v"
  "v_slot (fold annotation_update as v) = v_slot v" "v_state (fold annotation_update as v) = v_state v"
  "v_cleanup_confirmed (fold annotation_update as v) = v_cleanup_confirmed v"
  "v_outcome (fold annotation_update as v) = v_outcome v"
  "v_lease_sequence (fold annotation_update as v) = v_lease_sequence v"
  "v_lease_expires_at (fold annotation_update as v) = v_lease_expires_at v"
  "v_lease_timing (fold annotation_update as v) = v_lease_timing v"
  by (induction as arbitrary: v) simp_all

lemma annotate_inv:
  assumes "ledger_inv s" "annotate f as s = Inr (t, v)"
  shows "ledger_inv t"
proof -
  obtain u where u: "fenced s (f_attempt_id f) (f_generation f) (f_plan_digest f) = Inr u"
      and t: "t = save (fold annotation_update as u) s"
    using assms(2) by (auto simp: annotate_def Let_def split: sum.splits if_splits)
  show ?thesis unfolding t
    by (rule fenced_save_inv [OF assms(1) u])
      (use fenced_ok(1) [OF assms(1) u] in \<open>auto simp: same_plan_def value_ok_def\<close>)
qed

lemma start_requested_inv:
  assumes "ledger_inv s" "start_requested f now s = Inr (t, v, b)"
  shows "ledger_inv t"
proof -
  obtain u where u: "fenced s (f_attempt_id f) (f_generation f) (f_plan_digest f) = Inr u"
      and t: "t = s \<or> v_state u = Prepared \<and> t = save (u\<lparr>v_state := Starting\<rparr>) s"
    using assms(2) by (auto simp: start_requested_def Let_def split: sum.splits if_splits option.splits)
  from t show ?thesis
  proof
    assume p: "v_state u = Prepared \<and> t = save (u\<lparr>v_state := Starting\<rparr>) s"
    then show ?thesis using fenced_save_inv [OF assms(1) u, of "u\<lparr>v_state := Starting\<rparr>"] fenced_ok(1) [OF assms(1) u]
      by (auto simp: same_plan_def value_ok_def terminal_def)
  qed (use assms in simp)
qed

lemma started_inv:
  assumes "ledger_inv s" "started f b s = Inr t"
  shows "ledger_inv t"
proof -
  obtain u where u: "fenced s (f_attempt_id f) (f_generation f) (f_plan_digest f) = Inr u" "v_state u = Starting"
      and t: "t = save (u\<lparr>v_state := Running, v_runtime_binding := Some b\<rparr>) s"
    using assms(2) by (auto simp: started_def split: sum.splits if_splits)
  show ?thesis unfolding t
    by (rule fenced_save_inv [OF assms(1) u(1)])
      (use fenced_ok(1) [OF assms(1) u(1)] u(2) in \<open>auto simp: same_plan_def value_ok_def terminal_def\<close>)
qed

text \<open>A renewal that changes the ledger, and what it wrote.\<close>

definition renewed :: "renewal \<Rightarrow> lease_timing \<Rightarrow> attempt_value \<Rightarrow> attempt_value" where
  "renewed q timing v = v\<lparr>v_lease_sequence := ren_sequence q, v_lease_expires_at := ren_expires_at q,
     v_lease_timing := Some timing\<rparr>"

lemma renew_cases:
  assumes "renew q now maximum s = Inr (t, v)"
  obtains u offer where "fenced s (f_attempt_id q) (f_generation q) (f_plan_digest q) = Inr u"
    "v_state u \<in> {Prepared, Starting, Running}" "led_offer s = Some offer"
    "v_lease_sequence u = 0 \<or> value_active u now"
    "refusal offer (plan_project_id (v_plan u)) (plan_job (v_plan u)) (wall now) True = None"
    "\<forall>f\<in>{cpu_millis, memory_bytes, swap_bytes, processes}. total f (running_values s) \<le> f (off_limits offer)"
    "t = s \<and> v = u \<and> ren_sequence q = v_lease_sequence u \<and> ren_expires_at q = v_lease_expires_at u \<or>
     (\<exists>timing. deadline (ren_expires_at q) now maximum = Inr timing \<and> ren_sequence q > v_lease_sequence u \<and>
        v = renewed q timing u \<and> t = save v s)"
proof -
  obtain u where u: "fenced s (f_attempt_id q) (f_generation q) (f_plan_digest q) = Inr u"
    using assms by (auto simp: renew_def split: sum.splits)
  note a = assms [unfolded renew_def u, simplified]
  obtain offer where o: "led_offer s = Some offer" using a by (auto split: if_splits option.splits)
  note a = a [unfolded o, simplified]
  have st: "v_state u \<in> {Prepared, Starting, Running}" "v_lease_sequence u = 0 \<or> value_active u now"
    "refusal offer (plan_project_id (v_plan u)) (plan_job (v_plan u)) (wall now) True = None"
    "\<forall>f\<in>{cpu_millis, memory_bytes, swap_bytes, processes}. total f (running_values s) \<le> f (off_limits offer)"
    using a by (auto simp: not_less split: if_splits option.splits)
  have "t = s \<and> v = u \<and> ren_sequence q = v_lease_sequence u \<and> ren_expires_at q = v_lease_expires_at u \<or>
     (\<exists>timing. deadline (ren_expires_at q) now maximum = Inr timing \<and> ren_sequence q > v_lease_sequence u \<and>
        v = renewed q timing u \<and> t = save v s)"
    using a st by (auto simp: Let_def renewed_def not_le split: if_splits sum.splits)
  with u st(1) o st(2-4) show thesis by (rule that)
qed

lemma renewed_simps [simp]:
  "v_plan (renewed q m v) = v_plan v" "v_plan_digest (renewed q m v) = v_plan_digest v"
  "v_slot (renewed q m v) = v_slot v" "v_state (renewed q m v) = v_state v"
  "v_cleanup_confirmed (renewed q m v) = v_cleanup_confirmed v" "v_outcome (renewed q m v) = v_outcome v"
  "v_lease_sequence (renewed q m v) = ren_sequence q" "v_lease_expires_at (renewed q m v) = ren_expires_at q"
  "v_lease_timing (renewed q m v) = Some m"
  by (simp_all add: renewed_def)

lemma renew_inv:
  assumes "ledger_inv s" "renew q now maximum s = Inr (t, v)"
  shows "ledger_inv t"
  using assms(2)
proof (cases rule: renew_cases)
  case (1 u offer)
  note ok = fenced_ok(1) [OF assms(1) 1(1)]
  from 1(7) show ?thesis
  proof
    assume "\<exists>timing. deadline (ren_expires_at q) now maximum = Inr timing \<and> ren_sequence q > v_lease_sequence u \<and>
        v = renewed q timing u \<and> t = save v s"
    then obtain m where m: "ren_sequence q > v_lease_sequence u" "v = renewed q m u" "t = save v s" by blast
    show ?thesis unfolding m(3)
      by (rule fenced_save_inv [OF assms(1) 1(1)])
        (use ok m(1) in \<open>auto simp: m(2) same_plan_def value_ok_def\<close>)
  qed (use assms in simp)
qed

lemma admit_cases:
  assumes "admit a slot b now maximum s = Inr (t, v, created)"
  obtains (old) "created = False" "reserve (adm_plan a) slot b (wall now) s = Inr (t, v)"
      "get s (plan_attempt_id (adm_plan a)) \<noteq> None"
  | (fresh) r w where "created = True" "get s (plan_attempt_id (adm_plan a)) = None"
      "reserve (adm_plan a) slot b (wall now) s = Inr (r, w)" "renew (adm_lease a) now maximum r = Inr (t, v)"
  using assms unfolding admit_def Let_def by (auto split: sum.splits if_splits prod.splits)

lemma admit_inv:
  assumes "ledger_inv s" "valid_plan (adm_plan a)" "admit a slot b now maximum s = Inr (t, v, created)"
  shows "ledger_inv t"
  using assms(3) by (cases rule: admit_cases) (use assms reserve_inv renew_inv in blast)+

definition finished :: "attempt_result \<Rightarrow> attempt_value \<Rightarrow> attempt_value" where
  "finished r v = v\<lparr>v_state := res_state r, v_reason := res_reason r, v_exit_code := res_exit_code r,
     v_output_bytes := res_output_bytes r, v_error_bytes := res_error_bytes r,
     v_cleanup_confirmed := res_cleanup_confirmed r\<rparr>"

lemma finish_cases:
  assumes "finish r s = Inr t"
  obtains u where "fenced s (f_attempt_id r) (f_generation r) (f_plan_digest r) = Inr u"
    "v_state u \<noteq> Released" "res_state r \<in> terminal \<union> {Unknown}"
    "res_state r \<in> terminal \<Longrightarrow> res_cleanup_confirmed r"
    "v_state u \<in> terminal \<Longrightarrow> res_state r = v_state u"
    "t = (if res_cleanup_confirmed r then delete_devices (f_attempt_id r) (save (finished r u) s)
          else save (finished r u) s)"
proof -
  obtain u where u: "fenced s (f_attempt_id r) (f_generation r) (f_plan_digest r) = Inr u"
    using assms by (auto simp: finish_def split: sum.splits)
  note a = assms [unfolded finish_def u Let_def, simplified]
  show thesis by (rule that [OF u]) (use a in \<open>auto simp: finished_def split: if_splits\<close>)
qed

text \<open>
  The caller of \<open>finish\<close> never withdraws a confirmed cleanup: \<open>Supervisor.finish\<close> returns early
  for a document whose cleanup is confirmed.
\<close>

definition keeps_cleanup :: "attempt_result \<Rightarrow> ledger \<Rightarrow> bool" where
  "keeps_cleanup r s \<longleftrightarrow> (case get s (f_attempt_id r) of None \<Rightarrow> True
     | Some u \<Rightarrow> v_cleanup_confirmed u \<longrightarrow> res_cleanup_confirmed r)"

lemma finish_inv:
  assumes "ledger_inv s" "keeps_cleanup r s" "finish r s = Inr t"
  shows "ledger_inv t"
  using assms(3)
proof (cases rule: finish_cases)
  case (1 u)
  note ok = fenced_ok(1) [OF assms(1) 1(1)]
  have keep: "v_cleanup_confirmed u \<Longrightarrow> res_cleanup_confirmed r"
    using assms(2) fencedD(1) [OF 1(1)] by (simp add: keeps_cleanup_def)
  have same: "same_plan u (finished r u)" by (simp add: same_plan_def finished_def)
  have ok': "value_ok (finished r u)"
  proof -
    have "valid_plan (v_plan u)" "v_plan_digest u = digest_of_plan (v_plan u)" "0 \<le> v_lease_sequence u"
      "v_lease_sequence u = 0 \<longleftrightarrow> v_lease_timing u = None" "\<not> v_cleanup_confirmed u \<Longrightarrow> v_slot u \<noteq> None"
      using ok unfolding value_ok_def by simp_all
    moreover have "\<not> res_cleanup_confirmed r \<Longrightarrow> v_slot u \<noteq> None" using calculation(5) keep by blast
    moreover have "res_state r \<in> {Succeeded, Failed, Cancelled, Expired, Unknown}"
      using 1(3) by (auto simp: terminal_def)
    ultimately show ?thesis using 1(4) by (auto simp: value_ok_def finished_def terminal_def)
  qed
  show ?thesis
  proof (cases "res_cleanup_confirmed r")
    case True
    then show ?thesis using fenced_delete_inv [OF assms(1) 1(1) same ok'] 1(2,6) by (simp add: finished_def)
  next
    case False
    then show ?thesis using fenced_save_inv [OF assms(1) 1(1) same ok'] keep 1(2,6)
      by (auto simp: finished_def)
  qed
qed

definition released :: "attempt_value \<Rightarrow> attempt_value" where
  "released v = v\<lparr>v_outcome := Some (v_state v), v_state := Released, v_slot := None\<rparr>"

lemma release_cases:
  assumes "release f s = Inr (t, v)"
  obtains (again) "t = s" "fenced s (f_attempt_id f) (f_generation f) (f_plan_digest f) = Inr v" "v_state v = Released"
  | (first) u where "fenced s (f_attempt_id f) (f_generation f) (f_plan_digest f) = Inr u"
      "v_state u \<in> terminal \<union> {Unknown}" "v_cleanup_confirmed u" "v = released u"
      "t = delete_devices (f_attempt_id f) (save v s)"
proof -
  obtain u where u: "fenced s (f_attempt_id f) (f_generation f) (f_plan_digest f) = Inr u"
    using assms by (auto simp: release_def split: sum.splits)
  note a = assms [unfolded release_def u Let_def, simplified]
  show thesis
  proof (cases "v_state u = Released")
    case True
    with a u show thesis by (intro again) auto
  next
    case False
    show thesis by (rule first [OF u]) (use a False in \<open>auto simp: released_def split: if_splits\<close>)
  qed
qed

lemma release_inv:
  assumes "ledger_inv s" "release f s = Inr (t, v)"
  shows "ledger_inv t"
  using assms(2)
proof (cases rule: release_cases)
  case (first u)
  show ?thesis unfolding first(5)
    by (rule fenced_delete_inv [OF assms(1) first(1)])
      (use fenced_ok(1) [OF assms(1) first(1)] first(2,3) in
        \<open>auto simp: first(4) released_def same_plan_def value_ok_def terminal_def\<close>)
qed (use assms in simp)

definition recovered :: "json option \<Rightarrow> json \<Rightarrow> rat \<Rightarrow> attempt_value \<Rightarrow> attempt_value" where
  "recovered before b tm v =
     (let w = v\<lparr>v_binding := Some b, v_cleanup_confirmed := True,
               v_storage_recovery := v_storage_recovery v @ [(before, b, tm)]\<rparr>
      in if v_state v \<notin> terminal
         then w\<lparr>v_state := Unknown, v_reason := Some ''storage_recovered_outcome_unknown'', v_exit_code := None\<rparr>
         else w)"

lemma recover_cases:
  assumes "recover_storage f before b tm s = Inr (t, v)"
  obtains u where "fenced s (f_attempt_id f) (f_generation f) (f_plan_digest f) = Inr u"
    "v_state u \<noteq> Released" "v_binding u = before" "length (v_storage_recovery u) < 64"
    "v = recovered before b tm u" "t = delete_devices (f_attempt_id f) (save v s)"
  using assms unfolding recover_storage_def recovered_def
  by (auto simp: Let_def not_le split: sum.splits if_splits)

lemma recover_storage_inv:
  assumes "ledger_inv s" "recover_storage f before b tm s = Inr (t, v)"
  shows "ledger_inv t"
  using assms(2)
proof (cases rule: recover_cases)
  case (1 u)
  show ?thesis unfolding 1(6)
    by (rule fenced_delete_inv [OF assms(1) 1(1)])
      (use fenced_ok(1) [OF assms(1) 1(1)] 1(2) in
        \<open>auto simp: 1(5) recovered_def Let_def same_plan_def value_ok_def terminal_def\<close>)
qed

lemma offer_inv:
  "ledger_inv (s\<lparr>led_offer := x\<rparr>) = ledger_inv s"
  "ledger_inv (s\<lparr>led_installation_id := i, led_ledger_id := l\<rparr>) = ledger_inv s"
  by (simp_all add: ledger_inv_def mirrored_def vals_def)

lemma save_offer_inv: "ledger_inv s \<Longrightarrow> save_offer v e s = Inr t \<Longrightarrow> ledger_inv t"
  by (auto simp: save_offer_def Let_def offer_inv split: if_splits)

lemma open_ledger_inv: "ledger_inv s \<Longrightarrow> open_ledger i k s = Inr t \<Longrightarrow> ledger_inv t"
  by (auto simp: open_ledger_def Let_def offer_inv split: if_splits)

end
