(* ===== verification/Exec_Ledger_Run.thy ===== *)
theory Exec_Ledger_Run
  imports Exec_Ledger_Inv
begin

text \<open>
  The ledger as a transition system. Every committed transaction is a step of \<open>ledger_step\<close>;
  the reachable states satisfy the invariant, an attempt only moves forward, and the whole
  ledger refines an abstract allocator of slots and devices.
\<close>

section \<open>Lookups after an update\<close>

lemma find_replace:
  "find_row vid (map (\<lambda>w. if vid w = vid v then v else w) vs) k =
     (if k = vid v then map_option (\<lambda>_. v) (find_row vid vs k) else find_row vid vs k)"
  by (induction vs) (auto simp: find_row_def)

lemma get_save:
  assumes "ledger_inv s" "get s (vid v) = Some u" "same_plan u v"
  shows "get (save v s) k = (if k = vid v then Some v else get s k)"
proof -
  note D = ledger_invD [OF assms(1)]
  have "get (save v s) k = find_row vid (map (\<lambda>w. if vid w = vid v then v else w) (vals s)) k"
    using save_vals [OF D(1) assms(2,3) D(2)] by (simp add: get_vals)
  then show ?thesis using assms(2) D(1) by (simp add: get_vals find_replace)
qed

lemma get_append:
  "get (s\<lparr>led_attempts := led_attempts s @ [value_row v], led_devices := d\<rparr>) k =
     (case get s k of Some u \<Rightarrow> Some u | None \<Rightarrow> if k = vid v then Some v else None)"
  "get (s\<lparr>led_attempts := led_attempts s @ [value_row v]\<rparr>) k =
     (case get s k of Some u \<Rightarrow> Some u | None \<Rightarrow> if k = vid v then Some v else None)"
  using find_row_add [of row_id "value_row v" "led_attempts s" k]
  by (auto simp: get_def add_row_def vid_def value_row_def split: option.splits)

lemma get_fenced_save:
  assumes "ledger_inv s" "fenced s i g d = Inr u" "same_plan u v"
  shows "get (save v s) k = (if k = i then Some v else get s k)"
proof -
  have "vid v = i" using fenced_ok(3) [OF assms(1,2)] assms(3) by (simp add: same_plan_def vid_def)
  then show ?thesis using get_save [OF assms(1) _ assms(3)] fencedD(1) [OF assms(2)] by simp
qed

section \<open>What each operation does to the table of attempts\<close>

text \<open>
  \<open>changed s i u v t\<close>: the transaction from \<open>s\<close> to \<open>t\<close> replaced the document \<open>u\<close> of the
  attempt \<open>i\<close> by \<open>v\<close> and no other document.
\<close>

definition changed :: "ledger \<Rightarrow> string \<Rightarrow> attempt_value \<Rightarrow> attempt_value \<Rightarrow> ledger \<Rightarrow> bool" where
  "changed s i u v t \<longleftrightarrow> get s i = Some u \<and> (\<forall>k. get t k = (if k = i then Some v else get s k))"

definition inserted :: "ledger \<Rightarrow> string \<Rightarrow> attempt_value \<Rightarrow> ledger \<Rightarrow> bool" where
  "inserted s i v t \<longleftrightarrow> get s i = None \<and> (\<forall>k. get t k = (if k = i then Some v else get s k))"

lemma changed_save:
  assumes "ledger_inv s" "fenced s i g d = Inr u" "same_plan u v"
  shows "changed s i u v (save v s)" "changed s i u v (delete_devices j (save v s))"
  using get_fenced_save [OF assms] fencedD(1) [OF assms(2)] by (simp_all add: changed_def)

lemma same_plan_updates [simp]:
  "same_plan u (renewed q m u)" "same_plan u (finished r u)" "same_plan u (released u)"
  "same_plan u (recovered before b tm u)" "same_plan u (fold annotation_update as u)"
  "same_plan u (u\<lparr>v_state := st\<rparr>)" "same_plan u (u\<lparr>v_state := st, v_runtime_binding := x\<rparr>)"
  by (simp_all add: same_plan_def finished_def released_def recovered_def Let_def)

lemma slot_updates [simp]:
  "v_slot (finished r u) = v_slot u" "v_slot (released u) = None" "v_slot (recovered before b tm u) = v_slot u"
  by (simp_all add: finished_def released_def recovered_def Let_def)

section \<open>The transition system\<close>

inductive ledger_step :: "ledger \<Rightarrow> ledger \<Rightarrow> bool" where
  step_open: "open_ledger installation token s = Inr t \<Longrightarrow> ledger_step s t"
| step_offer: "save_offer v expected s = Inr t \<Longrightarrow> ledger_step s t"
| step_annotate: "annotate (f :: fence) as s = Inr (t, v) \<Longrightarrow> ledger_step s t"
| step_reject: "valid_plan p \<Longrightarrow> reject p now observation s = Inr (t, v) \<Longrightarrow> ledger_step s t"
| step_reserve: "valid_plan p \<Longrightarrow> reserve p slot b now s = Inr (t, v) \<Longrightarrow> ledger_step s t"
| step_admit: "valid_admission a \<Longrightarrow> admit a slot b reading maximum s = Inr (t, v, created) \<Longrightarrow> ledger_step s t"
| step_start: "start_requested (f :: fence) reading s = Inr (t, v, created) \<Longrightarrow> ledger_step s t"
| step_started: "started (f :: fence) b s = Inr t \<Longrightarrow> ledger_step s t"
| step_renew: "renew q reading maximum s = Inr (t, v) \<Longrightarrow> ledger_step s t"
| step_finish: "keeps_cleanup r s \<Longrightarrow> finish r s = Inr t \<Longrightarrow> ledger_step s t"
| step_release: "release (f :: fence) s = Inr (t, v) \<Longrightarrow> ledger_step s t"
| step_recover: "recover_storage (f :: fence) before b now s = Inr (t, v) \<Longrightarrow> ledger_step s t"

inductive_cases ledger_stepE: "ledger_step s t"

lemma valid_admissionD:
  assumes "valid_admission a"
  shows "valid_plan (adm_plan a)" "f_attempt_id (adm_lease a) = plan_attempt_id (adm_plan a)"
    "f_generation (adm_lease a) = plan_generation (adm_plan a)"
    "f_plan_digest (adm_lease a) = digest_of_plan (adm_plan a)" "ren_sequence (adm_lease a) = 1"
  using assms by (auto simp: valid_admission_def admission_binding_def split: if_splits)

lemma ledger_step_inv: "ledger_step s t \<Longrightarrow> ledger_inv s \<Longrightarrow> ledger_inv t"
  by (induction rule: ledger_step.induct)
    (blast intro: open_ledger_inv save_offer_inv annotate_inv reject_inv reserve_inv admit_inv valid_admissionD(1)
      start_requested_inv started_inv renew_inv finish_inv release_inv recover_storage_inv)+

interpretation led: invariant_system "\<lambda>s. s = empty_ledger" ledger_step ledger_inv
  by unfold_locales (auto intro: ledger_inv_empty ledger_step_inv)

abbreviation ledger_reach :: "ledger \<Rightarrow> bool" where
  "ledger_reach \<equiv> reach (\<lambda>s. s = empty_ledger) ledger_step"

text \<open>
  The effect of a step on the documents: nothing, a change of one document along an edge of an
  attempt's life, or a new document.
\<close>

definition phase :: "wstate \<Rightarrow> nat" where
  "phase st = (case st of Queued \<Rightarrow> 0 | Preparing \<Rightarrow> 0 | Prepared \<Rightarrow> 1 | Starting \<Rightarrow> 2 | Running \<Rightarrow> 3
     | Unknown \<Rightarrow> 4 | Succeeded \<Rightarrow> 5 | Failed \<Rightarrow> 5 | Cancelled \<Rightarrow> 5 | Expired \<Rightarrow> 5
     | Released \<Rightarrow> 6 | Abandoned \<Rightarrow> 6)"

definition value_progress :: "attempt_value \<Rightarrow> attempt_value \<Rightarrow> bool" where
  "value_progress u v \<longleftrightarrow>
     same_plan u v \<and> v_created_at u = v_created_at v \<and> v_admission_rejection u = v_admission_rejection v \<and>
     phase (v_state u) \<le> phase (v_state v) \<and>
     (v_state u \<in> terminal \<longrightarrow> v_state v = v_state u \<or> v_state v = Released \<and> v_outcome v = Some (v_state u)) \<and>
     (v_state u = Released \<longrightarrow> v_state v = Released \<and> v_outcome v = v_outcome u) \<and>
     (v_cleanup_confirmed u \<longrightarrow> v_cleanup_confirmed v) \<and>
     (v_slot v = v_slot u \<or> v_slot v = None \<and> v_state v = Released) \<and>
     v_lease_sequence u \<le> v_lease_sequence v \<and>
     (v_lease_sequence u = v_lease_sequence v \<longrightarrow>
        v_lease_expires_at u = v_lease_expires_at v \<and> v_lease_timing u = v_lease_timing v)"

lemma value_progress_refl [simp]: "value_progress v v"
  by (simp add: value_progress_def same_plan_def)

lemma value_progress_trans:
  assumes "value_progress u v" and "value_progress v w"
  shows "value_progress u w"
proof -
  note a = assms(1) [unfolded value_progress_def same_plan_def]
    and b = assms(2) [unfolded value_progress_def same_plan_def]
  have "v_state u \<in> terminal \<longrightarrow> v_state w = v_state u \<or> v_state w = Released \<and> v_outcome w = Some (v_state u)"
    using a b by metis
  moreover have "v_slot w = v_slot u \<or> v_slot w = None \<and> v_state w = Released"
    using a b by metis
  moreover have "v_lease_sequence u = v_lease_sequence w \<longrightarrow>
      v_lease_expires_at u = v_lease_expires_at w \<and> v_lease_timing u = v_lease_timing w"
    using a b by (metis order_antisym_conv)
  ultimately show ?thesis unfolding value_progress_def same_plan_def using a b by auto
qed

text \<open>The effect of a step on the documents.\<close>

lemma annotations_keep_origin [simp]:
  "v_created_at (fold annotation_update as v) = v_created_at v"
  "v_admission_rejection (fold annotation_update as v) = v_admission_rejection v"
proof -
  have "v_created_at (annotation_update a v) = v_created_at v"
    "v_admission_rejection (annotation_update a v) = v_admission_rejection v" for a v
    by (cases a; simp)+
  then show "v_created_at (fold annotation_update as v) = v_created_at v"
    "v_admission_rejection (fold annotation_update as v) = v_admission_rejection v"
    by (induction as arbitrary: v) simp_all
qed

lemma value_progress_updates:
  "v_state u = Prepared \<Longrightarrow> value_progress u (u\<lparr>v_state := Starting\<rparr>)"
  "v_state u = Starting \<Longrightarrow> value_progress u (u\<lparr>v_state := Running, v_runtime_binding := x\<rparr>)"
  "ren_sequence q > v_lease_sequence u \<Longrightarrow> value_progress u (renewed q m u)"
  "value_progress u (fold annotation_update as u)"
  "v_state u \<in> terminal \<union> {Unknown} \<Longrightarrow> value_progress u (released u)"
  by (auto simp: value_progress_def phase_def terminal_def released_def same_plan_def renewed_def)

lemma value_progress_finished:
  assumes "v_state u \<notin> {Released, Queued, Preparing, Abandoned}" "res_state r \<in> terminal \<union> {Unknown}"
    "v_state u \<in> terminal \<Longrightarrow> res_state r = v_state u"
    "v_cleanup_confirmed u \<Longrightarrow> res_cleanup_confirmed r"
  shows "value_progress u (finished r u)"
proof -
  have "phase (v_state u) \<le> phase (res_state r)"
    using assms(1-3) by (cases "v_state u"; cases "res_state r") (simp_all add: phase_def terminal_def)
  then show ?thesis using assms by (simp add: value_progress_def finished_def same_plan_def)
qed

lemma value_progress_recovered:
  assumes "v_state u \<notin> {Released, Queued, Preparing, Abandoned}"
  shows "value_progress u (recovered before b tm u)"
  using assms by (cases "v_state u") (simp_all add: value_progress_def recovered_def phase_def terminal_def same_plan_def)

text \<open>A step changes at most one document, and a new document is of an attempt not seen before.\<close>

lemma reject_effect:
  assumes "ledger_inv s" "reject p now obs s = Inr (t, v)"
  shows "t = s \<or> inserted s (plan_attempt_id p) v t \<and> v_slot v = None \<and> v_cleanup_confirmed v"
proof (cases "get s (plan_attempt_id p)")
  case (Some u)
  then show ?thesis using assms by (auto simp: reject_def split: sum.splits)
next
  case None
  then have v: "v_slot v = None" "v_cleanup_confirmed v" "vid v = plan_attempt_id p"
    and ins: "insert_attempt (value_row v) s = Inr t"
    using assms(2) by (auto simp: reject_def Let_def new_value_def vid_def split: if_splits sum.splits)
  then have "t = s\<lparr>led_attempts := led_attempts s @ [value_row v]\<rparr>"
    by (auto simp: insert_attempt_def add_row_def split: if_splits)
  then show ?thesis using None v by (auto simp: inserted_def get_append split: option.splits)
qed

lemma reserve_effect:
  assumes "ledger_inv s" "valid_plan p" "reserve p slot b now s = Inr (t, v)"
  shows "t = s \<and> get s (plan_attempt_id p) = Some v \<or>
    inserted s (plan_attempt_id p) v t \<and> v = new_value p (Some slot) (Some b) Prepared False now None None \<and>
    led_devices t = led_devices s @ map (\<lambda>d. (d, plan_attempt_id p)) (gpus v)"
proof (cases "get s (plan_attempt_id p)")
  case (Some u)
  then show ?thesis using assms by (auto simp: reserve_def split: if_splits)
next
  case None
  from reserve_new [OF assms None] None show ?thesis
    by (auto simp: inserted_def get_append split: option.splits)
qed

lemma renew_effect:
  assumes "ledger_inv s" "renew q now maximum s = Inr (t, v)"
  shows "t = s \<or> (\<exists>u m. changed s (f_attempt_id q) u v t \<and> v = renewed q m u \<and> value_progress u v)"
  using assms(2)
proof (cases rule: renew_cases)
  case (1 u offer)
  from 1(7) show ?thesis
  proof
    assume "\<exists>timing. deadline (ren_expires_at q) now maximum = Inr timing \<and> ren_sequence q > v_lease_sequence u \<and>
        v = renewed q timing u \<and> t = save v s"
    then obtain m where m: "ren_sequence q > v_lease_sequence u" "v = renewed q m u" "t = save v s" by blast
    have "changed s (f_attempt_id q) u v t" using changed_save(1) [OF assms(1) 1(1)] m by simp
    with m value_progress_updates(3) show ?thesis by blast
  qed simp
qed

lemma admit_effect:
  assumes "ledger_inv s" "valid_admission a" "admit a slot b now maximum s = Inr (t, v, created)"
  shows "\<not> created \<and> t = s \<and> get s (plan_attempt_id (adm_plan a)) = Some v \<or>
    created \<and> inserted s (plan_attempt_id (adm_plan a)) v t \<and>
      (\<exists>m. v = renewed (adm_lease a) m (new_value (adm_plan a) (Some slot) (Some b) Prepared False (wall now) None None))"
  using assms(3)
proof (cases rule: admit_cases)
  case old
  then show ?thesis using reserve_effect [OF assms(1) valid_admissionD(1) [OF assms(2)] old(2)]
    by (auto simp: inserted_def)
next
  case (fresh r w)
  note A = valid_admissionD [OF assms(2)]
  let ?i = "plan_attempt_id (adm_plan a)"
  have w: "inserted s ?i w r" "w = new_value (adm_plan a) (Some slot) (Some b) Prepared False (wall now) None None"
    using reserve_effect [OF assms(1) A(1) fresh(3)] fresh(2) by auto
  have r: "ledger_inv r" using reserve_inv [OF assms(1) A(1) fresh(3)] .
  have "get r ?i = Some w" using w(1) by (simp add: inserted_def)
  then have u: "u = w" if "fenced r (f_attempt_id (adm_lease a)) (f_generation (adm_lease a))
      (f_plan_digest (adm_lease a)) = Inr u" for u
    using fencedD(1) [OF that] A(2) by simp
  show ?thesis
    using fresh(4)
  proof (cases rule: renew_cases)
    case (1 u offer)
    have "ren_sequence (adm_lease a) \<noteq> v_lease_sequence u"
      using A(5) u [OF 1(1)] w(2) by (simp add: new_value_def)
    then obtain m where m: "v = renewed (adm_lease a) m u" "t = save v r" using 1(7) by blast
    have "changed r ?i u v t" using changed_save(1) [OF r 1(1)] m A(2) by simp
    then have "inserted s ?i v t" using w(1) by (auto simp: inserted_def changed_def)
    then show ?thesis using fresh(1) m(1) u [OF 1(1)] w(2) by blast
  qed
qed

text \<open>An update along the life of an attempt: only a confirmed cleanup lets the slot go.\<close>

definition advanced :: "attempt_value \<Rightarrow> attempt_value \<Rightarrow> bool" where
  "advanced u v \<longleftrightarrow> value_progress u v \<and> (v_slot v = v_slot u \<or> v_cleanup_confirmed u \<and> v_slot v = None)"

definition fresh_value :: "attempt_value \<Rightarrow> bool" where
  "fresh_value v \<longleftrightarrow> v_slot v = None \<and> v_cleanup_confirmed v \<or> v_slot v \<noteq> None \<and> \<not> v_cleanup_confirmed v"

lemma value_ok_states: "value_ok u \<Longrightarrow> v_state u \<notin> {Queued, Preparing, Abandoned}"
  by (simp add: value_ok_def)

lemma advanced_effect:
  assumes "ledger_inv s" "fenced s i g d = Inr u" "same_plan u v" "value_progress u v"
    "v_slot v = v_slot u \<or> v_cleanup_confirmed u \<and> v_slot v = None"
    "t = save v s \<or> t = delete_devices j (save v s)"
  shows "\<exists>i u v. changed s i u v t \<and> advanced u v"
  using changed_save [OF assms(1-3)] assms(4-6) unfolding advanced_def by blast

lemma step_effect:
  assumes "ledger_step s t" and inv: "ledger_inv s"
  shows "(\<forall>k. get t k = get s k) \<or> (\<exists>i u v. changed s i u v t \<and> advanced u v) \<or>
    (\<exists>i v. inserted s i v t \<and> fresh_value v)"
  using assms(1)
proof cases
  case (step_annotate f as v)
  then obtain u where u: "fenced s (f_attempt_id f) (f_generation f) (f_plan_digest f) = Inr u"
      and t: "t = save (fold annotation_update as u) s"
    by (auto simp: annotate_def Let_def split: sum.splits if_splits)
  have "\<exists>i u v. changed s i u v t \<and> advanced u v"
    by (rule advanced_effect [OF inv u]) (use t value_progress_updates(4) in auto)
  then show ?thesis by blast
next
  case (step_start f reading v created)
  then obtain u where u: "fenced s (f_attempt_id f) (f_generation f) (f_plan_digest f) = Inr u"
      and t: "t = s \<or> v_state u = Prepared \<and> t = save (u\<lparr>v_state := Starting\<rparr>) s"
    by (auto simp: start_requested_def Let_def split: sum.splits if_splits option.splits)
  then show ?thesis using advanced_effect [OF inv u, of "u\<lparr>v_state := Starting\<rparr>"] value_progress_updates(1) by auto
next
  case (step_started f b)
  then obtain u where u: "fenced s (f_attempt_id f) (f_generation f) (f_plan_digest f) = Inr u" "v_state u = Starting"
      and t: "t = save (u\<lparr>v_state := Running, v_runtime_binding := Some b\<rparr>) s"
    by (auto simp: started_def split: sum.splits if_splits)
  have "\<exists>i u v. changed s i u v t \<and> advanced u v"
    by (rule advanced_effect [OF inv u(1)]) (use t value_progress_updates(2) u(2) in auto)
  then show ?thesis by blast
next
  case (step_reject p now obs v)
  then have "t = s \<or> inserted s (plan_attempt_id p) v t \<and> fresh_value v"
    using reject_effect [OF inv] unfolding fresh_value_def by blast
  then show ?thesis by auto
next
  case (step_reserve p slot b now v)
  then show ?thesis using reserve_effect [OF inv]
    by (metis (no_types, lifting) fresh_value_def attempt_value.select_convs(3,6) new_value_def option.distinct(1))
next
  case (step_admit a slot b reading maximum v created)
  from admit_effect [OF inv step_admit]
  have "t = s \<or> inserted s (plan_attempt_id (adm_plan a)) v t \<and> fresh_value v"
    by (auto simp: fresh_value_def) (auto simp: new_value_def)
  then show ?thesis by auto
next
  case (step_renew q reading maximum v)
  then show ?thesis using renew_effect [OF inv] unfolding advanced_def by (metis renewed_simps(3))
next
  case (step_finish r)
  from step_finish(2) show ?thesis
  proof (cases rule: finish_cases)
    case (1 u)
    have "v_cleanup_confirmed u \<Longrightarrow> res_cleanup_confirmed r"
      using step_finish(1) fencedD(1) [OF 1(1)] by (simp add: keeps_cleanup_def)
    then have "value_progress u (finished r u)"
      using 1 value_ok_states [OF fenced_ok(1) [OF inv 1(1)]] by (intro value_progress_finished) auto
    then have "\<exists>i u v. changed s i u v t \<and> advanced u v"
      by (intro advanced_effect [OF inv 1(1)]) (use 1(6) in auto)
    then show ?thesis by blast
  qed
next
  case (step_release f v)
  from this show ?thesis
  proof (cases rule: release_cases)
    case (first u)
    have "\<exists>i u v. changed s i u v t \<and> advanced u v"
      by (rule advanced_effect [OF inv first(1), of v])
        (use first value_progress_updates(5) in auto)
    then show ?thesis by blast
  qed simp
next
  case (step_recover f before b now v)
  from this show ?thesis
  proof (cases rule: recover_cases)
    case (1 u)
    have "value_progress u v"
      using 1 value_ok_states [OF fenced_ok(1) [OF inv 1(1)]] by (auto intro: value_progress_recovered)
    then have "\<exists>i u v. changed s i u v t \<and> advanced u v"
      by (intro advanced_effect [OF inv 1(1)]) (use 1(5,6) in auto)
    then show ?thesis by blast
  qed
qed (auto simp: open_ledger_def save_offer_def get_def Let_def split: if_splits)

section \<open>Attempts only move forward\<close>

definition ledger_progress :: "ledger \<Rightarrow> ledger \<Rightarrow> bool" where
  "ledger_progress s t \<longleftrightarrow> (\<forall>k u. get s k = Some u \<longrightarrow> (\<exists>v. get t k = Some v \<and> value_progress u v))"

lemma ledger_progress_step:
  assumes "ledger_step s t" "ledger_inv s"
  shows "ledger_progress s t"
proof -
  have "\<exists>v. get t k = Some v \<and> value_progress u v" if k: "get s k = Some u" for k u
    using step_effect [OF assms]
  proof (elim disjE exE conjE)
    fix i w v assume "changed s i w v t" "advanced w v"
    then show ?thesis using k by (cases "k = i") (auto simp: changed_def advanced_def)
  next
    fix i v assume "inserted s i v t"
    then show ?thesis using k by (cases "k = i") (auto simp: inserted_def)
  qed (use k in simp)
  then show ?thesis by (simp add: ledger_progress_def)
qed

interpretation led: progress_system "\<lambda>s. s = empty_ledger" ledger_step ledger_inv ledger_progress
proof unfold_locales
  show "ledger_progress s s" for s by (simp add: ledger_progress_def)
  show "ledger_progress s u" if "ledger_progress s t" "ledger_progress t u" for s t u
    using that value_progress_trans unfolding ledger_progress_def by meson
qed (rule ledger_progress_step)

section \<open>Refinement of an abstract allocator\<close>

text \<open>
  The abstract allocator knows for every attempt identity it has seen whether it uses a slot
  with devices, only keeps the slot (its results are not collected yet), or is closed.
\<close>

datatype holding = Using string "string set" | Keeping string | Closed

type_synonym allocation = "string \<rightharpoonup> holding"

definition slot_free :: "allocation \<Rightarrow> string \<Rightarrow> bool" where
  "slot_free A x \<longleftrightarrow> (\<forall>i. A i \<noteq> Some (Keeping x) \<and> (\<forall>ds. A i \<noteq> Some (Using x ds)))"

definition devices_free :: "allocation \<Rightarrow> string set \<Rightarrow> bool" where
  "devices_free A ds \<longleftrightarrow> (\<forall>i x es. A i = Some (Using x es) \<longrightarrow> ds \<inter> es = {})"

inductive alloc_step :: "allocation \<Rightarrow> allocation \<Rightarrow> bool" where
  grant: "A i = None \<Longrightarrow> slot_free A x \<Longrightarrow> devices_free A ds \<Longrightarrow> alloc_step A (A(i \<mapsto> Using x ds))"
| deny: "A i = None \<Longrightarrow> alloc_step A (A(i \<mapsto> Closed))"
| settle: "A i = Some (Using x ds) \<Longrightarrow> alloc_step A (A(i \<mapsto> Keeping x))"
| close: "A i = Some (Keeping x) \<Longrightarrow> alloc_step A (A(i \<mapsto> Closed))"
| idle: "alloc_step A A"

definition hold :: "attempt_value \<Rightarrow> holding" where
  "hold v = (case v_slot v of None \<Rightarrow> Closed
     | Some x \<Rightarrow> if v_cleanup_confirmed v then Keeping x else Using x (set (gpus v)))"

definition alloc :: "ledger \<Rightarrow> allocation" where
  "alloc s i = map_option hold (get s i)"

lemma inv_slot:
  assumes "ledger_inv s" "get s i = Some v" "get s j = Some w" "v_slot v = Some x" "v_slot w = Some x"
  shows "i = j"
proof -
  have "v = w" using ledger_invD(4) [OF assms(1)] get_in_vals [OF assms(1)] assms(2-5)
    unfolding slots_exclusive_def by (metis option.distinct(1))
  then show ?thesis using get_in_vals [OF assms(1)] assms(2,3) by metis
qed

lemma inv_gpu:
  assumes "ledger_inv s" "get s i = Some v" "get s j = Some w" "\<not> v_cleanup_confirmed v" "\<not> v_cleanup_confirmed w"
    "d \<in> set (gpus v)" "d \<in> set (gpus w)"
  shows "i = j"
proof -
  have "(d, i) \<in> set (led_devices s)" "(d, j) \<in> set (led_devices s)"
    using ledger_invD(6) [OF assms(1)] get_in_vals [OF assms(1)] assms(2-) unfolding devices_held_def by blast+
  moreover have "distinct (map fst (led_devices s))"
    using ledger_invD(6) [OF assms(1)] by (simp add: devices_held_def)
  ultimately show ?thesis by (metis eq_key_imp_eq_value)
qed

lemma hold_advanced:
  assumes "value_ok u" "value_ok v" "advanced u v"
  shows "hold v = hold u \<or> (\<exists>x ds. hold u = Using x ds \<and> hold v = Keeping x) \<or>
    (\<exists>x. hold u = Keeping x \<and> hold v = Closed)"
proof -
  have "gpus v = gpus u" and c: "v_cleanup_confirmed u \<Longrightarrow> v_cleanup_confirmed v"
    using assms(3) by (auto simp: advanced_def value_progress_def same_plan_def gpus_def)
  moreover have "\<not> v_cleanup_confirmed v \<Longrightarrow> v_slot v \<noteq> None" using assms(2) by (simp add: value_ok_def)
  moreover have "v_slot v = v_slot u \<or> v_cleanup_confirmed u \<and> v_slot v = None"
    using assms(3) by (simp add: advanced_def)
  ultimately show ?thesis
    by (cases "v_slot u"; cases "v_cleanup_confirmed u"; cases "v_cleanup_confirmed v") (auto simp: hold_def)
qed

lemma hold_fresh:
  assumes "ledger_inv t" "inserted s i v t" "fresh_value v"
  shows "hold v = Closed \<or> (\<exists>x ds. hold v = Using x ds \<and> slot_free (alloc s) x \<and> devices_free (alloc s) ds)"
proof (cases "v_slot v")
  case (Some x)
  then have c: "\<not> v_cleanup_confirmed v" using assms(3) by (auto simp: fresh_value_def)
  have i: "get t i = Some v" and k: "get s k = Some w \<Longrightarrow> get t k = Some w \<and> k \<noteq> i" for k w
    using assms(2) by (auto simp: inserted_def)
  have "slot_free (alloc s) x"
    using inv_slot [OF assms(1) i, of _ _ x] Some k
    by (fastforce simp: slot_free_def alloc_def hold_def split: option.splits if_splits)
  moreover have "devices_free (alloc s) (set (gpus v))"
    using inv_gpu [OF assms(1) i] c k
    by (fastforce simp: devices_free_def alloc_def hold_def split: option.splits if_splits)
  ultimately show ?thesis using Some c by (auto simp: hold_def)
qed (simp add: hold_def)

lemma ledger_refines:
  assumes "ledger_step s t" "ledger_inv s"
  shows "alloc_step (alloc s) (alloc t)"
proof -
  have inv: "ledger_inv t" using ledger_step_inv assms by blast
  show ?thesis using step_effect [OF assms]
  proof (elim disjE exE conjE)
    assume "\<forall>k. get t k = get s k"
    then have "alloc t = alloc s" by (simp add: alloc_def fun_eq_iff)
    then show ?thesis by (simp add: idle)
  next
    fix i u v assume c: "changed s i u v t" and a: "advanced u v"
    then have t: "alloc t = (alloc s)(i \<mapsto> hold v)" and i: "alloc s i = Some (hold u)"
      by (auto simp: alloc_def changed_def fun_eq_iff)
    have ok: "value_ok u" "value_ok v"
      using c get_in_vals ledger_invD(3) assms(2) inv unfolding changed_def by metis+
    from hold_advanced [OF ok a] show ?thesis
    proof (elim disjE exE conjE)
      assume "hold v = hold u"
      then have "alloc t = alloc s" using t i by (simp add: fun_upd_idem)
      then show ?thesis by (simp add: idle)
    qed (use t i in \<open>auto intro: alloc_step.intros\<close>)
  next
    fix i v assume c: "inserted s i v t" and f: "fresh_value v"
    then have t: "alloc t = (alloc s)(i \<mapsto> hold v)" and i: "alloc s i = None"
      by (auto simp: alloc_def inserted_def fun_eq_iff)
    then show ?thesis using hold_fresh [OF inv c f] by (auto intro: alloc_step.intros)
  qed
qed

interpretation led: refinement_system "\<lambda>s. s = empty_ledger" ledger_step ledger_inv alloc alloc_step
  by unfold_locales (rule ledger_refines)

text \<open>The allocator's own invariant: slots and devices have one user each.\<close>

definition alloc_exclusive :: "allocation \<Rightarrow> bool" where
  "alloc_exclusive A \<longleftrightarrow> (\<forall>i j x y ds es. A i = Some (Using x ds) \<longrightarrow> A j = Some (Using y es) \<longrightarrow> i \<noteq> j \<longrightarrow>
       x \<noteq> y \<and> ds \<inter> es = {}) \<and>
     (\<forall>i j x. A i = Some (Keeping x) \<longrightarrow> (A j = Some (Keeping x) \<longrightarrow> i = j) \<and> (\<forall>ds. A j \<noteq> Some (Using x ds)))"

lemma alloc_exclusive_step: "alloc_step A B \<Longrightarrow> alloc_exclusive A \<Longrightarrow> alloc_exclusive B"
proof (induction rule: alloc_step.induct)
  case (grant A i x ds)
  then show ?case unfolding alloc_exclusive_def slot_free_def devices_free_def
    by (simp split: if_splits) (metis Int_commute)
next
  case (settle A i x ds)
  then show ?case unfolding alloc_exclusive_def by (auto split: if_splits) (metis+)
qed (auto simp: alloc_exclusive_def split: if_splits)

interpretation allocator: invariant_system "\<lambda>A. A = (\<lambda>_. None)" alloc_step alloc_exclusive
  by unfold_locales (simp add: alloc_exclusive_def, rule alloc_exclusive_step)

section \<open>Starting\<close>

lemma start_requested_authority:
  assumes "start_requested f now s = Inr (t, v, begun)"
  shows "(begun \<longrightarrow> (\<exists>u offer. get s (f_attempt_id f) = Some u \<and> v_state u = Prepared \<and>
        plan_generation (v_plan u) = f_generation f \<and> v_plan_digest u = f_plan_digest f \<and>
        value_active u now \<and> led_offer s = Some offer \<and> off_revision offer = plan_offer_revision (v_plan u) \<and>
        refusal offer (plan_project_id (v_plan u)) (plan_job (v_plan u)) (wall now) False = None \<and>
        v = u\<lparr>v_state := Starting\<rparr>)) \<and>
    (\<not> begun \<longrightarrow> t = s \<and> v_state v \<noteq> Prepared)"
proof -
  obtain u where u: "fenced s (f_attempt_id f) (f_generation f) (f_plan_digest f) = Inr u"
    using assms by (auto simp: start_requested_def split: sum.splits)
  note a = assms [unfolded start_requested_def u, simplified]
  show ?thesis using a fencedD [OF u] by (auto simp: Let_def split: if_splits option.splits)
qed

end
