(* ===== verification/Exec_Ledger_Props.thy ===== *)
theory Exec_Ledger_Props
  imports Exec_Ledger_Run
begin

text \<open>
  The properties of the executor's ledger, with the concrete offers, plans and ledgers at which
  their hypotheses hold.
\<close>

section \<open>A concrete executor\<close>

definition ex_id :: "char \<Rightarrow> string" where
  "ex_id c = replicate 32 c"

definition ex_runtime :: runtime where
  "ex_runtime = \<lparr>rt_provider = ''podman'', rt_package_digest = ''sha256:'' @ replicate 64 (CHR ''1''),
     rt_image_digest = ''sha256:'' @ replicate 64 (CHR ''2''), rt_isolation = ''rootless'', rt_network = ''none''\<rparr>"

definition ex_limits :: "int \<Rightarrow> string list \<Rightarrow> limits" where
  "ex_limits n ds = \<lparr>cpu_millis = 10 * n, memory_bytes = 20 * n, swap_bytes = 0, processes = 4 * n,
     storage_bytes = 30 * n, storage_inodes = 8 * n, gpu_devices = ds\<rparr>"

definition ex_job :: "string list \<Rightarrow> job" where
  "ex_job ds = \<lparr>job_name = ''train'', job_runtime = ex_runtime,
     job_payload = \<lparr>pay_argv = [''/bin/true''], pay_environment = []\<rparr>, job_limits = ex_limits 1 ds,
     job_inputs = [], job_outputs = [], job_sensitive = False, job_endpoint = None\<rparr>"

definition ex_plan :: "char \<Rightarrow> char \<Rightarrow> int \<Rightarrow> string list \<Rightarrow> plan" where
  "ex_plan a j g ds = \<lparr>plan_version = 1, plan_deployment_id = ex_id (CHR ''0''), plan_node_id = ex_id (CHR ''1''),
     plan_project_id = ex_id (CHR ''2''), plan_subject_id = ex_id (CHR ''3''), plan_job_id = ex_id j,
     plan_attempt_id = ex_id a, plan_generation = g, plan_offer_revision = 1, plan_policy_revision = 0,
     plan_job = ex_job ds\<rparr>"

definition ex_offer :: offer where
  "ex_offer = \<lparr>off_projects = [ex_id (CHR ''2'')], off_runtimes = [ex_runtime], off_limits = ex_limits 2 [''gpu0'', ''gpu1''],
     off_schedule_utc = [], off_accept_sensitive = False, off_revision = 1, off_mode = Voluntary,
     off_control = Active\<rparr>"

definition ex_reading :: reading where
  "ex_reading = \<lparr>wall = 1000, elapsed_ns = 5000, boot_id = ''00000000-0000-0000-0000-000000000000''\<rparr>"

definition ex_plan1 :: plan where "ex_plan1 = ex_plan (CHR ''a'') (CHR ''c'') 1 [''gpu0'']"

definition ex_plan2 :: plan where "ex_plan2 = ex_plan (CHR ''b'') (CHR ''d'') 1 [''gpu1'']"

lemma ex_job_checks:
  "valid_runtime ex_runtime" "list_all is_hex (ex_id (CHR ''0''))" "list_all is_hex (ex_id (CHR ''1''))"
  "list_all is_hex (ex_id (CHR ''2''))" "list_all is_hex (ex_id (CHR ''3''))" "list_all is_hex (ex_id (CHR ''a''))"
  "list_all is_hex (ex_id (CHR ''b''))" "list_all is_hex (ex_id (CHR ''c''))" "list_all is_hex (ex_id (CHR ''d''))"
  "Device ''gpu0''" "Device ''gpu1''"
  by code_simp+

lemma ex_valid_plan:
  assumes "list_all is_hex (ex_id a)" "list_all is_hex (ex_id j)" "1 \<le> g" "g \<le> 100" "ds = [''gpu0''] \<or> ds = [''gpu1'']"
  shows "valid_plan (ex_plan a j g ds)"
proof -
  have "length (encoded (payload_dump (job_payload (ex_job ds)))) \<le> 65536"
    unfolding encoded_def by (rule order_trans [OF length_dumps]) (simp add: ex_job_def payload_dump_def)
  moreover have "length (encoded (plan_dump (ex_plan a j g ds))) \<le> 131072"
    unfolding encoded_def by (rule order_trans [OF length_dumps])
      (use assms(3-5) in \<open>auto simp: ex_plan_def ex_job_def ex_id_def ex_limits_def ex_runtime_def plan_dump_def
         job_dump_def dump_defs\<close>)
  ultimately show ?thesis
    using assms ex_job_checks
    by (auto simp: ex_plan_def ex_job_def ex_id_def ex_limits_def valid_plan_def valid_job_def valid_limits_def
        valid_payload_def payload_bounded_def Identity_def Revision_def Count_def Positive_def Argument_def)
qed

lemma ex_valid: "valid_plan ex_plan1" "valid_plan ex_plan2"
  unfolding ex_plan1_def ex_plan2_def by (rule ex_valid_plan; simp add: ex_job_checks)+

definition ex_led0 :: ledger where
  "ex_led0 = empty_ledger\<lparr>led_installation_id := Some (ex_id (CHR ''0'')), led_ledger_id := Some (ex_id (CHR ''9'')),
     led_offer := Some ex_offer\<rparr>"

definition ex_value1 :: attempt_value where
  "ex_value1 = new_value ex_plan1 (Some ''slot-a'') (Some JNull) Prepared False 1000 None None"

definition ex_value2 :: attempt_value where
  "ex_value2 = new_value ex_plan2 (Some ''slot-b'') (Some JNull) Prepared False 1000 None None"

definition ex_led1 :: ledger where
  "ex_led1 = ex_led0\<lparr>led_attempts := [value_row ex_value1], led_devices := [(''gpu0'', ex_id (CHR ''a''))]\<rparr>"

definition ex_led2 :: ledger where
  "ex_led2 = ex_led0\<lparr>led_attempts := [value_row ex_value1, value_row ex_value2],
     led_devices := [(''gpu0'', ex_id (CHR ''a'')), (''gpu1'', ex_id (CHR ''b''))]\<rparr>"

lemmas ex_defs = ex_id_def ex_runtime_def ex_limits_def ex_job_def ex_plan_def ex_offer_def
  ex_plan1_def ex_plan2_def ex_led0_def ex_value1_def ex_value2_def empty_ledger_def ex_reading_def

definition ex_open :: ledger where
  "ex_open = empty_ledger\<lparr>led_installation_id := Some (ex_id (CHR ''0'')), led_ledger_id := Some (ex_id (CHR ''9''))\<rparr>"

lemma ex_open_step: "open_ledger (ex_id (CHR ''0'')) (ex_id (CHR ''9'')) empty_ledger = Inr ex_open"
proof -
  have "Identity (ex_id (CHR ''9''))" by code_simp
  then show ?thesis by (simp add: open_ledger_def ex_open_def empty_ledger_def)
qed

lemma ex_offer_step: "save_offer ex_offer 0 ex_open = Inr ex_led0"
  by (simp add: save_offer_def ex_open_def empty_ledger_def ex_led0_def) (simp add: ex_offer_def)

lemma ex_led0_reach: "ledger_reach ex_led0"
proof -
  have "ledger_reach empty_ledger" by (rule reach_start) simp
  then have "ledger_reach ex_open" by (rule reach_step) (rule step_open [OF ex_open_step])
  then show "ledger_reach ex_led0" by (rule reach_step) (rule step_offer [OF ex_offer_step])
qed

lemma ex_refusal:
  "refusal ex_offer (plan_project_id (ex_plan a j g [d])) (plan_job (ex_plan a j g [d])) now c = None"
  if "d = ''gpu0'' \<or> d = ''gpu1''"
  using that by (auto simp: refusal_None ex_offer_def ex_plan_def ex_job_def ex_limits_def fits_def)

text \<open>When a reservation is accepted, over the documents of the table.\<close>

lemma reserve_accepts:
  assumes inv: "ledger_inv s" and pl: "valid_plan p" and new: "get s (plan_attempt_id p) = None"
    and off: "led_offer s = Some offer" "off_revision offer = plan_offer_revision p"
      "refusal offer (plan_project_id p) (plan_job p) now False = None"
    and job: "\<forall>v\<in>set (vals s). plan_job_id (v_plan v) = plan_job_id p \<longrightarrow>
        v_state v = Released \<and> plan_generation (v_plan v) < plan_generation p"
    and slot: "\<forall>v\<in>set (vals s). v_slot v \<noteq> Some slot"
    and run: "\<forall>f\<in>{cpu_millis, memory_bytes, swap_bytes, processes}. f (job_limits (plan_job p)) +
        total f (filter (\<lambda>v. v_slot v \<noteq> None \<and> \<not> v_cleanup_confirmed v) (vals s)) \<le> f (off_limits offer)"
    and held: "\<forall>f\<in>{storage_bytes, storage_inodes}. f (job_limits (plan_job p)) +
        total f (filter (\<lambda>v. v_slot v \<noteq> None) (vals s)) \<le> f (off_limits offer)"
    and dev: "set (gpu_devices (job_limits (plan_job p))) \<inter> fst ` set (led_devices s) = {}"
  shows "reserve p slot b now s = Inr (s\<lparr>led_attempts := led_attempts s @
        [value_row (new_value p (Some slot) (Some b) Prepared False now None None)],
      led_devices := led_devices s @ map (\<lambda>d. (d, plan_attempt_id p)) (gpu_devices (job_limits (plan_job p)))\<rparr>,
      new_value p (Some slot) (Some b) Prepared False now None None)"
proof -
  have "\<not> same_job_conflict s p" using job by (force simp: same_job_conflict_iff)
  moreover have "\<not> list_ex (\<lambda>v. v_slot v = Some slot) (held_values s)" using slot by (auto simp: list_ex_iff set_held)
  moreover have "\<not> list_ex (\<lambda>f. f (job_limits (plan_job p)) + total f (running_values s) > f (off_limits offer))
      [cpu_millis, memory_bytes, swap_bytes, processes]" using run by (simp add: total_running)
  moreover have "\<not> list_ex (\<lambda>f. f (job_limits (plan_job p)) + total f (held_values s) > f (off_limits offer))
      [storage_bytes, storage_inodes]" using held by (simp add: total_held)
  moreover have "\<not> list_ex (\<lambda>d. d \<in> fst ` set (led_devices s)) (gpu_devices (job_limits (plan_job p)))"
    using dev by (auto simp: list_ex_iff)
  moreover define v where "v = new_value p (Some slot) (Some b) Prepared False now None None"
  have v: "vid v = plan_attempt_id p" "v_plan v = p" "v_slot v = Some slot"
    by (simp_all add: v_def) (simp_all add: new_value_def)
  have "insert_attempt (value_row v) s = Inr (s\<lparr>led_attempts := led_attempts s @ [value_row v]\<rparr>)"
    using insert_attempt_ok [OF inv, of v] new v slot \<open>\<not> same_job_conflict s p\<close> by simp
  moreover have "insert_devices (gpu_devices (job_limits (plan_job p))) (plan_attempt_id p)
      (s\<lparr>led_attempts := led_attempts s @ [value_row v]\<rparr>) =
      Inr (s\<lparr>led_attempts := led_attempts s @ [value_row v],
        led_devices := led_devices s @ map (\<lambda>d. (d, plan_attempt_id p)) (gpu_devices (job_limits (plan_job p)))\<rparr>)"
    using insert_devices_ok [OF valid_plan_gpus [OF pl], of "s\<lparr>led_attempts := led_attempts s @ [value_row v]\<rparr>"] dev
    by auto
  ultimately show ?thesis
    unfolding v_def [symmetric] reserve_def new off Let_def using off by (simp only: if_False option.case sum.case) simp
qed

lemma ex_led0_inv: "ledger_inv ex_led0"
  by (rule led.reach_inv [OF ex_led0_reach])

lemma ex_reserve1: "reserve ex_plan1 ''slot-a'' JNull 1000 ex_led0 = Inr (ex_led1, ex_value1)"
proof -
  have 0: "ex_led0 = \<lparr>led_installation_id = Some (ex_id (CHR ''0'')), led_ledger_id = Some (ex_id (CHR ''9'')), led_offer = Some ex_offer, led_attempts = [],
      led_devices = []\<rparr>" by (simp add: ex_led0_def empty_ledger_def)
  show ?thesis
    unfolding ex_led1_def ex_value1_def
    by (subst reserve_accepts [OF ex_led0_inv ex_valid(1), where offer = ex_offer])
      (simp_all add: 0 vals_def total_def get_def find_row_def ex_plan1_def ex_refusal,
        simp_all add: ex_offer_def ex_plan_def ex_job_def ex_limits_def)
qed

lemma ex_led1_inv: "ledger_inv ex_led1"
  using reserve_inv [OF ex_led0_inv ex_valid(1) ex_reserve1] .

lemma ex_ids: "ex_id c = ex_id d \<longleftrightarrow> c = d"
  by (simp add: ex_id_def replicate_eq_replicate)

lemma ex_reserve2: "reserve ex_plan2 ''slot-b'' JNull 1000 ex_led1 = Inr (ex_led2, ex_value2)"
proof -
  have 1: "ex_led1 = \<lparr>led_installation_id = Some (ex_id (CHR ''0'')), led_ledger_id = Some (ex_id (CHR ''9'')), led_offer = Some ex_offer,
      led_attempts = [value_row ex_value1], led_devices = [(''gpu0'', ex_id (CHR ''a''))]\<rparr>"
    by (simp add: ex_led1_def ex_led0_def empty_ledger_def)
  have v: "vals ex_led1 = [ex_value1]" by (simp add: 1 vals_def value_row_def)
  have new: "get ex_led1 (plan_attempt_id ex_plan2) = None"
    by (simp add: 1 get_def find_row_def value_row_def ex_value1_def new_value_def ex_plan1_def ex_plan2_def ex_plan_def ex_ids)
  have 2: "ex_led2 = ex_led1\<lparr>led_attempts := led_attempts ex_led1 @ [value_row ex_value2],
      led_devices := led_devices ex_led1 @ map (\<lambda>d. (d, plan_attempt_id ex_plan2)) (gpu_devices (job_limits (plan_job ex_plan2)))\<rparr>"
    by (simp add: ex_led2_def 1 ex_led0_def empty_ledger_def ex_plan2_def ex_plan_def ex_job_def ex_limits_def)
  show ?thesis
    unfolding 2 ex_value2_def
    by (subst reserve_accepts [OF ex_led1_inv ex_valid(2) new, where offer = ex_offer])
      (simp_all add: v total_def ex_plan1_def ex_plan2_def ex_refusal ex_value1_def new_value_def,
        simp_all add: 1 ex_offer_def ex_plan_def ex_job_def ex_limits_def ex_ids)
qed

lemma ex_led2_reach: "ledger_reach ex_led2"
proof -
  from ex_led0_reach have "ledger_reach ex_led1" by (rule reach_step) (rule step_reserve [OF ex_valid(1) ex_reserve1])
  then show ?thesis by (rule reach_step) (rule step_reserve [OF ex_valid(2) ex_reserve2])
qed

lemma ex_get2: "get ex_led2 (ex_id (CHR ''a'')) = Some ex_value1" "get ex_led2 (ex_id (CHR ''b'')) = Some ex_value2"
  by (simp_all add: ex_led2_def ex_led0_def empty_ledger_def get_def find_row_def value_row_def ex_value1_def ex_value2_def
      new_value_def ex_plan1_def ex_plan2_def ex_plan_def ex_ids)

text \<open>The first attempt fails, is released, and the job is admitted again as generation two.\<close>

definition ex_result :: attempt_result where
  "ex_result = \<lparr>f_attempt_id = ex_id (CHR ''a''), f_generation = 1, f_plan_digest = digest_of_plan ex_plan1,
     res_state = Failed, res_reason = Some ''payload_failed'', res_exit_code = Some 2, res_output_bytes = 3,
     res_error_bytes = 4, res_cleanup_confirmed = True\<rparr>"

definition ex_value1r :: attempt_value where
  "ex_value1r = released (finished ex_result ex_value1)"

definition ex_led3 :: ledger where
  "ex_led3 = ex_led0\<lparr>led_attempts := [value_row ex_value1r]\<rparr>"

definition ex_plan3 :: plan where "ex_plan3 = ex_plan (CHR ''e'') (CHR ''c'') 2 [''gpu0'']"

definition ex_value3 :: attempt_value where
  "ex_value3 = new_value ex_plan3 (Some ''slot-a'') (Some JNull) Prepared False 1000 None None"

definition ex_led4 :: ledger where
  "ex_led4 = ex_led0\<lparr>led_attempts := [value_row ex_value1r, value_row ex_value3],
     led_devices := [(''gpu0'', ex_id (CHR ''e''))]\<rparr>"

lemma ex_led1_eq: "ex_led1 = \<lparr>led_installation_id = Some (ex_id (CHR ''0'')), led_ledger_id = Some (ex_id (CHR ''9'')), led_offer = Some ex_offer,
    led_attempts = [value_row ex_value1], led_devices = [(''gpu0'', ex_id (CHR ''a''))]\<rparr>"
  by (simp add: ex_led1_def ex_led0_def empty_ledger_def)

lemma ex_value1_sel: "v_plan ex_value1 = ex_plan1" "v_plan_digest ex_value1 = digest_of_plan ex_plan1"
  "v_state ex_value1 = Prepared" "v_slot ex_value1 = Some ''slot-a''" "\<not> v_cleanup_confirmed ex_value1"
  "plan_attempt_id ex_plan1 = ex_id (CHR ''a'')" "plan_generation ex_plan1 = 1" "plan_job_id ex_plan1 = ex_id (CHR ''c'')"
  "v_lease_sequence ex_value1 = 0"
  by (simp_all add: ex_value1_def new_value_def ex_plan1_def ex_plan_def)

lemma ex_value1r_sel: "v_plan ex_value1r = ex_plan1" "v_plan_digest ex_value1r = digest_of_plan ex_plan1"
  "v_state ex_value1r = Released" "v_slot ex_value1r = None" "v_outcome ex_value1r = Some Failed"
  by (simp_all add: ex_value1r_def released_def finished_def ex_value1_sel ex_result_def)

definition ex_fence :: fence where
  "ex_fence = \<lparr>f_attempt_id = ex_id (CHR ''a''), f_generation = 1, f_plan_digest = digest_of_plan ex_plan1\<rparr>"

definition ex_led1f :: ledger where
  "ex_led1f = ex_led0\<lparr>led_attempts := [value_row (finished ex_result ex_value1)]\<rparr>"

lemma ex_finish: "finish ex_result ex_led1 = Inr ex_led1f" "keeps_cleanup ex_result ex_led1"
  by (simp_all add: finish_def keeps_cleanup_def ex_led1_eq ex_led1f_def fenced_def get_def find_row_def value_row_def
      ex_value1_sel ex_result_def terminal_def save_def put_row_def delete_devices_def finished_def ex_led0_def empty_ledger_def Let_def)

lemma ex_release: "release ex_fence ex_led1f = Inr (ex_led3, ex_value1r)"
  by (simp add: release_def ex_led1f_def ex_led3_def fenced_def get_def find_row_def value_row_def ex_value1r_def
      ex_value1_sel ex_result_def terminal_def save_def put_row_def delete_devices_def finished_def released_def
      ex_led0_def empty_ledger_def Let_def ex_fence_def)

lemma ex_led1_reach: "ledger_reach ex_led1"
proof -
  from ex_led0_reach show "ledger_reach ex_led1" by (rule reach_step) (rule step_reserve [OF ex_valid(1) ex_reserve1])
qed

lemma ex_run13: "ledger_step\<^sup>*\<^sup>* ex_led1 ex_led3"
  using step_finish [OF ex_finish(2,1)] step_release [OF ex_release] by (meson converse_rtranclp_into_rtranclp rtranclp.rtrancl_refl)

lemma ex_led3_reach: "ledger_reach ex_led3"
  by (rule reach_run [OF ex_led1_reach ex_run13])

lemma ex_valid3: "valid_plan ex_plan3"
proof -
  have "list_all is_hex (ex_id (CHR ''e''))" by code_simp
  then show ?thesis unfolding ex_plan3_def by (intro ex_valid_plan) (simp_all add: ex_job_checks)
qed

lemma ex_reserve3: "reserve ex_plan3 ''slot-a'' JNull 1000 ex_led3 = Inr (ex_led4, ex_value3)"
proof -
  have inv: "ledger_inv ex_led3" by (rule led.reach_inv [OF ex_led3_reach])
  have 3: "ex_led3 = \<lparr>led_installation_id = Some (ex_id (CHR ''0'')), led_ledger_id = Some (ex_id (CHR ''9'')), led_offer = Some ex_offer,
      led_attempts = [value_row ex_value1r], led_devices = []\<rparr>"
    by (simp add: ex_led3_def ex_led0_def empty_ledger_def)
  have v: "vals ex_led3 = [ex_value1r]" by (simp add: 3 vals_def value_row_def)
  have new: "get ex_led3 (plan_attempt_id ex_plan3) = None"
    by (simp add: 3 get_def find_row_def value_row_def ex_value1r_sel ex_value1_sel) (simp add: ex_plan3_def ex_plan_def ex_ids)
  have 4: "ex_led4 = ex_led3\<lparr>led_attempts := led_attempts ex_led3 @ [value_row ex_value3],
      led_devices := led_devices ex_led3 @ map (\<lambda>d. (d, plan_attempt_id ex_plan3)) (gpu_devices (job_limits (plan_job ex_plan3)))\<rparr>"
    by (simp add: ex_led4_def 3 ex_led0_def empty_ledger_def ex_plan3_def ex_plan_def ex_job_def ex_limits_def)
  show ?thesis
    unfolding 4 ex_value3_def
    by (subst reserve_accepts [OF inv ex_valid3 new, where offer = ex_offer])
      (simp_all add: v total_def ex_plan3_def ex_refusal ex_value1r_sel ex_value1_sel,
        simp_all add: 3 ex_offer_def ex_plan_def ex_job_def ex_limits_def ex_ids)
qed

lemma ex_led4_reach: "ledger_reach ex_led4"
  by (rule reach_step [OF ex_led3_reach step_reserve [OF ex_valid3 ex_reserve3]])

lemma ex_get4: "get ex_led4 (ex_id (CHR ''e'')) = Some ex_value3" "get ex_led4 (ex_id (CHR ''a'')) = Some ex_value1r"
  by (simp_all add: ex_led4_def ex_led0_def empty_ledger_def get_def find_row_def value_row_def ex_value1r_sel
      ex_value1_sel ex_value3_def new_value_def ex_plan3_def ex_plan_def ex_ids)

section \<open>Properties\<close>

text \<open>
  C3: in every reachable ledger two attempts never share a storage slot, and two attempts whose
  cleanup is not confirmed never share a GPU, whatever sequence of reservations, renewals,
  results, releases, recoveries and offer changes led there.
\<close>

theorem ledger_exclusive:
  assumes "ledger_reach s" and "get s i = Some v" and "get s j = Some w" and "i \<noteq> j"
  shows "(v_slot v \<noteq> None \<longrightarrow> v_slot v \<noteq> v_slot w) \<and>
    (\<not> v_cleanup_confirmed v \<and> \<not> v_cleanup_confirmed w \<longrightarrow>
       set (gpu_devices (job_limits (plan_job (v_plan v)))) \<inter> set (gpu_devices (job_limits (plan_job (v_plan w)))) = {})"
proof -
  have inv: "ledger_inv s" using led.reach_inv assms(1) .
  show ?thesis using inv_slot [OF inv assms(2,3)] inv_gpu [OF inv assms(2,3)] assms(4) unfolding gpus_def by fastforce
qed

theorem ledger_exclusive_witness:
  "v_slot ex_value1 \<noteq> v_slot ex_value2 \<and>
   set (gpu_devices (job_limits (plan_job (v_plan ex_value1)))) \<inter>
     set (gpu_devices (job_limits (plan_job (v_plan ex_value2)))) = {}"
  using ledger_exclusive [OF ex_led2_reach ex_get2] by (simp add: ex_ids) (simp add: ex_value1_def ex_value2_def new_value_def)

text \<open>
  A job has at most one attempt that is not released, and it is the one with the largest
  generation: distinct retained attempts of a job have distinct generations, and when one of
  them is not released every other is released and older.
\<close>

theorem ledger_one_live_attempt:
  assumes "ledger_reach s" and "get s i = Some v" and "get s j = Some w" and "i \<noteq> j"
    and "plan_job_id (v_plan v) = plan_job_id (v_plan w)"
  shows "plan_generation (v_plan v) \<noteq> plan_generation (v_plan w) \<and>
    (v_state v \<noteq> Released \<longrightarrow> v_state w = Released \<and> plan_generation (v_plan w) < plan_generation (v_plan v))"
proof -
  have inv: "ledger_inv s" using led.reach_inv assms(1) .
  have "v \<noteq> w" using get_in_vals [OF inv assms(2)] get_in_vals [OF inv assms(3)] assms(4) by auto
  then show ?thesis
    using ledger_invD(5) [OF inv] get_in_vals [OF inv] assms(2,3,5) unfolding jobs_fenced_def by blast
qed

theorem ledger_one_live_attempt_witness:
  "plan_job_id (v_plan ex_value3) = plan_job_id (v_plan ex_value1r) \<and> v_state ex_value3 = Prepared \<and>
   v_state ex_value1r = Released \<and> plan_generation (v_plan ex_value1r) < plan_generation (v_plan ex_value3)"
proof -
  have 3: "plan_job_id (v_plan ex_value3) = plan_job_id (v_plan ex_value1r)" "v_state ex_value3 = Prepared"
    by (simp_all add: ex_value1r_sel ex_value1_sel) (simp_all add: ex_value3_def new_value_def ex_plan3_def ex_plan_def)
  then show ?thesis using ledger_one_live_attempt [OF ex_led4_reach ex_get4] by (simp add: ex_ids)
qed

text \<open>
  C4: the life of an attempt. From a reachable ledger, however it continues, a recorded attempt
  never disappears and only moves forward: its plan, digest, admission time and rejection never
  change; its phase never goes back; a terminal state stays or becomes the outcome of the
  release; a released attempt keeps its outcome; a confirmed cleanup stays confirmed; the slot
  is only given up, and only by the release; the lease sequence never decreases and a lease with
  the same sequence is the same lease.
\<close>

theorem ledger_attempts_progress:
  assumes "ledger_reach s" and "ledger_step\<^sup>*\<^sup>* s t" and "get s k = Some u"
  shows "\<exists>v. get t k = Some v \<and> value_progress u v"
  using led.reach_rel [OF assms(1,2)] assms(3) by (simp add: ledger_progress_def)

theorem ledger_attempts_progress_witness: "\<exists>v. get ex_led3 (ex_id (CHR ''a'')) = Some v \<and> value_progress ex_value1 v"
  by (rule ledger_attempts_progress [OF ex_led1_reach ex_run13])
    (simp add: ex_led1_eq get_def find_row_def value_row_def ex_value1_sel)

text \<open>
  C5: the ledger implements the abstract allocator. The allocation of every reachable ledger is
  reachable in the allocator from the empty allocation, every committed transaction is one of
  its grants, denials, settlements, closings or no change, and therefore its exclusivity holds.
\<close>

theorem ledger_refines_allocator:
  "(ledger_reach s \<longrightarrow> reach (\<lambda>A. A = (\<lambda>_. None)) alloc_step (alloc s) \<and> alloc_exclusive (alloc s)) \<and>
   (ledger_reach s \<and> ledger_step s t \<longrightarrow> alloc_step (alloc s) (alloc t))"
proof (intro conjI impI)
  assume r: "ledger_reach s"
  have "alloc empty_ledger = (\<lambda>_. None)" by (simp add: alloc_def fun_eq_iff get_def find_row_def empty_ledger_def)
  then show a: "reach (\<lambda>A. A = (\<lambda>_. None)) alloc_step (alloc s)" using led.reach_refines [OF r] by simp
  show "alloc_exclusive (alloc s)" by (rule allocator.reach_inv [OF a])
qed (use ledger_refines led.reach_inv in blast)

theorem ledger_refines_allocator_witness:
  "alloc_exclusive (alloc ex_led3) \<and> alloc_step (alloc ex_led3) (alloc ex_led4) \<and>
   alloc ex_led4 (ex_id (CHR ''e'')) = Some (Using ''slot-a'' {''gpu0''})"
  using ledger_refines_allocator [of ex_led3 ex_led4] ex_led3_reach step_reserve [OF ex_valid3 ex_reserve3]
  by (simp add: alloc_def ex_get4)
    (simp add: hold_def ex_value3_def new_value_def gpus_def ex_plan3_def ex_plan_def ex_job_def ex_limits_def)

text \<open>
  C6: a new reservation stays within the current offer: afterwards the processor, memory, swap
  and process requests of all attempts whose cleanup is not confirmed, and the storage requests
  of all attempts that hold a slot, sum to at most the offer's limits, the new one included.
\<close>

theorem reserve_within_offer:
  assumes "ledger_reach s" and "valid_plan p" and "get s (plan_attempt_id p) = None"
    and "reserve p slot b now s = Inr (t, v)"
  shows "\<exists>offer. led_offer t = Some offer \<and> off_revision offer = plan_offer_revision p \<and>
     get t (plan_attempt_id p) = Some v \<and> v \<in> set (running_values t) \<and>
     (\<forall>f\<in>{cpu_millis, memory_bytes, swap_bytes, processes}. total f (running_values t) \<le> f (off_limits offer)) \<and>
     (\<forall>f\<in>{storage_bytes, storage_inodes}. total f (held_values t) \<le> f (off_limits offer))"
proof -
  let ?v = "new_value p (Some slot) (Some b) Prepared False now None None"
  have inv: "ledger_inv s" by (rule led.reach_inv [OF assms(1)])
  from reserve_new [OF inv assms(2,4,3)] obtain offer where
    t: "t = s\<lparr>led_attempts := led_attempts s @ [value_row ?v],
        led_devices := led_devices s @ map (\<lambda>d. (d, plan_attempt_id p)) (gpus ?v)\<rparr>" and v: "v = ?v"
    and off: "led_offer s = Some offer" "off_revision offer = plan_offer_revision p"
    and run: "\<forall>f\<in>{cpu_millis, memory_bytes, swap_bytes, processes}.
        f (job_limits (plan_job p)) + total f (running_values s) \<le> f (off_limits offer)"
    and held: "\<forall>f\<in>{storage_bytes, storage_inodes}.
        f (job_limits (plan_job p)) + total f (held_values s) \<le> f (off_limits offer)"
    by auto
  have vs: "vals t = vals s @ [?v]" by (simp add: t vals_def value_row_def)
  have sel: "v_slot ?v = Some slot" "\<not> v_cleanup_confirmed ?v" "v_plan ?v = p" by (simp_all add: new_value_def)
  have "total f (running_values t) = f (job_limits (plan_job p)) + total f (running_values s)"
    and "total f (held_values t) = f (job_limits (plan_job p)) + total f (held_values s)" for f
    unfolding total_running total_held vs by (simp_all add: sel) (simp_all add: total_def sel)
  moreover have "get t (plan_attempt_id p) = Some v" using assms(3) by (simp add: t get_append v)
  moreover have "v \<in> set (running_values t)" by (simp add: v running_values_def set_held vs sel)
  ultimately show ?thesis using off run held by (auto simp: t)
qed

theorem reserve_within_offer_witness:
  "\<exists>offer. led_offer ex_led2 = Some offer \<and> total cpu_millis (running_values ex_led2) \<le> cpu_millis (off_limits offer) \<and>
     total storage_bytes (held_values ex_led2) \<le> storage_bytes (off_limits offer)"
proof -
  have "get ex_led1 (plan_attempt_id ex_plan2) = None"
    by (simp add: ex_led1_eq get_def find_row_def value_row_def ex_value1_sel ex_plan2_def ex_plan_def ex_ids)
  from reserve_within_offer [OF ex_led1_reach ex_valid(2) this ex_reserve2] show ?thesis by blast
qed

lemma renew_conflict: "renew q now m s = Inl e \<Longrightarrow> \<exists>c. e = Conflict c"
  by (auto simp: renew_def fenced_def Let_def split: sum.splits option.splits if_splits)

lemma reserve_conflict:
  assumes "ledger_inv s" "valid_plan p" "reserve p slot b now s = Inl e"
  shows "\<exists>c. e = Conflict c"
proof (cases "get s (plan_attempt_id p)")
  case None
  from reserve_new [OF assms None] show ?thesis by auto
next
  case (Some u)
  then show ?thesis using assms(3) by (auto simp: reserve_def split: if_splits)
qed

lemma reject_conflict:
  assumes "ledger_inv s" "reject p now obs s = Inl e"
  shows "\<exists>c. e = Conflict c"
proof (cases "get s (plan_attempt_id p)")
  case None
  show ?thesis
  proof (cases "same_job_conflict s p")
    case False
    have "insert_attempt (value_row w) s = Inr (s\<lparr>led_attempts := led_attempts s @ [value_row w]\<rparr>)"
      if "w = new_value p None None st c now r j" for w st c r j
      using insert_attempt_ok [OF assms(1), of w] None False that by (simp add: new_value_def vid_def)
    with assms(2) None False show ?thesis by (simp add: reject_def Let_def)
  qed (use assms(2) None in \<open>auto simp: reject_def\<close>)
qed (use assms(2) in \<open>auto simp: reject_def fenced_def split: sum.splits option.splits if_splits\<close>)

text \<open>
  C9: the ledger's checks cover its SQL constraints. For a valid plan no reservation, admission
  or rejection of a reachable ledger violates a primary key or a uniqueness constraint or fails
  in any other way than with a conflict that leaves the ledger unchanged.
\<close>

theorem ledger_never_violates_constraints:
  assumes "ledger_reach s"
  shows "(valid_plan p \<and> reserve p slot b now s = Inl e \<longrightarrow> (\<exists>c. e = Conflict c)) \<and>
    (valid_admission a \<and> admit a slot b reading maximum s = Inl e \<longrightarrow> (\<exists>c. e = Conflict c)) \<and>
    (reject p now observation s = Inl e \<longrightarrow> (\<exists>c. e = Conflict c))"
proof (intro conjI impI)
  have inv: "ledger_inv s" by (rule led.reach_inv [OF assms])
  show "\<exists>c. e = Conflict c" if "valid_plan p \<and> reserve p slot b now s = Inl e"
    using that reserve_conflict [OF inv] by blast
  show "\<exists>c. e = Conflict c" if "valid_admission a \<and> admit a slot b reading maximum s = Inl e"
    using that reserve_conflict [OF inv valid_admissionD(1)] renew_conflict
    by (auto simp: admit_def Let_def split: sum.splits if_splits prod.splits)
  show "\<exists>c. e = Conflict c" if "reject p now observation s = Inl e"
    using that reject_conflict [OF inv] by blast
qed

theorem ledger_never_violates_constraints_witness:
  "\<exists>e c. reserve ex_plan1 ''slot-a'' JNull 1000 empty_ledger = Inl e \<and> e = Conflict c"
proof -
  have "reserve ex_plan1 ''slot-a'' JNull 1000 empty_ledger = Inl (Conflict (Sentence Offer_absent_or_changed))"
    by (simp add: reserve_def get_def find_row_def empty_ledger_def)
  moreover have "ledger_reach empty_ledger" by (rule reach_start) simp
  ultimately show ?thesis using ledger_never_violates_constraints [of empty_ledger ex_plan1] ex_valid(1) by blast
qed

text \<open>
  Admission is idempotent. After an accepted admission, repeating it with the same plan, at
  any later time and with any slot or binding, returns the same document, creates nothing and
  leaves the ledger as it is.
\<close>

theorem admit_idempotent:
  assumes "ledger_reach s" and "valid_admission a" and "admit a slot b now maximum s = Inr (t, v, created)"
    and "adm_plan a' = adm_plan a"
  shows "admit a' slot' b' now' maximum' t = Inr (t, v, False)"
proof -
  have inv: "ledger_inv s" by (rule led.reach_inv [OF assms(1)])
  note A = valid_admissionD [OF assms(2)]
  have g: "get t (plan_attempt_id (adm_plan a)) = Some v"
    using admit_effect [OF inv assms(2,3)] by (auto simp: inserted_def)
  have d: "v_plan_digest v = digest_of_plan (adm_plan a)"
    using assms(3)
  proof (cases rule: admit_cases)
    case old
    then show ?thesis by (auto simp: reserve_def split: if_splits)
  next
    case (fresh r w)
    then show ?thesis using admit_effect [OF inv assms(2,3)] by (auto simp: new_value_def)
  qed
  show ?thesis by (simp add: admit_def assms(4) reserve_def g d)
qed

text \<open>A lease of the first attempt, its acceptance and the start of the attempt.\<close>

definition ex_lease :: renewal where
  "ex_lease = \<lparr>f_attempt_id = ex_id (CHR ''a''), f_generation = 1, f_plan_digest = digest_of_plan ex_plan1,
     ren_sequence = 1, ren_expires_at = 1020\<rparr>"

definition ex_timing :: lease_timing where
  "ex_timing = \<lparr>lt_boot_id = boot_id ex_reading, lt_received_ns = 5000, lt_deadline_ns = 20000005000\<rparr>"

definition ex_value1a :: attempt_value where
  "ex_value1a = renewed ex_lease ex_timing ex_value1"

definition ex_led1a :: ledger where
  "ex_led1a = ex_led0\<lparr>led_attempts := [value_row ex_value1a], led_devices := [(''gpu0'', ex_id (CHR ''a''))]\<rparr>"

lemma ex_deadline: "deadline 1020 ex_reading 30 = Inr ex_timing"
  by (simp add: deadline_def ex_reading_def ex_timing_def)

lemma ex_renew: "renew ex_lease ex_reading 30 ex_led1 = Inr (ex_led1a, ex_value1a)"
proof -
  have "vals ex_led1 = [ex_value1]" by (simp add: ex_led1_eq vals_def value_row_def)
  then have tot: "total f (running_values ex_led1) = f (ex_limits 1 [''gpu0''])" for f
    unfolding total_running
    by (simp add: ex_value1_sel total_def) (simp add: ex_plan1_def ex_plan_def ex_job_def)
  have fen: "fenced ex_led1 (f_attempt_id ex_lease) (f_generation ex_lease) (f_plan_digest ex_lease) = Inr ex_value1"
    by (simp add: fenced_def ex_led1_eq get_def find_row_def value_row_def ex_value1_sel ex_lease_def)
  have off: "led_offer ex_led1 = Some ex_offer" by (simp add: ex_led1_eq)
  have ref: "refusal ex_offer (plan_project_id (v_plan ex_value1)) (plan_job (v_plan ex_value1)) (wall ex_reading) True = None"
    by (simp add: ex_value1_sel ex_plan1_def ex_refusal)
  have "save ex_value1a ex_led1 = ex_led1a"
    by (simp add: save_def ex_led1_eq ex_led1a_def put_row_def value_row_def ex_value1a_def ex_led0_def empty_ledger_def ex_value1_sel)
  then show ?thesis
    unfolding renew_def fen off using ref
    by (simp add: ex_value1_sel tot)
      (simp add: ex_lease_def ex_deadline ex_limits_def ex_offer_def, simp add: ex_value1a_def renewed_def ex_lease_def)
qed

definition ex_admission :: admission where
  "ex_admission = \<lparr>adm_plan = ex_plan1, adm_lease = ex_lease\<rparr>"

lemma ex_valid_admission: "valid_admission ex_admission"
  using digest_Digest ex_job_checks(6)
  by (simp add: valid_admission_def ex_admission_def ex_valid admission_binding_def ex_lease_def ex_value1_sel
      valid_renewal_def valid_fence_def Revision_def digest_of_plan_def Identity_def) (simp add: ex_id_def)

lemma ex_admit: "admit ex_admission ''slot-a'' JNull ex_reading 30 ex_led0 = Inr (ex_led1a, ex_value1a, True)"
proof -
  have "get ex_led0 i = None" for i by (simp add: ex_led0_def empty_ledger_def get_def find_row_def)
  then show ?thesis using ex_reserve1 ex_renew by (simp add: admit_def ex_admission_def ex_reading_def)
qed

theorem admit_idempotent_witness:
  "admit ex_admission ''slot-b'' JNull ex_reading 30 ex_led1a = Inr (ex_led1a, ex_value1a, False)"
  by (rule admit_idempotent [OF ex_led0_reach ex_valid_admission ex_admit refl])

text \<open>
  C7: an attempt starts only with authority. A start request that moves an attempt to starting
  found it prepared, under the fence's generation and digest, with a lease that is active at
  that reading, and the current offer, of the revision the plan was made for, accepts the job
  at that time; every other outcome leaves the ledger unchanged.
\<close>

theorem start_needs_authority:
  assumes "start_requested f now s = Inr (t, v, begun)"
  shows "(begun \<longrightarrow> (\<exists>u offer. get s (f_attempt_id f) = Some u \<and> v_state u = Prepared \<and>
        plan_generation (v_plan u) = f_generation f \<and> v_plan_digest u = f_plan_digest f \<and>
        value_active u now \<and> led_offer s = Some offer \<and> off_revision offer = plan_offer_revision (v_plan u) \<and>
        refusal offer (plan_project_id (v_plan u)) (plan_job (v_plan u)) (wall now) False = None \<and>
        v = u\<lparr>v_state := Starting\<rparr>)) \<and>
    (\<not> begun \<longrightarrow> t = s \<and> v_state v \<noteq> Prepared)"
  using assms by (rule start_requested_authority)

theorem start_needs_authority_witness:
  "\<exists>t v. start_requested ex_fence ex_reading ex_led1a = Inr (t, v, True) \<and> v = ex_value1a\<lparr>v_state := Starting\<rparr>"
proof -
  have fen: "fenced ex_led1a (f_attempt_id ex_fence) (f_generation ex_fence) (f_plan_digest ex_fence) = Inr ex_value1a"
    by (simp add: fenced_def ex_led1a_def ex_led0_def empty_ledger_def get_def find_row_def value_row_def ex_value1_sel
        ex_fence_def ex_value1a_def)
  have act: "value_active ex_value1a ex_reading"
    by (simp add: value_active_def active_def ex_value1a_def ex_lease_def ex_timing_def ex_reading_def)
  have off: "led_offer ex_led1a = Some ex_offer" by (simp add: ex_led1a_def ex_led0_def)
  have "\<exists>t. start_requested ex_fence ex_reading ex_led1a = Inr (t, ex_value1a\<lparr>v_state := Starting\<rparr>, True)"
    unfolding start_requested_def fen off using act
    by (simp add: ex_value1a_def ex_value1_sel ex_plan1_def ex_refusal) (simp add: ex_offer_def ex_plan_def Let_def)
  then obtain t where t: "start_requested ex_fence ex_reading ex_led1a = Inr (t, ex_value1a\<lparr>v_state := Starting\<rparr>, True)" ..
  with start_needs_authority [OF t] show ?thesis by blast
qed

text \<open>
  C8: a lease never outlives its grant. When a renewal is recorded at a reading, every later
  reading at which the lease is still active is of the same boot, lies within the allowed
  number of seconds of boot time after the grant, and has a wall clock before the agreed expiry;
  clock adjustments cannot extend it.
\<close>

theorem lease_never_outlives:
  assumes "renew q now maximum s = Inr (t, v)" and "t \<noteq> s" and "value_active v later"
  shows "boot_id later = boot_id now \<and> elapsed_ns now \<le> elapsed_ns later \<and>
    of_int (elapsed_ns later - elapsed_ns now) < maximum * 1000000000 \<and>
    wall later < ren_expires_at q \<and> ren_expires_at q \<le> wall now + maximum"
  using assms(1)
proof (cases rule: renew_cases)
  case (1 u offer)
  then obtain m where m: "deadline (ren_expires_at q) now maximum = Inr m" "v = renewed q m u"
    using assms(2) by blast
  note d = deadline_timing [OF m(1)]
  have "active (ren_sequence q) (ren_expires_at q) (Some m) later"
    using assms(3) by (simp add: value_active_def m(2))
  note a = active_timing [OF this]
  have "of_int (elapsed_ns later - elapsed_ns now) < (of_int (lt_deadline_ns m - lt_received_ns m) :: rat)"
    using a(5) d(2) by simp
  also note d(4)
  finally show ?thesis using a d by simp
qed

theorem lease_never_outlives_witness:
  "boot_id (ex_reading\<lparr>wall := 1010, elapsed_ns := 10000005000\<rparr>) = boot_id ex_reading \<and>
   of_int (10000005000 - elapsed_ns ex_reading) < (30 * 1000000000 :: rat)"
proof -
  have "v_lease_sequence (row_value (hd (led_attempts ex_led1a))) = 1"
    by (simp add: ex_led1a_def value_row_def ex_value1a_def ex_lease_def)
  moreover have "v_lease_sequence (row_value (hd (led_attempts ex_led1))) = 0"
    by (simp add: ex_led1_def value_row_def ex_value1_sel)
  ultimately have ne: "ex_led1a \<noteq> ex_led1" by auto
  have "value_active ex_value1a (ex_reading\<lparr>wall := 1010, elapsed_ns := 10000005000\<rparr>)"
    by (simp add: value_active_def active_def ex_value1a_def ex_lease_def ex_timing_def ex_reading_def)
  from lease_never_outlives [OF ex_renew ne this] show ?thesis by simp
qed

end
