(* ===== verification/Exec_Spec_Props.thy ===== *)
theory Exec_Spec_Props
  imports Exec_Ledger_Props
begin

text \<open>
  The properties of the executor's schemas, offers, settings and messages, with concrete
  instances.
\<close>

section \<open>A concrete configuration\<close>

definition ex_slot :: "string \<Rightarrow> string \<Rightarrow> int \<Rightarrow> slot" where
  "ex_slot i m u = \<lparr>slot_id = i, slot_generation = 1, slot_mount = m, slot_filesystem_uuid = ''12345678'',
     slot_account = i, slot_uid = u, slot_gid = u, slot_storage_bytes = 30, slot_storage_inodes = 8\<rparr>"

definition ex_ceiling :: offer_settings where
  "ex_ceiling = \<lparr>off_projects = [ex_id (CHR ''2'')], off_runtimes = [ex_runtime], off_limits = ex_limits 2 [''gpu0'', ''gpu1''],
     off_schedule_utc = [], off_accept_sensitive = False\<rparr>"

definition ex_settings :: settings where
  "ex_settings = \<lparr>set_version = 1, set_installation_id = ex_id (CHR ''0''), set_deployment_id = ex_id (CHR ''0''),
     set_node_id = ex_id (CHR ''1''), set_mode = Voluntary, set_transport_uid = 500, set_local_owner_uids = [1000],
     set_maximum_lease_seconds = 30, set_service = ''ficc-executor-'' @ ex_id (CHR ''0'') @ ''.service'',
     set_state = ''/var/lib/ficc/state'', set_sockets = ''/run/ficc'', set_ceiling = ex_ceiling,
     set_initial_offer = ex_offer,
     set_slots = [ex_slot ''slot-a'' ''/srv/a'' 700, ex_slot ''slot-b'' ''/srv/b'' 701],
     set_providers = [\<lparr>prov_id = ''podman'', prov_package_digest = rt_package_digest ex_runtime, prov_configuration = JObj []\<rparr>],
     set_model_cache = None\<rparr>"

lemma ex_settings_consistent: "consistent ex_settings = Inr ex_settings"
proof -
  have "\<not> paths_overlap (settings_paths ex_settings)" by code_simp
  moreover have "validate_offer ex_offer ex_ceiling = Inr ()"
    by (simp add: validate_offer_def ex_offer_def ex_ceiling_def fits_refl list_ex_iff)
  ultimately show ?thesis
    by (simp add: consistent_def) (simp add: ex_settings_def ex_slot_def ex_offer_def ex_ceiling_def ex_runtime_def)
qed

section \<open>Properties\<close>

text \<open>
  C10: the canonical encoding binds the plan: two valid plans with the same encoding are the same
  plan in every field, so the digest that fences an attempt is a hash of all of it.
\<close>

theorem plan_encoding_binds:
  assumes "valid_plan p" and "valid_plan q" and "encoded (plan_dump p) = encoded (plan_dump q)"
  shows "p = q"
  using assms by (rule plan_encoding_inject)

theorem plan_encoding_binds_witness: "encoded (plan_dump ex_plan1) \<noteq> encoded (plan_dump ex_plan2)"
proof
  assume "encoded (plan_dump ex_plan1) = encoded (plan_dump ex_plan2)"
  from plan_encoding_binds [OF ex_valid this] show False by (simp add: ex_plan1_def ex_plan2_def ex_plan_def ex_ids)
qed

text \<open>
  An accepted output path stays below the work directory: followed component by component
  from the work directory it never reaches the work directory or anything above it.
\<close>

theorem output_path_below:
  assumes "below_work_directory s = Inr t" and "d \<in> set (path_depths 0 (split_on (CHR ''/'') t))"
  shows "d > 0"
proof -
  note b = below_work_directory_parts [OF assms(1)]
  have "p \<noteq> [] \<and> p \<noteq> ''.'' \<and> p \<noteq> ''..''" if "p \<in> set (split_on (CHR ''/'') t)" for p
  proof -
    have p: "p \<in> set (path_parts s)" using that unfolding b(1) b(2) .
    then have "p \<noteq> ''..''" using b(3) by blast
    moreover have "p \<noteq> [] \<and> p \<noteq> ''.''" using p unfolding path_parts_def by simp
    ultimately show ?thesis by blast
  qed
  then show ?thesis using path_depths_names [OF _ assms(2)] by blast
qed

theorem output_path_below_witness:
  "below_work_directory ''out/model.bin'' = Inr ''out/model.bin'' \<and>
   (2 :: int) \<in> set (path_depths 0 (split_on (CHR ''/'') ''out/model.bin'')) \<and> (2 :: int) > 0"
proof -
  have 1: "below_work_directory ''out/model.bin'' = Inr ''out/model.bin''" by code_simp
  have 2: "(2 :: int) \<in> set (path_depths 0 (split_on (CHR ''/'') ''out/model.bin''))" by simp
  show ?thesis using 1 2 output_path_below [OF 1 2] by simp
qed

text \<open>
  The owner cannot broaden the administrator's ceiling. When an offer passed
  \<open>validate_offer\<close> against the ceiling, every job the offer accepts at some moment, to start or
  to continue, is of an approved project and runtime, fits the ceiling's limits, lies within the
  approved schedule at that moment, and is not sensitive unless the ceiling allows it.
\<close>

theorem offer_within_ceiling:
  assumes "validate_offer offer bound = Inr ()" and "refusal offer project job now continuing = None"
  shows "project \<in> set (off_projects bound) \<and> job_runtime job \<in> set (off_runtimes bound) \<and>
    fits (job_limits job) (off_limits bound) \<and>
    (off_schedule_utc bound = [] \<or> (\<exists>w\<in>set (off_schedule_utc bound). contains w now)) \<and>
    (job_sensitive job \<longrightarrow> off_accept_sensitive bound)"
  using assms by (rule refusal_within)

theorem offer_within_ceiling_witness:
  "fits (job_limits (plan_job ex_plan1)) (off_limits ex_ceiling) \<and> job_runtime (plan_job ex_plan1) \<in> set (off_runtimes ex_ceiling)"
proof -
  have 1: "validate_offer ex_offer ex_ceiling = Inr ()"
    by (simp add: validate_offer_def ex_offer_def ex_ceiling_def fits_refl list_ex_iff)
  have 2: "refusal ex_offer (plan_project_id ex_plan1) (plan_job ex_plan1) 1000 False = None"
    by (simp add: ex_plan1_def ex_refusal)
  show ?thesis using offer_within_ceiling [OF 1 2] by simp
qed

text \<open>
  Accepted settings use separate directories: no path lies in two of the state directory,
  the socket directory, the storage mounts and the model cache.
\<close>

lemma settings_directories_separate:
  assumes "consistent s = Inr t" and "i < length (settings_paths s)" and "j < length (settings_paths s)"
    and "below (settings_paths s ! i) p" and "below (settings_paths s ! j) p"
  shows "i = j"
proof (rule ccontr)
  assume "i \<noteq> j"
  then have "paths_overlap (settings_paths s)"
    unfolding paths_overlap_iff using assms(2,3) below_both [OF assms(4,5)] by (metis linorder_neqE_nat)
  with consistent_paths [OF assms(1)] show False by simp
qed

lemma settings_directories_separate_witness:
  "below ''/srv/a'' ''/srv/a/work'' \<and> \<not> below ''/srv/b'' ''/srv/a/work''"
proof -
  have p: "settings_paths ex_settings = [''/var/lib/ficc/state'', ''/run/ficc'', ''/srv/a'', ''/srv/b'']"
    by (simp add: settings_paths_def ex_settings_def ex_slot_def)
  have 1: "below ''/srv/a'' ''/srv/a/work''" by code_simp
  show ?thesis using settings_directories_separate [OF ex_settings_consistent, of 2 3 "''/srv/a/work''"] 1 by (auto simp: p)
qed

text \<open>
  Authority follows the socket peer and is separated. In consistent settings a peer other
  than the administrator that may change the offer can request nothing but offers and
  snapshots, an account that workloads run under is refused every message, and in managed mode
  nobody but the administrator changes the offer.
\<close>

theorem authority_separated:
  assumes "consistent s = Inr t" and "uid \<noteq> 0"
  shows "(authorize (SetOffer r e os c) uid s = Inr () \<and> authorize m uid s = Inr () \<longrightarrow> owner_message m) \<and>
    (uid \<in> slot_uid ` set (set_slots s) \<longrightarrow> authorize m uid s \<noteq> Inr ()) \<and>
    (set_mode s = Managed \<longrightarrow> authorize (SetOffer r e os c) uid s \<noteq> Inr ())"
proof (intro conjI impI)
  note a = consistent_accounts [OF assms(1)]
  assume "authorize (SetOffer r e os c) uid s = Inr () \<and> authorize m uid s = Inr ()"
  then show "owner_message m"
    using a(2) assms(2) authorize_transport [of m uid s] by (auto simp: authorize_offer)
next
  note a = consistent_accounts [OF assms(1)]
  assume "uid \<in> slot_uid ` set (set_slots s)"
  then have "uid \<noteq> set_transport_uid s" "uid \<notin> set (set_local_owner_uids s)" using a(1,2) by blast+
  then show "authorize m uid s \<noteq> Inr ()" using assms(2) authorize_known by blast
next
  assume "set_mode s = Managed"
  then show "authorize (SetOffer r e os c) uid s \<noteq> Inr ()"
    using assms(2) by (simp add: authorize_offer)
qed

theorem authority_separated_witness:
  "authorize (SetOffer \<lparr>req_version = 1, req_id = ex_id (CHR ''0'')\<rparr> 1 ex_ceiling Paused) 1000 ex_settings = Inr () \<and>
   authorize (Renew \<lparr>req_version = 1, req_id = ex_id (CHR ''0'')\<rparr> []) 1000 ex_settings \<noteq> Inr () \<and>
   authorize (Renew \<lparr>req_version = 1, req_id = ex_id (CHR ''0'')\<rparr> []) 700 ex_settings \<noteq> Inr ()"
proof -
  let ?m = "Renew \<lparr>req_version = 1, req_id = ex_id (CHR ''0'')\<rparr> []"
  let ?o = "SetOffer \<lparr>req_version = 1, req_id = ex_id (CHR ''0'')\<rparr> 1 ex_ceiling Paused"
  have o: "authorize ?o 1000 ex_settings = Inr ()" by (simp add: authorize_offer ex_settings_def)
  have "authorize ?m 1000 ex_settings \<noteq> Inr ()"
    using authority_separated [OF ex_settings_consistent, of 1000 _ 1 ex_ceiling Paused ?m] o by auto
  moreover have "authorize ?m 700 ex_settings \<noteq> Inr ()"
    using authority_separated [OF ex_settings_consistent, of 700 _ 1 ex_ceiling Paused ?m]
    by (simp add: ex_settings_def ex_slot_def)
  ultimately show ?thesis using o by blast
qed

text \<open>
  An input chunk is accepted exactly when its text is the canonical base64 of at most 8 MiB
  of bytes whose SHA-256 is the declared digest, and those bytes are what it decodes to.
\<close>

theorem decoded_iff:
  "decoded c = Inr data \<longleftrightarrow>
     ch_data c = b64encode data \<and> length data \<le> INPUT_CHUNK \<and> ch_digest c = ''sha256:'' @ sha256_hex data"
proof
  assume "decoded c = Inr data"
  then show "ch_data c = b64encode data \<and> length data \<le> INPUT_CHUNK \<and> ch_digest c = ''sha256:'' @ sha256_hex data"
    unfolding decoded_def by (cases "b64decode (ch_data c)") (simp_all split: if_splits)
next
  assume "ch_data c = b64encode data \<and> length data \<le> INPUT_CHUNK \<and> ch_digest c = ''sha256:'' @ sha256_hex data"
  then show "decoded c = Inr data" unfolding decoded_def by (simp add: b64_roundtrip)
qed

end
