(* ===== verification/Exec_Supervisor.thy ===== *)
theory Exec_Supervisor
  imports Exec_Ledger_Run "HOL-Library.AList"
begin

text \<open>
  The supervisor of an executor (\<open>src/ficc/execution/supervisor.py\<close>), with the pure parts of
  \<open>inputs.py\<close> and \<open>envelope.py\<close>. Its state is the ledger, the table of background work, the
  attempts with an input write or a release under way, the running input hashes and the start
  times of pending cleanups.

  An operation returns the new state and a result; when it raises, the ledger transactions it
  committed before stay committed. The world outside (system manager, storage probes, provider
  packages, files, clocks) answers through the record \<open>env\<close>, an argument of the operations.
  Background work that the thread pool runs is entered in \<open>sup_pending\<close>; \<open>Monitor.harvest\<close>
  collects it. Where an operation gives up the lock, the argument \<open>others\<close> is what other
  threads did to the state meanwhile.
\<close>

section \<open>State and effects\<close>

datatype work = Work_inputs | Work_prepare | Work_start | Work_engine_barrier | Work_payload_barrier

record supervisor =
  sup_settings :: settings
  sup_ledger :: ledger
  sup_pending :: "(string \<times> work) list"
  sup_cleanup_started :: "(string \<times> rat) list"
  sup_releasing :: "string list"
  sup_input_busy :: "string list"
  sup_hashes :: "((string \<times> string) \<times> string) list"
  sup_recovered :: bool

type_synonym 'a sup_op = "supervisor \<Rightarrow> supervisor \<times> 'a res"

definition give :: "'a \<Rightarrow> 'a sup_op" where
  "give x s = (s, Inr x)"

definition fail :: "exn \<Rightarrow> 'a sup_op" where
  "fail e s = (s, Inl e)"

definition lift :: "(supervisor \<Rightarrow> 'a res) \<Rightarrow> 'a sup_op" where
  "lift f s = (s, f s)"

definition andthen :: "'a sup_op \<Rightarrow> ('a \<Rightarrow> 'b sup_op) \<Rightarrow> 'b sup_op" where
  "andthen m k s = (case m s of (t, Inl e) \<Rightarrow> (t, Inl e) | (t, Inr x) \<Rightarrow> k x t)"

definition handle :: "'a sup_op \<Rightarrow> (exn \<Rightarrow> 'a sup_op) \<Rightarrow> 'a sup_op" where
  "handle m h s = (case m s of (t, Inl e) \<Rightarrow> h e t | (t, Inr x) \<Rightarrow> (t, Inr x))"

fun for_each :: "('a \<Rightarrow> unit sup_op) \<Rightarrow> 'a list \<Rightarrow> unit sup_op" where
  "for_each f [] = give ()"
| "for_each f (x # xs) = andthen (f x) (\<lambda>_. for_each f xs)"

definition modify :: "(supervisor \<Rightarrow> supervisor) \<Rightarrow> unit sup_op" where
  "modify f s = (f s, Inr ())"

text \<open>A ledger transaction: committed when it returns, rolled back when it raises.\<close>

definition txn :: "(ledger \<Rightarrow> (ledger \<times> 'a) res) \<Rightarrow> 'a sup_op" where
  "txn f s = (case f (sup_ledger s) of Inl e \<Rightarrow> (s, Inl e) | Inr (l, x) \<Rightarrow> (s\<lparr>sup_ledger := l\<rparr>, Inr x))"

definition no_value :: "(ledger \<Rightarrow> ledger res) \<Rightarrow> ledger \<Rightarrow> (ledger \<times> unit) res" where
  "no_value f l = (case f l of Inl e \<Rightarrow> Inl e | Inr t \<Rightarrow> Inr (t, ()))"

section \<open>The world outside\<close>

record observation =
  ob_phase :: string
  ob_exit_code :: "int option"
  ob_stdout_bytes :: int
  ob_stderr_bytes :: int
  ob_payload_pid :: int
  ob_device_probe :: "(string \<times> int) list"

record unit_status =
  us_load_state :: "string option"
  us_active_state :: "string option"
  us_exit_timestamp :: "string option"

record capability =
  cap_reference :: object_reference
  cap_path :: string
  cap_identity :: json

record attempt_context =
  ctx_plan :: plan
  ctx_plan_digest :: string
  ctx_slot :: slot
  ctx_binding :: "json option"
  ctx_directory :: string
  ctx_unit :: string
  ctx_description :: string
  ctx_cgroup :: string
  ctx_supervisor :: string
  ctx_inputs :: "capability list"
  ctx_prepared :: "json option"

datatype stop_outcome = Stop_done | StopPending | Stop_failed exn

record read_result =
  rr_object :: string
  rr_offset :: int
  rr_data :: string
  rr_next_offset :: int
  rr_total_bytes :: int
  rr_eof :: bool
  rr_complete :: bool
  rr_identity :: string

datatype future = Not_done | Raised exn | Done_runtime json | Done_progress "(string \<times> receipt) list" | Done

record env =
  env_clock :: "nat \<Rightarrow> reading"
  env_monotonic :: rat
  env_slot_probe :: "slot \<Rightarrow> json option \<Rightarrow> bool \<Rightarrow> json res"
  env_provider_ready :: "attempt_context \<Rightarrow> bool res"
  env_provider_prepare :: "attempt_context \<Rightarrow> json res"
  env_provider_start :: "attempt_context \<Rightarrow> json res"
  env_launch :: "attempt_context \<Rightarrow> json \<Rightarrow> unit res"
  env_stop :: "attempt_context \<Rightarrow> stop_outcome"
  env_inspect :: "attempt_context \<Rightarrow> unit_status res"
  env_processes :: "int \<Rightarrow> bool"
  env_observe :: "attempt_context \<Rightarrow> observation res"
  env_provider_stop :: "attempt_context \<Rightarrow> observation res"
  env_provider_release :: "attempt_context \<Rightarrow> unit res"
  env_provider_collect :: "attempt_context \<Rightarrow> read_request \<Rightarrow> bool \<Rightarrow> read_result res"
  env_staged_storage :: "attempt_context \<Rightarrow> bool"
  env_idle :: "attempt_context \<Rightarrow> json res"
  env_write_file :: "attempt_context \<Rightarrow> object_reference \<Rightarrow> receipt \<Rightarrow> string \<Rightarrow> bool \<Rightarrow> json res"
  env_remove_inputs :: "attempt_context \<Rightarrow> unit res"
  env_future :: "string \<Rightarrow> work \<Rightarrow> future"

section \<open>Views of an attempt\<close>

fun truthy :: "json \<Rightarrow> bool" where
  "truthy JNull = False"
| "truthy (JBool b) = b"
| "truthy (JInt i) = (i \<noteq> 0)"
| "truthy (JStr s) = (s \<noteq> [])"
| "truthy (JArr xs) = (xs \<noteq> [])"
| "truthy (JObj kvs) = (kvs \<noteq> [])"

definition has_runtime :: "attempt_value \<Rightarrow> bool" where
  "has_runtime v = (case v_prepared_runtime v of None \<Rightarrow> False | Some j \<Rightarrow> truthy j)"

definition stop_asked :: "attempt_value \<Rightarrow> bool" where
  "stop_asked v = (case v_pending_stop v of None \<Rightarrow> False | Some r \<Rightarrow> r \<noteq> [])"

definition fence_of :: "attempt_value \<Rightarrow> fence" where
  "fence_of v = \<lparr>f_attempt_id = plan_attempt_id (v_plan v), f_generation = plan_generation (v_plan v),
     f_plan_digest = v_plan_digest v\<rparr>"

record public_attempt = attempt_result +
  pub_job_id :: string
  pub_project_id :: string
  pub_offer_revision :: int
  pub_lease_sequence :: int
  pub_lease_expires_at :: rat
  pub_ready :: bool
  pub_outcome :: "wstate option"

definition public_of :: "attempt_value \<Rightarrow> public_attempt" where
  "public_of v = \<lparr>f_attempt_id = plan_attempt_id (v_plan v), f_generation = plan_generation (v_plan v),
     f_plan_digest = v_plan_digest v, res_state = v_state v, res_reason = v_reason v,
     res_exit_code = v_exit_code v, res_output_bytes = v_output_bytes v, res_error_bytes = v_error_bytes v,
     res_cleanup_confirmed = v_cleanup_confirmed v, pub_job_id = plan_job_id (v_plan v),
     pub_project_id = plan_project_id (v_plan v), pub_offer_revision = plan_offer_revision (v_plan v),
     pub_lease_sequence = v_lease_sequence v, pub_lease_expires_at = v_lease_expires_at v,
     pub_ready = (has_runtime v \<and> v_state v = Prepared), pub_outcome = v_outcome v\<rparr>"

definition public :: "attempt_value \<Rightarrow> public_attempt res" where
  "public v = (if valid_attempt_result (public_of v) then Inr (public_of v) else Inl ValueError)"

section \<open>Inputs of an attempt\<close>

definition references :: "plan \<Rightarrow> object_reference list" where
  "references p = filter (\<lambda>r. obj_delivery r = Stream) (job_inputs (plan_job p))"

definition inputs_root :: "slot \<Rightarrow> plan \<Rightarrow> string" where
  "inputs_root sl p = slot_mount sl @ ''/.inputs-'' @ plan_attempt_id p"

definition progress_of :: "attempt_value \<Rightarrow> (string \<times> receipt) list" where
  "progress_of v = (case v_input_progress v of None \<Rightarrow> [] | Some p \<Rightarrow> p)"

definition receipt_complete :: "(string \<times> receipt) list \<Rightarrow> object_reference \<Rightarrow> bool" where
  "receipt_complete progress r = (case map_of progress (obj_id r) of None \<Rightarrow> False | Some x \<Rightarrow> rc_complete x)"

definition capabilities :: "slot \<Rightarrow> plan \<Rightarrow> (string \<times> receipt) list \<Rightarrow> capability list" where
  "capabilities sl p progress =
     map (\<lambda>r. \<lparr>cap_reference = r, cap_path = inputs_root sl p @ ''/'' @ obj_id r,
               cap_identity = (case map_of progress (obj_id r) of None \<Rightarrow> JNull | Some x \<Rightarrow> rc_identity x)\<rparr>)
       (filter (receipt_complete progress) (references p))"

definition inputs_complete :: "plan \<Rightarrow> (string \<times> receipt) list \<Rightarrow> bool" where
  "inputs_complete p progress = list_all (receipt_complete progress) (references p)"

section \<open>Contexts and current authority\<close>

definition context_of :: "settings \<Rightarrow> slot \<Rightarrow> plan \<Rightarrow> string \<Rightarrow> json option \<Rightarrow> attempt_context" where
  "context_of st sl p plan_digest binding =
     (let u = ''ficc-work-'' @ set_installation_id st @ ''-'' @ plan_attempt_id p @ ''.service''
      in \<lparr>ctx_plan = p, ctx_plan_digest = plan_digest, ctx_slot = sl, ctx_binding = binding,
          ctx_directory = slot_mount sl @ ''/'' @ plan_attempt_id p, ctx_unit = u,
          ctx_description = ''FICC attempt '' @ set_installation_id st @ '':'' @ plan_attempt_id p,
          ctx_cgroup = ''/system.slice/'' @ u, ctx_supervisor = set_service st, ctx_inputs = [],
          ctx_prepared = None\<rparr>)"

definition find_slot :: "supervisor \<Rightarrow> string \<Rightarrow> slot res" where
  "find_slot s i = (case find_row slot_id (set_slots (sup_settings s)) i of None \<Rightarrow> Inl KeyError | Some x \<Rightarrow> Inr x)"

definition ctx :: "supervisor \<Rightarrow> attempt_value \<Rightarrow> attempt_context res" where
  "ctx s v =
     (case v_slot v of
        None \<Rightarrow> Inl (Conflict (Sentence Storage_released))
      | Some i \<Rightarrow>
        (case find_slot s i of
           Inl e \<Rightarrow> Inl e
         | Inr sl \<Rightarrow>
             Inr ((context_of (sup_settings s) sl (v_plan v) (v_plan_digest v) (v_binding v))
               \<lparr>ctx_inputs := capabilities sl (v_plan v) (progress_of v),
                ctx_prepared := (if has_runtime v then v_prepared_runtime v else None)\<rparr>)))"

definition offer_of :: "supervisor \<Rightarrow> offer res" where
  "offer_of s = (case led_offer (sup_ledger s) of None \<Rightarrow> Inl (Conflict (Sentence Offer_absent)) | Some x \<Rightarrow> Inr x)"

definition current :: "attempt_value \<Rightarrow> reading \<Rightarrow> supervisor \<Rightarrow> unit res" where
  "current v now s =
     (if \<not> value_active v now then Inl (Conflict (Reason ''execution_lease_expired''))
      else if stop_asked v then Inl (Conflict (Reason ''execution_stop_requested''))
      else if \<not> valid_plan (v_plan v) then Inl ValueError
      else (case offer_of s of
          Inl e \<Rightarrow> Inl e
        | Inr offer \<Rightarrow>
          (case refusal offer (plan_project_id (v_plan v)) (plan_job (v_plan v)) (wall now) True of
             Some reason \<Rightarrow> Inl (Conflict (Reason reason))
           | None \<Rightarrow> Inr ())))"

definition fenced_by :: "'a fence_scheme \<Rightarrow> supervisor \<Rightarrow> attempt_value res" where
  "fenced_by asked s = fenced (sup_ledger s) (f_attempt_id asked) (f_generation asked) (f_plan_digest asked)"

definition check :: "'a fence_scheme \<Rightarrow> reading \<Rightarrow> supervisor \<Rightarrow> attempt_value res" where
  "check asked now s =
     (case fenced_by asked s of
        Inl e \<Rightarrow> Inl e
      | Inr v \<Rightarrow> (case current v now s of Inl e \<Rightarrow> Inl e | Inr _ \<Rightarrow> Inr v))"

definition bind_request :: "bound_request \<Rightarrow> supervisor \<Rightarrow> unit res" where
  "bind_request r s =
     (if req_installation_id r \<noteq> set_installation_id (sup_settings s)
         \<or> Some (req_ledger_id r) \<noteq> led_ledger_id (sup_ledger s) \<or> req_admission_version r \<noteq> 1
      then Inl (Conflict (Sentence Other_installation)) else Inr ())"

text \<open>
  \<open>Supervisor.__init__\<close>: open the retained ledger, record the initial offer the first time, and
  refuse an offer of another mode or beyond the ceiling. The tables of work in progress start
  empty, whatever a previous process left.
\<close>

definition supervisor_init :: "settings \<Rightarrow> string \<Rightarrow> ledger \<Rightarrow> supervisor res" where
  "supervisor_init st token l =
     (case open_ledger (set_installation_id st) token l of
        Inl e \<Rightarrow> Inl e
      | Inr l1 \<Rightarrow>
        (case (if led_offer l1 = None then save_offer (set_initial_offer st) 0 l1 else Inr l1) of
           Inl e \<Rightarrow> Inl e
         | Inr l2 \<Rightarrow>
           let s = \<lparr>sup_settings = st, sup_ledger = l2, sup_pending = [], sup_cleanup_started = [],
                   sup_releasing = [], sup_input_busy = [], sup_hashes = [], sup_recovered = False\<rparr>
           in (case offer_of s of
                 Inl e \<Rightarrow> Inl e
               | Inr offer \<Rightarrow>
                   if off_mode offer \<noteq> set_mode st then Inl ValueError
                   else (case validate_offer offer (set_ceiling st) of Inl e \<Rightarrow> Inl e | Inr _ \<Rightarrow> Inr s))))"

section \<open>Admission\<close>

definition is_pending :: "string \<Rightarrow> supervisor \<Rightarrow> bool" where
  "is_pending i s \<longleftrightarrow> i \<in> fst ` set (sup_pending s)"

definition submit :: "string \<Rightarrow> work \<Rightarrow> unit sup_op" where
  "submit i w = modify (\<lambda>s. s\<lparr>sup_pending := AList.update i w (sup_pending s)\<rparr>)"

definition queue_preparation :: "attempt_value \<Rightarrow> unit sup_op" where
  "queue_preparation v s =
     (let i = plan_attempt_id (v_plan v) in
      if is_pending i s \<or> v_state v \<noteq> Prepared \<or> has_runtime v \<or> stop_asked v then (s, Inr ())
      else (case ctx s v of
          Inl e \<Rightarrow> (s, Inl e)
        | Inr c \<Rightarrow>
            if references (v_plan v) \<noteq> [] \<and> v_input_progress v = None then submit i Work_inputs s
            else if inputs_complete (v_plan v) (progress_of v) then submit i Work_prepare s
            else (s, Inr ())))"

text \<open>
  The background preparation; \<open>s1\<close> and \<open>s2\<close> are the states in which its two checks run.
\<close>

definition prepare_runtime :: "env \<Rightarrow> attempt_context \<Rightarrow> fence \<Rightarrow> supervisor \<Rightarrow> supervisor \<Rightarrow> json res" where
  "prepare_runtime e c asked s1 s2 =
     (case check asked (env_clock e 0) s1 of
        Inl x \<Rightarrow> Inl x
      | Inr _ \<Rightarrow>
        (case env_provider_ready e c of
           Inl x \<Rightarrow> Inl x
         | Inr ready \<Rightarrow>
             if \<not> ready then Inl ValueError
             else (case check asked (env_clock e 1) s2 of
                 Inl x \<Rightarrow> Inl x
               | Inr _ \<Rightarrow> env_provider_prepare e c)))"

definition slot_fits :: "supervisor \<Rightarrow> plan \<Rightarrow> slot \<Rightarrow> bool" where
  "slot_fits s p sl \<longleftrightarrow>
     Some (slot_id sl) \<notin> v_slot ` set (retained (sup_ledger s)) \<and>
     slot_storage_bytes sl \<le> storage_bytes (job_limits (plan_job p)) \<and>
     slot_storage_inodes sl \<le> storage_inodes (job_limits (plan_job p)) \<and>
     sum_list (map obj_bytes (job_inputs (plan_job p))) \<le> slot_storage_bytes sl"

definition slot_order :: "slot \<Rightarrow> slot \<Rightarrow> bool" where
  "slot_order a b \<longleftrightarrow> slot_storage_bytes a < slot_storage_bytes b \<or>
     slot_storage_bytes a = slot_storage_bytes b \<and>
       (slot_storage_inodes a < slot_storage_inodes b \<or>
        slot_storage_inodes a = slot_storage_inodes b \<and> slot_id a \<le> slot_id b)"

text \<open>\<open>sorted(choices, key=...)[0]\<close>: the first least element.\<close>

fun least_slot :: "slot list \<Rightarrow> slot option" where
  "least_slot [] = None"
| "least_slot (x # xs) =
     (case least_slot xs of None \<Rightarrow> Some x | Some y \<Rightarrow> if slot_order x y then Some x else Some y)"

definition choose_slot :: "supervisor \<Rightarrow> plan \<Rightarrow> slot res" where
  "choose_slot s p =
     (case least_slot (filter (slot_fits s p) (set_slots (sup_settings s))) of
        None \<Rightarrow> Inl (Conflict (Sentence No_slot_fits)) | Some sl \<Rightarrow> Inr sl)"

definition attempt_admission :: "env \<Rightarrow> admission \<Rightarrow> (attempt_value \<times> bool) sup_op" where
  "attempt_admission e a =
     andthen (lift (\<lambda>s. choose_slot s (adm_plan a))) (\<lambda>sl.
     andthen (lift (\<lambda>_. env_slot_probe e sl None True)) (\<lambda>binding s.
       txn (admit a (slot_id sl) binding (env_clock e 0) (of_int (set_maximum_lease_seconds (sup_settings s)))) s))"

text \<open>\<open>except (Conflict, ValueError, OSError)\<close>; \<open>Conflict\<close> is a \<open>ValueError\<close>, \<open>InputFailure\<close> a \<open>Conflict\<close>.\<close>

fun refused :: "exn \<Rightarrow> bool" where
  "refused ValueError = True"
| "refused (Conflict _) = True"
| "refused (InputFailure _) = True"
| "refused OSError = True"
| "refused _ = False"

definition prepare :: "env \<Rightarrow> admission \<Rightarrow> attempt_value sup_op" where
  "prepare e a =
     (let p = adm_plan a in
      andthen (lift (\<lambda>s. check_identity (sup_settings s) p)) (\<lambda>_ s.
        if get (sup_ledger s) (plan_attempt_id p) \<noteq> None
        then (s, fenced (sup_ledger s) (plan_attempt_id p) (plan_generation p) (digest_of_plan p))
        else (case attempt_admission e a s of
            (t, Inl x) \<Rightarrow>
              if refused x then txn (reject p (wall (env_clock e 1)) None) t else (t, Inl x)
          | (t, Inr (v, created)) \<Rightarrow>
              andthen (if created then queue_preparation v else give ()) (\<lambda>_. give v) t)))"

definition legacy_observation :: "env \<Rightarrow> plan \<Rightarrow> supervisor \<Rightarrow> slot \<Rightarrow> json res" where
  "legacy_observation e p s sl =
     (case env_slot_probe e sl None True of
        Inl x \<Rightarrow> Inl x
      | Inr binding \<Rightarrow>
          let c = context_of (sup_settings s) sl p (digest_of_plan p) (Some binding) in
          if env_staged_storage e c then Inl (Conflict (Sentence Retained_storage))
          else (case env_idle e c of
              Inl x \<Rightarrow> Inl x
            | Inr idle \<Rightarrow> Inr (JObj [(''binding'', binding), (''workload'', idle)])))"

fun collect_res :: "('a \<Rightarrow> 'b res) \<Rightarrow> 'a list \<Rightarrow> 'b list res" where
  "collect_res f [] = Inr []"
| "collect_res f (x # xs) =
     (case f x of Inl e \<Rightarrow> Inl e
      | Inr y \<Rightarrow> (case collect_res f xs of Inl e \<Rightarrow> Inl e | Inr ys \<Rightarrow> Inr (y # ys)))"

definition reject_absent :: "env \<Rightarrow> plan \<Rightarrow> bool \<Rightarrow> attempt_value sup_op" where
  "reject_absent e p legacy =
     andthen (lift (\<lambda>s. check_identity (sup_settings s) p)) (\<lambda>_ s.
       if get (sup_ledger s) (plan_attempt_id p) \<noteq> None
       then (s, fenced (sup_ledger s) (plan_attempt_id p) (plan_generation p) (digest_of_plan p))
       else if \<not> legacy then txn (reject p (wall (env_clock e 0)) None) s
       else andthen (lift (\<lambda>_. collect_res (legacy_observation e p s) (set_slots (sup_settings s))))
              (\<lambda>observed. txn (reject p (wall (env_clock e 0)) (Some (JArr observed)))) s)"

section \<open>Start, renewal, offer\<close>

definition start :: "env \<Rightarrow> fence \<Rightarrow> attempt_value sup_op" where
  "start e asked =
     andthen (lift (fenced_by asked)) (\<lambda>v.
       if v_state v = Prepared \<and> \<not> has_runtime v then fail (Conflict (Reason ''runtime_preparing''))
       else andthen (txn (start_requested asked (env_clock e 0))) (\<lambda>(w, first).
              if first then andthen (submit (f_attempt_id asked) Work_start) (\<lambda>_. give w) else give w))"

text \<open>The background launch; \<open>s1\<close>, \<open>s2\<close>, \<open>s3\<close> are the states of its three checks.\<close>

definition launch :: "env \<Rightarrow> fence \<Rightarrow> supervisor \<Rightarrow> supervisor \<Rightarrow> supervisor \<Rightarrow> json res" where
  "launch e asked s1 s2 s3 =
     (case check asked (env_clock e 0) s1 of
        Inl x \<Rightarrow> Inl x
      | Inr v \<Rightarrow>
        (case ctx s1 v of
           Inl x \<Rightarrow> Inl x
         | Inr c \<Rightarrow>
           (case env_slot_probe e (ctx_slot c) (v_binding v) True of
              Inl x \<Rightarrow> Inl x
            | Inr _ \<Rightarrow>
              (case env_provider_start e c of
                 Inl x \<Rightarrow> Inl x
               | Inr prepared \<Rightarrow>
                 (case check asked (env_clock e 1) s2 of
                    Inl x \<Rightarrow> Inl x
                  | Inr _ \<Rightarrow>
                    (case env_launch e c prepared of
                       Inl x \<Rightarrow> Inl x
                     | Inr _ \<Rightarrow>
                       (case check asked (env_clock e 2) s3 of Inl x \<Rightarrow> Inl x | Inr _ \<Rightarrow> Inr prepared)))))))"

definition sup_renew :: "env \<Rightarrow> renewal \<Rightarrow> attempt_value sup_op" where
  "sup_renew e q =
     andthen (lift (fenced_by q)) (\<lambda>v s.
       if stop_asked v then (s, Inl (Conflict (Sentence Stop_pending)))
       else txn (renew q (env_clock e 0) (of_int (set_maximum_lease_seconds (sup_settings s)))) s)"

text \<open>
  \<open>set_offer\<close> is one transaction: when an annotation raises, the new offer is rolled back too.
\<close>

fun stop_attempts :: "attempt_value list \<Rightarrow> ledger \<Rightarrow> ledger res" where
  "stop_attempts [] l = Inr l"
| "stop_attempts (v # vs) l =
     (if v_state v \<notin> terminal \<union> {Unknown, Released} \<and> \<not> stop_asked v
      then (case annotate (fence_of v) [Pending_stop ''cancelled''] l of
          Inl e \<Rightarrow> Inl e | Inr (l', _) \<Rightarrow> stop_attempts vs l')
      else stop_attempts vs l)"

definition set_offer :: "int \<Rightarrow> offer_settings \<Rightarrow> control \<Rightarrow> offer sup_op" where
  "set_offer expected os c s =
     (case validate_offer os (set_ceiling (sup_settings s)) of
        Inl e \<Rightarrow> (s, Inl e)
      | Inr _ \<Rightarrow>
        let v = offer_settings.extend os
              \<lparr>off_revision = expected + 1, off_mode = set_mode (sup_settings s), off_control = c\<rparr>
        in if \<not> valid_offer v then (s, Inl ValueError)
           else txn (\<lambda>l. case save_offer v expected l of
                Inl e \<Rightarrow> Inl e
              | Inr l1 \<Rightarrow>
                  if c = Stopped
                  then (case stop_attempts (retained l1) l1 of Inl e \<Rightarrow> Inl e | Inr l2 \<Rightarrow> Inr (l2, v))
                  else Inr (l1, v)) s)"

section \<open>Finishing an attempt\<close>

definition finish_result :: "attempt_value \<Rightarrow> wstate \<Rightarrow> string option \<Rightarrow> int option \<Rightarrow> int \<Rightarrow> int \<Rightarrow> bool \<Rightarrow> attempt_result" where
  "finish_result v st reason code ob eb cleanup =
     \<lparr>f_attempt_id = plan_attempt_id (v_plan v), f_generation = plan_generation (v_plan v),
      f_plan_digest = v_plan_digest v, res_state = st, res_reason = reason, res_exit_code = code,
      res_output_bytes = ob, res_error_bytes = eb, res_cleanup_confirmed = cleanup\<rparr>"

definition unconfirmed :: "attempt_value \<Rightarrow> attempt_result" where
  "unconfirmed v = finish_result v Unknown (Some ''cleanup_unconfirmed'') None 0 0 False"

text \<open>The outcome after the processes are stopped and the storage is verified.\<close>

definition outcome_result :: "attempt_value \<Rightarrow> observation option \<Rightarrow> string option \<Rightarrow> attempt_result res" where
  "outcome_result v observed reason =
     (let ob = (case observed of None \<Rightarrow> 0 | Some x \<Rightarrow> ob_stdout_bytes x);
          eb = (case observed of None \<Rightarrow> 0 | Some x \<Rightarrow> ob_stderr_bytes x);
          checked = (\<lambda>r. if valid_attempt_result r then Inr r else Inl ValueError)
      in case observed of
           Some x \<Rightarrow>
             if ob_phase x = ''finished'' \<and> v_payload_released v then
               (case ob_exit_code x of
                  None \<Rightarrow> Inl KeyError
                | Some code \<Rightarrow>
                    checked (finish_result v (if code = 0 then Succeeded else Failed) None (Some code) ob eb True))
             else if reason = Some ''cancelled'' then checked (finish_result v Cancelled reason None ob eb True)
             else if reason = Some ''expired'' then checked (finish_result v Expired reason None ob eb True)
             else if reason = Some ''prepare_failed'' then checked (finish_result v Failed reason None ob eb True)
             else checked (finish_result v Unknown reason None ob eb True)
         | None \<Rightarrow>
             if reason = Some ''cancelled'' then checked (finish_result v Cancelled reason None ob eb True)
             else if reason = Some ''expired'' then checked (finish_result v Expired reason None ob eb True)
             else if reason = Some ''prepare_failed'' then checked (finish_result v Failed reason None ob eb True)
             else checked (finish_result v Unknown reason None ob eb True))"

definition runtime_unknown :: "string option" where
  "runtime_unknown = Some ''runtime_outcome_unknown''"

text \<open>Everything \<open>finish\<close> learns from the world: a result to record, or a stop still pending.\<close>

definition finish_outcome :: "env \<Rightarrow> attempt_context \<Rightarrow> attempt_value \<Rightarrow> string option \<Rightarrow> string option + attempt_result" where
  "finish_outcome e c v reason =
     (let (observed, reason1) =
        (if has_runtime v then
           (case env_observe e c of Inl _ \<Rightarrow> (None, runtime_unknown) | Inr x \<Rightarrow> (Some x, reason))
         else (None, reason))
      in case env_stop e c of
           StopPending \<Rightarrow> Inl reason1
         | Stop_failed _ \<Rightarrow> Inr (unconfirmed v)
         | Stop_done \<Rightarrow>
           (case env_slot_probe e (ctx_slot c) (v_binding v) True of
              Inl _ \<Rightarrow> Inr (unconfirmed v)
            | Inr _ \<Rightarrow>
              (let (observed2, reason2) =
                 (if has_runtime v then
                    (case env_provider_stop e c of
                       Inl _ \<Rightarrow> (observed, runtime_unknown)
                     | Inr y \<Rightarrow> (if ob_phase y = ''finished'' then Some y else observed, reason1))
                  else (observed, reason1))
               in case outcome_result v observed2 reason2 of
                    Inl _ \<Rightarrow> Inr (unconfirmed v) | Inr r \<Rightarrow> Inr r)))"

definition cleanup_time :: "env \<Rightarrow> string \<Rightarrow> supervisor \<Rightarrow> rat" where
  "cleanup_time e i s = (case map_of (sup_cleanup_started s) i of None \<Rightarrow> env_monotonic e | Some x \<Rightarrow> x)"

text \<open>A cleanup retry cannot replace the recorded uncertain outcome.\<close>

definition retained_result :: "attempt_value \<Rightarrow> attempt_result \<Rightarrow> attempt_result" where
  "retained_result v r =
     (if v_state v = Unknown
      then r\<lparr>res_state := v_state v, res_reason := v_reason v, res_exit_code := v_exit_code v,
             res_output_bytes := v_output_bytes v, res_error_bytes := v_error_bytes v\<rparr>
      else r)"

definition sup_finish :: "env \<Rightarrow> attempt_value \<Rightarrow> string option \<Rightarrow> unit sup_op" where
  "sup_finish e v reason s =
     (if v_state v = Unknown \<and> v_cleanup_confirmed v then (s, Inr ())
      else (case ctx s v of
          Inl x \<Rightarrow> (s, Inl x)
        | Inr c \<Rightarrow>
          let i = plan_attempt_id (v_plan v) in
          (case finish_outcome e c v reason of
             Inl reason1 \<Rightarrow>
               let started_at = cleanup_time e i s;
                   s1 = s\<lparr>sup_cleanup_started := AList.update i started_at (sup_cleanup_started s)\<rparr>
               in if env_monotonic e - started_at \<ge> 10 then (s1, Inl ValueError)
                  else if \<not> stop_asked v \<and> v_state v \<noteq> Unknown
                  then andthen (txn (annotate (fence_of v)
                           [Pending_stop (case reason1 of None \<Rightarrow> ''runtime_outcome_unknown'' | Some r \<Rightarrow>
                              if r = [] then ''runtime_outcome_unknown'' else r)])) (\<lambda>_. give ()) s1
                  else (s1, Inr ())
           | Inr r \<Rightarrow>
               andthen (txn (no_value (finish (retained_result v r)))) (\<lambda>_.
                 if res_cleanup_confirmed r
                 then modify (\<lambda>s. s\<lparr>sup_cleanup_started := AList.delete i (sup_cleanup_started s)\<rparr>)
                 else give ()) s)))"

definition request_stop :: "env \<Rightarrow> 'a fence_scheme \<Rightarrow> string \<Rightarrow> attempt_value sup_op" where
  "request_stop e asked reason =
     andthen (lift (fenced_by asked)) (\<lambda>v.
       if v_state v \<in> terminal \<union> {Released} \<or> v_state v = Unknown \<and> v_cleanup_confirmed v then give v
       else
         andthen (if v_state v \<noteq> Unknown
                  then andthen (txn (annotate asked [Pending_stop reason])) (\<lambda>_. give ()) else give ()) (\<lambda>_.
         andthen (\<lambda>s. if is_pending (f_attempt_id asked) s then (s, Inr ()) else sup_finish e v (Some reason) s) (\<lambda>_.
           lift (\<lambda>s. case get (sup_ledger s) (f_attempt_id asked) of None \<Rightarrow> Inl KeyError | Some w \<Rightarrow> Inr w))))"

section \<open>Streaming inputs\<close>

record input_view =
  iv_object :: string
  iv_offset :: int
  iv_bytes :: int
  iv_digest :: string
  iv_complete :: bool

definition input_record :: "'a input_object_scheme \<Rightarrow> reading \<Rightarrow> supervisor
    \<Rightarrow> (attempt_value \<times> object_reference \<times> receipt) res" where
  "input_record q now s =
     (case check q now s of
        Inl e \<Rightarrow> Inl e
      | Inr v \<Rightarrow>
          if v_state v \<noteq> Prepared then Inl (Conflict (Reason ''input_not_prepared''))
          else (case find (\<lambda>r. obj_id r = in_object q \<and> obj_delivery r = Stream) (job_inputs (plan_job (v_plan v))) of
              None \<Rightarrow> Inl (Conflict (Reason ''input_not_declared''))
            | Some item \<Rightarrow>
              (case map_of (progress_of v) (in_object q) of
                 None \<Rightarrow> Inl (Conflict (Reason ''inputs_preparing''))
               | Some receipt \<Rightarrow> Inr (v, item, receipt))))"

definition input_status :: "'a input_object_scheme \<Rightarrow> reading \<Rightarrow> supervisor \<Rightarrow> input_view res" where
  "input_status q now s =
     (case input_record q now s of
        Inl e \<Rightarrow> Inl e
      | Inr (_, item, receipt) \<Rightarrow>
          Inr \<lparr>iv_object = obj_id item, iv_offset = rc_offset receipt, iv_bytes = obj_bytes item,
               iv_digest = obj_digest item, iv_complete = rc_complete receipt\<rparr>)"

text \<open>
  \<open>Inputs.write\<close>: the running hash of an input is the bytes it has absorbed; the checks of the
  lease run in the state \<open>s\<close>; the file itself is the environment's.
\<close>

definition inputs_write :: "env \<Rightarrow> attempt_context \<Rightarrow> object_reference \<Rightarrow> receipt \<Rightarrow> input_chunk \<Rightarrow> string
    \<Rightarrow> supervisor \<Rightarrow> (receipt \<times> string) res" where
  "inputs_write e c item receipt q data s =
     (case map_of (sup_hashes s) (f_attempt_id q, obj_id item) of
        None \<Rightarrow> Inl (InputFailure ''input_state_unavailable'')
      | Some absorbed \<Rightarrow>
          let changed = absorbed @ data;
              offset = rc_offset receipt + int (length data);
              done = (offset = obj_bytes item)
          in if done \<and> ''sha256:'' @ sha256_hex changed \<noteq> obj_digest item
             then Inl (InputFailure ''input_digest_mismatch'')
             else (case input_record q (env_clock e 1) s of
                 Inl x \<Rightarrow> Inl x
               | Inr _ \<Rightarrow>
                 (case env_write_file e c item receipt data done of
                    Inl x \<Rightarrow> Inl x
                  | Inr identity \<Rightarrow> Inr (\<lparr>rc_offset = offset, rc_complete = done, rc_identity = identity\<rparr>, changed))))"

definition input_begin :: "env \<Rightarrow> input_chunk \<Rightarrow> string
    \<Rightarrow> (input_view + attempt_context \<times> attempt_value \<times> object_reference \<times> receipt) sup_op" where
  "input_begin e q data s =
     (case input_record q (env_clock e 0) s of
        Inl x \<Rightarrow> (s, Inl x)
      | Inr (v, item, receipt) \<Rightarrow>
          if f_attempt_id q \<in> set (sup_input_busy s) then (s, Inl (Conflict (Reason ''input_busy'')))
          else if ch_offset q \<noteq> rc_offset receipt then (s, Inl (Conflict (Reason ''input_offset_changed'')))
          else if int (length data) > obj_bytes item - ch_offset q \<or> data = [] \<and> obj_bytes item \<noteq> 0
          then (s, Inl (Conflict (Reason ''input_size_mismatch'')))
          else if rc_complete receipt
          then (s, case input_status q (env_clock e 0) s of Inl x \<Rightarrow> Inl x | Inr w \<Rightarrow> Inr (Inl w))
          else
            let s1 = s\<lparr>sup_input_busy := f_attempt_id q # sup_input_busy s\<rparr>
            in (s1, case ctx s1 v of Inl x \<Rightarrow> Inl x | Inr c \<Rightarrow> Inr (Inr (c, v, item, receipt))))"

definition input_commit :: "env \<Rightarrow> input_chunk \<Rightarrow> object_reference \<Rightarrow> receipt \<Rightarrow> string \<Rightarrow> input_view sup_op" where
  "input_commit e q item saved hashed =
     andthen (lift (input_record q (env_clock e 2))) (\<lambda>(cur, _, _).
     andthen (txn (annotate q [Input_progress (AList.update (obj_id item) saved (progress_of cur))])) (\<lambda>v.
     andthen (modify (\<lambda>s. s\<lparr>sup_hashes := AList.update (f_attempt_id q, in_object q) hashed (sup_hashes s)\<rparr>)) (\<lambda>_.
     andthen (queue_preparation v) (\<lambda>_.
       lift (input_status q (env_clock e 3))))))"

definition input_failed :: "env \<Rightarrow> input_chunk \<Rightarrow> exn \<Rightarrow> 'a sup_op" where
  "input_failed e q x =
     andthen (lift (fenced_by q)) (\<lambda>cur.
       let reason = (case x of Conflict _ \<Rightarrow> ''expired'' | _ \<Rightarrow> ''prepare_failed'');
           asked = (case v_pending_stop cur of None \<Rightarrow> reason | Some r \<Rightarrow> if r = [] then reason else r)
       in andthen (request_stop e q asked) (\<lambda>_. fail x))"

definition input_idle :: "string \<Rightarrow> supervisor \<Rightarrow> supervisor" where
  "input_idle i s = s\<lparr>sup_input_busy := removeAll i (sup_input_busy s)\<rparr>"

definition input_write :: "env \<Rightarrow> (supervisor \<Rightarrow> supervisor) \<Rightarrow> input_chunk \<Rightarrow> input_view sup_op" where
  "input_write e others q s =
     (case decoded q of
        Inl x \<Rightarrow> (s, Inl x)
      | Inr data \<Rightarrow>
        (case input_begin e q data s of
           (s1, Inl x) \<Rightarrow> (s1, Inl x)
         | (s1, Inr (Inl view)) \<Rightarrow> (s1, Inr view)
         | (s1, Inr (Inr (c, v, item, receipt))) \<Rightarrow>
           let (s3, r) = handle
              (andthen (lift (\<lambda>_. env_slot_probe e (ctx_slot c) (v_binding v) True)) (\<lambda>_.
               andthen (lift (inputs_write e c item receipt q data)) (\<lambda>(saved, hashed).
                 input_commit e q item saved hashed)))
              (input_failed e q) (others s1)
           in (input_idle (f_attempt_id q) s3, r)))"

section \<open>Collection and release\<close>

definition collect :: "env \<Rightarrow> read_request \<Rightarrow> supervisor \<Rightarrow> read_result res" where
  "collect e q s =
     (case fenced_by q s of
        Inl x \<Rightarrow> Inl x
      | Inr v \<Rightarrow>
          if v_slot v = None \<and> v_admission_rejection v \<noteq> None \<and> v_state v \<noteq> Released then
            (if rd_object q \<notin> {''stdout'', ''stderr''} \<or> rd_offset q \<noteq> 0
             then Inl (Conflict (Sentence Rejected_no_output))
             else Inr \<lparr>rr_object = rd_object q, rr_offset = 0, rr_data = [], rr_next_offset = 0,
                       rr_total_bytes = 0, rr_eof = True, rr_complete = True,
                       rr_identity = digest (JObj [(''object'', JStr (rd_object q)),
                         (''rejected_plan'', JStr (v_plan_digest v))])\<rparr>)
          else (case ctx s v of
              Inl x \<Rightarrow> Inl x
            | Inr c \<Rightarrow>
              (case env_slot_probe e (ctx_slot c) (v_binding v) False of
                 Inl x \<Rightarrow> Inl x
               | Inr _ \<Rightarrow> env_provider_collect e c q (v_cleanup_confirmed v))))"

definition release_io :: "env \<Rightarrow> attempt_context \<Rightarrow> attempt_value \<Rightarrow> unit res" where
  "release_io e c v =
     (case env_slot_probe e (ctx_slot c) (v_binding v) True of
        Inl x \<Rightarrow> Inl x
      | Inr _ \<Rightarrow>
        (case env_provider_release e c of
           Inl x \<Rightarrow> Inl x
         | Inr _ \<Rightarrow>
           (case (if references (v_plan v) \<noteq> [] then env_remove_inputs e c else Inr ()) of
              Inl x \<Rightarrow> Inl x
            | Inr _ \<Rightarrow>
              (case env_slot_probe e (ctx_slot c) (v_binding v) True of Inl x \<Rightarrow> Inl x | Inr _ \<Rightarrow> Inr ()))))"

definition forget_hashes :: "string \<Rightarrow> supervisor \<Rightarrow> supervisor" where
  "forget_hashes i s = s\<lparr>sup_hashes := filter (\<lambda>((a, _), _). a \<noteq> i) (sup_hashes s)\<rparr>"

definition release_commit :: "fence \<Rightarrow> attempt_value \<Rightarrow> attempt_value sup_op" where
  "release_commit asked v =
     andthen (lift (fenced_by asked)) (\<lambda>cur.
       if v_slot cur \<noteq> v_slot v \<or> v_binding cur \<noteq> v_binding v then fail (Conflict (Sentence Binding_changed))
       else txn (release asked))"

definition sup_release :: "env \<Rightarrow> (supervisor \<Rightarrow> supervisor) \<Rightarrow> fence \<Rightarrow> attempt_value sup_op" where
  "sup_release e others asked s =
     (case fenced_by asked s of
        Inl x \<Rightarrow> (s, Inl x)
      | Inr v \<Rightarrow>
        let i = f_attempt_id asked in
        if v_state v = Released then (s, Inr v)
        else if v_state v \<notin> terminal \<union> {Unknown} \<or> \<not> v_cleanup_confirmed v \<or> is_pending i s
            \<or> i \<in> set (sup_input_busy s) \<or> i \<in> set (sup_releasing s)
        then (s, Inl (Conflict (Sentence Cleanup_unconfirmed)))
        else if v_slot v = None \<and> v_admission_rejection v \<noteq> None then txn (release asked) s
        else (case ctx s v of
            Inl x \<Rightarrow> (s, Inl x)
          | Inr c \<Rightarrow>
            let s1 = others (s\<lparr>sup_releasing := i # sup_releasing s\<rparr>);
                (s2, r) = (case release_io e c v of
                   Inl x \<Rightarrow> (s1, Inl x)
                 | Inr _ \<Rightarrow> release_commit asked v (if references (v_plan v) \<noteq> [] then forget_hashes i s1 else s1))
            in (s2\<lparr>sup_releasing := removeAll i (sup_releasing s2)\<rparr>, r)))"

section \<open>Snapshots\<close>

record slot_capacity =
  sc_id :: string
  sc_generation :: int
  sc_storage_bytes :: int
  sc_storage_inodes :: int
  sc_available :: bool
  sc_reason :: "string option"

record provider_capacity =
  pc_id :: string
  pc_package_digest :: string
  pc_available :: bool
  pc_reason :: "string option"

record snapshot =
  sn_installation_id :: string
  sn_ledger_id :: "string option"
  sn_admission_version :: int
  sn_endpoint_version :: int
  sn_input_chunk_bytes :: int
  sn_deployment_id :: string
  sn_node_id :: string
  sn_maximum_lease_seconds :: int
  sn_offer :: offer
  sn_slots :: "slot_capacity list"
  sn_providers :: "provider_capacity list"
  sn_available :: limits
  sn_attempts :: "public_attempt list"
  sn_next :: "string option"

definition slot_view :: "env \<Rightarrow> attempt_value list \<Rightarrow> slot \<Rightarrow> slot_capacity" where
  "slot_view e held sl =
     (let reason =
        (if list_ex (\<lambda>v. v_slot v = Some (slot_id sl)) held then Some ''reservation_retained''
         else (case env_slot_probe e sl None True of Inl _ \<Rightarrow> Some ''slot_unavailable'' | Inr _ \<Rightarrow> None))
      in \<lparr>sc_id = slot_id sl, sc_generation = slot_generation sl, sc_storage_bytes = slot_storage_bytes sl,
          sc_storage_inodes = slot_storage_inodes sl, sc_available = (reason = None), sc_reason = reason\<rparr>)"

definition available_resources :: "offer \<Rightarrow> attempt_value list \<Rightarrow> limits" where
  "available_resources offer held =
     (let active_held = filter (\<lambda>v. \<not> v_cleanup_confirmed v) held;
          left = (\<lambda>f vs. max 0 (f (off_limits offer) - total f vs));
          occupied = (\<Union>v\<in>set active_held. set (gpu_devices (job_limits (plan_job (v_plan v)))))
      in \<lparr>cpu_millis = left cpu_millis active_held, memory_bytes = left memory_bytes active_held,
          swap_bytes = left swap_bytes active_held, processes = left processes active_held,
          storage_bytes = left storage_bytes held, storage_inodes = left storage_inodes held,
          gpu_devices = filter (\<lambda>d. d \<notin> occupied) (gpu_devices (off_limits offer))\<rparr>)"

definition take_snapshot :: "env \<Rightarrow> string option \<Rightarrow> supervisor \<Rightarrow> snapshot res" where
  "take_snapshot e after s =
     (let l = sup_ledger s; (attempts, further) = page l after 64; held = retained l in
      case offer_of s of
        Inl x \<Rightarrow> Inl x
      | Inr offer \<Rightarrow>
        (case collect_res public attempts of
           Inl x \<Rightarrow> Inl x
         | Inr views \<Rightarrow>
             Inr \<lparr>sn_installation_id = set_installation_id (sup_settings s), sn_ledger_id = led_ledger_id l,
                  sn_admission_version = 1, sn_endpoint_version = 1, sn_input_chunk_bytes = 8 * 1024 * 1024,
                  sn_deployment_id = set_deployment_id (sup_settings s), sn_node_id = set_node_id (sup_settings s),
                  sn_maximum_lease_seconds = set_maximum_lease_seconds (sup_settings s), sn_offer = offer,
                  sn_slots = map (slot_view e held) (set_slots (sup_settings s)),
                  sn_providers = map (\<lambda>p. \<lparr>pc_id = prov_id p, pc_package_digest = prov_package_digest p,
                      pc_available = True, pc_reason = None\<rparr>) (set_providers (sup_settings s)),
                  sn_available = available_resources offer held, sn_attempts = views,
                  sn_next = (if further then Some (plan_attempt_id (v_plan (last attempts))) else None)\<rparr>))"

end
