(* ===== verification/Exec_Monitor.thy ===== *)
theory Exec_Monitor
  imports Exec_Supervisor
begin

text \<open>
  The lease monitor (\<open>src/ficc/execution/monitor.py\<close>): recovery after a restart, collecting
  finished background work, and the periodic tick that fences attempts whose authority is gone
  and releases the two payload barriers only after live checks.
\<close>

definition stop_reason :: "attempt_value \<Rightarrow> exn \<Rightarrow> string \<Rightarrow> string" where
  "stop_reason v x dflt =
     (if stop_asked v then the (v_pending_stop v)
      else case x of
        Conflict (Reason r) \<Rightarrow>
          if r = ''local_stopped'' then ''cancelled''
          else if r = ''execution_lease_expired'' then ''expired'' else dflt
      | _ \<Rightarrow> dflt)"

text \<open>In the loops every attempt has its own environment: what the world answers while it is handled.\<close>

definition monitor_recover :: "(string \<Rightarrow> env) \<Rightarrow> unit sup_op" where
  "monitor_recover es s =
     andthen (for_each (\<lambda>v. if v_state v \<notin> terminal \<and> \<not> v_cleanup_confirmed v
                            then sup_finish (es (plan_attempt_id (v_plan v))) v (Some ''supervisor_restarted'') else give ())
               (retained (sup_ledger s)))
       (\<lambda>_. modify (\<lambda>t. t\<lparr>sup_recovered := True\<rparr>)) s"

definition failure_reason :: "work \<Rightarrow> string" where
  "failure_reason w = (case w of Work_prepare \<Rightarrow> ''prepare_failed'' | Work_inputs \<Rightarrow> ''prepare_failed''
     | Work_engine_barrier \<Rightarrow> ''runtime_boundary_failed'' | Work_payload_barrier \<Rightarrow> ''runtime_boundary_failed''
     | Work_start \<Rightarrow> ''start_unconfirmed'')"

definition harvest_result :: "attempt_value \<Rightarrow> reading \<Rightarrow> future \<Rightarrow> unit sup_op" where
  "harvest_result v now result =
     (case result of
        Raised x \<Rightarrow> fail x
      | _ \<Rightarrow>
        andthen (lift (current v now)) (\<lambda>_.
          case result of
            Done_runtime j \<Rightarrow> andthen (txn (annotate (fence_of v) [Prepared_runtime j])) (\<lambda>_. give ())
          | Done_progress p \<Rightarrow> andthen (txn (annotate (fence_of v) [Input_progress p])) queue_preparation
          | _ \<Rightarrow> give ()))"

definition harvest_one :: "env \<Rightarrow> string \<times> work \<Rightarrow> unit sup_op" where
  "harvest_one e = (\<lambda>(i, w) s.
     (case env_future e i w of
        Not_done \<Rightarrow> (s, Inr ())
      | result \<Rightarrow>
          let s1 = s\<lparr>sup_pending := AList.delete i (sup_pending s)\<rparr> in
          (case get (sup_ledger s1) i of
             None \<Rightarrow> (s1, Inl KeyError)
           | Some v \<Rightarrow>
               handle (harvest_result v (env_clock e 0) result)
                 (\<lambda>x. sup_finish e v (Some (stop_reason v x (failure_reason w)))) s1)))"

definition harvest :: "(string \<Rightarrow> env) \<Rightarrow> unit sup_op" where
  "harvest es s = for_each (\<lambda>(i, w). harvest_one (es i) (i, w)) (sup_pending s) s"

definition unit_gone :: "unit_status \<Rightarrow> bool" where
  "unit_gone u \<longleftrightarrow> us_load_state u = Some ''not-found'' \<or> us_active_state u \<in> {Some ''failed'', Some ''inactive''} \<or>
     us_exit_timestamp u \<notin> {None, Some [], Some ''0''}"

text \<open>
  The approved devices of a prepared runtime come from the provider; \<open>positive\<close> and
  \<open>negative\<close> read them from its document.
\<close>

definition observe :: "(json \<Rightarrow> string list) \<Rightarrow> (json \<Rightarrow> string list) \<Rightarrow> env \<Rightarrow> attempt_value \<Rightarrow> unit sup_op" where
  "observe positive negative e v s =
     (case ctx s v of
        Inl x \<Rightarrow> (s, Inl x)
      | Inr c \<Rightarrow>
        (case env_observe e c of
           Inl x \<Rightarrow> (s, Inl x)
         | Inr cur \<Rightarrow>
           (case env_inspect e c of
              Inl x \<Rightarrow> (s, Inl x)
            | Inr u \<Rightarrow>
              let i = plan_attempt_id (v_plan v) in
              if ob_phase cur = ''finished'' then sup_finish e v None s
              else if unit_gone u then sup_finish e v runtime_unknown s
              else if ob_phase cur = ''ready'' \<and> \<not> v_engine_released v then
                (case v_prepared_runtime v of
                   None \<Rightarrow> (s, Inl KeyError)
                 | Some rt \<Rightarrow>
                     if ob_device_probe cur \<noteq> map (\<lambda>n. (n, 0)) (positive rt) @ map (\<lambda>n. (n, 1)) (negative rt)
                     then (s, Inl ValueError) else submit i Work_engine_barrier s)
              else if ob_phase cur = ''payload'' \<and> \<not> v_payload_released v then submit i Work_payload_barrier s
              else (s, Inr ()))))"

definition barrier_work :: "work \<Rightarrow> bool" where
  "barrier_work w \<longleftrightarrow> w \<in> {Work_start, Work_engine_barrier, Work_payload_barrier}"

definition tick_unknown :: "env \<Rightarrow> attempt_value \<Rightarrow> unit sup_op" where
  "tick_unknown e v =
     andthen (sup_finish e v (v_reason v)) (\<lambda>_ s.
       let i = plan_attempt_id (v_plan v) in
       case get (sup_ledger s) i of
         None \<Rightarrow> (s, Inl KeyError)
       | Some w \<Rightarrow>
           if v_cleanup_confirmed w \<or> i \<in> fst ` set (sup_cleanup_started s) then (s, Inr ())
           else (case ctx s v of
               Inl x \<Rightarrow> (s, Inl x)
             | Inr c \<Rightarrow>
               (case env_inspect e c of
                  Inl x \<Rightarrow> (s, Inl x)
                | Inr u \<Rightarrow>
                    if us_active_state u \<notin> {None, Some ''inactive'', Some ''failed''} \<or> env_processes e (slot_uid (ctx_slot c))
                    then (s, Inl ValueError) else (s, Inr ()))))"

definition tick_lost :: "env \<Rightarrow> attempt_value \<Rightarrow> exn \<Rightarrow> unit sup_op" where
  "tick_lost e v x =
     (let reason = stop_reason v x ''expired''; i = plan_attempt_id (v_plan v) in
      andthen (txn (annotate (fence_of v) [Pending_stop reason])) (\<lambda>_ s.
        case map_of (sup_pending s) i of
          Some w \<Rightarrow>
            if barrier_work w then
              (case ctx s v of
                 Inl y \<Rightarrow> (s, Inl y)
               | Inr c \<Rightarrow> (case env_stop e c of Stop_failed y \<Rightarrow> (s, Inl y) | _ \<Rightarrow> (s, Inl ValueError)))
            else (s, Inr ())
        | None \<Rightarrow> sup_finish e v (Some reason) s))"

definition tick_one :: "(json \<Rightarrow> string list) \<Rightarrow> (json \<Rightarrow> string list) \<Rightarrow> env \<Rightarrow> attempt_value \<Rightarrow> unit sup_op" where
  "tick_one positive negative e v s =
     (if v_state v = Unknown \<and> \<not> v_cleanup_confirmed v then tick_unknown e v s
      else if v_state v \<in> terminal \<union> {Released, Unknown} then (s, Inr ())
      else (case current v (env_clock e 1) s of
          Inl x \<Rightarrow> tick_lost e v x s
        | Inr _ \<Rightarrow>
            if is_pending (plan_attempt_id (v_plan v)) s \<or> v_state v = Prepared then (s, Inr ())
            else handle (observe positive negative e v) (\<lambda>x. sup_finish e v (Some ''runtime_boundary_failed'')) s))"

definition tick :: "(json \<Rightarrow> string list) \<Rightarrow> (json \<Rightarrow> string list) \<Rightarrow> (string \<Rightarrow> env) \<Rightarrow> unit sup_op" where
  "tick positive negative es =
     andthen (harvest es) (\<lambda>_ s.
       for_each (\<lambda>v. tick_one positive negative (es (plan_attempt_id (v_plan v))) v) (retained (sup_ledger s)) s)"

text \<open>
  The background release of a barrier, in four parts between which other threads run: the
  checks (with the payload inspection for the second barrier), the start record, the marker file
  (\<open>marker\<close> tells whether it is already there; a new one is published after a check), and the
  annotation.
\<close>

definition barrier_started :: "env \<Rightarrow> fence \<Rightarrow> json \<Rightarrow> unit sup_op" where
  "barrier_started e asked inspected =
     andthen (lift (check asked (env_clock e 1))) (\<lambda>_. txn (no_value (started asked inspected)))"

definition barrier_marked :: "env \<Rightarrow> fence \<Rightarrow> bool \<Rightarrow> unit sup_op" where
  "barrier_marked e asked payload_barrier =
     andthen (lift (check asked (env_clock e 3))) (\<lambda>_.
     andthen (txn (annotate asked [if payload_barrier then Payload_released True else Engine_released True])) (\<lambda>_. give ()))"

definition barrier_release :: "env \<Rightarrow> (attempt_context \<Rightarrow> json res) \<Rightarrow> (attempt_context \<Rightarrow> unit res) \<Rightarrow>
    (attempt_context \<Rightarrow> bool res) \<Rightarrow> (supervisor \<Rightarrow> supervisor) \<Rightarrow> fence \<Rightarrow> attempt_value \<Rightarrow> bool \<Rightarrow> unit sup_op" where
  "barrier_release e inspect_payload controls marker others asked v payload_barrier s =
     (case ctx s v of
        Inl x \<Rightarrow> (s, Inl x)
      | Inr c \<Rightarrow>
        andthen (lift (check asked (env_clock e 0))) (\<lambda>_.
        andthen (lift (\<lambda>_. controls c)) (\<lambda>_.
        andthen (if payload_barrier then
             andthen (lift (\<lambda>_. inspect_payload c)) (\<lambda>inspected.
             andthen (lift (\<lambda>_. env_slot_probe e (ctx_slot c) (v_binding v) False)) (\<lambda>_.
               (\<lambda>t. barrier_started e asked inspected (others t))))
           else give ()) (\<lambda>_.
        andthen (lift (\<lambda>_. marker c)) (\<lambda>present.
        andthen (if present then give () else andthen (lift (check asked (env_clock e 2))) (\<lambda>_. give ())) (\<lambda>_ t.
          barrier_marked e asked payload_barrier (others t)))))) s)"

end
