(* ===== verification/Exec_Supervisor_Inv.thy ===== *)
theory Exec_Supervisor_Inv
  imports Exec_Monitor
begin

text \<open>
  Every operation of the supervisor and of the monitor is a sequence of ledger transactions
  that the ledger's transition system allows: it meets the contract of \<open>Ledger.finish\<close>, changes
  no other attempt, and keeps the settings.
\<close>

section \<open>Relations that operations respect\<close>

locale effect_relation =
  fixes R :: "supervisor \<Rightarrow> supervisor \<Rightarrow> bool"
  assumes R_refl: "R s s" and R_trans: "R s t \<Longrightarrow> R t u \<Longrightarrow> R s u"
begin

lemma R_give: "R s (fst (give x s))" "R s (fst (fail e s))" "R s (fst (lift f s))"
  by (simp_all add: give_def fail_def lift_def R_refl)

lemma R_andthen:
  assumes "R s (fst (m s))" and "\<And>x t. m s = (t, Inr x) \<Longrightarrow> R t (fst (k x t))"
  shows "R s (fst (andthen m k s))"
proof (cases "m s")
  case (Pair t r)
  then show ?thesis using assms R_trans by (cases r) (auto simp: andthen_def)
qed

lemma R_handle:
  assumes "R s (fst (m s))" and "\<And>e t. m s = (t, Inl e) \<Longrightarrow> R t (fst (h e t))"
  shows "R s (fst (handle m h s))"
proof (cases "m s")
  case (Pair t r)
  then show ?thesis using assms R_trans by (cases r) (auto simp: handle_def)
qed

lemma R_for_each:
  assumes "\<And>x xs s. Q (x # xs) s \<Longrightarrow> R s (fst (f x s))"
    and "\<And>x xs s t. Q (x # xs) s \<Longrightarrow> f x s = (t, Inr ()) \<Longrightarrow> Q xs t"
    and "Q xs s"
  shows "R s (fst (for_each f xs s))"
  using assms(3)
proof (induction xs arbitrary: s)
  case Nil
  then show ?case by (simp add: R_give)
next
  case (Cons x xs)
  show ?case unfolding for_each.simps
  proof (rule R_andthen)
    show "R s (fst (f x s))" by (rule assms(1) [OF Cons.prems])
    show "R t (fst (for_each f xs t))" if "f x s = (t, Inr u)" for u t
      using Cons.IH [OF assms(2) [OF Cons.prems]] that by simp
  qed
qed

end

text \<open>The retained offer is of the installed mode and within the administrator's ceiling.\<close>

definition offer_ok :: "supervisor \<Rightarrow> bool" where
  "offer_ok s \<longleftrightarrow> (\<exists>x. led_offer (sup_ledger s) = Some x \<and>
     validate_offer x (set_ceiling (sup_settings s)) = Inr () \<and> off_mode x = set_mode (sup_settings s))"

text \<open>
  \<open>sup_run I s t\<close>: from a ledger with the invariant the new ledger is reached by committed
  transactions that touch only attempts of \<open>I\<close>, the settings are the same, and an offer within
  the ceiling stays so.
\<close>

definition sup_run :: "string set \<Rightarrow> supervisor \<Rightarrow> supervisor \<Rightarrow> bool" where
  "sup_run I s t \<longleftrightarrow>
     (ledger_inv (sup_ledger s) \<longrightarrow> sup_settings t = sup_settings s \<and>
        ledger_step\<^sup>*\<^sup>* (sup_ledger s) (sup_ledger t) \<and>
        (\<forall>k. k \<notin> I \<longrightarrow> get (sup_ledger t) k = get (sup_ledger s) k) \<and> (offer_ok s \<longrightarrow> offer_ok t))"

interpretation eff: effect_relation "sup_run I" for I
proof
  show "sup_run I s s" for s by (simp add: sup_run_def)
  show "sup_run I s u" if "sup_run I s t" "sup_run I t u" for s t u
    using that led.run_inv unfolding sup_run_def by (metis rtranclp_trans)
qed

lemma sup_run_inv: "sup_run I s t \<Longrightarrow> ledger_inv (sup_ledger s) \<Longrightarrow> ledger_inv (sup_ledger t)"
  using led.run_inv unfolding sup_run_def by blast

lemma sup_run_mono: "sup_run I s t \<Longrightarrow> I \<subseteq> J \<Longrightarrow> sup_run J s t"
  by (auto simp: sup_run_def)

lemma sup_run_same: "sup_ledger t = sup_ledger s \<Longrightarrow> sup_settings t = sup_settings s \<Longrightarrow> sup_run I s t"
  by (simp add: sup_run_def offer_ok_def)

text \<open>A transaction that is a step of the ledger and changes at most the attempt \<open>i\<close>.\<close>

lemma sup_run_txn:
  assumes "\<And>l x. f (sup_ledger s) = Inr (l, x) \<Longrightarrow> ledger_inv (sup_ledger s) \<Longrightarrow>
      ledger_step (sup_ledger s) l \<and> (\<forall>k. k \<notin> I \<longrightarrow> get l k = get (sup_ledger s) k)"
    and "\<And>l x. f (sup_ledger s) = Inr (l, x) \<Longrightarrow> led_offer l = led_offer (sup_ledger s)"
  shows "sup_run I s (fst (txn f s))"
  using assms by (auto simp: txn_def sup_run_def offer_ok_def split: sum.splits)

text \<open>No transaction on an attempt changes the offer.\<close>

lemma insert_devices_offer: "insert_devices ds i l = Inr t \<Longrightarrow> led_offer t = led_offer l"
  by (induction ds arbitrary: l) (fastforce split: if_splits)+

lemma reserve_offer: "reserve p sl b now l = Inr (t, v) \<Longrightarrow> led_offer t = led_offer l"
  by (auto simp: reserve_def insert_attempt_def Let_def dest!: insert_devices_offer split: option.splits if_splits sum.splits)

lemma renew_offer: "renew q now m l = Inr (t, v) \<Longrightarrow> led_offer t = led_offer l"
  by (auto elim!: renew_cases)

lemma ledger_offers:
  "annotate f as l = Inr (t, v) \<Longrightarrow> led_offer t = led_offer l"
  "reject p tm obs l = Inr (t, v) \<Longrightarrow> led_offer t = led_offer l"
  "start_requested f now l = Inr (t, v, c) \<Longrightarrow> led_offer t = led_offer l"
  "started f b l = Inr t \<Longrightarrow> led_offer t = led_offer l"
  "release f l = Inr (t, v) \<Longrightarrow> led_offer t = led_offer l"
  "finish r l = Inr t \<Longrightarrow> led_offer t = led_offer l"
  by (auto simp: annotate_def reject_def insert_attempt_def start_requested_def started_def release_def finish_def Let_def
      split: sum.splits if_splits option.splits)

lemma admit_offer: "admit a sl b now m l = Inr (t, v, c) \<Longrightarrow> led_offer t = led_offer l"
  by (erule admit_cases) (metis reserve_offer, metis reserve_offer renew_offer)

section \<open>Ledger transactions and the other attempts\<close>

lemma truncate_fence: "f_attempt_id (fence.truncate f) = f_attempt_id f"
  "f_generation (fence.truncate f) = f_generation f" "f_plan_digest (fence.truncate f) = f_plan_digest f"
  by (simp_all add: fence.truncate_def)

lemma annotate_truncate: "annotate f as l = annotate (fence.truncate f) as l"
  by (simp add: annotate_def truncate_fence)

lemma annotate_effect:
  assumes "annotate f as l = Inr (t, v)" "ledger_inv l"
  shows "ledger_step l t" "\<exists>u. changed l (f_attempt_id f) u v t \<and> v_state v = v_state u \<and>
    v_cleanup_confirmed v = v_cleanup_confirmed u \<and> v_slot v = v_slot u \<and> v = fold annotation_update as u"
proof -
  show "ledger_step l t" by (rule step_annotate [OF assms(1) [unfolded annotate_truncate [of f]]])
  obtain u where u: "fenced l (f_attempt_id f) (f_generation f) (f_plan_digest f) = Inr u"
    using assms(1) by (auto simp: annotate_def split: sum.splits)
  have t: "t = save (fold annotation_update as u) l" "v = fold annotation_update as u"
    using assms(1) unfolding annotate_def u by (auto simp: Let_def split: if_splits)
  show "\<exists>u. changed l (f_attempt_id f) u v t \<and> v_state v = v_state u \<and>
    v_cleanup_confirmed v = v_cleanup_confirmed u \<and> v_slot v = v_slot u \<and> v = fold annotation_update as u"
    using changed_save(1) [OF assms(2) u, of v] t by (intro exI [of _ u]) simp
qed

lemma changed_frame: "changed l i u v t \<Longrightarrow> k \<notin> {i} \<Longrightarrow> get t k = get l k"
  by (simp add: changed_def)

lemma inserted_frame: "inserted l i v t \<Longrightarrow> k \<notin> {i} \<Longrightarrow> get t k = get l k"
  by (simp add: inserted_def)

lemma run_annotate: "sup_run {f_attempt_id f} s (fst (txn (annotate f as) s))"
  by (rule sup_run_txn) (use annotate_effect changed_frame ledger_offers(1) in metis)+

lemma run_reject:
  assumes "valid_plan p"
  shows "sup_run {plan_attempt_id p} s (fst (txn (reject p now obs) s))"
  by (rule sup_run_txn) (use assms step_reject reject_effect inserted_frame ledger_offers(2) in metis)+

lemma run_admit:
  assumes "valid_admission a"
  shows "sup_run {plan_attempt_id (adm_plan a)} s (fst (txn (admit a sl b now m) s))"
proof (rule sup_run_txn)
  fix l x assume a: "admit a sl b now m (sup_ledger s) = Inr (l, x)" and inv: "ledger_inv (sup_ledger s)"
  obtain v c where x: "x = (v, c)" by (cases x)
  show "ledger_step (sup_ledger s) l \<and> (\<forall>k. k \<notin> {plan_attempt_id (adm_plan a)} \<longrightarrow> get l k = get (sup_ledger s) k)"
    using step_admit [OF assms a [unfolded x]] admit_effect [OF inv assms a [unfolded x]] inserted_frame by metis
qed (use admit_offer in \<open>metis surj_pair\<close>)

lemma run_renew: "sup_run {f_attempt_id q} s (fst (txn (renew q now m) s))"
  by (rule sup_run_txn) (use step_renew renew_effect changed_frame renew_offer in metis)+

lemma start_effect:
  assumes "start_requested f now l = Inr (t, v, b)" "ledger_inv l"
  shows "t = l \<or> (\<exists>u. changed l (f_attempt_id f) u v t)"
proof -
  obtain u where u: "fenced l (f_attempt_id f) (f_generation f) (f_plan_digest f) = Inr u"
      and t: "t = l \<or> t = save (u\<lparr>v_state := Starting\<rparr>) l \<and> v = u\<lparr>v_state := Starting\<rparr>"
    using assms(1) by (auto simp: start_requested_def Let_def split: sum.splits if_splits option.splits)
  then show ?thesis using changed_save(1) [OF assms(2) u, of "u\<lparr>v_state := Starting\<rparr>"] by auto
qed

lemma run_start_requested: "sup_run {f_attempt_id f} s (fst (txn (start_requested (f :: fence) now) s))"
proof (rule sup_run_txn)
  fix l x assume a: "start_requested f now (sup_ledger s) = Inr (l, x)" and inv: "ledger_inv (sup_ledger s)"
  obtain v c where x: "x = (v, c)" by (cases x)
  show "ledger_step (sup_ledger s) l \<and> (\<forall>k. k \<notin> {f_attempt_id f} \<longrightarrow> get l k = get (sup_ledger s) k)"
    using step_start [OF a [unfolded x]] start_effect [OF a [unfolded x] inv] changed_frame by metis
qed (use ledger_offers(3) in \<open>metis surj_pair\<close>)

lemma release_effect:
  assumes "release f l = Inr (t, v)" "ledger_inv l"
  shows "t = l \<or> (\<exists>u. changed l (f_attempt_id f) u v t)"
  using assms(1)
proof (cases rule: release_cases)
  case (first u)
  then show ?thesis using changed_save(2) [OF assms(2) first(1), of v] by auto
qed simp

lemma run_release: "sup_run {f_attempt_id f} s (fst (txn (release (f :: fence)) s))"
  by (rule sup_run_txn) (use step_release release_effect changed_frame ledger_offers(5) in metis)+

lemma finish_effect:
  assumes "finish r l = Inr t" "ledger_inv l"
  shows "\<exists>u. changed l (f_attempt_id r) u (finished r u) t"
  using assms(1)
proof (cases rule: finish_cases)
  case (1 u)
  then show ?thesis using changed_save [OF assms(2) 1(1), of "finished r u"] by auto
qed

lemma started_effect:
  assumes "started f b l = Inr t" "ledger_inv l"
  shows "\<exists>u v. changed l (f_attempt_id f) u v t \<and> v_state u = Starting \<and> v_state v = Running"
proof -
  obtain u where u: "fenced l (f_attempt_id f) (f_generation f) (f_plan_digest f) = Inr u" "v_state u = Starting"
      and t: "t = save (u\<lparr>v_state := Running, v_runtime_binding := Some b\<rparr>) l"
    using assms(1) by (auto simp: started_def split: sum.splits if_splits)
  have "changed l (f_attempt_id f) u (u\<lparr>v_state := Running, v_runtime_binding := Some b\<rparr>) t"
    using changed_save(1) [OF assms(2) u(1), of "u\<lparr>v_state := Running, v_runtime_binding := Some b\<rparr>"] t by simp
  then show ?thesis using u(2) by (intro exI conjI) auto
qed

lemma run_started: "sup_run {f_attempt_id f} s (fst (txn (no_value (started (f :: fence) b)) s))"
proof (rule sup_run_txn)
  fix l x assume a: "no_value (started f b) (sup_ledger s) = Inr (l, x)" and inv: "ledger_inv (sup_ledger s)"
  then have b: "started f b (sup_ledger s) = Inr l" by (auto simp: no_value_def split: sum.splits)
  show "ledger_step (sup_ledger s) l \<and> (\<forall>k. k \<notin> {f_attempt_id f} \<longrightarrow> get l k = get (sup_ledger s) k)"
    using step_started [OF b] started_effect [OF b inv] changed_frame by metis
qed (auto simp: no_value_def dest: ledger_offers(4) split: sum.splits)

section \<open>Finishing\<close>

text \<open>
  A document that is as recent as \<open>finish\<close> needs: when the ledger already records an uncertain
  outcome with confirmed cleanup, so does the document.
\<close>

definition recent :: "attempt_value \<Rightarrow> supervisor \<Rightarrow> bool" where
  "recent v s \<longleftrightarrow> (\<forall>u. get (sup_ledger s) (vid v) = Some u \<longrightarrow> v_state u = Unknown \<longrightarrow>
     v_cleanup_confirmed u \<longrightarrow> v_state v = Unknown \<and> v_cleanup_confirmed v)"

lemma recent_get: "get (sup_ledger s) (vid v) = Some v \<Longrightarrow> recent v s"
  by (simp add: recent_def)

lemma recent_frame: "recent v s \<Longrightarrow> get (sup_ledger t) (vid v) = get (sup_ledger s) (vid v) \<Longrightarrow> recent v t"
  by (simp add: recent_def)

lemma fence_of_id [simp]: "f_attempt_id (fence_of v) = vid v"
  by (simp add: fence_of_def vid_def)

lemma finish_result_id [simp]: "f_attempt_id (finish_result v st r c ob eb cl) = vid v"
  by (simp add: finish_result_def vid_def)

lemma outcome_result_id: "outcome_result v observed reason = Inr r \<Longrightarrow> f_attempt_id r = vid v"
  by (auto simp: outcome_result_def Let_def split: option.splits if_splits)

lemma finish_outcome_id: "finish_outcome e c v reason = Inr r \<Longrightarrow> f_attempt_id r = vid v"
  by (auto simp: finish_outcome_def Let_def unconfirmed_def dest: outcome_result_id
      split: stop_outcome.splits sum.splits prod.splits if_splits)

lemma retained_result_id [simp]: "f_attempt_id (retained_result v r) = f_attempt_id r"
  "res_cleanup_confirmed (retained_result v r) = res_cleanup_confirmed r"
  by (simp_all add: retained_result_def)

lemma run_finish_txn:
  assumes "recent v s" "\<not> (v_state v = Unknown \<and> v_cleanup_confirmed v)" "f_attempt_id r = vid v"
  shows "sup_run {vid v} s (fst (txn (no_value (finish r)) s))"
proof (rule sup_run_txn)
  fix l x assume a: "no_value (finish r) (sup_ledger s) = Inr (l, x)" and inv: "ledger_inv (sup_ledger s)"
  then have f: "finish r (sup_ledger s) = Inr l" by (auto simp: no_value_def split: sum.splits)
  have "keeps_cleanup r (sup_ledger s)"
    using f
  proof (cases rule: finish_cases)
    case (1 u)
    have u: "get (sup_ledger s) (f_attempt_id r) = Some u" by (rule fencedD(1) [OF 1(1)])
    have "res_cleanup_confirmed r" if c: "v_cleanup_confirmed u"
    proof -
      have "v_state u \<noteq> Unknown" using assms u c unfolding recent_def by metis
      moreover have "value_ok u" by (rule fenced_ok(1) [OF inv 1(1)])
      ultimately have "v_state u \<in> terminal"
        using c 1(2) by (cases "v_state u") (auto simp: value_ok_def terminal_def)
      then show ?thesis using 1(4,5) by simp
    qed
    then show ?thesis by (simp add: keeps_cleanup_def u)
  qed
  then show "ledger_step (sup_ledger s) l \<and> (\<forall>k. k \<notin> {vid v} \<longrightarrow> get l k = get (sup_ledger s) k)"
    using step_finish [OF _ f] finish_effect [OF f inv] changed_frame assms(3) by metis
qed (auto simp: no_value_def dest: ledger_offers(6) split: sum.splits)

lemma sup_finish_run:
  assumes "recent v s"
  shows "sup_run {vid v} s (fst (sup_finish e v reason s))"
proof (cases "v_state v = Unknown \<and> v_cleanup_confirmed v")
  case False
  show ?thesis
  proof (cases "ctx s v")
    case (Inr c)
    show ?thesis
    proof (cases "finish_outcome e c v reason")
      case (Inl reason1)
      let ?s1 = "s\<lparr>sup_cleanup_started := AList.update (vid v) (cleanup_time e (vid v) s) (sup_cleanup_started s)\<rparr>"
      let ?m = "andthen (txn (annotate (fence_of v)
                           [Pending_stop (case reason1 of None \<Rightarrow> ''runtime_outcome_unknown'' | Some r \<Rightarrow>
                              if r = [] then ''runtime_outcome_unknown'' else r)])) (\<lambda>_. give ())"
      have s1: "sup_run {vid v} s ?s1" by (rule sup_run_same) simp_all
      have "sup_run {vid v} ?s1 (fst (?m ?s1))"
        by (rule eff.R_andthen) (use run_annotate [of "fence_of v"] eff.R_give in auto)
      then have "sup_run {vid v} s (fst (?m ?s1))" by (rule eff.R_trans [OF s1])
      with s1 False \<open>ctx s v = Inr c\<close> Inl show ?thesis
        by (auto simp: sup_finish_def Let_def vid_def)
    next
      case (Inr r)
      have id: "f_attempt_id (retained_result v r) = vid v" using finish_outcome_id [OF Inr] by simp
      have "sup_run {vid v} s (fst (andthen (txn (no_value (finish (retained_result v r)))) (\<lambda>_.
                 if res_cleanup_confirmed r
                 then modify (\<lambda>s. s\<lparr>sup_cleanup_started := AList.delete (plan_attempt_id (v_plan v)) (sup_cleanup_started s)\<rparr>)
                 else give ()) s))"
        by (rule eff.R_andthen)
          (use run_finish_txn [OF assms False id] in \<open>auto simp: modify_def give_def intro: sup_run_same\<close>)
      with False \<open>ctx s v = Inr c\<close> Inr show ?thesis by (simp add: sup_finish_def Let_def eff.R_refl)
    qed
  qed (use False eff.R_refl in \<open>simp add: sup_finish_def\<close>)
qed (simp add: sup_finish_def eff.R_refl)

section \<open>Operations on attempts\<close>

lemma run_submit: "sup_run I s (fst (submit i w s))"
  by (simp add: submit_def modify_def sup_run_same)

lemma queue_preparation_run: "sup_run I s (fst (queue_preparation v s))"
  by (simp add: queue_preparation_def Let_def run_submit eff.R_refl split: sum.splits)

lemma fenced_vid:
  assumes "fenced_by asked s = Inr v"
  shows "get (sup_ledger s) (f_attempt_id asked) = Some v"
  using assms fencedD(1) by (simp add: fenced_by_def)

lemma attempt_admission_run:
  assumes "valid_admission a"
  shows "sup_run {plan_attempt_id (adm_plan a)} s (fst (attempt_admission e a s))"
  unfolding attempt_admission_def
  by (intro eff.R_andthen eff.R_give) (auto simp: lift_def intro: run_admit [OF assms])

lemma prepare_run:
  assumes "valid_admission a"
  shows "sup_run {plan_attempt_id (adm_plan a)} s (fst (prepare e a s))"
proof -
  let ?i = "plan_attempt_id (adm_plan a)"
  have p: "valid_plan (adm_plan a)" using valid_admissionD(1) [OF assms] .
  show ?thesis unfolding prepare_def Let_def
  proof (rule eff.R_andthen)
    fix x t
    obtain u r where ur: "attempt_admission e a t = (u, r)" by (cases "attempt_admission e a t")
    have u: "sup_run {?i} t u" using attempt_admission_run [OF assms, of t e] ur by simp
    have "sup_run {?i} t (fst (txn (reject (adm_plan a) (wall (env_clock e 1)) None) u))"
      by (rule eff.R_trans [OF u run_reject [OF p]])
    moreover have "sup_run {?i} t (fst (andthen (if c then queue_preparation v else give ()) (\<lambda>_. give v) u))" for c v
      by (rule eff.R_trans [OF u], rule eff.R_andthen) (auto simp: queue_preparation_run eff.R_give)
    ultimately show "sup_run {?i} t (fst (if get (sup_ledger t) ?i \<noteq> None
        then (t, fenced (sup_ledger t) ?i (plan_generation (adm_plan a)) (digest_of_plan (adm_plan a)))
        else (case attempt_admission e a t of
            (t, Inl x) \<Rightarrow> if refused x then txn (reject (adm_plan a) (wall (env_clock e 1)) None) t else (t, Inl x)
          | (t, Inr (v, created)) \<Rightarrow>
              andthen (if created then queue_preparation v else give ()) (\<lambda>_. give v) t)))"
      using u by (cases r) (auto simp: ur eff.R_refl)
  qed (rule eff.R_give)
qed

lemma reject_absent_run:
  assumes "valid_plan p"
  shows "sup_run {plan_attempt_id p} s (fst (reject_absent e p legacy s))"
  unfolding reject_absent_def
proof (rule eff.R_andthen)
  fix x t
  have "sup_run {plan_attempt_id p} t (fst (andthen (lift (\<lambda>_. collect_res (legacy_observation e p t)
      (set_slots (sup_settings t)))) (\<lambda>observed. txn (reject p (wall (env_clock e 0)) (Some (JArr observed)))) t))"
    by (rule eff.R_andthen) (auto intro: eff.R_give run_reject [OF assms])
  then show "sup_run {plan_attempt_id p} t (fst (if get (sup_ledger t) (plan_attempt_id p) \<noteq> None
       then (t, fenced (sup_ledger t) (plan_attempt_id p) (plan_generation p) (digest_of_plan p))
       else if \<not> legacy then txn (reject p (wall (env_clock e 0)) None) t
       else andthen (lift (\<lambda>_. collect_res (legacy_observation e p t) (set_slots (sup_settings t))))
              (\<lambda>observed. txn (reject p (wall (env_clock e 0)) (Some (JArr observed)))) t))"
    using run_reject [OF assms] by (simp add: eff.R_refl)
qed (rule eff.R_give)

lemma start_run: "sup_run {f_attempt_id asked} s (fst (start e asked s))"
  unfolding start_def
  by (intro eff.R_andthen eff.R_give) (auto intro!: eff.R_andthen eff.R_give run_start_requested run_submit)

lemma sup_renew_run: "sup_run {f_attempt_id q} s (fst (sup_renew e q s))"
  unfolding sup_renew_def by (rule eff.R_andthen) (auto intro: eff.R_give eff.R_refl run_renew)

lemma request_stop_run: "sup_run {f_attempt_id asked} s (fst (request_stop e asked reason s))"
proof (cases "fenced_by asked s")
  case (Inr v)
  let ?i = "f_attempt_id asked"
  have v: "get (sup_ledger s) ?i = Some v" by (rule fenced_vid [OF Inr])
  let ?ann = "if v_state v \<noteq> Unknown then andthen (txn (annotate asked [Pending_stop reason])) (\<lambda>_. give ()) else give ()"
  let ?fin = "\<lambda>s. if is_pending ?i s then (s, Inr ()) else sup_finish e v (Some reason) s"
  have ann: "sup_run {?i} s (fst (?ann s))"
    by (auto intro!: eff.R_andthen eff.R_give run_annotate)
  show ?thesis
  proof (cases "ledger_inv (sup_ledger s)")
    case inv: True
    have id: "vid v = ?i" using get_in_vals [OF inv v] by simp
    have fin: "sup_run {?i} t (fst (?fin t))" if t: "?ann s = (t, Inr x)" for x t
    proof -
      have "recent v t"
      proof (cases "v_state v = Unknown")
        case False
        with t obtain l w where "annotate asked [Pending_stop reason] (sup_ledger s) = Inr (l, w)" "sup_ledger t = l"
          by (auto simp: andthen_def txn_def give_def split: sum.splits)
        with annotate_effect(2) [OF this(1) inv] v show ?thesis
          by (auto simp: recent_def changed_def id)
      qed (use t v id in \<open>auto simp: give_def recent_def\<close>)
      from sup_finish_run [OF this] show ?thesis by (simp add: id eff.R_refl)
    qed
    have "sup_run {?i} s (fst (andthen ?ann (\<lambda>_. andthen ?fin (\<lambda>_.
        lift (\<lambda>s. case get (sup_ledger s) ?i of None \<Rightarrow> Inl KeyError | Some w \<Rightarrow> Inr w))) s))"
    proof (rule eff.R_andthen)
      show "sup_run {?i} t (fst (andthen ?fin (\<lambda>_. lift (\<lambda>s. case get (sup_ledger s) ?i of
          None \<Rightarrow> Inl KeyError | Some w \<Rightarrow> Inr w)) t))" if "?ann s = (t, Inr x)" for x t
        by (rule eff.R_andthen) (use fin [OF that] in \<open>auto intro: eff.R_give\<close>)
    qed (rule ann)
    then show ?thesis
      unfolding request_stop_def by (subst andthen_def) (simp add: lift_def Inr give_def eff.R_refl)
  next
    case False
    then show ?thesis by (simp add: sup_run_def)
  qed
qed (simp add: request_stop_def andthen_def lift_def eff.R_refl)

section \<open>Offers, inputs, releases\<close>

lemma stop_attempts_steps:
  assumes "stop_attempts vs l = Inr t" "ledger_inv l"
  shows "ledger_step\<^sup>*\<^sup>* l t"
  using assms
proof (induction vs arbitrary: l)
  case (Cons v vs)
  show ?case
  proof (cases "v_state v \<notin> terminal \<union> {Unknown, Released} \<and> \<not> stop_asked v")
    case True
    then obtain m w where a: "annotate (fence_of v) [Pending_stop ''cancelled''] l = Inr (m, w)"
        and "stop_attempts vs m = Inr t"
      using Cons.prems(1) by (auto split: sum.splits)
    moreover have st: "ledger_step l m" by (rule annotate_effect(1) [OF a Cons.prems(2)])
    ultimately show ?thesis using Cons.IH ledger_step_inv Cons.prems(2) by (meson converse_rtranclp_into_rtranclp)
  qed (use Cons in auto)
qed simp

lemma stop_attempts_offer: "stop_attempts vs l = Inr t \<Longrightarrow> led_offer t = led_offer l"
proof (induction vs arbitrary: l)
  case (Cons v vs)
  then show ?case using ledger_offers(1) [of "fence_of v" "[Pending_stop ''cancelled'']" l]
    by (auto split: if_splits sum.splits)
qed simp

lemma set_offer_run: "sup_run UNIV s (fst (set_offer expected os c s))"
proof (cases "ledger_inv (sup_ledger s)")
  case inv: True
  define v where "v = offer_settings.extend os
      \<lparr>off_revision = expected + 1, off_mode = set_mode (sup_settings s), off_control = c\<rparr>"
  define f where "f = (\<lambda>l. case save_offer v expected l of
                Inl e \<Rightarrow> Inl e
              | Inr l1 \<Rightarrow>
                  if c = Stopped
                  then (case stop_attempts (retained l1) l1 of Inl e \<Rightarrow> Inl e | Inr l2 \<Rightarrow> Inr (l2, v))
                  else Inr (l1, v))"
  have "ledger_step\<^sup>*\<^sup>* (sup_ledger s) l" if h: "f (sup_ledger s) = Inr (l, x)" for l x
  proof -
    obtain l1 where o: "save_offer v expected (sup_ledger s) = Inr l1"
        and l: "l = l1 \<or> stop_attempts (retained l1) l1 = Inr l"
      using h by (auto simp: f_def split: sum.splits if_splits)
    have "ledger_step (sup_ledger s) l1" by (rule step_offer [OF o])
    with l show ?thesis using stop_attempts_steps ledger_step_inv inv
      by (meson converse_rtranclp_into_rtranclp r_into_rtranclp)
  qed
  moreover have "led_offer l = Some v" if h: "f (sup_ledger s) = Inr (l, x)" for l x
    using h by (auto simp: f_def save_offer_def Let_def dest!: stop_attempts_offer split: sum.splits if_splits)
  moreover have "validate_offer v b = validate_offer os b" for b :: offer_settings
    by (simp add: validate_offer_def v_def offer_settings.defs)
  moreover have "off_mode v = set_mode (sup_settings s)" by (simp add: v_def offer_settings.defs)
  ultimately have "validate_offer os (set_ceiling (sup_settings s)) = Inr () \<Longrightarrow> sup_run UNIV s (fst (txn f s))"
    by (auto simp: txn_def sup_run_def offer_ok_def split: sum.splits)
  then show ?thesis unfolding set_offer_def Let_def v_def [symmetric] f_def [symmetric]
    by (auto simp: eff.R_refl split: sum.splits)
qed (simp add: sup_run_def)

lemma run_modify_hashes: "sup_run I s (fst (modify (\<lambda>s. s\<lparr>sup_hashes := f s\<rparr>) s))"
  by (simp add: modify_def sup_run_same)

lemma input_commit_run: "sup_run {f_attempt_id q} s (fst (input_commit e q item saved hashed s))"
  unfolding input_commit_def
  by (intro eff.R_andthen eff.R_give)
    (auto intro!: eff.R_andthen eff.R_give run_annotate queue_preparation_run run_modify_hashes)

lemma input_failed_run: "sup_run {f_attempt_id q} s (fst (input_failed e q x s))"
  unfolding input_failed_def Let_def
  by (intro eff.R_andthen eff.R_give request_stop_run)

lemma input_begin_run: "sup_run I s (fst (input_begin e q data s))"
  by (auto simp: input_begin_def Let_def eff.R_refl intro: sup_run_same split: sum.splits)

lemma input_write_run:
  assumes "\<And>s. sup_run UNIV s (others s)"
  shows "sup_run UNIV s (fst (input_write e others q s))"
proof (cases "decoded q")
  case (Inr data)
  obtain s1 r where b: "input_begin e q data s = (s1, r)" by (cases "input_begin e q data s")
  have s1: "sup_run UNIV s s1" using input_begin_run [of UNIV s e q data] b by simp
  show ?thesis
  proof (cases r)
    case (Inr x)
    show ?thesis
    proof (cases x)
      case (Inr y)
      obtain c v item receipt where y: "y = (c, v, item, receipt)" by (cases y)
      let ?h = "handle
              (andthen (lift (\<lambda>_. env_slot_probe e (ctx_slot c) (v_binding v) True)) (\<lambda>_.
               andthen (lift (inputs_write e c item receipt q data)) (\<lambda>(saved, hashed).
                 input_commit e q item saved hashed)))
              (input_failed e q)"
      have "sup_run {f_attempt_id q} (others s1) (fst (?h (others s1)))"
        by (intro eff.R_handle eff.R_andthen eff.R_give input_failed_run) (auto intro: input_commit_run)
      then have "sup_run UNIV (others s1) (fst (?h (others s1)))" using sup_run_mono by blast
      then have h: "sup_run UNIV s (fst (?h (others s1)))" using assms s1 eff.R_trans by blast
      have "sup_run UNIV t (input_idle i t)" for i t by (simp add: input_idle_def sup_run_same)
      with h show ?thesis using eff.R_trans
        by (simp add: input_write_def \<open>decoded q = Inr data\<close> b Inr y \<open>r = Inr x\<close> case_prod_beta Let_def)
    qed (use s1 in \<open>simp add: input_write_def \<open>decoded q = Inr data\<close> b \<open>r = Inr x\<close>\<close>)
  qed (use s1 in \<open>simp add: input_write_def \<open>decoded q = Inr data\<close> b\<close>)
qed (simp add: input_write_def eff.R_refl)

lemma release_commit_run: "sup_run {f_attempt_id asked} s (fst (release_commit asked v s))"
  unfolding release_commit_def by (rule eff.R_andthen) (auto intro: eff.R_give run_release)

lemma sup_release_run:
  assumes "\<And>s. sup_run UNIV s (others s)"
  shows "sup_run UNIV s (fst (sup_release e others asked s))"
proof (cases "fenced_by asked s")
  case (Inr v)
  let ?i = "f_attempt_id asked"
  have rel: "sup_run UNIV s (fst (txn (release asked) s))" using run_release sup_run_mono by blast
  let ?s0 = "s\<lparr>sup_releasing := ?i # sup_releasing s\<rparr>"
  have s0: "sup_run UNIV s (others ?s0)"
    by (rule eff.R_trans [OF _ assms]) (simp add: sup_run_same)
  have com: "sup_run UNIV s (fst (release_commit asked v (if b then forget_hashes ?i (others ?s0) else others ?s0)))" for b
  proof -
    have "sup_run UNIV (others ?s0) (if b then forget_hashes ?i (others ?s0) else others ?s0)"
      by (simp add: forget_hashes_def sup_run_same)
    then show ?thesis using release_commit_run sup_run_mono s0 eff.R_trans by (meson subset_UNIV)
  qed
  have drop: "sup_run UNIV s t \<Longrightarrow> sup_run UNIV s (t\<lparr>sup_releasing := x\<rparr>)" for t x
    by (erule eff.R_trans) (simp add: sup_run_same)
  show ?thesis
    unfolding sup_release_def Inr Let_def sum.case
    using rel s0 com [of True] com [of False] by (auto simp: eff.R_refl case_prod_beta intro!: drop split: sum.splits)
qed (simp add: sup_release_def eff.R_refl)

section \<open>The monitor\<close>

lemma harvest_result_run:
  "sup_run {vid v} s (fst (harvest_result v now result s))"
  unfolding harvest_result_def
  by (cases result)
    (auto intro!: eff.R_andthen eff.R_give queue_preparation_run run_annotate [of "fence_of v", unfolded fence_of_id])

lemma queue_preparation_ledger: "sup_ledger (fst (queue_preparation v s)) = sup_ledger s"
  by (simp add: queue_preparation_def submit_def modify_def Let_def split: sum.splits)

lemma txn_annotate_recent:
  assumes "ledger_inv (sup_ledger s)" "recent v s"
  shows "recent v (fst (txn (annotate (fence_of v) as) s))"
proof (cases "annotate (fence_of v) as (sup_ledger s)")
  case (Inr p)
  obtain l w where p: "p = (l, w)" by (cases p)
  show ?thesis using annotate_effect(2) [OF Inr [unfolded p] assms(1)] assms(2)
    by (auto simp: txn_def Inr p recent_def changed_def)
qed (use assms(2) in \<open>simp add: txn_def\<close>)

lemma harvest_recent:
  assumes "ledger_inv (sup_ledger s)" "get (sup_ledger s) (vid v) = Some v" "harvest_result v now r s = (t, x)"
  shows "recent v t"
proof -
  note a = txn_annotate_recent [OF assms(1) recent_get [OF assms(2)]]
  have q: "recent v (fst (queue_preparation w u)) = recent v u" for w u
    by (simp add: recent_def queue_preparation_ledger)
  have t: "t = fst (harvest_result v now r s)" using assms(3) by simp
  have rs: "recent v s" by (rule recent_get [OF assms(2)])
  have ann: "recent v (fst (andthen (txn (annotate (fence_of v) as)) k s))"
    if "\<And>y u. recent v u \<Longrightarrow> recent v (fst (k y u))" for as k
    using a [of as] that by (cases "txn (annotate (fence_of v) as) s"; cases "snd (txn (annotate (fence_of v) as) s)")
      (auto simp: andthen_def)
  have ann_give: "recent v (fst (andthen (txn (annotate (fence_of v) as)) (\<lambda>_. give ()) s))" for as
    by (rule ann) (simp add: give_def)
  have ann_queue: "recent v (fst (andthen (txn (annotate (fence_of v) as)) queue_preparation s))" for as
    by (rule ann) (simp add: q)
  show ?thesis unfolding t harvest_result_def
    using rs ann_give ann_queue by (cases r; cases "current v now s") (auto simp: fail_def give_def lift_def andthen_def [of "lift _"])
qed

lemma harvest_one_run: "sup_run {i} s (fst (harvest_one e (i, w) s))"
proof (cases "ledger_inv (sup_ledger s)")
  case inv: True
  show ?thesis
  proof (cases "env_future e i w = Not_done")
    case False
    let ?s1 = "s\<lparr>sup_pending := AList.delete i (sup_pending s)\<rparr>"
    have s1: "sup_run {i} s ?s1" by (simp add: sup_run_same)
    show ?thesis
    proof (cases "get (sup_ledger ?s1) i")
      case None
      then show ?thesis using False s1 by (auto simp: harvest_one_def Let_def split: future.splits)
    next
      case (Some v)
      have id: "vid v = i" using get_in_vals [OF inv, of i v] Some by simp
      have "sup_run {i} ?s1 (fst (handle (harvest_result v (env_clock e 0) r)
                 (\<lambda>x. sup_finish e v (Some (stop_reason v x (failure_reason w)))) ?s1))" for r
      proof (rule eff.R_handle)
        show "sup_run {i} ?s1 (fst (harvest_result v (env_clock e 0) r ?s1))"
          using harvest_result_run [of v] id by simp
        fix x t assume t: "harvest_result v (env_clock e 0) r ?s1 = (t, Inl x)"
        have "recent v t" using t inv Some id by (intro harvest_recent) auto
        then show "sup_run {i} t (fst (sup_finish e v (Some (stop_reason v x (failure_reason w))) t))"
          using sup_finish_run id by metis
      qed
      then show ?thesis using False s1 Some eff.R_trans [OF s1]
        by (auto simp: harvest_one_def Let_def split: future.splits)
    qed
  qed (simp add: harvest_one_def eff.R_refl)
qed (simp add: sup_run_def)

lemma harvest_run: "sup_run UNIV s (fst (harvest es s))"
  unfolding harvest_def
proof (rule eff.R_for_each [where Q = "\<lambda>_ _. True"])
  fix x and s
  show "sup_run UNIV s (fst ((case x of (i, w) \<Rightarrow> harvest_one (es i) (i, w)) s))"
    using harvest_one_run sup_run_mono by (cases x) (simp, blast)
qed simp_all

lemma observe_run:
  assumes "recent v s"
  shows "sup_run {vid v} s (fst (observe positive negative e v s))"
  using sup_finish_run [OF assms]
  by (auto simp: observe_def Let_def eff.R_refl run_submit split: sum.splits option.splits)

text \<open>When \<open>finish\<close> or \<open>observe\<close> raises, it committed nothing.\<close>

lemma txn_Inl: "txn f s = (t, Inl x) \<Longrightarrow> sup_ledger t = sup_ledger s"
  by (auto simp: txn_def split: sum.splits)

lemma andthen_txn_Inl:
  assumes "andthen (txn f) k s = (t, Inl x)" "\<And>y u. \<exists>w z. k y u = (w, Inr z)"
  shows "sup_ledger t = sup_ledger s"
proof (cases "txn f s")
  case (Pair u r)
  show ?thesis
  proof (cases r)
    case (Inl y)
    then show ?thesis using assms(1) Pair txn_Inl [of f s u y] by (simp add: andthen_def)
  next
    case (Inr y)
    obtain w z where "k y u = (w, Inr z)" using assms(2) by blast
    then show ?thesis using assms(1) Pair Inr by (simp add: andthen_def)
  qed
qed

lemma sup_finish_Inl:
  assumes "sup_finish e v reason s = (t, Inl x)"
  shows "sup_ledger t = sup_ledger s"
  using assms
  by (auto simp: sup_finish_def Let_def give_def modify_def dest!: andthen_txn_Inl split: if_splits sum.splits)

lemma observe_Inl:
  assumes "observe positive negative e v s = (t, Inl x)"
  shows "sup_ledger t = sup_ledger s"
  using assms sup_finish_Inl
  by (auto simp: observe_def Let_def submit_def modify_def split: sum.splits option.splits if_splits)

lemma tick_unknown_run:
  assumes "recent v s"
  shows "sup_run {vid v} s (fst (tick_unknown e v s))"
  unfolding tick_unknown_def
  by (rule eff.R_andthen [where m = "sup_finish e v (v_reason v)"])
    (auto intro: sup_finish_run [OF assms] simp: Let_def eff.R_refl split: option.splits sum.splits)

lemma tick_lost_run:
  assumes "recent v s" "ledger_inv (sup_ledger s)"
  shows "sup_run {vid v} s (fst (tick_lost e v x s))"
  unfolding tick_lost_def Let_def
proof (rule eff.R_andthen)
  let ?m = "txn (annotate (fence_of v) [Pending_stop (stop_reason v x ''expired'')])"
  show "sup_run {vid v} s (fst (?m s))" using run_annotate [of "fence_of v"] by simp
  fix y t assume t: "?m s = (t, Inr y)"
  have r: "recent v t" using txn_annotate_recent [OF assms(2,1)] t by (metis fst_conv)
  show "sup_run {vid v} t (fst (case map_of (sup_pending t) (plan_attempt_id (v_plan v)) of
          Some w \<Rightarrow>
            if barrier_work w then
              (case ctx t v of
                 Inl y \<Rightarrow> (t, Inl y)
               | Inr c \<Rightarrow> (case env_stop e c of Stop_failed y \<Rightarrow> (t, Inl y) | _ \<Rightarrow> (t, Inl ValueError)))
            else (t, Inr ())
        | None \<Rightarrow> sup_finish e v (Some (stop_reason v x ''expired'')) t))"
    using sup_finish_run [OF r] by (auto simp: eff.R_refl split: option.splits sum.splits stop_outcome.splits)
qed

lemma tick_one_run:
  assumes "recent v s"
  shows "sup_run {vid v} s (fst (tick_one positive negative e v s))"
proof (cases "ledger_inv (sup_ledger s)")
  case inv: True
  have "sup_run {vid v} s (fst (handle (observe positive negative e v)
      (\<lambda>x. sup_finish e v (Some ''runtime_boundary_failed'')) s))"
  proof (rule eff.R_handle)
    fix x t assume "observe positive negative e v s = (t, Inl x)"
    then have "recent v t" using observe_Inl assms recent_frame by metis
    then show "sup_run {vid v} t (fst (sup_finish e v (Some ''runtime_boundary_failed'') t))" by (rule sup_finish_run)
  qed (rule observe_run [OF assms])
  then show ?thesis
    using tick_unknown_run [OF assms] tick_lost_run [OF assms inv]
    by (auto simp: tick_one_def eff.R_refl split: sum.splits)
qed (simp add: sup_run_def)

lemma retained_vals:
  assumes "ledger_inv l"
  shows "distinct (map vid (retained l))" "\<And>v. v \<in> set (retained l) \<Longrightarrow> get l (vid v) = Some v \<and> v_slot v \<noteq> None"
proof -
  have "distinct (map row_id (led_attempts l))"
  proof -
    have "map row_id (led_attempts l) = map vid (vals l)"
      using ledger_invD(1) [OF assms] vid_row by (auto simp: vals_def mirrored_def)
    then show ?thesis using ledger_invD(2) [OF assms] by simp
  qed
  then have "distinct (map row_id (all_rows l))"
    unfolding all_rows_def by (metis distinct_map distinct_sort set_sort)
  then have d: "distinct (map row_id (filter (\<lambda>r. row_slot r \<noteq> None) (all_rows l)))" by (rule distinct_map_filter)
  have ok: "row_ok r" "row_value r \<in> set (vals l)" if "r \<in> set (all_rows l)" for r
    using that ledger_invD(1) [OF assms] by (auto simp: all_rows_def mirrored_def vals_def)
  then have "map vid (retained l) = map row_id (filter (\<lambda>r. row_slot r \<noteq> None) (all_rows l))"
    by (simp add: retained_def vid_row)
  with d show "distinct (map vid (retained l))" by simp
  fix v assume "v \<in> set (retained l)"
  then obtain r where r: "r \<in> set (all_rows l)" "row_slot r \<noteq> None" "v = row_value r" by (auto simp: retained_def)
  then have "v_slot v = row_slot r" using ok(1) unfolding row_ok_def by (metis attempt_row.select_convs(6) value_row_def)
  with r ok(2) vals_get [OF assms] show "get l (vid v) = Some v \<and> v_slot v \<noteq> None" by simp
qed

text \<open>A loop over retained documents, each handled by an operation on its own attempt.\<close>

lemma loop_run:
  assumes "\<And>v s. recent v s \<Longrightarrow> sup_run {vid v} s (fst (f v s))"
  shows "sup_run UNIV s (fst (for_each f (retained (sup_ledger s)) s))"
proof (cases "ledger_inv (sup_ledger s)")
  case inv: True
  let ?Q = "\<lambda>vs s. ledger_inv (sup_ledger s) \<and> distinct (map vid vs) \<and> (\<forall>v\<in>set vs. recent v s)"
  show ?thesis
  proof (rule eff.R_for_each [where Q = ?Q])
    show "?Q (retained (sup_ledger s)) s" using inv retained_vals [OF inv] recent_get by blast
    fix x xs s assume q: "?Q (x # xs) s"
    then have r: "sup_run {vid x} s (fst (f x s))" using assms by simp
    then show "sup_run UNIV s (fst (f x s))" using sup_run_mono by blast
    fix t assume t: "f x s = (t, Inr ())"
    have "recent v t" if "v \<in> set xs" for v
    proof -
      have "vid v \<noteq> vid x" "recent v s" using q that by (auto simp: image_iff)
      then show ?thesis using r t q recent_frame unfolding sup_run_def by (metis fst_conv singletonD)
    qed
    moreover have "ledger_inv (sup_ledger t)" using sup_run_inv [OF r] q t by simp
    ultimately show "?Q xs t" using q by simp
  qed
qed (simp add: sup_run_def)

lemma tick_run: "sup_run UNIV s (fst (tick positive negative es s))"
  unfolding tick_def by (rule eff.R_andthen [OF harvest_run]) (rule loop_run, rule tick_one_run)

lemma monitor_recover_run: "sup_run UNIV s (fst (monitor_recover es s))"
  unfolding monitor_recover_def
  by (rule eff.R_andthen, rule loop_run)
    (auto intro: sup_finish_run eff.R_give sup_run_same simp: modify_def)

lemma barrier_release_run:
  assumes "\<And>s. sup_run UNIV s (others s)"
  shows "sup_run UNIV s (fst (barrier_release e inspect_payload controls marker others asked v payload s))"
proof -
  have bs: "sup_run UNIV t (fst (barrier_started e asked j (others t)))" for t j
  proof (rule eff.R_trans [OF assms])
    show "sup_run UNIV u (fst (barrier_started e asked j u))" for u
      unfolding barrier_started_def
      by (rule eff.R_andthen) (auto intro: eff.R_give sup_run_mono [OF run_started])
  qed
  have bm: "sup_run UNIV t (fst (barrier_marked e asked b (others t)))" for t b
  proof (rule eff.R_trans [OF assms])
    show "sup_run UNIV u (fst (barrier_marked e asked b u))" for u
      unfolding barrier_marked_def
      by (intro eff.R_andthen eff.R_give) (auto intro: sup_run_mono [OF run_annotate])
  qed
  show ?thesis
    unfolding barrier_release_def
    by (cases "ctx s v") (auto simp: eff.R_refl intro!: eff.R_andthen eff.R_give bs bm)
qed

end
