(* ===== verification/Exec_Supervisor_Props.thy ===== *)
theory Exec_Supervisor_Props
  imports Exec_Supervisor_Inv Exec_Spec_Props
begin

text \<open>
  The supervisor as a transition system over its operations, the monitor's ticks and restarts
  of the process, and the properties that span the supervisor, the monitor and the ledger.
\<close>

section \<open>The transition system\<close>

inductive sup_step :: "supervisor \<Rightarrow> supervisor \<Rightarrow> bool" where
  sup_restart: "supervisor_init (sup_settings s) token (sup_ledger s) = Inr t \<Longrightarrow> sup_step s t"
| sup_prepare: "valid_admission a \<Longrightarrow> sup_step s (fst (prepare e a s))"
| sup_reject: "valid_plan p \<Longrightarrow> sup_step s (fst (reject_absent e p legacy s))"
| sup_start: "sup_step s (fst (start e asked s))"
| sup_renewed: "sup_step s (fst (sup_renew e q s))"
| sup_offer: "sup_step s (fst (set_offer expected os c s))"
| sup_stop: "sup_step s (fst (request_stop e (asked :: fence) reason s))"
| sup_write: "(\<And>s. sup_run UNIV s (others s)) \<Longrightarrow> sup_step s (fst (input_write e others chunk s))"
| sup_released: "(\<And>s. sup_run UNIV s (others s)) \<Longrightarrow> sup_step s (fst (sup_release e others asked s))"
| sup_recover: "sup_step s (fst (monitor_recover es s))"
| sup_tick: "sup_step s (fst (tick positive negative es s))"
| sup_barrier: "(\<And>s. sup_run UNIV s (others s)) \<Longrightarrow>
    sup_step s (fst (barrier_release e inspect_payload controls marker others asked v payload s))"

lemma supervisor_init_run:
  assumes "supervisor_init st token l = Inr t"
  shows "ledger_step\<^sup>*\<^sup>* l (sup_ledger t)" "offer_ok t" "sup_settings t = st"
proof -
  obtain l1 where l1: "open_ledger (set_installation_id st) token l = Inr l1"
    using assms by (auto simp: supervisor_init_def split: sum.splits)
  note a = assms [unfolded supervisor_init_def l1 sum.case]
  obtain l2 where l2: "(if led_offer l1 = None then save_offer (set_initial_offer st) 0 l1 else Inr l1) = Inr l2"
    using a by (cases "if led_offer l1 = None then save_offer (set_initial_offer st) 0 l1 else Inr l1") auto
  note a = a [unfolded l2 sum.case]
  from a show "sup_settings t = st" "offer_ok t"
    by (auto simp: Let_def offer_of_def offer_ok_def split: sum.splits option.splits if_splits)
  have t: "sup_ledger t = l2" using a by (auto simp: Let_def split: sum.splits if_splits)
  have "ledger_step l l1" by (rule step_open [OF l1])
  moreover have "ledger_step\<^sup>*\<^sup>* l1 l2" using l2 step_offer by (auto split: if_splits)
  ultimately show "ledger_step\<^sup>*\<^sup>* l (sup_ledger t)" unfolding t by (rule converse_rtranclp_into_rtranclp)
qed

lemma sup_step_run: "sup_step s t \<Longrightarrow> sup_run UNIV s t"
proof (induction rule: sup_step.induct)
  case (sup_restart s token t)
  then show ?case using supervisor_init_run [OF sup_restart] by (simp add: sup_run_def)
next
  case (sup_prepare a s e)
  then show ?case by (rule sup_run_mono [OF prepare_run subset_UNIV])
next
  case (sup_reject p s e legacy)
  then show ?case by (rule sup_run_mono [OF reject_absent_run subset_UNIV])
next
  case (sup_start s e asked)
  show ?case by (rule sup_run_mono [OF start_run subset_UNIV])
next
  case (sup_renewed s e q)
  show ?case by (rule sup_run_mono [OF sup_renew_run subset_UNIV])
next
  case (sup_stop s e asked reason)
  show ?case by (rule sup_run_mono [OF request_stop_run subset_UNIV])
next
  case (sup_write others s e chunk)
  then show ?case by (rule input_write_run)
next
  case (sup_released others s e asked)
  then show ?case by (rule sup_release_run)
next
  case (sup_barrier others s e inspect_payload controls marker asked v payload)
  then show ?case by (rule barrier_release_run)
qed (rule set_offer_run monitor_recover_run tick_run)+

text \<open>The states a supervisor reaches from its first start on an empty ledger.\<close>

definition sup_first :: "supervisor \<Rightarrow> bool" where
  "sup_first s \<longleftrightarrow> (\<exists>st token. supervisor_init st token empty_ledger = Inr s)"

definition sup_inv :: "supervisor \<Rightarrow> bool" where
  "sup_inv s \<longleftrightarrow> ledger_reach (sup_ledger s) \<and> offer_ok s"

interpretation sup: refinement_system sup_first sup_step sup_inv sup_ledger "ledger_step\<^sup>*\<^sup>*"
proof
  show "sup_inv s" if "sup_first s" for s
  proof -
    obtain st token where i: "supervisor_init st token empty_ledger = Inr s" using \<open>sup_first s\<close> sup_first_def by auto
    have "ledger_reach empty_ledger" by (rule reach_start) simp
    then have "ledger_reach (sup_ledger s)" by (rule reach_run) (rule supervisor_init_run(1) [OF i])
    with supervisor_init_run(2) [OF i] show ?thesis by (simp add: sup_inv_def)
  qed
  show "sup_inv t" if "sup_step s t" "sup_inv s" for s t
  proof -
    have r: "ledger_reach (sup_ledger s)" "offer_ok s" using \<open>sup_inv s\<close> by (simp_all add: sup_inv_def)
    note u = sup_step_run [OF \<open>sup_step s t\<close>, unfolded sup_run_def, rule_format, OF led.reach_inv [OF r(1)]]
    have "ledger_reach (sup_ledger t)" by (rule reach_run [OF r(1)]) (use u in simp)
    with u r(2) show ?thesis by (simp add: sup_inv_def)
  qed
  show "ledger_step\<^sup>*\<^sup>* (sup_ledger s) (sup_ledger t)" if "sup_step s t" "sup_inv s" for s t
    using that sup_step_run [OF that(1)] led.reach_inv [of "sup_ledger s"] unfolding sup_inv_def sup_run_def by simp
qed

abbreviation sup_reach :: "supervisor \<Rightarrow> bool" where
  "sup_reach \<equiv> reach sup_first sup_step"

section \<open>A concrete supervisor\<close>

definition ex_sup0 :: supervisor where
  "ex_sup0 = \<lparr>sup_settings = ex_settings,
     sup_ledger = ex_led0, sup_pending = [], sup_cleanup_started = [], sup_releasing = [], sup_input_busy = [], sup_hashes = [],
     sup_recovered = False\<rparr>"

lemma ex_sup_init: "supervisor_init ex_settings (ex_id (CHR ''9'')) empty_ledger = Inr ex_sup0"
proof -
  have "validate_offer ex_offer ex_ceiling = Inr ()"
    by (simp add: validate_offer_def ex_offer_def ex_ceiling_def fits_refl list_ex_iff)
  moreover have "set_installation_id ex_settings = ex_id (CHR ''0'')" "set_initial_offer ex_settings = ex_offer"
    "set_ceiling ex_settings = ex_ceiling" "set_mode ex_settings = Voluntary"
    by (simp_all add: ex_settings_def)
  moreover have "led_offer ex_open = None" "led_offer ex_led0 = Some ex_offer" "off_mode ex_offer = Voluntary"
    by (simp_all add: ex_open_def ex_led0_def empty_ledger_def ex_offer_def)
  ultimately show ?thesis
    by (simp add: supervisor_init_def ex_open_step ex_offer_step offer_of_def ex_sup0_def)
qed

lemma ex_sup0_reach: "sup_reach ex_sup0"
  by (rule reach_start) (use ex_sup_init in \<open>auto simp: sup_first_def\<close>)

definition ex_env :: env where
  "ex_env = \<lparr>env_clock = (\<lambda>_. ex_reading), env_monotonic = 100, env_slot_probe = (\<lambda>_ _ _. Inl OSError),
     env_provider_ready = (\<lambda>_. Inr True), env_provider_prepare = (\<lambda>_. Inr JNull), env_provider_start = (\<lambda>_. Inr JNull),
     env_launch = (\<lambda>_ _. Inr ()), env_stop = (\<lambda>_. Stop_done), env_inspect = (\<lambda>_. Inl OSError),
     env_processes = (\<lambda>_. False), env_observe = (\<lambda>_. Inl OSError), env_provider_stop = (\<lambda>_. Inl OSError),
     env_provider_release = (\<lambda>_. Inr ()), env_provider_collect = (\<lambda>_ _ _. Inl OSError),
     env_staged_storage = (\<lambda>_. False), env_idle = (\<lambda>_. Inr JNull), env_write_file = (\<lambda>_ _ _ _ _. Inr JNull),
     env_remove_inputs = (\<lambda>_. Inr ()), env_future = (\<lambda>_ _. Not_done)\<rparr>"

text \<open>The first attempt is admitted, its runtime prepared in the background, and it is started.\<close>

definition ex_env2 :: env where
  "ex_env2 = ex_env\<lparr>env_slot_probe := \<lambda>_ _ _. Inr JNull, env_future := \<lambda>_ _. Done_runtime (JInt 1)\<rparr>"

definition ex_sup1 :: supervisor where
  "ex_sup1 = ex_sup0\<lparr>sup_ledger := ex_led1a, sup_pending := [(ex_id (CHR ''a''), Work_prepare)]\<rparr>"

definition ex_value1p :: attempt_value where
  "ex_value1p = ex_value1a\<lparr>v_prepared_runtime := Some (JInt 1)\<rparr>"

definition ex_led1p :: ledger where
  "ex_led1p = ex_led0\<lparr>led_attempts := [value_row ex_value1p], led_devices := [(''gpu0'', ex_id (CHR ''a''))]\<rparr>"

definition ex_sup2 :: supervisor where
  "ex_sup2 = ex_sup0\<lparr>sup_ledger := ex_led1p\<rparr>"

lemma ex_value1a_sel: "v_plan ex_value1a = ex_plan1" "v_plan_digest ex_value1a = digest_of_plan ex_plan1"
  "v_state ex_value1a = Prepared" "v_slot ex_value1a = Some ''slot-a''" "v_prepared_runtime ex_value1a = None"
  "v_pending_stop ex_value1a = None" "v_input_progress ex_value1a = None"
  by (simp_all add: ex_value1a_def ex_value1_sel) (simp_all add: renewed_def ex_value1_def new_value_def)

lemma ex_value1p_sel: "v_plan ex_value1p = ex_plan1" "v_plan_digest ex_value1p = digest_of_plan ex_plan1"
  "v_state ex_value1p = Prepared" "v_slot ex_value1p = Some ''slot-a''" "v_prepared_runtime ex_value1p = Some (JInt 1)"
  "v_pending_stop ex_value1p = None"
  by (simp_all add: ex_value1p_def ex_value1a_sel)

lemma ex_env2_sel: "env_clock ex_env2 n = ex_reading" "env_slot_probe ex_env2 a b c = Inr JNull"
  "env_future ex_env2 i w = Done_runtime (JInt 1)"
  by (simp_all add: ex_env2_def ex_env_def)

lemma ex_active: "value_active ex_value1a ex_reading" "value_active ex_value1p ex_reading"
  by (simp_all add: value_active_def active_def ex_value1p_def ex_value1a_def ex_lease_def ex_timing_def ex_reading_def)

lemma ex_no_references: "references ex_plan1 = []"
  by (simp add: references_def ex_plan1_def ex_plan_def ex_job_def)

lemma ex_choose: "choose_slot ex_sup0 ex_plan1 = Inr (ex_slot ''slot-a'' ''/srv/a'' 700)"
proof -
  have "retained ex_led0 = []" by (simp add: retained_def all_rows_def ex_led0_def empty_ledger_def)
  then show ?thesis
    by (simp add: choose_slot_def ex_sup0_def ex_settings_def slot_fits_def ex_slot_def ex_plan1_def ex_plan_def
        ex_job_def ex_limits_def slot_order_def less_eq_char_nat)
qed

lemma ex_prepare: "prepare ex_env2 ex_admission ex_sup0 = (ex_sup1, Inr ex_value1a)"
proof -
  have adm: "attempt_admission ex_env2 ex_admission ex_sup0 = (ex_sup0\<lparr>sup_ledger := ex_led1a\<rparr>, Inr (ex_value1a, True))"
    using ex_admit ex_choose
    by (simp add: attempt_admission_def andthen_def lift_def txn_def ex_env2_sel ex_admission_def)
      (simp add: ex_sup0_def ex_settings_def ex_slot_def)
  have id: "check_identity (sup_settings ex_sup0) ex_plan1 = Inr ()"
    by (simp add: check_identity_def ex_sup0_def ex_settings_def ex_plan1_def ex_plan_def)
  have new: "get (sup_ledger ex_sup0) i = None" for i
    by (simp add: ex_sup0_def ex_led0_def empty_ledger_def get_def find_row_def)
  have "queue_preparation ex_value1a (ex_sup0\<lparr>sup_ledger := ex_led1a\<rparr>) = (ex_sup1, Inr ())"
    by (simp add: queue_preparation_def ex_value1a_sel has_runtime_def stop_asked_def ctx_def find_slot_def find_row_def
        ex_no_references inputs_complete_def submit_def modify_def is_pending_def Let_def)
      (simp add: ex_sup0_def ex_sup1_def ex_settings_def ex_slot_def ex_value1_sel submit_def modify_def)
  then show ?thesis using adm id new
    by (simp add: prepare_def andthen_def lift_def give_def ex_admission_def)
qed

lemma ex_current: "current ex_value1a ex_reading s = Inr ()" "current ex_value1p ex_reading s = Inr ()"
  if "led_offer (sup_ledger s) = Some ex_offer"
  using that ex_active ex_valid(1)
  by (simp_all add: current_def ex_value1a_sel ex_value1p_sel stop_asked_def offer_of_def ex_plan1_def ex_refusal)

lemma ex_tick: "tick (\<lambda>_. []) (\<lambda>_. []) (\<lambda>_. ex_env2) ex_sup1 = (ex_sup2, Inr ())"
proof -
  have off: "led_offer ex_led1a = Some ex_offer" "led_offer ex_led1p = Some ex_offer"
    by (simp_all add: ex_led1a_def ex_led1p_def ex_led0_def)
  have g: "get ex_led1a (ex_id (CHR ''a'')) = Some ex_value1a"
    by (simp add: ex_led1a_def ex_led0_def empty_ledger_def get_def find_row_def value_row_def ex_value1a_sel ex_value1_sel)
  have ann: "annotate (fence_of ex_value1a) [Prepared_runtime (JInt 1)] ex_led1a = Inr (ex_led1p, ex_value1p)"
    by (simp add: annotate_def fenced_def fence_of_def ex_value1a_sel ex_value1_sel g save_def Let_def)
      (simp add: ex_value1p_def ex_led1p_def ex_led1a_def put_row_def value_row_def ex_value1a_sel ex_value1_sel
        ex_led0_def empty_ledger_def)
  have "harvest (\<lambda>_. ex_env2) ex_sup1 = (ex_sup2, Inr ())"
    using ann g off ex_current(1) [of "ex_sup1\<lparr>sup_pending := []\<rparr>"]
    by (simp add: harvest_def ex_sup1_def harvest_one_def ex_env2_sel handle_def harvest_result_def
        andthen_def lift_def txn_def give_def) (simp add: ex_sup2_def ex_sup0_def)
  moreover have "retained (sup_ledger ex_sup2) = [ex_value1p]"
    by (simp add: ex_sup2_def ex_led1p_def ex_led0_def retained_def all_rows_def value_row_def ex_value1p_sel)
  moreover have "tick_one (\<lambda>_. []) (\<lambda>_. []) ex_env2 ex_value1p ex_sup2 = (ex_sup2, Inr ())"
    using ex_current(2) [of ex_sup2] off by (simp add: tick_one_def ex_value1p_sel ex_env2_sel terminal_def ex_sup2_def)
  ultimately show ?thesis by (simp add: tick_def andthen_def give_def)
qed

lemma ex_sup2_reach: "sup_reach ex_sup2"
proof -
  have "sup_step ex_sup0 ex_sup1" using sup_prepare [OF ex_valid_admission, of ex_sup0 ex_env2] by (simp add: ex_prepare)
  then have "sup_reach ex_sup1" by (rule reach_step [OF ex_sup0_reach])
  moreover have "sup_step ex_sup1 ex_sup2" using sup_tick [of ex_sup1 "\<lambda>_. []" "\<lambda>_. []" "\<lambda>_. ex_env2"] by (simp add: ex_tick)
  ultimately show ?thesis by (rule reach_step)
qed

text \<open>After a restart the system manager fails to stop the attempt: its outcome is uncertain.\<close>

definition ex_env3 :: env where
  "ex_env3 = ex_env\<lparr>env_stop := \<lambda>_. Stop_failed OSError\<rparr>"

definition ex_value1u :: attempt_value where
  "ex_value1u = finished (unconfirmed ex_value1p) ex_value1p"

definition ex_sup3 :: supervisor where
  "ex_sup3 = ex_sup0\<lparr>sup_ledger := ex_led0\<lparr>led_attempts := [value_row ex_value1u],
     led_devices := [(''gpu0'', ex_id (CHR ''a''))]\<rparr>, sup_recovered := True\<rparr>"

lemma ex_value1p_cleanup: "\<not> v_cleanup_confirmed ex_value1p"
  by (simp add: ex_value1p_def ex_value1a_def ex_value1_sel)

lemma ex_recover: "monitor_recover (\<lambda>_. ex_env3) ex_sup2 = (ex_sup3, Inr ())"
proof -
  have ret: "retained (sup_ledger ex_sup2) = [ex_value1p]"
    by (simp add: ex_sup2_def ex_led1p_def ex_led0_def retained_def all_rows_def value_row_def ex_value1p_sel)
  obtain c where c: "ctx ex_sup2 ex_value1p = Inr c"
    by (simp add: ctx_def ex_value1p_sel find_slot_def find_row_def)
      (simp add: ex_sup2_def ex_sup0_def ex_settings_def ex_slot_def)
  have out: "finish_outcome ex_env3 c ex_value1p x = Inr (unconfirmed ex_value1p)" for x
    by (simp add: finish_outcome_def ex_env3_def ex_env_def has_runtime_def ex_value1p_sel)
  have fin: "finish (unconfirmed ex_value1p) (sup_ledger ex_sup2) = Inr (sup_ledger ex_sup3)"
    by (simp add: finish_def fenced_def get_def find_row_def unconfirmed_def finish_result_def ex_sup2_def ex_led1p_def
        ex_led0_def empty_ledger_def value_row_def ex_value1p_sel ex_value1_sel terminal_def save_def put_row_def Let_def
        ex_sup3_def ex_value1u_def finished_def)
  have "sup_finish ex_env3 ex_value1p (Some ''supervisor_restarted'') ex_sup2 =
      (ex_sup2\<lparr>sup_ledger := sup_ledger ex_sup3\<rparr>, Inr ())"
    using fin by (simp add: sup_finish_def ex_value1p_sel c out retained_result_def andthen_def txn_def no_value_def Let_def
        unconfirmed_def finish_result_def give_def)
  then show ?thesis
    using ret by (simp add: monitor_recover_def andthen_def give_def ex_value1p_sel ex_value1p_cleanup terminal_def modify_def)
      (simp add: ex_sup2_def ex_sup3_def)
qed

lemma ex_sup3_reach: "sup_reach ex_sup3"
  by (rule reach_step [OF ex_sup2_reach]) (use sup_recover [of ex_sup2 "\<lambda>_. ex_env3"] in \<open>simp add: ex_recover\<close>)

section \<open>Properties\<close>

text \<open>
  C1: the running supervisor implements the ledger. Whatever sequence of requests, monitor
  ticks, background work, provider and system failures and process restarts happens, the ledger
  is one the ledger's transition system reaches, the retained offer is of the installed mode and
  within the administrator's ceiling, and each operation commits only transactions that the
  ledger's contract allows; in particular no operation withdraws a confirmed cleanup.
\<close>

theorem supervisor_implements_ledger:
  assumes "sup_reach s"
  shows "ledger_reach (sup_ledger s) \<and> offer_ok s \<and>
    (\<forall>t. sup_step s t \<longrightarrow> ledger_step\<^sup>*\<^sup>* (sup_ledger s) (sup_ledger t))"
  using sup.reach_inv [OF assms] sup.simulation by (auto simp: sup_inv_def)

theorem supervisor_implements_ledger_witness:
  "ledger_reach (sup_ledger (fst (start ex_env ex_fence ex_sup0)))"
  using supervisor_implements_ledger [OF reach_step [OF ex_sup0_reach sup_start]] by blast

lemma sup_reach_inv: "sup_reach s \<Longrightarrow> ledger_inv (sup_ledger s) \<and> offer_ok s"
  using sup.reach_inv led.reach_inv unfolding sup_inv_def by blast

text \<open>
  Nothing starts beyond the ceiling. When a reachable supervisor starts a prepared attempt,
  its project and runtime are approved by the administrator, its limits fit the ceiling, the
  approved schedule allows the moment, sensitive data needs the ceiling's consent, its runtime is
  prepared and its lease is active.
\<close>

theorem start_within_ceiling:
  assumes "sup_reach s" and "get (sup_ledger s) (f_attempt_id asked) = Some u" and "v_state u = Prepared"
    and "start e asked s = (t, Inr v)"
  shows "v_state v = Starting \<and> has_runtime u \<and> value_active u (env_clock e 0) \<and>
    plan_project_id (v_plan u) \<in> set (off_projects (set_ceiling (sup_settings s))) \<and>
    job_runtime (plan_job (v_plan u)) \<in> set (off_runtimes (set_ceiling (sup_settings s))) \<and>
    fits (job_limits (plan_job (v_plan u))) (off_limits (set_ceiling (sup_settings s))) \<and>
    (off_schedule_utc (set_ceiling (sup_settings s)) = [] \<or>
      (\<exists>w\<in>set (off_schedule_utc (set_ceiling (sup_settings s))). contains w (wall (env_clock e 0)))) \<and>
    (job_sensitive (plan_job (v_plan u)) \<longrightarrow> off_accept_sensitive (set_ceiling (sup_settings s)))"
proof -
  let ?c = "set_ceiling (sup_settings s)"
  have fen: "fenced_by asked s = Inr u" and run: "has_runtime u"
    using assms(2-4) unfolding start_def andthen_def lift_def fail_def
    by (auto simp: fenced_by_def fenced_def split: if_splits)
  then obtain l first where r: "start_requested asked (env_clock e 0) (sup_ledger s) = Inr (l, v, first)"
    using assms(4) unfolding start_def andthen_def lift_def
    by (auto simp: txn_def submit_def modify_def give_def split: sum.splits if_splits)
  note a = start_requested_authority [OF r]
  have "first"
  proof (rule ccontr)
    assume "\<not> first"
    then show False using r fen assms(3) unfolding start_requested_def fenced_by_def
      by (auto simp: Let_def split: if_splits option.splits)
  qed
  with a assms(2) obtain offer where o: "led_offer (sup_ledger s) = Some offer" "v = u\<lparr>v_state := Starting\<rparr>"
      "value_active u (env_clock e 0)"
      "refusal offer (plan_project_id (v_plan u)) (plan_job (v_plan u)) (wall (env_clock e 0)) False = None"
    by auto
  have "validate_offer offer ?c = Inr ()" using sup_reach_inv [OF assms(1)] o(1) by (auto simp: offer_ok_def)
  from refusal_within [OF this o(4)] show ?thesis using o run by simp
qed

theorem start_within_ceiling_witness:
  "\<exists>t v. start ex_env2 ex_fence ex_sup2 = (t, Inr v) \<and> v_state v = Starting \<and>
     fits (job_limits (plan_job ex_plan1)) (off_limits (set_ceiling (sup_settings ex_sup2)))"
proof -
  have g: "get (sup_ledger ex_sup2) (f_attempt_id ex_fence) = Some ex_value1p"
    by (simp add: ex_sup2_def ex_led1p_def ex_led0_def empty_ledger_def get_def find_row_def value_row_def ex_value1p_sel
        ex_value1_sel ex_fence_def)
  have f: "fenced_by ex_fence ex_sup2 = Inr ex_value1p"
    using g by (simp add: fenced_by_def fenced_def ex_value1p_sel ex_value1_sel ex_fence_def)
  have off: "led_offer (sup_ledger ex_sup2) = Some ex_offer" "off_revision ex_offer = plan_offer_revision ex_plan1"
    by (simp_all add: ex_sup2_def ex_led1p_def ex_led0_def ex_offer_def ex_plan1_def ex_plan_def)
  have "refusal ex_offer (plan_project_id ex_plan1) (plan_job ex_plan1) (wall ex_reading) False = None"
    by (simp add: ex_plan1_def ex_refusal)
  with f off ex_active(2) have "\<exists>l v. start_requested ex_fence ex_reading (sup_ledger ex_sup2) = Inr (l, v, True)"
    unfolding start_requested_def fenced_by_def by (simp add: ex_value1p_sel Let_def)
  then obtain t v where t: "start ex_env2 ex_fence ex_sup2 = (t, Inr v)"
    using f by (auto simp: start_def andthen_def lift_def txn_def submit_def modify_def give_def ex_env2_sel
        ex_value1p_sel has_runtime_def)
  from start_within_ceiling [OF ex_sup2_reach g ex_value1p_sel(3) t] t show ?thesis by (auto simp: ex_value1p_sel)
qed

text \<open>
  A cleanup retry cannot replace the recorded uncertain outcome. Finishing an attempt whose
  outcome is unknown, for any reason and whatever the runtime now reports, leaves its state,
  reason, exit code and output sizes as recorded; only the cleanup flag can become true.
\<close>

theorem cleanup_retry_keeps_outcome:
  assumes "sup_reach s" and "get (sup_ledger s) i = Some v" and "v_state v = Unknown"
    and "sup_finish e v reason s = (t, r)"
  shows "\<exists>w. get (sup_ledger t) i = Some w \<and> v_state w = Unknown \<and> v_reason w = v_reason v \<and>
    v_exit_code w = v_exit_code v \<and> v_output_bytes w = v_output_bytes v \<and> v_error_bytes w = v_error_bytes v \<and>
    (v_cleanup_confirmed v \<longrightarrow> v_cleanup_confirmed w)"
proof -
  have inv: "ledger_inv (sup_ledger s)" using sup_reach_inv [OF assms(1)] by simp
  have id: "vid v = i" using get_in_vals [OF inv assms(2)] by simp
  show ?thesis
  proof (cases "sup_ledger t = sup_ledger s")
    case False
    then have nc: "\<not> v_cleanup_confirmed v" using assms(3,4) by (auto simp: sup_finish_def)
    have "\<exists>q. finish (retained_result v q) (sup_ledger s) = Inr (sup_ledger t) \<and> f_attempt_id q = vid v"
    proof -
      obtain c where c: "ctx s v = Inr c" using False assms(4) nc by (auto simp: sup_finish_def split: sum.splits if_splits)
      show ?thesis
      proof (cases "finish_outcome e c v reason")
        case (Inl x)
        then show ?thesis using False assms(3,4) nc c by (auto simp: sup_finish_def Let_def split: if_splits)
      next
        case (Inr q)
        have a: "(t, r) = andthen (txn (no_value (finish (retained_result v q)))) (\<lambda>_.
                 if res_cleanup_confirmed q
                 then modify (\<lambda>s. s\<lparr>sup_cleanup_started := AList.delete (plan_attempt_id (v_plan v)) (sup_cleanup_started s)\<rparr>)
                 else give ()) s"
          using assms(3,4) nc c Inr by (simp add: sup_finish_def Let_def)
        have "finish (retained_result v q) (sup_ledger s) = Inr (sup_ledger t)"
          using a False by (cases "finish (retained_result v q) (sup_ledger s)")
            (auto simp: andthen_def txn_def no_value_def modify_def give_def split: if_splits)
        then show ?thesis using finish_outcome_id [OF Inr] by blast
      qed
    qed
    then obtain q where q: "finish (retained_result v q) (sup_ledger s) = Inr (sup_ledger t)" "f_attempt_id q = i"
      using id by blast
    from finish_effect [OF q(1) inv] obtain u where
      "changed (sup_ledger s) i u (finished (retained_result v q) u) (sup_ledger t)" using q(2) by auto
    then have "get (sup_ledger t) i = Some (finished (retained_result v q) u)" by (simp add: changed_def)
    then show ?thesis using assms(3) nc by (simp add: finished_def retained_result_def)
  qed (use assms(2,3) in simp)
qed

theorem cleanup_retry_keeps_outcome_witness:
  "\<exists>t r w. sup_finish ex_env2 ex_value1u None ex_sup3 = (t, r) \<and> get (sup_ledger t) (ex_id (CHR ''a'')) = Some w \<and>
     v_state w = Unknown \<and> v_reason w = Some ''cleanup_unconfirmed''"
proof -
  have g: "get (sup_ledger ex_sup3) (ex_id (CHR ''a'')) = Some ex_value1u"
    by (simp add: ex_sup3_def ex_led0_def empty_ledger_def get_def find_row_def value_row_def ex_value1u_def finished_def
        ex_value1p_sel ex_value1_sel)
  have u: "v_state ex_value1u = Unknown" "v_reason ex_value1u = Some ''cleanup_unconfirmed''"
    by (simp_all add: ex_value1u_def finished_def unconfirmed_def finish_result_def)
  obtain t r where t: "sup_finish ex_env2 ex_value1u None ex_sup3 = (t, r)" by (cases "sup_finish ex_env2 ex_value1u None ex_sup3")
  from cleanup_retry_keeps_outcome [OF ex_sup3_reach g u(1) t] t u(2) show ?thesis by auto
qed

lemma attempt_admission_cases:
  assumes "attempt_admission e a s = (t, r)"
  shows "(\<exists>x. r = Inl x) \<and> t = s \<or>
    (\<exists>sl b l v c. choose_slot s (adm_plan a) = Inr sl \<and>
       admit a (slot_id sl) b (env_clock e 0) (of_int (set_maximum_lease_seconds (sup_settings s))) (sup_ledger s) = Inr (l, v, c) \<and>
       t = s\<lparr>sup_ledger := l\<rparr> \<and> r = Inr (v, c))"
proof (cases "choose_slot s (adm_plan a)")
  case (Inr sl)
  show ?thesis
  proof (cases "env_slot_probe e sl None True")
    case (Inr b)
    then show ?thesis
      using assms \<open>choose_slot s (adm_plan a) = Inr sl\<close>
      by (cases "admit a (slot_id sl) b (env_clock e 0) (of_int (set_maximum_lease_seconds (sup_settings s))) (sup_ledger s)")
        (auto simp: attempt_admission_def andthen_def lift_def txn_def, blast)
  qed (use assms Inr in \<open>auto simp: attempt_admission_def andthen_def lift_def\<close>)
qed (use assms in \<open>auto simp: attempt_admission_def andthen_def lift_def\<close>)

lemma reject_records:
  assumes "ledger_inv l" "get l (plan_attempt_id p) = None" "reject p now obs l = Inr (t, v)"
  shows "get t (plan_attempt_id p) = Some v \<and> v_plan v = p \<and> v_plan_digest v = digest_of_plan p"
proof -
  have pl: "v_plan v = p" "v_plan_digest v = digest_of_plan p"
    using assms(2,3) by (auto simp: reject_def Let_def new_value_def split: if_splits sum.splits)
  have "t \<noteq> l"
  proof
    assume "t = l"
    then show False using assms(2,3) by (auto simp: reject_def Let_def insert_attempt_def add_row_def split: if_splits sum.splits)
        (metis append_self_conv ledger.select_convs(4) ledger.surjective ledger.update_convs(4) not_Cons_self2)+
  qed
  then show ?thesis using reject_effect [OF assms(1,3)] pl by (simp add: inserted_def)
qed

text \<open>
  An answered admission is durable. Whatever \<open>prepare\<close> returns for an admission, accepted,
  rejected or repeated, is the retained document of exactly that plan: the ledger holds it under
  the plan's identity, generation and digest. An attempt the ledger already knows is not changed.
\<close>

theorem prepare_records:
  assumes "sup_reach s" and "valid_admission a" and "prepare e a s = (t, r)"
  shows "(\<forall>v. r = Inr v \<longrightarrow> get (sup_ledger t) (plan_attempt_id (adm_plan a)) = Some v \<and>
      plan_generation (v_plan v) = plan_generation (adm_plan a) \<and> v_plan_digest v = digest_of_plan (adm_plan a)) \<and>
    (get (sup_ledger s) (plan_attempt_id (adm_plan a)) \<noteq> None \<longrightarrow> sup_ledger t = sup_ledger s)"
proof -
  let ?p = "adm_plan a" and ?i = "plan_attempt_id (adm_plan a)"
  have inv: "ledger_inv (sup_ledger s)" using sup_reach_inv [OF assms(1)] by simp
  show ?thesis
  proof (cases "check_identity (sup_settings s) ?p")
    case (Inr x)
    show ?thesis
    proof (cases "get (sup_ledger s) ?i")
      case (Some u)
      then have "t = s" "r = fenced (sup_ledger s) ?i (plan_generation ?p) (digest_of_plan ?p)"
        using assms(3) Inr by (auto simp: prepare_def andthen_def lift_def Let_def)
      then show ?thesis using fencedD by metis
    next
      case None
      obtain u q where uq: "attempt_admission e a s = (u, q)" by (cases "attempt_admission e a s")
      note m = assms(3) [unfolded prepare_def andthen_def lift_def Let_def, simplified, unfolded Inr None uq, simplified]
      from attempt_admission_cases [OF uq] show ?thesis
      proof (elim disjE conjE exE)
        fix x assume q: "q = Inl x" and u: "u = s"
        show ?thesis
        proof (cases "refused x")
          case True
          then have "txn (reject ?p (wall (env_clock e 1)) None) s = (t, r)" using m q u by simp
          then show ?thesis using reject_records [OF inv None] None
            by (cases "reject ?p (wall (env_clock e 1)) None (sup_ledger s)") (auto simp: txn_def)
        qed (use m q u None in auto)
      next
        fix sl b l v c
        assume ad: "admit a (slot_id sl) b (env_clock e 0) (of_int (set_maximum_lease_seconds (sup_settings s)))
            (sup_ledger s) = Inr (l, v, c)" and u: "u = s\<lparr>sup_ledger := l\<rparr>" and q: "q = Inr (v, c)"
        have e: "inserted (sup_ledger s) ?i v l" "v_plan v = ?p" "v_plan_digest v = digest_of_plan ?p"
          using admit_effect [OF inv assms(2) ad] None by (auto simp: new_value_def)
        have l: "sup_ledger t = l" "r = Inr w \<Longrightarrow> w = v" for w
          using m q u queue_preparation_ledger [of v "s\<lparr>sup_ledger := l\<rparr>"]
          by (cases c; auto simp: give_def queue_preparation_ledger split: sum.splits prod.splits)+
        show ?thesis using e l None by (auto simp: inserted_def)
      qed
    qed
  qed (use assms(3) in \<open>auto simp: prepare_def andthen_def lift_def Let_def\<close>)
qed

theorem prepare_records_witness:
  "get (sup_ledger ex_sup1) (plan_attempt_id (adm_plan ex_admission)) = Some ex_value1a"
  using prepare_records [OF ex_sup0_reach ex_valid_admission ex_prepare] by blast

end
