(* ===== verification/Exec_Monitor_Props.thy ===== *)
theory Exec_Monitor_Props
  imports Exec_Supervisor_Props
begin

text \<open>
  What a tick of the lease monitor and a stopped offer guarantee: no attempt stays live without
  authority unless its stop is already recorded.
\<close>

definition live :: "attempt_value \<Rightarrow> bool" where
  "live v \<longleftrightarrow> v_state v \<in> {Prepared, Starting, Running}"

lemma live_value_ok: "value_ok v \<Longrightarrow> live v \<longleftrightarrow> v_state v \<notin> terminal \<union> {Unknown, Released}"
  by (cases "v_state v") (auto simp: live_def value_ok_def terminal_def)

text \<open>\<open>fenced_off i t\<close>: the attempt is not live in \<open>t\<close>, or a stop is recorded for it.\<close>

definition fenced_off :: "string \<Rightarrow> supervisor \<Rightarrow> bool" where
  "fenced_off i t \<longleftrightarrow> (\<forall>w. get (sup_ledger t) i = Some w \<longrightarrow> live w \<longrightarrow> stop_asked w)"

lemma txn_annotate_stop:
  assumes "ledger_inv (sup_ledger s)" "txn (annotate f [Pending_stop r]) s = (t, Inr w)" "r \<noteq> []"
  shows "fenced_off (f_attempt_id f) t"
    "\<exists>u. get (sup_ledger s) (f_attempt_id f) = Some u \<and> get (sup_ledger t) (f_attempt_id f) = Some w \<and>
      w = u\<lparr>v_pending_stop := Some r\<rparr>"
proof -
  obtain l where l: "annotate f [Pending_stop r] (sup_ledger s) = Inr (l, w)" "t = s\<lparr>sup_ledger := l\<rparr>"
    using assms(2) by (auto simp: txn_def split: sum.splits)
  from annotate_effect(2) [OF l(1) assms(1)] obtain u where
    u: "changed (sup_ledger s) (f_attempt_id f) u w l" "w = u\<lparr>v_pending_stop := Some r\<rparr>" by auto
  then show "\<exists>u. get (sup_ledger s) (f_attempt_id f) = Some u \<and> get (sup_ledger t) (f_attempt_id f) = Some w \<and>
      w = u\<lparr>v_pending_stop := Some r\<rparr>" by (auto simp: changed_def l(2))
  show "fenced_off (f_attempt_id f) t"
    using u assms(3) by (auto simp: fenced_off_def changed_def l(2) stop_asked_def)
qed

lemma sup_finish_fences:
  assumes inv: "ledger_inv (sup_ledger s)" and g: "get (sup_ledger s) (vid v) = Some u"
    and st: "v_state u = v_state v" "stop_asked v \<Longrightarrow> stop_asked u"
    and fin: "sup_finish e v reason s = (t, Inr x)"
  shows "fenced_off (vid v) t"
proof (cases "v_state v = Unknown \<and> v_cleanup_confirmed v")
  case True
  then show ?thesis using fin g st by (auto simp: sup_finish_def fenced_off_def live_def)
next
  case nc: False
  obtain c where c: "ctx s v = Inr c" using fin nc by (auto simp: sup_finish_def split: sum.splits)
  note f = fin [unfolded sup_finish_def Let_def, simplified nc c if_False sum.case]
  show ?thesis
  proof (cases "finish_outcome e c v reason")
    case (Inl r1)
    let ?s1 = "s\<lparr>sup_cleanup_started := AList.update (plan_attempt_id (v_plan v))
        (cleanup_time e (plan_attempt_id (v_plan v)) s) (sup_cleanup_started s)\<rparr>"
    let ?r = "case r1 of None \<Rightarrow> ''runtime_outcome_unknown'' | Some r \<Rightarrow> if r = [] then ''runtime_outcome_unknown'' else r"
    show ?thesis
    proof (cases "\<not> stop_asked v \<and> v_state v \<noteq> Unknown")
      case True
      then have "andthen (txn (annotate (fence_of v) [Pending_stop ?r])) (\<lambda>_. give ()) ?s1 = (t, Inr x)"
        using f Inl by (auto split: if_splits)
      then obtain w where "txn (annotate (fence_of v) [Pending_stop ?r]) ?s1 = (t, Inr w)"
        by (auto simp: andthen_def give_def split: prod.splits sum.splits)
      moreover have "?r \<noteq> []" by (auto split: option.splits)
      ultimately show ?thesis using txn_annotate_stop(1) [of ?s1 "fence_of v" ?r t w] inv by simp
    next
      case False
      then have "t = ?s1" using f Inl by (auto split: if_splits)
      then show ?thesis using g st False by (auto simp: fenced_off_def live_def)
    qed
  next
    case (Inr q)
    have a: "andthen (txn (no_value (finish (retained_result v q)))) (\<lambda>_.
                 if res_cleanup_confirmed q
                 then modify (\<lambda>s. s\<lparr>sup_cleanup_started := AList.delete (plan_attempt_id (v_plan v)) (sup_cleanup_started s)\<rparr>)
                 else give ()) s = (t, Inr x)"
      using f Inr by simp
    then have l: "finish (retained_result v q) (sup_ledger s) = Inr (sup_ledger t)"
      by (cases "finish (retained_result v q) (sup_ledger s)")
        (auto simp: andthen_def txn_def no_value_def modify_def give_def split: if_splits)
    from finish_effect [OF l inv] finish_outcome_id [OF Inr] obtain u' where
      "get (sup_ledger t) (vid v) = Some (finished (retained_result v q) u')" by (auto simp: changed_def)
    moreover have "res_state (retained_result v q) \<in> terminal \<union> {Unknown}" using l by (cases rule: finish_cases) auto
    ultimately show ?thesis by (auto simp: fenced_off_def live_def finished_def terminal_def)
  qed
qed

text \<open>\<open>vetted now i t\<close>: a live attempt without a recorded stop has an active lease at \<open>now\<close> and the
  offer lets it continue.\<close>

definition vetted :: "reading \<Rightarrow> string \<Rightarrow> supervisor \<Rightarrow> bool" where
  "vetted now i t \<longleftrightarrow> (\<forall>w. get (sup_ledger t) i = Some w \<longrightarrow> live w \<longrightarrow> \<not> stop_asked w \<longrightarrow>
     value_active w now \<and> (\<exists>offer. led_offer (sup_ledger t) = Some offer \<and>
       refusal offer (plan_project_id (v_plan w)) (plan_job (v_plan w)) (wall now) True = None))"

lemma fenced_off_vetted: "fenced_off i t \<Longrightarrow> vetted now i t"
  by (simp add: fenced_off_def vetted_def)

lemma current_vetted:
  assumes "current v now s = Inr ()" "get (sup_ledger s) i = Some v" "sup_ledger t = sup_ledger s"
  shows "vetted now i t"
  using assms by (auto simp: current_def vetted_def offer_of_def split: if_splits sum.splits option.splits)

lemma stop_reason_nonempty: "stop_reason v x ''expired'' \<noteq> []"
  by (auto simp: stop_reason_def stop_asked_def split: option.splits exn.splits ctext.splits)

lemma tick_lost_fences:
  assumes inv: "ledger_inv (sup_ledger s)" and g: "get (sup_ledger s) (vid v) = Some v"
    and r: "tick_lost e v x s = (t, Inr ())"
  shows "fenced_off (vid v) t"
proof -
  let ?r = "stop_reason v x ''expired''"
  obtain s1 w where a: "txn (annotate (fence_of v) [Pending_stop ?r]) s = (s1, Inr w)"
    using r by (auto simp: tick_lost_def Let_def andthen_def split: prod.splits sum.splits)
  from txn_annotate_stop [OF inv a stop_reason_nonempty] g
  have f: "fenced_off (vid v) s1" "get (sup_ledger s1) (vid v) = Some w" "w = v\<lparr>v_pending_stop := Some ?r\<rparr>" by auto
  have i1: "ledger_inv (sup_ledger s1)"
    using sup_run_inv [OF run_annotate inv, of "fence_of v" "[Pending_stop ?r]"] a by simp
  have asked: "stop_asked w" using f(3) stop_reason_nonempty by (simp add: stop_asked_def)
  note m = r [unfolded tick_lost_def Let_def andthen_def a, simplified]
  show ?thesis
  proof (cases "map_of (sup_pending s1) (plan_attempt_id (v_plan v))")
    case None
    then have "sup_finish e v (Some ?r) s1 = (t, Inr ())" using m by simp
    from sup_finish_fences [OF i1 f(2) _ _ this] asked f(3) show ?thesis by simp
  next
    case (Some k)
    then have "t = s1" using m by (auto split: if_splits sum.splits stop_outcome.splits)
    with f(1) show ?thesis by simp
  qed
qed

lemma tick_unknown_fences:
  assumes inv: "ledger_inv (sup_ledger s)" and g: "get (sup_ledger s) (vid v) = Some v"
    and r: "tick_unknown e v s = (t, Inr ())"
  shows "fenced_off (vid v) t"
proof -
  obtain s1 where f: "sup_finish e v (v_reason v) s = (s1, Inr ())"
    using r by (auto simp: tick_unknown_def andthen_def split: prod.splits sum.splits)
  have "t = s1" using r f
    by (auto simp: tick_unknown_def andthen_def Let_def split: option.splits if_splits sum.splits)
  with sup_finish_fences [OF inv g _ _ f] show ?thesis by simp
qed

lemma tick_one_vets:
  assumes inv: "ledger_inv (sup_ledger s)" and g: "get (sup_ledger s) (vid v) = Some v"
    and r: "tick_one positive negative e v s = (t, Inr ())"
  shows "vetted (env_clock e 1) (vid v) t"
proof (cases "v_state v \<in> terminal \<union> {Released, Unknown}")
  case True
  have "t = s \<or> tick_unknown e v s = (t, Inr ())" using r True by (auto simp: tick_one_def split: if_splits)
  moreover have "fenced_off (vid v) s" using True g by (auto simp: fenced_off_def live_def terminal_def)
  ultimately show ?thesis using tick_unknown_fences [OF inv g] fenced_off_vetted by blast
next
  case nt: False
  show ?thesis
  proof (cases "current v (env_clock e 1) s")
    case (Inl x)
    then have "tick_lost e v x s = (t, Inr ())" using r nt by (auto simp: tick_one_def)
    then show ?thesis using tick_lost_fences [OF inv g] fenced_off_vetted by blast
  next
    case (Inr y)
    have cur: "current v (env_clock e 1) s = Inr ()" using Inr by simp
    let ?h = "handle (observe positive negative e v) (\<lambda>x. sup_finish e v (Some ''runtime_boundary_failed'')) s"
    have "t = s \<or> ?h = (t, Inr ())" using r nt cur by (auto simp: tick_one_def split: if_splits)
    then show ?thesis
    proof
      assume h: "?h = (t, Inr ())"
      obtain u q where o: "observe positive negative e v s = (u, q)" by (cases "observe positive negative e v s")
      show ?thesis
      proof (cases q)
        case (Inl x)
        have lu: "sup_ledger u = sup_ledger s" using observe_Inl o Inl by metis
        have "sup_finish e v (Some ''runtime_boundary_failed'') u = (t, Inr ())" using h o Inl by (simp add: handle_def)
        then have "fenced_off (vid v) t" using sup_finish_fences [of u v v] lu inv g by simp
        then show ?thesis by (rule fenced_off_vetted)
      next
        case (Inr z)
        then have o: "observe positive negative e v s = (t, Inr ())" using h o by (simp add: handle_def)
        then have "sup_ledger t = sup_ledger s \<or> (\<exists>r. sup_finish e v r s = (t, Inr ()))"
          by (auto simp: observe_def Let_def submit_def modify_def split: sum.splits option.splits if_splits)
        then show ?thesis using current_vetted [OF cur g] sup_finish_fences [OF inv g] fenced_off_vetted by metis
      qed
    qed (use current_vetted [OF cur g] in simp)
  qed
qed

lemma vetted_frame:
  assumes "vetted now i s" "get (sup_ledger t) i = get (sup_ledger s) i" "led_offer (sup_ledger t) = led_offer (sup_ledger s)"
  shows "vetted now i t"
  using assms by (simp add: vetted_def)

text \<open>The monitor never changes the offer.\<close>

interpretation offr: effect_relation "\<lambda>s t. led_offer (sup_ledger t) = led_offer (sup_ledger s)"
  by unfold_locales simp_all

lemma txn_offers:
  "led_offer (sup_ledger (fst (txn (annotate f as) s))) = led_offer (sup_ledger s)"
  "led_offer (sup_ledger (fst (txn (no_value (finish r)) s))) = led_offer (sup_ledger s)"
  by (auto simp: txn_def no_value_def dest: ledger_offers split: sum.splits)

lemma sup_finish_offer: "led_offer (sup_ledger (fst (sup_finish e v reason s))) = led_offer (sup_ledger s)"
proof -
  have 1: "led_offer (sup_ledger (fst (andthen (txn (annotate f as)) (\<lambda>_. give ()) u))) = led_offer (sup_ledger u)"
    for f :: fence and as u
    by (rule offr.R_andthen) (simp_all add: txn_offers give_def)
  have 2: "led_offer (sup_ledger (fst (andthen (txn (no_value (finish r))) (\<lambda>_. if b
      then modify (\<lambda>s. s\<lparr>sup_cleanup_started := g s\<rparr>) else give ()) u))) = led_offer (sup_ledger u)" for r b g u
    by (rule offr.R_andthen) (simp_all add: txn_offers give_def modify_def)
  show ?thesis by (auto simp: sup_finish_def Let_def 1 2 split: sum.splits)
qed

lemma observe_offer: "led_offer (sup_ledger (fst (observe positive negative e v s))) = led_offer (sup_ledger s)"
  by (auto simp: observe_def Let_def submit_def modify_def sup_finish_offer split: sum.splits option.splits)

lemma tick_one_offer: "led_offer (sup_ledger (fst (tick_one positive negative e v s))) = led_offer (sup_ledger s)"
proof -
  have u: "led_offer (sup_ledger (fst (tick_unknown e v s))) = led_offer (sup_ledger s)"
    unfolding tick_unknown_def
    by (rule offr.R_andthen) (auto simp: sup_finish_offer Let_def split: option.splits sum.splits)
  have l: "led_offer (sup_ledger (fst (tick_lost e v x s))) = led_offer (sup_ledger s)" for x
    unfolding tick_lost_def Let_def
    by (rule offr.R_andthen)
      (auto simp: txn_offers sup_finish_offer split: option.splits sum.splits stop_outcome.splits)
  have o: "led_offer (sup_ledger (fst (handle (observe positive negative e v)
      (\<lambda>x. sup_finish e v (Some ''runtime_boundary_failed'')) s))) = led_offer (sup_ledger s)"
    by (rule offr.R_handle) (simp_all add: observe_offer sup_finish_offer)
  show ?thesis by (auto simp: tick_one_def u l o split: sum.splits)
qed

lemma tick_loop_vets:
  assumes "for_each (\<lambda>v. tick_one positive negative (es (vid v)) v) vs s = (t, Inr ())"
    and "ledger_inv (sup_ledger s)" "distinct (map vid vs)" "\<forall>v\<in>set vs. get (sup_ledger s) (vid v) = Some v"
  shows "(\<forall>v\<in>set vs. vetted (env_clock (es (vid v)) 1) (vid v) t) \<and>
    (\<forall>k. k \<notin> vid ` set vs \<longrightarrow> get (sup_ledger t) k = get (sup_ledger s) k) \<and>
    led_offer (sup_ledger t) = led_offer (sup_ledger s)"
  using assms
proof (induction vs arbitrary: s)
  case Nil
  then show ?case by (simp add: give_def)
next
  case (Cons v vs)
  obtain u where u: "tick_one positive negative (es (vid v)) v s = (u, Inr ())"
      and rest: "for_each (\<lambda>v. tick_one positive negative (es (vid v)) v) vs u = (t, Inr ())"
    using Cons.prems(1) by (auto simp: andthen_def split: prod.splits sum.splits)
  have gv: "get (sup_ledger s) (vid v) = Some v" using Cons.prems(4) by simp
  have run: "sup_run {vid v} s u" using tick_one_run [OF recent_get [OF gv], of positive negative "es (vid v)"] u by simp
  have frame: "get (sup_ledger u) k = get (sup_ledger s) k" if "k \<noteq> vid v" for k
    using run Cons.prems(2) that unfolding sup_run_def by simp
  have iu: "ledger_inv (sup_ledger u)" by (rule sup_run_inv [OF run Cons.prems(2)])
  have ou: "led_offer (sup_ledger u) = led_offer (sup_ledger s)"
    using tick_one_offer [of positive negative "es (vid v)" v s] u by simp
  have "\<forall>w\<in>set vs. get (sup_ledger u) (vid w) = Some w" using frame Cons.prems(3,4) by (auto simp: image_iff)
  from Cons.IH [OF rest iu _ this] Cons.prems(3)
  have ih: "\<forall>w\<in>set vs. vetted (env_clock (es (vid w)) 1) (vid w) t"
    "\<forall>k. k \<notin> vid ` set vs \<longrightarrow> get (sup_ledger t) k = get (sup_ledger u) k"
    "led_offer (sup_ledger t) = led_offer (sup_ledger u)" by auto
  have "vetted (env_clock (es (vid v)) 1) (vid v) u" by (rule tick_one_vets [OF Cons.prems(2) gv u])
  then have "vetted (env_clock (es (vid v)) 1) (vid v) t"
    by (rule vetted_frame) (use ih(2,3) Cons.prems(3) in auto)
  then show ?case using ih frame ou by auto
qed

lemma retained_iff:
  assumes "ledger_inv l"
  shows "v \<in> set (retained l) \<longleftrightarrow> v \<in> set (vals l) \<and> v_slot v \<noteq> None"
proof -
  have "row_slot r = v_slot (row_value r)" if "r \<in> set (led_attempts l)" for r
    using that ledger_invD(1) [OF assms] unfolding mirrored_def row_ok_def
    by (metis attempt_row.select_convs(6) value_row_def)
  then show ?thesis by (auto simp: retained_def all_rows_def vals_def)
qed



section \<open>A stopped offer\<close>

lemma stop_attempts_effect:
  assumes "stop_attempts vs l = Inr t" "ledger_inv l" "distinct (map vid vs)" "\<forall>v\<in>set vs. get l (vid v) = Some v"
  shows "(\<forall>v\<in>set vs. \<exists>w. get t (vid v) = Some w \<and> v_state w = v_state v \<and>
      (v_state v \<notin> terminal \<union> {Unknown, Released} \<longrightarrow> stop_asked w)) \<and>
    (\<forall>k. k \<notin> vid ` set vs \<longrightarrow> get t k = get l k)"
  using assms
proof (induction vs arbitrary: l)
  case (Cons v vs)
  have gv: "get l (vid v) = Some v" using Cons.prems(4) by simp
  obtain m w where m: "stop_attempts vs m = Inr t" "ledger_inv m" "get m (vid v) = Some w" "v_state w = v_state v"
      "v_state v \<notin> terminal \<union> {Unknown, Released} \<longrightarrow> stop_asked w" "\<forall>k. k \<noteq> vid v \<longrightarrow> get m k = get l k"
  proof (cases "v_state v \<notin> terminal \<union> {Unknown, Released} \<and> \<not> stop_asked v")
    case True
    then obtain m w where a: "annotate (fence_of v) [Pending_stop ''cancelled''] l = Inr (m, w)"
        and r: "stop_attempts vs m = Inr t"
      using Cons.prems(1) by (auto split: sum.splits)
    from annotate_effect(2) [OF a Cons.prems(2)] obtain u where
      u: "changed l (vid v) u w m" "w = u\<lparr>v_pending_stop := Some ''cancelled''\<rparr>" by auto
    moreover have "ledger_inv m" using annotate_inv [OF Cons.prems(2) a] .
    ultimately show ?thesis using that [OF r, of w] gv by (auto simp: changed_def stop_asked_def)
  next
    case False
    then show ?thesis using that [of l v] Cons.prems gv by auto
  qed
  have "\<forall>x\<in>set vs. get m (vid x) = Some x" using m(6) Cons.prems(3,4) by (auto simp: image_iff)
  from Cons.IH [OF m(1,2) _ this] Cons.prems(3)
  have ih: "\<forall>x\<in>set vs. \<exists>w. get t (vid x) = Some w \<and> v_state w = v_state x \<and>
      (v_state x \<notin> terminal \<union> {Unknown, Released} \<longrightarrow> stop_asked w)"
    "\<forall>k. k \<notin> vid ` set vs \<longrightarrow> get t k = get m k" by auto
  have "get t (vid v) = Some w" using ih(2) m(3) Cons.prems(3) by auto
  with ih m show ?case by auto
qed simp

text \<open>
  A stopped offer stops everything. When the owner's change to \<open>stopped\<close> is accepted, the new
  offer is recorded and, in the same transaction, every live attempt has a recorded stop; none of
  them passes the authority check any more, at any time.
\<close>

theorem stopped_offer_stops_all:
  assumes "sup_reach s" and "set_offer expected os Stopped s = (t, Inr offer)"
    and "get (sup_ledger t) i = Some w" and "live w"
  shows "led_offer (sup_ledger t) = Some offer \<and> off_control offer = Stopped \<and> stop_asked w \<and> current w now t \<noteq> Inr ()"
proof -
  have inv: "ledger_inv (sup_ledger s)" using sup_reach_inv [OF assms(1)] by simp
  obtain l1 where l1: "save_offer offer expected (sup_ledger s) = Inr l1"
      and st: "stop_attempts (retained l1) l1 = Inr (sup_ledger t)" and c: "off_control offer = Stopped"
    using assms(2) by (auto simp: set_offer_def Let_def txn_def offer_settings.defs split: sum.splits if_splits)
  have i1: "ledger_inv l1" by (rule save_offer_inv [OF inv l1])
  have ret: "\<forall>v\<in>set (retained l1). get l1 (vid v) = Some v" using retained_vals(2) [OF i1] by blast
  note E = stop_attempts_effect [OF st i1 retained_vals(1) [OF i1] ret]
  have off: "led_offer (sup_ledger t) = Some offer"
    using stop_attempts_offer [OF st] l1 by (auto simp: save_offer_def Let_def split: if_splits)
  have "i \<in> vid ` set (retained l1)"
  proof (rule ccontr)
    assume n: "i \<notin> vid ` set (retained l1)"
    with E assms(3) have g: "get l1 i = Some w" by simp
    have ok: "value_ok w" "vid w = i" "w \<in> set (vals l1)" using get_in_vals [OF i1 g] ledger_invD(3) [OF i1] by auto
    then have "v_slot w \<noteq> None" using assms(4) by (auto simp: live_def value_ok_def)
    then show False using n ok retained_iff [OF i1] by blast
  qed
  then obtain v where v: "v \<in> set (retained l1)" "vid v = i" by blast
  with E assms(3) have "v_state w = v_state v" "v_state v \<notin> terminal \<union> {Unknown, Released} \<longrightarrow> stop_asked w" by auto
  then have s: "stop_asked w" using assms(4) by (auto simp: live_def terminal_def)
  then show ?thesis using off c by (simp add: current_def)
qed

theorem stopped_offer_stops_all_witness:
  "\<exists>t offer w. set_offer 1 ex_ceiling Stopped ex_sup2 = (t, Inr offer) \<and>
     get (sup_ledger t) (ex_id (CHR ''a'')) = Some w \<and> stop_asked w \<and> current w ex_reading t \<noteq> Inr ()"
proof -
  define v :: offer where "v = offer_settings.extend ex_ceiling
      \<lparr>off_revision = 2, off_mode = Voluntary, off_control = Stopped\<rparr>"
  define l1 where "l1 = ex_led1p\<lparr>led_offer := Some v\<rparr>"
  have set: "set_ceiling (sup_settings ex_sup2) = ex_ceiling" "set_mode (sup_settings ex_sup2) = Voluntary"
    "sup_ledger ex_sup2 = ex_led1p" by (simp_all add: ex_sup2_def ex_sup0_def ex_settings_def)
  have val: "validate_offer ex_ceiling ex_ceiling = Inr ()"
    by (simp add: validate_offer_def ex_ceiling_def fits_refl list_ex_iff)
  have ok: "valid_offer v"
    using ex_job_checks by (simp add: v_def offer_settings.defs ex_ceiling_def valid_offer_def valid_offer_settings_def
        Identity_def Revision_def valid_limits_def ex_limits_def Positive_def Count_def) (simp add: ex_id_def)
  have save: "save_offer v 1 ex_led1p = Inr l1"
    by (simp add: save_offer_def l1_def ex_led1p_def ex_led0_def v_def offer_settings.defs) (simp add: ex_offer_def)
  have ret: "retained l1 = [ex_value1p]"
    by (simp add: l1_def ex_led1p_def ex_led0_def retained_def all_rows_def value_row_def ex_value1p_sel)
  have "\<exists>l2 w. annotate (fence_of ex_value1p) [Pending_stop ''cancelled''] l1 = Inr (l2, w)"
    by (simp add: annotate_def fenced_def fence_of_def l1_def ex_led1p_def get_def find_row_def value_row_def ex_value1p_sel
        ex_value1_sel Let_def)
  then obtain l2 w where a: "annotate (fence_of ex_value1p) [Pending_stop ''cancelled''] l1 = Inr (l2, w)" by blast
  then have "stop_attempts (retained l1) l1 = Inr l2"
    by (simp add: ret ex_value1p_sel stop_asked_def terminal_def)
  then have so: "set_offer 1 ex_ceiling Stopped ex_sup2 = (ex_sup2\<lparr>sup_ledger := l2\<rparr>, Inr v)"
    using ok save by (simp add: set_offer_def set val txn_def v_def)
  have g: "get l2 (ex_id (CHR ''a'')) = Some (ex_value1p\<lparr>v_pending_stop := Some ''cancelled''\<rparr>)"
    using a by (auto simp: annotate_def fenced_def fence_of_def l1_def ex_led1p_def get_def find_row_def value_row_def
        ex_value1p_sel ex_value1_sel Let_def save_def put_row_def)
  show ?thesis
    using stopped_offer_stops_all [OF ex_sup2_reach so, of "ex_id (CHR ''a'')"] so g
    by (auto simp: live_def ex_value1p_sel)
qed

section \<open>Slots and inputs\<close>

lemma slot_order_total: "slot_order a b \<or> slot_order b a"
  by (auto simp: slot_order_def)

lemma slot_order_trans: "slot_order a b \<Longrightarrow> slot_order b c \<Longrightarrow> slot_order a c"
  by (auto simp: slot_order_def)

lemma least_slot_least: "least_slot xs = Some y \<Longrightarrow> y \<in> set xs \<and> (\<forall>x\<in>set xs. slot_order y x)"
proof (induction xs arbitrary: y)
  case (Cons x xs)
  have refl: "slot_order x x" by (simp add: slot_order_def)
  show ?case
  proof (cases "least_slot xs")
    case None
    then have "xs = []" by (cases xs) (auto split: option.splits if_splits)
    then show ?thesis using Cons.prems refl by simp
  next
    case (Some z)
    have z: "z \<in> set xs" "\<forall>u\<in>set xs. slot_order z u" using Cons.IH [OF Some] by auto
    show ?thesis
    proof (cases "slot_order x z")
      case True
      then have "y = x" using Cons.prems Some by simp
      moreover have "slot_order x u" if u: "u \<in> set xs" for u
        using slot_order_trans [OF True] z(2) u by blast
      ultimately show ?thesis using refl by simp
    next
      case False
      then have "y = z" "slot_order z x" using Cons.prems Some slot_order_total [of x z] by auto
      then show ?thesis using z by simp
    qed
  qed
qed simp

text \<open>
  The slot an admission takes is a best fit: it is a configured slot that no retained attempt
  holds, its size is within the job's admitted maximum and holds the declared inputs, and no other
  free fitting slot is smaller; and when no slot fits, the choice fails without looking further.
\<close>

theorem choose_slot_best_fit:
  "(\<forall>sl. choose_slot s p = Inr sl \<longrightarrow> sl \<in> set (set_slots (sup_settings s)) \<and> slot_fits s p sl \<and>
      (\<forall>x\<in>set (set_slots (sup_settings s)). slot_fits s p x \<longrightarrow> slot_order sl x)) \<and>
   (choose_slot s p = Inl (Conflict (Sentence No_slot_fits)) \<longleftrightarrow>
      (\<forall>x\<in>set (set_slots (sup_settings s)). \<not> slot_fits s p x))"
proof -
  let ?xs = "filter (slot_fits s p) (set_slots (sup_settings s))"
  have none: "least_slot xs = None \<longleftrightarrow> xs = []" for xs by (cases xs) (auto split: option.splits)
  show ?thesis
  proof (cases "least_slot ?xs")
    case None
    then show ?thesis using none [of ?xs] by (simp add: choose_slot_def filter_empty_conv)
  next
    case (Some y)
    then show ?thesis using least_slot_least [OF Some] none [of ?xs] by (auto simp: choose_slot_def)
  qed
qed

theorem choose_slot_best_fit_witness: "slot_fits ex_sup0 ex_plan1 (ex_slot ''slot-a'' ''/srv/a'' 700)"
  using choose_slot_best_fit [of ex_sup0 ex_plan1] ex_choose by blast

end
