(* ===== verification/Exec_Wire.thy ===== *)
theory Exec_Wire
  imports Exec_Monitor
begin

text \<open>
  The replies of an executor (\<open>src/ficc/execution/wire.py\<close>): the rows of a batch, the capacity
  snapshot, the offer and the failure, with every bound that \<open>REPLY\<close> validates. The union of a
  batch row is tagged by the constructor. \<open>Snapshot\<close> and its parts are the records of the
  supervisor that builds them.
\<close>

definition MAX_REPLY :: nat where
  "MAX_REPLY = 2 * 1024 * 1024"

record wire_error =
  err_code :: string
  err_message :: string

record endpoint_result =
  er_stream_id :: string
  er_status :: int
  er_data :: string
  er_eof :: bool
  er_error :: "string option"

datatype reply_row =
    Result fence public_attempt
  | ReadResult fence read_result
  | InputResult fence input_view
  | EndpointResult fence endpoint_result
  | Refused fence wire_error

record reply_header =
  rep_version :: int
  rep_id :: string
  rep_deployment_id :: string
  rep_node_id :: string

datatype reply =
    BatchReply reply_header "reply_row list"
  | SnapshotReply reply_header snapshot
  | OfferReply reply_header offer
  | FailureReply reply_header wire_error

section \<open>Validation\<close>

definition valid_wire_error :: "wire_error \<Rightarrow> bool" where
  [valid_defs]: "valid_wire_error e \<longleftrightarrow> Name (err_code e) \<and> 1 \<le> length (err_message e) \<and> length (err_message e) \<le> 240"

definition valid_public_attempt :: "public_attempt \<Rightarrow> bool" where
  [valid_defs]: "valid_public_attempt a \<longleftrightarrow> valid_attempt_result a \<and> Identity (pub_job_id a) \<and>
     Identity (pub_project_id a) \<and> Revision (pub_offer_revision a) \<and> Count (pub_lease_sequence a) \<and>
     0 \<le> pub_lease_expires_at a \<and> pred_option (\<lambda>s. s \<in> terminal \<union> {Unknown}) (pub_outcome a)"

definition valid_resources :: "limits \<Rightarrow> bool" where
  [valid_defs]: "valid_resources l \<longleftrightarrow> Count (cpu_millis l) \<and> Count (memory_bytes l) \<and> Count (swap_bytes l) \<and>
     Count (processes l) \<and> Count (storage_bytes l) \<and> Count (storage_inodes l) \<and>
     list_all Device (gpu_devices l) \<and> length (gpu_devices l) \<le> 64"

definition valid_slot_capacity :: "slot_capacity \<Rightarrow> bool" where
  [valid_defs]: "valid_slot_capacity c \<longleftrightarrow> Name (sc_id c) \<and> Revision (sc_generation c) \<and>
     Positive (sc_storage_bytes c) \<and> Positive (sc_storage_inodes c) \<and> pred_option Name (sc_reason c)"

definition valid_provider_capacity :: "provider_capacity \<Rightarrow> bool" where
  [valid_defs]: "valid_provider_capacity c \<longleftrightarrow> Name (pc_id c) \<and> Digest (pc_package_digest c) \<and> pred_option Name (pc_reason c)"

definition snapshot_binding :: "snapshot \<Rightarrow> bool" where
  "snapshot_binding n \<longleftrightarrow> (sn_admission_version n = 1) = (sn_ledger_id n \<noteq> None)"

definition valid_snapshot :: "snapshot \<Rightarrow> bool" where
  [valid_defs]: "valid_snapshot n \<longleftrightarrow>
     Identity (sn_installation_id n) \<and> pred_option Identity (sn_ledger_id n) \<and>
     sn_admission_version n \<in> {0, 1} \<and> sn_endpoint_version n \<in> {0, 1} \<and>
     1 \<le> sn_input_chunk_bytes n \<and> sn_input_chunk_bytes n \<le> 8 * 1024 * 1024 \<and>
     Identity (sn_deployment_id n) \<and> Identity (sn_node_id n) \<and>
     5 \<le> sn_maximum_lease_seconds n \<and> sn_maximum_lease_seconds n \<le> 30 \<and> valid_offer (sn_offer n) \<and>
     length (sn_slots n) \<le> 64 \<and> list_all valid_slot_capacity (sn_slots n) \<and>
     length (sn_providers n) \<le> 64 \<and> list_all valid_provider_capacity (sn_providers n) \<and>
     valid_resources (sn_available n) \<and>
     length (sn_attempts n) \<le> 64 \<and> list_all valid_public_attempt (sn_attempts n) \<and>
     pred_option Identity (sn_next n) \<and> snapshot_binding n"

definition valid_read_result :: "read_result \<Rightarrow> bool" where
  [valid_defs]: "valid_read_result r \<longleftrightarrow> read_object_name (rr_object r) \<and> Count (rr_offset r) \<and>
     length (rr_data r) \<le> 1398104 \<and> Count (rr_next_offset r) \<and> Count (rr_total_bytes r) \<and> Digest (rr_identity r)"

definition input_position :: "input_view \<Rightarrow> bool" where
  "input_position r \<longleftrightarrow> \<not> (iv_offset r > iv_bytes r \<or> iv_complete r \<and> iv_offset r \<noteq> iv_bytes r)"

definition valid_input_result :: "input_view \<Rightarrow> bool" where
  [valid_defs]: "valid_input_result r \<longleftrightarrow> Identity (iv_object r) \<and> Count (iv_offset r) \<and> Count (iv_bytes r) \<and>
     Digest (iv_digest r) \<and> input_position r"

definition valid_endpoint_result :: "endpoint_result \<Rightarrow> bool" where
  [valid_defs]: "valid_endpoint_result r \<longleftrightarrow> Identity (er_stream_id r) \<and> 0 \<le> er_status r \<and> er_status r \<le> 599 \<and>
     length (er_data r) \<le> 87384"

fun valid_row :: "reply_row \<Rightarrow> bool" where
  "valid_row (Result f a) = (valid_fence f \<and> valid_public_attempt a)"
| "valid_row (ReadResult f r) = (valid_fence f \<and> valid_read_result r)"
| "valid_row (InputResult f r) = (valid_fence f \<and> valid_input_result r)"
| "valid_row (EndpointResult f r) = (valid_fence f \<and> valid_endpoint_result r)"
| "valid_row (Refused f e) = (valid_fence f \<and> valid_wire_error e)"

definition valid_header :: "reply_header \<Rightarrow> bool" where
  [valid_defs]: "valid_header h \<longleftrightarrow> rep_version h = 1 \<and> Identity (rep_id h) \<and> Identity (rep_deployment_id h) \<and> Identity (rep_node_id h)"

fun valid_reply :: "reply \<Rightarrow> bool" where
  "valid_reply (BatchReply h rows) = (valid_header h \<and> 1 \<le> length rows \<and> length rows \<le> 64 \<and> list_all valid_row rows)"
| "valid_reply (SnapshotReply h n) = (valid_header h \<and> valid_snapshot n)"
| "valid_reply (OfferReply h x) = (valid_header h \<and> valid_offer x)"
| "valid_reply (FailureReply h e) = (valid_header h \<and> valid_wire_error e)"

text \<open>\<open>validate\<close> stands for pydantic's \<open>REPLY.validate_json\<close>.\<close>

definition decode_reply :: "(string \<Rightarrow> reply res) \<Rightarrow> string \<Rightarrow> reply res" where
  "decode_reply validate data = (if length data > MAX_REPLY then Inl ValueError else validate data)"

fun row_fence :: "reply_row \<Rightarrow> fence" where
  "row_fence (Result f _) = f"
| "row_fence (ReadResult f _) = f"
| "row_fence (InputResult f _) = f"
| "row_fence (EndpointResult f _) = f"
| "row_fence (Refused f _) = f"

fun row_ok :: "reply_row \<Rightarrow> bool" where
  "row_ok (Refused _ _) = False"
| "row_ok _ = True"

fun reply_head :: "reply \<Rightarrow> reply_header" where
  "reply_head (BatchReply h _) = h"
| "reply_head (SnapshotReply h _) = h"
| "reply_head (OfferReply h _) = h"
| "reply_head (FailureReply h _) = h"

end
