(* ===== verification/Exec_Endpoints.thy ===== *)
theory Exec_Endpoints
  imports Exec_Wire
begin

text \<open>
  The endpoint streams of a running attempt (\<open>src/ficc/execution/endpoints.py\<close>, class
  \<open>Endpoints\<close>). The table maps (attempt, stream) to a stream. What the thread of a stream does
  on its Unix socket is the environment's: \<open>ee_status\<close>, \<open>ee_data\<close>, \<open>ee_error\<close> and \<open>ee_ended\<close> are
  what \<open>Stream.read\<close> finds, \<open>ee_alive\<close> whether the thread still runs.
\<close>

record stream =
  st_asked :: endpoint_call
  st_last_read :: rat
  st_cancelled :: bool

type_synonym stream_key = "string \<times> string"
type_synonym streams = "(stream_key \<times> stream) list"

record endpoint_env =
  ee_now :: rat
  ee_reading :: reading
  ee_alive :: "stream_key \<Rightarrow> bool"
  ee_status :: "stream_key \<Rightarrow> int"
  ee_data :: "stream_key \<Rightarrow> string"
  ee_error :: "stream_key \<Rightarrow> string option"
  ee_ended :: "stream_key \<Rightarrow> bool"

text \<open>Abandoned streams are cancelled; cancelled streams whose thread ended are dropped.\<close>

definition reap :: "endpoint_env \<Rightarrow> streams \<Rightarrow> streams" where
  "reap e ss =
     filter (\<lambda>(k, st). \<not> (st_cancelled st \<and> \<not> ee_alive e k))
       (map (\<lambda>(k, st). (k, if ee_now e - st_last_read st > 15 then st\<lparr>st_cancelled := True\<rparr> else st)) ss)"

definition permitted :: "endpoint_call \<Rightarrow> plan \<Rightarrow> bool" where
  "permitted asked p =
     (case job_endpoint (plan_job p) of
        None \<Rightarrow> False
      | Some ep \<Rightarrow>
          ec_path asked \<in> set (ep_paths ep) \<and> ec_input_object asked = None \<or>
          ''/api/blobs'' \<in> set (ep_paths ep) \<and>
          (case find (\<lambda>r. Some (obj_id r) = ec_input_object asked) (job_inputs (plan_job p)) of
             None \<Rightarrow> False
           | Some blob \<Rightarrow> ec_path asked = ''/api/blobs/'' @ obj_digest blob \<and> ec_method asked = POST))"

definition open_streams :: "string \<Rightarrow> streams \<Rightarrow> nat" where
  "open_streams i ss = length (filter (\<lambda>(k, _). fst k = i) ss)"

definition stream_view :: "endpoint_env \<Rightarrow> endpoint_call \<Rightarrow> stream_key \<Rightarrow> endpoint_result" where
  "stream_view e asked k =
     \<lparr>er_stream_id = ec_stream_id asked, er_status = ee_status e k, er_data = b64encode (ee_data e k),
      er_eof = ee_ended e k, er_error = ee_error e k\<rparr>"

definition stream_read :: "endpoint_env \<Rightarrow> endpoint_call \<Rightarrow> stream_key \<Rightarrow> stream \<Rightarrow> streams
    \<Rightarrow> streams \<times> endpoint_result res" where
  "stream_read e asked k st ss =
     (if (f_generation (st_asked st), f_plan_digest (st_asked st)) \<noteq> (f_generation asked, f_plan_digest asked)
      then (ss, Inl (Conflict (Reason ''endpoint_generation'')))
      else
        let r = stream_view e (st_asked st) k;
            read = AList.update k (st\<lparr>st_last_read := ee_now e\<rparr>) ss
        in (if er_eof r then AList.delete k read else read, Inr r))"

definition exchange :: "endpoint_env \<Rightarrow> supervisor \<Rightarrow> endpoint_call \<Rightarrow> streams \<Rightarrow> streams \<times> endpoint_result res" where
  "exchange e s asked ss0 =
     (let ss = reap e ss0; k = (f_attempt_id asked, ec_stream_id asked); found = map_of ss k in
      if ec_operation asked = Ep_cancel then
        (case found of None \<Rightarrow> ss | Some st \<Rightarrow> AList.update k (st\<lparr>st_cancelled := True\<rparr>) ss,
         Inr \<lparr>er_stream_id = ec_stream_id asked, er_status = 0, er_data = [], er_eof = True, er_error = None\<rparr>)
      else (case check asked (ee_reading e) s of
          Inl x \<Rightarrow> (ss, Inl x)
        | Inr v \<Rightarrow>
          if v_state v \<noteq> Running \<or> \<not> permitted asked (v_plan v) then (ss, Inl (Conflict (Reason ''endpoint_not_ready'')))
          else if ec_operation asked = Ep_open then
            (if found \<noteq> None then (ss, Inl (Conflict (Reason ''endpoint_not_replayed'')))
             else if length ss \<ge> 64 \<or>
                 int (open_streams (f_attempt_id asked) ss) \<ge> ep_concurrency (the (job_endpoint (plan_job (v_plan v))))
             then (ss, Inl (Conflict (Reason ''endpoint_capacity'')))
             else (case ctx s v of
                 Inl x \<Rightarrow> (ss, Inl x)
               | Inr _ \<Rightarrow>
                   let st = \<lparr>st_asked = asked, st_last_read = ee_now e, st_cancelled = False\<rparr>
                   in stream_read e asked k st (AList.update k st ss)))
          else (case found of
              None \<Rightarrow> (ss, Inl (Conflict (Reason ''endpoint_stream_unknown'')))
            | Some st \<Rightarrow> stream_read e asked k st ss)))"

end
