(* ===== verification/Exec_Service.thy ===== *)
theory Exec_Service
  imports Exec_Endpoints Exec_Supervisor_Props
begin

text \<open>
  The local service of an executor (\<open>src/ficc/execution/service.py\<close>): the translation of errors,
  the dispatch of one authorised request to the supervisor and the accounting of connections and
  request bytes. \<open>world n\<close> is what surrounds the \<open>n\<close>-th item of a batch: the environment of the
  supervisor and of the endpoint streams, what other threads did before the item (\<open>iw_before\<close>)
  and while the item gave up the lock (\<open>iw_others\<close>).
\<close>

section \<open>Dispatch\<close>

record service =
  svc_sup :: supervisor
  svc_streams :: streams

record item_world =
  iw_env :: env
  iw_endpoint :: endpoint_env
  iw_before :: "supervisor \<Rightarrow> supervisor"
  iw_others :: "supervisor \<Rightarrow> supervisor"

definition error_message :: string where
  "error_message =
     ''Local execution refused this operation. Refresh its state and inspect the local service.''"

text \<open>
  \<open>error\<close>: the text of a conflict is disclosed only when it is a reason code; the fixed
  sentences start with a capital letter.
\<close>

definition service_error :: "exn \<Rightarrow> wire_error" where
  "service_error x =
     \<lparr>err_code = (case x of
        Conflict (Reason r) \<Rightarrow> if Name r then r else ''executor_refused''
      | InputFailure r \<Rightarrow> if Name r then r else ''executor_refused''
      | _ \<Rightarrow> ''executor_refused''),
      err_message = error_message\<rparr>"

type_synonym 'a item_op = "item_world \<Rightarrow> 'a \<Rightarrow> service \<Rightarrow> service \<times> reply_row res"

text \<open>The rows of a batch: an exception of one item becomes a refusal of that item only.\<close>

fun dispatch_rows :: "'a item_op \<Rightarrow> ('a \<Rightarrow> fence) \<Rightarrow> (nat \<Rightarrow> item_world) \<Rightarrow> nat \<Rightarrow> 'a list \<Rightarrow> service
    \<Rightarrow> service \<times> reply_row list" where
  "dispatch_rows f key world n [] sv = (sv, [])"
| "dispatch_rows f key world n (x # xs) sv =
     (let (sv1, r) = f (world n) x (sv\<lparr>svc_sup := iw_before (world n) (svc_sup sv)\<rparr>);
          row = (case r of Inl e \<Rightarrow> Refused (key x) (service_error e) | Inr row \<Rightarrow> row);
          (sv2, rows) = dispatch_rows f key world (Suc n) xs sv1
      in (sv2, row # rows))"

definition item_fence :: "'a fence_scheme \<Rightarrow> fence" where
  "item_fence x = fence.truncate x"

text \<open>An operation that returns an attempt, whose public view is the row.\<close>

definition attempt_item :: "('a \<Rightarrow> fence) \<Rightarrow> (item_world \<Rightarrow> 'a \<Rightarrow> attempt_value sup_op) \<Rightarrow> 'a item_op" where
  "attempt_item key f w x sv =
     (case f w x (svc_sup sv) of
        (s, Inl e) \<Rightarrow> (sv\<lparr>svc_sup := s\<rparr>, Inl e)
      | (s, Inr v) \<Rightarrow>
          (sv\<lparr>svc_sup := s\<rparr>, case public v of Inl e \<Rightarrow> Inl e | Inr a \<Rightarrow> Inr (Result (key x) a)))"

definition view_item :: "('a \<Rightarrow> fence) \<Rightarrow> (fence \<Rightarrow> 'b \<Rightarrow> reply_row) \<Rightarrow> (item_world \<Rightarrow> 'a \<Rightarrow> 'b sup_op) \<Rightarrow> 'a item_op" where
  "view_item key row f w x sv =
     (case f w x (svc_sup sv) of
        (s, Inl e) \<Rightarrow> (sv\<lparr>svc_sup := s\<rparr>, Inl e)
      | (s, Inr v) \<Rightarrow> (sv\<lparr>svc_sup := s\<rparr>, Inr (row (key x) v)))"

definition endpoint_item :: "endpoint_call item_op" where
  "endpoint_item w x sv =
     (case exchange (iw_endpoint w) (svc_sup sv) x (svc_streams sv) of
        (ss, r) \<Rightarrow> (sv\<lparr>svc_streams := ss\<rparr>, case r of Inl e \<Rightarrow> Inl e | Inr v \<Rightarrow> Inr (EndpointResult (item_fence x) v)))"

definition control_op :: "control_action \<Rightarrow> item_world \<Rightarrow> fence \<Rightarrow> attempt_value sup_op" where
  "control_op a w x =
     (case a of
        Act_start \<Rightarrow> start (iw_env w) x
      | Act_observe \<Rightarrow> lift (fenced_by x)
      | Act_stop \<Rightarrow> request_stop (iw_env w) x ''cancelled''
      | Act_release \<Rightarrow> sup_release (iw_env w) (iw_others w) x)"

definition header_of :: "supervisor \<Rightarrow> 'a request_scheme \<Rightarrow> reply_header" where
  "header_of s r = \<lparr>rep_version = 1, rep_id = req_id r, rep_deployment_id = set_deployment_id (sup_settings s),
     rep_node_id = set_node_id (sup_settings s)\<rparr>"

definition batch_reply :: "'a request_scheme \<Rightarrow> 'b item_op \<Rightarrow> ('b \<Rightarrow> fence) \<Rightarrow> (nat \<Rightarrow> item_world) \<Rightarrow> 'b list
    \<Rightarrow> service \<Rightarrow> service \<times> reply res" where
  "batch_reply r f key world xs sv =
     (let (sv1, rows) = dispatch_rows f key world 0 xs sv in (sv1, Inr (BatchReply (header_of (svc_sup sv) r) rows)))"

definition bound_reply :: "bound_request \<Rightarrow> 'b item_op \<Rightarrow> ('b \<Rightarrow> fence) \<Rightarrow> (nat \<Rightarrow> item_world) \<Rightarrow> 'b list
    \<Rightarrow> service \<Rightarrow> service \<times> reply res" where
  "bound_reply r f key world xs sv =
     (case bind_request r (svc_sup sv) of
        Inl e \<Rightarrow> (sv, Inl e)
      | Inr _ \<Rightarrow> batch_reply r f key world xs sv)"

fun dispatch_message :: "(nat \<Rightarrow> item_world) \<Rightarrow> message \<Rightarrow> service \<Rightarrow> service \<times> reply res" where
  "dispatch_message world (Snapshot r after) sv =
     (sv, case take_snapshot (iw_env (world 0)) after (svc_sup sv) of
            Inl e \<Rightarrow> Inl e | Inr n \<Rightarrow> Inr (SnapshotReply (header_of (svc_sup sv) r) n))"
| "dispatch_message world (SetOffer r expected os c) sv =
     (case set_offer expected os c (svc_sup sv) of
        (s, Inl e) \<Rightarrow> (sv\<lparr>svc_sup := s\<rparr>, Inl e)
      | (s, Inr x) \<Rightarrow> (sv\<lparr>svc_sup := s\<rparr>, Inr (OfferReply (header_of (svc_sup sv) r) x)))"
| "dispatch_message world (Prepare r xs) sv =
     bound_reply r (attempt_item (\<lambda>a. plan_fence (adm_plan a)) (\<lambda>w. prepare (iw_env w))) (\<lambda>a. plan_fence (adm_plan a)) world xs sv"
| "dispatch_message world (RejectAbsent r ps) sv =
     bound_reply r (attempt_item plan_fence (\<lambda>w p. reject_absent (iw_env w) p False)) plan_fence world ps sv"
| "dispatch_message world (ReconcileAbsent r ps) sv =
     bound_reply r (attempt_item plan_fence (\<lambda>w p. reject_absent (iw_env w) p True)) plan_fence world ps sv"
| "dispatch_message world (Renew r ls) sv =
     batch_reply r (attempt_item item_fence (\<lambda>w. sup_renew (iw_env w))) item_fence world ls sv"
| "dispatch_message world (Control r a fs) sv =
     batch_reply r (attempt_item item_fence (control_op a)) item_fence world fs sv"
| "dispatch_message world (Collect r xs) sv =
     batch_reply r (view_item item_fence ReadResult (\<lambda>w x. lift (collect (iw_env w) x))) item_fence world xs sv"
| "dispatch_message world (InputStatus r xs) sv =
     batch_reply r (view_item item_fence InputResult (\<lambda>w x. lift (input_status x (env_clock (iw_env w) 0)))) item_fence world xs sv"
| "dispatch_message world (InputWrite r xs) sv =
     batch_reply r (view_item item_fence InputResult (\<lambda>w. input_write (iw_env w) (iw_others w))) item_fence world xs sv"
| "dispatch_message world (EndpointExchange r xs) sv =
     batch_reply r endpoint_item item_fence world xs sv"

definition dispatch :: "(nat \<Rightarrow> item_world) \<Rightarrow> message \<Rightarrow> int \<Rightarrow> service \<Rightarrow> service \<times> reply res" where
  "dispatch world request uid sv =
     (case authorize request uid (sup_settings (svc_sup sv)) of
        Inl e \<Rightarrow> (sv, Inl e)
      | Inr _ \<Rightarrow> dispatch_message world request sv)"

fun message_id :: "message \<Rightarrow> string" where
  "message_id (Prepare r _) = req_id r"
| "message_id (RejectAbsent r _) = req_id r"
| "message_id (ReconcileAbsent r _) = req_id r"
| "message_id (Renew r _) = req_id r"
| "message_id (Control r _ _) = req_id r"
| "message_id (Collect r _) = req_id r"
| "message_id (InputStatus r _) = req_id r"
| "message_id (InputWrite r _) = req_id r"
| "message_id (EndpointExchange r _) = req_id r"
| "message_id (Snapshot r _) = req_id r"
| "message_id (SetOffer r _ _ _) = req_id r"

text \<open>
  One accepted connection: an unknown account gets no reply, an exception of the dispatch
  becomes a failure reply, and a reply that does not validate is not sent.
\<close>

definition answer :: "(nat \<Rightarrow> item_world) \<Rightarrow> message \<Rightarrow> int \<Rightarrow> service \<Rightarrow> service \<times> reply option" where
  "answer world request uid sv =
     (let st = sup_settings (svc_sup sv) in
      if uid \<notin> {0, set_transport_uid st} \<union> set (set_local_owner_uids st) then (sv, None)
      else
        let (sv1, r) = dispatch world request uid sv;
            reply = (case r of
               Inr x \<Rightarrow> x
             | Inl e \<Rightarrow> FailureReply \<lparr>rep_version = 1, rep_id = message_id request,
                 rep_deployment_id = set_deployment_id st, rep_node_id = set_node_id st\<rparr> (service_error e))
        in (sv1, if valid_reply reply then Some reply else None))"

section \<open>Admission of connections\<close>

text \<open>
  The counters of \<open>Service.accept\<close>, with the bytes each open connection holds. A connection is
  refused beyond sixteen; a frame is read only while the budget of 16 MiB covers its length.
\<close>

record server =
  srv_connections :: int
  srv_request_bytes :: int
  srv_held :: "(nat \<times> int) list"

definition accept_begin :: "nat \<Rightarrow> server \<Rightarrow> server option" where
  "accept_begin i sv =
     (if srv_connections sv \<ge> 16 then None
      else Some (sv\<lparr>srv_connections := srv_connections sv + 1, srv_held := (i, 0) # srv_held sv\<rparr>))"

definition accept_reserve :: "nat \<Rightarrow> int \<Rightarrow> server \<Rightarrow> server res" where
  "accept_reserve i len sv =
     (if srv_request_bytes sv + len > 16 * 1024 * 1024 then Inl ValueError
      else Inr (sv\<lparr>srv_request_bytes := srv_request_bytes sv + len, srv_held := AList.update i len (srv_held sv)\<rparr>))"

definition accept_end :: "nat \<Rightarrow> server \<Rightarrow> server" where
  "accept_end i sv =
     sv\<lparr>srv_request_bytes := srv_request_bytes sv - (case map_of (srv_held sv) i of None \<Rightarrow> 0 | Some n \<Rightarrow> n),
        srv_connections := srv_connections sv - 1, srv_held := AList.delete i (srv_held sv)\<rparr>"

end
