(* ===== verification/Exec_Service_Props.thy ===== *)
theory Exec_Service_Props
  imports Exec_Service
begin

text \<open>
  What the local service guarantees: a batch answers every item in order and isolates failures,
  a request reaches the supervisor only with authority, whatever a request does to the ledger is
  a sequence of ledger transactions, endpoint streams are bounded and fenced, and the counters
  of connections and request bytes are exact.
\<close>

section \<open>Rows of a batch\<close>

text \<open>An operation on an item whose row carries the key of the item.\<close>

definition keyed :: "('a \<Rightarrow> fence) \<Rightarrow> 'a item_op \<Rightarrow> bool" where
  "keyed key f \<longleftrightarrow> (\<forall>w x sv row. snd (f w x sv) = Inr row \<longrightarrow> row_fence row = key x)"

lemma dispatch_rows_fences:
  assumes "keyed key f"
  shows "map row_fence (snd (dispatch_rows f key world n xs sv)) = map key xs"
proof (induction xs arbitrary: n sv)
  case (Cons x xs)
  let ?sv = "sv\<lparr>svc_sup := iw_before (world n) (svc_sup sv)\<rparr>"
  obtain sv1 r where step: "f (world n) x ?sv = (sv1, r)" by (cases "f (world n) x ?sv")
  then have "r = Inr row \<Longrightarrow> row_fence row = key x" for row
    using assms unfolding keyed_def by (metis snd_conv)
  moreover obtain sv2 rows where rest: "dispatch_rows f key world (Suc n) xs sv1 = (sv2, rows)"
    by (cases "dispatch_rows f key world (Suc n) xs sv1")
  ultimately show ?case using Cons.IH [of "Suc n" sv1] step by (cases r) auto
qed simp

lemma keyed_items:
  "keyed key (attempt_item key f)" "keyed key (view_item key ReadResult g)" "keyed key (view_item key InputResult h)"
  "keyed item_fence endpoint_item"
  by (auto simp: keyed_def attempt_item_def view_item_def endpoint_item_def split: prod.splits sum.splits)

text \<open>The fences a request names, in order.\<close>

fun asked_fences :: "message \<Rightarrow> fence list" where
  "asked_fences (Prepare _ xs) = map (\<lambda>a. plan_fence (adm_plan a)) xs"
| "asked_fences (RejectAbsent _ ps) = map plan_fence ps"
| "asked_fences (ReconcileAbsent _ ps) = map plan_fence ps"
| "asked_fences (Renew _ xs) = map item_fence xs"
| "asked_fences (Control _ _ xs) = map item_fence xs"
| "asked_fences (Collect _ xs) = map item_fence xs"
| "asked_fences (InputStatus _ xs) = map item_fence xs"
| "asked_fences (InputWrite _ xs) = map item_fence xs"
| "asked_fences (EndpointExchange _ xs) = map item_fence xs"
| "asked_fences _ = []"

lemma batch_reply_fences:
  "batch_reply r f key world xs sv = (sv', Inr (BatchReply h rows)) \<Longrightarrow> keyed key f \<Longrightarrow> map row_fence rows = map key xs"
  using dispatch_rows_fences [of key f world 0 xs sv] by (auto simp: batch_reply_def split: prod.splits)

lemma bound_reply_fences:
  "bound_reply r f key world xs sv = (sv', Inr (BatchReply h rows)) \<Longrightarrow> keyed key f \<Longrightarrow> map row_fence rows = map key xs"
  using batch_reply_fences [of r f key world xs sv] by (auto simp: bound_reply_def split: sum.splits)

lemma dispatch_message_fences:
  "dispatch_message world m sv = (sv', Inr (BatchReply h rows)) \<Longrightarrow> map row_fence rows = asked_fences m"
  by (cases m)
    (auto split: prod.splits sum.splits dest!: bound_reply_fences [OF _ keyed_items(1)] batch_reply_fences [OF _ keyed_items(1)]
      batch_reply_fences [OF _ keyed_items(2)] batch_reply_fences [OF _ keyed_items(3)] batch_reply_fences [OF _ keyed_items(4)])

section \<open>Effects of a request\<close>

definition world_ok :: "(nat \<Rightarrow> item_world) \<Rightarrow> bool" where
  "world_ok world \<longleftrightarrow> (\<forall>n s. sup_run UNIV s (iw_before (world n) s) \<and> sup_run UNIV s (iw_others (world n) s))"

definition item_runs :: "('a \<Rightarrow> bool) \<Rightarrow> 'a item_op \<Rightarrow> bool" where
  "item_runs ok f \<longleftrightarrow> (\<forall>w x sv. ok x \<longrightarrow> (\<forall>s. sup_run UNIV s (iw_others w s)) \<longrightarrow>
     sup_run UNIV (svc_sup sv) (svc_sup (fst (f w x sv))))"

lemma dispatch_rows_run:
  assumes "item_runs ok f" and "world_ok world" and "list_all ok xs"
  shows "sup_run UNIV (svc_sup sv) (svc_sup (fst (dispatch_rows f key world n xs sv)))"
  using assms(3)
proof (induction xs arbitrary: n sv)
  case (Cons x xs)
  let ?sv = "sv\<lparr>svc_sup := iw_before (world n) (svc_sup sv)\<rparr>"
  obtain sv1 r where step: "f (world n) x ?sv = (sv1, r)" by (cases "f (world n) x ?sv")
  have "sup_run UNIV (svc_sup sv) (svc_sup ?sv)" using assms(2) by (simp add: world_ok_def)
  moreover have "sup_run UNIV (svc_sup ?sv) (svc_sup sv1)"
    using assms(1,2) Cons.prems step unfolding item_runs_def world_ok_def by (metis fst_conv list.pred_inject(2))
  moreover have "sup_run UNIV (svc_sup sv1) (svc_sup (fst (dispatch_rows f key world (Suc n) xs sv1)))"
    using Cons by simp
  ultimately have "sup_run UNIV (svc_sup sv) (svc_sup (fst (dispatch_rows f key world (Suc n) xs sv1)))"
    using eff.R_trans by blast
  then show ?case using step by (simp add: split_beta)
qed (simp add: eff.R_refl)

lemma attempt_item_run:
  assumes "\<And>w x s. ok x \<Longrightarrow> (\<forall>s. sup_run UNIV s (iw_others w s)) \<Longrightarrow> sup_run UNIV s (fst (f w x s))"
  shows "item_runs ok (attempt_item key f)"
proof -
  have "svc_sup (fst (attempt_item key f w x sv)) = fst (f w x (svc_sup sv))" for w x sv
    by (simp add: attempt_item_def split: prod.splits sum.splits)
  then show ?thesis using assms by (simp add: item_runs_def)
qed

lemma view_item_run:
  assumes "\<And>w x s. ok x \<Longrightarrow> (\<forall>s. sup_run UNIV s (iw_others w s)) \<Longrightarrow> sup_run UNIV s (fst (f w x s))"
  shows "item_runs ok (view_item key row f)"
proof -
  have "svc_sup (fst (view_item key row f w x sv)) = fst (f w x (svc_sup sv))" for w x sv
    by (simp add: view_item_def split: prod.splits sum.splits)
  then show ?thesis using assms by (simp add: item_runs_def)
qed

lemma endpoint_item_run: "item_runs ok endpoint_item"
  by (simp add: item_runs_def endpoint_item_def eff.R_refl split: prod.splits)

lemma control_op_run:
  assumes "\<forall>s. sup_run UNIV s (iw_others w s)"
  shows "sup_run UNIV s (fst (control_op a w x s))"
proof (cases a)
  case Act_start
  then show ?thesis using sup_run_mono [OF start_run subset_UNIV] by (simp add: control_op_def)
next
  case Act_observe
  then show ?thesis by (simp add: control_op_def eff.R_give)
next
  case Act_stop
  then show ?thesis using sup_run_mono [OF request_stop_run subset_UNIV] by (simp add: control_op_def)
next
  case Act_release
  then show ?thesis using sup_release_run assms by (simp add: control_op_def)
qed

lemma batch_reply_run:
  "item_runs ok f \<Longrightarrow> world_ok world \<Longrightarrow> list_all ok xs \<Longrightarrow>
   sup_run UNIV (svc_sup sv) (svc_sup (fst (batch_reply r f key world xs sv)))"
  using dispatch_rows_run [of ok f world xs sv key 0] by (auto simp: batch_reply_def split: prod.splits)

lemma bound_reply_run:
  "item_runs ok f \<Longrightarrow> world_ok world \<Longrightarrow> list_all ok xs \<Longrightarrow>
   sup_run UNIV (svc_sup sv) (svc_sup (fst (bound_reply r f key world xs sv)))"
  using batch_reply_run [of ok f world xs sv r key] by (simp add: bound_reply_def eff.R_refl split: sum.splits)

lemma message_items_run:
  "item_runs valid_admission (attempt_item key1 (\<lambda>w. prepare (iw_env w)))"
  "item_runs valid_plan (attempt_item key2 (\<lambda>w p. reject_absent (iw_env w) p legacy))"
  "item_runs (\<lambda>_. True) (attempt_item key3 (\<lambda>w. sup_renew (iw_env w)))"
  "item_runs (\<lambda>_. True) (attempt_item key4 (control_op a))"
  by (rule attempt_item_run(1); simp add: control_op_run sup_run_mono [OF prepare_run subset_UNIV]
      sup_run_mono [OF reject_absent_run subset_UNIV] sup_run_mono [OF sup_renew_run subset_UNIV])+

lemma view_items_run:
  "item_runs (\<lambda>_. True) (view_item key1 row1 (\<lambda>w x. lift (g w x)))"
  "item_runs (\<lambda>_. True) (view_item key2 row2 (\<lambda>w. input_write (iw_env w) (iw_others w)))"
  by (rule view_item_run; simp add: eff.R_give input_write_run)+

lemma all_True: "list_all (\<lambda>_. True) xs"
  by (simp add: list_all_iff)

lemma dispatch_message_run:
  assumes "valid_message m" and "world_ok world"
  shows "sup_run UNIV (svc_sup sv) (svc_sup (fst (dispatch_message world m sv)))"
proof (cases m)
  case (Prepare r xs)
  then show ?thesis using assms bound_reply_run [OF message_items_run(1)] by (simp add: batch_def)
next
  case (RejectAbsent r ps)
  then show ?thesis using assms bound_reply_run [OF message_items_run(2)] by (simp add: batch_def)
next
  case (ReconcileAbsent r ps)
  then show ?thesis using assms bound_reply_run [OF message_items_run(2)] by (simp add: batch_def)
next
  case (Renew r ls)
  then show ?thesis using batch_reply_run [OF message_items_run(3) assms(2) all_True] by simp
next
  case (Control r a fs)
  then show ?thesis using batch_reply_run [OF message_items_run(4) assms(2) all_True] by simp
next
  case (Collect r xs)
  then show ?thesis using batch_reply_run [OF view_items_run(1) assms(2) all_True] by simp
next
  case (InputStatus r xs)
  then show ?thesis using batch_reply_run [OF view_items_run(1) assms(2) all_True] by simp
next
  case (InputWrite r xs)
  then show ?thesis using batch_reply_run [OF view_items_run(2) assms(2) all_True] by simp
next
  case (EndpointExchange r xs)
  then show ?thesis using batch_reply_run [OF endpoint_item_run assms(2) all_True] by simp
next
  case (SetOffer r expected os c)
  then show ?thesis using set_offer_run [of "svc_sup sv" expected os c] by (auto split: prod.splits sum.splits)
qed (simp add: eff.R_refl)

lemma dispatch_run:
  assumes "valid_message m" and "world_ok world"
  shows "sup_run UNIV (svc_sup sv) (svc_sup (fst (dispatch world m uid sv)))"
  using dispatch_message_run [OF assms] by (simp add: dispatch_def eff.R_refl split: sum.splits)

section \<open>Endpoint streams\<close>

definition streams_ok :: "streams \<Rightarrow> bool" where
  "streams_ok ss \<longleftrightarrow> distinct (map fst ss) \<and> length ss \<le> 64 \<and>
     (\<forall>(k, st)\<in>set ss. k = (f_attempt_id (st_asked st), ec_stream_id (st_asked st)) \<and> ec_operation (st_asked st) = Ep_open)"

lemma reap_ok:
  assumes "streams_ok ss"
  shows "streams_ok (reap e ss)"
proof -
  let ?f = "\<lambda>(k, st). (k, if ee_now e - st_last_read st > 15 then st\<lparr>st_cancelled := True\<rparr> else st)"
  let ?P = "\<lambda>(k, st). \<not> (st_cancelled st \<and> \<not> ee_alive e k)"
  have k: "map fst (map ?f ss) = map fst ss" by (simp add: split_beta comp_def)
  have d: "distinct (map fst ss)" and len: "length ss \<le> 64" using assms by (simp_all add: streams_ok_def)
  have "distinct (map fst (filter ?P (map ?f ss)))"
    by (rule distinct_map_filter) (simp only: k d)
  moreover have "length (filter ?P (map ?f ss)) \<le> 64"
    using len length_filter_le [of ?P "map ?f ss"] unfolding length_map by linarith
  moreover have "\<forall>(k, st)\<in>set (map ?f ss). k = (f_attempt_id (st_asked st), ec_stream_id (st_asked st)) \<and>
      ec_operation (st_asked st) = Ep_open"
    using assms by (auto simp: streams_ok_def)
  ultimately show ?thesis unfolding reap_def streams_ok_def set_filter by blast
qed

lemma update_keys_length:
  "k \<in> fst ` set ss \<Longrightarrow> length (AList.update k v ss) = length ss"
  "k \<notin> fst ` set ss \<Longrightarrow> length (AList.update k v ss) = Suc (length ss)"
  by (induction ss) auto

lemma update_subset: "set (AList.update k v xs) \<subseteq> insert (k, v) (set xs)"
  by (induction xs) auto

lemma update_ok:
  assumes "streams_ok ss" and "k \<in> fst ` set ss \<or> length ss < 64"
    and "k = (f_attempt_id (st_asked st), ec_stream_id (st_asked st))" and "ec_operation (st_asked st) = Ep_open"
  shows "streams_ok (AList.update k st ss)"
proof -
  have "distinct (map fst (AList.update k st ss))" using assms(1) by (simp add: streams_ok_def distinct_update)
  moreover have "length (AList.update k st ss) \<le> 64"
    using assms(1,2) update_keys_length [of k ss st] by (cases "k \<in> fst ` set ss") (auto simp: streams_ok_def)
  ultimately show ?thesis using assms update_subset [of k st ss] unfolding streams_ok_def by auto
qed

lemma delete_ok: "streams_ok ss \<Longrightarrow> streams_ok (AList.delete k ss)"
  unfolding streams_ok_def AList.delete_eq using le_trans [OF length_filter_le] by (auto simp: distinct_map_filter)

lemma stream_found:
  "streams_ok ss \<Longrightarrow> map_of ss k = Some st \<Longrightarrow>
   k = (f_attempt_id (st_asked st), ec_stream_id (st_asked st)) \<and> ec_operation (st_asked st) = Ep_open \<and> k \<in> fst ` set ss"
  unfolding streams_ok_def by (drule map_of_SomeD) force

lemma stream_read_ok:
  assumes "streams_ok ss" and "map_of ss k = Some st"
  shows "streams_ok (fst (stream_read e asked k st ss))"
  using assms stream_found [OF assms] by (auto simp: stream_read_def Let_def intro!: delete_ok update_ok)

lemma open_streams_keys: "open_streams i ss = length (filter (\<lambda>k. fst k = i) (map fst ss))"
  by (induction ss) (auto simp: open_streams_def)

lemma open_streams_update:
  "open_streams i (AList.update k v ss) \<le> open_streams i ss + (if k \<in> fst ` set ss then 0 else 1)"
  "open_streams i (AList.delete k ss) \<le> open_streams i ss"
proof -
  show "open_streams i (AList.update k v ss) \<le> open_streams i ss + (if k \<in> fst ` set ss then 0 else 1)"
    unfolding open_streams_keys update_keys by simp
  show "open_streams i (AList.delete k ss) \<le> open_streams i ss"
    unfolding open_streams_def by (induction ss) auto
qed

lemma stream_read_open:
  assumes "k \<in> fst ` set ss"
  shows "open_streams i (fst (stream_read e asked k st ss)) \<le> open_streams i ss"
proof -
  have "open_streams i (AList.update k (st\<lparr>st_last_read := ee_now e\<rparr>) ss) \<le> open_streams i ss"
    using open_streams_update(1) [of i k "st\<lparr>st_last_read := ee_now e\<rparr>" ss] assms by simp
  then show ?thesis
    using open_streams_update(2) [of i k "AList.update k (st\<lparr>st_last_read := ee_now e\<rparr>) ss"]
    by (auto simp: stream_read_def Let_def)
qed

lemma update_mem: "map_of (AList.update k v ss) k = Some v" "k \<in> fst ` set (AList.update k v ss)"
proof -
  show "map_of (AList.update k v ss) k = Some v" by (simp add: update_conv')
  then show "k \<in> fst ` set (AList.update k v ss)" by (metis map_of_eq_None_iff option.distinct(1))
qed

lemma opened_stream:
  assumes "streams_ok ss" and "map_of ss k = None" and "length ss < 64" and "k = (f_attempt_id asked, ec_stream_id asked)" and "ec_operation asked = Ep_open"
    and "stream_read e asked k st (AList.update k st ss) = (ss', r)" and "st_asked st = asked"
  shows "streams_ok ss' \<and> open_streams (f_attempt_id asked) ss' \<le> open_streams (f_attempt_id asked) ss + 1"
proof -
  have new: "k \<notin> fst ` set ss" using assms(2) by (simp add: map_of_eq_None_iff)
  have "streams_ok (AList.update k st ss)" by (rule update_ok [OF assms(1)]) (use assms in auto)
  then have ok: "streams_ok ss'" using stream_read_ok [OF _ update_mem(1), of k st ss e asked] assms(6) by simp
  have "open_streams (f_attempt_id asked) ss' \<le> open_streams (f_attempt_id asked) (AList.update k st ss)"
    using stream_read_open [OF update_mem(2)] assms(6) by (metis fst_conv)
  also have "\<dots> \<le> open_streams (f_attempt_id asked) ss + 1" using open_streams_update(1) [of "f_attempt_id asked" k st ss] new assms(4) by simp
  finally show ?thesis using ok by simp
qed

text \<open>
  Endpoint streams stay bounded and fenced. The table never holds two streams of one key nor
  more than 64; a stream is opened or read only for an attempt that runs, holds a current lease
  under the current offer and declared the requested path; an identity that is open is never
  opened again; and an attempt never has more open streams than its endpoint declares.
\<close>

theorem exchange_fenced:
  assumes "streams_ok ss" and "exchange e s asked ss = (ss', r)"
  shows "streams_ok ss' \<and>
    (\<forall>x. r = Inr x \<and> ec_operation asked \<noteq> Ep_cancel \<longrightarrow>
       (\<exists>v ep. check asked (ee_reading e) s = Inr v \<and> v_state v = Running \<and> permitted asked (v_plan v) \<and>
          job_endpoint (plan_job (v_plan v)) = Some ep \<and>
          (ec_operation asked = Ep_open \<longrightarrow> map_of (reap e ss) (f_attempt_id asked, ec_stream_id asked) = None \<and>
             int (open_streams (f_attempt_id asked) ss') \<le> ep_concurrency ep)))"
proof -
  let ?k = "(f_attempt_id asked, ec_stream_id asked)" and ?ss = "reap e ss" and ?i = "f_attempt_id asked"
  note ok = reap_ok [OF assms(1), of e]
  note ex = assms(2) [unfolded exchange_def Let_def]
  show ?thesis
  proof (cases "ec_operation asked = Ep_cancel")
    case True
    then show ?thesis
      using ex ok stream_found [OF ok, of ?k] by (auto split: option.splits intro!: update_ok intro: rev_image_eqI)
  next
    case False
    note ex = ex [unfolded if_not_P [OF False]]
    show ?thesis
    proof (cases "check asked (ee_reading e) s")
      case (Inl x)
      then show ?thesis using ex ok by auto
    next
      case (Inr v)
      note ex = ex [unfolded Inr sum.case]
      show ?thesis
      proof (cases "v_state v = Running \<and> permitted asked (v_plan v)")
        case False
        then show ?thesis using ex ok by auto
      next
        case run: True
        then obtain ep where ep: "job_endpoint (plan_job (v_plan v)) = Some ep"
          by (auto simp: permitted_def split: option.splits)
        show ?thesis
        proof (cases "ec_operation asked = Ep_open")
          case op: True
          show ?thesis
          proof (cases "map_of ?ss ?k = None \<and> length ?ss < 64 \<and> int (open_streams ?i ?ss) < ep_concurrency ep \<and>
              (\<exists>c. ctx s v = Inr c)")
            case False
            then show ?thesis using ex ok op run ep by (auto split: sum.splits if_splits)
          next
            case True
            let ?st = "\<lparr>st_asked = asked, st_last_read = ee_now e, st_cancelled = False\<rparr>"
            have "stream_read e asked ?k ?st (AList.update ?k ?st ?ss) = (ss', r)" using ex True op run ep by auto
            from opened_stream [OF ok _ _ refl op this] True
            have s': "streams_ok ss'" "int (open_streams ?i ss') \<le> ep_concurrency ep" by auto
            then show ?thesis using s' Inr run ep True by auto
          qed
        next
          case False
          then have "ss' = ?ss \<and> (\<exists>x. r = Inl x) \<or> (\<exists>st. map_of ?ss ?k = Some st \<and> stream_read e asked ?k st ?ss = (ss', r))"
            using ex run by (auto split: option.splits)
          then have "streams_ok ss'" using ok stream_read_ok [OF ok, of ?k] by (metis fst_conv)
          then show ?thesis using Inr run ep False by auto
        qed
      qed
    qed
  qed
qed

definition ex_call :: endpoint_call where
  "ex_call = \<lparr>f_attempt_id = ex_id (CHR ''a''), f_generation = 1, f_plan_digest = [], ec_stream_id = ex_id (CHR ''1''),
     ec_operation = Ep_open, ec_path = ''/health'', ec_method = GET, ec_body = [], ec_input_object = None, ec_deadline_seconds = 5\<rparr>"

definition ex_endpoint_env :: endpoint_env where
  "ex_endpoint_env = \<lparr>ee_now = 3, ee_reading = ex_reading, ee_alive = (\<lambda>_. True), ee_status = (\<lambda>_. 200), ee_data = (\<lambda>_. []),
     ee_error = (\<lambda>_. None), ee_ended = (\<lambda>_. False)\<rparr>"

definition ex_streams :: "bool \<Rightarrow> streams" where
  "ex_streams c = [((ex_id (CHR ''a''), ex_id (CHR ''1'')), \<lparr>st_asked = ex_call, st_last_read = 1, st_cancelled = c\<rparr>)]"

theorem exchange_fenced_witness:
  "exchange ex_endpoint_env ex_sup0 (ex_call\<lparr>ec_operation := Ep_cancel\<rparr>) (ex_streams False) =
     (ex_streams True, Inr \<lparr>er_stream_id = ex_id (CHR ''1''), er_status = 0, er_data = [], er_eof = True, er_error = None\<rparr>) \<and>
   streams_ok (ex_streams True)"
proof -
  have "streams_ok (ex_streams False)" by (simp add: streams_ok_def ex_streams_def ex_call_def)
  moreover have e: "exchange ex_endpoint_env ex_sup0 (ex_call\<lparr>ec_operation := Ep_cancel\<rparr>) (ex_streams False) =
     (ex_streams True, Inr \<lparr>er_stream_id = ex_id (CHR ''1''), er_status = 0, er_data = [], er_eof = True, er_error = None\<rparr>)"
    by (simp add: exchange_def ex_streams_def ex_call_def reap_def ex_endpoint_env_def)
  ultimately show ?thesis using exchange_fenced by blast
qed

section \<open>Requests\<close>

text \<open>
  A request is answered exactly. The answer to an authorised batch has one row per item, in
  the order of the items, each bound to the identity, generation and plan digest the item named,
  under the identity of the request; a row is either the result of its item or its refusal. A
  request that fails as a whole (no authority, another installation, a rejected offer) has
  changed nothing.
\<close>

theorem dispatch_answers:
  assumes "dispatch world m uid sv = (sv', r)"
  shows "(\<forall>h rows. r = Inr (BatchReply h rows) \<longrightarrow>
      authorize m uid (sup_settings (svc_sup sv)) = Inr () \<and> rep_id h = message_id m \<and> map row_fence rows = asked_fences m) \<and>
    (\<forall>e. r = Inl e \<longrightarrow> sv' = sv)"
proof (cases "authorize m uid (sup_settings (svc_sup sv))")
  case (Inl e)
  then show ?thesis using assms by (auto simp: dispatch_def)
next
  case (Inr u)
  then have d: "dispatch_message world m sv = (sv', r)" using assms by (simp add: dispatch_def)
  have failed: "sv' = sv" if "r = Inl e" for e
  proof (cases m)
    case (SetOffer q expected os c)
    have "fst (set_offer expected os c (svc_sup sv)) = svc_sup sv" if "snd (set_offer expected os c (svc_sup sv)) = Inl x" for x
      using that by (auto simp: set_offer_def Let_def txn_def split: sum.splits if_splits)
    then show ?thesis using d \<open>r = Inl e\<close> SetOffer by (auto split: prod.splits sum.splits)
  qed (use d \<open>r = Inl e\<close> in \<open>auto simp: bound_reply_def batch_reply_def split: prod.splits sum.splits\<close>)
  have "rep_id h = message_id m" if "r = Inr (BatchReply h rows)" for h rows
    using d that by (cases m) (auto simp: bound_reply_def batch_reply_def header_of_def split: prod.splits sum.splits)
  then show ?thesis using Inr failed dispatch_message_fences [of world m sv sv'] d by auto
qed

definition ex_world :: item_world where
  "ex_world = \<lparr>iw_env = ex_env, iw_endpoint = ex_endpoint_env, iw_before = (\<lambda>s. s), iw_others = (\<lambda>s. s)\<rparr>"

definition ex_asked :: fence where
  "ex_asked = \<lparr>f_attempt_id = ex_id (CHR ''b''), f_generation = 1, f_plan_digest = ''sha256:'' @ replicate 64 (CHR ''0'')\<rparr>"

definition ex_message :: message where
  "ex_message = Control \<lparr>req_version = 1, req_id = ex_id (CHR ''5'')\<rparr> Act_observe [ex_asked]"

definition ex_service :: service where
  "ex_service = \<lparr>svc_sup = ex_sup0, svc_streams = []\<rparr>"

lemma ex_message_valid: "valid_message ex_message"
  by code_simp

lemma ex_world_ok: "world_ok (\<lambda>_. ex_world)"
  by (simp add: world_ok_def ex_world_def eff.R_refl)

theorem dispatch_answers_witness:
  "\<exists>h rows. dispatch (\<lambda>_. ex_world) ex_message 0 ex_service = (ex_service, Inr (BatchReply h rows)) \<and>
     map row_fence rows = [ex_asked] \<and> \<not> row_ok (hd rows)"
proof -
  have "fenced_by ex_asked ex_sup0 = Inl (Conflict (Sentence Not_current_attempt))"
    by (simp add: fenced_by_def fenced_def ex_sup0_def ex_led0_def ex_open_def get_def find_row_def empty_ledger_def)
  then have d: "dispatch (\<lambda>_. ex_world) ex_message 0 ex_service =
      (ex_service, Inr (BatchReply (header_of ex_sup0 \<lparr>req_version = 1, req_id = ex_id (CHR ''5'')\<rparr>)
         [Refused ex_asked (service_error (Conflict (Sentence Not_current_attempt)))]))"
    by (simp add: dispatch_def ex_message_def authorize_def batch_reply_def ex_service_def attempt_item_def control_op_def
        lift_def ex_world_def item_fence_def fence.defs ex_asked_def)
  then show ?thesis using dispatch_answers [OF d] by (simp add: ex_message_def item_fence_def fence.defs ex_asked_def)
qed



section \<open>Connections\<close>

inductive server_step :: "server \<Rightarrow> server \<Rightarrow> bool" where
  server_begin: "accept_begin i s = Some t \<Longrightarrow> i \<notin> fst ` set (srv_held s) \<Longrightarrow> server_step s t"
| server_reserve: "map_of (srv_held s) i = Some 0 \<Longrightarrow> 0 \<le> len \<Longrightarrow> accept_reserve i len s = Inr t \<Longrightarrow> server_step s t"
| server_end: "i \<in> fst ` set (srv_held s) \<Longrightarrow> server_step s (accept_end i s)"

definition server_idle :: "server \<Rightarrow> bool" where
  "server_idle s \<longleftrightarrow> s = \<lparr>srv_connections = 0, srv_request_bytes = 0, srv_held = []\<rparr>"

definition server_inv :: "server \<Rightarrow> bool" where
  "server_inv s \<longleftrightarrow> distinct (map fst (srv_held s)) \<and> srv_connections s = int (length (srv_held s)) \<and>
     srv_connections s \<le> 16 \<and> srv_request_bytes s = sum_list (map snd (srv_held s)) \<and>
     srv_request_bytes s \<le> 16 * 1024 * 1024 \<and> (\<forall>(_, n)\<in>set (srv_held s). 0 \<le> n)"

lemma held_update:
  assumes "distinct (map fst hs)" and "map_of hs i = Some n"
  shows "sum_list (map snd (AList.update i m hs)) = sum_list (map snd hs) - n + (m :: int)"
    "sum_list (map snd (AList.delete i hs)) = sum_list (map snd hs) - n"
    "Suc (length (AList.delete i hs)) = length hs" "length (AList.update i m hs) = length hs"
  using assms by (induction hs) (auto simp: delete_idem image_iff)

lemma server_step_inv: "server_step s t \<Longrightarrow> server_inv s \<Longrightarrow> server_inv t"
proof (induction rule: server_step.induct)
  case (server_begin i s t)
  then show ?case by (auto simp: accept_begin_def server_inv_def split: if_splits)
next
  case (server_reserve s i len t)
  then have d: "distinct (map fst (srv_held s))" by (simp add: server_inv_def)
  show ?case
    using server_reserve update_subset [of i len "srv_held s"] held_update(1,4) [OF d server_reserve.hyps(1), of len]
    by (auto simp: accept_reserve_def server_inv_def distinct_update split: if_splits)
next
  case (server_end i s)
  then have d: "distinct (map fst (srv_held s))" by (simp add: server_inv_def)
  obtain n where n: "map_of (srv_held s) i = Some n" using server_end.hyps by (metis map_of_eq_None_iff not_None_eq)
  have "0 \<le> n" using server_end.prems map_of_SomeD [OF n] by (auto simp: server_inv_def)
  then show ?case
    using server_end.prems held_update [OF d n] n
    by (auto simp: accept_end_def server_inv_def AList.delete_eq distinct_map_filter)
qed

interpretation server: invariant_system server_idle server_step server_inv
proof
  show "server_inv s" if "server_idle s" for s using that by (simp add: server_idle_def server_inv_def)
qed (rule server_step_inv)

text \<open>
  The counters of the local service are exact and bounded: never more than sixteen
  connections are served, the counted request bytes are the sum of what the open connections
  hold, and they never exceed 16 MiB.
\<close>

theorem server_bounded:
  assumes "reach server_idle server_step s"
  shows "srv_connections s = int (length (srv_held s)) \<and> srv_connections s \<le> 16 \<and>
    srv_request_bytes s = sum_list (map snd (srv_held s)) \<and> srv_request_bytes s \<le> 16 * 1024 * 1024"
  using server.reach_inv [OF assms] by (simp add: server_inv_def)

theorem server_bounded_witness:
  "srv_request_bytes \<lparr>srv_connections = 1, srv_request_bytes = 9, srv_held = [(0, 9)]\<rparr> \<le> 16 * 1024 * 1024"
proof -
  let ?s0 = "\<lparr>srv_connections = 0, srv_request_bytes = 0, srv_held = []\<rparr>"
  let ?s1 = "\<lparr>srv_connections = 1, srv_request_bytes = 0, srv_held = [(0, 0)]\<rparr>"
  let ?s2 = "\<lparr>srv_connections = 1, srv_request_bytes = 9, srv_held = [(0, 9)]\<rparr>"
  have "reach server_idle server_step ?s0" by (rule reach_start) (simp add: server_idle_def)
  moreover have "server_step ?s0 ?s1" by (rule server_begin [of 0]) (simp_all add: accept_begin_def)
  moreover have "server_step ?s1 ?s2" by (rule server_reserve [of _ 0 9]) (simp_all add: accept_reserve_def)
  ultimately have "reach server_idle server_step ?s2" by (meson reach_step)
  then show ?thesis using server_bounded by blast
qed

end
