(* ===== verification/Exec_Outputs.thy ===== *)
theory Exec_Outputs
  imports Exec_Service_Props
begin

text \<open>
  Reading the declared results of an attempt in bounded chunks
  (\<open>src/ficc/execution/outputs.py\<close>), with \<open>files.open_below\<close>. The file system is a map from the
  paths of directories to trees. An open file has its device, its size, its identity before and
  after the read, and the bytes the read sees.
\<close>

record open_file =
  fl_device :: json
  fl_size :: int
  fl_bytes :: string
  fl_before :: json
  fl_after :: json

datatype fnode = Dir "(string \<times> fnode) list" | File open_file nat | Link string | Special

text \<open>
  \<open>open_below\<close>: every component is opened without following links; the last one must be a
  regular file with one link. Opening something that is not there, or a link, is an \<open>OSError\<close>.
\<close>

fun open_at :: "fnode \<Rightarrow> string list \<Rightarrow> open_file res" where
  "open_at (Dir es) [p] =
     (case map_of es p of
        None \<Rightarrow> Inl OSError
      | Some (Link _) \<Rightarrow> Inl OSError
      | Some (File f links) \<Rightarrow> if links \<noteq> 1 then Inl ValueError else Inr f
      | Some _ \<Rightarrow> Inl ValueError)"
| "open_at (Dir es) (p # q # ps) =
     (case map_of es p of Some (Dir ds) \<Rightarrow> open_at (Dir ds) (q # ps) | _ \<Rightarrow> Inl OSError)"
| "open_at _ _ = Inl OSError"

definition open_below :: "(string \<rightharpoonup> fnode) \<Rightarrow> string \<Rightarrow> string \<Rightarrow> open_file res" where
  "open_below fs dir relative =
     (let parts = path_parts relative in
      if parts = [] \<or> take 1 relative = ''/'' \<or> ''..'' \<in> set parts then Inl ValueError
      else (case fs dir of None \<Rightarrow> Inl OSError | Some d \<Rightarrow> open_at d parts))"

fun json_field :: "string \<Rightarrow> json \<Rightarrow> json res" where
  "json_field k (JObj kvs) = (case map_of kvs k of None \<Rightarrow> Inl KeyError | Some v \<Rightarrow> Inr v)"
| "json_field k _ = Inl KeyError"

definition output_location :: "attempt_context \<Rightarrow> string \<Rightarrow> bool \<Rightarrow> (string \<times> string) res" where
  "output_location c obj final =
     (if obj \<in> {''stdout'', ''stderr''} then Inr (ctx_directory c @ ''/runtime'', obj)
      else
        let name = (if take 7 obj = ''output:'' then drop 7 obj else obj) in
        (case map_of (rev (map (\<lambda>x. (out_name x, out_path x)) (job_outputs (plan_job (ctx_plan c))))) name of
           None \<Rightarrow> Inl ValueError
         | Some path \<Rightarrow> if \<not> final then Inl ValueError else Inr (ctx_directory c @ ''/runtime/work'', path)))"

definition collect_file :: "(string \<rightharpoonup> fnode) \<Rightarrow> attempt_context \<Rightarrow> read_request \<Rightarrow> bool \<Rightarrow> read_result res" where
  "collect_file fs c q final =
     (case output_location c (rd_object q) final of
        Inl e \<Rightarrow> Inl e
      | Inr (base, relative) \<Rightarrow>
        (case open_below fs base relative of
           Inl e \<Rightarrow> Inl e
         | Inr f \<Rightarrow>
           (case (case ctx_binding c of None \<Rightarrow> Inl KeyError | Some b \<Rightarrow> json_field ''device'' b) of
              Inl e \<Rightarrow> Inl e
            | Inr device \<Rightarrow>
                if fl_device f \<noteq> device then Inl ValueError
                else if rd_offset q > fl_size f then Inl ValueError
                else if fl_before f \<noteq> fl_after f then Inl ValueError
                else
                  let data = take (nat (rd_length q)) (drop (nat (rd_offset q)) (fl_bytes f));
                      upto = rd_offset q + int (length data)
                  in Inr \<lparr>rr_object = rd_object q, rr_offset = rd_offset q, rr_data = b64encode data,
                          rr_next_offset = upto, rr_total_bytes = fl_size f, rr_eof = (upto = fl_size f),
                          rr_complete = final, rr_identity = digest (fl_before f)\<rparr>)))"

section \<open>Reading a whole file\<close>

text \<open>
  A client that repeats the request at the returned offset until the end of the file is reported;
  \<open>n\<close> bounds the number of requests.
\<close>

fun read_file :: "nat \<Rightarrow> (read_request \<Rightarrow> read_result res) \<Rightarrow> read_request \<Rightarrow> string option" where
  "read_file 0 server q = None"
| "read_file (Suc n) server q =
     (case server q of
        Inl e \<Rightarrow> None
      | Inr r \<Rightarrow>
        (case b64decode (rr_data r) of
           None \<Rightarrow> None
         | Some data \<Rightarrow>
             if rr_eof r then Some data
             else map_option (\<lambda>rest. data @ rest) (read_file n server (q\<lparr>rd_offset := rr_next_offset r\<rparr>))))"

definition serves :: "(read_request \<Rightarrow> read_result res) \<Rightarrow> string \<Rightarrow> read_request \<Rightarrow> bool" where
  "serves server bs q \<longleftrightarrow> (\<forall>k. k \<le> length bs \<longrightarrow>
     (\<exists>r. server (q\<lparr>rd_offset := int k\<rparr>) = Inr r \<and> rr_data r = b64encode (take (nat (rd_length q)) (drop k bs)) \<and>
        rr_next_offset r = int (min (length bs) (k + nat (rd_length q))) \<and>
        (rr_eof r \<longleftrightarrow> length bs \<le> k + nat (rd_length q))))"

lemma read_file_serves:
  assumes "serves server bs q" and "1 \<le> rd_length q" and "k \<le> length bs" and "length bs - k < n * nat (rd_length q) \<or> length bs = k \<and> 0 < n"
  shows "read_file n server (q\<lparr>rd_offset := int k\<rparr>) = Some (drop k bs)"
  using assms(3,4)
proof (induction n arbitrary: k)
  case (Suc n)
  let ?len = "nat (rd_length q)"
  obtain r where r: "server (q\<lparr>rd_offset := int k\<rparr>) = Inr r" "rr_data r = b64encode (take ?len (drop k bs))"
    "rr_next_offset r = int (min (length bs) (k + ?len))" "rr_eof r \<longleftrightarrow> length bs \<le> k + ?len"
    using assms(1) Suc.prems(1) unfolding serves_def by blast
  show ?case
  proof (cases "length bs \<le> k + ?len")
    case True
    then show ?thesis using r b64_roundtrip by simp
  next
    case False
    then have "read_file n server (q\<lparr>rd_offset := int (k + ?len)\<rparr>) = Some (drop (k + ?len) bs)"
      using Suc.prems by (intro Suc.IH) auto
    moreover have "take ?len (drop k bs) @ drop (k + ?len) bs = drop k bs"
      by (metis add.commute append_take_drop_id drop_drop)
    ultimately show ?thesis using False r b64_roundtrip by (simp add: min_absorb2)
  qed
qed simp

text \<open>
  C27: the chunks of a result are the result: while a file does not change, a client that follows
  the returned offsets gets exactly its bytes, in a number of requests bounded by the size of the
  file over the chunk length; every chunk passes through base64 unchanged.
\<close>

theorem collect_whole_file:
  assumes "output_location c (rd_object q) final = Inr (base, relative)" and "open_below fs base relative = Inr f"
    and "ctx_binding c = Some b" and "json_field ''device'' b = Inr (fl_device f)"
    and "fl_size f = int (length (fl_bytes f))" and "fl_before f = fl_after f"
    and "1 \<le> rd_length q" and "rd_offset q = 0" and "int (length (fl_bytes f)) < int n * rd_length q"
  shows "read_file n (\<lambda>x. collect_file fs c x final) q = Some (fl_bytes f)"
proof -
  let ?bs = "fl_bytes f"
  have "serves (\<lambda>x. collect_file fs c x final) ?bs q"
    unfolding serves_def using assms(1-7)
    by (auto simp: collect_file_def Let_def min_def split: option.splits)
  moreover have "length ?bs < n * nat (rd_length q)"
    using assms(7,9) by (metis nat_0_le nat_int nat_less_iff nat_mult_distrib of_nat_0_le_iff of_nat_mult order_trans zero_le_one zless_nat_eq_int_zless)
  ultimately have "read_file n (\<lambda>x. collect_file fs c x final) (q\<lparr>rd_offset := int 0\<rparr>) = Some (drop 0 ?bs)"
    using assms(7) by (intro read_file_serves) auto
  moreover have "q\<lparr>rd_offset := int 0\<rparr> = q" using assms(8) by simp
  ultimately show ?thesis by simp
qed

definition ex_file :: open_file where
  "ex_file = \<lparr>fl_device = JInt 7, fl_size = 5, fl_bytes = ''hello'', fl_before = JInt 1, fl_after = JInt 1\<rparr>"

definition ex_read :: read_request where
  "ex_read = \<lparr>f_attempt_id = [], f_generation = 1, f_plan_digest = [], rd_object = ''stdout'', rd_offset = 0, rd_length = 2\<rparr>"

definition ex_fs :: "string \<rightharpoonup> fnode" where
  "ex_fs = (\<lambda>_. Some (Dir [(''stdout'', File ex_file 1)]))"

theorem collect_whole_file_witness:
  "\<exists>c. read_file 3 (\<lambda>x. collect_file ex_fs c x True) ex_read = Some ''hello''"
proof -
  let ?c = "(context_of ex_settings (ex_slot ''slot-a'' ''/srv/a'' 700) ex_plan1 [] (Some (JObj [(''device'', JInt 7)])))"
  have p: "path_parts ''stdout'' = [''stdout'']" by code_simp
  have "read_file 3 (\<lambda>x. collect_file ex_fs ?c x True) ex_read = Some (fl_bytes ex_file)"
    by (rule collect_whole_file [of _ _ _ "ctx_directory ?c @ ''/runtime''" "''stdout''" _ _ "JObj [(''device'', JInt 7)]"])
      (simp_all add: output_location_def ex_read_def ex_file_def context_of_def Let_def open_below_def ex_fs_def p)
  then show ?thesis by (auto simp: ex_file_def)
qed

end
