(* ===== verification/Fair_Scheduler.thy ===== *)
theory Fair_Scheduler
  imports Prelude "HOL-Library.Product_Lexorder"
begin

text \<open>
  The fair scheduler package
  (\<open>scheduler-providers/fair/src/ficc_scheduler_fair/__init__.py\<close>): round robin over the projects
  with queued jobs, oldest job first inside a project, under a global and a per-project limit of
  active attempts. The scheduler remembers the last project it served; the next selection starts
  with the project after it.
\<close>

section \<open>The scheduler\<close>

record scheduler =
  global_active :: int
  project_active :: int
  last_project :: "string option"

record pending_job =
  pj_id :: string
  pj_project_id :: string
  pj_created_at :: rat

record active_attempt =
  ac_id :: string
  ac_job_id :: string
  ac_project_id :: string

record scheduling_request =
  sr_version :: int
  sr_pending :: "pending_job list"
  sr_active :: "active_attempt list"

text \<open>\<open>create\<close>: the configuration is a document whose two values are integers.\<close>

definition create :: "(string \<times> int) list \<Rightarrow> scheduler res" where
  "create configuration =
     (if set (map fst configuration) \<noteq> {''global_active'', ''project_active''} then Inl ValueError
      else if list_ex (\<lambda>(_, v). \<not> (1 \<le> v \<and> v \<le> 8192)) configuration then Inl ValueError
      else (case (map_of configuration ''global_active'', map_of configuration ''project_active'') of
          (Some g, Some p) \<Rightarrow>
            if p > g then Inl ValueError
            else Inr \<lparr>global_active = g, project_active = p, last_project = None\<rparr>
        | _ \<Rightarrow> Inl KeyError))"

definition active_count :: "active_attempt list \<Rightarrow> string \<Rightarrow> int" where
  "active_count xs p = int (length (filter (\<lambda>a. ac_project_id a = p) xs))"

text \<open>The queue of a project: its pending jobs by creation time, then identity.\<close>

definition queue_of :: "pending_job list \<Rightarrow> string \<Rightarrow> string list" where
  "queue_of js p =
     map pj_id (filter (\<lambda>j. pj_project_id j = p) (sort_key (\<lambda>j. (pj_created_at j, pj_id j)) js))"

definition project_order :: "pending_job list \<Rightarrow> string option \<Rightarrow> string list" where
  "project_order js last_served =
     (let projects = sort (remdups (map pj_project_id js)) in
      case last_served of
        None \<Rightarrow> projects
      | Some l \<Rightarrow> filter (\<lambda>p. p > l) projects @ filter (\<lambda>p. p \<le> l) projects)"

text \<open>
  The selection loop: \<open>ready\<close> is the queue of projects, \<open>queues\<close> and \<open>active\<close> are the default
  dictionaries. Taking from an empty queue raises.
\<close>

function select_loop :: "int \<Rightarrow> nat \<Rightarrow> string list \<Rightarrow> (string \<Rightarrow> string list) \<Rightarrow> (string \<Rightarrow> int) \<Rightarrow> string list
    \<Rightarrow> string option \<Rightarrow> (string list \<times> string option) res" where
  "select_loop limit capacity [] queues active chosen last_served = Inr (chosen, last_served)"
| "select_loop limit capacity (project # ready) queues active chosen last_served =
     (if \<not> length chosen < capacity then Inr (chosen, last_served)
      else if active project \<ge> limit then select_loop limit capacity ready queues active chosen last_served
      else (case queues project of
          [] \<Rightarrow> Inl IndexError
        | job # left \<Rightarrow>
            select_loop limit capacity (ready @ (if left \<noteq> [] then [project] else []))
              (queues(project := left)) (active(project := active project + 1)) (chosen @ [job]) (Some project)))"
  by pat_completeness auto

termination
  by (relation "measure (\<lambda>(_, capacity, ready, _, _, chosen, _). (capacity - length chosen) + length ready)") auto

definition schedule_capacity :: "scheduler \<Rightarrow> active_attempt list \<Rightarrow> nat" where
  "schedule_capacity s active = nat (min 64 (max 0 (global_active s - int (length active))))"

definition select_jobs :: "scheduler \<Rightarrow> scheduling_request \<Rightarrow> (scheduler \<times> string list) res" where
  "select_jobs s r =
     (if sr_version r \<noteq> 1 then Inl ValueError
      else (case select_loop (project_active s) (schedule_capacity s (sr_active r))
                (project_order (sr_pending r) (last_project s)) (queue_of (sr_pending r))
                (active_count (sr_active r)) [] (last_project s) of
          Inl e \<Rightarrow> Inl e
        | Inr (chosen, l) \<Rightarrow> Inr (s\<lparr>last_project := l\<rparr>, chosen)))"

section \<open>The round-robin invariant\<close>

text \<open>
  \<open>n p\<close> jobs of project \<open>p\<close> are chosen. The ready queue is \<open>A @ B\<close>: the projects of \<open>A\<close> wait for
  their turn \<open>k + 1\<close>, those of \<open>B\<close> had it; every other project is out of jobs or at its limit.
\<close>

definition taken :: "(string \<Rightarrow> string list) \<Rightarrow> (string \<Rightarrow> nat) \<Rightarrow> string list \<Rightarrow> bool" where
  "taken q n chosen \<longleftrightarrow> set chosen \<subseteq> (\<Union>p. set (q p)) \<and>
     (\<forall>p. n p \<le> length (q p) \<and> filter (\<lambda>j. j \<in> set (q p)) chosen = take (n p) (q p))"

definition turns :: "int \<Rightarrow> (string \<Rightarrow> string list) \<Rightarrow> (string \<Rightarrow> int) \<Rightarrow> (string \<Rightarrow> nat) \<Rightarrow> nat
    \<Rightarrow> string list \<Rightarrow> string list \<Rightarrow> bool" where
  "turns limit q a n k A B \<longleftrightarrow>
     distinct (A @ B) \<and> (\<forall>p\<in>set A. n p = k) \<and> (\<forall>p\<in>set B. n p = Suc k) \<and>
     (\<forall>p. n p \<le> Suc k) \<and> (\<forall>p\<in>set A \<union> set B. n p < length (q p)) \<and>
     (\<forall>p. p \<in> set A \<union> set B \<or> length (q p) \<le> n p \<or> limit \<le> a p + int (n p)) \<and>
     (\<forall>p. n p = 0 \<or> a p + int (n p) \<le> limit)"

definition separate :: "(string \<Rightarrow> string list) \<Rightarrow> bool" where
  "separate q \<longleftrightarrow> (\<forall>p. distinct (q p)) \<and> (\<forall>p r. p \<noteq> r \<longrightarrow> set (q p) \<inter> set (q r) = {})"

lemma turns_next: "turns limit q a n k [] B \<Longrightarrow> turns limit q a n (Suc k) B []"
  unfolding turns_def by (auto intro: le_SucI)

lemma turns_skip:
  "turns limit q a n k (p # A) B \<Longrightarrow> limit \<le> a p + int (n p) \<Longrightarrow> turns limit q a n k A B"
  unfolding turns_def by auto

lemma turns_pop:
  assumes t: "turns limit q a n k (p # A) B" and room: "a p + int (n p) < limit"
  shows "turns limit q a (n(p := Suc (n p))) k A (B @ (if Suc (n p) < length (q p) then [p] else []))"
proof -
  let ?B = "B @ (if Suc (n p) < length (q p) then [p] else [])"
  have p: "p \<notin> set A" "p \<notin> set B" "n p = k" "n p < length (q p)" "distinct (A @ B)"
    using t by (auto simp: turns_def)
  have "distinct (A @ ?B)" using p by simp
  moreover have "\<forall>r\<in>set A. (n(p := Suc (n p))) r = k" using t p by (auto simp: turns_def)
  moreover have "\<forall>r\<in>set ?B. (n(p := Suc (n p))) r = Suc k" using t p by (auto simp: turns_def)
  moreover have "\<forall>r. (n(p := Suc (n p))) r \<le> Suc k" using t p by (auto simp: turns_def)
  moreover have "\<forall>r\<in>set A \<union> set ?B. (n(p := Suc (n p))) r < length (q r)" using t p by (auto simp: turns_def)
  moreover have "r \<in> set A \<union> set ?B \<or> length (q r) \<le> (n(p := Suc (n p))) r \<or>
      limit \<le> a r + int ((n(p := Suc (n p))) r)" for r
  proof (cases "r = p")
    case True then show ?thesis by auto
  next
    case False
    then have "r \<in> set A \<union> set B \<or> length (q r) \<le> n r \<or> limit \<le> a r + int (n r)"
      using t by (auto simp: turns_def)
    then show ?thesis using False by auto
  qed
  moreover have "(n(p := Suc (n p))) r = 0 \<or> a r + int ((n(p := Suc (n p))) r) \<le> limit" for r
  proof (cases "r = p")
    case True then show ?thesis using room by simp
  next
    case False then show ?thesis using t by (simp add: turns_def)
  qed
  ultimately show ?thesis unfolding turns_def by blast
qed

lemma taken_pop:
  assumes t: "taken q n chosen" and sep: "separate q" and lt: "n p < length (q p)" and j: "j = q p ! n p"
  shows "taken q (n(p := Suc (n p))) (chosen @ [j])"
proof -
  have mem: "j \<in> set (q p)" using lt j by simp
  have other: "j \<notin> set (q r)" if "r \<noteq> p" for r using sep that mem by (auto simp: separate_def)
  have snoc: "take (Suc (n p)) (q p) = take (n p) (q p) @ [j]" using lt j by (simp add: take_Suc_conv_app_nth)
  have "filter (\<lambda>j. j \<in> set (q r)) (chosen @ [j]) = take ((n(p := Suc (n p))) r) (q r)" for r
    using t mem other [of r] snoc by (cases "r = p") (simp_all add: taken_def)
  moreover have "(n(p := Suc (n p))) r \<le> length (q r)" for r using t lt by (simp add: taken_def)
  moreover have "set (chosen @ [j]) \<subseteq> (\<Union>p. set (q p))" using t mem by (auto simp: taken_def)
  ultimately show ?thesis unfolding taken_def by blast
qed

definition selection_result :: "int \<Rightarrow> nat \<Rightarrow> (string \<Rightarrow> string list) \<Rightarrow> (string \<Rightarrow> int) \<Rightarrow> string list \<Rightarrow> bool" where
  "selection_result limit cap q a chosen \<longleftrightarrow> length chosen \<le> cap \<and>
     (\<exists>n k A B. taken q n chosen \<and> turns limit q a n k A B \<and> (A @ B = [] \<or> length chosen = cap))"

lemma selection_resultI:
  "taken q n c \<Longrightarrow> turns limit q a n k A B \<Longrightarrow> length c \<le> cap \<Longrightarrow> A @ B = [] \<or> length c = cap \<Longrightarrow>
   selection_result limit cap q a c"
  unfolding selection_result_def by blast

lemma select_loop_round_robin:
  assumes "ready = A @ B" and "separate q" and "taken q n chosen" and "turns limit q a n k A B"
    and "queues = (\<lambda>p. drop (n p) (q p))" and "active = (\<lambda>p. a p + int (n p))" and "length chosen \<le> cap"
  shows "\<exists>c l. select_loop limit cap ready queues active chosen last_served = Inr (c, l) \<and>
     selection_result limit cap q a c"
  using assms
proof (induction limit cap ready queues active chosen last_served arbitrary: A B n k rule: select_loop.induct)
  case (1 limit cap queues active chosen last_served)
  then have "A @ B = []" by simp
  then show ?case using selection_resultI [OF "1.prems"(3,4,7)] by simp
next
  case (2 limit cap project ready queues active chosen last_served)
  note sep = "2.prems"(2) and tk = "2.prems"(3) and queues = "2.prems"(5) and active = "2.prems"(6)
  obtain k' A' B' where t: "turns limit q a n k' (project # A') B'" and ready: "ready = A' @ B'"
  proof (cases A)
    case Nil
    then show thesis using "2.prems"(1,4) turns_next [of limit q a n k B] that [of "Suc k" ready "[]"] by simp
  next
    case (Cons x xs)
    then show thesis using "2.prems"(1,4) that [of k xs B] by simp
  qed
  show ?case
  proof (cases "length chosen < cap")
    case False
    then have full: "length chosen = cap" using "2.prems"(7) by simp
    then show ?thesis using selection_resultI [OF tk t] False by simp
  next
    case room: True
    show ?thesis
    proof (cases "active project \<ge> limit")
      case True
      then have "turns limit q a n k' A' B'" using turns_skip [OF t] active by simp
      then show ?thesis
        using "2.IH"(1) [OF _ True ready sep tk _ queues active "2.prems"(7)] room True by simp
    next
      case False
      have lt: "n project < length (q project)" using t by (simp add: turns_def)
      define j left where "j = q project ! n project" and "left = drop (Suc (n project)) (q project)"
      have qp: "queues project = j # left" using lt queues by (simp add: j_def left_def Cons_nth_drop_Suc)
      let ?n = "n(project := Suc (n project))"
      let ?again = "if left \<noteq> [] then [project] else []"
      have again: "?again = (if Suc (n project) < length (q project) then [project] else [])"
        by (simp add: left_def)
      have t': "turns limit q a ?n k' A' (B' @ ?again)"
        unfolding again using turns_pop [OF t] False active by simp
      have tk': "taken q ?n (chosen @ [j])" by (rule taken_pop [OF tk sep lt j_def])
      have "queues(project := left) = (\<lambda>p. drop (?n p) (q p))" using queues by (auto simp: left_def)
      moreover have "active(project := active project + 1) = (\<lambda>p. a p + int (?n p))" using active by auto
      moreover have "ready @ ?again = A' @ B' @ ?again" using ready by simp
      ultimately show ?thesis
        using "2.IH"(2) [OF _ False qp _ sep tk' t'] room False qp by simp
    qed
  qed
qed

lemma distinct_by_filter:
  assumes "\<And>x. x \<in> set c \<Longrightarrow> \<exists>X. x \<in> X \<and> distinct (filter (\<lambda>j. j \<in> X) c)"
  shows "distinct c"
proof (rule ccontr)
  assume "\<not> distinct c"
  then obtain xs ys zs y where c: "c = xs @ [y] @ ys @ [y] @ zs" using not_distinct_decomp by blast
  then obtain X where "y \<in> X" "distinct (filter (\<lambda>j. j \<in> X) c)" using assms [of y] by auto
  then show False using c by simp
qed

lemma selection_result_distinct:
  assumes "selection_result limit cap q0 a0 c" and "separate q0"
  shows "distinct c"
proof (rule distinct_by_filter)
  fix x assume "x \<in> set c"
  obtain n where n: "taken q0 n c" using assms(1) by (auto simp: selection_result_def)
  then obtain p where "x \<in> set (q0 p)" "filter (\<lambda>j. j \<in> set (q0 p)) c = take (n p) (q0 p)"
    using \<open>x \<in> set c\<close> unfolding taken_def by blast
  then show "\<exists>X. x \<in> X \<and> distinct (filter (\<lambda>j. j \<in> X) c)"
    using assms(2) by (intro exI [of _ "set (q0 p)"]) (auto simp: separate_def)
qed

section \<open>Selections of a request\<close>

lemma set_project_order: "set (project_order js l) = pj_project_id ` set js"
  by (auto simp: project_order_def Let_def split: option.splits)

lemma distinct_project_order: "distinct (project_order js l)"
  by (auto simp: project_order_def Let_def split: option.splits)

lemma set_queue_of: "set (queue_of js p) = pj_id ` {j \<in> set js. pj_project_id j = p}"
  by (auto simp: queue_of_def)

lemma queue_of_empty: "queue_of js p = [] \<longleftrightarrow> p \<notin> pj_project_id ` set js"
proof -
  have "queue_of js p = [] \<longleftrightarrow> set (queue_of js p) = {}" by simp
  also have "\<dots> \<longleftrightarrow> p \<notin> pj_project_id ` set js" unfolding set_queue_of by blast
  finally show ?thesis .
qed

lemma separate_queue_of:
  assumes "distinct (map pj_id js)"
  shows "separate (queue_of js)"
proof -
  have inj: "inj_on pj_id (set js)" and js: "distinct js" using assms by (simp_all add: distinct_map)
  have "distinct (queue_of js p)" for p
    unfolding queue_of_def distinct_map using js inj by (auto intro: inj_on_subset)
  moreover have "set (queue_of js p) \<inter> set (queue_of js r) = {}" if "p \<noteq> r" for p r
  proof -
    have "x \<noteq> y" if "x \<in> set (queue_of js p)" "y \<in> set (queue_of js r)" for x y
    proof
      assume "x = y"
      then obtain i j where "i \<in> set js" "j \<in> set js" "pj_id i = pj_id j" "pj_project_id i = p" "pj_project_id j = r"
        using \<open>x \<in> _\<close> \<open>y \<in> _\<close> unfolding set_queue_of by blast
      then show False using inj \<open>p \<noteq> r\<close> by (metis inj_onD)
    qed
    then show ?thesis by blast
  qed
  ultimately show ?thesis by (simp add: separate_def)
qed

lemma turns_start: "turns limit (queue_of js) a (\<lambda>_. 0) 0 (project_order js l) []"
proof -
  have "0 < length (queue_of js p)" if "p \<in> set (project_order js l)" for p
    using that queue_of_empty [of js p] by (simp add: set_project_order)
  moreover have "p \<in> set (project_order js l) \<or> length (queue_of js p) \<le> 0 \<or> limit \<le> a p + int 0" for p
    using queue_of_empty [of js p] by (simp add: set_project_order)
  ultimately show ?thesis unfolding turns_def using distinct_project_order [of js l] by simp
qed

lemma taken_start: "taken q (\<lambda>_. 0) []"
  by (simp add: taken_def)

text \<open>The jobs of one project among the chosen ones, and how many they are.\<close>

definition chosen_of :: "pending_job list \<Rightarrow> string \<Rightarrow> string list \<Rightarrow> string list" where
  "chosen_of js p c = filter (\<lambda>j. j \<in> set (queue_of js p)) c"

lemma select_jobs_result:
  assumes "distinct (map pj_id (sr_pending r))" and "sr_version r = 1"
  shows "\<exists>c l. select_jobs s r = Inr (s\<lparr>last_project := l\<rparr>, c) \<and>
     selection_result (project_active s) (schedule_capacity s (sr_active r)) (queue_of (sr_pending r))
       (active_count (sr_active r)) c"
proof -
  let ?q = "queue_of (sr_pending r)" and ?a = "active_count (sr_active r)" and ?l = "last_project s"
    and ?cap = "schedule_capacity s (sr_active r)"
  have "\<exists>c l. select_loop (project_active s) ?cap (project_order (sr_pending r) ?l) ?q ?a [] ?l = Inr (c, l) \<and>
      selection_result (project_active s) ?cap ?q ?a c"
    by (rule select_loop_round_robin [OF _ separate_queue_of [OF assms(1)] taken_start turns_start]) simp_all
  then show ?thesis using assms(2) by (auto simp: select_jobs_def)
qed

lemma chosen_of_taken:
  assumes "taken (queue_of js) n c"
  shows "chosen_of js p c = take (n p) (queue_of js p)" "length (chosen_of js p c) = n p"
    "n p < length (queue_of js p) \<longleftrightarrow> chosen_of js p c \<noteq> queue_of js p"
proof -
  show eq: "chosen_of js p c = take (n p) (queue_of js p)" using assms by (simp add: chosen_of_def taken_def)
  have le: "n p \<le> length (queue_of js p)" using assms by (simp add: taken_def)
  then show "length (chosen_of js p c) = n p" using eq by simp
  show "n p < length (queue_of js p) \<longleftrightarrow> chosen_of js p c \<noteq> queue_of js p"
    using le eq by (metis \<open>length (chosen_of js p c) = n p\<close> le_neq_implies_less not_less order_refl take_all)
qed

lemma selection_resultE:
  assumes "selection_result limit cap (queue_of js) a c"
  obtains n k A B where "taken (queue_of js) n c" "turns limit (queue_of js) a n k A B"
    "A @ B = [] \<or> length c = cap" "length c \<le> cap"
  using assms unfolding selection_result_def by blast

lemma capacity_bounds:
  "schedule_capacity s active \<le> 64"
  "0 < schedule_capacity s active \<Longrightarrow> int (schedule_capacity s active) + int (length active) \<le> global_active s"
  by (auto simp: schedule_capacity_def)

section \<open>Progress of a waiting project\<close>

lemma select_loop_extends:
  "select_loop limit cap ready queues active chosen l = Inr (c, l') \<Longrightarrow> set chosen \<subseteq> set c"
proof (induction limit cap ready queues active chosen l rule: select_loop.induct)
  case (2 limit cap project ready queues active chosen l)
  show ?case
  proof (cases "queues project")
    case Nil
    then show ?thesis using "2.prems" "2.IH"(1) by (auto split: if_splits)
  next
    case (Cons j left)
    then show ?thesis using "2.prems" "2.IH"(1) "2.IH"(2) [OF _ _ Cons]
      by (auto simp: fun_upd_def split: if_splits)
  qed
qed simp

lemma select_loop_reaches:
  assumes "ready = pre @ q # rest" and "q \<notin> set pre" and "queues q = job # waiting" and "active q < limit"
    and "select_loop limit cap ready queues active chosen l = Inr (c, l')"
  shows "job \<in> set c \<or> \<not> length chosen < cap \<or> l' \<in> Some ` set pre"
  using assms
proof (induction limit cap ready queues active chosen l arbitrary: pre rest rule: select_loop.induct)
  case (1 limit cap queues active chosen l)
  then show ?case by simp
next
  case (2 limit cap project ready queues active chosen l)
  show ?case
  proof (cases "length chosen < cap")
    case room: True
    show ?thesis
    proof (cases pre)
      case Nil
      then have p: "project = q" "ready = rest" using "2.prems"(1) by auto
      have "set (chosen @ [job]) \<subseteq> set c"
        by (rule select_loop_extends) (use "2.prems"(3-5) p room in auto)
      then show ?thesis by simp
    next
      case (Cons x xs)
      then have p: "project = x" "ready = xs @ q # rest" "x \<noteq> q" "q \<notin> set xs" using "2.prems"(1,2) by auto
      show ?thesis
      proof (cases "active project \<ge> limit")
        case True
        then show ?thesis
          using "2.IH"(1) [OF _ True p(2,4) "2.prems"(3,4)] "2.prems"(5) room Cons by auto
      next
        case False
        then obtain j left where q: "queues project = j # left"
          using "2.prems"(5) room by (cases "queues project") auto
        let ?again = "if left \<noteq> [] then [project] else []"
        have run: "select_loop limit cap (ready @ ?again) (queues(project := left)) (active(project := active project + 1))
             (chosen @ [j]) (Some project) = Inr (c, l')"
          using "2.prems"(5) room False q by simp
        have "job \<in> set c \<or> \<not> length (chosen @ [j]) < cap \<or> l' \<in> Some ` set xs"
          by (rule "2.IH"(2) [OF _ False q, of xs "rest @ ?again"]) (use p "2.prems"(3,4) room run in \<open>auto simp: fun_upd_def\<close>)
        moreover have "l' = Some project" if "\<not> length (chosen @ [j]) < cap"
        proof -
          have "l' = Some project" if "select_loop limit cap rs qs as cs (Some project) = Inr (c, l')" "\<not> length cs < cap" for rs qs as cs
            using that by (cases rs) auto
          then show ?thesis using run that by blast
        qed
        ultimately show ?thesis using Cons p(1) by auto
      qed
    qed
  qed simp
qed

text \<open>The projects that come before \<open>q\<close> after \<open>l\<close> was served.\<close>

definition ahead :: "string option \<Rightarrow> string \<Rightarrow> string set" where
  "ahead l q = (case l of None \<Rightarrow> {p. p < q} | Some l \<Rightarrow> if l < q then {p. l < p \<and> p < q} else {p. l < p \<or> p < q})"

lemma ahead_shrinks: "l' \<in> ahead l q \<Longrightarrow> ahead (Some l') q \<subseteq> ahead l q - {l'}"
  by (auto simp: ahead_def split: option.splits if_splits)

lemma sorted_before:
  "sorted xs \<Longrightarrow> distinct xs \<Longrightarrow> xs = pre @ q # rest \<Longrightarrow> set pre \<subseteq> {p. p < q}"
  for q :: string
  by (auto simp: sorted_append order.order_iff_strict)

lemma project_order_split:
  assumes "q \<in> pj_project_id ` set js"
  shows "\<exists>pre rest. project_order js l = pre @ q # rest \<and> q \<notin> set pre \<and>
     set pre \<subseteq> ahead l q \<inter> pj_project_id ` set js"
proof -
  obtain pre rest where s: "project_order js l = pre @ q # rest"
    using assms set_project_order [of js l] split_list [of q "project_order js l"] by auto
  have d: "distinct (pre @ q # rest)" using distinct_project_order [of js l] s by simp
  have sub: "set pre \<subseteq> pj_project_id ` set js" using s set_project_order [of js l] by auto
  have "set pre \<subseteq> ahead l q"
  proof (cases l)
    case None
    then have "sort (remdups (map pj_project_id js)) = pre @ q # rest" using s by (simp add: project_order_def)
    then have "sorted (pre @ q # rest)" using sorted_sort by metis
    from sorted_before [OF this d refl] show ?thesis using None by (simp add: ahead_def)
  next
    case (Some m)
    define hi lo where "hi = filter (\<lambda>p. p > m) (sort (remdups (map pj_project_id js)))"
      and "lo = filter (\<lambda>p. p \<le> m) (sort (remdups (map pj_project_id js)))"
    have hl: "hi @ lo = pre @ q # rest" using s Some by (simp add: project_order_def hi_def lo_def Let_def)
    have so: "sorted hi" "sorted lo" "distinct hi" "distinct lo" by (simp_all add: hi_def lo_def sorted_filter [of "\<lambda>x. x", simplified])
    have hi: "\<forall>p\<in>set hi. p > m" and lo: "\<forall>p\<in>set lo. p \<le> m" by (auto simp: hi_def lo_def)
    from hl consider us where "hi = pre @ q # us" | us where "pre = hi @ us" "lo = us @ q # rest"
    proof (cases "length pre < length hi")
      case True
      then have "q # rest = drop (length pre) hi @ lo" "hi = pre @ drop (length pre) hi"
        using hl by (metis append_eq_append_conv_if append_take_drop_id less_imp_le_nat not_less)+
      then show thesis using that(1) True by (cases "drop (length pre) hi") auto
    next
      case False
      then have "pre = hi @ drop (length hi) pre" "lo = drop (length hi) pre @ q # rest"
        using hl by (metis append_eq_append_conv_if append_take_drop_id not_less)+
      then show thesis by (rule that(2))
    qed
    then show ?thesis
    proof cases
      case 1
      then have "set pre \<subseteq> {p. p < q}" "m < q" using sorted_before [OF so(1,3)] hi by auto
      then show ?thesis using Some 1 hi by (auto simp: ahead_def)
    next
      case 2
      then have "set us \<subseteq> {p. p < q}" "q \<le> m" using sorted_before [OF so(2,4)] lo by auto
      then show ?thesis using Some 2 hi by (auto simp: ahead_def)
    qed
  qed
  then show ?thesis using s d sub by auto
qed

text \<open>A project is eligible in a request: it waits, is below its limit, and there is capacity.\<close>

definition eligible :: "scheduler \<Rightarrow> scheduling_request \<Rightarrow> string \<Rightarrow> bool" where
  "eligible s r q \<longleftrightarrow> q \<in> pj_project_id ` set (sr_pending r) \<and> active_count (sr_active r) q < project_active s \<and>
     0 < schedule_capacity s (sr_active r)"

lemma select_jobs_progress:
  assumes "select_jobs s r = Inr (s', c)" and "eligible s r q"
  shows "chosen_of (sr_pending r) q c \<noteq> [] \<or>
    (\<exists>l'. last_project s' = Some l' \<and> l' \<in> ahead (last_project s) q \<and> l' \<in> pj_project_id ` set (sr_pending r))"
proof -
  let ?js = "sr_pending r"
  obtain pre rest where o: "project_order ?js (last_project s) = pre @ q # rest" "q \<notin> set pre"
    "set pre \<subseteq> ahead (last_project s) q \<inter> pj_project_id ` set ?js"
    using project_order_split assms(2) unfolding eligible_def by blast
  obtain job waiting where w: "queue_of ?js q = job # waiting"
    using assms(2) queue_of_empty [of ?js q] by (cases "queue_of ?js q") (auto simp: eligible_def)
  have "select_loop (project_active s) (schedule_capacity s (sr_active r)) (project_order ?js (last_project s))
      (queue_of ?js) (active_count (sr_active r)) [] (last_project s) = Inr (c, last_project s')"
    using assms(1) by (auto simp: select_jobs_def split: if_splits sum.splits)
  from select_loop_reaches [OF o(1,2) w _ this] assms(2)
  have "job \<in> set c \<or> last_project s' \<in> Some ` set pre" by (auto simp: eligible_def)
  then show ?thesis
  proof
    assume "job \<in> set c"
    then have "job \<in> set (chosen_of ?js q c)" using w by (simp add: chosen_of_def)
    then show ?thesis by auto
  qed (use o(3) in auto)
qed

text \<open>A sequence of selections, with the chosen jobs of each.\<close>

fun select_all :: "scheduler \<Rightarrow> scheduling_request list \<Rightarrow> (scheduler \<times> string list list) res" where
  "select_all s [] = Inr (s, [])"
| "select_all s (r # rs) =
     (case select_jobs s r of
        Inl e \<Rightarrow> Inl e
      | Inr (s', c) \<Rightarrow> (case select_all s' rs of Inl e \<Rightarrow> Inl e | Inr (s'', cs) \<Rightarrow> Inr (s'', c # cs)))"

lemma select_jobs_limits:
  "select_jobs s r = Inr (s', c) \<Longrightarrow> global_active s' = global_active s \<and> project_active s' = project_active s"
  by (auto simp: select_jobs_def split: if_splits sum.splits)

lemma no_starvation:
  assumes "select_all s rs = Inr (s', cs)" and "finite P" and "\<forall>r\<in>set rs. pj_project_id ` set (sr_pending r) \<subseteq> P"
    and "\<forall>r\<in>set rs. eligible s r q" and "card (ahead (last_project s) q \<inter> P) < length rs"
  shows "\<exists>(r, c)\<in>set (zip rs cs). chosen_of (sr_pending r) q c \<noteq> []"
  using assms
proof (induction rs arbitrary: s cs)
  case (Cons r rs)
  obtain s1 c cs' where step: "select_jobs s r = Inr (s1, c)" "select_all s1 rs = Inr (s', cs')" "cs = c # cs'"
    using Cons.prems(1) by (auto split: sum.splits)
  show ?case
  proof (cases "chosen_of (sr_pending r) q c = []")
    case True
    then obtain l' where l': "last_project s1 = Some l'" "l' \<in> ahead (last_project s) q" "l' \<in> P"
      using select_jobs_progress [OF step(1), of q] Cons.prems(3,4) by auto
    have "ahead (last_project s1) q \<inter> P \<subset> ahead (last_project s) q \<inter> P"
      using ahead_shrinks [OF l'(2)] l' by auto
    then have "card (ahead (last_project s1) q \<inter> P) < card (ahead (last_project s) q \<inter> P)"
      using Cons.prems(2) by (simp add: psubset_card_mono)
    moreover have "\<forall>r\<in>set rs. eligible s1 r q"
      using Cons.prems(4) select_jobs_limits [OF step(1)] by (simp add: eligible_def schedule_capacity_def)
    ultimately have "\<exists>(r, c)\<in>set (zip rs cs'). chosen_of (sr_pending r) q c \<noteq> []"
      using Cons.IH [OF step(2) Cons.prems(2)] Cons.prems(3,5) by simp
    then show ?thesis using step(3) by auto
  qed (use step(3) in auto)
qed simp

section \<open>Properties\<close>

text \<open>
  C15: a selection returns for every well-formed request, and what it returns is safe to start:
  the chosen identities are distinct pending jobs, at most 64, the global limit holds for the
  active attempts and the chosen jobs together, and so does the limit of every project that is
  chosen from.
\<close>

theorem select_within_limits:
  assumes "distinct (map pj_id (sr_pending r))" and "sr_version r = 1"
  shows "\<exists>s' c. select_jobs s r = Inr (s', c) \<and> distinct c \<and> set c \<subseteq> pj_id ` set (sr_pending r) \<and> length c \<le> 64 \<and>
    (c \<noteq> [] \<longrightarrow> int (length (sr_active r)) + int (length c) \<le> global_active s) \<and>
    (\<forall>p. chosen_of (sr_pending r) p c \<noteq> [] \<longrightarrow>
       active_count (sr_active r) p + int (length (chosen_of (sr_pending r) p c)) \<le> project_active s)"
proof -
  let ?js = "sr_pending r" and ?as = "sr_active r"
  obtain c l where run: "select_jobs s r = Inr (s\<lparr>last_project := l\<rparr>, c)"
    and res: "selection_result (project_active s) (schedule_capacity s ?as) (queue_of ?js) (active_count ?as) c"
    using select_jobs_result [OF assms] by blast
  obtain n k A B where tk: "taken (queue_of ?js) n c" and tu: "turns (project_active s) (queue_of ?js) (active_count ?as) n k A B"
    and len: "length c \<le> schedule_capacity s ?as" by (rule selection_resultE [OF res])
  have "set c \<subseteq> pj_id ` set ?js" using tk by (auto simp: taken_def set_queue_of)
  moreover have "int (length ?as) + int (length c) \<le> global_active s" if "c \<noteq> []"
  proof -
    have "0 < length c" using that by simp
    then show ?thesis using capacity_bounds(2) [of s ?as] len by linarith
  qed
  moreover have "active_count ?as p + int (length (chosen_of ?js p c)) \<le> project_active s"
    if "chosen_of ?js p c \<noteq> []" for p
    using that tu chosen_of_taken(2) [OF tk, of p] unfolding turns_def by (metis length_0_conv)
  ultimately show ?thesis
    using run selection_result_distinct [OF res separate_queue_of [OF assms(1)]] len capacity_bounds(1) [of s ?as] by auto
qed

text \<open>
  A selection is fair. Inside a project the chosen jobs are the oldest ones in order; no
  project gets two turns more than a project that still waits below its limit; and the selection
  stops early only when every project with waiting jobs is at its limit.
\<close>

theorem select_fair:
  assumes "distinct (map pj_id (sr_pending r))" and "select_jobs s r = Inr (s', c)"
    and js: "js = sr_pending r"
  shows "(\<forall>p. \<exists>m. chosen_of js p c = take m (queue_of js p)) \<and>
    (\<forall>p q. chosen_of js q c \<noteq> queue_of js q \<and>
       active_count (sr_active r) q + int (length (chosen_of js q c)) < project_active s \<longrightarrow>
       length (chosen_of js p c) \<le> Suc (length (chosen_of js q c)) \<and> length c = schedule_capacity s (sr_active r))"
proof -
  let ?as = "sr_active r"
  have v: "sr_version r = 1" using assms(2) by (auto simp: select_jobs_def split: if_splits)
  have res: "selection_result (project_active s) (schedule_capacity s ?as) (queue_of js) (active_count ?as) c"
    using select_jobs_result [OF assms(1) v, of s] assms(2) by (auto simp: js)
  obtain n k A B where tk: "taken (queue_of js) n c" and tu: "turns (project_active s) (queue_of js) (active_count ?as) n k A B"
    and stop: "A @ B = [] \<or> length c = schedule_capacity s ?as" by (rule selection_resultE [OF res])
  note n = chosen_of_taken [OF tk]
  have "n p \<le> Suc (n q) \<and> length c = schedule_capacity s ?as"
    if "n q < length (queue_of js q)" "active_count ?as q + int (n q) < project_active s" for p q
  proof -
    have "q \<in> set A \<union> set B" using tu that unfolding turns_def by (meson not_less)
    moreover from this have "k \<le> n q" using tu by (auto simp: turns_def)
    moreover have "n p \<le> Suc k" using tu by (simp add: turns_def)
    ultimately show ?thesis using stop by auto
  qed
  then show ?thesis using n by metis
qed


definition ex_sched :: scheduler where
  "ex_sched = \<lparr>global_active = 2, project_active = 1, last_project = Some ''a''\<rparr>"

definition ex_pending :: "pending_job list" where
  "ex_pending = [\<lparr>pj_id = ''j3'', pj_project_id = ''b'', pj_created_at = 3\<rparr>,
     \<lparr>pj_id = ''j1'', pj_project_id = ''a'', pj_created_at = 1\<rparr>,
     \<lparr>pj_id = ''j2'', pj_project_id = ''a'', pj_created_at = 2\<rparr>]"

definition ex_request :: scheduling_request where
  "ex_request = \<lparr>sr_version = 1, sr_pending = ex_pending,
     sr_active = [\<lparr>ac_id = ''x'', ac_job_id = ''y'', ac_project_id = ''c''\<rparr>]\<rparr>"

lemma ex_create: "create [(''global_active'', 2), (''project_active'', 1)] = Inr (ex_sched\<lparr>last_project := None\<rparr>)"
  by (auto simp: create_def ex_sched_def)

lemma ex_select: "select_jobs ex_sched ex_request = Inr (ex_sched\<lparr>last_project := Some ''b''\<rparr>, [''j3''])"
  by code_simp

lemma ex_select2: "select_jobs (ex_sched\<lparr>last_project := Some ''b''\<rparr>) ex_request = Inr (ex_sched, [''j1''])"
  by code_simp

theorem select_within_limits_witness:
  "\<exists>s' c. select_jobs ex_sched ex_request = Inr (s', c) \<and> set c \<subseteq> {''j1'', ''j2'', ''j3''} \<and> length c \<le> 64"
proof -
  have "distinct (map pj_id (sr_pending ex_request))" "sr_version ex_request = 1"
    by (simp_all add: ex_request_def ex_pending_def)
  from select_within_limits [OF this, of ex_sched] show ?thesis
    by (auto simp: ex_request_def ex_pending_def)
qed

theorem select_fair_witness:
  "\<exists>m. chosen_of ex_pending ''a'' [''j3''] = take m (queue_of ex_pending ''a'')"
proof -
  have "distinct (map pj_id (sr_pending ex_request))" "ex_pending = sr_pending ex_request"
    by (simp_all add: ex_request_def ex_pending_def)
  from select_fair [OF this(1) ex_select this(2)] show ?thesis by blast
qed


end
