(* ===== verification/Work_Schema.thy ===== *)
theory Work_Schema
  imports Exec_Wire
begin

text \<open>
  The schemas of the controller's workload queue (\<open>src/ficc/workloads/schema.py\<close>): submissions,
  durable delegations, job records and the controller's view of an attempt, with the validators
  that every stored document passes.
\<close>

section \<open>Results in sequence\<close>

definition bindr :: "'a res \<Rightarrow> ('a \<Rightarrow> 'b res) \<Rightarrow> 'b res" where
  "bindr m k = (case m of Inl e \<Rightarrow> Inl e | Inr x \<Rightarrow> k x)"

definition ensure :: "bool \<Rightarrow> exn \<Rightarrow> unit res" where
  "ensure ok e = (if ok then Inr () else Inl e)"

lemma bindr_simps [simp]: "bindr (Inl e) k = Inl e" "bindr (Inr x) k = k x"
  by (simp_all add: bindr_def)

lemma bindr_Inr: "bindr m k = Inr y \<longleftrightarrow> (\<exists>x. m = Inr x \<and> k x = Inr y)"
  by (cases m) auto

lemma ensure_Inr [simp]: "ensure ok e = Inr u \<longleftrightarrow> ok"
  by (simp add: ensure_def)

lemma bindr_ensure [simp]: "bindr (ensure ok e) k = (if ok then k () else Inl e)"
  by (simp add: ensure_def)

section \<open>Submissions and delegations\<close>

definition key_char :: "char \<Rightarrow> bool" where
  "key_char c \<longleftrightarrow> is_alnum c \<or> c \<in> set ''_.:-''"

definition Key :: "string \<Rightarrow> bool" where
  "Key s \<longleftrightarrow> 16 \<le> length s \<and> length s \<le> 128 \<and> list_all key_char s"

definition Hex64 :: "string \<Rightarrow> bool" where
  "Hex64 s \<longleftrightarrow> length s = 64 \<and> list_all is_hex s"

record dataset_selection =
  ds_id :: string
  ds_manifest_digest :: string

record submission =
  sub_job :: job
  sub_node_ids :: "string list"
  sub_dataset :: "dataset_selection option"
  sub_model_revision :: "string option"

definition valid_dataset_selection :: "dataset_selection \<Rightarrow> bool" where
  [valid_defs]: "valid_dataset_selection d \<longleftrightarrow> Identity (ds_id d) \<and> Hex64 (ds_manifest_digest d)"

definition input_source :: "submission \<Rightarrow> bool" where
  "input_source s \<longleftrightarrow> \<not> (sub_dataset s \<noteq> None \<and> sub_model_revision s \<noteq> None)"

definition valid_submission :: "submission \<Rightarrow> bool" where
  [valid_defs]: "valid_submission s \<longleftrightarrow> valid_job (sub_job s) \<and> 1 \<le> length (sub_node_ids s) \<and> length (sub_node_ids s) \<le> 64 \<and>
     list_all Identity (sub_node_ids s) \<and> distinct (sub_node_ids s) \<and> pred_option valid_dataset_selection (sub_dataset s) \<and>
     pred_option Identity (sub_model_revision s) \<and> input_source s"

definition submission_dump :: "submission \<Rightarrow> json" where
  "submission_dump s = JObj
     ((case sub_dataset s of None \<Rightarrow> []
       | Some d \<Rightarrow> [(''dataset'', JObj [(''id'', JStr (ds_id d)), (''manifest_digest'', JStr (ds_manifest_digest d))])]) @
      [(''job'', job_dump (sub_job s))] @
      (case sub_model_revision s of None \<Rightarrow> [] | Some r \<Rightarrow> [(''model_revision'', JStr r)]) @
      [(''node_ids'', JArr (map JStr (sub_node_ids s)))])"

record delegation =
  del_id :: string
  del_subject_id :: string
  del_project_id :: string
  del_credential_id :: string
  del_scopes :: "string list"
  del_subject_revision :: int
  del_project_revision :: int
  del_membership_revision :: int
  del_policy_revision :: int
  del_role_revision :: int
  del_policy_digest :: "string option"
  del_publisher_revision :: int

definition valid_delegation :: "delegation \<Rightarrow> bool" where
  [valid_defs]: "valid_delegation d \<longleftrightarrow> Identity (del_id d) \<and> Identity (del_subject_id d) \<and> Identity (del_project_id d) \<and>
     Identity (del_credential_id d) \<and> length (del_scopes d) \<le> 128 \<and> distinct (del_scopes d) \<and>
     Count (del_subject_revision d) \<and> Count (del_project_revision d) \<and> Count (del_membership_revision d) \<and>
     Count (del_policy_revision d) \<and> Count (del_role_revision d) \<and> pred_option Hex64 (del_policy_digest d) \<and>
     Count (del_publisher_revision d)"

section \<open>Job records\<close>

record job_record =
  rec_id :: string
  rec_subject_id :: string
  rec_project_id :: string
  rec_actor :: string
  rec_key :: string
  rec_digest :: string
  rec_request :: submission
  rec_delegation :: delegation
  rec_state :: wstate
  rec_reason :: "string option"
  rec_current_attempt :: "string option"
  rec_generation :: int
  rec_cancelled :: bool
  rec_created_at :: rat
  rec_updated_at :: rat
  rec_revision :: int

definition ownership :: "job_record \<Rightarrow> bool" where
  "ownership r \<longleftrightarrow>
     \<not> ((rec_subject_id r, rec_project_id r) \<noteq> (del_subject_id (rec_delegation r), del_project_id (rec_delegation r))) \<and>
     \<not> (rec_updated_at r < rec_created_at r \<or> (rec_current_attempt r = None) \<noteq> (rec_generation r = 0))"

definition valid_record :: "job_record \<Rightarrow> bool" where
  [valid_defs]: "valid_record r \<longleftrightarrow> Identity (rec_id r) \<and> Identity (rec_subject_id r) \<and> Identity (rec_project_id r) \<and>
     Identity (rec_actor r) \<and> Key (rec_key r) \<and> Digest (rec_digest r) \<and> valid_submission (rec_request r) \<and>
     valid_delegation (rec_delegation r) \<and> rec_state r \<notin> {Released, Abandoned} \<and> pred_option Name (rec_reason r) \<and>
     pred_option Identity (rec_current_attempt r) \<and> Count (rec_generation r) \<and> 0 \<le> rec_created_at r \<and>
     0 \<le> rec_updated_at r \<and> Revision (rec_revision r) \<and> ownership r"

section \<open>Attempts\<close>

record wattempt =
  wa_id :: string
  wa_job_id :: string
  wa_node_id :: string
  wa_installation_id :: string
  wa_ledger_id :: "string option"
  wa_admission_version :: int
  wa_plan :: plan
  wa_lease :: renewal
  wa_observed :: "attempt_result option"
  wa_outcome :: "attempt_result option"
  wa_start_requested :: bool
  wa_state :: wstate
  wa_created_at :: rat
  wa_updated_at :: rat

definition same_fence :: "'a fence_scheme \<Rightarrow> plan \<Rightarrow> bool" where
  "same_fence f p \<longleftrightarrow> (f_attempt_id f, f_generation f, f_plan_digest f) = (plan_attempt_id p, plan_generation p, digest_of_plan p)"

definition attempt_binding :: "wattempt \<Rightarrow> bool" where
  "attempt_binding a \<longleftrightarrow>
     (wa_admission_version a = 1) = (wa_ledger_id a \<noteq> None) \<and>
     (wa_id a, wa_job_id a, wa_node_id a) = (plan_attempt_id (wa_plan a), plan_job_id (wa_plan a), plan_node_id (wa_plan a)) \<and>
     same_fence (wa_lease a) (wa_plan a) \<and>
     pred_option (\<lambda>r. same_fence r (wa_plan a)) (wa_observed a) \<and>
     pred_option (\<lambda>r. same_fence r (wa_plan a) \<and> res_state r \<in> terminal \<union> {Unknown}) (wa_outcome a) \<and>
     \<not> (wa_state a = Released \<and> (case wa_observed a of None \<Rightarrow> True | Some r \<Rightarrow> \<not> res_cleanup_confirmed r)) \<and>
     \<not> wa_updated_at a < wa_created_at a"

definition valid_wattempt :: "wattempt \<Rightarrow> bool" where
  [valid_defs]: "valid_wattempt a \<longleftrightarrow> Identity (wa_id a) \<and> Identity (wa_job_id a) \<and> Identity (wa_node_id a) \<and>
     Identity (wa_installation_id a) \<and> pred_option Identity (wa_ledger_id a) \<and> wa_admission_version a \<in> {0, 1} \<and>
     valid_plan (wa_plan a) \<and> valid_renewal (wa_lease a) \<and> pred_option valid_attempt_result (wa_observed a) \<and>
     pred_option valid_attempt_result (wa_outcome a) \<and> wa_state a \<noteq> Queued \<and> 0 \<le> wa_created_at a \<and>
     0 \<le> wa_updated_at a \<and> attempt_binding a"

text \<open>\<open>node_records.Observation\<close>: an observed snapshot with its time.\<close>

record node_observation =
  no_snapshot :: snapshot
  no_observed_at :: rat

end
