(* ===== verification/Work_Records.thy ===== *)
theory Work_Records
  imports Work_Schema
begin

text \<open>
  The controller's durable workload records (\<open>src/ficc/workloads/records.py\<close>), the observed
  offers of its nodes (\<open>node_records.py\<close>), the usage report (\<open>usage.py\<close>) and the common GPU
  exclusion (\<open>src/ficc/inference/admission.py\<close>). A store is the tables of jobs, attempts and nodes, with
  what the operations read of other tables: the policy revision, the GPUs of active SSH jobs and
  which contributors are disabled. Every operation is one transaction: it returns the new store
  and a value, or raises and leaves the store as it was. Stored documents are the values
  themselves: the JSON text of a validated model is read back as that model.

  \<open>clk n\<close> is the \<open>n\<close>-th reading of \<open>time.time()\<close> in an operation; \<open>token\<close> is the random identity.
\<close>

section \<open>The store\<close>

record job_row =
  jrow_id :: string
  jrow_subject_id :: string
  jrow_project_id :: string
  jrow_key :: string
  jrow_digest :: string
  jrow_value :: job_record

record wattempt_row =
  wrow_id :: string
  wrow_job_id :: string
  wrow_node_id :: string
  wrow_value :: wattempt

record audit_entry =
  au_action :: string
  au_target :: string
  au_outcome :: string
  au_actor :: string

record work_store =
  ws_jobs :: "job_row list"
  ws_attempts :: "wattempt_row list"
  ws_policy_revision :: int
  ws_ssh_gpus :: "string list"
  ws_contributors :: "(string \<times> bool) list"
  ws_nodes :: "(string \<times> node_observation) list"
  ws_suspended :: bool
  ws_audit :: "audit_entry list"

definition empty_store :: work_store where
  "empty_store = \<lparr>ws_jobs = [], ws_attempts = [], ws_policy_revision = 0, ws_ssh_gpus = [], ws_contributors = [],
     ws_nodes = [], ws_suspended = False, ws_audit = []\<rparr>"

type_synonym 'a work_op = "work_store \<Rightarrow> (work_store \<times> 'a) res"

definition get_job :: "work_store \<Rightarrow> string \<Rightarrow> job_record res" where
  "get_job s i = (case find_row jrow_id (ws_jobs s) i of None \<Rightarrow> Inl (Failure ''not_found'' 404) | Some r \<Rightarrow> Inr (jrow_value r))"

definition get_attempt :: "work_store \<Rightarrow> string \<Rightarrow> wattempt res" where
  "get_attempt s i = (case find_row wrow_id (ws_attempts s) i of None \<Rightarrow> Inl (Failure ''not_found'' 404) | Some r \<Rightarrow> Inr (wrow_value r))"

text \<open>\<open>jobs\<close> and \<open>attempts\<close>: an empty filter is no filter; \<open>ORDER BY id\<close>.\<close>

definition list_jobs :: "work_store \<Rightarrow> string option \<Rightarrow> job_record list" where
  "list_jobs s project =
     map jrow_value (sort_key jrow_id
       (filter (\<lambda>r. case project of None \<Rightarrow> True | Some p \<Rightarrow> p = [] \<or> jrow_project_id r = p) (ws_jobs s)))"

definition list_attempts :: "work_store \<Rightarrow> string option \<Rightarrow> wattempt list" where
  "list_attempts s node =
     map wrow_value (sort_key wrow_id
       (filter (\<lambda>r. case node of None \<Rightarrow> True | Some n \<Rightarrow> n = [] \<or> wrow_node_id r = n) (ws_attempts s)))"

definition put_job :: "job_record \<Rightarrow> work_store \<Rightarrow> work_store" where
  "put_job v s = s\<lparr>ws_jobs := put_row jrow_id (rec_id v) (\<lambda>r. r\<lparr>jrow_value := v\<rparr>) (ws_jobs s)\<rparr>"

definition put_attempt :: "wattempt \<Rightarrow> work_store \<Rightarrow> work_store" where
  "put_attempt v s = s\<lparr>ws_attempts := put_row wrow_id (wa_id v) (\<lambda>r. r\<lparr>wrow_value := v\<rparr>) (ws_attempts s)\<rparr>"

definition save_job :: "rat \<Rightarrow> job_record \<Rightarrow> job_record work_op" where
  "save_job now v s =
     (let w = v\<lparr>rec_updated_at := max (rec_updated_at v) now, rec_revision := rec_revision v + 1\<rparr>
      in if valid_record w then Inr (put_job w s, w) else Inl ValueError)"

definition save_attempt :: "rat \<Rightarrow> wattempt \<Rightarrow> wattempt work_op" where
  "save_attempt now v s =
     (let w = v\<lparr>wa_updated_at := max (wa_updated_at v) now\<rparr>
      in if valid_wattempt w then Inr (put_attempt w s, w) else Inl ValueError)"

definition audit :: "string \<Rightarrow> job_record \<Rightarrow> wattempt \<Rightarrow> string \<Rightarrow> work_store \<Rightarrow> work_store" where
  "audit action job attempt outcome s =
     s\<lparr>ws_audit := ws_audit s @ [\<lparr>au_action = action, au_target = wa_id attempt, au_outcome = outcome, au_actor = rec_actor job\<rparr>]\<rparr>"

section \<open>Submission and reservation\<close>

definition submit_job :: "(nat \<Rightarrow> rat) \<Rightarrow> string \<Rightarrow> submission \<Rightarrow> string \<Rightarrow> delegation \<Rightarrow> job_record work_op" where
  "submit_job clk token request key dele s =
     (let binding = digest (submission_dump request) in
      case find (\<lambda>r. jrow_subject_id r = del_subject_id dele \<and> jrow_project_id r = del_project_id dele \<and> jrow_key r = key) (ws_jobs s) of
        Some r \<Rightarrow>
          if rec_digest (jrow_value r) \<noteq> binding then Inl (Failure ''idempotency_conflict'' 409) else Inr (s, jrow_value r)
      | None \<Rightarrow>
          if length (ws_jobs s) \<ge> 2048 then Inl (Failure ''capacity'' 409)
          else
            let v = \<lparr>rec_id = token, rec_subject_id = del_subject_id dele, rec_project_id = del_project_id dele,
                  rec_actor = del_credential_id dele, rec_key = key, rec_digest = binding, rec_request = request,
                  rec_delegation = dele, rec_state = Queued, rec_reason = None, rec_current_attempt = None,
                  rec_generation = 0, rec_cancelled = False, rec_created_at = clk 0, rec_updated_at = clk 0,
                  rec_revision = 1\<rparr>;
                row = \<lparr>jrow_id = token, jrow_subject_id = rec_subject_id v, jrow_project_id = rec_project_id v,
                  jrow_key = key, jrow_digest = binding, jrow_value = v\<rparr>
            in if \<not> valid_record v then Inl ValueError
               else if find_row jrow_id (ws_jobs s) token \<noteq> None then Inl IntegrityError
               else Inr (s\<lparr>ws_jobs := add_row row (ws_jobs s)\<rparr>, v))"

definition attempt_gpus :: "wattempt \<Rightarrow> string set" where
  "attempt_gpus a = set (gpu_devices (job_limits (plan_job (wa_plan a))))"

definition require_free :: "work_store \<Rightarrow> string list \<Rightarrow> unit res" where
  "require_free s devices =
     (if devices = [] then Inr ()
      else if set devices \<inter> set (ws_ssh_gpus s) \<noteq> {} then Inl (Failure ''gpu_reserved'' 409)
      else if list_ex (\<lambda>a. set devices \<inter> attempt_gpus a \<noteq> {} \<and> wa_state a \<noteq> Released \<and>
          (case wa_observed a of None \<Rightarrow> True | Some r \<Rightarrow> \<not> res_cleanup_confirmed r)) (list_attempts s None)
      then Inl (Failure ''gpu_reserved'' 409) else Inr ())"

definition attempt_limit :: "(limits \<Rightarrow> int) \<Rightarrow> wattempt \<Rightarrow> int" where
  "attempt_limit f a = f (job_limits (plan_job (wa_plan a)))"

definition wtotal :: "(limits \<Rightarrow> int) \<Rightarrow> wattempt list \<Rightarrow> int" where
  "wtotal f as = sum_list (map (attempt_limit f) as)"

definition summed :: "(limits \<Rightarrow> int) list" where
  "summed = [cpu_millis, memory_bytes, swap_bytes, processes, storage_bytes, storage_inodes]"

definition queued_for :: "work_store \<Rightarrow> job_record \<Rightarrow> plan \<Rightarrow> bool" where
  "queued_for s job p \<longleftrightarrow>
     \<not> (rec_cancelled job \<or> rec_state job \<noteq> Queued \<or> rec_generation job + 1 \<noteq> plan_generation p
        \<or> rec_subject_id job \<noteq> plan_subject_id p \<or> rec_project_id job \<noteq> plan_project_id p
        \<or> plan_node_id p \<notin> set (sub_node_ids (rec_request job)) \<or> sub_job (rec_request job) \<noteq> plan_job p
        \<or> ws_policy_revision s \<noteq> plan_policy_revision p)"

definition held_on :: "work_store \<Rightarrow> string \<Rightarrow> wattempt list" where
  "held_on s node = filter (\<lambda>a. wa_state a \<noteq> Released) (list_attempts s (Some node))"

definition reserve_checks :: "work_store \<Rightarrow> plan \<Rightarrow> limits \<Rightarrow> unit res" where
  "reserve_checks s p capacity =
     (let held = held_on s (plan_node_id p); l = job_limits (plan_job p) in
      bindr (require_free s (gpu_devices l)) (\<lambda>_.
      if \<not> fits l capacity then Inl (Failure ''capacity'' 409)
      else if list_ex (\<lambda>f. wtotal f held + f l > f capacity) summed then Inl (Failure ''capacity'' 409)
      else if list_ex (\<lambda>a. set (gpu_devices l) \<inter> attempt_gpus a \<noteq> {}) held then Inl (Failure ''capacity'' 409)
      else if length (ws_attempts s) \<ge> 8192 then Inl (Failure ''capacity'' 409)
      else Inr ()))"

definition new_attempt :: "plan \<Rightarrow> renewal \<Rightarrow> string \<Rightarrow> string option \<Rightarrow> int \<Rightarrow> string \<Rightarrow> rat \<Rightarrow> wattempt" where
  "new_attempt p lease installation ledger version job now =
     \<lparr>wa_id = plan_attempt_id p, wa_job_id = job, wa_node_id = plan_node_id p, wa_installation_id = installation,
      wa_ledger_id = ledger, wa_admission_version = version, wa_plan = p, wa_lease = lease, wa_observed = None,
      wa_outcome = None, wa_start_requested = False, wa_state = Preparing, wa_created_at = now, wa_updated_at = now\<rparr>"

definition insert_wattempt :: "wattempt \<Rightarrow> string \<Rightarrow> work_store \<Rightarrow> work_store res" where
  "insert_wattempt a job s =
     (if find_row wrow_id (ws_attempts s) (wa_id a) \<noteq> None then Inl IntegrityError
      else Inr (s\<lparr>ws_attempts := add_row \<lparr>wrow_id = wa_id a, wrow_job_id = job, wrow_node_id = wa_node_id a, wrow_value = a\<rparr> (ws_attempts s)\<rparr>))"

definition reserve_attempt :: "(nat \<Rightarrow> rat) \<Rightarrow> plan \<Rightarrow> renewal \<Rightarrow> string \<Rightarrow> limits \<Rightarrow> string option \<Rightarrow> int \<Rightarrow> wattempt work_op" where
  "reserve_attempt clk p lease installation capacity ledger version s =
     bindr (get_job s (plan_job_id p)) (\<lambda>job.
     bindr (ensure (queued_for s job p) (Failure ''workload_changed'' 409)) (\<lambda>_.
     bindr (ensure (\<not> (ren_sequence lease \<noteq> 1 \<or> ren_expires_at lease \<le> clk 0)) (Failure ''lease_expired'' 409)) (\<lambda>_.
     bindr (reserve_checks s p capacity) (\<lambda>_.
     let a = new_attempt p lease installation ledger version (rec_id job) (clk 1) in
     bindr (ensure (valid_wattempt a) ValueError) (\<lambda>_.
     bindr (insert_wattempt a (rec_id job) s) (\<lambda>s1.
     bindr (save_job (clk 2) (job\<lparr>rec_current_attempt := Some (wa_id a), rec_generation := plan_generation p,
         rec_state := Preparing, rec_reason := None\<rparr>) s1) (\<lambda>(s2, j).
       Inr (audit ''workload.admit'' j a ''preparing'' s2, a))))))))"

section \<open>Observations\<close>

definition same_outcome :: "attempt_result \<Rightarrow> attempt_result \<Rightarrow> bool" where
  "same_outcome a b \<longleftrightarrow> a\<lparr>res_cleanup_confirmed := False\<rparr> = b\<lparr>res_cleanup_confirmed := False\<rparr>"

definition final_result :: "attempt_result \<Rightarrow> bool" where
  "final_result r \<longleftrightarrow> res_state r \<in> terminal \<or> res_state r = Unknown \<and> res_cleanup_confirmed r"

definition cleaned :: "wattempt \<Rightarrow> bool" where
  "cleaned a \<longleftrightarrow> (case wa_observed a of None \<Rightarrow> False | Some r \<Rightarrow> res_cleanup_confirmed r)"

definition observed_attempt :: "wattempt \<Rightarrow> attempt_result \<Rightarrow> wattempt res" where
  "observed_attempt a r =
     bindr (if final_result r
            then (case wa_outcome a of
                None \<Rightarrow> Inr (a\<lparr>wa_outcome := Some r\<rparr>)
              | Some o1 \<Rightarrow> if \<not> same_outcome o1 r then Inl (Failure ''attempt_changed'' 409) else Inr (a\<lparr>wa_outcome := Some r\<rparr>))
            else Inr a)
       (\<lambda>b. Inr (b\<lparr>wa_observed := Some r, wa_state := res_state r\<rparr>))"

definition observe_job :: "(nat \<Rightarrow> rat) \<Rightarrow> job_record \<Rightarrow> wattempt \<Rightarrow> attempt_result \<Rightarrow> job_record work_op" where
  "observe_job clk job b r s =
     (if res_state r \<noteq> Released then
        (if (rec_state job, rec_reason job) \<noteq> (res_state r, res_reason r)
         then save_job (clk 0) (job\<lparr>rec_state := res_state r, rec_reason := res_reason r\<rparr>) s
         else Inr (s, job))
      else if rec_state job \<notin> terminal \<union> {Unknown} \<or> wa_outcome b = None then Inl (Failure ''attempt_changed'' 409)
      else Inr (s, job))"

definition audit_observation :: "job_record \<Rightarrow> wattempt \<Rightarrow> wattempt \<Rightarrow> attempt_result \<Rightarrow> work_store \<Rightarrow> work_store" where
  "audit_observation j a c r s =
     (let s1 = (if wa_state a \<noteq> wa_state c then audit ''workload.observe'' j c (state_str (wa_state c)) s else s)
      in if \<not> cleaned a \<and> res_cleanup_confirmed r then audit ''workload.cleanup'' j c ''confirmed'' s1 else s1)"

definition observe_live :: "(nat \<Rightarrow> rat) \<Rightarrow> wattempt \<Rightarrow> attempt_result \<Rightarrow> wattempt work_op" where
  "observe_live clk a r s =
     bindr (ensure (\<not> (wa_state a \<in> terminal \<and> res_state r \<notin> {wa_state a, Released, Unknown})) (Failure ''attempt_changed'' 409)) (\<lambda>_.
     bindr (ensure (\<not> ((wa_start_requested a \<or> wa_state a \<in> {Starting, Running}) \<and> res_state r = Prepared)) (Failure ''attempt_changed'' 409)) (\<lambda>_.
     bindr (get_job s (wa_job_id a)) (\<lambda>job.
     bindr (ensure (rec_current_attempt job = Some (wa_id a)) (Failure ''attempt_changed'' 409)) (\<lambda>_.
     bindr (observed_attempt a r) (\<lambda>b.
     bindr (observe_job clk job b r s) (\<lambda>(s1, j).
     bindr (save_attempt (clk 1) b s1) (\<lambda>(s2, c).
       Inr (audit_observation j a c r s2, c))))))))"

definition observe_attempt :: "(nat \<Rightarrow> rat) \<Rightarrow> attempt_result \<Rightarrow> string \<Rightarrow> string \<Rightarrow> wattempt work_op" where
  "observe_attempt clk r node installation s =
     bindr (get_attempt s (f_attempt_id r)) (\<lambda>a.
     bindr (ensure (wa_state a \<noteq> Abandoned) (Failure ''attempt_abandoned'' 409)) (\<lambda>_.
     bindr (ensure (\<not> ((wa_node_id a, wa_installation_id a) \<noteq> (node, installation) \<or> f_generation r \<noteq> plan_generation (wa_plan a)
         \<or> f_plan_digest r \<noteq> digest_of_plan (wa_plan a))) (Failure ''attempt_changed'' 409)) (\<lambda>_.
     if wa_state a = Released then
       (if Some r \<noteq> wa_observed a then Inl (Failure ''attempt_changed'' 409) else Inr (s, a))
     else observe_live clk a r s)))"

definition transition_allowed :: "wstate \<Rightarrow> wstate \<Rightarrow> bool" where
  "transition_allowed expected state \<longleftrightarrow> (expected, state) \<in> {(Prepared, Starting), (Preparing, Unknown),
     (Starting, Unknown), (Running, Unknown), (Prepared, Unknown)}"

definition transition_attempt :: "(nat \<Rightarrow> rat) \<Rightarrow> string \<Rightarrow> wstate \<Rightarrow> wstate \<Rightarrow> string option \<Rightarrow> wattempt work_op" where
  "transition_attempt clk i expected state reason s =
     bindr (ensure (transition_allowed expected state) ValueError) (\<lambda>_.
     bindr (get_attempt s i) (\<lambda>a.
     bindr (get_job s (wa_job_id a)) (\<lambda>job.
     bindr (ensure (\<not> (wa_state a \<noteq> expected \<or> rec_current_attempt job \<noteq> Some i \<or> rec_cancelled job \<and> state = Starting))
         (Failure ''attempt_changed'' 409)) (\<lambda>_.
     bindr (save_attempt (clk 0) (a\<lparr>wa_state := state, wa_start_requested := (wa_start_requested a \<or> state = Starting)\<rparr>) s) (\<lambda>(s1, b).
     bindr (save_job (clk 1) (job\<lparr>rec_state := state, rec_reason := reason\<rparr>) s1) (\<lambda>(s2, j).
       Inr (audit (if state = Starting then ''workload.start'' else ''workload.observe'') j b (state_str state) s2, b)))))))"

definition renew_attempt :: "(nat \<Rightarrow> rat) \<Rightarrow> string \<Rightarrow> rat \<Rightarrow> renewal work_op" where
  "renew_attempt clk i expires s =
     bindr (get_attempt s i) (\<lambda>a.
     bindr (get_job s (wa_job_id a)) (\<lambda>job.
     bindr (ensure (\<not> (wa_state a \<notin> {Prepared, Starting, Running} \<or> rec_cancelled job \<or> rec_current_attempt job \<noteq> Some i
         \<or> ren_expires_at (wa_lease a) \<le> clk 0
         \<or> \<not> (ren_expires_at (wa_lease a) < expires \<and> expires \<le> clk 1 + 30))) (Failure ''lease_expired'' 409)) (\<lambda>_.
     let l = \<lparr>f_attempt_id = i, f_generation = plan_generation (wa_plan a), f_plan_digest = digest_of_plan (wa_plan a),
         ren_sequence = ren_sequence (wa_lease a) + 1, ren_expires_at = expires\<rparr> in
     bindr (ensure (valid_renewal l) ValueError) (\<lambda>_.
     bindr (save_attempt (clk 2) (a\<lparr>wa_lease := l\<rparr>) s) (\<lambda>(s1, b). Inr (s1, wa_lease b))))))"

section \<open>Decisions of the owner\<close>

definition cancel_job :: "(nat \<Rightarrow> rat) \<Rightarrow> string \<Rightarrow> int \<Rightarrow> job_record work_op" where
  "cancel_job clk i revision s =
     bindr (get_job s i) (\<lambda>job.
     bindr (ensure (rec_revision job = revision) (Failure ''revision_conflict'' 409)) (\<lambda>_.
       save_job (clk 0) (if rec_state job = Queued
         then job\<lparr>rec_cancelled := True, rec_state := Cancelled, rec_reason := Some ''cancelled_before_dispatch''\<rparr>
         else job\<lparr>rec_cancelled := True\<rparr>) s))"

definition retry_job :: "(nat \<Rightarrow> rat) \<Rightarrow> string \<Rightarrow> int \<Rightarrow> delegation \<Rightarrow> bool \<Rightarrow> job_record work_op" where
  "retry_job clk i revision dele acknowledge_unknown s =
     bindr (get_job s i) (\<lambda>job.
     bindr (ensure (\<not> (rec_revision job \<noteq> revision \<or>
         rec_state job \<notin> terminal \<union> (if acknowledge_unknown then {Unknown} else {}))) (Failure ''workload_unresolved'' 409)) (\<lambda>_.
     bindr (case rec_current_attempt job of
         None \<Rightarrow> Inr ()
       | Some c \<Rightarrow> bindr (get_attempt s c) (\<lambda>a. ensure (wa_state a = Released) (Failure ''workload_unresolved'' 409))) (\<lambda>_.
       save_job (clk 0) (job\<lparr>rec_delegation := dele, rec_state := Queued, rec_reason := None, rec_cancelled := False\<rparr>) s)))"

definition mark_pending :: "(nat \<Rightarrow> rat) \<Rightarrow> string \<Rightarrow> string option \<Rightarrow> job_record work_op" where
  "mark_pending clk i reason s =
     bindr (get_job s i) (\<lambda>job.
       if rec_state job = Queued \<and> rec_reason job \<noteq> reason then save_job (clk 0) (job\<lparr>rec_reason := reason\<rparr>) s
       else Inr (s, job))"

definition abandoned_outcome :: "wattempt \<Rightarrow> attempt_result" where
  "abandoned_outcome a =
     \<lparr>f_attempt_id = wa_id a, f_generation = plan_generation (wa_plan a), f_plan_digest = digest_of_plan (wa_plan a),
      res_state = Unknown, res_reason = Some ''operator_abandoned'', res_exit_code = None,
      res_output_bytes = (case wa_observed a of None \<Rightarrow> 0 | Some r \<Rightarrow> res_output_bytes r),
      res_error_bytes = (case wa_observed a of None \<Rightarrow> 0 | Some r \<Rightarrow> res_error_bytes r), res_cleanup_confirmed = False\<rparr>"

definition abandon_job :: "(nat \<Rightarrow> rat) \<Rightarrow> string \<Rightarrow> int \<Rightarrow> job_record work_op" where
  "abandon_job clk i revision s =
     bindr (get_job s i) (\<lambda>job.
     bindr (ensure (\<not> (rec_revision job \<noteq> revision \<or> rec_state job \<noteq> Unknown \<or> rec_current_attempt job = None))
         (Failure ''workload_unresolved'' 409)) (\<lambda>_.
     bindr (get_attempt s (the (rec_current_attempt job))) (\<lambda>a.
     bindr (ensure (wa_state a \<notin> {Released, Abandoned}) (Failure ''attempt_changed'' 409)) (\<lambda>_.
     bindr (case map_of (ws_contributors s) (wa_node_id a) of None \<Rightarrow> Inl (Failure ''not_found'' 404) | Some d \<Rightarrow> Inr d) (\<lambda>disabled.
     bindr (ensure disabled (Failure ''contributor_active'' 409)) (\<lambda>_.
     bindr (save_attempt (clk 0) (a\<lparr>wa_state := Abandoned,
         wa_outcome := (case wa_outcome a of None \<Rightarrow> Some (abandoned_outcome a) | Some r \<Rightarrow> Some r)\<rparr>) s) (\<lambda>(s1, b).
       save_job (clk 1) (job\<lparr>rec_cancelled := True, rec_reason := Some ''operator_abandoned''\<rparr>) s1)))))))"

definition resolved :: "wattempt \<Rightarrow> bool" where
  "resolved a \<longleftrightarrow> wa_state a \<in> {Released, Abandoned}"

definition remove_job :: "string \<Rightarrow> int \<Rightarrow> unit work_op" where
  "remove_job i revision s =
     bindr (get_job s i) (\<lambda>job.
     let attempts = filter (\<lambda>a. wa_job_id a = rec_id job) (list_attempts s None);
         retired = (rec_state job = Unknown \<and> attempts \<noteq> [] \<and> list_all resolved attempts)
     in bindr (ensure (\<not> (rec_revision job \<noteq> revision \<or> rec_state job \<notin> terminal \<and> \<not> retired \<or> list_ex (\<lambda>a. \<not> resolved a) attempts))
           (Failure ''workload_unresolved'' 409)) (\<lambda>_.
         Inr (s\<lparr>ws_attempts := filter (\<lambda>r. wrow_job_id r \<noteq> i) (ws_attempts s),
                ws_jobs := filter (\<lambda>r. jrow_id r \<noteq> i) (ws_jobs s)\<rparr>, ())))"

text \<open>\<open>suspend\<close> edits the stored documents without the checks of \<open>save_job\<close>.\<close>

definition suspend :: "work_store \<Rightarrow> work_store" where
  "suspend s = s\<lparr>ws_suspended := True,
     ws_jobs := map (\<lambda>r. r\<lparr>jrow_value := (jrow_value r)\<lparr>rec_cancelled := True, rec_revision := rec_revision (jrow_value r) + 1\<rparr>\<rparr>) (ws_jobs s)\<rparr>"

section \<open>Observed offers of the nodes\<close>

definition node_replaced :: "snapshot \<Rightarrow> snapshot \<Rightarrow> bool" where
  "node_replaced previous n \<longleftrightarrow> sn_installation_id previous \<noteq> sn_installation_id n \<or>
     sn_ledger_id previous \<noteq> None \<and> sn_ledger_id previous \<noteq> sn_ledger_id n"

definition offer_stale :: "snapshot \<Rightarrow> snapshot \<Rightarrow> bool" where
  "offer_stale previous n \<longleftrightarrow> sn_installation_id previous = sn_installation_id n \<and>
     (off_revision (sn_offer previous) > off_revision (sn_offer n) \<or>
      off_revision (sn_offer previous) = off_revision (sn_offer n) \<and> sn_offer previous \<noteq> sn_offer n)"

definition save_node :: "(nat \<Rightarrow> rat) \<Rightarrow> snapshot \<Rightarrow> node_observation work_op" where
  "save_node clk n s =
     bindr (case map_of (ws_nodes s) (sn_node_id n) of
         None \<Rightarrow> Inr ()
       | Some previous \<Rightarrow>
           if node_replaced (no_snapshot previous) n \<and> held_on s (sn_node_id n) \<noteq> [] then Inl (Failure ''executor_replaced'' 409)
           else if offer_stale (no_snapshot previous) n then Inl (Failure ''offer_changed'' 409) else Inr ()) (\<lambda>_.
     let v = \<lparr>no_snapshot = n\<lparr>sn_attempts := [], sn_next := None\<rparr>, no_observed_at = clk 0\<rparr> in
     bindr (ensure (0 \<le> clk 0) ValueError) (\<lambda>_. Inr (s\<lparr>ws_nodes := AList.update (sn_node_id n) v (ws_nodes s)\<rparr>, v)))"

definition all_nodes :: "work_store \<Rightarrow> node_observation list" where
  "all_nodes s = map snd (sort_key fst (ws_nodes s))"

definition node_row_bad :: "string list \<Rightarrow> string \<times> node_observation \<Rightarrow> bool" where
  "node_row_bad nodes = (\<lambda>(i, v). i \<notin> set nodes \<or> sn_node_id (no_snapshot v) \<noteq> i \<or> sn_attempts (no_snapshot v) \<noteq> []
     \<or> sn_next (no_snapshot v) \<noteq> None)"

section \<open>Validation before a backup\<close>

definition job_row_bad :: "string list \<Rightarrow> string list \<Rightarrow> bool \<Rightarrow> job_row \<Rightarrow> bool" where
  "job_row_bad subjects projects quiescent r \<longleftrightarrow>
     (let v = jrow_value r in
      \<not> valid_record v \<or>
      (jrow_id r, jrow_subject_id r, jrow_project_id r, jrow_key r, jrow_digest r) \<noteq>
        (rec_id v, rec_subject_id v, rec_project_id v, rec_key v, rec_digest v) \<or>
      jrow_subject_id r \<notin> set subjects \<or> jrow_project_id r \<notin> set projects \<or>
      jrow_digest r \<noteq> digest (submission_dump (rec_request v)) \<or>
      quiescent \<and> rec_state v \<notin> terminal \<union> {Unknown})"

definition attempt_row_bad :: "work_store \<Rightarrow> string list \<Rightarrow> bool \<Rightarrow> wattempt_row \<Rightarrow> bool" where
  "attempt_row_bad s nodes quiescent r \<longleftrightarrow>
     (let a = wrow_value r in
      \<not> valid_wattempt a \<or>
      (wrow_id r, wrow_job_id r, wrow_node_id r) \<noteq> (wa_id a, wa_job_id a, wa_node_id a) \<or>
      (case find_row jrow_id (ws_jobs s) (wrow_job_id r) of
         None \<Rightarrow> True
       | Some j \<Rightarrow>
           wrow_node_id r \<notin> set nodes \<or>
           plan_subject_id (wa_plan a) \<noteq> rec_subject_id (jrow_value j) \<or>
           plan_project_id (wa_plan a) \<noteq> rec_project_id (jrow_value j) \<or>
           plan_job (wa_plan a) \<noteq> sub_job (rec_request (jrow_value j)) \<or>
           wrow_node_id r \<notin> set (sub_node_ids (rec_request (jrow_value j)))) \<or>
      wa_state a = Abandoned \<and> map_of (ws_contributors s) (wrow_node_id r) \<noteq> Some True \<or>
      quiescent \<and> \<not> resolved a)"

definition generations :: "work_store \<Rightarrow> string \<Rightarrow> int list" where
  "generations s i = map (\<lambda>r. plan_generation (wa_plan (wrow_value r))) (filter (\<lambda>r. wa_job_id (wrow_value r) = i) (ws_attempts s))"

definition job_chain_bad :: "work_store \<Rightarrow> bool \<Rightarrow> job_record \<Rightarrow> bool" where
  "job_chain_bad s quiescent job \<longleftrightarrow>
     (let current = (case rec_current_attempt job of None \<Rightarrow> None | Some i \<Rightarrow> map_option wrow_value (find_row wrow_id (ws_attempts s) i)) in
      quiescent \<and> rec_state job = Unknown \<and> \<not> (case current of None \<Rightarrow> False | Some a \<Rightarrow> wa_state a = Abandoned) \<or>
      rec_current_attempt job \<noteq> None \<and>
        (case current of None \<Rightarrow> True | Some a \<Rightarrow> wa_job_id a \<noteq> rec_id job \<or> plan_generation (wa_plan a) \<noteq> rec_generation job) \<or>
      \<not> distinct (generations s (rec_id job)) \<or> list_ex (\<lambda>g. g > rec_generation job) (generations s (rec_id job)))"

definition validate_records :: "string list \<Rightarrow> string list \<Rightarrow> string list \<Rightarrow> bool \<Rightarrow> work_store \<Rightarrow> unit res" where
  "validate_records subjects projects nodes quiescent s =
     (if list_ex (job_row_bad subjects projects quiescent) (ws_jobs s) then Inl ValueError
      else if list_ex (attempt_row_bad s nodes quiescent) (ws_attempts s) then Inl ValueError
      else if list_ex (\<lambda>r. job_chain_bad s quiescent (jrow_value r)) (ws_jobs s) then Inl ValueError
      else if list_ex (node_row_bad nodes) (ws_nodes s) then Inl ValueError
      else Inr ())"

section \<open>Usage of a project\<close>

record usage =
  us_attempts :: int
  us_unreleased :: int
  us_input_bytes :: int
  us_stdout_bytes :: int
  us_stderr_bytes :: int
  us_gpu_devices :: int
  us_reservations :: "int list"
  us_states :: "wstate \<Rightarrow> int"

definition effective_result :: "wattempt \<Rightarrow> attempt_result option" where
  "effective_result a = (case wa_outcome a of None \<Rightarrow> wa_observed a | Some r \<Rightarrow> Some r)"

definition reported_state :: "wattempt \<Rightarrow> wstate" where
  "reported_state a = (case effective_result a of None \<Rightarrow> wa_state a | Some r \<Rightarrow> res_state r)"

text \<open>One turn of the loop of \<open>report\<close>; the reservations are in the order of \<open>summed\<close>.\<close>

definition count_usage :: "wattempt \<Rightarrow> usage \<Rightarrow> usage" where
  "count_usage a u =
     (let r = effective_result a; held = wa_state a \<noteq> Released in
      u\<lparr>us_states := (us_states u)(reported_state a := us_states u (reported_state a) + 1),
        us_input_bytes := us_input_bytes u + sum_list (map obj_bytes (job_inputs (plan_job (wa_plan a)))),
        us_stdout_bytes := us_stdout_bytes u + (case r of None \<Rightarrow> 0 | Some x \<Rightarrow> res_output_bytes x),
        us_stderr_bytes := us_stderr_bytes u + (case r of None \<Rightarrow> 0 | Some x \<Rightarrow> res_error_bytes x),
        us_unreleased := us_unreleased u + (if held then 1 else 0),
        us_reservations := (if held then map (\<lambda>(n, f). n + attempt_limit f a) (zip (us_reservations u) summed) else us_reservations u),
        us_gpu_devices := us_gpu_devices u + (if held then int (length (gpu_devices (job_limits (plan_job (wa_plan a))))) else 0)\<rparr>)"

definition project_attempts :: "work_store \<Rightarrow> string \<Rightarrow> wattempt list" where
  "project_attempts s project =
     map wrow_value (filter (\<lambda>r. \<exists>j\<in>set (ws_jobs s). jrow_id j = wrow_job_id r \<and> jrow_project_id j = project) (ws_attempts s))"

definition report :: "work_store \<Rightarrow> string \<Rightarrow> usage" where
  "report s project =
     (let rows = project_attempts s project in
      fold count_usage rows \<lparr>us_attempts = int (length rows), us_unreleased = 0, us_input_bytes = 0, us_stdout_bytes = 0,
        us_stderr_bytes = 0, us_gpu_devices = 0, us_reservations = map (\<lambda>_. 0) summed, us_states = (\<lambda>_. 0)\<rparr>)"

end
