(* ===== verification/Work_Records_Inv.thy ===== *)
theory Work_Records_Inv
  imports Work_Records
begin

text \<open>
  The invariant of the controller's workload records and that every operation keeps it: rows
  match their documents, every attempt binds an existing job, at most one attempt of a job is
  unreleased and it is the current one, generations are unique and bounded, and no two unreleased
  attempts of a node share a GPU.
\<close>

section \<open>The tables as maps\<close>

definition job_at :: "work_store \<Rightarrow> string \<Rightarrow> job_record option" where
  "job_at s i = map_option jrow_value (find_row jrow_id (ws_jobs s) i)"

definition attempt_at :: "work_store \<Rightarrow> string \<Rightarrow> wattempt option" where
  "attempt_at s i = map_option wrow_value (find_row wrow_id (ws_attempts s) i)"

lemma get_job_Inr: "get_job s i = Inr v \<longleftrightarrow> job_at s i = Some v"
  by (auto simp: get_job_def job_at_def split: option.splits)

lemma get_attempt_Inr: "get_attempt s i = Inr v \<longleftrightarrow> attempt_at s i = Some v"
  by (auto simp: get_attempt_def attempt_at_def split: option.splits)

lemmas get_Inr = get_job_Inr get_attempt_Inr

lemma put_job_at: "job_at (put_job v s) i = (if i = rec_id v then map_option (\<lambda>_. v) (job_at s i) else job_at s i)"
proof -
  have "find_row jrow_id (ws_jobs (put_job v s)) i =
      (if i = rec_id v then map_option (\<lambda>r. r\<lparr>jrow_value := v\<rparr>) (find_row jrow_id (ws_jobs s) (rec_id v))
       else find_row jrow_id (ws_jobs s) i)"
    by (simp add: put_job_def find_row_put [where f = "\<lambda>r. r\<lparr>jrow_value := v\<rparr>"])
  then show ?thesis by (auto simp: job_at_def option.map_comp comp_def)
qed

lemma put_attempt_at: "attempt_at (put_attempt v s) i = (if i = wa_id v then map_option (\<lambda>_. v) (attempt_at s i) else attempt_at s i)"
proof -
  have "find_row wrow_id (ws_attempts (put_attempt v s)) i =
      (if i = wa_id v then map_option (\<lambda>r. r\<lparr>wrow_value := v\<rparr>) (find_row wrow_id (ws_attempts s) (wa_id v))
       else find_row wrow_id (ws_attempts s) i)"
    by (simp add: put_attempt_def find_row_put [where f = "\<lambda>r. r\<lparr>wrow_value := v\<rparr>"])
  then show ?thesis by (auto simp: attempt_at_def option.map_comp comp_def)
qed

lemma put_other [simp]:
  "attempt_at (put_job v s) = attempt_at s" "job_at (put_attempt w s) = job_at s"
  "attempt_at (audit x j a y s) = attempt_at s" "job_at (audit x j a y s) = job_at s"
  "ws_attempts (put_job v s) = ws_attempts s" "ws_jobs (put_attempt w s) = ws_jobs s"
  "ws_attempts (audit x j a y s) = ws_attempts s" "ws_jobs (audit x j a y s) = ws_jobs s"
  by (auto simp: fun_eq_iff job_at_def attempt_at_def put_job_def put_attempt_def audit_def)

section \<open>The invariant\<close>

definition job_row_ok :: "job_row \<Rightarrow> bool" where
  "job_row_ok r \<longleftrightarrow> valid_record (jrow_value r) \<and>
     (jrow_id r, jrow_subject_id r, jrow_project_id r, jrow_key r, jrow_digest r) =
       (rec_id (jrow_value r), rec_subject_id (jrow_value r), rec_project_id (jrow_value r), rec_key (jrow_value r), rec_digest (jrow_value r)) \<and>
     rec_digest (jrow_value r) = digest (submission_dump (rec_request (jrow_value r)))"

definition attempt_row_ok :: "wattempt_row \<Rightarrow> bool" where
  "attempt_row_ok r \<longleftrightarrow> valid_wattempt (wrow_value r) \<and>
     (wrow_id r, wrow_job_id r, wrow_node_id r) = (wa_id (wrow_value r), wa_job_id (wrow_value r), wa_node_id (wrow_value r))"

text \<open>An attempt of a job: bound to the submission, and unreleased only as the current attempt of a job that left the queue.\<close>

definition attempt_of :: "wattempt \<Rightarrow> job_record \<Rightarrow> bool" where
  "attempt_of a j \<longleftrightarrow>
     plan_subject_id (wa_plan a) = rec_subject_id j \<and> plan_project_id (wa_plan a) = rec_project_id j \<and>
     plan_job (wa_plan a) = sub_job (rec_request j) \<and> wa_node_id a \<in> set (sub_node_ids (rec_request j)) \<and>
     plan_generation (wa_plan a) \<le> rec_generation j \<and>
     (wa_state a = Released \<or> rec_current_attempt j = Some (wa_id a) \<and> rec_state j \<noteq> Queued)"

definition current_ok :: "work_store \<Rightarrow> job_record \<Rightarrow> bool" where
  "current_ok s j \<longleftrightarrow> (\<forall>c. rec_current_attempt j = Some c \<longrightarrow>
     (\<exists>a. attempt_at s c = Some a \<and> wa_job_id a = rec_id j \<and> plan_generation (wa_plan a) = rec_generation j))"

definition gpus_exclusive :: "work_store \<Rightarrow> bool" where
  "gpus_exclusive s \<longleftrightarrow> (\<forall>i k a b. attempt_at s i = Some a \<longrightarrow> attempt_at s k = Some b \<longrightarrow> i \<noteq> k \<longrightarrow>
     wa_node_id a = wa_node_id b \<longrightarrow> wa_state a \<noteq> Released \<longrightarrow> wa_state b \<noteq> Released \<longrightarrow> attempt_gpus a \<inter> attempt_gpus b = {})"

definition generations_unique :: "work_store \<Rightarrow> bool" where
  "generations_unique s \<longleftrightarrow> (\<forall>i k a b. attempt_at s i = Some a \<longrightarrow> attempt_at s k = Some b \<longrightarrow> wa_job_id a = wa_job_id b \<longrightarrow>
     plan_generation (wa_plan a) = plan_generation (wa_plan b) \<longrightarrow> i = k)"

definition rows_ok :: "work_store \<Rightarrow> bool" where
  "rows_ok s \<longleftrightarrow> distinct (map jrow_id (ws_jobs s)) \<and> distinct (map wrow_id (ws_attempts s)) \<and>
     (\<forall>r\<in>set (ws_jobs s). job_row_ok r) \<and> (\<forall>r\<in>set (ws_attempts s). attempt_row_ok r)"

definition jobs_bound :: "work_store \<Rightarrow> bool" where
  "jobs_bound s \<longleftrightarrow> (\<forall>i a. attempt_at s i = Some a \<longrightarrow> (\<exists>j. job_at s (wa_job_id a) = Some j \<and> attempt_of a j))"

definition chains_ok :: "work_store \<Rightarrow> bool" where
  "chains_ok s \<longleftrightarrow> (\<forall>i j. job_at s i = Some j \<longrightarrow> current_ok s j)"

definition work_inv :: "work_store \<Rightarrow> bool" where
  "work_inv s \<longleftrightarrow> rows_ok s \<and> jobs_bound s \<and> chains_ok s \<and> gpus_exclusive s \<and> generations_unique s"

lemma job_at_ok: "work_inv s \<Longrightarrow> job_at s i = Some j \<Longrightarrow> rec_id j = i \<and> valid_record j \<and> rec_digest j = digest (submission_dump (rec_request j))"
  by (auto simp: work_inv_def rows_ok_def job_at_def job_row_ok_def dest!: find_row_Some)

lemma attempt_at_ok: "work_inv s \<Longrightarrow> attempt_at s i = Some a \<Longrightarrow> wa_id a = i \<and> valid_wattempt a"
  by (auto simp: work_inv_def rows_ok_def attempt_at_def attempt_row_ok_def dest!: find_row_Some)

lemma attempt_at_job: "work_inv s \<Longrightarrow> attempt_at s i = Some a \<Longrightarrow> \<exists>j. job_at s (wa_job_id a) = Some j \<and> attempt_of a j"
  by (simp add: work_inv_def jobs_bound_def)

section \<open>Updating a document\<close>

definition same_job :: "job_record \<Rightarrow> job_record \<Rightarrow> bool" where
  "same_job j k \<longleftrightarrow> rec_id j = rec_id k \<and> rec_subject_id j = rec_subject_id k \<and> rec_project_id j = rec_project_id k \<and>
     rec_key j = rec_key k \<and> rec_digest j = rec_digest k \<and> rec_request j = rec_request k"

definition same_attempt :: "wattempt \<Rightarrow> wattempt \<Rightarrow> bool" where
  "same_attempt a b \<longleftrightarrow> wa_id a = wa_id b \<and> wa_job_id a = wa_job_id b \<and> wa_node_id a = wa_node_id b \<and>
     wa_plan a = wa_plan b \<and> wa_installation_id a = wa_installation_id b"

lemma rows_ok_put_job:
  assumes r: "rows_ok s" and j: "job_at s (rec_id w) = Some j" and "same_job j w" and "valid_record w"
  shows "rows_ok (put_job w s)"
proof -
  let ?f = "\<lambda>r. r\<lparr>jrow_value := w\<rparr>"
  have k: "map jrow_id (ws_jobs (put_job w s)) = map jrow_id (ws_jobs s)"
    by (simp add: put_job_def map_key_put [where f = ?f])
  have d: "distinct (map jrow_id (ws_jobs s))" and ok: "\<forall>r\<in>set (ws_jobs s). job_row_ok r" using r by (simp_all add: rows_ok_def)
  have "job_row_ok q" if q: "q \<in> set (ws_jobs (put_job w s))" for q
  proof -
    from set_put_row [OF q [unfolded put_job_def, simplified]]
    consider "q \<in> set (ws_jobs s)" | p where "p \<in> set (ws_jobs s)" "jrow_id p = rec_id w" "q = ?f p" by blast
    then show ?thesis
    proof cases
      case 1 then show ?thesis using ok by blast
    next
      case 2
      then have "find_row jrow_id (ws_jobs s) (rec_id w) = Some p" using find_row_distinct [OF d 2(1)] by simp
      then have "jrow_value p = j" using j by (simp add: job_at_def)
      moreover have "job_row_ok p" using 2 ok by blast
      ultimately show ?thesis using 2 assms(3,4) by (auto simp: job_row_ok_def same_job_def)
    qed
  qed
  then show ?thesis using r k by (simp add: rows_ok_def)
qed

lemma rows_ok_put_attempt:
  assumes r: "rows_ok s" and a: "attempt_at s (wa_id b) = Some a" and "same_attempt a b" and "valid_wattempt b"
  shows "rows_ok (put_attempt b s)"
proof -
  let ?f = "\<lambda>r. r\<lparr>wrow_value := b\<rparr>"
  have k: "map wrow_id (ws_attempts (put_attempt b s)) = map wrow_id (ws_attempts s)"
    by (simp add: put_attempt_def map_key_put [where f = ?f])
  have d: "distinct (map wrow_id (ws_attempts s))" and ok: "\<forall>r\<in>set (ws_attempts s). attempt_row_ok r" using r by (simp_all add: rows_ok_def)
  have "attempt_row_ok q" if q: "q \<in> set (ws_attempts (put_attempt b s))" for q
  proof -
    from set_put_row [OF q [unfolded put_attempt_def, simplified]]
    consider "q \<in> set (ws_attempts s)" | p where "p \<in> set (ws_attempts s)" "wrow_id p = wa_id b" "q = ?f p" by blast
    then show ?thesis
    proof cases
      case 1 then show ?thesis using ok by blast
    next
      case 2
      then have "find_row wrow_id (ws_attempts s) (wa_id b) = Some p" using find_row_distinct [OF d 2(1)] by simp
      then have "wrow_value p = a" using a by (simp add: attempt_at_def)
      moreover have "attempt_row_ok p" using 2 ok by blast
      ultimately show ?thesis using 2 assms(3,4) by (auto simp: attempt_row_ok_def same_attempt_def)
    qed
  qed
  then show ?thesis using r k by (simp add: rows_ok_def)
qed

text \<open>A job document may change as long as the job keeps its identity and its chain of attempts.\<close>

lemma work_inv_put_job:
  assumes inv: "work_inv s" and j: "job_at s (rec_id w) = Some j" and same: "same_job j w" and v: "valid_record w"
    and chain: "rec_current_attempt w = rec_current_attempt j" "rec_generation w = rec_generation j"
    and queued: "\<And>a. rec_state w = Queued \<Longrightarrow> rec_current_attempt j \<noteq> None \<Longrightarrow>
      attempt_at s (the (rec_current_attempt j)) = Some a \<Longrightarrow> wa_state a = Released"
  shows "work_inv (put_job w s)"
proof -
  have rows: "rows_ok (put_job w s)" using rows_ok_put_job [OF _ j same v] inv by (simp add: work_inv_def)
  have "\<exists>j'. job_at (put_job w s) (wa_job_id a) = Some j' \<and> attempt_of a j'" if a: "attempt_at s i = Some a" for i a
  proof -
    obtain j0 where j0: "job_at s (wa_job_id a) = Some j0" "attempt_of a j0" using attempt_at_job [OF inv a] by blast
    show ?thesis
    proof (cases "wa_job_id a = rec_id w")
      case True
      then have "attempt_of a j" using j j0 by simp
      moreover have "wa_id a = i" using attempt_at_ok [OF inv a] by simp
      moreover have "wa_state a = Released" if "rec_state w = Queued" "rec_current_attempt j = Some i"
        using queued [OF that(1)] that(2) a by simp
      ultimately have "attempt_of a w" using same chain by (auto simp: attempt_of_def same_job_def)
      then show ?thesis using True j by (simp add: put_job_at)
    next
      case False
      then show ?thesis using j0 by (simp add: put_job_at)
    qed
  qed
  then have "jobs_bound (put_job w s)" by (simp add: jobs_bound_def)
  moreover have "chains_ok (put_job w s)"
  proof -
    have "current_ok s j" using inv j by (simp add: work_inv_def chains_ok_def)
    then have "current_ok s w" using chain same by (simp add: current_ok_def same_job_def)
    moreover have "current_ok (put_job w s) x = current_ok s x" for x by (simp add: current_ok_def)
    ultimately show ?thesis using inv j by (auto simp: chains_ok_def put_job_at work_inv_def)
  qed
  ultimately show ?thesis
    using rows inv by (simp add: work_inv_def gpus_exclusive_def generations_unique_def)
qed

text \<open>An unreleased attempt may change as long as it keeps its identity and plan.\<close>

lemma work_inv_put_attempt:
  assumes inv: "work_inv s" and a: "attempt_at s (wa_id b) = Some a" and same: "same_attempt a b" and v: "valid_wattempt b"
    and live: "wa_state a \<noteq> Released"
  shows "work_inv (put_attempt b s)"
proof -
  have at: "attempt_at (put_attempt b s) i = (if i = wa_id b then Some b else attempt_at s i)" for i
    using a by (simp add: put_attempt_at)
  have g: "attempt_gpus b = attempt_gpus a" "wa_node_id b = wa_node_id a" "wa_job_id b = wa_job_id a" "wa_plan b = wa_plan a" "wa_id b = wa_id a"
    using same by (simp_all add: same_attempt_def attempt_gpus_def)
  have rows: "rows_ok (put_attempt b s)" using rows_ok_put_attempt [OF _ a same v] inv by (simp add: work_inv_def)
  have "attempt_of b j" if "attempt_of a j" for j
    using that live g unfolding attempt_of_def by simp
  then have "jobs_bound (put_attempt b s)"
    using inv a g unfolding work_inv_def jobs_bound_def at by (metis put_other(2) option.inject)
  moreover have "chains_ok (put_attempt b s)"
  proof -
    have "current_ok (put_attempt b s) j" if "current_ok s j" for j
      using that a g unfolding current_ok_def at by (metis option.inject)
    then show ?thesis using inv by (simp add: work_inv_def chains_ok_def)
  qed
  moreover have old: "\<exists>x0. attempt_at s i = Some x0 \<and> attempt_gpus x = attempt_gpus x0 \<and> wa_node_id x = wa_node_id x0 \<and> wa_job_id x = wa_job_id x0 \<and>
      wa_plan x = wa_plan x0 \<and> (wa_state x \<noteq> Released \<longrightarrow> wa_state x0 \<noteq> Released)"
    if "attempt_at (put_attempt b s) i = Some x" for i x
    using that a g live unfolding at by (cases "i = wa_id b") auto
  have "gpus_exclusive (put_attempt b s)"
    unfolding gpus_exclusive_def
  proof (intro allI impI)
    fix i k x y
    assume x: "attempt_at (put_attempt b s) i = Some x" and y: "attempt_at (put_attempt b s) k = Some y"
      and o: "i \<noteq> k" "wa_node_id x = wa_node_id y" "wa_state x \<noteq> Released" "wa_state y \<noteq> Released"
    obtain x0 where x0: "attempt_at s i = Some x0" "attempt_gpus x = attempt_gpus x0" "wa_node_id x = wa_node_id x0"
      "wa_state x0 \<noteq> Released" using old [OF x] o(3) by blast
    obtain y0 where y0: "attempt_at s k = Some y0" "attempt_gpus y = attempt_gpus y0" "wa_node_id y = wa_node_id y0"
      "wa_state y0 \<noteq> Released" using old [OF y] o(4) by blast
    show "attempt_gpus x \<inter> attempt_gpus y = {}" using inv x0 y0 o(1,2) unfolding work_inv_def gpus_exclusive_def by metis
  qed
  moreover have "generations_unique (put_attempt b s)"
    unfolding generations_unique_def
  proof (intro allI impI)
    fix i k x y
    assume x: "attempt_at (put_attempt b s) i = Some x" and y: "attempt_at (put_attempt b s) k = Some y"
      and o: "wa_job_id x = wa_job_id y" "plan_generation (wa_plan x) = plan_generation (wa_plan y)"
    obtain x0 where x0: "attempt_at s i = Some x0" "wa_job_id x = wa_job_id x0" "wa_plan x = wa_plan x0" using old [OF x] by blast
    obtain y0 where y0: "attempt_at s k = Some y0" "wa_job_id y = wa_job_id y0" "wa_plan y = wa_plan y0" using old [OF y] by blast
    show "i = k" using inv x0 y0 o unfolding work_inv_def generations_unique_def by metis
  qed
  ultimately show ?thesis using rows by (simp add: work_inv_def)
qed

section \<open>Every operation keeps the invariant\<close>

lemma work_inv_cong: "ws_jobs s = ws_jobs t \<Longrightarrow> ws_attempts s = ws_attempts t \<Longrightarrow> work_inv s \<longleftrightarrow> work_inv t"
  by (simp add: work_inv_def rows_ok_def jobs_bound_def chains_ok_def gpus_exclusive_def generations_unique_def current_ok_def
      job_at_def attempt_at_def)

lemma work_inv_audit [simp]: "work_inv (audit x j a y s) \<longleftrightarrow> work_inv s"
  by (rule work_inv_cong) simp_all

lemma audit_observation_tables [simp]:
  "ws_jobs (audit_observation j a c r s) = ws_jobs s" "ws_attempts (audit_observation j a c r s) = ws_attempts s"
  by (simp_all add: audit_observation_def Let_def)

lemma save_jobD:
  assumes "save_job now v s = Inr (t, w)"
  shows "t = put_job w s" "valid_record w" "w = v\<lparr>rec_updated_at := max (rec_updated_at v) now, rec_revision := rec_revision v + 1\<rparr>"
  using assms by (auto simp: save_job_def Let_def split: if_splits)

lemma save_attemptD:
  assumes "save_attempt now v s = Inr (t, w)"
  shows "t = put_attempt w s" "valid_wattempt w" "w = v\<lparr>wa_updated_at := max (wa_updated_at v) now\<rparr>"
  using assms by (auto simp: save_attempt_def Let_def split: if_splits)

lemma save_job_inv:
  assumes "work_inv s" and "save_job now v s = Inr (t, w)" and "job_at s (rec_id v) = Some j" and "same_job j v"
    and "rec_current_attempt v = rec_current_attempt j" "rec_generation v = rec_generation j"
    and "\<And>a. rec_state v = Queued \<Longrightarrow> rec_current_attempt j \<noteq> None \<Longrightarrow>
      attempt_at s (the (rec_current_attempt j)) = Some a \<Longrightarrow> wa_state a = Released"
  shows "work_inv t"
proof -
  note d = save_jobD [OF assms(2)]
  have "same_job j w" using assms(4) d(3) by (simp add: same_job_def)
  then show ?thesis unfolding d(1)
    by (intro work_inv_put_job [OF assms(1)]) (use assms d in simp_all)
qed

lemma save_attempt_inv:
  assumes "work_inv s" and "save_attempt now v s = Inr (t, w)" and "attempt_at s (wa_id v) = Some a" and "same_attempt a v"
    and "wa_state a \<noteq> Released"
  shows "work_inv t"
proof -
  note d = save_attemptD [OF assms(2)]
  have "same_attempt a w" using assms(4) d(3) by (simp add: same_attempt_def)
  then show ?thesis unfolding d(1)
    by (intro work_inv_put_attempt [OF assms(1)]) (use assms d in simp_all)
qed

text \<open>The current attempt of a job that is not queued is where its attempts differ.\<close>

lemma current_unqueued:
  assumes "work_inv s" and "attempt_at s i = Some a" and "wa_state a \<noteq> Released" and "job_at s (wa_job_id a) = Some j"
  shows "rec_state j \<noteq> Queued" "rec_current_attempt j = Some i" "rec_id j = wa_job_id a"
  using attempt_at_job [OF assms(1,2)] assms attempt_at_ok [OF assms(1,2)] job_at_ok [OF assms(1,4)]
  by (auto simp: attempt_of_def)

lemma submit_inv:
  assumes "work_inv s" and "submit_job clk token request key dele s = Inr (t, v)"
  shows "work_inv t"
proof (cases "t = s")
  case False
  then have v: "valid_record v" and new: "find_row jrow_id (ws_jobs s) token = None" and vid: "rec_id v = token"
    and q: "rec_current_attempt v = None" and dig: "rec_digest v = digest (submission_dump (rec_request v))"
    and t: "t = s\<lparr>ws_jobs := add_row \<lparr>jrow_id = token, jrow_subject_id = rec_subject_id v, jrow_project_id = rec_project_id v,
          jrow_key = rec_key v, jrow_digest = rec_digest v, jrow_value = v\<rparr> (ws_jobs s)\<rparr>"
    using assms(2) by (auto simp: submit_job_def Let_def split: option.splits if_splits)
  have at: "attempt_at t = attempt_at s" by (simp add: t attempt_at_def fun_eq_iff)
  have jt: "job_at t i = (if i = token then Some v else job_at s i)" for i
    using new by (simp add: t job_at_def find_row_add split: option.split)
  have "rows_ok t" using assms(1) new v dig vid
    by (auto simp: rows_ok_def work_inv_def t add_row_def job_row_ok_def find_row_None)
  moreover have none: "job_at s token = None" using new by (simp add: job_at_def)
  have "jobs_bound t"
    unfolding jobs_bound_def at
  proof (intro allI impI)
    fix i a assume "attempt_at s i = Some a"
    from attempt_at_job [OF assms(1) this] none show "\<exists>j. job_at t (wa_job_id a) = Some j \<and> attempt_of a j"
      unfolding jt by fastforce
  qed
  moreover have "chains_ok t"
  proof -
    have "current_ok t j = current_ok s j" for j by (simp add: current_ok_def at)
    moreover have "current_ok s v" using q by (simp add: current_ok_def)
    ultimately show ?thesis using assms(1) by (simp add: work_inv_def chains_ok_def jt)
  qed
  ultimately show ?thesis
    using assms(1) by (simp add: work_inv_def gpus_exclusive_def generations_unique_def at)
qed (use assms in simp)

lemma held_onI:
  assumes "attempt_at s i = Some a" and "work_inv s" and "wa_node_id a = node" and "wa_state a \<noteq> Released"
  shows "a \<in> set (held_on s node)"
proof -
  obtain r where r: "r \<in> set (ws_attempts s)" "wrow_value r = a"
    using assms(1) by (auto simp: attempt_at_def dest!: find_row_Some)
  moreover have "wrow_node_id r = node" using r assms(2,3) by (auto simp: work_inv_def rows_ok_def attempt_row_ok_def)
  ultimately show ?thesis using assms(4) by (auto simp: held_on_def list_attempts_def)
qed

lemma reserve_attempt_inv:
  assumes inv: "work_inv s" and "reserve_attempt clk p lease inst capacity ledger version s = Inr (t, a)"
  shows "work_inv t"
proof -
  obtain job s1 s2 w where job: "job_at s (plan_job_id p) = Some job" and q: "queued_for s job p"
    and ch: "reserve_checks s p capacity = Inr ()" and a: "a = new_attempt p lease inst ledger version (rec_id job) (clk 1)"
    and va: "valid_wattempt a" and ins: "insert_wattempt a (rec_id job) s = Inr s1"
    and sv: "save_job (clk 2) (job\<lparr>rec_current_attempt := Some (wa_id a), rec_generation := plan_generation p,
         rec_state := Preparing, rec_reason := None\<rparr>) s1 = Inr (s2, w)"
    and t: "t = audit ''workload.admit'' w a ''preparing'' s2"
    using assms(2) by (auto simp: reserve_attempt_def bindr_Inr get_Inr Let_def split: if_splits)
  note w = save_jobD [OF sv]
  have jid: "rec_id job = plan_job_id p" using job_at_ok [OF inv job] by simp
  have new: "attempt_at s (wa_id a) = None" and s1: "s1 = s\<lparr>ws_attempts := add_row \<lparr>wrow_id = wa_id a, wrow_job_id = rec_id job,
      wrow_node_id = wa_node_id a, wrow_value = a\<rparr> (ws_attempts s)\<rparr>"
    using ins by (auto simp: insert_wattempt_def attempt_at_def split: if_splits)
  have aid: "wa_id a = plan_attempt_id p" "wa_job_id a = rec_id job" "wa_node_id a = plan_node_id p" "wa_plan a = p"
    "wa_state a = Preparing" by (simp_all add: a new_attempt_def)
  have a1: "attempt_at s1 i = (if i = wa_id a then Some a else attempt_at s i)" for i
    using new by (auto simp: s1 attempt_at_def find_row_add split: option.split)
  have j1: "job_at s1 = job_at s" by (simp add: s1 job_at_def fun_eq_iff)
  have at: "attempt_at s2 i = (if i = wa_id a then Some a else attempt_at s i)" for i by (simp add: w(1) a1)
  have jt: "job_at s2 i = (if i = rec_id job then Some w else job_at s i)" for i
    using job jid w(3) by (simp add: w(1) put_job_at j1)
  have qs: "rec_state job = Queued" "plan_generation p = rec_generation job + 1" "plan_subject_id p = rec_subject_id job"
    "plan_project_id p = rec_project_id job" "plan_node_id p \<in> set (sub_node_ids (rec_request job))" "plan_job p = sub_job (rec_request job)"
    using q by (auto simp: queued_for_def)
  have old: "wa_state x = Released \<and> plan_generation (wa_plan x) < plan_generation p"
    if "attempt_at s i = Some x" "wa_job_id x = rec_id job" for i x
    using attempt_at_job [OF inv that(1)] that(2) job jid qs(1,2) by (auto simp: attempt_of_def)
  have "rows_ok s1" using inv new va aid
    by (auto simp: work_inv_def rows_ok_def s1 add_row_def attempt_row_ok_def attempt_at_def find_row_None)
  moreover have "same_job job w" by (simp add: w(3) same_job_def)
  ultimately have rows: "rows_ok s2" unfolding w(1) using w(2,3) job jid j1 by (intro rows_ok_put_job [of s1 w job]) simp_all
  have "jobs_bound s2"
    unfolding jobs_bound_def
  proof (intro allI impI)
    fix i x assume x: "attempt_at s2 i = Some x"
    show "\<exists>j. job_at s2 (wa_job_id x) = Some j \<and> attempt_of x j"
    proof (cases "i = wa_id a")
      case True
      then have "x = a" using x at by simp
      then show ?thesis using aid qs w(3) jt by (simp add: attempt_of_def)
    next
      case False
      then have x: "attempt_at s i = Some x" using x at by simp
      obtain j where j: "job_at s (wa_job_id x) = Some j" "attempt_of x j" using attempt_at_job [OF inv x] by blast
      show ?thesis
      proof (cases "wa_job_id x = rec_id job")
        case True
        then have "j = job" using j job jid by simp
        then show ?thesis using old [OF x True] j(2) True jt w(3) by (auto simp: attempt_of_def)
      qed (use j jt in simp)
    qed
  qed
  moreover have "chains_ok s2"
    unfolding chains_ok_def
  proof (intro allI impI)
    fix i j assume j: "job_at s2 i = Some j"
    show "current_ok s2 j"
    proof (cases "i = rec_id job")
      case True
      then have "j = w" using j jt by simp
      moreover have "rec_current_attempt w = Some (wa_id a)" "rec_id w = rec_id job" "rec_generation w = plan_generation p"
        by (simp_all add: w(3))
      ultimately show ?thesis using at aid by (simp add: current_ok_def)
    next
      case False
      then have "current_ok s j" using j jt inv by (simp add: work_inv_def chains_ok_def)
      then show ?thesis using at new by (auto simp: current_ok_def)
    qed
  qed
  moreover have "gpus_exclusive s2"
  proof -
    have "attempt_gpus a \<inter> attempt_gpus x = {}" if "attempt_at s i = Some x" "wa_node_id x = wa_node_id a" "wa_state x \<noteq> Released" for i x
      using held_onI [OF that(1) inv that(2,3)] ch aid
      by (auto simp: reserve_checks_def bindr_Inr Let_def attempt_gpus_def list_ex_iff split: if_splits)
    then show ?thesis using inv unfolding work_inv_def gpus_exclusive_def at by (metis Int_commute option.inject)
  qed
  moreover have "generations_unique s2"
    using inv old aid unfolding work_inv_def generations_unique_def at by (metis less_irrefl option.inject)
  ultimately show ?thesis using rows by (simp add: t work_inv_def [of s2])
qed

lemma observed_attemptD:
  assumes "observed_attempt a r = Inr b"
  shows "same_attempt a b" "wa_observed b = Some r" "wa_state b = res_state r"
    "wa_outcome b = (if final_result r then Some r else wa_outcome a)"
    "final_result r \<Longrightarrow> pred_option (\<lambda>x. same_outcome x r) (wa_outcome a)"
  using assms by (auto simp: observed_attempt_def bindr_Inr same_attempt_def split: if_splits option.splits)

text \<open>The path of an observation that changes the store.\<close>

lemma observe_cases:
  assumes "observe_attempt clk r node inst s = Inr (t, c)"
  obtains a where "attempt_at s (f_attempt_id r) = Some a" "wa_state a = Released" "t = s" "c = a"
  | a job b s1 j s2 where "attempt_at s (f_attempt_id r) = Some a" "wa_state a \<notin> {Released, Abandoned}"
      "job_at s (wa_job_id a) = Some job" "rec_current_attempt job = Some (wa_id a)" "observed_attempt a r = Inr b"
      "observe_job clk job b r s = Inr (s1, j)" "save_attempt (clk 1) b s1 = Inr (s2, c)"
      "ws_jobs t = ws_jobs s2" "ws_attempts t = ws_attempts s2"
      "wa_state a \<in> terminal \<Longrightarrow> res_state r \<in> {wa_state a, Released, Unknown}"
proof -
  obtain a where a: "attempt_at s (f_attempt_id r) = Some a" "wa_state a \<noteq> Abandoned"
    "(if wa_state a = Released then if Some r \<noteq> wa_observed a then Inl (Failure ''attempt_changed'' 409) else Inr (s, a)
      else observe_live clk a r s) = Inr (t, c)"
    using assms unfolding observe_attempt_def bindr_Inr get_Inr ensure_Inr by blast
  show thesis
  proof (cases "wa_state a = Released")
    case True
    then have "t = s" "c = a" using a(3) by (auto split: if_splits)
    then show thesis using that(1) a True by blast
  next
    case False
    then have "observe_live clk a r s = Inr (t, c)" using a(3) by simp
    then obtain job b s1 j s2 where o: "job_at s (wa_job_id a) = Some job" "rec_current_attempt job = Some (wa_id a)" "observed_attempt a r = Inr b"
      "observe_job clk job b r s = Inr (s1, j)" "save_attempt (clk 1) b s1 = Inr (s2, c)" "t = audit_observation j a c r s2"
      "\<not> (wa_state a \<in> terminal \<and> res_state r \<notin> {wa_state a, Released, Unknown})"
      unfolding observe_live_def bindr_Inr get_Inr ensure_Inr split_paired_Ex case_prod_conv sum.inject prod.inject by blast
    show thesis by (rule that(2) [OF a(1) _ o(1-5)]) (use o(6,7) a(2) False in auto)
  qed
qed

lemma observe_inv:
  assumes inv: "work_inv s" and r: "valid_attempt_result r" and "observe_attempt clk r node inst s = Inr (t, c)"
  shows "work_inv t"
  using assms(3)
proof (cases rule: observe_cases)
  case (2 a job b s1 j s2)
  have live: "wa_state a \<noteq> Released" using 2 by simp
  note cur = current_unqueued [OF inv 2(1) live 2(3)]
  have aid: "wa_id a = f_attempt_id r" using attempt_at_ok [OF inv 2(1)] by simp
  have rq: "res_state r \<noteq> Queued" using r by (simp add: valid_attempt_result_def)
  have s1: "work_inv s1 \<and> attempt_at s1 = attempt_at s"
  proof (cases "s1 = s")
    case False
    then have sv: "save_job (clk 0) (job\<lparr>rec_state := res_state r, rec_reason := res_reason r\<rparr>) s = Inr (s1, j)"
      using 2(6) by (auto simp: observe_job_def split: if_splits)
    have "work_inv s1"
      by (rule save_job_inv [OF inv sv]) (use 2(3) cur(3) rq in \<open>simp_all add: same_job_def\<close>)
    then show ?thesis using save_jobD(1) [OF sv] by simp
  qed (use inv in simp)
  have "work_inv s2"
  proof (rule save_attempt_inv [OF _ 2(7)])
    show "attempt_at s1 (wa_id b) = Some a" "same_attempt a b" "wa_state a \<noteq> Released" "work_inv s1"
      using s1 observed_attemptD(1) [OF 2(5)] 2(1) aid live by (simp_all add: same_attempt_def)
  qed
  then show ?thesis using work_inv_cong [OF 2(8,9)] by simp
qed (use inv in simp)

lemma transition_cases:
  assumes "transition_attempt clk i expected state reason s = Inr (t, b)"
  obtains a job s1 s2 j where "attempt_at s i = Some a" "job_at s (wa_job_id a) = Some job" "wa_state a = expected"
    "transition_allowed expected state" "rec_current_attempt job = Some i"
    "save_attempt (clk 0) (a\<lparr>wa_state := state, wa_start_requested := (wa_start_requested a \<or> state = Starting)\<rparr>) s = Inr (s1, b)"
    "save_job (clk 1) (job\<lparr>rec_state := state, rec_reason := reason\<rparr>) s1 = Inr (s2, j)"
    "t = audit (if state = Starting then ''workload.start'' else ''workload.observe'') j b (state_str state) s2"
    "\<not> (rec_cancelled job \<and> state = Starting)"
  using assms by (auto simp: transition_attempt_def bindr_Inr get_Inr split: if_splits)

lemma transition_inv:
  assumes inv: "work_inv s" and "transition_attempt clk i expected state reason s = Inr (t, b)"
  shows "work_inv t"
  using assms(2)
proof (cases rule: transition_cases)
  case (1 a job s1 s2 j)
  have live: "wa_state a \<noteq> Released" and st: "state \<noteq> Queued" using 1(3,4) by (auto simp: transition_allowed_def)
  have aid: "wa_id a = i" using attempt_at_ok [OF inv 1(1)] by simp
  note cur = current_unqueued [OF inv 1(1) live 1(2)]
  have s1: "work_inv s1"
    by (rule save_attempt_inv [OF inv 1(6)]) (use 1(1) aid live in \<open>simp_all add: same_attempt_def\<close>)
  have j1: "job_at s1 = job_at s" using save_attemptD(1) [OF 1(6)] by simp
  have "work_inv s2"
    by (rule save_job_inv [OF s1 1(7)]) (use 1(2) j1 cur(3) st in \<open>simp_all add: same_job_def\<close>)
  then show ?thesis using 1(8) by simp
qed

lemma renew_attempt_cases:
  assumes "renew_attempt clk i expires s = Inr (t, l)"
  obtains a job b where "attempt_at s i = Some a" "job_at s (wa_job_id a) = Some job" "wa_state a \<in> {Prepared, Starting, Running}"
    "\<not> rec_cancelled job" "rec_current_attempt job = Some i" "clk 0 < ren_expires_at (wa_lease a)"
    "ren_expires_at (wa_lease a) < expires" "expires \<le> clk 1 + 30" "ren_sequence l = ren_sequence (wa_lease a) + 1"
    "ren_expires_at l = expires" "save_attempt (clk 2) (a\<lparr>wa_lease := l\<rparr>) s = Inr (t, b)"
proof -
  let ?l = "\<lambda>a. \<lparr>f_attempt_id = i, f_generation = plan_generation (wa_plan a), f_plan_digest = digest_of_plan (wa_plan a),
         ren_sequence = ren_sequence (wa_lease a) + 1, ren_expires_at = expires\<rparr>"
  obtain a job b where o: "attempt_at s i = Some a" "job_at s (wa_job_id a) = Some job" "wa_state a \<in> {Prepared, Starting, Running}"
    "\<not> rec_cancelled job" "rec_current_attempt job = Some i" "clk 0 < ren_expires_at (wa_lease a)"
    "ren_expires_at (wa_lease a) < expires" "expires \<le> clk 1 + 30" "save_attempt (clk 2) (a\<lparr>wa_lease := ?l a\<rparr>) s = Inr (t, b)" "l = wa_lease b"
    using assms by (auto simp: renew_attempt_def bindr_Inr get_Inr Let_def split: if_splits)
  have l: "l = ?l a" using save_attemptD(3) [OF o(9)] o(10) by simp
  show thesis by (rule that [OF o(1-8)]) (use l o(9) in simp_all)
qed

lemma renew_attempt_inv:
  assumes inv: "work_inv s" and "renew_attempt clk i expires s = Inr (t, l)"
  shows "work_inv t"
  using assms(2)
proof (cases rule: renew_attempt_cases)
  case (1 a job b)
  then show ?thesis using attempt_at_ok [OF inv 1(1)]
    by (intro save_attempt_inv [OF inv 1(11), of a]) (auto simp: same_attempt_def)
qed

text \<open>The operations that only save the job document.\<close>

lemma queued_current:
  assumes "work_inv s" and "job_at s i = Some j" and "rec_state j = Queued" and "attempt_at s (the (rec_current_attempt j)) = Some a"
    and "rec_current_attempt j \<noteq> None"
  shows "wa_state a = Released"
proof -
  obtain c where c: "rec_current_attempt j = Some c" using assms(5) by blast
  have "current_ok s j" using assms(1,2) by (simp add: work_inv_def chains_ok_def)
  then have "wa_job_id a = rec_id j" using c assms(4) unfolding current_ok_def by (metis option.inject option.sel)
  then have "job_at s (wa_job_id a) = Some j" using job_at_ok [OF assms(1,2)] assms(2) by simp
  then show ?thesis using current_unqueued(1) [OF assms(1,4)] assms(3) by blast
qed

lemma cancel_inv:
  assumes inv: "work_inv s" and "cancel_job clk i revision s = Inr (t, w)"
  shows "work_inv t"
proof -
  obtain job where job: "job_at s i = Some job"
    and sv: "save_job (clk 0) (if rec_state job = Queued
         then job\<lparr>rec_cancelled := True, rec_state := Cancelled, rec_reason := Some ''cancelled_before_dispatch''\<rparr>
         else job\<lparr>rec_cancelled := True\<rparr>) s = Inr (t, w)"
    using assms(2) by (auto simp: cancel_job_def bindr_Inr get_Inr split: if_splits)
  show ?thesis
    by (rule save_job_inv [OF inv sv, of job]) (use job job_at_ok [OF inv job] in \<open>auto simp: same_job_def split: if_splits\<close>)
qed

lemma retry_cases:
  assumes "retry_job clk i revision dele ack s = Inr (t, w)"
  obtains job where "job_at s i = Some job" "rec_revision job = revision" "rec_state job \<in> terminal \<union> (if ack then {Unknown} else {})"
    "\<And>c. rec_current_attempt job = Some c \<Longrightarrow> \<exists>a. attempt_at s c = Some a \<and> wa_state a = Released"
    "save_job (clk 0) (job\<lparr>rec_delegation := dele, rec_state := Queued, rec_reason := None, rec_cancelled := False\<rparr>) s = Inr (t, w)"
proof -
  obtain job where o: "job_at s i = Some job" "rec_revision job = revision" "rec_state job \<in> terminal \<union> (if ack then {Unknown} else {})"
    "rec_current_attempt job = None \<or> (\<exists>c a. rec_current_attempt job = Some c \<and> attempt_at s c = Some a \<and> wa_state a = Released)"
    "save_job (clk 0) (job\<lparr>rec_delegation := dele, rec_state := Queued, rec_reason := None, rec_cancelled := False\<rparr>) s = Inr (t, w)"
    using assms by (cases "get_job s i") (auto simp: retry_job_def bindr_Inr get_Inr ensure_def split: if_splits option.splits)
  show thesis by (rule that [OF o(1-3) _ o(5)]) (use o(4) in auto)
qed

lemma retry_inv:
  assumes inv: "work_inv s" and "retry_job clk i revision dele ack s = Inr (t, w)"
  shows "work_inv t"
  using assms(2)
proof (cases rule: retry_cases)
  case (1 job)
  show ?thesis
    by (rule save_job_inv [OF inv 1(5), of job])
      (use 1(1) job_at_ok [OF inv 1(1)] 1(4) in \<open>auto simp: same_job_def\<close>)
qed

lemma mark_pending_inv:
  assumes inv: "work_inv s" and "mark_pending clk i reason s = Inr (t, w)"
  shows "work_inv t"
proof -
  obtain job where job: "job_at s i = Some job"
    and o: "t = s \<or> save_job (clk 0) (job\<lparr>rec_reason := reason\<rparr>) s = Inr (t, w)"
    using assms(2) by (auto simp: mark_pending_def bindr_Inr get_Inr split: if_splits)
  from o show ?thesis
  proof
    assume sv: "save_job (clk 0) (job\<lparr>rec_reason := reason\<rparr>) s = Inr (t, w)"
    show ?thesis
      by (rule save_job_inv [OF inv sv, of job])
        (use job job_at_ok [OF inv job] queued_current [OF inv job] in \<open>auto simp: same_job_def\<close>)
  qed (use inv in simp)
qed

lemma abandon_cases:
  assumes "abandon_job clk i revision s = Inr (t, w)"
  obtains job c a b s1 where "job_at s i = Some job" "rec_state job = Unknown" "rec_current_attempt job = Some c"
    "attempt_at s c = Some a" "wa_state a \<notin> {Released, Abandoned}" "map_of (ws_contributors s) (wa_node_id a) = Some True"
    "save_attempt (clk 0) (a\<lparr>wa_state := Abandoned,
         wa_outcome := (case wa_outcome a of None \<Rightarrow> Some (abandoned_outcome a) | Some r \<Rightarrow> Some r)\<rparr>) s = Inr (s1, b)"
    "save_job (clk 1) (job\<lparr>rec_cancelled := True, rec_reason := Some ''operator_abandoned''\<rparr>) s1 = Inr (t, w)"
  using assms by (auto simp: abandon_job_def bindr_Inr get_Inr split: if_splits option.splits)

lemma abandon_inv:
  assumes inv: "work_inv s" and "abandon_job clk i revision s = Inr (t, w)"
  shows "work_inv t"
  using assms(2)
proof (cases rule: abandon_cases)
  case (1 job c a b s1)
  have aid: "wa_id a = c" using attempt_at_ok [OF inv 1(4)] by simp
  have s1: "work_inv s1"
    by (rule save_attempt_inv [OF inv 1(7), of a]) (use 1(4,5) aid in \<open>auto simp: same_attempt_def\<close>)
  have j1: "job_at s1 i = Some job" using save_attemptD(1) [OF 1(7)] 1(1) by simp
  show ?thesis
    by (rule save_job_inv [OF s1 1(8), of job]) (use j1 1(2) job_at_ok [OF s1 j1] in \<open>auto simp: same_job_def\<close>)
qed

lemma find_row_filter:
  "find_row key (filter P rows) k = (case find_row key rows k of Some r \<Rightarrow> if P r then Some r else None | None \<Rightarrow> None)"
  if "distinct (map key rows)"
proof (cases "find_row key rows k")
  case None
  then have "find_row key (filter P rows) k = None" by (simp add: find_row_None)
  then show ?thesis using None by simp
next
  case (Some r)
  note r = find_row_Some [OF Some]
  show ?thesis
  proof (cases "P r")
    case True
    then have "find_row key (filter P rows) (key r) = Some r"
      by (intro find_row_distinct distinct_map_filter that) (use r in simp)
    then show ?thesis using Some r True by simp
  next
    case False
    have "q = r" if "q \<in> set rows" "key q = k" for q
      using find_row_distinct [OF \<open>distinct (map key rows)\<close> that(1)] that(2) Some by simp
    then have "find_row key (filter P rows) k = None" using False by (auto simp: find_row_None)
    then show ?thesis using Some False by simp
  qed
qed

lemma remove_at:
  assumes inv: "work_inv s" and "remove_job i revision s = Inr (t, u)"
  shows "attempt_at t k = (case attempt_at s k of None \<Rightarrow> None | Some a \<Rightarrow> if wa_job_id a = i then None else Some a)" and "job_at t k = (if k = i then None else job_at s k)"
proof -
  have t: "t = s\<lparr>ws_attempts := filter (\<lambda>r. wrow_job_id r \<noteq> i) (ws_attempts s), ws_jobs := filter (\<lambda>r. jrow_id r \<noteq> i) (ws_jobs s)\<rparr>"
    using assms(2) by (auto simp: remove_job_def bindr_Inr Let_def split: if_splits)
  have rows: "rows_ok s" using inv by (simp add: work_inv_def)
  have "wrow_job_id r = wa_job_id (wrow_value r)" if "find_row wrow_id (ws_attempts s) k = Some r" for r
    using find_row_Some [OF that] rows by (auto simp: rows_ok_def attempt_row_ok_def)
  then show "attempt_at t k = (case attempt_at s k of None \<Rightarrow> None | Some a \<Rightarrow> if wa_job_id a = i then None else Some a)"
    using rows by (simp add: t attempt_at_def rows_ok_def find_row_filter split: option.split)
  show "job_at t k = (if k = i then None else job_at s k)"
    using rows by (auto simp: t job_at_def rows_ok_def find_row_filter dest: find_row_Some split: option.splits)
qed

lemma remove_inv:
  assumes inv: "work_inv s" and "remove_job i revision s = Inr (t, u)"
  shows "work_inv t"
proof -
  have t: "t = s\<lparr>ws_attempts := filter (\<lambda>r. wrow_job_id r \<noteq> i) (ws_attempts s), ws_jobs := filter (\<lambda>r. jrow_id r \<noteq> i) (ws_jobs s)\<rparr>"
    using assms(2) by (auto simp: remove_job_def bindr_Inr Let_def split: if_splits)
  have rows: "rows_ok s" using inv by (simp add: work_inv_def)
  have at: "attempt_at t k = Some a \<longleftrightarrow> attempt_at s k = Some a \<and> wa_job_id a \<noteq> i" for k a
    using remove_at(1) [OF assms, of k] by (auto split: option.splits if_splits)
  note jt = remove_at(2) [OF assms]
  have "rows_ok t" using rows by (auto simp: rows_ok_def t distinct_map_filter)
  moreover have "jobs_bound t" using attempt_at_job [OF inv] by (auto simp: jobs_bound_def at jt)
  moreover have "chains_ok t"
    unfolding chains_ok_def
  proof (intro allI impI)
    fix k j assume j: "job_at t k = Some j"
    then have js: "job_at s k = Some j" "k \<noteq> i" by (auto simp: jt split: if_splits)
    then have "rec_id j \<noteq> i" using job_at_ok [OF inv] by blast
    then show "current_ok t j" using inv js(1) by (fastforce simp: work_inv_def chains_ok_def current_ok_def at)
  qed
  moreover have "gpus_exclusive t" "generations_unique t"
    using inv unfolding work_inv_def gpus_exclusive_def generations_unique_def at by blast+
  ultimately show ?thesis by (simp add: work_inv_def)
qed

lemma suspend_inv:
  assumes inv: "work_inv s" and room: "\<forall>r\<in>set (ws_jobs s). rec_revision (jrow_value r) < 2 ^ 53 - 1"
  shows "work_inv (suspend s)"
proof -
  let ?g = "\<lambda>j. j\<lparr>rec_cancelled := True, rec_revision := rec_revision j + 1\<rparr>"
  let ?f = "\<lambda>r. r\<lparr>jrow_value := ?g (jrow_value r)\<rparr>"
  have jobs: "ws_jobs (suspend s) = map ?f (ws_jobs s)" and at: "attempt_at (suspend s) = attempt_at s"
    and as: "ws_attempts (suspend s) = ws_attempts s"
    by (simp_all add: suspend_def attempt_at_def fun_eq_iff)
  have jt: "job_at (suspend s) i = map_option ?g (job_at s i)" for i
  proof -
    have "map_option jrow_value (find (\<lambda>r. jrow_id r = i) (map ?f rs)) = map_option ?g (map_option jrow_value (find (\<lambda>r. jrow_id r = i) rs))" for rs
      by (induction rs) auto
    then show ?thesis unfolding job_at_def jobs find_row_def .
  qed
  have "job_row_ok (?f r)" if "r \<in> set (ws_jobs s)" for r
    using inv room that by (auto simp: work_inv_def rows_ok_def job_row_ok_def valid_record_def Revision_def ownership_def)
  then have "rows_ok (suspend s)" using inv by (auto simp: work_inv_def rows_ok_def jobs as comp_def)
  moreover have ge: "attempt_of a (?g j) = attempt_of a j" "current_ok (suspend s) (?g j) = current_ok s j" for a j
    by (simp_all add: attempt_of_def current_ok_def at)
  have "jobs_bound (suspend s)"
    unfolding jobs_bound_def at
  proof (intro allI impI)
    fix i a assume "attempt_at s i = Some a"
    then obtain j where "job_at s (wa_job_id a) = Some j" "attempt_of a j" using attempt_at_job [OF inv] by blast
    then show "\<exists>j. job_at (suspend s) (wa_job_id a) = Some j \<and> attempt_of a j" by (intro exI [of _ "?g j"]) (simp add: jt ge)
  qed
  moreover have "chains_ok (suspend s)" using inv ge(2) by (auto simp: work_inv_def chains_ok_def jt)
  moreover have "gpus_exclusive (suspend s)" "generations_unique (suspend s)"
    using inv by (simp_all add: work_inv_def gpus_exclusive_def generations_unique_def at)
  ultimately show ?thesis by (simp add: work_inv_def)
qed

lemma save_node_inv: "work_inv s \<Longrightarrow> save_node clk n s = Inr (t, v) \<Longrightarrow> work_inv t"
  by (auto simp: save_node_def bindr_Inr Let_def split: if_splits option.splits intro: work_inv_cong [THEN iffD1, rotated 2])

end
