(* ===== verification/Work_Records_Props.thy ===== *)
theory Work_Records_Props
  imports Work_Records_Inv Exec_Ledger_Props
begin

text \<open>
  The controller's records as a transition system and its properties. Other subsystems may change
  the policy revision, the GPUs of SSH jobs and the contributors between two operations, and the
  installation owner may suspend and resume dispatch.
\<close>

section \<open>The transition system\<close>

inductive work_step :: "work_store \<Rightarrow> work_store \<Rightarrow> bool" where
  work_submit: "submit_job clk token request key dele s = Inr (t, v) \<Longrightarrow> work_step s t"
| work_reserve: "reserve_attempt clk p lease inst capacity ledger version s = Inr (t, a) \<Longrightarrow> work_step s t"
| work_observe: "observe_attempt clk r node inst s = Inr (t, a) \<Longrightarrow> valid_attempt_result r \<Longrightarrow> work_step s t"
| work_transition: "transition_attempt clk i expected state reason s = Inr (t, a) \<Longrightarrow> work_step s t"
| work_renew: "renew_attempt clk i expires s = Inr (t, l) \<Longrightarrow> work_step s t"
| work_cancel: "cancel_job clk i revision s = Inr (t, v) \<Longrightarrow> work_step s t"
| work_retry: "retry_job clk i revision dele ack s = Inr (t, v) \<Longrightarrow> work_step s t"
| work_pending: "mark_pending clk i reason s = Inr (t, v) \<Longrightarrow> work_step s t"
| work_abandon: "abandon_job clk i revision s = Inr (t, v) \<Longrightarrow> work_step s t"
| work_remove: "remove_job i revision s = Inr (t, u) \<Longrightarrow> work_step s t"
| work_node: "save_node clk n s = Inr (t, v') \<Longrightarrow> work_step s t"
| work_suspend: "\<forall>r\<in>set (ws_jobs s). rec_revision (jrow_value r) < 2 ^ 53 - 1 \<Longrightarrow> work_step s (suspend s)"
| work_other: "work_step s (s\<lparr>ws_policy_revision := n, ws_ssh_gpus := gs, ws_contributors := cs, ws_audit := au\<rparr>)"
| work_control: "work_step s (s\<lparr>ws_suspended := b\<rparr>)"

lemma work_step_inv: "work_step s t \<Longrightarrow> work_inv s \<Longrightarrow> work_inv t"
proof (induction rule: work_step.induct)
  case (work_other s au cs gs n)
  then show ?case using work_inv_cong [of s "s\<lparr>ws_policy_revision := n, ws_ssh_gpus := gs, ws_contributors := cs, ws_audit := au\<rparr>"] by simp
next
  case (work_control s b)
  then show ?case using work_inv_cong [of s "s\<lparr>ws_suspended := b\<rparr>"] by simp
qed (auto intro: submit_inv reserve_attempt_inv observe_inv transition_inv renew_attempt_inv cancel_inv retry_inv mark_pending_inv
    abandon_inv remove_inv save_node_inv suspend_inv)

interpretation work: invariant_system "\<lambda>s. s = empty_store" work_step work_inv
proof
  show "work_inv s" if "s = empty_store" for s
    using that by (simp add: work_inv_def rows_ok_def jobs_bound_def chains_ok_def gpus_exclusive_def generations_unique_def
        empty_store_def attempt_at_def job_at_def find_row_def)
qed (rule work_step_inv)

abbreviation work_reach :: "work_store \<Rightarrow> bool" where
  "work_reach \<equiv> reach (\<lambda>s. s = empty_store) work_step"

section \<open>Concrete records\<close>

definition ex_submission :: submission where
  "ex_submission = \<lparr>sub_job = ex_job [''gpu0''], sub_node_ids = [ex_id (CHR ''1'')], sub_dataset = None, sub_model_revision = None\<rparr>"

definition ex_delegation :: delegation where
  "ex_delegation = \<lparr>del_id = ex_id (CHR ''8''), del_subject_id = ex_id (CHR ''3''), del_project_id = ex_id (CHR ''2''),
     del_credential_id = ex_id (CHR ''7''), del_scopes = [], del_subject_revision = 0, del_project_revision = 0,
     del_membership_revision = 0, del_policy_revision = 0, del_role_revision = 0, del_policy_digest = None, del_publisher_revision = 0\<rparr>"

definition ex_key :: string where
  "ex_key = ''request-key-0001''"

definition ex_record :: job_record where
  "ex_record = \<lparr>rec_id = ex_id (CHR ''c''), rec_subject_id = ex_id (CHR ''3''), rec_project_id = ex_id (CHR ''2''),
     rec_actor = ex_id (CHR ''7''), rec_key = ex_key, rec_digest = digest (submission_dump ex_submission),
     rec_request = ex_submission, rec_delegation = ex_delegation, rec_state = Queued, rec_reason = None,
     rec_current_attempt = None, rec_generation = 0, rec_cancelled = False, rec_created_at = 1000, rec_updated_at = 1000,
     rec_revision = 1\<rparr>"

definition ex_store1 :: work_store where
  "ex_store1 = empty_store\<lparr>ws_jobs := [\<lparr>jrow_id = ex_id (CHR ''c''), jrow_subject_id = ex_id (CHR ''3''),
     jrow_project_id = ex_id (CHR ''2''), jrow_key = ex_key, jrow_digest = digest (submission_dump ex_submission), jrow_value = ex_record\<rparr>]\<rparr>"

lemma ex_hex: "Identity (ex_id (CHR ''0''))" "Identity (ex_id (CHR ''1''))" "Identity (ex_id (CHR ''2''))" "Identity (ex_id (CHR ''3''))"
  "Identity (ex_id (CHR ''7''))" "Identity (ex_id (CHR ''8''))" "Identity (ex_id (CHR ''a''))" "Identity (ex_id (CHR ''c''))" "Key ex_key"
  by code_simp+

lemma ex_valid_job: "valid_job (ex_job [''gpu0''])"
  using ex_valid(1) by (simp add: valid_plan_def ex_plan1_def ex_plan_def)

lemma ex_valid_record: "valid_record ex_record"
  using ex_hex ex_valid_job digest_Digest
  by (simp add: valid_record_def ex_record_def valid_submission_def ex_submission_def input_source_def valid_delegation_def
      ex_delegation_def Count_def Revision_def ownership_def)

lemma ex_submit: "submit_job (\<lambda>_. 1000) (ex_id (CHR ''c'')) ex_submission ex_key ex_delegation empty_store = Inr (ex_store1, ex_record)"
  using ex_valid_record
  by (simp add: submit_job_def empty_store_def Let_def ex_store1_def find_row_def add_row_def ex_record_def ex_delegation_def)

lemma ex_store1_reach: "work_reach ex_store1"
  by (rule reach_step [OF reach_start]) (auto intro: work_submit [OF ex_submit])

definition ex_wlease :: renewal where
  "ex_wlease = ex_lease\<lparr>ren_expires_at := 1020\<rparr>"

definition ex_wattempt :: wattempt where
  "ex_wattempt = new_attempt ex_plan1 ex_wlease (ex_id (CHR ''0'')) None 0 (ex_id (CHR ''c'')) 1000"

definition ex_record2 :: job_record where
  "ex_record2 = ex_record\<lparr>rec_current_attempt := Some (ex_id (CHR ''a'')), rec_generation := 1, rec_state := Preparing,
     rec_reason := None, rec_updated_at := 1000, rec_revision := 2\<rparr>"

definition ex_store2 :: work_store where
  "ex_store2 = audit ''workload.admit'' ex_record2 ex_wattempt ''preparing''
     (put_job ex_record2 (ex_store1\<lparr>ws_attempts := [\<lparr>wrow_id = ex_id (CHR ''a''), wrow_job_id = ex_id (CHR ''c''),
        wrow_node_id = ex_id (CHR ''1''), wrow_value = ex_wattempt\<rparr>]\<rparr>))"

lemma ex_wattempt_sel [simp]:
  "wa_id ex_wattempt = ex_id (CHR ''a'')" "wa_job_id ex_wattempt = ex_id (CHR ''c'')" "wa_node_id ex_wattempt = ex_id (CHR ''1'')"
  "wa_plan ex_wattempt = ex_plan1" "wa_state ex_wattempt = Preparing" "wa_lease ex_wattempt = ex_wlease"
  "wa_observed ex_wattempt = None" "wa_outcome ex_wattempt = None" "wa_start_requested ex_wattempt = False"
  by (simp_all add: ex_wattempt_def new_attempt_def ex_plan1_def ex_plan_def)

lemma ex_valid_wattempt: "valid_wattempt ex_wattempt"
proof -
  have "Digest (digest_of_plan ex_plan1)" using digest_Digest by (simp add: digest_of_plan_def)
  then show ?thesis using ex_hex ex_valid
    by (simp add: valid_wattempt_def ex_wattempt_def new_attempt_def attempt_binding_def same_fence_def ex_wlease_def ex_lease_def
        valid_renewal_def valid_fence_def Revision_def ex_plan1_def ex_plan_def)
qed

lemma ex_reserve_checks: "reserve_checks ex_store1 ex_plan1 (ex_limits 2 [''gpu0'', ''gpu1'']) = Inr ()"
  by (simp add: reserve_checks_def require_free_def ex_store1_def empty_store_def list_attempts_def held_on_def wtotal_def summed_def
      ex_plan1_def ex_plan_def ex_job_def ex_limits_def fits_def)

lemma ex_wreserve:
  "reserve_attempt (\<lambda>_. 1000) ex_plan1 ex_wlease (ex_id (CHR ''0'')) (ex_limits 2 [''gpu0'', ''gpu1'']) None 0 ex_store1 =
     Inr (ex_store2, ex_wattempt)"
proof -
  have j: "get_job ex_store1 (plan_job_id ex_plan1) = Inr ex_record"
    by (simp add: get_job_def ex_store1_def find_row_def ex_plan1_def ex_plan_def)
  have q: "queued_for ex_store1 ex_record ex_plan1"
    by (simp add: queued_for_def ex_record_def ex_plan1_def ex_plan_def ex_submission_def ex_store1_def empty_store_def)
  have n: "new_attempt ex_plan1 ex_wlease (ex_id (CHR ''0'')) None 0 (rec_id ex_record) 1000 = ex_wattempt"
    by (simp add: ex_wattempt_def ex_record_def)
  have "valid_record ex_record2"
    using ex_valid_record ex_hex by (simp add: ex_record2_def valid_record_def ex_record_def Count_def Revision_def ownership_def)
  then have "save_job 1000 (ex_record\<lparr>rec_current_attempt := Some (ex_id (CHR ''a'')), rec_generation := 1, rec_state := Preparing,
      rec_reason := None\<rparr>) s = Inr (put_job ex_record2 s, ex_record2)" for s
    by (simp add: save_job_def ex_record2_def ex_record_def Let_def)
  moreover have "plan_generation ex_plan1 = 1" by (simp add: ex_plan1_def ex_plan_def)
  ultimately show ?thesis
    using j q n ex_reserve_checks ex_valid_wattempt
    by (simp add: reserve_attempt_def Let_def insert_wattempt_def ex_wlease_def [unfolded ex_lease_def] find_row_def
        ex_store2_def ex_record_def add_row_def)
      (simp add: ex_store1_def empty_store_def find_row_def)
qed

lemma ex_store2_reach: "work_reach ex_store2"
  by (rule reach_step [OF ex_store1_reach]) (rule work_reserve [OF ex_wreserve])

lemma ex_store2_at: "attempt_at ex_store2 (ex_id (CHR ''a'')) = Some ex_wattempt" "job_at ex_store2 (ex_id (CHR ''c'')) = Some ex_record2"
  by (simp_all add: attempt_at_def job_at_def ex_store2_def put_job_def put_row_def find_row_def audit_def ex_record2_def ex_record_def ex_store1_def)

section \<open>Properties\<close>

text \<open>
  C11: in every state the controller can reach, an attempt that holds a reservation is the current
  attempt of an existing job that left the queue and has the job's latest generation; so a job
  has at most one unreleased attempt, and two unreleased attempts of a node never share a GPU.
\<close>

theorem work_exclusive:
  assumes "work_reach s" and "attempt_at s i = Some a" and "wa_state a \<noteq> Released"
  shows "(\<exists>j. job_at s (wa_job_id a) = Some j \<and> rec_current_attempt j = Some i \<and> rec_state j \<noteq> Queued \<and>
       rec_generation j = plan_generation (wa_plan a)) \<and>
    (\<forall>k b. attempt_at s k = Some b \<and> wa_state b \<noteq> Released \<and> k \<noteq> i \<longrightarrow>
       wa_job_id b \<noteq> wa_job_id a \<and> (wa_node_id b = wa_node_id a \<longrightarrow> attempt_gpus a \<inter> attempt_gpus b = {}))"
proof -
  have inv: "work_inv s" by (rule work.reach_inv [OF assms(1)])
  obtain j where j: "job_at s (wa_job_id a) = Some j" using attempt_at_job [OF inv assms(2)] by blast
  note cur = current_unqueued [OF inv assms(2,3) j]
  have "current_ok s j" using inv j by (simp add: work_inv_def chains_ok_def)
  then have g: "rec_generation j = plan_generation (wa_plan a)" using cur(2) assms(2) by (auto simp: current_ok_def)
  have "wa_job_id b \<noteq> wa_job_id a" if b: "attempt_at s k = Some b" "wa_state b \<noteq> Released" "k \<noteq> i" for k b
  proof
    assume e: "wa_job_id b = wa_job_id a"
    then have "rec_current_attempt j = Some k" using current_unqueued(2) [OF inv b(1,2)] j by simp
    then show False using cur(2) b(3) by simp
  qed
  moreover have "attempt_gpus a \<inter> attempt_gpus b = {}"
    if "attempt_at s k = Some b" "wa_state b \<noteq> Released" "k \<noteq> i" "wa_node_id b = wa_node_id a" for k b
  proof -
    have "gpus_exclusive s" using inv by (simp add: work_inv_def)
    then show ?thesis using that assms(2,3) unfolding gpus_exclusive_def by metis
  qed
  ultimately show ?thesis using j cur g by blast
qed

theorem work_exclusive_witness:
  "\<exists>j. job_at ex_store2 (ex_id (CHR ''c'')) = Some j \<and> rec_current_attempt j = Some (ex_id (CHR ''a''))"
  using work_exclusive [OF ex_store2_reach ex_store2_at(1)] by (simp) blast

text \<open>Attempts only move forward.\<close>

definition attempt_forward :: "wattempt \<Rightarrow> wattempt \<Rightarrow> bool" where
  "attempt_forward a b \<longleftrightarrow> same_attempt a b \<and> (wa_state a \<in> {Released, Abandoned} \<longrightarrow> b = a) \<and>
     (\<forall>r. wa_outcome a = Some r \<longrightarrow> (\<exists>q. wa_outcome b = Some q \<and> same_outcome r q)) \<and>
     ren_sequence (wa_lease a) \<le> ren_sequence (wa_lease b) \<and> ren_expires_at (wa_lease a) \<le> ren_expires_at (wa_lease b) \<and>
     (wa_start_requested a \<longrightarrow> wa_start_requested b)"

lemma forward_refl: "attempt_forward a a"
  by (simp add: attempt_forward_def same_attempt_def same_outcome_def)

lemma put_forward:
  assumes "attempt_at s i = Some a" and "attempt_at s (wa_id b) = Some c" and "attempt_forward c b"
  shows "\<exists>d. attempt_at (put_attempt b s) i = Some d \<and> attempt_forward a d"
  using assms forward_refl by (auto simp: put_attempt_at)

lemma save_forward:
  assumes "attempt_at s i = Some a" and "save_attempt now v s = Inr (t, w)" and "attempt_at s (wa_id v) = Some c"
    and "wa_state c \<notin> {Released, Abandoned}" and "attempt_forward c v"
  shows "\<exists>d. attempt_at t i = Some d \<and> attempt_forward a d"
proof -
  note d = save_attemptD [OF assms(2)]
  have "attempt_forward c w" using assms(4,5) by (simp add: d(3) attempt_forward_def same_attempt_def)
  then show ?thesis unfolding d(1) using put_forward [OF assms(1)] assms(3) by (simp add: d(3))
qed

lemma save_job_at: "save_job now v s = Inr (t, w) \<Longrightarrow> attempt_at t = attempt_at s"
  by (drule save_jobD(1)) simp

lemma observe_forward:
  assumes inv: "work_inv s" and at: "attempt_at s i = Some x" and o: "observe_attempt clk r node inst s = Inr (t, c)"
  shows "\<exists>d. attempt_at t i = Some d \<and> attempt_forward x d"
  using o
proof (cases rule: observe_cases)
  case (2 a job b s1 j s2)
  have s1: "attempt_at s1 = attempt_at s"
    using 2(6) save_job_at by (auto simp: observe_job_def split: if_splits)
  note ob = observed_attemptD [OF 2(5)]
  have aid: "wa_id b = f_attempt_id r" using ob(1) attempt_at_ok [OF inv 2(1)] by (simp add: same_attempt_def)
  have "attempt_forward a b"
  proof -
    have "wa_lease b = wa_lease a" "wa_start_requested b = wa_start_requested a"
      using 2(5) by (auto simp: observed_attempt_def bindr_Inr split: if_splits option.splits)
    moreover have "\<exists>q. wa_outcome b = Some q \<and> same_outcome u q" if "wa_outcome a = Some u" for u
      using that ob(4,5) by (auto simp: same_outcome_def split: if_splits)
    ultimately show ?thesis using ob(1) 2(2) by (simp add: attempt_forward_def)
  qed
  then have "\<exists>d. attempt_at s2 i = Some d \<and> attempt_forward x d"
    using save_forward [OF _ 2(7), of i x a] s1 at 2(1,2) aid by simp
  moreover have "attempt_at t = attempt_at s2" using 2(9) by (simp add: attempt_at_def fun_eq_iff)
  ultimately show ?thesis by simp
qed (use at forward_refl in auto)

lemma transition_forward:
  assumes inv: "work_inv s" and at: "attempt_at s i = Some x" and o: "transition_attempt clk k expected state reason s = Inr (t, c)"
  shows "\<exists>d. attempt_at t i = Some d \<and> attempt_forward x d"
  using o
proof (cases rule: transition_cases)
  case (1 a job s1 s2 j)
  let ?b = "a\<lparr>wa_state := state, wa_start_requested := (wa_start_requested a \<or> state = Starting)\<rparr>"
  have live: "wa_state a \<notin> {Released, Abandoned}" using 1(3,4) by (auto simp: transition_allowed_def)
  have "attempt_at s (wa_id ?b) = Some a" using attempt_at_ok [OF inv 1(1)] 1(1) by simp
  moreover have "attempt_forward a ?b" using live by (simp add: attempt_forward_def same_attempt_def same_outcome_def)
  ultimately have "\<exists>d. attempt_at s1 i = Some d \<and> attempt_forward x d"
    using save_forward [OF at 1(6)] live by blast
  then show ?thesis using 1(8) save_job_at [OF 1(7)] by simp
qed

lemma renew_forward:
  assumes inv: "work_inv s" and at: "attempt_at s i = Some x" and o: "renew_attempt clk k expires s = Inr (t, l)"
  shows "\<exists>d. attempt_at t i = Some d \<and> attempt_forward x d"
  using o
proof (cases rule: renew_attempt_cases)
  case (1 a job b)
  have "wa_state a \<notin> {Released, Abandoned}" using 1(3) by auto
  moreover from this have "attempt_forward a (a\<lparr>wa_lease := l\<rparr>)"
    using 1(7,9,10) by (simp add: attempt_forward_def same_attempt_def same_outcome_def)
  moreover have "attempt_at s (wa_id (a\<lparr>wa_lease := l\<rparr>)) = Some a" using attempt_at_ok [OF inv 1(1)] 1(1) by simp
  ultimately show ?thesis using save_forward [OF at 1(11)] by blast
qed

lemma abandon_forward:
  assumes inv: "work_inv s" and at: "attempt_at s i = Some x" and o: "abandon_job clk k revision s = Inr (t, w)"
  shows "\<exists>d. attempt_at t i = Some d \<and> attempt_forward x d"
  using o
proof (cases rule: abandon_cases)
  case (1 job c a b s1)
  let ?b = "a\<lparr>wa_state := Abandoned, wa_outcome := (case wa_outcome a of None \<Rightarrow> Some (abandoned_outcome a) | Some r \<Rightarrow> Some r)\<rparr>"
  have "attempt_at s (wa_id ?b) = Some a" using attempt_at_ok [OF inv 1(4)] 1(4) by simp
  moreover have "attempt_forward a ?b" using 1(5) by (simp add: attempt_forward_def same_attempt_def same_outcome_def)
  ultimately have "\<exists>d. attempt_at s1 i = Some d \<and> attempt_forward x d"
    using save_forward [OF at 1(7)] 1(5) by blast
  then show ?thesis using save_job_at [OF 1(8)] by simp
qed

lemma reserve_forward:
  assumes "reserve_attempt clk p lease inst capacity ledger version s = Inr (t, c)" and "attempt_at s i = Some a"
  shows "attempt_at t i = Some a"
proof -
  obtain job s1 s2 w b where s1: "insert_wattempt b (rec_id job) s = Inr s1" and s2: "save_job (clk 2) (job\<lparr>rec_current_attempt := Some (wa_id b),
      rec_generation := plan_generation p, rec_state := Preparing, rec_reason := None\<rparr>) s1 = Inr (s2, w)"
    and t: "attempt_at t = attempt_at s2"
    using assms(1) by (auto simp: reserve_attempt_def bindr_Inr get_Inr Let_def split: if_splits)
  have "attempt_at s1 i = Some a"
    using s1 assms(2) by (auto simp: insert_wattempt_def attempt_at_def find_row_add split: if_splits option.splits)
  then show ?thesis using t save_job_at [OF s2] by simp
qed

text \<open>
  C12: whatever operation the controller performs, a recorded attempt either is deleted with its
  job or moves forward: its job, node, installation and immutable plan never change, a released
  or abandoned attempt never changes at all, a recorded outcome is never replaced by another
  (only its cleanup may be confirmed), leases only advance and a requested start is never
  forgotten.
\<close>

theorem work_attempt_forward:
  assumes "work_reach s" and "work_step s t" and "attempt_at s i = Some a"
  shows "attempt_at t i = None \<or> (\<exists>b. attempt_at t i = Some b \<and> attempt_forward a b)"
proof -
  have inv: "work_inv s" by (rule work.reach_inv [OF assms(1)])
  have same: ?thesis if "ws_attempts t = ws_attempts s"
    using that assms(3) forward_refl by (auto simp: attempt_at_def)
  have saved: ?thesis if "save_job now v s = Inr (t, w)" for now v w
    using save_job_at [OF that] assms(3) forward_refl by simp
  from assms(2) show ?thesis
  proof cases
    case (work_submit clk token request key dele v)
    then have "ws_attempts t = ws_attempts s" by (auto simp: submit_job_def Let_def split: option.splits if_splits)
    then show ?thesis by (rule same)
  next
    case (work_reserve clk p lease inst capacity ledger version c)
    then show ?thesis using reserve_forward [OF _ assms(3)] forward_refl by blast
  next
    case (work_observe clk r node inst c)
    then show ?thesis using observe_forward [OF inv assms(3)] by blast
  next
    case (work_transition clk k expected state reason c)
    then show ?thesis using transition_forward [OF inv assms(3)] by blast
  next
    case (work_renew clk k expires l)
    then show ?thesis using renew_forward [OF inv assms(3)] by blast
  next
    case (work_cancel clk k revision v)
    then show ?thesis using saved by (auto simp: cancel_job_def bindr_Inr split: if_splits)
  next
    case (work_retry clk k revision dele ack v)
    then show ?thesis by (cases rule: retry_cases) (rule saved)
  next
    case (work_pending clk k reason v)
    then show ?thesis using saved same by (auto simp: mark_pending_def bindr_Inr split: if_splits)
  next
    case (work_abandon clk k revision v)
    then show ?thesis using abandon_forward [OF inv assms(3)] by blast
  next
    case (work_remove k revision u)
    then show ?thesis using remove_at(1) [OF inv, of k revision t u i] assms(3) forward_refl by (simp split: if_splits)
  next
    case (work_node clk n v)
    then show ?thesis using same by (auto simp: save_node_def bindr_Inr Let_def split: if_splits option.splits)
  qed (use same in \<open>simp_all add: suspend_def\<close>)
qed

theorem work_attempt_forward_witness:
  "\<exists>t. cancel_job (\<lambda>_. 1001) (ex_id (CHR ''c'')) 2 ex_store2 = Inr (t, ex_record2\<lparr>rec_cancelled := True, rec_updated_at := 1001, rec_revision := 3\<rparr>) \<and>
     (attempt_at t (ex_id (CHR ''a'')) = None \<or> (\<exists>b. attempt_at t (ex_id (CHR ''a'')) = Some b \<and> attempt_forward ex_wattempt b))"
proof -
  let ?w = "ex_record2\<lparr>rec_cancelled := True, rec_updated_at := 1001, rec_revision := 3\<rparr>"
  have g: "get_job ex_store2 (ex_id (CHR ''c'')) = Inr ex_record2" by (simp add: get_Inr ex_store2_at)
  have "valid_record ?w"
    using ex_valid_record ex_hex by (simp add: ex_record2_def valid_record_def ex_record_def Count_def Revision_def ownership_def)
  then have c: "cancel_job (\<lambda>_. 1001) (ex_id (CHR ''c'')) 2 ex_store2 = Inr (put_job ?w ex_store2, ?w)"
    using g by (simp add: cancel_job_def save_job_def ex_record2_def ex_record_def Let_def)
  show ?thesis using work_attempt_forward [OF ex_store2_reach work_cancel [OF c] ex_store2_at(1)] c by blast
qed

section \<open>Backups\<close>

lemma distinct_generations:
  assumes inv: "work_inv s"
  shows "distinct (generations s i)"
proof -
  let ?rs = "filter (\<lambda>r. wa_job_id (wrow_value r) = i) (ws_attempts s)"
  have d: "distinct (map wrow_id (ws_attempts s))" using inv by (simp add: work_inv_def rows_ok_def)
  then have "distinct ?rs" by (simp add: distinct_map)
  moreover have "inj_on (\<lambda>r. plan_generation (wa_plan (wrow_value r))) (set ?rs)"
  proof (rule inj_onI)
    fix q r assume q: "q \<in> set ?rs" and r: "r \<in> set ?rs"
      and e: "plan_generation (wa_plan (wrow_value q)) = plan_generation (wa_plan (wrow_value r))"
    have at: "attempt_at s (wrow_id x) = Some (wrow_value x)" if "x \<in> set ?rs" for x
      using find_row_distinct [OF d, of x] that by (simp add: attempt_at_def)
    have "generations_unique s" using inv by (simp add: work_inv_def)
    then have "wrow_id q = wrow_id r"
      unfolding generations_unique_def using at [OF q] at [OF r] q r e by (metis (mono_tags, lifting) mem_Collect_eq set_filter)
    then show "q = r" using d q r by (simp add: distinct_map inj_on_def)
  qed
  ultimately show ?thesis unfolding generations_def by (simp add: distinct_map)
qed

lemma row_job:
  assumes inv: "work_inv s" and r: "r \<in> set (ws_attempts s)"
  obtains q where "find_row jrow_id (ws_jobs s) (wrow_job_id r) = Some q" "attempt_of (wrow_value r) (jrow_value q)"
    "attempt_row_ok r" "attempt_at s (wrow_id r) = Some (wrow_value r)"
proof -
  have ok: "attempt_row_ok r" and d: "distinct (map wrow_id (ws_attempts s))" using inv r by (auto simp: work_inv_def rows_ok_def)
  have at: "attempt_at s (wrow_id r) = Some (wrow_value r)" using find_row_distinct [OF d r] by (simp add: attempt_at_def)
  obtain j where "job_at s (wa_job_id (wrow_value r)) = Some j" "attempt_of (wrow_value r) j" using attempt_at_job [OF inv at] by blast
  moreover have "wa_job_id (wrow_value r) = wrow_job_id r" using ok by (simp add: attempt_row_ok_def)
  ultimately show thesis using that ok at by (auto simp: job_at_def)
qed



section \<open>Capacity and submission\<close>

lemma set_held_on: "set (held_on s node) = wrow_value ` {r \<in> set (ws_attempts s). (node = [] \<or> wrow_node_id r = node) \<and> wa_state (wrow_value r) \<noteq> Released}"
  by (auto simp: held_on_def list_attempts_def)

lemma wtotal_sort:
  "wtotal f (filter P (map wrow_value (sort_key wrow_id rs))) = wtotal f (filter P (map wrow_value rs))"
proof -
  have "mset (filter P (map wrow_value (sort_key wrow_id rs))) = mset (filter P (map wrow_value rs))"
    by simp
  then show ?thesis unfolding wtotal_def by (metis mset_map sum_mset_sum_list)
qed

lemma held_on_total:
  "wtotal f (held_on s node) =
     wtotal f (map wrow_value (filter (\<lambda>r. (node = [] \<or> wrow_node_id r = node) \<and> wa_state (wrow_value r) \<noteq> Released) (ws_attempts s)))"
  unfolding held_on_def list_attempts_def wtotal_sort by (simp add: filter_map comp_def conj_commute)

text \<open>
  The controller never promises more than a node offers: right after a reservation the sums
  of every counted resource over all unreleased attempts of the node, the new one included, are
  within the capacity it was given, the job fits that capacity, and the job is preparing its next
  generation under the new attempt.
\<close>

theorem reserve_within_capacity:
  assumes "work_reach s" and "reserve_attempt clk p lease inst capacity ledger version s = Inr (t, a)"
  shows "fits (job_limits (plan_job p)) capacity \<and> (\<forall>f\<in>set summed. wtotal f (held_on t (plan_node_id p)) \<le> f capacity) \<and>
    (\<exists>j. job_at t (plan_job_id p) = Some j \<and> rec_state j = Preparing \<and> rec_current_attempt j = Some (plan_attempt_id p) \<and>
       rec_generation j = plan_generation p)"
proof -
  have inv: "work_inv s" by (rule work.reach_inv [OF assms(1)])
  obtain job s1 s2 w where job: "job_at s (plan_job_id p) = Some job"
    and ch: "reserve_checks s p capacity = Inr ()" and a: "a = new_attempt p lease inst ledger version (rec_id job) (clk 1)"
    and ins: "insert_wattempt a (rec_id job) s = Inr s1"
    and sv: "save_job (clk 2) (job\<lparr>rec_current_attempt := Some (wa_id a), rec_generation := plan_generation p,
         rec_state := Preparing, rec_reason := None\<rparr>) s1 = Inr (s2, w)"
    and t: "t = audit ''workload.admit'' w a ''preparing'' s2"
    using assms(2) by (auto simp: reserve_attempt_def bindr_Inr get_Inr Let_def split: if_splits)
  note w = save_jobD [OF sv]
  have s1: "s1 = s\<lparr>ws_attempts := add_row \<lparr>wrow_id = wa_id a, wrow_job_id = rec_id job,
      wrow_node_id = wa_node_id a, wrow_value = a\<rparr> (ws_attempts s)\<rparr>"
    using ins by (auto simp: insert_wattempt_def split: if_splits)
  have rows: "ws_attempts t = ws_attempts s @ [\<lparr>wrow_id = wa_id a, wrow_job_id = rec_id job, wrow_node_id = wa_node_id a, wrow_value = a\<rparr>]"
    by (simp add: t w(1) s1 add_row_def)
  have "wtotal f (held_on t (plan_node_id p)) = wtotal f (held_on s (plan_node_id p)) + f (job_limits (plan_job p))" for f
    unfolding held_on_total rows by (simp add: a new_attempt_def wtotal_def attempt_limit_def)
  moreover have "fits (job_limits (plan_job p)) capacity"
    "\<forall>f\<in>set summed. wtotal f (held_on s (plan_node_id p)) + f (job_limits (plan_job p)) \<le> f capacity"
    using ch by (auto simp: reserve_checks_def bindr_Inr Let_def list_ex_iff split: if_splits)
  moreover have "job_at t (plan_job_id p) = Some w"
  proof -
    have "job_at s1 (plan_job_id p) = Some job" using job by (simp add: s1 job_at_def)
    moreover have "rec_id w = plan_job_id p" using job_at_ok [OF inv job] w(3) by simp
    ultimately show ?thesis by (simp add: t w(1) put_job_at)
  qed
  ultimately show ?thesis using w(3) a by (simp add: new_attempt_def)
qed

theorem reserve_within_capacity_witness:
  "list_all (\<lambda>f. wtotal f (held_on ex_store2 (plan_node_id ex_plan1)) \<le> f (ex_limits 2 [''gpu0'', ''gpu1''])) summed"
  using reserve_within_capacity [OF ex_store1_reach ex_wreserve] by (simp add: list_all_iff)

text \<open>
  A submission is idempotent under its request key: repeating an accepted submission, by the
  same subject in the same project, returns the same record and changes nothing, whatever the
  clock, the random identity and the rest of the delegation; the same key with another request
  is refused.
\<close>

theorem submit_idempotent:
  assumes "work_reach s" and "submit_job clk token request key dele s = Inr (t, v)"
    and "del_subject_id dele' = del_subject_id dele" and "del_project_id dele' = del_project_id dele"
  shows "submit_job clk' token' request key dele' t = Inr (t, v) \<and>
    (digest (submission_dump other) \<noteq> digest (submission_dump request) \<longrightarrow>
       submit_job clk' token' other key dele' t = Inl (Failure ''idempotency_conflict'' 409))"
proof -
  let ?same = "\<lambda>r. jrow_subject_id r = del_subject_id dele \<and> jrow_project_id r = del_project_id dele \<and> jrow_key r = key"
  have "\<exists>r. find ?same (ws_jobs t) = Some r \<and> jrow_value r = v \<and> rec_digest v = digest (submission_dump request)"
  proof (cases "find ?same (ws_jobs s)")
    case None
    have app: "find ?same (xs @ [y]) = Some y" if "find ?same xs = None" "?same y" for xs y
      using that by (induction xs) auto
    have "\<exists>y. ws_jobs t = ws_jobs s @ [y] \<and> ?same y \<and> jrow_value y = v \<and> rec_digest v = digest (submission_dump request)"
      using assms(2) None by (auto simp: submit_job_def Let_def add_row_def split: if_splits)
    then show ?thesis using app [OF None] by auto
  next
    case (Some r)
    then show ?thesis using assms(2) by (auto simp: submit_job_def Let_def split: if_splits)
  qed
  then show ?thesis using assms(3,4) by (auto simp: submit_job_def Let_def)
qed

theorem submit_idempotent_witness:
  "submit_job (\<lambda>_. 2000) (ex_id (CHR ''e'')) ex_submission ex_key ex_delegation ex_store1 = Inr (ex_store1, ex_record)"
  using submit_idempotent [OF reach_start [of "\<lambda>s. s = empty_store", OF refl] ex_submit refl refl] by blast

section \<open>Usage\<close>

lemma count_usage_fold:
  "us_attempts (fold count_usage xs u) = us_attempts u"
  "us_unreleased (fold count_usage xs u) = us_unreleased u + int (length (filter (\<lambda>a. wa_state a \<noteq> Released) xs))"
  "us_input_bytes (fold count_usage xs u) = us_input_bytes u + sum_list (map (\<lambda>a. sum_list (map obj_bytes (job_inputs (plan_job (wa_plan a))))) xs)"
  "us_states (fold count_usage xs u) st = us_states u st + int (length (filter (\<lambda>a. reported_state a = st) xs))"
  by (induction xs arbitrary: u) (auto simp: count_usage_def Let_def)

lemma zip_map_add:
  "map (\<lambda>(n, f). n + h f) (zip (map g fs) fs) = map (\<lambda>f. g f + h f) fs" for g h :: "'a \<Rightarrow> int"
  by (induction fs) auto

lemma count_usage_reservations:
  "us_reservations u = map g summed \<Longrightarrow>
   us_reservations (fold count_usage xs u) = map (\<lambda>f. g f + wtotal f (filter (\<lambda>a. wa_state a \<noteq> Released) xs)) summed"
proof (induction xs arbitrary: u g)
  case (Cons a xs)
  show ?case
  proof (cases "wa_state a \<noteq> Released")
    case True
    then have "us_reservations (count_usage a u) = map (\<lambda>f. g f + attempt_limit f a) summed"
      using Cons.prems by (simp add: count_usage_def Let_def zip_map_add)
    from Cons.IH [OF this] show ?thesis using True by (simp add: wtotal_def add.assoc)
  next
    case False
    then have "us_reservations (count_usage a u) = map g summed" using Cons.prems by (simp add: count_usage_def Let_def)
    from Cons.IH [OF this] show ?thesis using False by simp
  qed
qed (simp add: wtotal_def)


end
