(* ===== verification/Contrib_Certificates.thy ===== *)
theory Contrib_Certificates
  imports Work_Schema
begin

text \<open>
  Proof of possession and exact client certificates (\<open>src/ficc/contributor_certificates.py\<close>) and
  the deployment settings they rely on (\<open>src/ficc/contributor_settings.py\<close>). The \<open>cryptography\<close>
  package is not part of the program: loading a request, loading a chain and verifying a chain
  are the fields of the record \<open>x509_library\<close>, and a loaded object is the record of what the
  program reads of it.
\<close>

section \<open>What the library returns\<close>

datatype key_type = Ed25519 | P256 | Other_key

record x509_key =
  key_type :: key_type
  key_der :: string

datatype general_name = URI string | Other_name string

datatype x509_extension =
    SubjectAlternativeName "general_name list"
  | ExtendedKeyUsage "string list"
  | BasicConstraints bool
  | KeyUsage bool bool bool
  | Other_extension string

record x509_csr =
  csr_signature_valid :: bool
  csr_attributes :: "string list"
  csr_encoded :: string
  csr_subject :: "(string \<times> string) list"
  csr_extensions :: "x509_extension list"
  csr_key :: x509_key

record x509_certificate =
  xc_subject :: "(string \<times> string) list"
  xc_extensions :: "x509_extension list"
  xc_key :: x509_key
  xc_not_before :: rat
  xc_not_after :: rat
  xc_fingerprint :: string

record x509_library =
  load_csr :: "string \<Rightarrow> x509_csr res"
  load_certificates :: "string \<Rightarrow> x509_certificate list res"
  verify_chain :: "string \<Rightarrow> rat \<Rightarrow> x509_certificate \<Rightarrow> x509_certificate list \<Rightarrow> unit res"

definition is_ascii :: "string \<Rightarrow> bool" where
  "is_ascii s \<longleftrightarrow> list_all (\<lambda>c. (of_char c :: nat) < 128) s"

text \<open>\<open>get_extension_for_class\<close> raises when the extension is absent.\<close>

fun alternative_names :: "x509_extension list \<Rightarrow> general_name list res" where
  "alternative_names [] = Inl X509Error"
| "alternative_names (SubjectAlternativeName ns # _) = Inr ns"
| "alternative_names (_ # es) = alternative_names es"

fun extended_usage :: "x509_extension list \<Rightarrow> string list res" where
  "extended_usage [] = Inl X509Error"
| "extended_usage (ExtendedKeyUsage us # _) = Inr us"
| "extended_usage (_ # es) = extended_usage es"

fun is_authority :: "x509_extension list \<Rightarrow> bool res" where
  "is_authority [] = Inl X509Error"
| "is_authority (BasicConstraints b # _) = Inr b"
| "is_authority (_ # es) = is_authority es"

fun key_usage :: "x509_extension list \<Rightarrow> (bool \<times> bool \<times> bool) res" where
  "key_usage [] = Inl X509Error"
| "key_usage (KeyUsage signature cert_sign crl_sign # _) = Inr (signature, cert_sign, crl_sign)"
| "key_usage (_ # es) = key_usage es"

section \<open>Requests\<close>

definition key_fingerprint :: "x509_key \<Rightarrow> string res" where
  "key_fingerprint k = (if key_type k = Other_key then Inl ValueError else Inr (sha256_hex (key_der k)))"

definition COMMON_NAME :: string where
  "COMMON_NAME = ''2.5.4.3''"

definition EXTENSION_REQUEST :: string where
  "EXTENSION_REQUEST = ''1.2.840.113549.1.9.14''"

definition CLIENT_AUTH :: string where
  "CLIENT_AUTH = ''1.3.6.1.5.5.7.3.2''"

definition validate_request :: "x509_library \<Rightarrow> string \<Rightarrow> string \<Rightarrow> string \<Rightarrow> string res" where
  "validate_request lib pem uri node =
     (if \<not> is_ascii pem \<or> length pem > 8192 then Inl ValueError
      else bindr (load_csr lib pem) (\<lambda>v.
        if \<not> csr_signature_valid v \<or> list_ex (\<lambda>oid. oid \<noteq> EXTENSION_REQUEST) (csr_attributes v) \<or> csr_encoded v \<noteq> pem
        then Inl ValueError
        else if csr_subject v \<noteq> [(COMMON_NAME, node)] then Inl ValueError
        else if length (csr_extensions v) \<noteq> 1 then Inl ValueError
        else bindr (alternative_names (csr_extensions v)) (\<lambda>names.
          if names \<noteq> [URI uri] then Inl ValueError else key_fingerprint (csr_key v))))"

text \<open>\<open>request\<close> turns the exceptions of the library into a \<open>ValueError\<close>.\<close>

definition csr_request :: "x509_library \<Rightarrow> string \<Rightarrow> string \<Rightarrow> string \<Rightarrow> string res" where
  "csr_request lib pem uri node =
     (case validate_request lib pem uri node of Inl X509Error \<Rightarrow> Inl ValueError | r \<Rightarrow> r)"

section \<open>Certificates\<close>

record leaf =
  lf_fingerprint :: string
  lf_public_key :: string
  lf_not_before :: rat
  lf_expires_at :: rat
  lf_certificate_chain :: string

definition check_leaf :: "x509_certificate \<Rightarrow> string \<Rightarrow> string \<Rightarrow> string \<Rightarrow> rat \<Rightarrow> rat \<Rightarrow> unit res" where
  "check_leaf c fingerprint uri node now duration =
     bindr (key_fingerprint (xc_key c)) (\<lambda>k.
     if k \<noteq> fingerprint then Inl ValueError
     else if xc_subject c \<noteq> [(COMMON_NAME, node)] then Inl ValueError
     else bindr (alternative_names (xc_extensions c)) (\<lambda>names.
     if names \<noteq> [URI uri] then Inl ValueError
     else bindr (extended_usage (xc_extensions c)) (\<lambda>usages.
     if usages \<noteq> [CLIENT_AUTH] then Inl ValueError
     else bindr (is_authority (xc_extensions c)) (\<lambda>authority.
     if authority then Inl ValueError
     else bindr (key_usage (xc_extensions c)) (\<lambda>(signature, cert_sign, crl_sign).
     if \<not> signature \<or> cert_sign \<or> crl_sign then Inl ValueError
     else if \<not> (xc_not_before c \<le> now \<and> now < xc_not_after c \<and> xc_not_after c \<le> now + duration + 5) then Inl ValueError
     else Inr ())))))"

definition certificate :: "x509_library \<Rightarrow> string \<Rightarrow> string \<Rightarrow> string \<Rightarrow> string \<Rightarrow> string \<Rightarrow> rat \<Rightarrow> rat \<Rightarrow> leaf res" where
  "certificate lib pem csr uri node roots duration now =
     (if \<not> is_ascii pem \<or> length pem > 16384 then Inl ValueError
      else bindr (load_certificates lib pem) (\<lambda>chain.
        if \<not> (1 \<le> length chain \<and> length chain \<le> 5) then Inl ValueError
        else bindr (verify_chain lib roots now (hd chain) (tl chain)) (\<lambda>_.
        bindr (csr_request lib csr uri node) (\<lambda>fingerprint.
        bindr (check_leaf (hd chain) fingerprint uri node now duration) (\<lambda>_.
          Inr \<lparr>lf_fingerprint = xc_fingerprint (hd chain), lf_public_key = fingerprint,
            lf_not_before = xc_not_before (hd chain), lf_expires_at = xc_not_after (hd chain), lf_certificate_chain = pem\<rparr>)))))"

text \<open>
  What a registered certificate is: verified under the roots, holding the key that the request
  proved, for this node only, for client authentication only, and of bounded life.
\<close>

lemma certificate_bound:
  assumes "certificate lib pem csr uri node roots duration now = Inr c"
  shows "csr_request lib csr uri node = Inr (lf_public_key c)" and "lf_not_before c \<le> now" and "now < lf_expires_at c"
    and "lf_expires_at c \<le> now + duration + 5"
    and "\<exists>x xs. load_certificates lib pem = Inr (x # xs) \<and> verify_chain lib roots now x xs = Inr () \<and>
      xc_subject x = [(COMMON_NAME, node)] \<and> is_authority (xc_extensions x) = Inr False \<and> lf_fingerprint c = xc_fingerprint x"
proof -
  obtain chain where l: "load_certificates lib pem = Inr chain" and n: "1 \<le> length chain"
    and v: "verify_chain lib roots now (hd chain) (tl chain) = Inr ()"
    and r: "csr_request lib csr uri node = Inr (lf_public_key c)"
    and k: "check_leaf (hd chain) (lf_public_key c) uri node now duration = Inr ()"
    and c: "lf_fingerprint c = xc_fingerprint (hd chain)" "lf_not_before c = xc_not_before (hd chain)" "lf_expires_at c = xc_not_after (hd chain)"
    using assms unfolding certificate_def by (auto simp: bindr_Inr split: if_splits)
  show "csr_request lib csr uri node = Inr (lf_public_key c)" by (rule r)
  show "lf_not_before c \<le> now" "now < lf_expires_at c" "lf_expires_at c \<le> now + duration + 5"
    using k c unfolding check_leaf_def by (auto simp: bindr_Inr split: if_splits)
  have "xc_subject (hd chain) = [(COMMON_NAME, node)]" "is_authority (xc_extensions (hd chain)) = Inr False"
    using k unfolding check_leaf_def by (auto simp: bindr_Inr split: if_splits)
  moreover obtain x xs where "chain = x # xs" using n by (cases chain) auto
  ultimately show "\<exists>x xs. load_certificates lib pem = Inr (x # xs) \<and> verify_chain lib roots now x xs = Inr () \<and>
      xc_subject x = [(COMMON_NAME, node)] \<and> is_authority (xc_extensions x) = Inr False \<and> lf_fingerprint c = xc_fingerprint x"
    using l v c by simp
qed

section \<open>Settings\<close>

record contributor_settings =
  cfg_deployment_id :: string
  cfg_origin :: string
  cfg_ca :: string
  cfg_secret :: string
  cfg_certificate_seconds :: int
  cfg_invitation_seconds :: int
  cfg_lease_seconds :: int
  cfg_heartbeat_seconds :: int
  cfg_max_nodes :: int

definition node_uri :: "contributor_settings \<Rightarrow> string \<Rightarrow> string res" where
  "node_uri cfg node =
     (if Identity node then Inr (''urn:ficc:node:'' @ cfg_deployment_id cfg @ '':'' @ node) else Inl ValueError)"

end
