(* ===== verification/Contrib_Store.thy ===== *)
theory Contrib_Store
  imports Contrib_Certificates Work_Records
begin

text \<open>
  The durable records of contributors (\<open>src/ficc/contributor_store.py\<close>): invitations, enrolment
  requests, approval and certificates. A database is the four tables with what the operations read
  of others: the projects with their disabled flag and the workload tables (\<open>db_work\<close>). The
  columns \<open>id\<close>, \<open>node_id\<close>, \<open>project_id\<close> and \<open>fingerprint\<close> repeat a field of the stored document,
  which no operation changes, and are read from it; the digest columns are kept beside it. Every
  operation is one transaction. \<open>clk n\<close> is its \<open>n\<close>-th reading of \<open>time.time()\<close>; random identities and
  secrets are arguments.
\<close>

section \<open>The database\<close>

record contributor =
  cn_id :: string
  cn_project_id :: string
  cn_name :: string
  cn_mode :: mode
  cn_disabled :: bool
  cn_revision :: int
  cn_created_at :: rat

record invitation =
  iv_id :: string
  iv_node_id :: string
  iv_project_id :: string
  iv_name :: string
  iv_mode :: mode
  iv_expires_at :: rat
  iv_used :: bool

datatype request_kind = Enroll | Rotate

datatype request_status = Awaiting_approval | Issuing | Issued | Issue_failed

record crequest =
  cr_id :: string
  cr_node_id :: string
  cr_csr_pem :: string
  cr_public_key :: string
  cr_kind :: request_kind
  cr_base_fingerprint :: "string option"
  cr_status :: request_status
  cr_expires_at :: rat
  cr_revision :: int
  cr_certificate_fingerprint :: "string option"

datatype certificate_status = Pending | Current | Revoked

record node_certificate =
  ct_fingerprint :: string
  ct_leaf :: leaf
  ct_node_id :: string
  ct_request_id :: string
  ct_status :: certificate_status

record principal =
  pr_id :: string
  pr_scopes :: "string list"
  pr_node_ids :: "string list option"
  pr_root_ids :: "string list option"
  pr_subject_id :: string
  pr_project_id :: string

record database =
  db_projects :: "(string \<times> bool) list"
  db_nodes :: "contributor list"
  db_invitations :: "(string \<times> invitation) list"
  db_requests :: "(string \<times> crequest) list"
  db_certificates :: "node_certificate list"
  db_work :: work_store

type_synonym 'a db_op = "database \<Rightarrow> (database \<times> 'a) res"

definition not_found :: exn where
  "not_found = Failure ''not_found'' 404"

definition get_node :: "database \<Rightarrow> string \<Rightarrow> contributor res" where
  "get_node d i = (case find_row cn_id (db_nodes d) i of None \<Rightarrow> Inl not_found | Some n \<Rightarrow> Inr n)"

definition get_request :: "database \<Rightarrow> string \<Rightarrow> crequest res" where
  "get_request d i = (case find_row (cr_id \<circ> snd) (db_requests d) i of None \<Rightarrow> Inl not_found | Some r \<Rightarrow> Inr (snd r))"

definition get_certificate :: "database \<Rightarrow> string \<Rightarrow> node_certificate res" where
  "get_certificate d f = (case find_row ct_fingerprint (db_certificates d) f of None \<Rightarrow> Inl not_found | Some c \<Rightarrow> Inr c)"

definition update_node :: "contributor \<Rightarrow> database \<Rightarrow> database" where
  "update_node n d = d\<lparr>db_nodes := put_row cn_id (cn_id n) (\<lambda>_. n) (db_nodes d)\<rparr>"

definition update_request :: "crequest \<Rightarrow> database \<Rightarrow> database" where
  "update_request r d = d\<lparr>db_requests := put_row (cr_id \<circ> snd) (cr_id r) (\<lambda>(g, _). (g, r)) (db_requests d)\<rparr>"

definition update_certificate :: "node_certificate \<Rightarrow> database \<Rightarrow> database" where
  "update_certificate c d = d\<lparr>db_certificates := put_row ct_fingerprint (ct_fingerprint c) (\<lambda>_. c) (db_certificates d)\<rparr>"

definition update_invitation :: "invitation \<Rightarrow> database \<Rightarrow> database" where
  "update_invitation v d = d\<lparr>db_invitations := put_row (iv_id \<circ> snd) (iv_id v) (\<lambda>(g, _). (g, v)) (db_invitations d)\<rparr>"

definition record_audit :: "string \<Rightarrow> string \<Rightarrow> principal option \<Rightarrow> string \<Rightarrow> database \<Rightarrow> database" where
  "record_audit action identity actor outcome d =
     d\<lparr>db_work := (db_work d)\<lparr>ws_audit := ws_audit (db_work d) @
       [\<lparr>au_action = action, au_target = identity, au_outcome = outcome,
         au_actor = (case actor of Some a \<Rightarrow> pr_id a | None \<Rightarrow> ''node:'' @ identity)\<rparr>]\<rparr>\<rparr>"

definition require_project :: "database \<Rightarrow> string \<Rightarrow> unit res" where
  "require_project d p =
     (case map_of (db_projects d) p of
        None \<Rightarrow> Inl not_found
      | Some disabled \<Rightarrow> if disabled then Inl (Failure ''project_disabled'' 403) else Inr ())"

definition secret_digest :: "string \<Rightarrow> string res" where
  "secret_digest secret =
     (if \<not> (43 \<le> length secret \<and> length secret \<le> 128) \<or> \<not> is_ascii secret then Inl (Failure ''invalid_invitation'' 403)
      else Inr (sha256_hex secret))"

definition prune :: "rat \<Rightarrow> database \<Rightarrow> database" where
  "prune now d =
     d\<lparr>db_invitations := filter (\<lambda>(_, v). \<not> iv_expires_at v \<le> now) (db_invitations d),
       db_certificates := filter (\<lambda>c. \<not> lf_expires_at (ct_leaf c) \<le> now) (db_certificates d),
       db_requests := filter (\<lambda>(_, r). \<not> cr_expires_at r \<le> now) (db_requests d)\<rparr>"

section \<open>Enrolment\<close>

definition invite :: "contributor_settings \<Rightarrow> (nat \<Rightarrow> rat) \<Rightarrow> string \<Rightarrow> string \<Rightarrow> string \<Rightarrow> string \<Rightarrow> mode \<Rightarrow> principal \<Rightarrow> invitation db_op" where
  "invite cfg clk secret identity node name m actor d =
     bindr (require_project d (pr_project_id actor)) (\<lambda>_.
     let d1 = prune (clk 0) d in
     bindr (ensure (length (db_invitations d1) < 128) (Failure ''capacity'' 409)) (\<lambda>_.
     let v = \<lparr>iv_id = identity, iv_node_id = node, iv_project_id = pr_project_id actor, iv_name = name, iv_mode = m,
         iv_expires_at = clk 1 + of_int (cfg_invitation_seconds cfg), iv_used = False\<rparr> in
     bindr (secret_digest secret) (\<lambda>g.
     bindr (ensure (\<forall>(h, w)\<in>set (db_invitations d1). h \<noteq> g \<and> iv_id w \<noteq> identity) IntegrityError) (\<lambda>_.
       Inr (record_audit ''contributor.invite'' identity (Some actor) ''success''
             (d1\<lparr>db_invitations := add_row (g, v) (db_invitations d1)\<rparr>), v)))))"

definition enrolled_node :: "invitation \<Rightarrow> rat \<Rightarrow> contributor" where
  "enrolled_node v now =
     \<lparr>cn_id = iv_node_id v, cn_project_id = iv_project_id v, cn_name = iv_name v, cn_mode = iv_mode v,
      cn_disabled = False, cn_revision = 1, cn_created_at = now\<rparr>"

definition new_request :: "string \<Rightarrow> string \<Rightarrow> string \<Rightarrow> string \<Rightarrow> request_kind \<Rightarrow> string option \<Rightarrow> rat \<Rightarrow> crequest" where
  "new_request identity node csr key kind base expires =
     \<lparr>cr_id = identity, cr_node_id = node, cr_csr_pem = csr, cr_public_key = key, cr_kind = kind,
      cr_base_fingerprint = base, cr_status = Awaiting_approval, cr_expires_at = expires,
      cr_revision = 1, cr_certificate_fingerprint = None\<rparr>"

definition claim :: "x509_library \<Rightarrow> contributor_settings \<Rightarrow> (nat \<Rightarrow> rat) \<Rightarrow> string \<Rightarrow> string \<Rightarrow> string \<Rightarrow> string \<Rightarrow> string \<Rightarrow> (crequest \<times> string) db_op" where
  "claim lib cfg clk receipt identity secret csr node d =
     bindr (secret_digest secret) (\<lambda>g.
     let d1 = prune (clk 0) d in
     bindr (ensure (length (db_requests d1) < 512) (Failure ''capacity'' 409)) (\<lambda>_.
     case find_row fst (db_invitations d1) g of
       None \<Rightarrow> Inl (Failure ''invalid_invitation'' 403)
     | Some (_, v) \<Rightarrow>
         bindr (ensure (\<not> (iv_used v \<or> iv_expires_at v \<le> clk 1 \<or> iv_node_id v \<noteq> node)) (Failure ''invalid_invitation'' 403)) (\<lambda>_.
         bindr (require_project d1 (iv_project_id v)) (\<lambda>_.
         bindr (ensure (int (length (db_nodes d1)) < cfg_max_nodes cfg) (Failure ''capacity'' 409)) (\<lambda>_.
         bindr (node_uri cfg node) (\<lambda>uri.
         bindr (csr_request lib csr uri node) (\<lambda>key.
         let n = enrolled_node v (clk 2);
             p = new_request identity node csr key Enroll None (iv_expires_at v) in
         bindr (ensure (\<forall>m\<in>set (db_nodes d1). cn_id m \<noteq> node) IntegrityError) (\<lambda>_.
         bindr (secret_digest receipt) (\<lambda>rg.
         bindr (ensure (\<forall>r\<in>set (db_requests d1). cr_id (snd r) \<noteq> identity) IntegrityError) (\<lambda>_.
           Inr (record_audit ''contributor.request'' node None ''success''
                 (update_invitation (v\<lparr>iv_used := True\<rparr>)
                   (d1\<lparr>db_nodes := add_row n (db_nodes d1), db_requests := add_row (rg, p) (db_requests d1)\<rparr>)), (p, receipt))))))))))))"

record receipt_view =
  rv_request_id :: string
  rv_node_id :: string
  rv_status :: request_status
  rv_certificate :: "(string \<times> rat) option"

definition read_receipt :: "(nat \<Rightarrow> rat) \<Rightarrow> string \<Rightarrow> string \<Rightarrow> database \<Rightarrow> receipt_view res" where
  "read_receipt clk identity secret d =
     bindr (secret_digest secret) (\<lambda>g.
     case find_row (cr_id \<circ> snd) (db_requests d) identity of
       None \<Rightarrow> Inl (Failure ''invalid_receipt'' 403)
     | Some (h, p) \<Rightarrow>
         if h \<noteq> g then Inl (Failure ''invalid_receipt'' 403)
         else
           bindr (get_node d (cr_node_id p)) (\<lambda>n.
           bindr (require_project d (cn_project_id n)) (\<lambda>_.
           bindr (ensure (\<not> (cn_disabled n \<or> cr_expires_at p \<le> clk 0)) (Failure ''enrollment_expired'' 403)) (\<lambda>_.
           bindr (if cr_status p = Issued then
                    (case cr_certificate_fingerprint p of
                       None \<Rightarrow> Inl not_found
                     | Some f \<Rightarrow>
                         bindr (get_certificate d f) (\<lambda>c.
                         bindr (ensure (\<not> (ct_status c = Revoked \<or> lf_expires_at (ct_leaf c) \<le> clk 1)) (Failure ''certificate_revoked'' 403)) (\<lambda>_.
                           Inr (Some (lf_certificate_chain (ct_leaf c), lf_expires_at (ct_leaf c))))))
                  else Inr None) (\<lambda>shown.
             Inr \<lparr>rv_request_id = identity, rv_node_id = cn_id n, rv_status = cr_status p, rv_certificate = shown\<rparr>)))))"

section \<open>Authentication\<close>

definition certificate_active :: "rat \<Rightarrow> node_certificate \<Rightarrow> bool" where
  "certificate_active now c \<longleftrightarrow> lf_not_before (ct_leaf c) \<le> now \<and> now < lf_expires_at (ct_leaf c)"

definition joined :: "database \<Rightarrow> string \<Rightarrow> (node_certificate \<times> contributor \<times> bool) option" where
  "joined d f =
     (case find_row ct_fingerprint (db_certificates d) f of
        None \<Rightarrow> None
      | Some c \<Rightarrow>
          (case find_row cn_id (db_nodes d) (ct_node_id c) of
             None \<Rightarrow> None
           | Some n \<Rightarrow> (case map_of (db_projects d) (cn_project_id n) of None \<Rightarrow> None | Some p \<Rightarrow> Some (c, n, p))))"

definition authenticate :: "rat \<Rightarrow> string \<Rightarrow> bool \<Rightarrow> database \<Rightarrow> (contributor \<times> node_certificate) res" where
  "authenticate now f pending d =
     (case joined d f of
        None \<Rightarrow> Inl not_found
      | Some (c, n, project_disabled) \<Rightarrow>
          if project_disabled then Inl (Failure ''project_disabled'' 403)
          else if cn_disabled n \<or> ct_status c \<notin> (if pending then {Pending, Current} else {Current}) \<or> \<not> certificate_active now c
          then Inl (Failure ''node_unauthorized'' 403)
          else Inr (n, c))"

definition active_certificates :: "rat \<Rightarrow> string list \<Rightarrow> database \<Rightarrow> (string \<times> string) list res" where
  "active_certificates now fs d =
     (if fs = [] then Inr []
      else if length fs > 64 then Inl AssertionError
      else Inr (map (\<lambda>c. (ct_node_id c, ct_fingerprint c))
        (filter (\<lambda>c. ct_fingerprint c \<in> set fs \<and>
           (case joined d (ct_fingerprint c) of
              None \<Rightarrow> False
            | Some (_, n, project_disabled) \<Rightarrow>
                \<not> project_disabled \<and> \<not> cn_disabled n \<and> ct_status c = Current \<and> certificate_active now c)) (db_certificates d))))"

section \<open>Issuance\<close>

definition rotation_base :: "rat \<Rightarrow> crequest \<Rightarrow> database \<Rightarrow> unit res" where
  "rotation_base now p d =
     (if cr_kind p = Rotate then
        (case cr_base_fingerprint p of None \<Rightarrow> Inl not_found | Some f \<Rightarrow> bindr (authenticate now f False d) (\<lambda>_. Inr ()))
      else Inr ())"

definition begin_issue :: "(nat \<Rightarrow> rat) \<Rightarrow> string \<Rightarrow> string \<Rightarrow> int \<Rightarrow> principal option \<Rightarrow> crequest db_op" where
  "begin_issue clk identity expected revision actor d =
     bindr (get_request d identity) (\<lambda>p.
     bindr (get_node d (cr_node_id p)) (\<lambda>n.
     bindr (require_project d (cn_project_id n)) (\<lambda>_.
     bindr (ensure (case actor of None \<Rightarrow> True | Some a \<Rightarrow> cn_project_id n = pr_project_id a) not_found) (\<lambda>_.
     bindr (ensure (\<not> (cn_disabled n \<or> cr_expires_at p \<le> clk 0 \<or> cr_revision p \<noteq> revision \<or> cr_public_key p \<noteq> expected
         \<or> cr_status p \<notin> {Awaiting_approval, Issue_failed, Issuing})) (Failure ''request_changed'' 409)) (\<lambda>_.
     bindr (rotation_base (clk 1) p d) (\<lambda>_.
     let q = p\<lparr>cr_status := Issuing, cr_revision := cr_revision p + 1\<rparr> in
       Inr (record_audit ''contributor.approve'' (cr_node_id p) actor ''success'' (update_request q d), q)))))))"

definition issued :: "(nat \<Rightarrow> rat) \<Rightarrow> crequest \<Rightarrow> leaf \<Rightarrow> crequest db_op" where
  "issued clk p c d =
     bindr (get_request d (cr_id p)) (\<lambda>current.
     bindr (get_node d (cr_node_id p)) (\<lambda>n.
     bindr (require_project d (cn_project_id n)) (\<lambda>_.
     bindr (ensure (\<not> (current \<noteq> p \<or> cn_disabled n \<or> cr_expires_at p \<le> clk 0)) (Failure ''request_changed'' 409)) (\<lambda>_.
     bindr (rotation_base (clk 1) p d) (\<lambda>_.
     let d1 = prune (clk 2) d in
     bindr (ensure (length (db_certificates d1) < 256) (Failure ''capacity'' 409)) (\<lambda>_.
     bindr (ensure (\<forall>x\<in>set (db_certificates d1). ct_fingerprint x \<noteq> lf_fingerprint c) IntegrityError) (\<lambda>_.
     let cert = \<lparr>ct_fingerprint = lf_fingerprint c, ct_leaf = c, ct_node_id = cn_id n, ct_request_id = cr_id p, ct_status = Pending\<rparr>;
         q = current\<lparr>cr_status := Issued, cr_certificate_fingerprint := Some (lf_fingerprint c), cr_revision := cr_revision current + 1\<rparr> in
       Inr (record_audit ''contributor.certificate'' (cn_id n) None ''success''
             (update_request q (d1\<lparr>db_certificates := add_row cert (db_certificates d1)\<rparr>)), q))))))))"

definition failed :: "crequest \<Rightarrow> database \<Rightarrow> database" where
  "failed p d =
     (case get_request d (cr_id p) of
        Inl _ \<Rightarrow> d
      | Inr stored \<Rightarrow>
          if stored = p then record_audit ''contributor.certificate'' (cr_node_id p) None ''failed''
            (update_request (stored\<lparr>cr_status := Issue_failed, cr_revision := cr_revision stored + 1\<rparr>) d)
          else d)"

text \<open>The loops of \<open>activate\<close> and \<open>disable\<close>: the certificates of a node are revoked, but for one.\<close>

definition revocable :: "string \<Rightarrow> string option \<Rightarrow> node_certificate \<Rightarrow> bool" where
  "revocable node keep c \<longleftrightarrow> ct_node_id c = node \<and> ct_status c \<noteq> Revoked \<and> Some (ct_fingerprint c) \<noteq> keep"

definition revoke_all :: "string \<Rightarrow> string option \<Rightarrow> database \<Rightarrow> database \<times> node_certificate list" where
  "revoke_all node keep d =
     (let previous = map (\<lambda>c. c\<lparr>ct_status := Revoked\<rparr>) (filter (revocable node keep) (db_certificates d))
      in (fold update_certificate previous d, previous))"

definition activate :: "(nat \<Rightarrow> rat) \<Rightarrow> string \<Rightarrow> (contributor \<times> node_certificate list) db_op" where
  "activate clk f d =
     bindr (authenticate (clk 0) f True d) (\<lambda>(n, c).
     if ct_status c = Current then Inr (d, (n, []))
     else
       bindr (get_request d (ct_request_id c)) (\<lambda>r.
       bindr (ensure (\<not> (cr_expires_at r \<le> clk 1 \<or> cr_status r \<noteq> Issued)) (Failure ''enrollment_expired'' 403)) (\<lambda>_.
       bindr (rotation_base (clk 2) r d) (\<lambda>_.
       let (d1, previous) = revoke_all (cn_id n) (Some f) d;
           m = n\<lparr>cn_revision := cn_revision n + 1\<rparr> in
         Inr (record_audit ''contributor.activate'' (cn_id n) None ''success''
               (update_node m (update_certificate (c\<lparr>ct_status := Current\<rparr>) d1)), (m, previous))))))"

text \<open>\<open>rotation\<close> scans the retained requests: the same request is returned, an open rotation refused.\<close>

fun rotation_scan :: "database \<Rightarrow> string \<Rightarrow> string \<Rightarrow> string \<Rightarrow> string \<Rightarrow> crequest list \<Rightarrow> crequest option res" where
  "rotation_scan d identity node csr f [] = Inr None"
| "rotation_scan d identity node csr f (p # ps) =
     (if cr_id p = identity then
        (if (cr_node_id p, cr_csr_pem p, cr_base_fingerprint p) \<noteq> (node, csr, Some f) then Inl (Failure ''request_conflict'' 409)
         else Inr (Some p))
      else if cr_node_id p = node \<and> cr_kind p = Rotate \<and> cr_status p \<noteq> Issue_failed then
        (case cr_certificate_fingerprint p of
           None \<Rightarrow> Inl (Failure ''rotation_pending'' 409)
         | Some g \<Rightarrow>
             bindr (get_certificate d g) (\<lambda>c.
               if ct_status c = Pending then Inl (Failure ''rotation_pending'' 409)
               else rotation_scan d identity node csr f ps))
      else rotation_scan d identity node csr f ps)"

definition rotation :: "x509_library \<Rightarrow> contributor_settings \<Rightarrow> (nat \<Rightarrow> rat) \<Rightarrow> string \<Rightarrow> string \<Rightarrow> string \<Rightarrow> crequest db_op" where
  "rotation lib cfg clk f identity csr d =
     bindr (authenticate (clk 0) f False d) (\<lambda>(n, current).
     bindr (node_uri cfg (cn_id n)) (\<lambda>uri.
     bindr (csr_request lib csr uri (cn_id n)) (\<lambda>key.
     bindr (ensure (key \<noteq> lf_public_key (ct_leaf current)) (Failure ''key_rotation_required'' 409)) (\<lambda>_.
     let d1 = prune (clk 1) d in
     bindr (ensure (length (db_requests d1) < 512) (Failure ''capacity'' 409)) (\<lambda>_.
     bindr (rotation_scan d1 identity (cn_id n) csr f (map snd (db_requests d1))) (\<lambda>found.
     case found of
       Some p \<Rightarrow> Inr (d1, p)
     | None \<Rightarrow>
         let p = new_request identity (cn_id n) csr key Rotate (Some f)
               (min (lf_expires_at (ct_leaf current)) (clk 2 + of_int (cfg_invitation_seconds cfg)))
         in Inr (d1\<lparr>db_requests := add_row ([], p) (db_requests d1)\<rparr>, p)))))))"

section \<open>Revocation and removal\<close>

definition disable :: "string \<Rightarrow> int \<Rightarrow> principal \<Rightarrow> (contributor \<times> node_certificate list) db_op" where
  "disable identity revision actor d =
     bindr (get_node d identity) (\<lambda>n.
     bindr (ensure (cn_project_id n = pr_project_id actor) not_found) (\<lambda>_.
     bindr (ensure (cn_revision n = revision) (Failure ''revision_conflict'' 409)) (\<lambda>_.
     let m = n\<lparr>cn_disabled := True, cn_revision := revision + 1\<rparr>;
         (d1, revoked) = revoke_all identity None (update_node m d) in
       Inr (record_audit ''contributor.disable'' identity (Some actor) ''success'' d1, (m, revoked)))))"

definition retained_for_node :: "work_store \<Rightarrow> string \<Rightarrow> bool" where
  "retained_for_node w node \<longleftrightarrow>
     list_ex (\<lambda>r. wrow_node_id r = node) (ws_attempts w) \<or>
     list_ex (\<lambda>r. node \<in> set (sub_node_ids (rec_request (jrow_value r))) \<and> rec_state (jrow_value r) \<notin> terminal) (ws_jobs w)"

definition remove_node :: "string \<Rightarrow> int \<Rightarrow> principal \<Rightarrow> unit db_op" where
  "remove_node identity revision actor d =
     bindr (get_node d identity) (\<lambda>n.
     bindr (ensure (cn_project_id n = pr_project_id actor) not_found) (\<lambda>_.
     bindr (ensure (\<not> (cn_revision n \<noteq> revision \<or> \<not> cn_disabled n)) (Failure ''revision_conflict'' 409)) (\<lambda>_.
     bindr (ensure (\<not> retained_for_node (db_work d) identity) (Failure ''workload_retained'' 409)) (\<lambda>_.
       Inr (record_audit ''contributor.remove'' identity (Some actor) ''success''
             (d\<lparr>db_requests := filter (\<lambda>(_, p). cr_node_id p \<noteq> identity) (db_requests d),
                db_certificates := filter (\<lambda>c. ct_node_id c \<noteq> identity) (db_certificates d),
                db_invitations := filter (\<lambda>(_, v). iv_node_id v \<noteq> identity) (db_invitations d),
                db_work := (db_work d)\<lparr>ws_nodes := filter (\<lambda>r. fst r \<noteq> identity) (ws_nodes (db_work d))\<rparr>,
                db_nodes := filter (\<lambda>m. cn_id m \<noteq> identity) (db_nodes d)\<rparr>), ())))))"

section \<open>Workload operations on the same database\<close>

text \<open>
  The workload records read the same table of contributors; this is how one of their operations
  runs on the whole database.
\<close>

definition work_of :: "database \<Rightarrow> work_store" where
  "work_of d = (db_work d)\<lparr>ws_contributors := map (\<lambda>n. (cn_id n, cn_disabled n)) (db_nodes d)\<rparr>"

definition on_work :: "'a work_op \<Rightarrow> 'a db_op" where
  "on_work f d = bindr (f (work_of d)) (\<lambda>(w, x). Inr (d\<lparr>db_work := w\<rparr>, x))"

end
