(* ===== verification/Contrib_Store_Inv.thy ===== *)
theory Contrib_Store_Inv
  imports Contrib_Store
begin

text \<open>
  The invariant of the contributor tables and that every transaction keeps it: identities are
  unique, a node has at most one current certificate, a disabled contributor has none that is not
  revoked, every retained certificate holds a key whose possession was proved for its node, and
  the tables stay within their limits.
\<close>

section \<open>The invariant\<close>

definition proven_key :: "x509_library \<Rightarrow> contributor_settings \<Rightarrow> string \<Rightarrow> string \<Rightarrow> string \<Rightarrow> bool" where
  "proven_key lib cfg node csr key \<longleftrightarrow> (\<exists>uri. node_uri cfg node = Inr uri \<and> csr_request lib csr uri node = Inr key)"

definition unique_rows :: "database \<Rightarrow> bool" where
  "unique_rows d \<longleftrightarrow> distinct (map cn_id (db_nodes d)) \<and> distinct (map (cr_id \<circ> snd) (db_requests d)) \<and>
     distinct (map ct_fingerprint (db_certificates d)) \<and> distinct (map fst (db_invitations d)) \<and>
     distinct (map (iv_id \<circ> snd) (db_invitations d))"

definition one_current :: "database \<Rightarrow> bool" where
  "one_current d \<longleftrightarrow> (\<forall>c\<in>set (db_certificates d). \<forall>e\<in>set (db_certificates d).
     ct_status c = Current \<and> ct_status e = Current \<and> ct_node_id c = ct_node_id e \<longrightarrow> c = e)"

definition disabled_revoked :: "database \<Rightarrow> bool" where
  "disabled_revoked d \<longleftrightarrow> (\<forall>c\<in>set (db_certificates d). \<forall>n\<in>set (db_nodes d).
     cn_id n = ct_node_id c \<and> cn_disabled n \<longrightarrow> ct_status c = Revoked)"

definition rows_refer :: "database \<Rightarrow> bool" where
  "rows_refer d \<longleftrightarrow> ct_node_id ` set (db_certificates d) \<subseteq> cn_id ` set (db_nodes d) \<and>
     (cr_node_id \<circ> snd) ` set (db_requests d) \<subseteq> cn_id ` set (db_nodes d)"

definition request_ok :: "x509_library \<Rightarrow> contributor_settings \<Rightarrow> crequest \<Rightarrow> bool" where
  "request_ok lib cfg r \<longleftrightarrow> proven_key lib cfg (cr_node_id r) (cr_csr_pem r) (cr_public_key r) \<and>
     (cr_status r = Issued \<longleftrightarrow> cr_certificate_fingerprint r \<noteq> None)"

definition certificate_ok :: "x509_library \<Rightarrow> contributor_settings \<Rightarrow> node_certificate \<Rightarrow> bool" where
  "certificate_ok lib cfg c \<longleftrightarrow> (\<exists>csr. proven_key lib cfg (ct_node_id c) csr (lf_public_key (ct_leaf c))) \<and>
     ct_fingerprint c = lf_fingerprint (ct_leaf c) \<and> lf_not_before (ct_leaf c) < lf_expires_at (ct_leaf c)"

definition tables_bounded :: "contributor_settings \<Rightarrow> database \<Rightarrow> bool" where
  "tables_bounded cfg d \<longleftrightarrow> int (length (db_nodes d)) \<le> max 0 (cfg_max_nodes cfg) \<and> length (db_invitations d) \<le> 128 \<and>
     length (db_requests d) \<le> 512 \<and> length (db_certificates d) \<le> 256"

definition db_inv :: "x509_library \<Rightarrow> contributor_settings \<Rightarrow> database \<Rightarrow> bool" where
  "db_inv lib cfg d \<longleftrightarrow> unique_rows d \<and> one_current d \<and> disabled_revoked d \<and> rows_refer d \<and>
     (\<forall>r\<in>set (db_requests d). request_ok lib cfg (snd r)) \<and> (\<forall>c\<in>set (db_certificates d). certificate_ok lib cfg c) \<and>
     tables_bounded cfg d"

lemmas db_inv_defs = db_inv_def unique_rows_def one_current_def disabled_revoked_def rows_refer_def tables_bounded_def

section \<open>Tables\<close>

lemma get_node_Inr: "get_node d i = Inr n \<longleftrightarrow> find_row cn_id (db_nodes d) i = Some n"
  by (simp add: get_node_def split: option.splits)

lemma get_request_Inr: "get_request d i = Inr r \<longleftrightarrow> (\<exists>g. find_row (cr_id \<circ> snd) (db_requests d) i = Some (g, r))"
  by (auto simp: get_request_def split: option.splits)

lemma get_certificate_Inr: "get_certificate d f = Inr c \<longleftrightarrow> find_row ct_fingerprint (db_certificates d) f = Some c"
  by (simp add: get_certificate_def split: option.splits)

lemma distinct_map_filter_key: "distinct (map k xs) \<Longrightarrow> distinct (map k (filter P xs))"
  by (induction xs) auto

lemma joined_Some:
  "joined d f = Some (c, n, p) \<longleftrightarrow> find_row ct_fingerprint (db_certificates d) f = Some c \<and>
     find_row cn_id (db_nodes d) (ct_node_id c) = Some n \<and> map_of (db_projects d) (cn_project_id n) = Some p"
  by (auto simp: joined_def split: option.splits)

lemma authenticateD:
  assumes "authenticate now f pending d = Inr (n, c)"
  shows "find_row ct_fingerprint (db_certificates d) f = Some c" and "find_row cn_id (db_nodes d) (ct_node_id c) = Some n"
    and "map_of (db_projects d) (cn_project_id n) = Some False" and "\<not> cn_disabled n"
    and "ct_status c = Current \<or> pending \<and> ct_status c = Pending" and "certificate_active now c"
    and "ct_fingerprint c = f" and "cn_id n = ct_node_id c" and "c \<in> set (db_certificates d)" and "n \<in> set (db_nodes d)"
proof -
  obtain p where "joined d f = Some (c, n, p)" and "\<not> p" and *: "\<not> cn_disabled n" "certificate_active now c"
    "ct_status c = Current \<or> pending \<and> ct_status c = Pending"
    using assms by (auto simp: authenticate_def split: option.splits if_splits)
  then show "find_row ct_fingerprint (db_certificates d) f = Some c" "find_row cn_id (db_nodes d) (ct_node_id c) = Some n"
    "map_of (db_projects d) (cn_project_id n) = Some False" "\<not> cn_disabled n" "certificate_active now c"
    "ct_status c = Current \<or> pending \<and> ct_status c = Pending"
    by (simp_all add: joined_Some)
  then show "ct_fingerprint c = f" "cn_id n = ct_node_id c" "c \<in> set (db_certificates d)" "n \<in> set (db_nodes d)"
    by (auto dest: find_row_Some)
qed

section \<open>Small steps\<close>

lemma db_inv_frame:
  assumes "db_inv lib cfg d" and "db_nodes e = db_nodes d" "db_invitations e = db_invitations d"
    "db_requests e = db_requests d" "db_certificates e = db_certificates d"
  shows "db_inv lib cfg e"
  using assms by (simp add: db_inv_defs)

lemma record_audit_tables [simp]:
  "db_nodes (record_audit a i p x d) = db_nodes d" "db_invitations (record_audit a i p x d) = db_invitations d"
  "db_requests (record_audit a i p x d) = db_requests d" "db_certificates (record_audit a i p x d) = db_certificates d"
  "db_projects (record_audit a i p x d) = db_projects d"
  by (simp_all add: record_audit_def)

lemma record_audit_inv [simp]: "db_inv lib cfg (record_audit a i p x d) = db_inv lib cfg d"
  by (simp add: db_inv_defs)

lemma filtered_inv:
  assumes inv: "db_inv lib cfg d"
    and rows: "db_nodes e = filter P (db_nodes d)" "db_invitations e = filter Q (db_invitations d)"
      "db_requests e = filter R (db_requests d)" "db_certificates e = filter S (db_certificates d)"
    and keep: "\<And>n r. n \<in> set (db_nodes d) \<Longrightarrow> r \<in> set (db_requests e) \<Longrightarrow> cr_node_id (snd r) = cn_id n \<Longrightarrow> P n"
      "\<And>n c. n \<in> set (db_nodes d) \<Longrightarrow> c \<in> set (db_certificates e) \<Longrightarrow> ct_node_id c = cn_id n \<Longrightarrow> P n"
  shows "db_inv lib cfg e"
proof -
  have "unique_rows e" using inv by (simp add: db_inv_def unique_rows_def rows distinct_map_filter_key)
  moreover have "one_current e" "disabled_revoked e"
    using inv by (auto simp: db_inv_def one_current_def disabled_revoked_def rows)
  moreover have "rows_refer e"
  proof -
    have "ct_node_id c \<in> cn_id ` set (db_nodes e)" if "c \<in> set (db_certificates e)" for c
    proof -
      have "c \<in> set (db_certificates d)" using that by (simp add: rows)
      then obtain n where n: "n \<in> set (db_nodes d)" "ct_node_id c = cn_id n"
        using inv by (auto simp: db_inv_def rows_refer_def)
      then have "P n" using keep(2) that by simp
      then show ?thesis using n by (simp add: rows)
    qed
    moreover have "cr_node_id (snd r) \<in> cn_id ` set (db_nodes e)" if "r \<in> set (db_requests e)" for r
    proof -
      have "r \<in> set (db_requests d)" using that by (simp add: rows)
      then have "(cr_node_id \<circ> snd) r \<in> cn_id ` set (db_nodes d)"
        using inv unfolding db_inv_def rows_refer_def by blast
      then obtain n where n: "n \<in> set (db_nodes d)" "cr_node_id (snd r) = cn_id n" by auto
      then have "P n" using keep(1) that by simp
      then show ?thesis using n by (simp add: rows)
    qed
    ultimately show ?thesis unfolding rows_refer_def by auto
  qed
  moreover have "tables_bounded cfg e"
  proof -
    have "tables_bounded cfg d" using inv by (simp add: db_inv_def)
    then show ?thesis
      using length_filter_le [of P "db_nodes d"] length_filter_le [of Q "db_invitations d"]
        length_filter_le [of R "db_requests d"] length_filter_le [of S "db_certificates d"]
      unfolding tables_bounded_def rows by linarith
  qed
  ultimately show ?thesis using inv by (simp add: db_inv_def rows)
qed

lemma prune_inv:
  assumes "db_inv lib cfg d"
  shows "db_inv lib cfg (prune now d)"
  by (rule filtered_inv [OF assms, where P = "\<lambda>_. True"]) (simp_all add: prune_def)

lemma prune_tables [simp]: "db_nodes (prune now d) = db_nodes d" "db_projects (prune now d) = db_projects d"
  "db_work (prune now d) = db_work d"
  by (simp_all add: prune_def)

lemma update_node_inv:
  assumes inv: "db_inv lib cfg d"
    and keep: "\<And>c. cn_disabled n \<Longrightarrow> c \<in> set (db_certificates d) \<Longrightarrow> ct_node_id c = cn_id n \<Longrightarrow> ct_status c = Revoked"
  shows "db_inv lib cfg (update_node n d)"
proof -
  have keys: "map cn_id (db_nodes (update_node n d)) = map cn_id (db_nodes d)"
    by (simp add: update_node_def put_row_def)
  moreover from keys have "cn_id ` set (db_nodes (update_node n d)) = cn_id ` set (db_nodes d)"
    by (metis set_map)
  moreover from keys have "length (db_nodes (update_node n d)) = length (db_nodes d)"
    by (metis length_map)
  moreover have "disabled_revoked (update_node n d)"
    using inv keep by (auto simp: db_inv_def disabled_revoked_def update_node_def put_row_def split: if_splits)
  ultimately show ?thesis
    using inv by (simp add: db_inv_def unique_rows_def one_current_def rows_refer_def tables_bounded_def)
      (simp add: update_node_def)
qed

lemma update_request_tables [simp]:
  "db_nodes (update_request q d) = db_nodes d" "db_invitations (update_request q d) = db_invitations d"
  "db_certificates (update_request q d) = db_certificates d" "db_projects (update_request q d) = db_projects d"
  "db_work (update_request q d) = db_work d"
  "db_requests (update_request q d) = map (\<lambda>r. if cr_id (snd r) = cr_id q then (fst r, q) else r) (db_requests d)"
  by (simp_all add: update_request_def put_row_def case_prod_unfold)

lemma update_invitation_tables [simp]:
  "db_nodes (update_invitation v d) = db_nodes d" "db_requests (update_invitation v d) = db_requests d"
  "db_certificates (update_invitation v d) = db_certificates d" "db_projects (update_invitation v d) = db_projects d"
  "db_work (update_invitation v d) = db_work d"
  "db_invitations (update_invitation v d) = map (\<lambda>r. if iv_id (snd r) = iv_id v then (fst r, v) else r) (db_invitations d)"
  by (simp_all add: update_invitation_def put_row_def case_prod_unfold)

lemma map_if_key: "(\<And>x. P x \<Longrightarrow> k (f x) = k x) \<Longrightarrow> map (k \<circ> (\<lambda>x. if P x then f x else x)) xs = map k xs"
  by (induction xs) auto

lemma update_request_inv:
  assumes inv: "db_inv lib cfg d" and q: "request_ok lib cfg q" and n: "cr_node_id q \<in> cn_id ` set (db_nodes d)"
  shows "db_inv lib cfg (update_request q d)"
proof -
  have "unique_rows (update_request q d)"
    using inv by (simp add: db_inv_def unique_rows_def map_if_key)
  moreover have "rows_refer (update_request q d)"
    using inv n by (auto simp: db_inv_def rows_refer_def)
  moreover have "\<forall>r\<in>set (db_requests (update_request q d)). request_ok lib cfg (snd r)"
    using inv q by (auto simp: db_inv_def)
  ultimately show ?thesis
    using inv by (simp add: db_inv_def one_current_def disabled_revoked_def tables_bounded_def del: update_request_tables(6))
      (simp add: tables_bounded_def)
qed

lemma update_invitation_inv:
  assumes inv: "db_inv lib cfg d"
  shows "db_inv lib cfg (update_invitation v d)"
proof -
  have "unique_rows (update_invitation v d)"
    using inv by (simp add: db_inv_def unique_rows_def map_if_key)
  then show ?thesis
    using inv by (simp add: db_inv_def one_current_def disabled_revoked_def rows_refer_def tables_bounded_def)
qed

section \<open>Revoking certificates\<close>

definition with_certificates :: "node_certificate list \<Rightarrow> database \<Rightarrow> database" where
  "with_certificates cs d = d\<lparr>db_certificates := cs\<rparr>"

lemma with_certificates_tables:
  "db_certificates (with_certificates cs d) = cs" "db_nodes (with_certificates cs d) = db_nodes d"
  by (simp_all add: with_certificates_def)

lemma update_certificate_tables:
  "update_certificate c d = with_certificates (map (\<lambda>e. if ct_fingerprint e = ct_fingerprint c then c else e) (db_certificates d)) d"
  by (simp add: update_certificate_def put_row_def with_certificates_def)

lemma fold_update_certificates:
  assumes "distinct (map ct_fingerprint xs)"
  shows "fold update_certificate xs d =
    with_certificates (map (\<lambda>e. case find_row ct_fingerprint xs (ct_fingerprint e) of None \<Rightarrow> e | Some x \<Rightarrow> x) (db_certificates d)) d"
  using assms
proof (induction xs arbitrary: d)
  case Nil
  then show ?case by (simp add: find_row_def with_certificates_def)
next
  case (Cons x xs)
  have "find_row ct_fingerprint xs (ct_fingerprint x) = None"
    using Cons.prems by (simp add: find_row_None) (metis image_eqI)
  then show ?case using Cons by (auto simp: update_certificate_tables with_certificates_def find_row_def)
qed

lemma revoke_all_tables:
  assumes "distinct (map ct_fingerprint (db_certificates d))"
  shows "fst (revoke_all node keep d) =
    with_certificates (map (\<lambda>c. if revocable node keep c then c\<lparr>ct_status := Revoked\<rparr> else c) (db_certificates d)) d"
proof -
  let ?xs = "map (\<lambda>c. c\<lparr>ct_status := Revoked\<rparr>) (filter (revocable node keep) (db_certificates d))"
  have d: "distinct (map ct_fingerprint ?xs)" using assms by (simp add: comp_def distinct_map_filter_key)
  have "find_row ct_fingerprint ?xs (ct_fingerprint c) = (if revocable node keep c then Some (c\<lparr>ct_status := Revoked\<rparr>) else None)"
    if c: "c \<in> set (db_certificates d)" for c
  proof (cases "revocable node keep c")
    case True
    then have "c\<lparr>ct_status := Revoked\<rparr> \<in> set ?xs" using c by simp
    from find_row_distinct [OF d this] show ?thesis using True by simp
  next
    case False
    have "e = c" if "e \<in> set (db_certificates d)" "ct_fingerprint e = ct_fingerprint c" for e
      using assms c that by (metis find_row_distinct option.inject)
    then show ?thesis using False by (auto simp: find_row_None)
  qed
  then show ?thesis
    unfolding revoke_all_def Let_def fst_conv fold_update_certificates [OF d]
    by (simp add: with_certificates_def cong: map_cong)
qed

lemma certificates_inv:
  assumes inv: "db_inv lib cfg d" and e: "e = with_certificates (map f (db_certificates d)) d"
    and keep: "\<And>c. c \<in> set (db_certificates d) \<Longrightarrow>
        ct_fingerprint (f c) = ct_fingerprint c \<and> ct_leaf (f c) = ct_leaf c \<and> ct_node_id (f c) = ct_node_id c"
    and cur: "\<And>c c'. c \<in> set (db_certificates d) \<Longrightarrow> c' \<in> set (db_certificates d) \<Longrightarrow> ct_node_id c = ct_node_id c' \<Longrightarrow>
        ct_status (f c) = Current \<Longrightarrow> ct_status (f c') = Current \<Longrightarrow> c = c'"
    and rev: "\<And>c n. c \<in> set (db_certificates d) \<Longrightarrow> n \<in> set (db_nodes d) \<Longrightarrow> cn_id n = ct_node_id c \<Longrightarrow> cn_disabled n \<Longrightarrow>
        ct_status (f c) = Revoked"
  shows "db_inv lib cfg e"
proof -
  have keys: "map (ct_fingerprint \<circ> f) (db_certificates d) = map ct_fingerprint (db_certificates d)" using keep by simp
  have "unique_rows e" using inv unfolding e by (simp add: db_inv_def unique_rows_def with_certificates_def keys)
  moreover have "one_current e"
    unfolding one_current_def e using keep cur by (auto simp: with_certificates_def)
  moreover have "disabled_revoked e"
    unfolding disabled_revoked_def e using keep rev by (auto simp: with_certificates_def)
  moreover have "rows_refer e"
    using inv keep unfolding e by (auto simp: db_inv_def rows_refer_def with_certificates_def)
  moreover have "\<forall>c\<in>set (db_certificates e). certificate_ok lib cfg c"
    using inv keep unfolding e by (auto simp: db_inv_def certificate_ok_def with_certificates_def)
  ultimately show ?thesis
    using inv unfolding e by (simp add: db_inv_def tables_bounded_def with_certificates_def)
qed

section \<open>The transactions\<close>

lemma invite_inv:
  assumes inv: "db_inv lib cfg d" and r: "invite cfg clk secret identity node name m actor d = Inr (e, v)"
  shows "db_inv lib cfg e"
proof -
  let ?d = "prune (clk 0) d"
  obtain g where l: "length (db_invitations ?d) < 128"
    and f: "\<forall>(h, w)\<in>set (db_invitations ?d). h \<noteq> g \<and> iv_id w \<noteq> identity"
    and e: "e = record_audit ''contributor.invite'' identity (Some actor) ''success''
      (?d\<lparr>db_invitations := add_row (g, v) (db_invitations ?d)\<rparr>)" and v: "iv_id v = identity"
    using r by (auto simp: invite_def Let_def bindr_Inr split: if_splits)
  have i: "db_inv lib cfg ?d" by (rule prune_inv [OF inv])
  show ?thesis using i l f v unfolding e record_audit_inv
    by (auto simp: db_inv_defs add_row_def)
qed

lemma claimD:
  assumes "claim lib cfg clk rc identity secret csr node d = Inr (e, (p, s))"
  obtains g v key rg where "find_row fst (db_invitations (prune (clk 0) d)) g = Some (g, v)" "secret_digest secret = Inr g"
    "\<not> iv_used v" "iv_node_id v = node" "clk 1 < iv_expires_at v"
    "length (db_requests (prune (clk 0) d)) < 512" "int (length (db_nodes d)) < cfg_max_nodes cfg"
    "proven_key lib cfg node csr key" "\<forall>n\<in>set (db_nodes d). cn_id n \<noteq> node"
    "\<forall>r\<in>set (db_requests (prune (clk 0) d)). cr_id (snd r) \<noteq> identity"
    "p = new_request identity node csr key Enroll None (iv_expires_at v)"
    "e = record_audit ''contributor.request'' node None ''success'' (update_invitation (v\<lparr>iv_used := True\<rparr>)
       ((prune (clk 0) d)\<lparr>db_nodes := add_row (enrolled_node v (clk 2)) (db_nodes d),
          db_requests := add_row (rg, p) (db_requests (prune (clk 0) d))\<rparr>))"
proof -
  obtain g where g: "secret_digest secret = Inr g" and l: "length (db_requests (prune (clk 0) d)) < 512"
    using assms by (auto simp: claim_def Let_def bindr_Inr split: if_splits)
  obtain h v where f: "find_row fst (db_invitations (prune (clk 0) d)) g = Some (h, v)"
    using assms g l by (cases "find_row fst (db_invitations (prune (clk 0) d)) g") (auto simp: claim_def Let_def)
  have h: "h = g" using find_row_Some [OF f] by simp
  obtain uri key rg where c: "\<not> iv_used v" "iv_node_id v = node" "clk 1 < iv_expires_at v" "int (length (db_nodes d)) < cfg_max_nodes cfg"
    "node_uri cfg node = Inr uri" "csr_request lib csr uri node = Inr key"
    "\<forall>n\<in>set (db_nodes d). cn_id n \<noteq> node" "\<forall>r\<in>set (db_requests (prune (clk 0) d)). cr_id (snd r) \<noteq> identity"
    "p = new_request identity node csr key Enroll None (iv_expires_at v)"
    "e = record_audit ''contributor.request'' node None ''success'' (update_invitation (v\<lparr>iv_used := True\<rparr>)
       ((prune (clk 0) d)\<lparr>db_nodes := add_row (enrolled_node v (clk 2)) (db_nodes d),
          db_requests := add_row (rg, p) (db_requests (prune (clk 0) d))\<rparr>))"
    using assms g l f unfolding claim_def Let_def by (auto simp: bindr_Inr split: if_splits)
  then have "proven_key lib cfg node csr key" by (auto simp: proven_key_def)
  then show thesis using that f g l h c by simp
qed

lemma new_request_ok:
  "request_ok lib cfg (new_request i node csr key kind base expires) \<longleftrightarrow> proven_key lib cfg node csr key"
  by (simp add: request_ok_def new_request_def)

lemma add_request_inv:
  assumes "db_inv lib cfg d" and "length (db_requests d) < 512" and "\<forall>r\<in>set (db_requests d). cr_id (snd r) \<noteq> cr_id p"
    and "request_ok lib cfg p" and "cr_node_id p \<in> cn_id ` set (db_nodes d)"
  shows "db_inv lib cfg (d\<lparr>db_requests := add_row (g, p) (db_requests d)\<rparr>)"
proof -
  let ?e = "d\<lparr>db_requests := add_row (g, p) (db_requests d)\<rparr>"
  have "unique_rows ?e" using assms(1,3) by (auto simp: db_inv_def unique_rows_def add_row_def)
  moreover have "rows_refer ?e" using assms(1,5) by (simp add: db_inv_def rows_refer_def add_row_def)
  moreover have "tables_bounded cfg ?e" using assms(1,2) by (simp add: db_inv_def tables_bounded_def add_row_def)
  ultimately show ?thesis using assms(1,4) by (simp add: db_inv_def one_current_def disabled_revoked_def add_row_def)
qed

lemma add_node_inv:
  assumes "db_inv lib cfg d" and "int (length (db_nodes d)) < cfg_max_nodes cfg" and "\<forall>m\<in>set (db_nodes d). cn_id m \<noteq> cn_id n"
  shows "db_inv lib cfg (d\<lparr>db_nodes := add_row n (db_nodes d)\<rparr>)"
proof -
  have "ct_node_id ` set (db_certificates d) \<subseteq> cn_id ` set (db_nodes d)"
    using assms(1) by (simp add: db_inv_def rows_refer_def)
  then have "c \<in> set (db_certificates d) \<Longrightarrow> ct_node_id c \<noteq> cn_id n" for c
    using assms(3) by (metis image_eqI imageE subsetD)
  then have "c \<in> set (db_certificates d) \<Longrightarrow> cn_id n \<noteq> ct_node_id c" for c by metis
  then have "disabled_revoked (d\<lparr>db_nodes := add_row n (db_nodes d)\<rparr>)"
    using assms(1) by (simp add: db_inv_def disabled_revoked_def add_row_def)
  moreover have "unique_rows (d\<lparr>db_nodes := add_row n (db_nodes d)\<rparr>)"
    using assms(1,3) by (auto simp: db_inv_def unique_rows_def add_row_def)
  moreover have "rows_refer (d\<lparr>db_nodes := add_row n (db_nodes d)\<rparr>)"
    using assms(1) by (auto simp: db_inv_def rows_refer_def add_row_def)
  moreover have "tables_bounded cfg (d\<lparr>db_nodes := add_row n (db_nodes d)\<rparr>)"
    using assms(1,2) by (simp add: db_inv_def tables_bounded_def add_row_def)
  ultimately show ?thesis using assms(1) by (simp add: db_inv_def one_current_def add_row_def)
qed

lemma claim_inv:
  assumes inv: "db_inv lib cfg d" and r: "claim lib cfg clk rc identity secret csr node d = Inr (e, (p, s))"
  shows "db_inv lib cfg e"
  using r
proof (rule claimD)
  fix g v key rg
  assume c: "iv_node_id v = node" "length (db_requests (prune (clk 0) d)) < 512" "int (length (db_nodes d)) < cfg_max_nodes cfg"
    "proven_key lib cfg node csr key" "\<forall>n\<in>set (db_nodes d). cn_id n \<noteq> node"
    "\<forall>r\<in>set (db_requests (prune (clk 0) d)). cr_id (snd r) \<noteq> identity"
    and p: "p = new_request identity node csr key Enroll None (iv_expires_at v)"
    and e: "e = record_audit ''contributor.request'' node None ''success'' (update_invitation (v\<lparr>iv_used := True\<rparr>)
       ((prune (clk 0) d)\<lparr>db_nodes := add_row (enrolled_node v (clk 2)) (db_nodes d),
          db_requests := add_row (rg, p) (db_requests (prune (clk 0) d))\<rparr>))"
  let ?d = "(prune (clk 0) d)\<lparr>db_nodes := add_row (enrolled_node v (clk 2)) (db_nodes d)\<rparr>"
  have "db_inv lib cfg ?d"
    using add_node_inv [OF prune_inv [OF inv], of "clk 0" "enrolled_node v (clk 2)"] c by (simp add: enrolled_node_def)
  moreover have "cr_id p = identity" "cr_node_id p = node" "request_ok lib cfg p"
    using c(4) by (simp_all add: p new_request_def request_ok_def)
  ultimately have "db_inv lib cfg (?d\<lparr>db_requests := add_row (rg, p) (db_requests ?d)\<rparr>)"
    using c by (intro add_request_inv) (simp_all add: add_row_def enrolled_node_def)
  then show ?thesis unfolding e record_audit_inv by (intro update_invitation_inv) simp
qed

lemma begin_issueD:
  assumes "begin_issue clk identity expected revision actor d = Inr (e, q)"
  obtains p n where "get_request d identity = Inr p" "get_node d (cr_node_id p) = Inr n" "\<not> cn_disabled n"
    "cr_public_key p = expected" "cr_status p \<noteq> Issued" "q = p\<lparr>cr_status := Issuing, cr_revision := cr_revision p + 1\<rparr>"
    "e = record_audit ''contributor.approve'' (cr_node_id p) actor ''success'' (update_request q d)"
  using assms by (auto simp: begin_issue_def Let_def bindr_Inr split: if_splits)

lemma request_found:
  assumes "db_inv lib cfg d" and "get_request d i = Inr p"
  shows "request_ok lib cfg p" and "cr_node_id p \<in> cn_id ` set (db_nodes d)" and "cr_id p = i"
proof -
  obtain g where r: "(g, p) \<in> set (db_requests d)" "cr_id p = i" using assms(2) by (auto simp: get_request_Inr dest: find_row_Some)
  show "cr_id p = i" by (rule r(2))
  have "\<forall>r\<in>set (db_requests d). request_ok lib cfg (snd r)" using assms(1) by (simp add: db_inv_def)
  from bspec [OF this r(1)] show "request_ok lib cfg p" by simp
  have "(cr_node_id \<circ> snd) (g, p) \<in> cn_id ` set (db_nodes d)"
    using assms(1) r(1) unfolding db_inv_def rows_refer_def by blast
  then show "cr_node_id p \<in> cn_id ` set (db_nodes d)" by simp
qed

lemma begin_issue_inv:
  assumes inv: "db_inv lib cfg d" and r: "begin_issue clk identity expected revision actor d = Inr (e, q)"
  shows "db_inv lib cfg e"
  using r
proof (rule begin_issueD)
  fix p n
  assume g: "get_request d identity = Inr p" and s: "cr_status p \<noteq> Issued"
    and q: "q = p\<lparr>cr_status := Issuing, cr_revision := cr_revision p + 1\<rparr>"
    and e: "e = record_audit ''contributor.approve'' (cr_node_id p) actor ''success'' (update_request q d)"
  show ?thesis using request_found [OF inv g] s unfolding e record_audit_inv
    by (intro update_request_inv inv) (simp_all add: q request_ok_def)
qed

lemma failed_inv:
  assumes inv: "db_inv lib cfg d" and "cr_status p = Issuing"
  shows "db_inv lib cfg (failed p d)"
proof (cases "get_request d (cr_id p)")
  case (Inr q)
  show ?thesis using request_found [OF inv Inr] assms
    by (auto simp: failed_def Inr request_ok_def intro!: update_request_inv)
qed (simp add: failed_def inv)

lemma issuedD:
  assumes "issued clk p c d = Inr (e, q)"
  obtains n where "get_request d (cr_id p) = Inr p" "get_node d (cr_node_id p) = Inr n" "\<not> cn_disabled n"
    "length (db_certificates (prune (clk 2) d)) < 256"
    "\<forall>x\<in>set (db_certificates (prune (clk 2) d)). ct_fingerprint x \<noteq> lf_fingerprint c"
    "q = p\<lparr>cr_status := Issued, cr_certificate_fingerprint := Some (lf_fingerprint c), cr_revision := cr_revision p + 1\<rparr>"
    "e = record_audit ''contributor.certificate'' (cn_id n) None ''success''
      (update_request q ((prune (clk 2) d)\<lparr>db_certificates := add_row
         \<lparr>ct_fingerprint = lf_fingerprint c, ct_leaf = c, ct_node_id = cn_id n, ct_request_id = cr_id p, ct_status = Pending\<rparr>
         (db_certificates (prune (clk 2) d))\<rparr>))"
  using assms by (auto simp: issued_def Let_def bindr_Inr split: if_splits)

lemma add_certificate_inv:
  assumes inv: "db_inv lib cfg d" and "length (db_certificates d) < 256" and "\<forall>x\<in>set (db_certificates d). ct_fingerprint x \<noteq> ct_fingerprint c"
    and "certificate_ok lib cfg c" and "find_row cn_id (db_nodes d) (ct_node_id c) = Some n" and "\<not> cn_disabled n" and "ct_status c = Pending"
  shows "db_inv lib cfg (d\<lparr>db_certificates := add_row c (db_certificates d)\<rparr>)"
proof -
  let ?e = "d\<lparr>db_certificates := add_row c (db_certificates d)\<rparr>"
  have n: "n \<in> set (db_nodes d)" "cn_id n = ct_node_id c" using find_row_Some [OF assms(5)] by simp_all
  have "distinct (map cn_id (db_nodes d))" using inv by (simp add: db_inv_def unique_rows_def)
  then have "m = n" if "m \<in> set (db_nodes d)" "cn_id m = ct_node_id c" for m
    using that n find_row_distinct [of cn_id "db_nodes d"] by (metis option.inject)
  then have "disabled_revoked ?e"
    using inv assms(6) by (auto simp: db_inv_def disabled_revoked_def add_row_def)
  moreover have "unique_rows ?e" using inv assms(3) by (auto simp: db_inv_def unique_rows_def add_row_def)
  moreover have "one_current ?e" using inv assms(7) by (simp add: db_inv_def one_current_def add_row_def)
  moreover have "rows_refer ?e" using inv n by (simp add: db_inv_def rows_refer_def add_row_def) (metis image_eqI)
  moreover have "tables_bounded cfg ?e" using inv assms(2) by (simp add: db_inv_def tables_bounded_def add_row_def)
  ultimately show ?thesis using inv assms(4) by (simp add: db_inv_def add_row_def)
qed

lemma issued_inv:
  assumes inv: "db_inv lib cfg d" and r: "issued clk p c d = Inr (e, q)"
    and uri: "node_uri cfg (cr_node_id p) = Inr uri"
    and cert: "certificate lib pem (cr_csr_pem p) uri (cr_node_id p) roots duration now = Inr c"
  shows "db_inv lib cfg e"
  using r
proof (rule issuedD)
  fix n :: contributor
  let ?d = "prune (clk 2) d"
  let ?c = "\<lparr>ct_fingerprint = lf_fingerprint c, ct_leaf = c, ct_node_id = cn_id n, ct_request_id = cr_id p, ct_status = Pending\<rparr>"
  assume a: "get_request d (cr_id p) = Inr p" "get_node d (cr_node_id p) = Inr n" "\<not> cn_disabled n"
    "length (db_certificates ?d) < 256" "\<forall>x\<in>set (db_certificates ?d). ct_fingerprint x \<noteq> lf_fingerprint c"
    and q: "q = p\<lparr>cr_status := Issued, cr_certificate_fingerprint := Some (lf_fingerprint c), cr_revision := cr_revision p + 1\<rparr>"
    and e: "e = record_audit ''contributor.certificate'' (cn_id n) None ''success''
      (update_request q (?d\<lparr>db_certificates := add_row ?c (db_certificates ?d)\<rparr>))"
  have n: "cn_id n = cr_node_id p" "find_row cn_id (db_nodes ?d) (cn_id n) = Some n"
    using a(2) find_row_Some [of cn_id "db_nodes d" "cr_node_id p" n] by (simp_all add: get_node_Inr)
  have "certificate_ok lib cfg ?c"
    using certificate_bound [OF cert] uri n(1) by (auto simp: certificate_ok_def proven_key_def)
  then have i: "db_inv lib cfg (?d\<lparr>db_certificates := add_row ?c (db_certificates ?d)\<rparr>)"
    using n a by (intro add_certificate_inv [where n = n] prune_inv inv) simp_all
  show ?thesis unfolding e record_audit_inv
    using request_found [OF inv a(1)] by (intro update_request_inv [OF i]) (simp_all add: q request_ok_def)
qed

lemma activateD:
  assumes "activate clk f d = Inr (e, (m, previous))"
  obtains n c where "authenticate (clk 0) f True d = Inr (n, c)"
    "ct_status c = Current \<and> e = d \<and> m = n \<or>
     ct_status c = Pending \<and> m = n\<lparr>cn_revision := cn_revision n + 1\<rparr> \<and>
     (\<exists>r. get_request d (ct_request_id c) = Inr r \<and> cr_status r = Issued \<and> clk 1 < cr_expires_at r) \<and>
     e = record_audit ''contributor.activate'' (cn_id n) None ''success''
       (update_node m (update_certificate (c\<lparr>ct_status := Current\<rparr>) (fst (revoke_all (cn_id n) (Some f) d))))"
proof -
  obtain n c where a: "authenticate (clk 0) f True d = Inr (n, c)" using assms by (auto simp: activate_def bindr_Inr)
  have "ct_status c = Current \<or> ct_status c = Pending" using authenticateD(5) [OF a] by blast
  then show thesis using that [OF a] assms a
    by (auto simp: activate_def Let_def case_prod_unfold bindr_Inr split: if_splits)
qed

lemma activate_inv:
  assumes inv: "db_inv lib cfg d" and r: "activate clk f d = Inr (e, (m, previous))"
  shows "db_inv lib cfg e"
  using r
proof (rule activateD)
  fix n :: contributor and c :: node_certificate
  let ?g = "\<lambda>x. if ct_fingerprint x = f then c\<lparr>ct_status := Current\<rparr> else if revocable (cn_id n) (Some f) x then x\<lparr>ct_status := Revoked\<rparr> else x"
  let ?d = "with_certificates (map ?g (db_certificates d)) d"
  assume auth: "authenticate (clk 0) f True d = Inr (n, c)"
    and cases: "ct_status c = Current \<and> e = d \<and> m = n \<or>
     ct_status c = Pending \<and> m = n\<lparr>cn_revision := cn_revision n + 1\<rparr> \<and>
     (\<exists>r. get_request d (ct_request_id c) = Inr r \<and> cr_status r = Issued \<and> clk 1 < cr_expires_at r) \<and>
     e = record_audit ''contributor.activate'' (cn_id n) None ''success''
       (update_node m (update_certificate (c\<lparr>ct_status := Current\<rparr>) (fst (revoke_all (cn_id n) (Some f) d))))"
  note a = authenticateD [OF auth]
  have u: "distinct (map ct_fingerprint (db_certificates d))" "distinct (map cn_id (db_nodes d))"
    using inv by (simp_all add: db_inv_def unique_rows_def)
  have same: "x = c" if "x \<in> set (db_certificates d)" "ct_fingerprint x = f" for x
    using that a(1) find_row_distinct [OF u(1), of x] by simp
  have eq: "update_certificate (c\<lparr>ct_status := Current\<rparr>) (fst (revoke_all (cn_id n) (Some f) d)) = ?d"
    using a(7) by (auto simp: revoke_all_tables [OF u(1)] update_certificate_tables with_certificates_def revocable_def)
  have i: "db_inv lib cfg ?d"
  proof (rule certificates_inv [OF inv refl])
    fix x assume "x \<in> set (db_certificates d)"
    then show "ct_fingerprint (?g x) = ct_fingerprint x \<and> ct_leaf (?g x) = ct_leaf x \<and> ct_node_id (?g x) = ct_node_id x"
      using same [of x] a(7) by auto
  next
    fix x y assume xy: "x \<in> set (db_certificates d)" "y \<in> set (db_certificates d)" "ct_node_id x = ct_node_id y"
      "ct_status (?g x) = Current" "ct_status (?g y) = Current"
    have "one_current d" using inv by (simp add: db_inv_def)
    then show "x = y" using xy a(7,8) same [of x] same [of y]
      by (auto simp: one_current_def revocable_def split: if_splits)
  next
    fix x k assume k: "x \<in> set (db_certificates d)" "k \<in> set (db_nodes d)" "cn_id k = ct_node_id x" "cn_disabled k"
    have r: "ct_status x = Revoked" using inv k by (auto simp: db_inv_def disabled_revoked_def)
    have "ct_fingerprint x \<noteq> f"
    proof
      assume "ct_fingerprint x = f"
      then have "x = c" using same k by simp
      then have "k = n" using k a(2) find_row_distinct [OF u(2), of k] by simp
      then show False using k a(4) by simp
    qed
    then show "ct_status (?g x) = Revoked" using r by simp
  qed
  have "db_inv lib cfg (update_node (n\<lparr>cn_revision := cn_revision n + 1\<rparr>) ?d)"
    by (rule update_node_inv [OF i]) (simp add: a(4))
  then show ?thesis using cases eq inv by auto
qed

lemma rotation_scan_None:
  "rotation_scan d identity node csr f ps = Inr None \<Longrightarrow> \<forall>p\<in>set ps. cr_id p \<noteq> identity"
  by (induction ps) (auto simp: bindr_Inr split: if_splits option.splits)

lemma rotationD:
  assumes "rotation lib cfg clk f identity csr d = Inr (e, p)"
  obtains n c key where "authenticate (clk 0) f False d = Inr (n, c)" "proven_key lib cfg (cn_id n) csr key"
    "length (db_requests (prune (clk 1) d)) < 512"
    "e = prune (clk 1) d \<or> (\<forall>r\<in>set (db_requests (prune (clk 1) d)). cr_id (snd r) \<noteq> identity) \<and>
       p = new_request identity (cn_id n) csr key Rotate (Some f)
         (min (lf_expires_at (ct_leaf c)) (clk 2 + of_int (cfg_invitation_seconds cfg))) \<and>
       e = (prune (clk 1) d)\<lparr>db_requests := add_row ([], p) (db_requests (prune (clk 1) d))\<rparr>"
proof -
  obtain n c uri key where a: "authenticate (clk 0) f False d = Inr (n, c)" "node_uri cfg (cn_id n) = Inr uri"
    "csr_request lib csr uri (cn_id n) = Inr key" and l: "length (db_requests (prune (clk 1) d)) < 512"
    using assms by (auto simp: rotation_def Let_def bindr_Inr split: if_splits)
  then have k: "proven_key lib cfg (cn_id n) csr key" by (auto simp: proven_key_def)
  obtain found where s: "rotation_scan (prune (clk 1) d) identity (cn_id n) csr f (map snd (db_requests (prune (clk 1) d))) = Inr found"
    using assms a by (auto simp: rotation_def Let_def bindr_Inr split: if_splits)
  show thesis
  proof (rule that [OF a(1) k l], cases found)
    case None
    then have "\<forall>r\<in>set (db_requests (prune (clk 1) d)). cr_id (snd r) \<noteq> identity"
      using rotation_scan_None s by fastforce
    then show "e = prune (clk 1) d \<or> (\<forall>r\<in>set (db_requests (prune (clk 1) d)). cr_id (snd r) \<noteq> identity) \<and>
       p = new_request identity (cn_id n) csr key Rotate (Some f)
         (min (lf_expires_at (ct_leaf c)) (clk 2 + of_int (cfg_invitation_seconds cfg))) \<and>
       e = (prune (clk 1) d)\<lparr>db_requests := add_row ([], p) (db_requests (prune (clk 1) d))\<rparr>"
      using assms a l s None by (simp add: rotation_def Let_def split: if_splits) blast
  qed (use assms a l s in \<open>simp add: rotation_def Let_def split: if_splits\<close>)
qed

lemma rotation_inv:
  assumes inv: "db_inv lib cfg d" and r: "rotation lib cfg clk f identity csr d = Inr (e, p)"
  shows "db_inv lib cfg e"
  using r
proof (rule rotationD)
  fix n :: contributor and c :: node_certificate and key
  assume a: "authenticate (clk 0) f False d = Inr (n, c)" "proven_key lib cfg (cn_id n) csr key"
    "length (db_requests (prune (clk 1) d)) < 512"
    and e: "e = prune (clk 1) d \<or> (\<forall>r\<in>set (db_requests (prune (clk 1) d)). cr_id (snd r) \<noteq> identity) \<and>
       p = new_request identity (cn_id n) csr key Rotate (Some f)
         (min (lf_expires_at (ct_leaf c)) (clk 2 + of_int (cfg_invitation_seconds cfg))) \<and>
       e = (prune (clk 1) d)\<lparr>db_requests := add_row ([], p) (db_requests (prune (clk 1) d))\<rparr>"
  have n: "cn_id n \<in> cn_id ` set (db_nodes d)" using authenticateD(10) [OF a(1)] by simp
  from e show ?thesis
  proof
    assume e: "(\<forall>r\<in>set (db_requests (prune (clk 1) d)). cr_id (snd r) \<noteq> identity) \<and>
       p = new_request identity (cn_id n) csr key Rotate (Some f)
         (min (lf_expires_at (ct_leaf c)) (clk 2 + of_int (cfg_invitation_seconds cfg))) \<and>
       e = (prune (clk 1) d)\<lparr>db_requests := add_row ([], p) (db_requests (prune (clk 1) d))\<rparr>"
    then have "cr_id p = identity" "cr_node_id p = cn_id n" "request_ok lib cfg p"
      using a(2) by (simp_all add: new_request_def request_ok_def)
    then have "db_inv lib cfg ((prune (clk 1) d)\<lparr>db_requests := add_row ([], p) (db_requests (prune (clk 1) d))\<rparr>)"
      using e a(3) n by (intro add_request_inv prune_inv inv) simp_all
    then show ?thesis using e by simp
  qed (simp add: prune_inv [OF inv])
qed

lemma disableD:
  assumes "disable identity revision actor d = Inr (e, (m, revoked))"
  obtains n where "get_node d identity = Inr n" "m = n\<lparr>cn_disabled := True, cn_revision := revision + 1\<rparr>"
    "e = record_audit ''contributor.disable'' identity (Some actor) ''success'' (fst (revoke_all identity None (update_node m d)))"
  using assms by (auto simp: disable_def Let_def case_prod_unfold bindr_Inr split: if_splits)

lemma revoke_node_inv:
  assumes inv: "db_inv lib cfg d" and m: "cn_id m = identity"
  shows "db_inv lib cfg (fst (revoke_all identity None (update_node m d)))"
proof -
  let ?g = "\<lambda>x. if revocable identity None x then x\<lparr>ct_status := Revoked\<rparr> else x"
  have u: "distinct (map ct_fingerprint (db_certificates d))" using inv by (simp add: db_inv_def unique_rows_def)
  have i: "db_inv lib cfg (with_certificates (map ?g (db_certificates d)) d)"
  proof (rule certificates_inv [OF inv refl])
    fix x y assume "x \<in> set (db_certificates d)" "y \<in> set (db_certificates d)" "ct_node_id x = ct_node_id y"
      "ct_status (?g x) = Current" "ct_status (?g y) = Current"
    moreover have "one_current d" using inv by (simp add: db_inv_def)
    ultimately show "x = y" unfolding one_current_def by (simp split: if_splits)
  next
    fix x n assume "x \<in> set (db_certificates d)" "n \<in> set (db_nodes d)" "cn_id n = ct_node_id x" "cn_disabled n"
    then show "ct_status (?g x) = Revoked" using inv by (auto simp: db_inv_def disabled_revoked_def)
  qed simp
  have "db_inv lib cfg (update_node m (with_certificates (map ?g (db_certificates d)) d))"
  proof (rule update_node_inv [OF i])
    fix c assume "c \<in> set (db_certificates (with_certificates (map ?g (db_certificates d)) d))" "ct_node_id c = cn_id m"
    then have "c \<in> ?g ` set (db_certificates d)" "ct_node_id c = identity" by (simp_all only: with_certificates_tables m set_map)
    then obtain x where "c = ?g x" "ct_node_id c = identity" by (elim imageE)
    then show "ct_status c = Revoked" by (cases "revocable identity None x") (auto simp: revocable_def)
  qed
  moreover have "update_node m (with_certificates (map ?g (db_certificates d)) d) = fst (revoke_all identity None (update_node m d))"
    using revoke_all_tables [of "update_node m d" identity None] u by (simp add: update_node_def with_certificates_def)
  ultimately show ?thesis by (simp only:)
qed

lemma disable_inv:
  assumes "db_inv lib cfg d" and r: "disable identity revision actor d = Inr (e, (m, revoked))"
  shows "db_inv lib cfg e"
  using r
proof (rule disableD)
  fix n :: contributor
  assume "get_node d identity = Inr n" "m = n\<lparr>cn_disabled := True, cn_revision := revision + 1\<rparr>"
    and e: "e = record_audit ''contributor.disable'' identity (Some actor) ''success'' (fst (revoke_all identity None (update_node m d)))"
  then have "cn_id m = identity" by (auto simp: get_node_Inr dest: find_row_Some)
  then show ?thesis unfolding e record_audit_inv by (rule revoke_node_inv [OF assms(1)])
qed

lemma remove_node_inv:
  assumes "db_inv lib cfg d" and "remove_node identity revision actor d = Inr (e, u)"
  shows "db_inv lib cfg e"
proof -
  have "db_nodes e = filter (\<lambda>m. cn_id m \<noteq> identity) (db_nodes d)"
    "db_invitations e = filter (\<lambda>(_, v). iv_node_id v \<noteq> identity) (db_invitations d)"
    "db_requests e = filter (\<lambda>(_, p). cr_node_id p \<noteq> identity) (db_requests d)"
    "db_certificates e = filter (\<lambda>c. ct_node_id c \<noteq> identity) (db_certificates d)"
    using assms(2) by (auto simp: remove_node_def bindr_Inr split: if_splits)
  then show ?thesis by (rule filtered_inv [OF assms(1)]) (simp_all add: case_prod_unfold \<open>db_requests e = _\<close> \<open>db_certificates e = _\<close>)
qed

section \<open>The transition system\<close>

text \<open>
  The steps of the contributor tables. A certificate is registered for a request that
  \<open>begin_issue\<close> returned and after \<open>certificate\<close> accepted its chain, as \<open>Contributors.issue\<close> does;
  other subsystems change projects and workload tables.
\<close>

inductive db_step :: "x509_library \<Rightarrow> contributor_settings \<Rightarrow> database \<Rightarrow> database \<Rightarrow> bool" for lib cfg where
  db_invite: "invite cfg clk secret identity node name m actor d = Inr (e, v) \<Longrightarrow> db_step lib cfg d e"
| db_claim: "claim lib cfg clk rc identity secret csr node d = Inr (e, (p, s)) \<Longrightarrow> db_step lib cfg d e"
| db_begin: "begin_issue clk identity expected revision who d = Inr (e, q) \<Longrightarrow> db_step lib cfg d e"
| db_issued: "issued clk p c d = Inr (e, q) \<Longrightarrow> node_uri cfg (cr_node_id p) = Inr uri \<Longrightarrow>
    certificate lib pem (cr_csr_pem p) uri (cr_node_id p) roots duration now = Inr c \<Longrightarrow> db_step lib cfg d e"
| db_failed: "cr_status p = Issuing \<Longrightarrow> db_step lib cfg d (failed p d)"
| db_activate: "activate clk f d = Inr (e, (n, previous)) \<Longrightarrow> db_step lib cfg d e"
| db_rotation: "rotation lib cfg clk f identity csr d = Inr (e, p) \<Longrightarrow> db_step lib cfg d e"
| db_disable: "disable identity revision actor d = Inr (e, (n, revoked)) \<Longrightarrow> db_step lib cfg d e"
| db_remove: "remove_node identity revision actor d = Inr (e, u) \<Longrightarrow> db_step lib cfg d e"
| db_other: "db_step lib cfg d (d\<lparr>db_projects := ps, db_work := w\<rparr>)"

definition empty_database :: database where
  "empty_database = \<lparr>db_projects = [], db_nodes = [], db_invitations = [], db_requests = [], db_certificates = [], db_work = empty_store\<rparr>"

lemma db_step_inv: "db_step lib cfg d e \<Longrightarrow> db_inv lib cfg d \<Longrightarrow> db_inv lib cfg e"
  by (induction rule: db_step.induct)
    (auto intro: invite_inv claim_inv begin_issue_inv issued_inv failed_inv activate_inv rotation_inv disable_inv remove_node_inv
      elim: db_inv_frame)

interpretation contrib: invariant_system "\<lambda>d. d = empty_database" "db_step lib cfg" "db_inv lib cfg" for lib cfg
proof
  show "db_inv lib cfg d" if "d = empty_database" for d
    using that by (simp add: db_inv_defs empty_database_def)
qed (rule db_step_inv)

abbreviation db_reach :: "x509_library \<Rightarrow> contributor_settings \<Rightarrow> database \<Rightarrow> bool" where
  "db_reach lib cfg \<equiv> reach (\<lambda>d. d = empty_database) (db_step lib cfg)"

end
