(* ===== verification/Contributors.thy ===== *)
theory Contributors
  imports Contrib_Store_Inv
begin

text \<open>
  The live side of contributors (\<open>src/ficc/contributors.py\<close>): certificate issuance over the
  configured authority and the short connection leases that heartbeats keep. The state is the
  database with the sessions, the free issuance slots and the identities being issued. What a call
  reads from outside (both clocks, the credentials of the identity service, the certificate
  provider, what other tasks do while the call waits) is the record \<open>cenv\<close>; the \<open>n\<close>-th reading
  of a clock or of a credential is its field at \<open>n\<close>.
\<close>

section \<open>State and environment\<close>

record session =
  se_id :: string
  se_fingerprint :: string
  se_sequence :: int
  se_deadline :: rat
  se_verified_at :: rat
  se_sample :: "json option"
  se_transport :: "string option"
  se_seen :: "rat option"

record contributors =
  co_settings :: "contributor_settings option"
  co_db :: database
  co_sessions :: "(string \<times> session) list"
  co_provider :: bool
  co_free :: nat
  co_issuing :: "string list"

record cenv =
  ce_clk :: "nat \<Rightarrow> rat"
  ce_mono :: "nat \<Rightarrow> rat"
  ce_current :: "nat \<Rightarrow> string \<Rightarrow> principal res"
  ce_policy :: "principal \<Rightarrow> string \<Rightarrow> unit res"
  ce_issue :: "crequest \<Rightarrow> string \<Rightarrow> int \<Rightarrow> string res"
  ce_revoke :: "node_certificate \<Rightarrow> string \<Rightarrow> unit res"
  ce_others :: "contributors \<Rightarrow> contributors"

type_synonym 'a con_op = "contributors \<Rightarrow> contributors \<times> 'a res"

definition configured :: "contributors \<Rightarrow> contributor_settings res" where
  "configured s = (case co_settings s of None \<Rightarrow> Inl (Failure ''contributors_unavailable'' 409) | Some cfg \<Rightarrow> Inr cfg)"

text \<open>\<open>Principal.require\<close> without a node: the scope of the credential, then the policy.\<close>

definition require_scope :: "(principal \<Rightarrow> string \<Rightarrow> unit res) \<Rightarrow> principal \<Rightarrow> string \<Rightarrow> unit res" where
  "require_scope policy p scope = (if scope \<notin> set (pr_scopes p) then Inl (Failure ''denied'' 403) else policy p scope)"

definition permission :: "cenv \<Rightarrow> nat \<Rightarrow> principal \<Rightarrow> string \<Rightarrow> principal res" where
  "permission e k actor scope =
     bindr (ce_current e k (pr_id actor)) (\<lambda>v.
     bindr (require_scope (ce_policy e) v scope) (\<lambda>_.
     bindr (ensure (\<not> (pr_project_id v \<noteq> pr_project_id actor \<or> pr_node_ids v \<noteq> None \<or> pr_root_ids v \<noteq> None)) (Failure ''denied'' 403)) (\<lambda>_.
       Inr v)))"

text \<open>A transaction on the database of the service.\<close>

definition on_db :: "'a db_op \<Rightarrow> 'a con_op" where
  "on_db f s = (case f (co_db s) of Inl x \<Rightarrow> (s, Inl x) | Inr (d, v) \<Rightarrow> (s\<lparr>co_db := d\<rparr>, Inr v))"

definition drop_session :: "string \<Rightarrow> contributors \<Rightarrow> contributors" where
  "drop_session i s = s\<lparr>co_sessions := AList.delete i (co_sessions s)\<rparr>"

section \<open>Connection leases\<close>

definition connection :: "contributor_settings \<Rightarrow> rat \<Rightarrow> rat \<Rightarrow> string \<Rightarrow> string \<Rightarrow> string \<Rightarrow> contributors \<Rightarrow> unit res" where
  "connection cfg m1 m2 identity session_id fingerprint s =
     (case map_of (co_sessions s) identity of
        None \<Rightarrow> Inl (Failure ''node_lease_expired'' 403)
      | Some c \<Rightarrow>
          if se_id c \<noteq> session_id \<or> se_fingerprint c \<noteq> fingerprint \<or> se_deadline c \<le> m1 \<or> m2 - se_verified_at c > of_int (cfg_lease_seconds cfg)
          then Inl (Failure ''node_lease_expired'' 403) else Inr ())"

definition guard :: "contributor_settings \<Rightarrow> rat \<Rightarrow> rat \<Rightarrow> rat \<Rightarrow> string \<Rightarrow> string \<Rightarrow> string \<Rightarrow> contributors \<Rightarrow> unit res" where
  "guard cfg now m1 m2 identity session_id fingerprint s =
     bindr (authenticate now fingerprint False (co_db s)) (\<lambda>_. connection cfg m1 m2 identity session_id fingerprint s)"

record heartbeat_message =
  hb_session_id :: "string option"
  hb_sequence :: int
  hb_sample :: json

record heartbeat_reply =
  hr_node_id :: string
  hr_session_id :: string
  hr_sequence :: int
  hr_lease_seconds :: rat
  hr_heartbeat_seconds :: int

definition new_session :: "string \<Rightarrow> string \<Rightarrow> rat \<Rightarrow> session" where
  "new_session token fingerprint now =
     \<lparr>se_id = token, se_fingerprint = fingerprint, se_sequence = 0, se_deadline = now, se_verified_at = now,
      se_sample = None, se_transport = None, se_seen = None\<rparr>"

text \<open>The session a message belongs to: a new one for the first message, else the current one.\<close>

definition heartbeat_session :: "contributor_settings \<Rightarrow> cenv \<Rightarrow> string \<Rightarrow> string \<Rightarrow> string \<Rightarrow> heartbeat_message \<Rightarrow> session con_op" where
  "heartbeat_session cfg e token node fingerprint m s =
     (case hb_session_id m of
        None \<Rightarrow>
          if hb_sequence m \<noteq> 1 then (s, Inl (Failure ''invalid_sequence'' 409))
          else let c = new_session token fingerprint (ce_mono e 0)
               in (s\<lparr>co_sessions := AList.update node c (co_sessions s)\<rparr>, Inr c)
      | Some sid \<Rightarrow>
          (s, bindr (connection cfg (ce_mono e 1) (ce_mono e 2) node sid fingerprint s) (\<lambda>_.
                case map_of (co_sessions s) node of None \<Rightarrow> Inl AssertionError | Some c \<Rightarrow> Inr c)))"

definition renewed_session :: "contributor_settings \<Rightarrow> cenv \<Rightarrow> node_certificate \<Rightarrow> string \<Rightarrow> heartbeat_message \<Rightarrow> session \<Rightarrow> session" where
  "renewed_session cfg e cert transport m c =
     (if hb_sequence m > se_sequence c
      then c\<lparr>se_sequence := hb_sequence m,
             se_deadline := ce_mono e 0 + min (of_int (cfg_lease_seconds cfg)) (lf_expires_at (ct_leaf cert) - ce_clk e 1),
             se_sample := Some (hb_sample m), se_transport := Some transport, se_seen := Some (ce_clk e 2)\<rparr>
      else c)\<lparr>se_verified_at := ce_mono e 0\<rparr>"

definition heartbeat :: "cenv \<Rightarrow> string \<Rightarrow> string \<Rightarrow> heartbeat_message \<Rightarrow> string \<Rightarrow> heartbeat_reply con_op" where
  "heartbeat e token fingerprint m transport s =
     (case bindr (configured s) (\<lambda>cfg. bindr (authenticate (ce_clk e 0) fingerprint False (co_db s)) (\<lambda>(n, cert). Inr (cfg, n, cert))) of
        Inl x \<Rightarrow> (s, Inl x)
      | Inr (cfg, n, cert) \<Rightarrow>
          (case heartbeat_session cfg e token (cn_id n) fingerprint m s of
             (s1, Inl x) \<Rightarrow> (s1, Inl x)
           | (s1, Inr c) \<Rightarrow>
               if hb_sequence m \<notin> {se_sequence c, se_sequence c + 1} then (s1, Inl (Failure ''invalid_sequence'' 409))
               else
                 let c2 = renewed_session cfg e cert transport m c;
                     s2 = s1\<lparr>co_sessions := AList.update (cn_id n) c2 (co_sessions s1)\<rparr>
                 in (s2, bindr (connection cfg (ce_mono e 3) (ce_mono e 4) (cn_id n) (se_id c2) fingerprint s2) (\<lambda>_.
                      Inr \<lparr>hr_node_id = cn_id n, hr_session_id = se_id c2, hr_sequence = se_sequence c2,
                           hr_lease_seconds = max 0 (se_deadline c2 - ce_mono e 5), hr_heartbeat_seconds = cfg_heartbeat_seconds cfg\<rparr>))))"

text \<open>One round of \<open>poll\<close>: sessions survive only with an active certificate and a current lease.\<close>

definition poll_round :: "rat \<Rightarrow> rat \<Rightarrow> contributors \<Rightarrow> contributors" where
  "poll_round now m s =
     (if co_sessions s = [] then s
      else case active_certificates now (remdups (map (se_fingerprint \<circ> snd) (co_sessions s))) (co_db s) of
        Inl _ \<Rightarrow> s\<lparr>co_sessions := []\<rparr>
      | Inr found \<Rightarrow>
          s\<lparr>co_sessions := map (\<lambda>(i, c). (i, c\<lparr>se_verified_at := m\<rparr>))
              (filter (\<lambda>(i, c). (i, se_fingerprint c) \<in> set found \<and> \<not> se_deadline c \<le> m) (co_sessions s))\<rparr>)"

definition close :: "contributors \<Rightarrow> contributors" where
  "close s = s\<lparr>co_sessions := [], co_provider := False\<rparr>"

section \<open>Views\<close>

record contributor_view =
  cv_node :: contributor
  cv_connected :: bool
  cv_connection :: "string option"
  cv_sample :: "json option"
  cv_last_seen :: "rat option"
  cv_requests :: "crequest list"
  cv_certificates :: "node_certificate list"

definition node_view :: "cenv \<Rightarrow> contributors \<Rightarrow> contributor \<Rightarrow> contributor_view" where
  "node_view e s n =
     (let session = map_of (co_sessions s) (cn_id n);
          live = (case (session, co_settings s) of
              (Some c, Some cfg) \<Rightarrow> (case guard cfg (ce_clk e 0) (ce_mono e 0) (ce_mono e 1) (cn_id n) (se_id c) (se_fingerprint c) s of Inr _ \<Rightarrow> True | Inl _ \<Rightarrow> False)
            | _ \<Rightarrow> False)
      in \<lparr>cv_node = n, cv_connected = live,
          cv_connection = (if live then Option.bind session se_transport else None),
          cv_sample = (if live then Option.bind session se_sample else None),
          cv_last_seen = Option.bind session se_seen,
          cv_requests = filter (\<lambda>r. cr_node_id r = cn_id n \<and> cr_expires_at r > ce_clk e 1) (map snd (db_requests (co_db s))),
          cv_certificates = filter (\<lambda>c. ct_node_id c = cn_id n) (db_certificates (co_db s))\<rparr>)"

definition all_contributors :: "cenv \<Rightarrow> principal \<Rightarrow> contributors \<Rightarrow> contributor_view list res" where
  "all_contributors e actor s =
     bindr (permission e 0 actor ''contributors:read'') (\<lambda>_.
       Inr (map (node_view e s) (filter (\<lambda>n. cn_project_id n = pr_project_id actor) (db_nodes (co_db s)))))"

section \<open>Enrolment, issuance and revocation\<close>

definition con_invite :: "cenv \<Rightarrow> bool \<Rightarrow> string \<Rightarrow> string \<Rightarrow> string \<Rightarrow> string \<Rightarrow> mode \<Rightarrow> principal \<Rightarrow> invitation con_op" where
  "con_invite e demo secret identity node name m actor s =
     (case bindr (configured s) (\<lambda>cfg.
           bindr (permission e 0 actor ''contributors:manage'') (\<lambda>_.
           bindr (ensure (\<not> demo) (Failure ''demo_read_only'' 403)) (\<lambda>_. Inr cfg))) of
        Inl x \<Rightarrow> (s, Inl x)
      | Inr cfg \<Rightarrow> on_db (invite cfg (ce_clk e) secret identity node name m actor) s)"

definition con_claim :: "x509_library \<Rightarrow> cenv \<Rightarrow> string \<Rightarrow> string \<Rightarrow> string \<Rightarrow> string \<Rightarrow> string \<Rightarrow> (crequest \<times> string) con_op" where
  "con_claim lib e rc identity secret csr node s =
     (case configured s of Inl x \<Rightarrow> (s, Inl x) | Inr cfg \<Rightarrow> on_db (claim lib cfg (ce_clk e) rc identity secret csr node) s)"

definition actor_permission :: "cenv \<Rightarrow> nat \<Rightarrow> principal option \<Rightarrow> unit res" where
  "actor_permission e k actor =
     (case actor of None \<Rightarrow> Inr () | Some a \<Rightarrow> bindr (permission e k a ''contributors:manage'') (\<lambda>_. Inr ()))"

text \<open>Failures are raised as they are; every other exception becomes \<open>issuer_unavailable\<close>.\<close>

fun issue_failure :: "exn \<Rightarrow> exn" where
  "issue_failure (Failure c n) = Failure c n"
| "issue_failure _ = Failure ''issuer_unavailable'' 503"

definition enter_issue :: "string \<Rightarrow> contributors \<Rightarrow> contributors" where
  "enter_issue i s = s\<lparr>co_free := co_free s - 1, co_issuing := i # co_issuing s\<rparr>"

definition leave_issue :: "string \<Rightarrow> contributors \<Rightarrow> contributors" where
  "leave_issue i s = s\<lparr>co_free := co_free s + 1, co_issuing := filter (\<lambda>j. j \<noteq> i) (co_issuing s)\<rparr>"

definition obtain_certificate :: "x509_library \<Rightarrow> contributor_settings \<Rightarrow> cenv \<Rightarrow> crequest \<Rightarrow> leaf res" where
  "obtain_certificate lib cfg e p =
     bindr (node_uri cfg (cr_node_id p)) (\<lambda>uri.
     bindr (ce_issue e p uri (cfg_certificate_seconds cfg)) (\<lambda>chain.
       certificate lib chain (cr_csr_pem p) uri (cr_node_id p) (cfg_ca cfg) (of_int (cfg_certificate_seconds cfg)) (ce_clk e 2)))"

text \<open>The clean-up records the failure of a request again, which changes nothing the second time.\<close>

definition finish_issue :: "x509_library \<Rightarrow> contributor_settings \<Rightarrow> cenv \<Rightarrow> principal option \<Rightarrow> crequest \<Rightarrow> crequest con_op" where
  "finish_issue lib cfg e actor p s =
     (case bindr (obtain_certificate lib cfg e p) (\<lambda>c.
           bindr (actor_permission e 1 actor) (\<lambda>_. issued (\<lambda>n. ce_clk e (3 + n)) p c (co_db s))) of
        Inl x \<Rightarrow> (s\<lparr>co_db := failed p (co_db s)\<rparr>, Inl (issue_failure x))
      | Inr (d, q) \<Rightarrow> (s\<lparr>co_db := failed p d\<rparr>, Inr q))"

definition issue :: "x509_library \<Rightarrow> cenv \<Rightarrow> string \<Rightarrow> string \<Rightarrow> int \<Rightarrow> principal option \<Rightarrow> crequest con_op" where
  "issue lib e identity expected revision actor s =
     (case configured s of
        Inl x \<Rightarrow> (s, Inl x)
      | Inr cfg \<Rightarrow>
          if \<not> co_provider s then (s, Inl (Failure ''issuer_unavailable'' 503))
          else if co_free s = 0 \<or> identity \<in> set (co_issuing s) then (s, Inl (Failure ''capacity'' 429))
          else
            let s1 = enter_issue identity s in
            (case bindr (actor_permission e 0 actor) (\<lambda>_. begin_issue (ce_clk e) identity expected revision actor (co_db s1)) of
               Inl x \<Rightarrow> (leave_issue identity s1, Inl (issue_failure x))
             | Inr (d, p) \<Rightarrow>
                 let (s2, r) = finish_issue lib cfg e actor p (ce_others e (s1\<lparr>co_db := d\<rparr>))
                 in (leave_issue identity s2, r)))"

text \<open>\<open>revoke_at_authority\<close> records what the external authority answered for each certificate.\<close>

fun revoke_at_authority :: "cenv \<Rightarrow> string \<Rightarrow> node_certificate list \<Rightarrow> contributors \<Rightarrow> contributors" where
  "revoke_at_authority e reason [] s = s"
| "revoke_at_authority e reason (c # cs) s =
     revoke_at_authority e reason cs
       (if \<not> co_provider s \<or> co_free s = 0
        then s\<lparr>co_db := record_audit ''contributor.ca-revoke'' (ct_node_id c) None ''pending'' (co_db s)\<rparr>
        else let s1 = ce_others e s in
          s1\<lparr>co_db := record_audit ''contributor.ca-revoke'' (ct_node_id c) None
               (case ce_revoke e c reason of Inr _ \<Rightarrow> ''success'' | Inl _ \<Rightarrow> ''failed'') (co_db s1)\<rparr>)"

definition con_activate :: "cenv \<Rightarrow> string \<Rightarrow> string con_op" where
  "con_activate e f s =
     (case configured s of
        Inl x \<Rightarrow> (s, Inl x)
      | Inr cfg \<Rightarrow>
          (case activate (ce_clk e) f (co_db s) of
             Inl x \<Rightarrow> (s, Inl x)
           | Inr (d, (n, previous)) \<Rightarrow>
               let s1 = s\<lparr>co_db := d\<rparr>;
                   s2 = (if previous \<noteq> [] then drop_session (cn_id n) s1 else s1);
                   s3 = revoke_at_authority e ''superseded'' previous s2
               in (s3, bindr (authenticate (ce_clk e 3) f False (co_db s3)) (\<lambda>_. Inr (cn_id n)))))"

definition rotated_certificate :: "cenv \<Rightarrow> string \<Rightarrow> crequest \<Rightarrow> contributors \<Rightarrow> (string \<times> rat) res" where
  "rotated_certificate e f p s =
     bindr (authenticate (ce_clk e 9) f False (co_db s)) (\<lambda>_.
     case cr_certificate_fingerprint p of
       None \<Rightarrow> Inl not_found
     | Some g \<Rightarrow>
         bindr (get_certificate (co_db s) g) (\<lambda>c.
         bindr (ensure (\<not> (ct_status c \<noteq> Pending \<or> lf_expires_at (ct_leaf c) \<le> ce_clk e 10)) (Failure ''rotation_expired'' 409)) (\<lambda>_.
           Inr (lf_certificate_chain (ct_leaf c), lf_expires_at (ct_leaf c)))))"

definition rotate :: "x509_library \<Rightarrow> cenv \<Rightarrow> string \<Rightarrow> string \<Rightarrow> string \<Rightarrow> (string \<times> rat) con_op" where
  "rotate lib e f identity csr s =
     (case configured s of
        Inl x \<Rightarrow> (s, Inl x)
      | Inr cfg \<Rightarrow>
          (case rotation lib cfg (ce_clk e) f identity csr (co_db s) of
             Inl x \<Rightarrow> (s, Inl x)
           | Inr (d, p) \<Rightarrow>
               if cr_status p = Issued then (s\<lparr>co_db := d\<rparr>, rotated_certificate e f p (s\<lparr>co_db := d\<rparr>))
               else (case issue lib e (cr_id p) (cr_public_key p) (cr_revision p) None (s\<lparr>co_db := d\<rparr>) of
                   (s2, Inl x) \<Rightarrow> (s2, Inl x)
                 | (s2, Inr q) \<Rightarrow> (s2, rotated_certificate e f q s2))))"

definition con_disable :: "cenv \<Rightarrow> string \<Rightarrow> int \<Rightarrow> principal \<Rightarrow> contributor con_op" where
  "con_disable e identity revision actor s =
     (case bindr (permission e 0 actor ''contributors:manage'') (\<lambda>_. disable identity revision actor (co_db s)) of
        Inl x \<Rightarrow> (s, Inl x)
      | Inr (d, (n, revoked)) \<Rightarrow>
          let s1 = revoke_at_authority e ''disabled'' revoked (drop_session identity (s\<lparr>co_db := d\<rparr>))
          in (s1, bindr (permission e 1 actor ''contributors:manage'') (\<lambda>_. Inr n)))"

definition con_remove :: "cenv \<Rightarrow> string \<Rightarrow> int \<Rightarrow> principal \<Rightarrow> unit con_op" where
  "con_remove e identity revision actor s =
     (case bindr (permission e 0 actor ''contributors:manage'') (\<lambda>_. remove_node identity revision actor (co_db s)) of
        Inl x \<Rightarrow> (s, Inl x)
      | Inr (d, u) \<Rightarrow> (drop_session identity (s\<lparr>co_db := d\<rparr>), Inr ()))"

end
