(* ===== verification/Contrib_Props.thy ===== *)
theory Contrib_Props
  imports Contrib_Store_Inv Exec_Ledger_Props
begin

text \<open>
  What the contributor tables promise: who can authenticate, that an invitation admits one node,
  and that a disabled contributor stays powerless.
\<close>

section \<open>A concrete enrolment\<close>

definition ex_cfg :: contributor_settings where
  "ex_cfg = \<lparr>cfg_deployment_id = ex_id (CHR ''d''), cfg_origin = ''https://node.example'', cfg_ca = ''ca'', cfg_secret = ''gateway'',
     cfg_certificate_seconds = 3600, cfg_invitation_seconds = 600, cfg_lease_seconds = 20, cfg_heartbeat_seconds = 5, cfg_max_nodes = 8\<rparr>"

definition ex_uri :: string where
  "ex_uri = ''urn:ficc:node:'' @ ex_id (CHR ''d'') @ '':'' @ ex_id (CHR ''1'')"

definition ex_lib :: x509_library where
  "ex_lib = \<lparr>load_csr = (\<lambda>pem. Inr \<lparr>csr_signature_valid = True, csr_attributes = [], csr_encoded = pem,
       csr_subject = [(COMMON_NAME, ex_id (CHR ''1''))], csr_extensions = [SubjectAlternativeName [URI ex_uri]],
       csr_key = \<lparr>key_type = Ed25519, key_der = ''key''\<rparr>\<rparr>),
     load_certificates = (\<lambda>pem. Inr [\<lparr>xc_subject = [(COMMON_NAME, ex_id (CHR ''1''))],
       xc_extensions = [SubjectAlternativeName [URI ex_uri], ExtendedKeyUsage [CLIENT_AUTH], BasicConstraints False, KeyUsage True False False],
       xc_key = \<lparr>key_type = Ed25519, key_der = ''key''\<rparr>, xc_not_before = 0, xc_not_after = 1000, xc_fingerprint = ''f1''\<rparr>]),
     verify_chain = (\<lambda>roots now c cs. Inr ())\<rparr>"

definition ex_actor :: principal where
  "ex_actor = \<lparr>pr_id = ''operator'', pr_scopes = [''contributors:manage''], pr_node_ids = None, pr_root_ids = None,
     pr_subject_id = ex_id (CHR ''3''), pr_project_id = ex_id (CHR ''2'')\<rparr>"

definition ex_secret :: string where
  "ex_secret = replicate 43 (CHR ''s'')"

definition ex_receipt :: string where
  "ex_receipt = replicate 43 (CHR ''r'')"

definition ex_clk :: "nat \<Rightarrow> rat" where
  "ex_clk n = 100"

definition ex_leaf :: leaf where
  "ex_leaf = \<lparr>lf_fingerprint = ''f1'', lf_public_key = sha256_hex ''key'', lf_not_before = 0, lf_expires_at = 1000, lf_certificate_chain = ''pem''\<rparr>"

definition ex_db0 :: database where
  "ex_db0 = empty_database\<lparr>db_projects := [(ex_id (CHR ''2''), False)], db_work := empty_store\<rparr>"

definition ex_invitation :: invitation where
  "ex_invitation = \<lparr>iv_id = ''i1'', iv_node_id = ex_id (CHR ''1''), iv_project_id = ex_id (CHR ''2''), iv_name = ''lab'', iv_mode = Managed,
     iv_expires_at = 700, iv_used = False\<rparr>"

definition ex_db1 :: database where
  "ex_db1 = record_audit ''contributor.invite'' ''i1'' (Some ex_actor) ''success''
     (ex_db0\<lparr>db_invitations := [(sha256_hex ex_secret, ex_invitation)]\<rparr>)"

definition ex_request1 :: crequest where
  "ex_request1 = new_request ''q1'' (ex_id (CHR ''1'')) ''csr'' (sha256_hex ''key'') Enroll None 700"

definition ex_db2 :: database where
  "ex_db2 = record_audit ''contributor.request'' (ex_id (CHR ''1'')) None ''success''
     (ex_db1\<lparr>db_nodes := [enrolled_node ex_invitation 100], db_requests := [(sha256_hex ex_receipt, ex_request1)],
        db_invitations := [(sha256_hex ex_secret, ex_invitation\<lparr>iv_used := True\<rparr>)]\<rparr>)"

definition ex_request2 :: crequest where
  "ex_request2 = ex_request1\<lparr>cr_status := Issuing, cr_revision := 2\<rparr>"

definition ex_db3 :: database where
  "ex_db3 = record_audit ''contributor.approve'' (ex_id (CHR ''1'')) (Some ex_actor) ''success''
     (ex_db2\<lparr>db_requests := [(sha256_hex ex_receipt, ex_request2)]\<rparr>)"

definition ex_request3 :: crequest where
  "ex_request3 = ex_request2\<lparr>cr_status := Issued, cr_certificate_fingerprint := Some ''f1'', cr_revision := 3\<rparr>"

definition ex_cert :: node_certificate where
  "ex_cert = \<lparr>ct_fingerprint = ''f1'', ct_leaf = ex_leaf, ct_node_id = ex_id (CHR ''1''), ct_request_id = ''q1'', ct_status = Pending\<rparr>"

definition ex_db4 :: database where
  "ex_db4 = record_audit ''contributor.certificate'' (ex_id (CHR ''1'')) None ''success''
     (ex_db3\<lparr>db_requests := [(sha256_hex ex_receipt, ex_request3)], db_certificates := [ex_cert]\<rparr>)"

definition ex_db5 :: database where
  "ex_db5 = record_audit ''contributor.activate'' (ex_id (CHR ''1'')) None ''success''
     (ex_db4\<lparr>db_nodes := [(enrolled_node ex_invitation 100)\<lparr>cn_revision := 2\<rparr>], db_certificates := [ex_cert\<lparr>ct_status := Current\<rparr>]\<rparr>)"

lemma ex_secrets: "secret_digest ex_secret = Inr (sha256_hex ex_secret)" "secret_digest ex_receipt = Inr (sha256_hex ex_receipt)"
proof -
  have "is_ascii ex_secret" "is_ascii ex_receipt" by code_simp+
  then show "secret_digest ex_secret = Inr (sha256_hex ex_secret)" "secret_digest ex_receipt = Inr (sha256_hex ex_receipt)"
    by (simp_all add: secret_digest_def ex_secret_def ex_receipt_def)
qed

lemma ex_identity: "Identity (ex_id (CHR ''1''))"
  by code_simp

lemma ex_node_uri: "node_uri ex_cfg (ex_id (CHR ''1'')) = Inr ex_uri"
  by (simp add: node_uri_def ex_identity ex_uri_def ex_cfg_def)

lemma ex_max_nodes: "cfg_max_nodes ex_cfg = 8"
  by (simp add: ex_cfg_def)

lemma ex_csr: "csr_request ex_lib ''csr'' ex_uri (ex_id (CHR ''1'')) = Inr (sha256_hex ''key'')"
  by (simp add: csr_request_def validate_request_def ex_lib_def is_ascii_def key_fingerprint_def)

lemma ex_certificate: "certificate ex_lib ''pem'' ''csr'' ex_uri (ex_id (CHR ''1'')) ''ca'' 3600 100 = Inr ex_leaf"
proof -
  obtain x where x: "load_certificates ex_lib ''pem'' = Inr [x]" "check_leaf x (sha256_hex ''key'') ex_uri (ex_id (CHR ''1'')) 100 3600 = Inr ()"
    "xc_fingerprint x = ''f1''" "xc_not_before x = 0" "xc_not_after x = 1000"
    by (simp add: ex_lib_def check_leaf_def key_fingerprint_def)
  moreover have "verify_chain ex_lib ''ca'' 100 x [] = Inr ()" by (simp add: ex_lib_def)
  ultimately show ?thesis by (simp add: certificate_def ex_csr is_ascii_def ex_leaf_def)
qed

lemmas ex_dbs = ex_db0_def ex_db1_def ex_db2_def ex_db3_def ex_db4_def ex_db5_def empty_database_def record_audit_def

lemma ex_enrolment:
  "invite ex_cfg ex_clk ex_secret ''i1'' (ex_id (CHR ''1'')) ''lab'' Managed ex_actor ex_db0 = Inr (ex_db1, ex_invitation)"
  "claim ex_lib ex_cfg ex_clk ex_receipt ''q1'' ex_secret ''csr'' (ex_id (CHR ''1'')) ex_db1 = Inr (ex_db2, (ex_request1, ex_receipt))"
  "begin_issue ex_clk ''q1'' (sha256_hex ''key'') 1 (Some ex_actor) ex_db2 = Inr (ex_db3, ex_request2)"
  "issued ex_clk ex_request2 ex_leaf ex_db3 = Inr (ex_db4, ex_request3)"
  "activate ex_clk ''f1'' ex_db4 = Inr (ex_db5, ((enrolled_node ex_invitation 100)\<lparr>cn_revision := 2\<rparr>, []))"
proof -
  show "invite ex_cfg ex_clk ex_secret ''i1'' (ex_id (CHR ''1'')) ''lab'' Managed ex_actor ex_db0 = Inr (ex_db1, ex_invitation)"
    by (simp add: invite_def Let_def ex_secrets require_project_def ex_dbs ex_actor_def prune_def ex_clk_def ex_cfg_def ex_invitation_def add_row_def)
  show "claim ex_lib ex_cfg ex_clk ex_receipt ''q1'' ex_secret ''csr'' (ex_id (CHR ''1'')) ex_db1 = Inr (ex_db2, (ex_request1, ex_receipt))"
    by (simp add: claim_def ex_secrets)
      (simp add: require_project_def ex_dbs ex_max_nodes ex_node_uri ex_csr ex_secrets Let_def prune_def ex_clk_def ex_invitation_def add_row_def find_row_def
        update_invitation_def put_row_def ex_request1_def enrolled_node_def)
  show "begin_issue ex_clk ''q1'' (sha256_hex ''key'') 1 (Some ex_actor) ex_db2 = Inr (ex_db3, ex_request2)"
    by (simp add: begin_issue_def Let_def get_request_def get_node_def rotation_base_def require_project_def ex_dbs ex_clk_def ex_invitation_def
        find_row_def update_request_def put_row_def ex_request1_def ex_request2_def new_request_def enrolled_node_def ex_actor_def)
  show "issued ex_clk ex_request2 ex_leaf ex_db3 = Inr (ex_db4, ex_request3)"
    by (simp add: issued_def Let_def get_request_def get_node_def rotation_base_def require_project_def ex_dbs ex_clk_def ex_invitation_def prune_def
        find_row_def update_request_def put_row_def ex_request1_def ex_request2_def ex_request3_def new_request_def enrolled_node_def
        ex_actor_def ex_leaf_def add_row_def ex_cert_def)
  show "activate ex_clk ''f1'' ex_db4 = Inr (ex_db5, ((enrolled_node ex_invitation 100)\<lparr>cn_revision := 2\<rparr>, []))"
    by (simp add: activate_def Let_def authenticate_def joined_def get_request_def rotation_base_def ex_dbs ex_clk_def ex_invitation_def
        find_row_def put_row_def ex_request1_def ex_request2_def ex_request3_def new_request_def enrolled_node_def ex_cert_def ex_leaf_def
        certificate_active_def revoke_all_def revocable_def update_certificate_def update_node_def)
qed

lemma ex_db5_reach: "db_reach ex_lib ex_cfg ex_db5"
proof -
  have "db_reach ex_lib ex_cfg empty_database" by (simp add: reach_start)
  moreover have "db_step ex_lib ex_cfg empty_database ex_db0" unfolding ex_db0_def by (rule db_other)
  ultimately have "db_reach ex_lib ex_cfg ex_db0" by (rule reach_step)
  from reach_step [OF this db_invite [OF ex_enrolment(1)]] have "db_reach ex_lib ex_cfg ex_db1" .
  from reach_step [OF this db_claim [OF ex_enrolment(2)]] have "db_reach ex_lib ex_cfg ex_db2" .
  from reach_step [OF this db_begin [OF ex_enrolment(3)]] have "db_reach ex_lib ex_cfg ex_db3" .
  moreover have "db_step ex_lib ex_cfg ex_db3 ex_db4"
    using db_issued [OF ex_enrolment(4), of ex_cfg ex_uri ex_lib "''pem''" "''ca''" 3600 100] ex_node_uri ex_certificate
    by (simp add: ex_request2_def ex_request1_def new_request_def)
  ultimately have "db_reach ex_lib ex_cfg ex_db4" by (rule reach_step)
  from reach_step [OF this db_activate [OF ex_enrolment(5)]] show ?thesis .
qed

section \<open>Properties\<close>

lemma distinct_singleton: "distinct xs \<Longrightarrow> set xs = {c} \<Longrightarrow> xs = [c]"
  by (cases xs; cases "tl xs") auto

text \<open>
  C28: who authenticates is approved, alone and bounded in time. Whenever a client certificate is
  accepted, it is the only current certificate of its contributor, the contributor and its project
  are enabled, the clock is inside the validity of the certificate, and its key was proved by a
  signing request that names exactly this node of this deployment.
\<close>

theorem contributor_authority:
  assumes "db_reach lib cfg d" and "authenticate now f False d = Inr (n, c)"
  shows "cn_id n = ct_node_id c \<and> \<not> cn_disabled n \<and> map_of (db_projects d) (cn_project_id n) = Some False \<and>
    lf_not_before (ct_leaf c) \<le> now \<and> now < lf_expires_at (ct_leaf c) \<and>
    filter (\<lambda>x. ct_node_id x = cn_id n \<and> ct_status x = Current) (db_certificates d) = [c] \<and>
    (\<exists>csr uri. node_uri cfg (cn_id n) = Inr uri \<and> csr_request lib csr uri (cn_id n) = Inr (lf_public_key (ct_leaf c)))"
proof -
  have inv: "db_inv lib cfg d" by (rule contrib.reach_inv [OF assms(1)])
  note a = authenticateD [OF assms(2)]
  have cur: "ct_status c = Current" using a(5) by simp
  have "x = c" if "x \<in> set (db_certificates d)" "ct_node_id x = cn_id n" "ct_status x = Current" for x
    using inv that a(8,9) cur unfolding db_inv_def one_current_def by metis
  then have "set (filter (\<lambda>x. ct_node_id x = cn_id n \<and> ct_status x = Current) (db_certificates d)) = {c}"
    using a(8,9) cur by auto
  moreover have "distinct (map ct_fingerprint (db_certificates d))" using inv by (simp add: db_inv_def unique_rows_def)
  then have "distinct (filter (\<lambda>x. ct_node_id x = cn_id n \<and> ct_status x = Current) (db_certificates d))"
    by (simp add: distinct_map)
  ultimately have "filter (\<lambda>x. ct_node_id x = cn_id n \<and> ct_status x = Current) (db_certificates d) = [c]"
    by (intro distinct_singleton)
  moreover have "\<exists>csr. proven_key lib cfg (ct_node_id c) csr (lf_public_key (ct_leaf c))"
    using inv a(9) by (simp add: db_inv_def certificate_ok_def)
  ultimately show ?thesis using a by (simp add: certificate_active_def proven_key_def)
qed

theorem contributor_authority_witness:
  "filter (\<lambda>x. ct_node_id x = ex_id (CHR ''1'') \<and> ct_status x = Current) (db_certificates ex_db5) = [ex_cert\<lparr>ct_status := Current\<rparr>]"
proof -
  have "authenticate 100 ''f1'' False ex_db5 = Inr ((enrolled_node ex_invitation 100)\<lparr>cn_revision := 2\<rparr>, ex_cert\<lparr>ct_status := Current\<rparr>)"
    by (simp add: authenticate_def joined_def ex_dbs find_row_def ex_cert_def enrolled_node_def ex_invitation_def certificate_active_def ex_leaf_def)
  note a = contributor_authority [OF ex_db5_reach this]
  have "cn_id ((enrolled_node ex_invitation 100)\<lparr>cn_revision := 2\<rparr>) = ex_id (CHR ''1'')" by (simp add: enrolled_node_def ex_invitation_def)
  from a [unfolded this] show ?thesis by blast
qed

lemma find_update_node:
  "find_row cn_id (db_nodes (update_node m d)) i =
     (if i = cn_id m then map_option (\<lambda>_. m) (find_row cn_id (db_nodes d) i) else find_row cn_id (db_nodes d) i)"
proof (induction "db_nodes d" arbitrary: d)
  case Nil
  then show ?case by (simp add: update_node_def find_row_def put_row_def)
next
  case (Cons x xs)
  have "db_nodes (d\<lparr>db_nodes := xs\<rparr>) = xs" by simp
  from Cons(1) [OF this [symmetric]] show ?case
    unfolding update_node_def Cons(2) [symmetric] by (auto simp: find_row_def put_row_def)
qed

lemma find_filter_node:
  "find_row cn_id (filter (\<lambda>m. cn_id m \<noteq> j) xs) i = (if i = j then None else find_row cn_id xs i)"
  by (induction xs) (auto simp: find_row_def)

lemma revoked_nodes: "db_nodes (fst (revoke_all node keep d)) = db_nodes d"
proof -
  have "db_nodes (fold update_certificate xs e) = db_nodes e" for xs e
    by (induction xs arbitrary: e) (simp_all add: update_certificate_def)
  then show ?thesis by (simp add: revoke_all_def Let_def)
qed

lemma disabled_stays:
  assumes "db_step lib cfg d e" and n: "find_row cn_id (db_nodes d) i = Some n" "cn_disabled n"
  shows "find_row cn_id (db_nodes e) i = None \<or> (\<exists>m. find_row cn_id (db_nodes e) i = Some m \<and> cn_disabled m)"
  using assms(1)
proof cases
  case (db_claim clk rc identity secret csr node p s)
  from db_claim show ?thesis using n by (elim claimD) (simp add: find_row_add)
next
  case (db_begin clk identity expected revision who q)
  from db_begin show ?thesis using n by (elim begin_issueD) simp
next
  case (db_issued clk p c q uri pem roots duration now)
  from db_issued(1) show ?thesis using n by (elim issuedD) simp
next
  case (db_failed p)
  then show ?thesis using n by (simp add: failed_def split: sum.split)
next
  case (db_activate clk f m previous)
  from db_activate show ?thesis
  proof (rule activateD)
    fix k :: contributor and c :: node_certificate
    assume a: "authenticate (clk 0) f True d = Inr (k, c)"
      and "ct_status c = Current \<and> e = d \<and> m = k \<or>
       ct_status c = Pending \<and> m = k\<lparr>cn_revision := cn_revision k + 1\<rparr> \<and>
       (\<exists>r. get_request d (ct_request_id c) = Inr r \<and> cr_status r = Issued \<and> clk 1 < cr_expires_at r) \<and>
       e = record_audit ''contributor.activate'' (cn_id k) None ''success''
         (update_node m (update_certificate (c\<lparr>ct_status := Current\<rparr>) (fst (revoke_all (cn_id k) (Some f) d))))"
    moreover have "cn_id k \<noteq> i" using authenticateD(2,4,8) [OF a] n by auto
    moreover have "db_nodes (update_certificate x (fst (revoke_all node keep d))) = db_nodes d" for x node keep
      by (simp add: update_certificate_def revoked_nodes)
    ultimately show ?thesis using n by (auto simp: find_update_node)
  qed
next
  case (db_rotation clk f identity csr p)
  from db_rotation show ?thesis using n by (elim rotationD) auto
next
  case (db_disable identity revision actor m revoked)
  from db_disable show ?thesis using n by (elim disableD) (auto simp: revoked_nodes find_update_node)
next
  case (db_remove identity revision actor u)
  then show ?thesis using n by (auto simp: remove_node_def bindr_Inr find_filter_node split: if_splits)
qed (use n in \<open>auto simp: invite_def Let_def bindr_Inr split: if_splits\<close>)

text \<open>
  Revocation is final. A disabled contributor stays disabled through every operation until it
  is removed, and none of its certificates, whatever their age or state, authenticates after the
  operation; disabling itself already ends every authentication.
\<close>

theorem disabled_powerless:
  assumes "db_reach lib cfg d" and "db_step lib cfg d e" and "find_row cn_id (db_nodes d) i = Some n"
    and "cn_disabled n \<or> disable i revision actor d = Inr (e, (m, revoked))"
  shows "(find_row cn_id (db_nodes e) i = None \<or> (\<exists>k. find_row cn_id (db_nodes e) i = Some k \<and> cn_disabled k)) \<and>
    (\<forall>now f pending k c. authenticate now f pending e = Inr (k, c) \<longrightarrow> ct_node_id c \<noteq> i)"
proof -
  have off: "find_row cn_id (db_nodes e) i = None \<or> (\<exists>k. find_row cn_id (db_nodes e) i = Some k \<and> cn_disabled k)"
  proof (cases "cn_disabled n")
    case True
    then show ?thesis using disabled_stays assms(2,3) by blast
  next
    case False
    then have "disable i revision actor d = Inr (e, (m, revoked))" using assms(4) by simp
    then show ?thesis
      using assms(3) by (elim disableD) (auto simp: revoked_nodes find_update_node get_node_Inr dest: find_row_Some)
  qed
  moreover have "ct_node_id c \<noteq> i" if a: "authenticate now f pending e = Inr (k, c)" for now f pending k c
    using authenticateD(2,4) [OF a] off by auto
  ultimately show ?thesis by blast
qed

definition ex_db6 :: database where
  "ex_db6 = record_audit ''contributor.disable'' (ex_id (CHR ''1'')) (Some ex_actor) ''success''
     (ex_db5\<lparr>db_nodes := [(enrolled_node ex_invitation 100)\<lparr>cn_disabled := True, cn_revision := 3\<rparr>],
        db_certificates := [ex_cert\<lparr>ct_status := Revoked\<rparr>]\<rparr>)"

theorem disabled_powerless_witness:
  "\<nexists>now f pending k c. authenticate now f pending ex_db6 = Inr (k, c) \<and> ct_node_id c = ex_id (CHR ''1'')"
proof -
  let ?n = "(enrolled_node ex_invitation 100)\<lparr>cn_revision := 2\<rparr>"
  have d: "disable (ex_id (CHR ''1'')) 2 ex_actor ex_db5 = Inr (ex_db6, (?n\<lparr>cn_disabled := True, cn_revision := 3\<rparr>, [ex_cert\<lparr>ct_status := Revoked\<rparr>]))"
    by (simp add: disable_def Let_def get_node_def ex_db6_def ex_dbs find_row_def enrolled_node_def ex_invitation_def ex_actor_def ex_cert_def
        revoke_all_def revocable_def update_node_def update_certificate_def put_row_def)
  have "find_row cn_id (db_nodes ex_db5) (ex_id (CHR ''1'')) = Some ?n"
    by (simp add: ex_dbs find_row_def enrolled_node_def ex_invitation_def)
  from disabled_powerless [OF ex_db5_reach db_disable [OF d] this disjI2 [OF d]] show ?thesis by blast
qed

end
