(* ===== verification/Contributors_Props.thy ===== *)
theory Contributors_Props
  imports Contributors Contrib_Props
begin

text \<open>
  The contributor service over its tables: every operation, whatever the certificate authority
  answers and whatever other tasks do while it waits, changes the tables only by their
  transactions; and what a connection lease guarantees.
\<close>

section \<open>Refinement\<close>

definition db_run :: "x509_library \<Rightarrow> contributor_settings \<Rightarrow> contributors \<Rightarrow> contributors \<Rightarrow> bool" where
  "db_run lib cfg s t \<longleftrightarrow> (db_step lib cfg)\<^sup>*\<^sup>* (co_db s) (co_db t) \<and> co_settings t = co_settings s"

lemma db_run_same: "co_db t = co_db s \<Longrightarrow> co_settings t = co_settings s \<Longrightarrow> db_run lib cfg s t"
  by (simp add: db_run_def)

lemma db_run_one: "db_step lib cfg (co_db s) (co_db t) \<Longrightarrow> co_settings t = co_settings s \<Longrightarrow> db_run lib cfg s t"
  by (simp add: db_run_def r_into_rtranclp)

lemma db_run_trans: "db_run lib cfg s t \<Longrightarrow> db_run lib cfg t u \<Longrightarrow> db_run lib cfg s u"
  by (auto simp: db_run_def)

definition others_ok :: "x509_library \<Rightarrow> contributor_settings \<Rightarrow> cenv \<Rightarrow> bool" where
  "others_ok lib cfg e \<longleftrightarrow> (\<forall>s. db_run lib cfg s (ce_others e s))"

lemma record_audit_step: "db_step lib cfg d (record_audit a i p x d)"
proof -
  have "record_audit a i p x d = d\<lparr>db_projects := db_projects d, db_work := db_work (record_audit a i p x d)\<rparr>"
    by (simp add: record_audit_def)
  then show ?thesis using db_other by metis
qed

lemma revoke_at_authority_run:
  assumes "others_ok lib cfg e"
  shows "db_run lib cfg s (revoke_at_authority e reason cs s)"
proof (induction cs arbitrary: s)
  case (Cons c cs)
  let ?t = "if \<not> co_provider s \<or> co_free s = 0
    then s\<lparr>co_db := record_audit ''contributor.ca-revoke'' (ct_node_id c) None ''pending'' (co_db s)\<rparr>
    else let s1 = ce_others e s in
      s1\<lparr>co_db := record_audit ''contributor.ca-revoke'' (ct_node_id c) None
        (case ce_revoke e c reason of Inr _ \<Rightarrow> ''success'' | Inl _ \<Rightarrow> ''failed'') (co_db s1)\<rparr>"
  have "db_run lib cfg s ?t"
  proof (cases "\<not> co_provider s \<or> co_free s = 0")
    case False
    have "db_run lib cfg s (ce_others e s)" using assms by (simp add: others_ok_def)
    moreover have "db_run lib cfg (ce_others e s) ?t" using False by (intro db_run_one) (simp_all add: Let_def record_audit_step)
    ultimately show ?thesis by (rule db_run_trans)
  qed (auto intro: db_run_one simp: record_audit_step)
  moreover have "db_run lib cfg ?t (revoke_at_authority e reason cs ?t)" by (rule Cons.IH)
  ultimately show ?case unfolding revoke_at_authority.simps by (rule db_run_trans)
qed (simp add: db_run_same)

lemma finish_issue_run:
  assumes "cr_status p = Issuing" and "finish_issue lib cfg e actor p s = (t, r)"
  shows "db_run lib cfg s t"
proof (cases "bindr (obtain_certificate lib cfg e p) (\<lambda>c.
    bindr (actor_permission e 1 actor) (\<lambda>_. issued (\<lambda>n. ce_clk e (3 + n)) p c (co_db s)))")
  case (Inl x)
  then have "t = s\<lparr>co_db := failed p (co_db s)\<rparr>" using assms(2) unfolding finish_issue_def by simp
  then show ?thesis using db_failed [OF assms(1)] by (simp add: db_run_one)
next
  case (Inr y)
  obtain d q where y: "y = (d, q)" by force
  obtain c where c: "obtain_certificate lib cfg e p = Inr c" and i: "issued (\<lambda>n. ce_clk e (3 + n)) p c (co_db s) = Inr (d, q)"
    using Inr y unfolding bindr_Inr by blast
  obtain uri chain where "node_uri cfg (cr_node_id p) = Inr uri"
    "certificate lib chain (cr_csr_pem p) uri (cr_node_id p) (cfg_ca cfg) (of_int (cfg_certificate_seconds cfg)) (ce_clk e 2) = Inr c"
    using c unfolding obtain_certificate_def bindr_Inr by blast
  then have "db_step lib cfg (co_db s) d" by (rule db_issued [OF i])
  moreover have "db_step lib cfg d (failed p d)" by (rule db_failed [OF assms(1)])
  moreover have "t = s\<lparr>co_db := failed p d\<rparr>" using assms(2) Inr y unfolding finish_issue_def by simp
  ultimately show ?thesis by (simp add: db_run_def)
qed

lemma issue_run:
  assumes o: "others_ok lib cfg e" and "co_settings s = Some cfg" and r: "issue lib e identity expected revision actor s = (t, r)"
  shows "db_run lib cfg s t"
proof (cases "\<not> co_provider s \<or> co_free s = 0 \<or> identity \<in> set (co_issuing s)")
  case False
  let ?s = "enter_issue identity s"
  show ?thesis
  proof (cases "bindr (actor_permission e 0 actor) (\<lambda>_. begin_issue (ce_clk e) identity expected revision actor (co_db ?s))")
    case (Inl x)
    then have "t = leave_issue identity ?s" using r False assms(2) unfolding issue_def Let_def by (simp add: configured_def)
    then show ?thesis by (simp add: db_run_same enter_issue_def leave_issue_def)
  next
    case (Inr y)
    obtain d p where y: "y = (d, p)" by force
    have b: "begin_issue (ce_clk e) identity expected revision actor (co_db s) = Inr (d, p)"
      using Inr y unfolding bindr_Inr enter_issue_def by auto
    then have p: "cr_status p = Issuing" by (elim begin_issueD) simp
    obtain u x where u: "finish_issue lib cfg e actor p (ce_others e (?s\<lparr>co_db := d\<rparr>)) = (u, x)" by force
    have t: "t = leave_issue identity u" using r False assms(2) Inr y u by (simp add: issue_def configured_def Let_def)
    have "db_run lib cfg (?s\<lparr>co_db := d\<rparr>) (ce_others e (?s\<lparr>co_db := d\<rparr>))" using o by (simp add: others_ok_def)
    moreover have "db_run lib cfg (ce_others e (?s\<lparr>co_db := d\<rparr>)) u" by (rule finish_issue_run [OF p u])
    moreover have "db_run lib cfg s (?s\<lparr>co_db := d\<rparr>)" by (intro db_run_one) (simp_all add: db_begin [OF b] enter_issue_def)
    moreover have "db_run lib cfg u t" by (simp add: t db_run_same leave_issue_def)
    ultimately show ?thesis by (blast intro: db_run_trans)
  qed
qed (use r assms(2) in \<open>auto simp: issue_def configured_def db_run_same split: if_splits\<close>)

inductive con_step :: "x509_library \<Rightarrow> cenv \<Rightarrow> contributors \<Rightarrow> contributors \<Rightarrow> bool" for lib e where
  con_heartbeat: "heartbeat e token fingerprint m transport s = (t, r) \<Longrightarrow> con_step lib e s t"
| con_poll: "con_step lib e s (poll_round now m s)"
| con_close: "con_step lib e s (close s)"
| con_inviting: "con_invite e demo secret identity node name m actor s = (t, ri) \<Longrightarrow> con_step lib e s t"
| con_claiming: "con_claim lib e rc identity secret csr node s = (t, rq) \<Longrightarrow> con_step lib e s t"
| con_issuing: "issue lib e identity expected revision who s = (t, ru) \<Longrightarrow> con_step lib e s t"
| con_activating: "con_activate e f s = (t, rs) \<Longrightarrow> con_step lib e s t"
| con_rotating: "rotate lib e f identity csr s = (t, rt) \<Longrightarrow> con_step lib e s t"
| con_disabling: "con_disable e identity revision actor s = (t, rn) \<Longrightarrow> con_step lib e s t"
| con_removing: "con_remove e identity revision actor s = (t, rr) \<Longrightarrow> con_step lib e s t"

lemma heartbeat_db:
  assumes "heartbeat e token fingerprint m transport s = (t, r)"
  shows "co_db t = co_db s \<and> co_settings t = co_settings s"
  using assms
  by (auto simp: heartbeat_def heartbeat_session_def Let_def split: sum.splits option.splits if_splits prod.splits)

lemma on_db_run: "on_db f s = (t, r) \<Longrightarrow> (\<And>d v. f (co_db s) = Inr (d, v) \<Longrightarrow> db_step lib cfg (co_db s) d) \<Longrightarrow> db_run lib cfg s t"
  by (auto simp: on_db_def db_run_same intro!: db_run_one split: sum.splits)

lemma con_activate_run:
  assumes o: "others_ok lib cfg e" and "co_settings s = Some cfg" and r: "con_activate e f s = (t, r)"
  shows "db_run lib cfg s t"
proof (cases "activate (ce_clk e) f (co_db s)")
  case (Inr y)
  obtain d n previous where y: "y = (d, (n, previous))" by (metis prod.exhaust)
  let ?s = "if previous \<noteq> [] then drop_session (cn_id n) (s\<lparr>co_db := d\<rparr>) else s\<lparr>co_db := d\<rparr>"
  have t: "t = revoke_at_authority e ''superseded'' previous ?s" using r assms(2) Inr y by (simp add: con_activate_def configured_def Let_def)
  have "db_step lib cfg (co_db s) d" using db_activate Inr y by blast
  moreover have "co_db ?s = d" "co_settings ?s = co_settings s" by (simp_all add: drop_session_def)
  ultimately have "db_run lib cfg s ?s" by (metis db_run_one)
  then show ?thesis unfolding t by (rule db_run_trans [OF _ revoke_at_authority_run [OF o]])
qed (use r assms(2) in \<open>simp add: con_activate_def configured_def db_run_same\<close>)

lemma con_disable_run:
  assumes o: "others_ok lib cfg e" and r: "con_disable e identity revision actor s = (t, r)"
  shows "db_run lib cfg s t"
proof (cases "bindr (permission e 0 actor ''contributors:manage'') (\<lambda>_. disable identity revision actor (co_db s))")
  case (Inr y)
  obtain d n revoked where y: "y = (d, (n, revoked))" by (metis prod.exhaust)
  let ?s = "drop_session identity (s\<lparr>co_db := d\<rparr>)"
  have t: "t = revoke_at_authority e ''disabled'' revoked ?s" using r Inr y by (simp add: con_disable_def Let_def)
  have "db_step lib cfg (co_db s) d" using Inr y db_disable unfolding bindr_Inr by blast
  moreover have "co_db ?s = d" "co_settings ?s = co_settings s" by (simp_all add: drop_session_def)
  ultimately have "db_run lib cfg s ?s" by (metis db_run_one)
  then show ?thesis unfolding t by (rule db_run_trans [OF _ revoke_at_authority_run [OF o]])
qed (use r in \<open>simp add: con_disable_def db_run_same\<close>)

lemma rotate_run:
  assumes o: "others_ok lib cfg e" and c: "co_settings s = Some cfg" and r: "rotate lib e f identity csr s = (t, r)"
  shows "db_run lib cfg s t"
proof (cases "rotation lib cfg (ce_clk e) f identity csr (co_db s)")
  case (Inr y)
  obtain d p where y: "y = (d, p)" by force
  have st: "db_step lib cfg (co_db s) d" using db_rotation Inr y by blast
  show ?thesis
  proof (cases "cr_status p = Issued")
    case True
    then show ?thesis using r c Inr y st by (auto simp: rotate_def configured_def intro: db_run_one)
  next
    case False
    obtain u x where u: "issue lib e (cr_id p) (cr_public_key p) (cr_revision p) None (s\<lparr>co_db := d\<rparr>) = (u, x)" by force
    then have "t = u" using r c Inr y False by (cases x) (auto simp: rotate_def configured_def)
    moreover have "db_run lib cfg (s\<lparr>co_db := d\<rparr>) u" by (rule issue_run [OF o _ u]) (simp add: c)
    moreover have "db_run lib cfg s (s\<lparr>co_db := d\<rparr>)" using st by (simp add: db_run_one)
    ultimately show ?thesis by (blast intro: db_run_trans)
  qed
qed (use r c in \<open>simp add: rotate_def configured_def db_run_same\<close>)

lemma con_invite_run:
  assumes c: "co_settings s = Some cfg" and r: "con_invite e demo secret identity node name m actor s = (t, r)"
  shows "db_run lib cfg s t"
proof (cases "bindr (permission e 0 actor ''contributors:manage'') (\<lambda>_. bindr (ensure (\<not> demo) (Failure ''demo_read_only'' 403)) (\<lambda>_. Inr cfg))")
  case (Inr x)
  then have "x = cfg" by (auto simp: bindr_Inr split: if_splits)
  then have "on_db (invite cfg (ce_clk e) secret identity node name m actor) s = (t, r)"
    using Inr r c unfolding con_invite_def by (simp add: configured_def)
  then show ?thesis by (rule on_db_run) (rule db_invite)
qed (use r c in \<open>simp add: con_invite_def configured_def db_run_same\<close>)

lemma con_claim_run:
  assumes "co_settings s = Some cfg" and "con_claim lib e rc identity secret csr node s = (t, r)"
  shows "db_run lib cfg s t"
proof -
  have "on_db (claim lib cfg (ce_clk e) rc identity secret csr node) s = (t, r)" using assms by (simp add: con_claim_def configured_def)
  then show ?thesis by (rule on_db_run) (metis db_claim prod.exhaust)
qed

lemma con_remove_run:
  assumes r: "con_remove e identity revision actor s = (t, r)"
  shows "db_run lib cfg s t"
proof (cases "bindr (permission e 0 actor ''contributors:manage'') (\<lambda>_. remove_node identity revision actor (co_db s))")
  case (Inr y)
  obtain d u where y: "y = (d, u)" by (metis prod.exhaust)
  have "db_step lib cfg (co_db s) d" using Inr y db_remove unfolding bindr_Inr by blast
  then show ?thesis using r Inr y unfolding con_remove_def by (auto simp: drop_session_def intro: db_run_one)
qed (use r in \<open>simp add: con_remove_def db_run_same\<close>)

lemma poll_round_db: "co_db (poll_round now m s) = co_db s \<and> co_settings (poll_round now m s) = co_settings s"
  by (simp add: poll_round_def split: sum.split)

text \<open>
  The contributor service implements its tables. With a configured deployment, every operation
  of the service changes the tables only by a sequence of their transactions, whatever the
  certificate authority, the identity service and other tasks do meanwhile, so that the invariant
  of the tables (one current certificate, no live certificate of a disabled contributor) holds
  after each.
\<close>

theorem contributors_implement_tables:
  assumes "con_step lib e s t" and "others_ok lib cfg e" and "co_settings s = Some cfg" and "db_reach lib cfg (co_db s)"
  shows "(db_step lib cfg)\<^sup>*\<^sup>* (co_db s) (co_db t) \<and> co_settings t = Some cfg \<and> db_inv lib cfg (co_db t)"
proof -
  have run: "db_run lib cfg s t"
    using assms(1)
  proof cases
    case con_heartbeat
    then show ?thesis using heartbeat_db by (intro db_run_same) blast+
  next
    case con_poll
    then show ?thesis by (simp add: db_run_same poll_round_db)
  next
    case con_close
    then show ?thesis by (simp add: db_run_same close_def)
  qed (use assms(2,3) in \<open>blast intro: con_invite_run con_claim_run issue_run con_activate_run rotate_run con_disable_run con_remove_run\<close>)+
  then have r: "(db_step lib cfg)\<^sup>*\<^sup>* (co_db s) (co_db t)" "co_settings t = Some cfg" using assms(3) by (simp_all add: db_run_def)
  have "db_inv lib cfg (co_db t)" by (rule contrib.run_inv [OF r(1) contrib.reach_inv [OF assms(4)]])
  then show ?thesis using r by simp
qed

definition ex_cenv :: cenv where
  "ex_cenv = \<lparr>ce_clk = ex_clk, ce_mono = (\<lambda>_. 50), ce_current = (\<lambda>k i. Inr ex_actor), ce_policy = (\<lambda>p scope. Inr ()),
     ce_issue = (\<lambda>p uri seconds. Inr ''pem''), ce_revoke = (\<lambda>c reason. Inr ()), ce_others = (\<lambda>s. s)\<rparr>"

definition ex_con :: contributors where
  "ex_con = \<lparr>co_settings = Some ex_cfg, co_db = ex_db5, co_sessions = [], co_provider = False, co_free = 4, co_issuing = []\<rparr>"

theorem contributors_implement_tables_witness:
  "let t = fst (con_disable ex_cenv (ex_id (CHR ''1'')) 2 ex_actor ex_con)
   in db_inv ex_lib ex_cfg (co_db t) \<and> list_all cn_disabled (db_nodes (co_db t))"
proof -
  let ?t = "fst (con_disable ex_cenv (ex_id (CHR ''1'')) 2 ex_actor ex_con)"
  have "con_step ex_lib ex_cenv ex_con ?t" by (rule con_disabling [OF prod.collapse [symmetric]])
  moreover have "others_ok ex_lib ex_cfg ex_cenv" by (simp add: others_ok_def ex_cenv_def db_run_same)
  moreover have "co_settings ex_con = Some ex_cfg" "co_db ex_con = ex_db5" by (simp_all add: ex_con_def)
  ultimately have "db_inv ex_lib ex_cfg (co_db ?t)"
    using contributors_implement_tables [of ex_lib ex_cenv ex_con ?t ex_cfg] ex_db5_reach by simp
  moreover have "permission ex_cenv k ex_actor ''contributors:manage'' = Inr ex_actor" for k
    by (simp add: permission_def ex_cenv_def require_scope_def ex_actor_def)
  then have "list_all cn_disabled (db_nodes (co_db ?t))"
    by (simp add: con_disable_def Let_def disable_def get_node_def ex_con_def ex_dbs find_row_def enrolled_node_def ex_invitation_def
        ex_cert_def revoke_all_def revocable_def update_node_def update_certificate_def put_row_def drop_session_def)
      (simp add: ex_actor_def)
  ultimately show ?thesis by (simp add: Let_def)
qed

end
