(* ===== verification/Work_Commands.thy ===== *)
theory Work_Commands
  imports Work_Records
begin

text \<open>
  Commands of the controller to an executor (\<open>src/ficc/workloads/commands.py\<close>): executor
  observations are bound to stored plans, and a dispatch whose outcome is not known leaves its
  attempts unknown. The reply of the channel is an argument: a reply or the exception that the
  channel raised. Observations are kept transaction by transaction, so the operations return the
  state together with the result or exception.
\<close>

section \<open>State\<close>

record observed_info =
  ob_ready :: "bool option"
  ob_at :: "rat option"
  ob_inputs :: "(int \<times> int) option"

record commands =
  cm_store :: work_store
  cm_observed :: "(string \<times> observed_info) list"

type_synonym 'a cmd_op = "commands \<Rightarrow> commands \<times> 'a res"

definition fence_of_attempt :: "wattempt \<Rightarrow> fence" where
  "fence_of_attempt a =
     \<lparr>f_attempt_id = wa_id a, f_generation = plan_generation (wa_plan a), f_plan_digest = digest_of_plan (wa_plan a)\<rparr>"

definition result_fence :: "'a fence_scheme \<Rightarrow> fence" where
  "result_fence r = \<lparr>f_attempt_id = f_attempt_id r, f_generation = f_generation r, f_plan_digest = f_plan_digest r\<rparr>"

text \<open>\<open>result.model_dump(include=AttemptResult.model_fields)\<close>, with the state given.\<close>

definition plain_result :: "public_attempt \<Rightarrow> wstate \<Rightarrow> attempt_result" where
  "plain_result r st =
     \<lparr>f_attempt_id = f_attempt_id r, f_generation = f_generation r, f_plan_digest = f_plan_digest r, res_state = st,
      res_reason = res_reason r, res_exit_code = res_exit_code r, res_output_bytes = res_output_bytes r,
      res_error_bytes = res_error_bytes r, res_cleanup_confirmed = res_cleanup_confirmed r\<rparr>"

definition on_store :: "'a work_op \<Rightarrow> 'a cmd_op" where
  "on_store f s = (case f (cm_store s) of Inl x \<Rightarrow> (s, Inl x) | Inr (w, v) \<Rightarrow> (s\<lparr>cm_store := w\<rparr>, Inr v))"

definition andthen_cmd :: "'a cmd_op \<Rightarrow> ('a \<Rightarrow> 'b cmd_op) \<Rightarrow> 'b cmd_op" where
  "andthen_cmd f g s = (case f s of (t, Inl x) \<Rightarrow> (t, Inl x) | (t, Inr v) \<Rightarrow> g v t)"

section \<open>Calls\<close>

definition call_reply :: "reply res \<Rightarrow> reply res" where
  "call_reply r = bindr r (\<lambda>x. case x of FailureReply h e \<Rightarrow> Inl (Failure (err_code e) 409) | _ \<Rightarrow> Inr x)"

definition cursor_ok :: "string option \<Rightarrow> snapshot \<Rightarrow> bool" where
  "cursor_ok after n \<longleftrightarrow>
     (let ids = map f_attempt_id (sn_attempts n) in
      \<not> (ids \<noteq> sort (remdups ids)
         \<or> (case after of None \<Rightarrow> False | Some a \<Rightarrow> a \<noteq> [] \<and> list_ex (\<lambda>i. i \<le> a) ids)
         \<or> (case sn_next n of None \<Rightarrow> False | Some x \<Rightarrow> ids = [] \<or> x \<noteq> last ids)))"

definition snapshot_reply :: "string \<Rightarrow> mode \<Rightarrow> string option \<Rightarrow> reply res \<Rightarrow> snapshot res" where
  "snapshot_reply node m after r =
     bindr (call_reply r) (\<lambda>x. case x of
       SnapshotReply h n \<Rightarrow>
         if sn_node_id n \<noteq> node \<or> sn_deployment_id n \<noteq> rep_deployment_id h \<or> off_mode (sn_offer n) \<noteq> m
         then Inl (Failure ''executor_identity'' 409)
         else if \<not> cursor_ok after n then Inl (Failure ''executor_response'' 502)
         else Inr n
     | _ \<Rightarrow> Inl (Failure ''executor_response'' 502))"

section \<open>Observations\<close>

definition observation_checks :: "wattempt \<Rightarrow> public_attempt \<Rightarrow> snapshot \<Rightarrow> unit res" where
  "observation_checks stored r n =
     (if wa_ledger_id stored \<noteq> None \<and> (wa_ledger_id stored, wa_admission_version stored) \<noteq> (sn_ledger_id n, sn_admission_version n)
      then Inl (Failure ''executor_replaced'' 409)
      else if pub_job_id r \<noteq> plan_job_id (wa_plan stored) \<or> pub_project_id r \<noteq> plan_project_id (wa_plan stored)
        \<or> pub_offer_revision r \<noteq> plan_offer_revision (wa_plan stored)
        \<or> pub_lease_sequence r > ren_sequence (wa_lease stored) \<or> pub_lease_expires_at r > ren_expires_at (wa_lease stored)
      then Inl (Failure ''attempt_changed'' 409) else Inr ())"

text \<open>A constructed result is validated before it is recorded.\<close>

definition record_result :: "(nat \<Rightarrow> rat) \<Rightarrow> attempt_result \<Rightarrow> snapshot \<Rightarrow> wattempt cmd_op" where
  "record_result clk r n s =
     (if \<not> valid_attempt_result r then (s, Inl ValueError)
      else on_store (observe_attempt clk r (sn_node_id n) (sn_installation_id n)) s)"

definition retained_outcome :: "(nat \<Rightarrow> rat) \<Rightarrow> wattempt \<Rightarrow> public_attempt \<Rightarrow> snapshot \<Rightarrow> unit cmd_op" where
  "retained_outcome clk stored r n s =
     (if res_state r = Released \<and> wa_state stored \<noteq> Released then
        (case pub_outcome r of
           None \<Rightarrow> (s, Inl (Failure ''executor_response'' 502))
         | Some st \<Rightarrow>
             if st \<notin> terminal \<union> {Unknown} then (s, Inl (Failure ''executor_response'' 502))
             else andthen_cmd (record_result clk (plain_result r st) n) (\<lambda>_ t. (t, Inr ())) s)
      else (s, Inr ()))"

definition note_observed :: "rat \<Rightarrow> public_attempt \<Rightarrow> wattempt \<Rightarrow> wattempt cmd_op" where
  "note_observed m r v s =
     (let old = (case map_of (cm_observed s) (wa_id v) of None \<Rightarrow> \<lparr>ob_ready = None, ob_at = None, ob_inputs = None\<rparr> | Some x \<Rightarrow> x)
      in (s\<lparr>cm_observed := AList.update (wa_id v) (old\<lparr>ob_ready := Some (pub_ready r), ob_at := Some m\<rparr>) (cm_observed s)\<rparr>, Inr v))"

definition cmd_observation :: "(nat \<Rightarrow> rat) \<Rightarrow> rat \<Rightarrow> public_attempt \<Rightarrow> snapshot \<Rightarrow> wattempt cmd_op" where
  "cmd_observation clk m r n s =
     (case bindr (get_attempt (cm_store s) (f_attempt_id r)) (\<lambda>stored. bindr (observation_checks stored r n) (\<lambda>_. Inr stored)) of
        Inl x \<Rightarrow> (s, Inl x)
      | Inr stored \<Rightarrow>
          andthen_cmd (retained_outcome clk stored r n) (\<lambda>_.
          andthen_cmd (record_result (\<lambda>k. clk (2 + k)) (plain_result r (res_state r)) n) (note_observed m r)) s)"

section \<open>Uncertain outcomes\<close>

definition uncertain :: "(nat \<Rightarrow> rat) \<Rightarrow> string \<Rightarrow> string \<Rightarrow> unit cmd_op" where
  "uncertain clk i reason s =
     (case get_attempt (cm_store s) i of
        Inl x \<Rightarrow> (s, Inl x)
      | Inr a \<Rightarrow>
          let s1 = s\<lparr>cm_observed := AList.delete i (cm_observed s)\<rparr> in
          if wa_state a \<in> {Preparing, Prepared, Starting, Running}
          then andthen_cmd (on_store (transition_attempt clk i (wa_state a) Unknown (Some reason))) (\<lambda>_ t. (t, Inr ())) s1
          else (s1, Inr ()))"

fun uncertain_all :: "(nat \<Rightarrow> rat) \<Rightarrow> string list \<Rightarrow> string \<Rightarrow> unit cmd_op" where
  "uncertain_all clk [] reason s = (s, Inr ())"
| "uncertain_all clk (i # is) reason s =
     andthen_cmd (uncertain clk i reason) (\<lambda>_. uncertain_all (\<lambda>k. clk (2 + k)) is reason) s"

section \<open>Batches\<close>

text \<open>Every row is bound to the attempt it answers, and a result row holds exactly that attempt.\<close>

definition row_bound :: "fence \<Rightarrow> reply_row \<Rightarrow> bool" where
  "row_bound f row \<longleftrightarrow> row_fence row = f \<and>
     (row_ok row \<longrightarrow> (case row of Result g a \<Rightarrow> result_fence a = f | _ \<Rightarrow> False))"

definition batch_rows :: "fence list \<Rightarrow> reply res \<Rightarrow> reply_row list res" where
  "batch_rows wanted r =
     bindr (call_reply r) (\<lambda>x. case x of
       BatchReply h rows \<Rightarrow>
         if length rows \<noteq> length wanted then Inl (Failure ''executor_response'' 502)
         else if \<not> list_all2 row_bound wanted rows then Inl (Failure ''executor_response'' 502)
         else Inr rows
     | _ \<Rightarrow> Inl (Failure ''executor_response'' 502))"

fun apply_rows :: "(nat \<Rightarrow> rat) \<Rightarrow> rat \<Rightarrow> snapshot \<Rightarrow> reply_row list \<Rightarrow> wattempt list cmd_op" where
  "apply_rows clk m n [] s = (s, Inr [])"
| "apply_rows clk m n (Result g a # rows) s =
     andthen_cmd (cmd_observation clk m a n) (\<lambda>v.
     andthen_cmd (apply_rows (\<lambda>k. clk (4 + k)) m n rows) (\<lambda>vs t. (t, Inr (v # vs)))) s"
| "apply_rows clk m n (Refused g e # rows) s =
     andthen_cmd (uncertain clk (f_attempt_id g) (err_code e)) (\<lambda>_. apply_rows (\<lambda>k. clk (4 + k)) m n rows) s"
| "apply_rows clk m n (_ # rows) s = apply_rows (\<lambda>k. clk (4 + k)) m n rows s"

fun caught :: "exn \<Rightarrow> bool" where
  "caught (Failure c n) = True"
| "caught OSError = True"
| "caught ValueError = True"
| "caught _ = False"

definition batch_commands :: "(nat \<Rightarrow> rat) \<Rightarrow> rat \<Rightarrow> snapshot \<Rightarrow> wattempt list \<Rightarrow> reply res \<Rightarrow> wattempt list cmd_op" where
  "batch_commands clk m n attempts r s =
     (if attempts = [] then (s, Inr [])
      else
        case (case batch_rows (map fence_of_attempt attempts) r of
                Inl x \<Rightarrow> (s, Inl x) | Inr rows \<Rightarrow> apply_rows clk m n rows s) of
          (t, Inr vs) \<Rightarrow> (t, Inr vs)
        | (t, Inl x) \<Rightarrow>
            if caught x then
              (case uncertain_all (\<lambda>k. clk (256 + k)) (map wa_id attempts) ''executor_reply_unknown'' t of
                 (u, Inl y) \<Rightarrow> (u, Inl y) | (u, Inr _) \<Rightarrow> (u, Inl x))
            else (t, Inl x))"

end
