(* ===== verification/Work_Commands_Props.thy ===== *)
theory Work_Commands_Props
  imports Work_Commands Exec_Service_Props Work_Records_Props
begin

text \<open>
  The controller and the executor together: an executor that answers a command is never taken
  for an inconsistent one, and a command whose answer is missing, refused or inconsistent leaves
  none of its attempts in a state that claims to know what the executor does.
\<close>

section \<open>What the executor answers names what was asked\<close>

lemma fenced_answer:
  assumes "ledger_inv l" and "fenced l i g d = Inr v"
  shows "fence_of v = \<lparr>f_attempt_id = i, f_generation = g, f_plan_digest = d\<rparr>"
  using fenced_ok(3) [OF assms] fencedD(2,3) [OF assms(2)] by (simp add: fence_of_def vid_def)

lemma fenced_by_answer: "ledger_inv (sup_ledger s) \<Longrightarrow> fenced_by asked s = Inr v \<Longrightarrow> fence_of v = item_fence asked"
  by (simp add: fenced_by_def fenced_answer item_fence_def fence.truncate_def)

lemma same_plan_fence: "v_plan v = v_plan u \<Longrightarrow> v_plan_digest v = v_plan_digest u \<Longrightarrow> fence_of v = fence_of u"
  by (simp add: fence_of_def)

lemma txn_answer:
  assumes "txn f s = (t, Inr v)" and "\<And>l. f (sup_ledger s) = Inr (l, v) \<Longrightarrow> P"
  shows P
  using assms by (auto simp: txn_def split: sum.splits prod.splits)

lemma renew_answer: "ledger_inv l \<Longrightarrow> renew q now m l = Inr (t, v) \<Longrightarrow> fence_of v = item_fence q"
  by (elim renew_cases) (auto simp: item_fence_def fence.truncate_def dest!: fenced_answer intro: same_plan_fence [THEN trans])

lemma reject_answer: "ledger_inv l \<Longrightarrow> reject p now obs l = Inr (t, v) \<Longrightarrow> fence_of v = plan_fence p"
  by (auto simp: reject_def Let_def plan_fence_def new_value_def fence_of_def split: option.splits sum.splits if_splits
      dest!: fenced_answer [unfolded fence_of_def])

lemma release_answer: "ledger_inv l \<Longrightarrow> release f l = Inr (t, v) \<Longrightarrow> fence_of v = item_fence f"
  by (elim release_cases)
    (auto simp: item_fence_def fence.truncate_def released_def dest!: fenced_answer intro: same_plan_fence [THEN trans])

text \<open>An operation on items whose results are of the attempt the item names.\<close>

definition answers :: "('a \<Rightarrow> bool) \<Rightarrow> ('a \<Rightarrow> fence) \<Rightarrow> (item_world \<Rightarrow> 'a \<Rightarrow> attempt_value sup_op) \<Rightarrow> bool" where
  "answers ok key f \<longleftrightarrow> (\<forall>w x s t v. ok x \<longrightarrow> ledger_inv (sup_ledger s) \<longrightarrow> (\<forall>u. sup_run UNIV u (iw_others w u)) \<longrightarrow>
     f w x s = (t, Inr v) \<longrightarrow> fence_of v = key x)"

lemma sup_renew_answers: "answers (\<lambda>_. True) item_fence (\<lambda>w. sup_renew (iw_env w))"
  by (auto simp: answers_def sup_renew_def andthen_def lift_def split: sum.splits if_splits elim!: txn_answer intro: renew_answer)

lemma reject_absent_answers: "answers (\<lambda>_. True) plan_fence (\<lambda>w p. reject_absent (iw_env w) p legacy)"
  by (auto simp: answers_def reject_absent_def andthen_def lift_def plan_fence_def split: sum.splits if_splits
      elim!: txn_answer intro: reject_answer [unfolded plan_fence_def] fenced_answer)

lemma admit_answer:
  assumes inv: "ledger_inv l" and a: "valid_admission a" and new: "get l (plan_attempt_id (adm_plan a)) = None"
    and r: "admit a slot b now m l = Inr (t, v, created)"
  shows "fence_of v = plan_fence (adm_plan a)"
  using r
proof (cases rule: admit_cases)
  case (fresh k w)
  have "valid_plan (adm_plan a)" using valid_admissionD [OF a] by simp
  then have "ledger_inv k" using reserve_inv [OF inv] fresh(3) by blast
  from renew_answer [OF this fresh(4)] have "fence_of v = item_fence (adm_lease a)" .
  also have "item_fence (adm_lease a) = plan_fence (adm_plan a)"
    using a by (auto simp: valid_admission_def admission_binding_def item_fence_def fence.truncate_def plan_fence_def split: if_splits)
  finally show ?thesis .
qed (use new in simp)

lemma prepare_answers: "answers valid_admission (\<lambda>a. plan_fence (adm_plan a)) (\<lambda>w. prepare (iw_env w))"
  unfolding answers_def
proof (intro allI impI)
  fix w a s t v
  assume a: "valid_admission a" and inv: "ledger_inv (sup_ledger s)" and r: "prepare (iw_env w) a s = (t, Inr v)"
  let ?p = "adm_plan a"
  have id: "\<exists>u. check_identity (sup_settings s) ?p = Inr u"
    using r by (cases "check_identity (sup_settings s) ?p") (auto simp: prepare_def Let_def andthen_def lift_def)
  show "fence_of v = plan_fence ?p"
  proof (cases "get (sup_ledger s) (plan_attempt_id ?p)")
    case (Some u)
    then have "fenced (sup_ledger s) (plan_attempt_id ?p) (plan_generation ?p) (digest_of_plan ?p) = Inr v"
      using r id by (auto simp: prepare_def Let_def andthen_def lift_def)
    then show ?thesis using fenced_answer [OF inv] by (simp add: plan_fence_def)
  next
    case None
    obtain k x where k: "attempt_admission (iw_env w) a s = (k, x)" by force
    have step: "prepare (iw_env w) a s = (case x of Inl y \<Rightarrow> if refused y then txn (reject ?p (wall (env_clock (iw_env w) 1)) None) k else (k, Inl y)
        | Inr (u, created) \<Rightarrow> andthen (if created then queue_preparation u else give ()) (\<lambda>_. give u) k)"
      using id None k by (auto simp: prepare_def Let_def andthen_def lift_def split: sum.splits)
    show ?thesis
    proof (cases x)
      case (Inl y)
      have "ledger_inv (sup_ledger k)" using attempt_admission_run [OF a, of s "iw_env w"] inv k by (metis fst_conv led.run_inv sup_run_def)
      then show ?thesis using r step Inl by (auto split: if_splits elim!: txn_answer intro: reject_answer)
    next
      case (Inr z)
      obtain u created where z: "z = (u, created)" by force
      have "v = u" using r step Inr z by (auto simp: andthen_def give_def split: prod.splits sum.splits if_splits)
      moreover obtain slot b now m l where "admit a slot b now m (sup_ledger s) = Inr (l, u, created)"
        using k Inr z by (auto simp: attempt_admission_def andthen_def lift_def txn_def split: sum.splits prod.splits)
      ultimately show ?thesis using admit_answer [OF inv a None] by blast
    qed
  qed
qed

lemma start_answers:
  assumes inv: "ledger_inv (sup_ledger s)" and r: "start e asked s = (t, Inr v)"
  shows "fence_of v = item_fence asked"
proof -
  obtain u where u: "fenced_by asked s = Inr u" using r by (auto simp: start_def andthen_def lift_def split: sum.splits)
  obtain k w first where k: "txn (start_requested asked (env_clock e 0)) s = (k, Inr (w, first))"
    using r u by (auto simp: start_def andthen_def lift_def fail_def split: sum.splits prod.splits if_splits)
  have v: "v = w" using r u k by (auto simp: start_def andthen_def lift_def fail_def give_def split: sum.splits prod.splits if_splits)
  have "start_requested asked (env_clock e 0) (sup_ledger s) = Inr (sup_ledger k, w, first)"
    using k by (auto simp: txn_def split: sum.splits)
  then have "v_plan w = v_plan u \<and> v_plan_digest w = v_plan_digest u"
    using u by (auto simp: start_requested_def fenced_by_def Let_def split: if_splits option.splits)
  then show ?thesis using fenced_by_answer [OF inv u] same_plan_fence v by metis
qed

lemma run_progress:
  assumes "sup_run I s t" and "ledger_inv (sup_ledger s)" and "get (sup_ledger s) i = Some u" and "get (sup_ledger t) i = Some v"
  shows "fence_of v = fence_of u"
proof -
  have "ledger_progress (sup_ledger s) (sup_ledger t)" using assms(1,2) led.run_rel by (auto simp: sup_run_def)
  then have "same_plan u v" using assms(3,4) unfolding ledger_progress_def value_progress_def by fastforce
  then show ?thesis by (simp add: same_plan_def fence_of_def)
qed

lemma stop_answers:
  assumes inv: "ledger_inv (sup_ledger s)" and r: "request_stop e asked reason s = (t, Inr v)"
  shows "fence_of v = item_fence asked"
proof -
  obtain u where u: "fenced_by asked s = Inr u" using r by (auto simp: request_stop_def andthen_def lift_def split: sum.splits)
  have "v = u \<or> get (sup_ledger t) (f_attempt_id asked) = Some v"
    using r u by (auto simp: request_stop_def andthen_def lift_def give_def split: sum.splits prod.splits if_splits option.splits)
  moreover have "sup_run {f_attempt_id asked} s t" using request_stop_run [of asked s e reason] r by simp
  ultimately have "fence_of v = fence_of u" using run_progress inv fenced_vid [OF u] by metis
  then show ?thesis using fenced_by_answer [OF inv u] by simp
qed

lemma release_commit_answer:
  assumes "ledger_inv (sup_ledger s)" and "release_commit asked v s = (t, Inr w)"
  shows "fence_of w = item_fence asked"
  using assms by (auto simp: release_commit_def andthen_def lift_def fail_def split: sum.splits if_splits elim!: txn_answer intro: release_answer)

lemma sup_release_answers:
  assumes inv: "ledger_inv (sup_ledger s)" and o: "\<And>u. sup_run UNIV u (others u)" and r: "sup_release e others asked s = (t, Inr w)"
  shows "fence_of w = item_fence asked"
proof -
  obtain v where v: "fenced_by asked s = Inr v" using r by (auto simp: sup_release_def split: sum.splits)
  let ?s = "s\<lparr>sup_releasing := f_attempt_id asked # sup_releasing s\<rparr>"
  have "ledger_inv (sup_ledger (others ?s))" using o [of ?s] inv led.run_inv by (auto simp: sup_run_def)
  then have i: "ledger_inv (sup_ledger (if references (v_plan v) \<noteq> [] then forget_hashes (f_attempt_id asked) (others ?s) else others ?s))"
    by (simp add: forget_hashes_def)
  have "v = w \<or> txn (release asked) s = (t, Inr w) \<or>
      (\<exists>k. release_commit asked v (if references (v_plan v) \<noteq> [] then forget_hashes (f_attempt_id asked) (others ?s) else others ?s) = (k, Inr w))"
    using r v by (auto simp: sup_release_def Let_def split: sum.splits if_splits prod.splits)
  then show ?thesis using fenced_by_answer [OF inv v] release_answer [OF inv] release_commit_answer [OF i]
    by (auto elim!: txn_answer)
qed

lemma control_answers: "answers (\<lambda>_. True) item_fence (control_op a)"
  unfolding answers_def
proof (intro allI impI)
  fix w :: item_world and x s t v
  assume inv: "ledger_inv (sup_ledger s)" and o: "\<forall>u. sup_run UNIV u (iw_others w u)" and r: "control_op a w x s = (t, Inr v)"
  show "fence_of v = item_fence x"
  proof (cases a)
    case Act_observe
    then show ?thesis using r fenced_by_answer [OF inv] by (auto simp: control_op_def lift_def)
  next
    case Act_release
    then show ?thesis using r o sup_release_answers [OF inv, of "iw_others w"] by (simp add: control_op_def)
  qed (use r start_answers [OF inv] stop_answers [OF inv] in \<open>auto simp: control_op_def\<close>)
qed

section \<open>Rows the controller accepts\<close>

lemma public_fence: "public v = Inr a \<Longrightarrow> result_fence a = fence_of v"
  by (auto simp: public_def public_of_def result_fence_def fence_of_def split: if_splits)

lemma dispatch_rows_bound:
  assumes f: "answers ok key f" and runs: "item_runs ok (attempt_item key f)" and w: "world_ok world"
    and "list_all ok xs" and "ledger_inv (sup_ledger (svc_sup sv))"
  shows "list_all2 row_bound (map key xs) (snd (dispatch_rows (attempt_item key f) key world n xs sv))"
  using assms(4,5)
proof (induction xs arbitrary: n sv)
  case (Cons x xs)
  let ?sv = "sv\<lparr>svc_sup := iw_before (world n) (svc_sup sv)\<rparr>"
  obtain sv1 r where step: "attempt_item key f (world n) x ?sv = (sv1, r)" by force
  have o: "\<forall>u. sup_run UNIV u (iw_others (world n) u)" using w by (simp add: world_ok_def)
  have before: "sup_run UNIV (svc_sup sv) (svc_sup ?sv)" using w by (simp add: world_ok_def)
  then have i0: "ledger_inv (sup_ledger (svc_sup ?sv))" using Cons.prems(2) led.run_inv unfolding sup_run_def by blast
  have "sup_run UNIV (svc_sup ?sv) (svc_sup sv1)"
    using runs o Cons.prems(1) step unfolding item_runs_def by (metis fst_conv list.pred_inject(2))
  then have i1: "ledger_inv (sup_ledger (svc_sup sv1))" using i0 led.run_inv unfolding sup_run_def by blast
  have "row_bound (key x) row" if row: "r = Inr row" for row
  proof -
    obtain t v a where "f (world n) x (svc_sup ?sv) = (t, Inr v)" "public v = Inr a" "row = Result (key x) a"
      using step row by (auto simp: attempt_item_def split: prod.splits sum.splits)
    moreover then have "fence_of v = key x" using f Cons.prems(1) i0 o unfolding answers_def by (metis list.pred_inject(2))
    ultimately show ?thesis by (simp add: row_bound_def public_fence)
  qed
  then have "row_bound (key x) (case r of Inl e \<Rightarrow> Refused (key x) (service_error e) | Inr row \<Rightarrow> row)"
    by (cases r) (simp_all add: row_bound_def)
  moreover have "list_all2 row_bound (map key xs) (snd (dispatch_rows (attempt_item key f) key world (Suc n) xs sv1))"
    using Cons.IH i1 Cons.prems(1) by simp
  ultimately show ?case using step by (simp add: split_beta)
qed simp

text \<open>The messages of the controller that change an attempt or ask for its state.\<close>

fun attempt_message :: "message \<Rightarrow> bool" where
  "attempt_message (Prepare _ _) = True"
| "attempt_message (RejectAbsent _ _) = True"
| "attempt_message (Renew _ _) = True"
| "attempt_message (Control _ _ _) = True"
| "attempt_message _ = False"

lemma batch_reply_bound:
  assumes "answers ok key f" and "item_runs ok (attempt_item key f)" and "world_ok world" and "list_all ok xs"
    and "ledger_inv (sup_ledger (svc_sup sv))" and "batch_reply r (attempt_item key f) key world xs sv = (sv', Inr (BatchReply h rows))"
  shows "list_all2 row_bound (map key xs) rows"
  using dispatch_rows_bound [OF assms(1-5), of 0] assms(6) by (auto simp: batch_reply_def split: prod.splits)

lemma bound_reply_bound:
  assumes "answers ok key f" and "item_runs ok (attempt_item key f)" and "world_ok world" and "list_all ok xs"
    and "ledger_inv (sup_ledger (svc_sup sv))" and "bound_reply r (attempt_item key f) key world xs sv = (sv', Inr (BatchReply h rows))"
  shows "list_all2 row_bound (map key xs) rows"
  using assms(6) batch_reply_bound [OF assms(1-5)] by (auto simp: bound_reply_def split: sum.splits)

lemma answers_mono: "answers ok key f \<Longrightarrow> (\<And>x. ok' x \<Longrightarrow> ok x) \<Longrightarrow> answers ok' key f"
  by (auto simp: answers_def)

text \<open>
  C29: the controller accepts what a correct executor answers. Let the controller ask about some of
  its attempts (admission, rejection of an absent attempt, renewal, start, observation, stop,
  release), let the executor authorise the request and answer it in any reachable state, whatever
  happens beside it. Then every row of the answer passes the binding check of the controller, so
  a batch is never marked uncertain because its rows do not fit the request.
\<close>

theorem executor_answers_bind:
  assumes "sup_reach (svc_sup sv)" and "valid_message m" and "attempt_message m" and "world_ok world"
    and "dispatch world m uid sv = (sv', Inr (BatchReply h rows))" and "asked_fences m = map fence_of_attempt attempts"
  shows "batch_rows (map fence_of_attempt attempts) (Inr (BatchReply h rows)) = Inr rows"
proof -
  have inv: "ledger_inv (sup_ledger (svc_sup sv))" using sup.reach_inv [OF assms(1)] led.reach_inv by (simp add: sup_inv_def)
  have r: "dispatch_message world m sv = (sv', Inr (BatchReply h rows))"
    using assms(5) by (auto simp: dispatch_def split: sum.splits)
  have "list_all2 row_bound (asked_fences m) rows"
    using assms(3)
  proof (cases m)
    case (Prepare q xs)
    then show ?thesis using r assms(2) bound_reply_bound [OF prepare_answers message_items_run(1) assms(4) _ inv]
      by (simp add: batch_def)
  next
    case (RejectAbsent q ps)
    then show ?thesis using r assms(2) bound_reply_bound [OF answers_mono [OF reject_absent_answers] message_items_run(2) assms(4) _ inv]
      by (simp add: batch_def)
  next
    case (Renew q ls)
    then show ?thesis using r batch_reply_bound [OF sup_renew_answers message_items_run(3) assms(4) all_True inv] by simp
  next
    case (Control q a fs)
    then show ?thesis using r batch_reply_bound [OF control_answers message_items_run(4) assms(4) all_True inv] by simp
  qed simp_all
  then show ?thesis using assms(6) by (auto simp: batch_rows_def call_reply_def dest: list_all2_lengthD)
qed

definition ex_observe :: message where
  "ex_observe = Control \<lparr>req_version = 1, req_id = ex_id (CHR ''5'')\<rparr> Act_observe [fence_of_attempt ex_wattempt]"

lemma ex_observe_valid: "valid_message ex_observe"
proof -
  have "Digest (digest_of_plan ex_plan1)" by (simp add: digest_of_plan_def digest_Digest)
  moreover have "Identity (ex_id (CHR ''a''))" "Identity (ex_id (CHR ''5''))" by code_simp+
  ultimately show ?thesis
    by (simp add: ex_observe_def batch_def valid_request_def valid_fence_def fence_of_attempt_def ex_wattempt_def new_attempt_def
        ex_plan1_def ex_plan_def Revision_def)
qed

theorem executor_answers_bind_witness:
  "\<exists>h row sv'. dispatch (\<lambda>_. ex_world) ex_observe 0 \<lparr>svc_sup = ex_sup2, svc_streams = []\<rparr> = (sv', Inr (BatchReply h [row])) \<and>
     batch_rows [fence_of_attempt ex_wattempt] (Inr (BatchReply h [row])) = Inr [row]"
proof -
  let ?sv = "\<lparr>svc_sup = ex_sup2, svc_streams = []\<rparr>"
  obtain sv' h row where d: "dispatch (\<lambda>_. ex_world) ex_observe 0 ?sv = (sv', Inr (BatchReply h [row]))"
    by (simp add: dispatch_def ex_observe_def authorize_def batch_reply_def split_beta)
  moreover have "batch_rows (map fence_of_attempt [ex_wattempt]) (Inr (BatchReply h [row])) = Inr [row]"
    by (rule executor_answers_bind [OF _ ex_observe_valid _ ex_world_ok d])
      (simp_all add: ex_sup2_reach ex_observe_def item_fence_def fence.truncate_def fence_of_attempt_def)
  ultimately show ?thesis by auto
qed

end
