(* ===== verification/Work_Channel.thy ===== *)
theory Work_Channel
  imports Contributors Exec_Service
begin

text \<open>
  The command channel to contributors (\<open>src/ficc/workloads/channel.py\<close>): a command waits for the
  contributor's poll, is delivered once under the connection lease it was accepted under, and its
  future is resolved by the reply of that delivery only. The coroutines are cut at their awaits:
  \<open>request\<close> into \<open>request_begin\<close> and \<open>request_end\<close>, \<open>exchange\<close> into \<open>exchange_open\<close>, one
  \<open>exchange_turn\<close> per round of its loop, and \<open>exchange_close\<close>. Pending commands are objects that
  the table and the waiting request share: they live in a store, and their index is their identity.
  Waking a sleeping poll is a matter of time only and is left out.
\<close>

datatype command_future = Waiting | Answered reply | Raised exn

record pending_command =
  pn_message :: message
  pn_session_id :: string
  pn_fingerprint :: string
  pn_delivered :: bool
  pn_future :: command_future

record channel =
  ch_objects :: "pending_command list"
  ch_pending :: "(string \<times> nat) list"
  ch_polling :: "string list"
  ch_closed :: bool

definition new_channel :: channel where
  "new_channel = \<lparr>ch_objects = [], ch_pending = [], ch_polling = [], ch_closed = False\<rparr>"

text \<open>The readings of one step: the clocks for \<open>guard\<close> and the deferred check of the caller.\<close>

record turn =
  tn_now :: rat
  tn_m1 :: rat
  tn_m2 :: rat
  tn_check :: "unit res"

definition turn_guard :: "contributor_settings \<Rightarrow> turn \<Rightarrow> string \<Rightarrow> string \<Rightarrow> string \<Rightarrow> contributors \<Rightarrow> unit res" where
  "turn_guard cfg tn node sid fingerprint con = guard cfg (tn_now tn) (tn_m1 tn) (tn_m2 tn) node sid fingerprint con"

definition channel_session :: "contributor_settings \<Rightarrow> turn \<Rightarrow> string \<Rightarrow> contributors \<Rightarrow> session res" where
  "channel_session cfg tn node con =
     (case map_of (co_sessions con) node of
        None \<Rightarrow> Inl (Failure ''contributor_disconnected'' 409)
      | Some c \<Rightarrow> bindr (turn_guard cfg tn node (se_id c) (se_fingerprint c) con) (\<lambda>_. Inr c))"

fun is_set_offer :: "message \<Rightarrow> bool" where
  "is_set_offer (SetOffer _ _ _ _) = True"
| "is_set_offer _ = False"

definition new_command :: "message \<Rightarrow> session \<Rightarrow> pending_command" where
  "new_command m c = \<lparr>pn_message = m, pn_session_id = se_id c, pn_fingerprint = se_fingerprint c, pn_delivered = False, pn_future = Waiting\<rparr>"

definition request_begin :: "contributor_settings \<Rightarrow> turn \<Rightarrow> contributors \<Rightarrow> string \<Rightarrow> message \<Rightarrow> channel \<Rightarrow> channel \<times> nat res" where
  "request_begin cfg tn con node m ch =
     (if \<not> valid_message m then (ch, Inl ValueError)
      else if is_set_offer m then (ch, Inl (Failure ''local_consent'' 403))
      else if ch_closed ch \<or> map_of (ch_pending ch) node \<noteq> None then (ch, Inl (Failure ''executor_busy'' 409))
      else case bindr (channel_session cfg tn node con) (\<lambda>c. bindr (tn_check tn) (\<lambda>_. Inr c)) of
        Inl x \<Rightarrow> (ch, Inl x)
      | Inr c \<Rightarrow>
          let k = length (ch_objects ch)
          in (ch\<lparr>ch_objects := ch_objects ch @ [new_command m c], ch_pending := AList.update node k (ch_pending ch)\<rparr>, Inr k))"

text \<open>
  The end of a request: its future is done, or the timeout passed. The command is forgotten unless
  another one took its place.
\<close>

definition forget :: "string \<Rightarrow> nat \<Rightarrow> channel \<Rightarrow> channel" where
  "forget node k ch =
     (if map_of (ch_pending ch) node = Some k then ch\<lparr>ch_pending := AList.delete node (ch_pending ch)\<rparr> else ch)"

definition request_end :: "contributor_settings \<Rightarrow> turn \<Rightarrow> contributors \<Rightarrow> string \<Rightarrow> nat \<Rightarrow> channel \<Rightarrow> channel \<times> reply res" where
  "request_end cfg tn con node k ch =
     (let p = ch_objects ch ! k in
      (forget node k ch,
       case pn_future p of
         Waiting \<Rightarrow> Inl (Failure ''executor_reply_unknown'' 504)
       | Raised x \<Rightarrow> Inl x
       | Answered r \<Rightarrow>
           bindr (turn_guard cfg tn node (pn_session_id p) (pn_fingerprint p) con) (\<lambda>_. bindr (tn_check tn) (\<lambda>_. Inr r))))"

text \<open>\<open>set_result\<close> and \<open>set_exception\<close> on a future that is not done.\<close>

definition resolved_with :: "command_future \<Rightarrow> pending_command \<Rightarrow> pending_command" where
  "resolved_with v p = (if pn_future p = Waiting then p\<lparr>pn_future := v\<rparr> else p)"

definition resolve :: "nat \<Rightarrow> command_future \<Rightarrow> channel \<Rightarrow> channel" where
  "resolve k v ch = ch\<lparr>ch_objects := (ch_objects ch)[k := resolved_with v (ch_objects ch ! k)]\<rparr>"

definition node_lease_changed :: exn where
  "node_lease_changed = Failure ''node_lease_changed'' 409"

definition bound :: "contributor_settings \<Rightarrow> turn \<Rightarrow> contributors \<Rightarrow> string \<Rightarrow> nat \<Rightarrow> string \<Rightarrow> string \<Rightarrow> channel \<Rightarrow> channel \<times> unit res" where
  "bound cfg tn con node k sid fingerprint ch =
     (let p = ch_objects ch ! k in
      if (pn_session_id p, pn_fingerprint p) \<noteq> (sid, fingerprint) then (resolve k (Raised node_lease_changed) ch, Inl node_lease_changed)
      else (ch, turn_guard cfg tn node sid fingerprint con))"

text \<open>The exchange message: a session and the response to the last command, or none.\<close>

record exchange_message =
  xm_session_id :: string
  xm_response :: "json option"

definition accept_response :: "contributor_settings \<Rightarrow> (json \<Rightarrow> reply res) \<Rightarrow> turn \<Rightarrow> contributors \<Rightarrow> string \<Rightarrow> string \<Rightarrow> string \<Rightarrow> json
    \<Rightarrow> channel \<Rightarrow> channel \<times> unit res" where
  "accept_response cfg validate tn con node sid fingerprint response ch =
     (if length (encoded response) > MAX_REPLY then (ch, Inl (Failure ''response_limit'' 413))
      else case validate response of
        Inl x \<Rightarrow> (ch, Inl x)
      | Inr r \<Rightarrow>
          if rep_node_id (reply_head r) \<noteq> node \<or> rep_deployment_id (reply_head r) \<noteq> cfg_deployment_id cfg
          then (ch, Inl (Failure ''executor_identity'' 403))
          else (case map_of (ch_pending ch) node of
              None \<Rightarrow> (ch, Inr ())
            | Some k \<Rightarrow>
                if pn_delivered (ch_objects ch ! k) \<and> rep_id (reply_head r) = message_id (pn_message (ch_objects ch ! k))
                then (case bound cfg tn con node k sid fingerprint ch of
                    (ch1, Inl x) \<Rightarrow> (ch1, Inl x)
                  | (ch1, Inr _) \<Rightarrow> (resolve k (Answered r) ch1, Inr ()))
                else (ch, Inr ())))"

definition exchange_open :: "contributor_settings \<Rightarrow> (json \<Rightarrow> reply res) \<Rightarrow> turn \<Rightarrow> contributors \<Rightarrow> string \<Rightarrow> exchange_message
    \<Rightarrow> channel \<Rightarrow> channel \<times> string res" where
  "exchange_open cfg validate tn con fingerprint m ch =
     (case bindr (authenticate (tn_now tn) fingerprint False (co_db con)) (\<lambda>(n, _).
           bindr (turn_guard cfg tn (cn_id n) (xm_session_id m) fingerprint con) (\<lambda>_. Inr (cn_id n))) of
        Inl x \<Rightarrow> (ch, Inl x)
      | Inr node \<Rightarrow>
          if node \<in> set (ch_polling ch) then (ch, Inl (Failure ''executor_busy'' 409))
          else (case xm_response m of
              None \<Rightarrow> (ch\<lparr>ch_polling := node # ch_polling ch\<rparr>, Inr node)
            | Some response \<Rightarrow>
                (case accept_response cfg validate tn con node (xm_session_id m) fingerprint response ch of
                   (ch1, Inl x) \<Rightarrow> (ch1, Inl x)
                 | (ch1, Inr _) \<Rightarrow> (ch1\<lparr>ch_polling := node # ch_polling ch1\<rparr>, Inr node))))"

definition exchange_close :: "string \<Rightarrow> channel \<Rightarrow> channel" where
  "exchange_close node ch = ch\<lparr>ch_polling := removeAll node (ch_polling ch)\<rparr>"

text \<open>One round of the loop: \<open>Inr (Some m)\<close> delivers, \<open>Inr None\<close> waits; an exception ends the poll.\<close>

definition exchange_turn :: "contributor_settings \<Rightarrow> turn \<Rightarrow> contributors \<Rightarrow> string \<Rightarrow> string \<Rightarrow> string \<Rightarrow> channel \<Rightarrow> channel \<times> message option res" where
  "exchange_turn cfg tn con node sid fingerprint ch =
     (case turn_guard cfg tn node sid fingerprint con of
        Inl x \<Rightarrow> (ch, Inl x)
      | Inr _ \<Rightarrow>
          (case map_of (ch_pending ch) node of
             None \<Rightarrow> (ch, Inr None)
           | Some k \<Rightarrow>
               if pn_delivered (ch_objects ch ! k) then (ch, Inr None)
               else (case bound cfg tn con node k sid fingerprint ch of
                   (ch1, Inl x) \<Rightarrow> (ch1, Inl x)
                 | (ch1, Inr _) \<Rightarrow>
                     (case tn_check tn of
                        Inl x \<Rightarrow> (resolve k (Raised x) ch1, Inl x)
                      | Inr _ \<Rightarrow> (ch1\<lparr>ch_objects := (ch_objects ch1)[k := (ch_objects ch1 ! k)\<lparr>pn_delivered := True\<rparr>]\<rparr>,
                          Inr (Some (pn_message (ch_objects ch1 ! k))))))))"

definition channel_close :: "channel \<Rightarrow> channel" where
  "channel_close ch =
     (let stopped = fold (\<lambda>k. resolve k (Raised (Failure ''executor_stopped'' 503))) (map snd (ch_pending ch)) ch
      in stopped\<lparr>ch_closed := True, ch_pending := []\<rparr>)"

end
