(* ===== verification/Work_Channel_Props.thy ===== *)
theory Work_Channel_Props
  imports Work_Channel Contributors_Props
begin

text \<open>
  At-most-once delivery on the command channel: every run of the channel, in any interleaving of
  requests and polls of any number of contributors, delivers a command at most once and resolves
  it only with the reply to that delivery.
\<close>

section \<open>Runs\<close>

text \<open>A run with the deliveries it made: the contributor that polled and the command it got.\<close>

inductive channel_run :: "contributor_settings \<Rightarrow> (json \<Rightarrow> reply res) \<Rightarrow> channel \<Rightarrow> (string \<times> nat) list \<Rightarrow> bool" for cfg validate where
  run_new: "channel_run cfg validate new_channel []"
| run_begin: "channel_run cfg validate ch ds \<Longrightarrow> request_begin cfg tn con node m ch = (t, rb) \<Longrightarrow> channel_run cfg validate t ds"
| run_end: "channel_run cfg validate ch ds \<Longrightarrow> request_end cfg tn con node k ch = (t, re) \<Longrightarrow> channel_run cfg validate t ds"
| run_open: "channel_run cfg validate ch ds \<Longrightarrow> exchange_open cfg validate tn con f xm ch = (t, ro) \<Longrightarrow> channel_run cfg validate t ds"
| run_deliver: "channel_run cfg validate ch ds \<Longrightarrow> exchange_turn cfg tn con node sid f ch = (t, Inr (Some m)) \<Longrightarrow>
    map_of (ch_pending ch) node = Some k \<Longrightarrow> channel_run cfg validate t (ds @ [(node, k)])"
| run_wait: "channel_run cfg validate ch ds \<Longrightarrow> exchange_turn cfg tn con node sid f ch = (t, rt) \<Longrightarrow>
    (\<nexists>m. rt = Inr (Some m)) \<Longrightarrow> channel_run cfg validate t ds"
| run_done: "channel_run cfg validate ch ds \<Longrightarrow> channel_run cfg validate (exchange_close node ch) ds"
| run_stop: "channel_run cfg validate ch ds \<Longrightarrow> channel_run cfg validate (channel_close ch) ds"

definition table_ok :: "channel \<Rightarrow> bool" where
  "table_ok ch \<longleftrightarrow> distinct (map fst (ch_pending ch)) \<and> distinct (map snd (ch_pending ch)) \<and>
     (\<forall>(node, k)\<in>set (ch_pending ch). k < length (ch_objects ch))"

definition delivered_ok :: "channel \<Rightarrow> (string \<times> nat) list \<Rightarrow> bool" where
  "delivered_ok ch ds \<longleftrightarrow> distinct (map snd ds) \<and>
     (\<forall>(node, k)\<in>set ds. k < length (ch_objects ch) \<and> pn_delivered (ch_objects ch ! k)) \<and>
     (\<forall>(node, k)\<in>set (ch_pending ch). pn_delivered (ch_objects ch ! k) \<longrightarrow> (node, k) \<in> set ds)"

definition answered_ok :: "contributor_settings \<Rightarrow> channel \<Rightarrow> (string \<times> nat) list \<Rightarrow> bool" where
  "answered_ok cfg ch ds \<longleftrightarrow> (\<forall>k r. k < length (ch_objects ch) \<and> pn_future (ch_objects ch ! k) = Answered r \<longrightarrow>
     (rep_node_id (reply_head r), k) \<in> set ds \<and> rep_id (reply_head r) = message_id (pn_message (ch_objects ch ! k)) \<and>
     rep_deployment_id (reply_head r) = cfg_deployment_id cfg)"

definition channel_inv :: "contributor_settings \<Rightarrow> channel \<Rightarrow> (string \<times> nat) list \<Rightarrow> bool" where
  "channel_inv cfg ch ds \<longleftrightarrow> table_ok ch \<and> delivered_ok ch ds \<and> answered_ok cfg ch ds"

section \<open>Small steps\<close>

lemma pending_entry: "map_of (ch_pending ch) node = Some k \<Longrightarrow> table_ok ch \<Longrightarrow> (node, k) \<in> set (ch_pending ch) \<and> k < length (ch_objects ch)"
  by (auto simp: table_ok_def dest!: map_of_SomeD)

lemma resolve_simps [simp]: "ch_pending (resolve k v ch) = ch_pending ch" "length (ch_objects (resolve k v ch)) = length (ch_objects ch)"
  by (simp_all add: resolve_def)

lemma resolve_nth:
  "j < length (ch_objects ch) \<Longrightarrow> ch_objects (resolve k v ch) ! j = (if j = k then resolved_with v (ch_objects ch ! k) else ch_objects ch ! j)"
  by (simp add: resolve_def nth_list_update)

lemma resolve_inv:
  assumes inv: "channel_inv cfg ch ds"
    and v: "\<And>r. v = Answered r \<Longrightarrow> (rep_node_id (reply_head r), k) \<in> set ds \<and>
        rep_id (reply_head r) = message_id (pn_message (ch_objects ch ! k)) \<and> rep_deployment_id (reply_head r) = cfg_deployment_id cfg"
  shows "channel_inv cfg (resolve k v ch) ds"
proof -
  have "table_ok (resolve k v ch)" using inv by (simp add: channel_inv_def table_ok_def)
  moreover have "delivered_ok (resolve k v ch) ds"
  proof -
    have "pn_delivered (ch_objects (resolve k v ch) ! j) = pn_delivered (ch_objects ch ! j)" if "j < length (ch_objects ch)" for j
      using that by (simp add: resolve_nth resolved_with_def)
    moreover have "\<forall>(node, j)\<in>set (ch_pending ch). j < length (ch_objects ch)" using inv by (simp add: channel_inv_def table_ok_def)
    ultimately show ?thesis using inv unfolding channel_inv_def delivered_ok_def by fastforce
  qed
  moreover have "answered_ok cfg (resolve k v ch) ds"
    using inv v by (auto simp: channel_inv_def answered_ok_def resolve_nth resolved_with_def split: if_splits)
  ultimately show ?thesis by (simp add: channel_inv_def)
qed

lemma smaller_table_inv:
  assumes "channel_inv cfg ch ds" and "ch_objects t = ch_objects ch" and "ch_pending t = filter P (ch_pending ch)"
  shows "channel_inv cfg t ds"
  using assms unfolding channel_inv_def table_ok_def delivered_ok_def answered_ok_def by (auto simp: distinct_map_filter)

lemma bound_inv:
  assumes inv: "channel_inv cfg ch ds" and b: "bound cfg tn con node k sid f ch = (t, r)"
  shows "channel_inv cfg t ds \<and> (r = Inr u \<longrightarrow> t = ch)"
  using resolve_inv [OF inv, of "Raised node_lease_changed" k] inv b by (auto simp: bound_def Let_def node_lease_changed_def split: if_splits)

lemma update_fresh: "map_of xs k = None \<Longrightarrow> AList.update k v xs = xs @ [(k, v)]"
  by (induction xs) (auto split: if_splits)

lemma begin_inv:
  assumes inv: "channel_inv cfg ch ds" and r: "request_begin cfg tn con node m ch = (t, r)"
  shows "channel_inv cfg t ds"
proof (cases "t = ch")
  case False
  obtain c where free: "map_of (ch_pending ch) node = None"
    and t: "t = ch\<lparr>ch_objects := ch_objects ch @ [new_command m c], ch_pending := AList.update node (length (ch_objects ch)) (ch_pending ch)\<rparr>"
    using r False by (auto simp: request_begin_def Let_def split: if_splits sum.splits)
  have pend: "ch_pending t = ch_pending ch @ [(node, length (ch_objects ch))]"
    using free by (simp add: t update_fresh)
  have old: "table_ok ch" "delivered_ok ch ds" "answered_ok cfg ch ds" using inv by (simp_all add: channel_inv_def)
  have lt: "(n, k) \<in> set (ch_pending ch) \<Longrightarrow> k < length (ch_objects ch)" for n k using old(1) by (auto simp: table_ok_def)
  have "node \<notin> fst ` set (ch_pending ch)" using free by (simp add: map_of_eq_None_iff)
  moreover have "length (ch_objects ch) \<notin> snd ` set (ch_pending ch)" using lt by fastforce
  ultimately have "table_ok t"
    using old(1) lt unfolding table_ok_def pend by (fastforce simp: t)
  moreover have "delivered_ok t ds"
  proof -
    have "(n, k) \<in> set ds" if "(n, k) \<in> set (ch_pending t)" "pn_delivered (ch_objects t ! k)" for n k
    proof -
      have "k \<noteq> length (ch_objects ch)" using that(2) by (auto simp: t new_command_def)
      then have "(n, k) \<in> set (ch_pending ch)" using that(1) by (simp add: pend)
      then show ?thesis using that(2) lt old(2) by (auto simp: t nth_append delivered_ok_def)
    qed
    moreover have "k < length (ch_objects t) \<and> pn_delivered (ch_objects t ! k)" if "(n, k) \<in> set ds" for n k
      using old(2) that by (auto simp: t nth_append delivered_ok_def)
    ultimately show ?thesis using old(2) by (auto simp: delivered_ok_def)
  qed
  moreover have "answered_ok cfg t ds"
    using old(3) by (auto simp: answered_ok_def t nth_append less_Suc_eq new_command_def)
  ultimately show ?thesis by (simp add: channel_inv_def)
qed (simp add: inv)

lemma forget_inv:
  assumes "channel_inv cfg ch ds"
  shows "channel_inv cfg (forget node k ch) ds"
proof (cases "map_of (ch_pending ch) node = Some k")
  case True
  then show ?thesis by (intro smaller_table_inv [OF assms]) (simp_all add: forget_def AList.delete_eq)
qed (simp add: forget_def assms)

lemma accept_inv:
  assumes inv: "channel_inv cfg ch ds" and r: "accept_response cfg validate tn con node sid f response ch = (t, r)"
  shows "channel_inv cfg t ds"
proof (cases "t = ch")
  case False
  obtain x k where x: "rep_node_id (reply_head x) = node" "rep_deployment_id (reply_head x) = cfg_deployment_id cfg"
    and k: "map_of (ch_pending ch) node = Some k" "pn_delivered (ch_objects ch ! k)" "rep_id (reply_head x) = message_id (pn_message (ch_objects ch ! k))"
    and b: "t = fst (bound cfg tn con node k sid f ch) \<or> (\<exists>u. bound cfg tn con node k sid f ch = (u, Inr ()) \<and> t = resolve k (Answered x) u)"
    using r False by (auto simp: accept_response_def split: if_splits sum.splits option.splits prod.splits)
  have "table_ok ch" using inv by (simp add: channel_inv_def)
  then have "(node, k) \<in> set ds" using pending_entry [OF k(1)] k(2) inv by (auto simp: channel_inv_def delivered_ok_def)
  then have "channel_inv cfg (resolve k (Answered x) ch) ds" using x k by (intro resolve_inv [OF inv]) simp
  then show ?thesis using b bound_inv [OF inv, of tn con node k sid f] by (metis fst_conv prod.collapse)
qed (simp add: inv)

lemma polling_inv: "channel_inv cfg (u\<lparr>ch_polling := ps\<rparr>) ds = channel_inv cfg u ds"
  by (simp add: channel_inv_def table_ok_def delivered_ok_def answered_ok_def)

lemma open_inv:
  assumes inv: "channel_inv cfg ch ds" and r: "exchange_open cfg validate tn con f xm ch = (t, r)"
  shows "channel_inv cfg t ds"
proof (cases "bindr (authenticate (tn_now tn) f False (co_db con)) (\<lambda>(n, _).
    bindr (turn_guard cfg tn (cn_id n) (xm_session_id xm) f con) (\<lambda>_. Inr (cn_id n)))")
  case (Inr node)
  show ?thesis
  proof (cases "node \<in> set (ch_polling ch) \<or> xm_response xm = None")
    case False
    then obtain response where x: "xm_response xm = Some response" by auto
    obtain u y where u: "accept_response cfg validate tn con node (xm_session_id xm) f response ch = (u, y)" by force
    have "channel_inv cfg u ds" by (rule accept_inv [OF inv u])
    moreover have "t = u \<or> t = u\<lparr>ch_polling := node # ch_polling u\<rparr>"
      using r Inr False x u unfolding exchange_open_def by (cases y) simp_all
    ultimately show ?thesis by (auto simp: polling_inv)
  qed (use r Inr inv in \<open>auto simp: exchange_open_def polling_inv split: if_splits\<close>)
qed (use r inv in \<open>simp add: exchange_open_def\<close>)

lemma turn_cases:
  assumes "exchange_turn cfg tn con node sid f ch = (t, r)"
  shows "t = ch \<and> (\<nexists>m. r = Inr (Some m)) \<or> (\<exists>k. map_of (ch_pending ch) node = Some k \<and> \<not> pn_delivered (ch_objects ch ! k) \<and>
     ((\<exists>u x. bound cfg tn con node k sid f ch = (u, x) \<and> (t = u \<or> (\<exists>y. t = resolve k (Raised y) u)) \<and> (\<nexists>m. r = Inr (Some m))) \<or>
      bound cfg tn con node k sid f ch = (ch, Inr ()) \<and> r = Inr (Some (pn_message (ch_objects ch ! k))) \<and>
      t = ch\<lparr>ch_objects := (ch_objects ch)[k := (ch_objects ch ! k)\<lparr>pn_delivered := True\<rparr>]\<rparr>))"
proof -
  have "bound cfg tn con node k sid f ch = (u, Inr ()) \<Longrightarrow> u = ch" for k u by (auto simp: bound_def Let_def split: if_splits)
  then show ?thesis using assms unfolding exchange_turn_def by (auto split: sum.splits option.splits if_splits prod.splits)
qed

lemma deliver_inv:
  assumes inv: "channel_inv cfg ch ds" and k: "map_of (ch_pending ch) node = Some k" "\<not> pn_delivered (ch_objects ch ! k)"
  shows "channel_inv cfg (ch\<lparr>ch_objects := (ch_objects ch)[k := (ch_objects ch ! k)\<lparr>pn_delivered := True\<rparr>]\<rparr>) (ds @ [(node, k)])"
proof -
  let ?t = "ch\<lparr>ch_objects := (ch_objects ch)[k := (ch_objects ch ! k)\<lparr>pn_delivered := True\<rparr>]\<rparr>"
  have tab: "table_ok ch" and del: "delivered_ok ch ds" and ans: "answered_ok cfg ch ds" using inv by (simp_all add: channel_inv_def)
  have lt: "k < length (ch_objects ch)" "(node, k) \<in> set (ch_pending ch)" using pending_entry [OF k(1) tab] by simp_all
  have nth: "ch_objects ?t ! j = (if j = k then (ch_objects ch ! k)\<lparr>pn_delivered := True\<rparr> else ch_objects ch ! j)" for j
    using lt by (simp add: nth_list_update)
  have new: "k \<notin> snd ` set ds" using del k(2) by (auto simp: delivered_ok_def)
  have "distinct (map snd (ch_pending ch))" using tab by (simp add: table_ok_def)
  then have one: "n = node" if "(n, k) \<in> set (ch_pending ch)" for n
    using that lt(2) by (metis distinct_map inj_onD prod.inject snd_conv)
  have "table_ok ?t" using tab by (simp add: table_ok_def)
  moreover have "delivered_ok ?t (ds @ [(node, k)])"
  proof -
    have "(n, j) \<in> set (ds @ [(node, k)])" if "(n, j) \<in> set (ch_pending ?t)" "pn_delivered (ch_objects ?t ! j)" for n j
      using that one del by (cases "j = k") (auto simp: nth delivered_ok_def)
    moreover have "j < length (ch_objects ?t) \<and> pn_delivered (ch_objects ?t ! j)" if "(n, j) \<in> set (ds @ [(node, k)])" for n j
      using that del lt(1) by (cases "j = k") (auto simp: nth delivered_ok_def)
    moreover have "distinct (map snd (ds @ [(node, k)]))" using del new by (auto simp: delivered_ok_def)
    ultimately show ?thesis unfolding delivered_ok_def by blast
  qed
  moreover have "pn_future (ch_objects ?t ! j) = pn_future (ch_objects ch ! j)" "pn_message (ch_objects ?t ! j) = pn_message (ch_objects ch ! j)"
    "length (ch_objects ?t) = length (ch_objects ch)" for j using nth [of j] by (cases "j = k"; simp)+
  then have "answered_ok cfg ?t (ds @ [(node, k)])"
    using ans unfolding answered_ok_def by simp
  ultimately show ?thesis by (simp add: channel_inv_def)
qed

lemma close_inv:
  assumes "channel_inv cfg ch ds"
  shows "channel_inv cfg (channel_close ch) ds"
proof -
  let ?f = "\<lambda>k. resolve k (Raised (Failure ''executor_stopped'' 503))"
  have "channel_inv cfg u ds \<Longrightarrow> channel_inv cfg (fold ?f ks u) ds" for ks u
    by (induction ks arbitrary: u) (auto intro: resolve_inv)
  then have "channel_inv cfg (fold ?f (map snd (ch_pending ch)) ch) ds" using assms by blast
  then have "channel_inv cfg ((fold ?f (map snd (ch_pending ch)) ch)\<lparr>ch_closed := True, ch_pending := []\<rparr>) ds"
    by (rule smaller_table_inv [where P = "\<lambda>_. False"]) simp_all
  then show ?thesis by (simp add: channel_close_def Let_def)
qed

lemma run_channel_inv: "channel_run cfg validate ch ds \<Longrightarrow> channel_inv cfg ch ds"
proof (induction rule: channel_run.induct)
  case run_new
  then show ?case by (simp add: channel_inv_def table_ok_def delivered_ok_def answered_ok_def new_channel_def)
next
  case (run_begin ch ds tn con node m t rb)
  then show ?case by (blast intro: begin_inv)
next
  case (run_end ch ds tn con node k t re)
  then show ?case using forget_inv by (auto simp: request_end_def Let_def)
next
  case (run_open ch ds tn con f xm t ro)
  then show ?case by (blast intro: open_inv)
next
  case (run_deliver ch ds tn con node sid f t m k)
  then show ?case using turn_cases [OF run_deliver.hyps(2)] deliver_inv by fastforce
next
  case (run_wait ch ds tn con node sid f t rt)
  from turn_cases [OF run_wait.hyps(2)] run_wait.hyps(3) show ?case
    using run_wait.IH bound_inv [OF run_wait.IH] resolve_inv by (elim disjE exE conjE) (auto, blast+)
next
  case (run_done ch ds node)
  then show ?case by (simp add: exchange_close_def polling_inv)
next
  case (run_stop ch ds)
  then show ?case by (blast intro: close_inv)
qed

text \<open>
  C30: commands are delivered at most once and answered by their own reply. In every interleaving
  of requests, polls and a shutdown, no command is handed out twice, whichever contributor polls;
  and a request returns a reply only if its command was delivered to the contributor that replied,
  the reply names exactly this command and this deployment, and the connection lease under which
  the command was accepted is still held by an authenticated contributor.
\<close>

theorem command_delivered_once:
  assumes "channel_run cfg validate ch ds"
  shows "distinct (map snd ds) \<and>
    (\<forall>k<length (ch_objects ch). \<forall>tn con node t r. request_end cfg tn con node k ch = (t, Inr r) \<longrightarrow>
       (rep_node_id (reply_head r), k) \<in> set ds \<and> rep_id (reply_head r) = message_id (pn_message (ch_objects ch ! k)) \<and>
       rep_deployment_id (reply_head r) = cfg_deployment_id cfg \<and>
       guard cfg (tn_now tn) (tn_m1 tn) (tn_m2 tn) node (pn_session_id (ch_objects ch ! k)) (pn_fingerprint (ch_objects ch ! k)) con = Inr ())"
proof -
  have inv: "channel_inv cfg ch ds" by (rule run_channel_inv [OF assms])
  have "pn_future (ch_objects ch ! k) = Answered r \<and>
      guard cfg (tn_now tn) (tn_m1 tn) (tn_m2 tn) node (pn_session_id (ch_objects ch ! k)) (pn_fingerprint (ch_objects ch ! k)) con = Inr ()"
    if "request_end cfg tn con node k ch = (t, Inr r)" for tn con node k t r
    using that by (auto simp: request_end_def Let_def bindr_Inr turn_guard_def split: command_future.splits)
  then show ?thesis using inv by (simp add: channel_inv_def delivered_ok_def answered_ok_def) blast
qed

section \<open>A delivery\<close>

definition ex_turn :: turn where
  "ex_turn = \<lparr>tn_now = 100, tn_m1 = 51, tn_m2 = 51, tn_check = Inr ()\<rparr>"

definition ex_session :: session where
  "ex_session = (new_session ''s1'' ''f1'' 50)\<lparr>se_sequence := 1, se_deadline := 70\<rparr>"

definition ex_live :: contributors where
  "ex_live = ex_con\<lparr>co_sessions := [(ex_id (CHR ''1''), ex_session)]\<rparr>"

definition ex_question :: message where
  "ex_question = Snapshot \<lparr>req_version = 1, req_id = ex_id (CHR ''5'')\<rparr> None"

definition ex_failure :: reply where
  "ex_failure = FailureReply \<lparr>rep_version = 1, rep_id = ex_id (CHR ''5''), rep_deployment_id = ex_id (CHR ''d''), rep_node_id = ex_id (CHR ''1'')\<rparr>
     \<lparr>err_code = ''busy'', err_message = ''busy''\<rparr>"

definition ex_channel :: "bool \<Rightarrow> command_future \<Rightarrow> channel" where
  "ex_channel d v = new_channel\<lparr>ch_objects := [(new_command ex_question ex_session)\<lparr>pn_delivered := d, pn_future := v\<rparr>],
     ch_pending := [(ex_id (CHR ''1''), 0)]\<rparr>"

lemma ex_auth_live: "authenticate 100 ''f1'' False (co_db ex_live) = Inr ((enrolled_node ex_invitation 100)\<lparr>cn_revision := 2\<rparr>, ex_cert\<lparr>ct_status := Current\<rparr>)"
  by (simp add: ex_live_def ex_con_def authenticate_def joined_def ex_dbs find_row_def ex_cert_def enrolled_node_def ex_invitation_def
      certificate_active_def ex_leaf_def)

lemma ex_guard: "turn_guard ex_cfg ex_turn (ex_id (CHR ''1'')) ''s1'' ''f1'' ex_live = Inr ()"
proof -
  have "connection ex_cfg 51 51 (ex_id (CHR ''1'')) ''s1'' ''f1'' ex_live = Inr ()"
    by (simp add: connection_def ex_live_def ex_session_def new_session_def ex_cfg_def)
  then show ?thesis by (simp add: turn_guard_def guard_def ex_turn_def ex_auth_live)
qed

lemma ex_exchange:
  "request_begin ex_cfg ex_turn ex_live (ex_id (CHR ''1'')) ex_question new_channel = (ex_channel False Waiting, Inr 0)"
  "exchange_turn ex_cfg ex_turn ex_live (ex_id (CHR ''1'')) ''s1'' ''f1'' (ex_channel False Waiting) = (ex_channel True Waiting, Inr (Some ex_question))"
  "exchange_open ex_cfg (\<lambda>_. Inr ex_failure) ex_turn ex_live ''f1'' \<lparr>xm_session_id = ''s1'', xm_response = Some JNull\<rparr> (ex_channel True Waiting)
     = ((ex_channel True (Answered ex_failure))\<lparr>ch_polling := [ex_id (CHR ''1'')]\<rparr>, Inr (ex_id (CHR ''1'')))"
proof -
  have "Identity (ex_id (CHR ''5''))" by code_simp
  then have v: "valid_message ex_question" by (simp add: ex_question_def valid_request_def)
  have s: "map_of (co_sessions ex_live) (ex_id (CHR ''1'')) = Some ex_session" "se_id ex_session = ''s1''" "se_fingerprint ex_session = ''f1''"
    by (simp_all add: ex_live_def ex_session_def new_session_def)
  have c: "tn_check ex_turn = Inr ()" by (simp add: ex_turn_def)
  show "request_begin ex_cfg ex_turn ex_live (ex_id (CHR ''1'')) ex_question new_channel = (ex_channel False Waiting, Inr 0)"
    using v by (simp add: request_begin_def channel_session_def s ex_guard c Let_def)
      (simp add: ex_question_def new_channel_def ex_channel_def new_command_def)
  have b: "bound ex_cfg ex_turn ex_live (ex_id (CHR ''1'')) 0 ''s1'' ''f1'' (ex_channel d Waiting) = (ex_channel d Waiting, Inr ())" for d
    by (simp add: bound_def Let_def ex_guard) (simp add: ex_channel_def new_command_def s)
  show "exchange_turn ex_cfg ex_turn ex_live (ex_id (CHR ''1'')) ''s1'' ''f1'' (ex_channel False Waiting) = (ex_channel True Waiting, Inr (Some ex_question))"
  proof -
    have p: "map_of (ch_pending (ex_channel False Waiting)) (ex_id (CHR ''1'')) = Some 0" "\<not> pn_delivered (ch_objects (ex_channel False Waiting) ! 0)"
      "pn_message (ch_objects (ex_channel False Waiting) ! 0) = ex_question" by (simp_all add: ex_channel_def new_command_def)
    show ?thesis unfolding exchange_turn_def ex_guard p option.case sum.case b prod.case c
      using p(2) by (simp add: ex_channel_def new_command_def)
  qed
  have "encoded JNull = ''null''" by code_simp
  then have "length (encoded JNull) \<le> MAX_REPLY" by (simp add: MAX_REPLY_def)
  then have "accept_response ex_cfg (\<lambda>_. Inr ex_failure) ex_turn ex_live (ex_id (CHR ''1'')) ''s1'' ''f1'' JNull (ex_channel True Waiting)
      = (resolve 0 (Answered ex_failure) (ex_channel True Waiting), Inr ())"
    using b [of True] by (simp add: accept_response_def)
      (simp add: ex_failure_def ex_cfg_def ex_channel_def new_command_def ex_question_def)
  moreover have "resolve 0 (Answered ex_failure) (ex_channel True Waiting) = ex_channel True (Answered ex_failure)"
    by (simp add: resolve_def ex_channel_def resolved_with_def new_command_def)
  moreover have "cn_id ((enrolled_node ex_invitation 100)\<lparr>cn_revision := 2\<rparr>) = ex_id (CHR ''1'')" by (simp add: enrolled_node_def ex_invitation_def)
  moreover have "ch_polling (ex_channel d v) = []" for d v by (simp add: ex_channel_def new_channel_def)
  moreover have "authenticate (tn_now ex_turn) ''f1'' False (co_db ex_live) = Inr ((enrolled_node ex_invitation 100)\<lparr>cn_revision := 2\<rparr>, ex_cert\<lparr>ct_status := Current\<rparr>)"
    using ex_auth_live by (simp add: ex_turn_def)
  ultimately show "exchange_open ex_cfg (\<lambda>_. Inr ex_failure) ex_turn ex_live ''f1'' \<lparr>xm_session_id = ''s1'', xm_response = Some JNull\<rparr> (ex_channel True Waiting)
     = ((ex_channel True (Answered ex_failure))\<lparr>ch_polling := [ex_id (CHR ''1'')]\<rparr>, Inr (ex_id (CHR ''1'')))"
    by (simp add: exchange_open_def ex_guard)
qed

theorem command_delivered_once_witness:
  "\<exists>t. request_end ex_cfg ex_turn ex_live (ex_id (CHR ''1'')) 0 ((ex_channel True (Answered ex_failure))\<lparr>ch_polling := [ex_id (CHR ''1'')]\<rparr>) = (t, Inr ex_failure) \<and>
     (rep_node_id (reply_head ex_failure), 0) \<in> set [(ex_id (CHR ''1''), 0 :: nat)]"
proof -
  let ?ch = "(ex_channel True (Answered ex_failure))\<lparr>ch_polling := [ex_id (CHR ''1'')]\<rparr>"
  have "channel_run ex_cfg (\<lambda>_. Inr ex_failure) (ex_channel False Waiting) []" by (rule run_begin [OF run_new ex_exchange(1)])
  moreover have "map_of (ch_pending (ex_channel False Waiting)) (ex_id (CHR ''1'')) = Some 0" by (simp add: ex_channel_def)
  ultimately have "channel_run ex_cfg (\<lambda>_. Inr ex_failure) (ex_channel True Waiting) ([] @ [(ex_id (CHR ''1''), 0)])"
    by (rule run_deliver [OF _ ex_exchange(2)])
  then have run: "channel_run ex_cfg (\<lambda>_. Inr ex_failure) ?ch ([] @ [(ex_id (CHR ''1''), 0)])" by (rule run_open [OF _ ex_exchange(3)])
  have "request_end ex_cfg ex_turn ex_live (ex_id (CHR ''1'')) 0 ?ch = (forget (ex_id (CHR ''1'')) 0 ?ch, Inr ex_failure)"
    using ex_guard by (simp add: request_end_def Let_def ex_channel_def new_command_def ex_turn_def ex_session_def new_session_def)
  moreover have "0 < length (ch_objects ?ch)" by (simp add: ex_channel_def)
  ultimately show ?thesis using command_delivered_once [OF run] by (auto simp del: One_nat_def)
qed

end
