(* ===== verification/Access_Store.thy ===== *)
theory Access_Store
  imports Work_Schema
begin

text \<open>
  Users, projects, memberships and assigned resources (\<open>src/ficc/identity_store.py\<close> and
  \<open>src/ficc/resource_store.py\<close>). A \<open>directory\<close> is the tables of the controller database that decide
  who may do what: these four, the credentials of \<open>auth.py\<close>, the policy tables of
  \<open>policy_store.py\<close> and, read only here, the registered machines and folders. Lists stored as JSON
  are lists; every operation is one transaction, which an exception rolls back.
\<close>

section \<open>Scopes\<close>

definition LOCAL_OWNER :: string where
  "LOCAL_OWNER = ''00000000000000000000000000000001''"

definition LOCAL_PROJECT :: string where
  "LOCAL_PROJECT = ''00000000000000000000000000000002''"

definition SCOPES :: "string list" where
  "SCOPES = [''nodes:read'', ''nodes:write'', ''resources:read'', ''observations:read'', ''observations:resources'',
     ''tokens:manage'', ''identities:manage'', ''policies:manage'', ''audit:read'',
     ''jobs:read'', ''jobs:execute'', ''jobs:cancel'', ''jobs:logs'',
     ''federation:read'', ''federation:manage'', ''federation:invoke'',
     ''models:read'', ''models:manage'', ''inference:read'', ''inference:manage'', ''inference:invoke'',
     ''files:read'', ''files:write'', ''files:mode'', ''files:delete'',
     ''data:read'', ''data:export'', ''data:write'', ''data:manage'',
     ''terminals:read'', ''terminals:execute'', ''terminals:stop'',
     ''agents:read'', ''agents:execute'', ''agents:stop'', ''bus:read'', ''bus:send'',
     ''workspaces:read'', ''workspaces:write'', ''modules:read'', ''modules:manage'',
     ''modules:execute'', ''audio:playback'', ''vm:read'', ''vm:power'', ''vm:console'', ''providers:write'',
     ''container:read'', ''container:logs'', ''container:power'',
     ''admin:read'', ''admin:logs'', ''admin:services'', ''admin:power'', ''contributors:read'', ''contributors:manage'']"

definition PROJECT_SCOPES :: "string list" where
  "PROJECT_SCOPES = [''workspaces:read'', ''workspaces:write'', ''modules:read'',
     ''modules:execute'', ''audio:playback'', ''nodes:read'', ''resources:read'',
     ''observations:read'', ''observations:resources'',
     ''jobs:read'', ''jobs:execute'', ''jobs:cancel'', ''jobs:logs'',
     ''federation:read'', ''federation:manage'', ''federation:invoke'',
     ''models:read'', ''models:manage'', ''inference:read'', ''inference:manage'', ''inference:invoke'',
     ''files:read'', ''files:write'', ''files:delete'', ''files:mode'',
     ''data:read'', ''data:export'', ''data:write'', ''data:manage'',
     ''terminals:read'', ''terminals:execute'', ''terminals:stop'',
     ''vm:read'', ''vm:power'', ''vm:console'',
     ''container:read'', ''container:logs'', ''container:power'',
     ''admin:read'', ''admin:logs'', ''admin:services'', ''admin:power'',
     ''contributors:read'', ''contributors:manage'']"

definition MAX_NODES :: nat where
  "MAX_NODES = 64"

text \<open>\<open>sorted(set(xs))\<close> of a list of strings.\<close>

definition sorted_set :: "string list \<Rightarrow> string list" where
  "sorted_set xs = sort (remdups xs)"

text \<open>\<open>str.strip()\<close>: Python's white space among the code points below 256.\<close>

definition is_space :: "char \<Rightarrow> bool" where
  "is_space c \<longleftrightarrow> of_char c \<in> {9, 10, 11, 12, 13, 28, 29, 30, 31, 32, 133, 160 :: nat}"

definition strip :: "string \<Rightarrow> string" where
  "strip s = rev (dropWhile is_space (rev (dropWhile is_space s)))"

lemma set_sorted_set [simp]: "set (sorted_set xs) = set xs"
  by (simp add: sorted_set_def)

lemma distinct_sorted_set [simp]: "distinct (sorted_set xs)"
  by (simp add: sorted_set_def)

lemma sorted_set_empty [simp]: "sorted_set xs = [] \<longleftrightarrow> xs = []"
  by (metis set_empty set_sorted_set)

lemma project_scopes_subset: "set PROJECT_SCOPES \<subseteq> set SCOPES"
  unfolding PROJECT_SCOPES_def SCOPES_def by simp

section \<open>The tables\<close>

text \<open>A row of \<open>identities\<close> or \<open>projects\<close>.\<close>

record named_row =
  nm_id :: string
  nm_label :: string
  nm_disabled :: bool
  nm_revision :: int

record membership_row =
  mb_project_id :: string
  mb_subject_id :: string
  mb_scopes :: "string list"
  mb_revision :: int

record resource_row =
  rs_project_id :: string
  rs_nodes :: "string list"
  rs_roots :: "string list"
  rs_revision :: int

text \<open>The kinds of a principal; the credentials table holds the first four.\<close>

datatype credential_kind = Bootstrap | Session | Token | Remote | Workload | Preview

record credential =
  cd_id :: string
  cd_digest :: string
  cd_kind :: credential_kind
  cd_label :: string
  cd_scopes :: "string list"
  cd_nodes :: "string list option"
  cd_expires :: rat
  cd_csrf :: string
  cd_roots :: "string list option"
  cd_subject_id :: string
  cd_project_id :: string

record publisher_row =
  pb_id :: string
  pb_public_key :: string
  pb_enabled :: bool
  pb_revision :: int

record 'm package_row =
  pk_digest :: string
  pk_publisher :: string
  pk_description :: 'm
  pk_archive :: string
  pk_installed :: rat

record binding_row =
  bn_project_id :: string
  bn_subject_id :: string
  bn_roles :: "string list"
  bn_revision :: int

record policy_state =
  ps_revision :: int
  ps_required :: bool
  ps_active :: "string option"
  ps_previous :: "string option"
  ps_history :: "(int \<times> string) list"

record policy_role =
  ro_id :: string
  ro_label :: string
  ro_description :: string

record policy_manifest =
  mf_format :: string
  mf_version :: int
  mf_id :: string
  mf_release :: string
  mf_publisher :: string
  mf_decision_api :: int
  mf_roles :: "policy_role list"
  mf_files :: "(string \<times> string) list"

record directory =
  dir_identities :: "named_row list"
  dir_projects :: "named_row list"
  dir_memberships :: "membership_row list"
  dir_resources :: "resource_row list"
  dir_credentials :: "credential list"
  dir_machines :: "string list"
  dir_windows :: "string list"
  dir_roots :: "(string \<times> string option) list"
  dir_publishers :: "publisher_row list"
  dir_packages :: "policy_manifest package_row list"
  dir_bindings :: "binding_row list"
  dir_policy_state :: "policy_state option"

type_synonym 'a dir_op = "directory \<Rightarrow> (directory \<times> 'a) res"

definition initialize :: "named_row list \<times> named_row list" where
  "initialize =
     ([\<lparr>nm_id = LOCAL_OWNER, nm_label = ''Local owner'', nm_disabled = False, nm_revision = 0\<rparr>],
      [\<lparr>nm_id = LOCAL_PROJECT, nm_label = ''Local project'', nm_disabled = False, nm_revision = 0\<rparr>])"

definition empty_directory :: directory where
  "empty_directory = \<lparr>dir_identities = fst initialize, dir_projects = snd initialize, dir_memberships = [], dir_resources = [],
     dir_credentials = [], dir_machines = [], dir_windows = [], dir_roots = [], dir_publishers = [], dir_packages = [],
     dir_bindings = [], dir_policy_state = None\<rparr>"

section \<open>Identities and projects\<close>

datatype named_kind = User_kind | Project_kind

definition not_found_identity :: exn where
  "not_found_identity = Failure ''not_found'' 404"

fun named_table :: "named_kind \<Rightarrow> directory \<Rightarrow> named_row list" where
  "named_table User_kind d = dir_identities d"
| "named_table Project_kind d = dir_projects d"

fun set_named_table :: "named_kind \<Rightarrow> named_row list \<Rightarrow> directory \<Rightarrow> directory" where
  "set_named_table User_kind rows d = d\<lparr>dir_identities := rows\<rparr>"
| "set_named_table Project_kind rows d = d\<lparr>dir_projects := rows\<rparr>"

definition get_named :: "named_kind \<Rightarrow> string \<Rightarrow> directory \<Rightarrow> named_row res" where
  "get_named k i d = (case find_row nm_id (named_table k d) i of None \<Rightarrow> Inl not_found_identity | Some r \<Rightarrow> Inr r)"

abbreviation dir_user :: "string \<Rightarrow> directory \<Rightarrow> named_row res" where
  "dir_user \<equiv> get_named User_kind"

abbreviation dir_project :: "string \<Rightarrow> directory \<Rightarrow> named_row res" where
  "dir_project \<equiv> get_named Project_kind"

definition users :: "directory \<Rightarrow> named_row list" where
  "users d = sort_key nm_id (dir_identities d)"

definition find_membership :: "string \<Rightarrow> string \<Rightarrow> directory \<Rightarrow> membership_row option" where
  "find_membership project subject d =
     find_row (\<lambda>m. (mb_project_id m, mb_subject_id m)) (dir_memberships d) (project, subject)"

definition projects_of :: "string \<Rightarrow> directory \<Rightarrow> named_row list" where
  "projects_of subject d =
     (if subject = LOCAL_OWNER then sort_key nm_id (dir_projects d)
      else filter (\<lambda>p. \<not> nm_disabled p \<and>
             (case find_membership (nm_id p) subject d of None \<Rightarrow> False | Some m \<Rightarrow> mb_scopes m \<noteq> []))
           (sort_key nm_id (dir_projects d)))"

definition label_ok :: "string \<Rightarrow> bool" where
  "label_ok label \<longleftrightarrow> \<not> (strip label = [] \<or> length label > 80)"

definition invalid_identity :: exn where
  "invalid_identity = Failure ''invalid_identity'' 400"

definition create_named :: "named_kind \<Rightarrow> string \<Rightarrow> string \<Rightarrow> named_row dir_op" where
  "create_named k token label d =
     bindr (ensure (label_ok label) invalid_identity) (\<lambda>_.
     bindr (ensure (\<not> length (named_table k d) \<ge> 256) (Failure ''capacity'' 409)) (\<lambda>_.
     bindr (ensure (find_row nm_id (named_table k d) token = None) IntegrityError) (\<lambda>_.
     let r = \<lparr>nm_id = token, nm_label = strip label, nm_disabled = False, nm_revision = 0\<rparr> in
     Inr (set_named_table k (add_row r (named_table k d)) d, r))))"

definition owned_by :: "named_kind \<Rightarrow> string \<Rightarrow> credential \<Rightarrow> bool" where
  "owned_by k i c \<longleftrightarrow> (case k of User_kind \<Rightarrow> cd_subject_id c | Project_kind \<Rightarrow> cd_project_id c) = i"

definition update_named :: "named_kind \<Rightarrow> string \<Rightarrow> string \<Rightarrow> bool \<Rightarrow> int \<Rightarrow> named_row dir_op" where
  "update_named k i label disabled revision d =
     bindr (ensure (label_ok label) invalid_identity) (\<lambda>_.
     bindr (ensure (\<not> (i \<in> {LOCAL_OWNER, LOCAL_PROJECT} \<and> disabled)) (Failure ''recovery_required'' 409)) (\<lambda>_.
     bindr (get_named k i d) (\<lambda>r.
     bindr (ensure (nm_revision r = revision) (Failure ''revision_conflict'' 409)) (\<lambda>_.
     let r' = r\<lparr>nm_label := strip label, nm_disabled := disabled, nm_revision := nm_revision r + 1\<rparr>;
         d1 = set_named_table k (put_row nm_id i (\<lambda>_. r') (named_table k d)) d;
         d2 = (if disabled then d1\<lparr>dir_credentials := filter (\<lambda>c. \<not> owned_by k i c) (dir_credentials d1)\<rparr> else d1)
     in Inr (d2, r')))))"

section \<open>Membership\<close>

record member_view =
  mv_subject_id :: string
  mv_scopes :: "string list"
  mv_revision :: int

definition members :: "string \<Rightarrow> directory \<Rightarrow> member_view list res" where
  "members project d =
     bindr (dir_project project d) (\<lambda>_.
     Inr (map (\<lambda>m. \<lparr>mv_subject_id = mb_subject_id m, mv_scopes = mb_scopes m, mv_revision = mb_revision m\<rparr>)
       (sort_key mb_subject_id (filter (\<lambda>m. mb_project_id m = project) (dir_memberships d)))))"

definition put_membership :: "membership_row \<Rightarrow> directory \<Rightarrow> directory" where
  "put_membership m d = d\<lparr>dir_memberships :=
     (if find_membership (mb_project_id m) (mb_subject_id m) d = None then add_row m (dir_memberships d)
      else put_row (\<lambda>x. (mb_project_id x, mb_subject_id x)) (mb_project_id m, mb_subject_id m) (\<lambda>_. m) (dir_memberships d))\<rparr>"

definition membership :: "string \<Rightarrow> string \<Rightarrow> string list \<Rightarrow> int \<Rightarrow> member_view dir_op" where
  "membership project subject scopes revision d =
     bindr (ensure (subject \<noteq> LOCAL_OWNER) (Failure ''recovery_required'' 409)) (\<lambda>_.
     bindr (ensure (set scopes \<subseteq> set PROJECT_SCOPES) (Failure ''invalid_scope'' 400)) (\<lambda>_.
     bindr (dir_project project d) (\<lambda>_.
     bindr (dir_user subject d) (\<lambda>_.
     let row = find_membership project subject d in
     bindr (ensure ((case row of Some m \<Rightarrow> mb_revision m | None \<Rightarrow> 0) = revision) (Failure ''revision_conflict'' 409)) (\<lambda>_.
     bindr (ensure (\<not> (row = None \<and> length (dir_memberships d) \<ge> 4096)) (Failure ''capacity'' 409)) (\<lambda>_.
     let d1 = put_membership \<lparr>mb_project_id = project, mb_subject_id = subject, mb_scopes = sorted_set scopes,
           mb_revision = revision + 1\<rparr> d;
         d2 = (if scopes = [] then d1\<lparr>dir_credentials :=
                 filter (\<lambda>c. \<not> (cd_project_id c = project \<and> cd_subject_id c = subject)) (dir_credentials d1)\<rparr> else d1)
     in Inr (d2, \<lparr>mv_subject_id = subject, mv_scopes = sorted_set scopes, mv_revision = revision + 1\<rparr>)))))))"

definition access :: "string \<Rightarrow> string \<Rightarrow> directory \<Rightarrow> string list res" where
  "access subject project d =
     bindr (dir_user subject d) (\<lambda>u.
     bindr (dir_project project d) (\<lambda>p.
     bindr (ensure (\<not> (nm_disabled u \<or> nm_disabled p)) (Failure ''unauthenticated'' 401)) (\<lambda>_.
     if subject = LOCAL_OWNER then Inr SCOPES
     else case find_membership project subject d of
         None \<Rightarrow> Inl (Failure ''unauthenticated'' 401)
       | Some m \<Rightarrow> if mb_scopes m = [] then Inl (Failure ''unauthenticated'' 401)
                  else Inr (filter (\<lambda>s. s \<in> set PROJECT_SCOPES) (mb_scopes m)))))"

section \<open>Assigned resources\<close>

record resource_view =
  rv_node_ids :: "string list"
  rv_root_ids :: "string list"
  rv_revision :: int

definition get_resources :: "string \<Rightarrow> directory \<Rightarrow> resource_view" where
  "get_resources project d =
     (case find_row rs_project_id (dir_resources d) project of
        None \<Rightarrow> \<lparr>rv_node_ids = [], rv_root_ids = [], rv_revision = 0\<rparr>
      | Some r \<Rightarrow> \<lparr>rv_node_ids = rs_nodes r, rv_root_ids = rs_roots r, rv_revision = rs_revision r\<rparr>)"

definition endpoint_kind :: "string \<Rightarrow> directory \<Rightarrow> string res" where
  "endpoint_kind i d =
     (if i \<in> set (dir_machines d) \<and> i \<in> set (dir_windows d) then Inl (Failure ''endpoint_conflict'' 409)
      else if i \<notin> set (dir_machines d) \<and> i \<notin> set (dir_windows d) then Inl (Failure ''not_found'' 404)
      else Inr (if i \<in> set (dir_machines d) then ''linux-ssh'' else ''windows''))"

fun all_endpoints :: "string list \<Rightarrow> directory \<Rightarrow> unit res" where
  "all_endpoints [] d = Inr ()"
| "all_endpoints (n # ns) d = bindr (endpoint_kind n d) (\<lambda>_. all_endpoints ns d)"

definition invalid_resources :: exn where
  "invalid_resources = Failure ''invalid_resources'' 400"

fun all_roots :: "string list \<Rightarrow> string list \<Rightarrow> directory \<Rightarrow> unit res" where
  "all_roots nodes [] d = Inr ()"
| "all_roots nodes (r # rs) d =
     (case map_of (dir_roots d) r of
        None \<Rightarrow> Inl invalid_resources
      | Some None \<Rightarrow> all_roots nodes rs d
      | Some (Some n) \<Rightarrow> if n \<notin> set nodes then Inl invalid_resources else all_roots nodes rs d)"

definition save_resources :: "string \<Rightarrow> string list \<Rightarrow> string list \<Rightarrow> int \<Rightarrow> resource_view dir_op" where
  "save_resources project nodes roots revision d =
     bindr (ensure (\<not> (length nodes > 2 * MAX_NODES \<or> length roots > 64 \<or> \<not> distinct nodes \<or> \<not> distinct roots \<or>
        \<not> (0 \<le> revision \<and> revision < 2 ^ 53 - 1))) invalid_resources) (\<lambda>_.
     bindr (ensure (find_row nm_id (dir_projects d) project \<noteq> None) (Failure ''not_found'' 404)) (\<lambda>_.
     bindr (ensure (rv_revision (get_resources project d) = revision) (Failure ''revision_conflict'' 409)) (\<lambda>_.
     bindr (all_endpoints nodes d) (\<lambda>_.
     bindr (all_roots nodes roots d) (\<lambda>_.
     let r = \<lparr>rs_project_id = project, rs_nodes = sort nodes, rs_roots = sort roots, rs_revision = revision + 1\<rparr>;
         d1 = d\<lparr>dir_resources := (if find_row rs_project_id (dir_resources d) project = None then add_row r (dir_resources d)
                else put_row rs_project_id project (\<lambda>_. r) (dir_resources d))\<rparr>
     in Inr (d1, get_resources project d1))))))"

datatype resource_kind = Nodes_kind | Roots_kind

fun without :: "resource_kind \<Rightarrow> string \<Rightarrow> resource_row \<Rightarrow> resource_row" where
  "without Nodes_kind i r = (if i \<in> set (rs_nodes r)
     then r\<lparr>rs_nodes := filter (\<lambda>x. x \<noteq> i) (rs_nodes r), rs_revision := rs_revision r + 1\<rparr> else r)"
| "without Roots_kind i r = (if i \<in> set (rs_roots r)
     then r\<lparr>rs_roots := filter (\<lambda>x. x \<noteq> i) (rs_roots r), rs_revision := rs_revision r + 1\<rparr> else r)"

definition remove_resource :: "resource_kind \<Rightarrow> string \<Rightarrow> directory \<Rightarrow> directory" where
  "remove_resource k i d = d\<lparr>dir_resources := map (without k i) (dir_resources d)\<rparr>"

definition delete_node :: "string \<Rightarrow> directory \<Rightarrow> directory" where
  "delete_node i d = (remove_resource Nodes_kind i d)\<lparr>dir_machines := filter (\<lambda>x. x \<noteq> i) (dir_machines d)\<rparr>"

end
