(* ===== verification/Auth.thy ===== *)
theory Auth
  imports Access_Store Contrib_Store
begin

text \<open>
  Expiring credentials and the grants they carry (\<open>src/ficc/auth.py\<close>). The random secrets and
  identities are arguments, \<open>clk n\<close> is the \<open>n\<close>-th reading of \<open>time.time()\<close> and \<open>ext\<close> is the callback
  \<open>external_check\<close> that the external sign-in installs. The callbacks \<open>on_revoke\<close>, \<open>external_rotate\<close>
  and \<open>external_revoke\<close> act on other tables and on open connections; what they are told is part of
  the result.
\<close>

section \<open>Principals\<close>

record auth_principal = principal +
  pr_label :: string
  pr_csrf :: string
  pr_kind :: credential_kind
  pr_expires_at :: rat
  pr_project_nodes :: "string list"
  pr_project_roots :: "string list"

definition local_owner :: "'a principal_scheme \<Rightarrow> bool" where
  "local_owner p \<longleftrightarrow> pr_subject_id p = LOCAL_OWNER"

definition permits_node :: "auth_principal \<Rightarrow> string \<Rightarrow> bool" where
  "permits_node p n \<longleftrightarrow> (case pr_node_ids p of None \<Rightarrow> True | Some ns \<Rightarrow> n \<in> set ns) \<and>
     (local_owner p \<or> n \<in> set (pr_project_nodes p))"

definition effective :: "resource_kind \<Rightarrow> auth_principal \<Rightarrow> string list option" where
  "effective k p =
     (let ceiling = (case k of Nodes_kind \<Rightarrow> pr_node_ids p | Roots_kind \<Rightarrow> pr_root_ids p);
          assigned = (case k of Nodes_kind \<Rightarrow> pr_project_nodes p | Roots_kind \<Rightarrow> pr_project_roots p)
      in if local_owner p then ceiling
         else Some (sorted_set (case ceiling of None \<Rightarrow> assigned | Some c \<Rightarrow> filter (\<lambda>x. x \<in> set c) assigned)))"

text \<open>The project and the subject that a stored document names.\<close>

record owned_value =
  ow_project_id :: "string option"
  ow_subject_id :: "string option"

definition sees_record :: "auth_principal \<Rightarrow> owned_value \<Rightarrow> bool \<Rightarrow> bool" where
  "sees_record p v private \<longleftrightarrow> ow_project_id v = Some (pr_project_id p) \<and>
     (\<not> private \<or> local_owner p \<or> ow_subject_id v = Some (pr_subject_id p))"

definition require_record :: "auth_principal \<Rightarrow> owned_value \<Rightarrow> bool \<Rightarrow> unit res" where
  "require_record p v private = ensure (sees_record p v private) (Failure ''not_found'' 404)"

definition host_allows :: "auth_principal \<Rightarrow> string \<Rightarrow> string option \<Rightarrow> string option \<Rightarrow> bool" where
  "host_allows p scope nid rid \<longleftrightarrow>
     \<not> (scope \<notin> set (pr_scopes p) \<or>
        (case nid of None \<Rightarrow> False | Some n \<Rightarrow> \<not> permits_node p n) \<or>
        (case rid of None \<Rightarrow> False
         | Some r \<Rightarrow> (case pr_root_ids p of None \<Rightarrow> False | Some rs \<Rightarrow> r \<notin> set rs) \<or>
             (nid = None \<and> pr_node_ids p \<noteq> None) \<or>
             (\<not> local_owner p \<and> r \<notin> set (pr_project_roots p))))"

definition require_host :: "auth_principal \<Rightarrow> string \<Rightarrow> string option \<Rightarrow> string option \<Rightarrow> unit res" where
  "require_host p scope nid rid = ensure (host_allows p scope nid rid) (Failure ''denied'' 403)"

text \<open>
  \<open>require\<close> and \<open>permits\<close>: \<open>policy\<close> is the callback \<open>policy_check\<close>, which may change the state \<open>'s\<close> of the
  policy evaluator.
\<close>

type_synonym 's policy_check = "auth_principal \<Rightarrow> string \<Rightarrow> string option \<Rightarrow> string option \<Rightarrow> 's \<Rightarrow> 's \<times> unit res"

definition require :: "'s policy_check option \<Rightarrow> 's policy_check" where
  "require policy p scope nid rid s =
     (case require_host p scope nid rid of
        Inl e \<Rightarrow> (s, Inl e)
      | Inr _ \<Rightarrow> (case policy of None \<Rightarrow> (s, Inr ()) | Some c \<Rightarrow> c p scope nid rid s))"

definition permits :: "'s policy_check option \<Rightarrow> auth_principal \<Rightarrow> string \<Rightarrow> string option \<Rightarrow> string option \<Rightarrow> 's \<Rightarrow> 's \<times> bool res" where
  "permits policy p scope nid rid s =
     (case require policy p scope nid rid s of
        (t, Inr _) \<Rightarrow> (t, Inr True)
      | (t, Inl (Failure code status)) \<Rightarrow> (t, if status = 403 then Inr False else Inl (Failure code status))
      | (t, Inl e) \<Rightarrow> (t, Inl e))"

section \<open>Reading credentials\<close>

record access_entry =
  ae_credential :: credential
  ae_user_disabled :: bool
  ae_project_disabled :: bool
  ae_member_scopes :: "string list option"
  ae_nodes :: "string list option"
  ae_roots :: "string list option"

definition access_row :: "(credential \<Rightarrow> string) \<Rightarrow> string \<Rightarrow> directory \<Rightarrow> access_entry option" where
  "access_row column v d =
     (case find_row column (dir_credentials d) v of
        None \<Rightarrow> None
      | Some c \<Rightarrow>
          (case (find_row nm_id (dir_identities d) (cd_subject_id c), find_row nm_id (dir_projects d) (cd_project_id c)) of
             (Some u, Some p) \<Rightarrow>
               (let r = find_row rs_project_id (dir_resources d) (cd_project_id c) in
                Some \<lparr>ae_credential = c, ae_user_disabled = nm_disabled u, ae_project_disabled = nm_disabled p,
                  ae_member_scopes = map_option mb_scopes (find_membership (cd_project_id c) (cd_subject_id c) d),
                  ae_nodes = map_option rs_nodes r, ae_roots = map_option rs_roots r\<rparr>)
           | _ \<Rightarrow> None))"

definition unauthenticated :: exn where
  "unauthenticated = Failure ''unauthenticated'' 401"

definition external_ok :: "(string \<Rightarrow> string \<Rightarrow> unit res) option \<Rightarrow> credential \<Rightarrow> unit res" where
  "external_ok ext c =
     (if cd_kind c = Remote then (case ext of None \<Rightarrow> Inl unauthenticated | Some f \<Rightarrow> f (cd_id c) (cd_subject_id c)) else Inr ())"

definition permitted_scopes :: "access_entry \<Rightarrow> string list res" where
  "permitted_scopes e =
     (if cd_subject_id (ae_credential e) = LOCAL_OWNER then Inr SCOPES
      else case ae_member_scopes e of
          None \<Rightarrow> Inl unauthenticated
        | Some ms \<Rightarrow> if ms = [] then Inl unauthenticated else Inr (filter (\<lambda>s. s \<in> set PROJECT_SCOPES) ms))"

definition principal_of :: "(string \<Rightarrow> string \<Rightarrow> unit res) option \<Rightarrow> access_entry \<Rightarrow> auth_principal res" where
  "principal_of ext e =
     (let c = ae_credential e in
      bindr (external_ok ext c) (\<lambda>_.
      bindr (ensure (\<not> (ae_user_disabled e \<or> ae_project_disabled e)) unauthenticated) (\<lambda>_.
      bindr (permitted_scopes e) (\<lambda>permitted.
        Inr \<lparr>pr_id = cd_id c, pr_scopes = sorted_set (filter (\<lambda>s. s \<in> set permitted) (cd_scopes c)), pr_node_ids = cd_nodes c,
          pr_root_ids = cd_roots c, pr_subject_id = cd_subject_id c, pr_project_id = cd_project_id c, pr_label = cd_label c,
          pr_csrf = cd_csrf c, pr_kind = cd_kind c, pr_expires_at = cd_expires c,
          pr_project_nodes = (case ae_nodes e of Some ns \<Rightarrow> ns | None \<Rightarrow> []),
          pr_project_roots = (case ae_roots e of Some rs \<Rightarrow> rs | None \<Rightarrow> [])\<rparr>))))"

definition live_entry :: "rat \<Rightarrow> credential_kind list \<Rightarrow> access_entry option \<Rightarrow> access_entry res" where
  "live_entry now kinds row =
     (case row of None \<Rightarrow> Inl unauthenticated
      | Some e \<Rightarrow> if cd_kind (ae_credential e) \<notin> set kinds \<or> cd_expires (ae_credential e) \<le> now then Inl unauthenticated else Inr e)"

definition auth_current :: "(string \<Rightarrow> string \<Rightarrow> unit res) option \<Rightarrow> rat \<Rightarrow> string \<Rightarrow> directory \<Rightarrow> auth_principal res" where
  "auth_current ext now i d = bindr (live_entry now [Session, Token, Remote] (access_row cd_id i d)) (principal_of ext)"

definition resolve_credential :: "(string \<Rightarrow> string \<Rightarrow> unit res) option \<Rightarrow> rat \<Rightarrow> string \<Rightarrow> credential_kind list \<Rightarrow> bool \<Rightarrow> auth_principal dir_op" where
  "resolve_credential ext now v kinds consume d =
     bindr (ensure (\<not> (v = [] \<or> length v > 128)) unauthenticated) (\<lambda>_.
     bindr (live_entry now (if Session \<in> set kinds then kinds @ [Remote] else kinds) (access_row cd_digest (sha256_hex v) d)) (\<lambda>e.
     bindr (principal_of ext e) (\<lambda>p.
       Inr (if consume then d\<lparr>dir_credentials := filter (\<lambda>c. cd_id c \<noteq> cd_id (ae_credential e)) (dir_credentials d)\<rparr> else d, p))))"

section \<open>Issuing\<close>

record issue_request =
  is_kind :: credential_kind
  is_label :: string
  is_scopes :: "string list option"
  is_node_ids :: "string list option"
  is_lifetime :: int
  is_root_ids :: "string list option"
  is_subject_id :: string
  is_project_id :: string

definition issue_label :: "issue_request \<Rightarrow> directory \<Rightarrow> string res" where
  "issue_label q d =
     (if is_label q = ''Local owner'' \<and> is_subject_id q \<noteq> LOCAL_OWNER
      then bindr (dir_user (is_subject_id q) d) (\<lambda>u. Inr (nm_label u)) else Inr (is_label q))"

fun roots_registered :: "string list \<Rightarrow> directory \<Rightarrow> unit res" where
  "roots_registered [] d = Inr ()"
| "roots_registered (r # rs) d =
     (if map_of (dir_roots d) r = None then Inl (Failure ''invalid_roots'' 400) else roots_registered rs d)"

definition issue_resources :: "issue_request \<Rightarrow> directory \<Rightarrow> unit res" where
  "issue_resources q d =
     bindr (case is_node_ids q of None \<Rightarrow> Inr ()
            | Some ns \<Rightarrow> if length ns > MAX_NODES then Inl (Failure ''invalid_nodes'' 400) else all_endpoints ns d) (\<lambda>_.
     case is_root_ids q of None \<Rightarrow> Inr ()
     | Some rs \<Rightarrow> if length rs > 64 then Inl (Failure ''invalid_roots'' 400) else roots_registered rs d)"

definition issue_checks :: "issue_request \<Rightarrow> directory \<Rightarrow> (string \<times> string list) res" where
  "issue_checks q d =
     bindr (access (is_subject_id q) (is_project_id q) d) (\<lambda>permitted.
     bindr (issue_label q d) (\<lambda>label.
     let scopes = sorted_set (case is_scopes q of None \<Rightarrow> permitted | Some s \<Rightarrow> s) in
     bindr (ensure (\<not> (is_kind q \<notin> {Bootstrap, Session, Token, Remote} \<or> \<not> set scopes \<subseteq> set permitted)) (Failure ''denied'' 403)) (\<lambda>_.
     bindr (ensure (\<not> (is_kind q = Remote \<and> is_subject_id q = LOCAL_OWNER)) (Failure ''denied'' 403)) (\<lambda>_.
     bindr (ensure (\<not> (scopes = [] \<or> \<not> set scopes \<subseteq> set SCOPES)) (Failure ''invalid_scope'' 400)) (\<lambda>_.
     bindr (ensure (\<not> (\<not> (1 \<le> is_lifetime q \<and> is_lifetime q \<le> 2592000) \<or> \<not> (1 \<le> length label \<and> length label \<le> 80)))
        (Failure ''invalid_credential'' 400)) (\<lambda>_.
     bindr (issue_resources q d) (\<lambda>_. Inr (label, scopes))))))))"

definition insert_credential :: "credential \<Rightarrow> directory \<Rightarrow> directory res" where
  "insert_credential c d =
     (if list_ex (\<lambda>x. cd_id x = cd_id c \<or> cd_digest x = cd_digest c) (dir_credentials d) then Inl IntegrityError
      else Inr (d\<lparr>dir_credentials := add_row c (dir_credentials d)\<rparr>))"

definition issue_commit :: "rat \<Rightarrow> credential \<Rightarrow> unit dir_op" where
  "issue_commit now c d =
     bindr (access (cd_subject_id c) (cd_project_id c) d) (\<lambda>permitted.
     bindr (ensure (set (cd_scopes c) \<subseteq> set permitted) (Failure ''denied'' 403)) (\<lambda>_.
     let d1 = d\<lparr>dir_credentials := filter (\<lambda>x. \<not> cd_expires x < now) (dir_credentials d)\<rparr> in
     bindr (ensure (\<not> length (dir_credentials d1) \<ge> 512) (Failure ''capacity'' 409)) (\<lambda>_.
     bindr (insert_credential c d1) (\<lambda>d2. Inr (d2, ())))))"

definition new_credential :: "(nat \<Rightarrow> rat) \<Rightarrow> issue_request \<Rightarrow> string \<Rightarrow> string \<Rightarrow> string \<Rightarrow> string \<Rightarrow> string list \<Rightarrow> credential" where
  "new_credential clk q secret i csrf label scopes =
     \<lparr>cd_id = i, cd_digest = sha256_hex secret, cd_kind = is_kind q, cd_label = label, cd_scopes = scopes,
      cd_nodes = is_node_ids q, cd_expires = clk 0 + of_int (is_lifetime q), cd_csrf = csrf, cd_roots = is_root_ids q,
      cd_subject_id = is_subject_id q, cd_project_id = is_project_id q\<rparr>"

text \<open>\<open>_resources\<close> of a new principal: the assignments of its project at that moment.\<close>

definition with_resources :: "credential \<Rightarrow> directory \<Rightarrow> auth_principal" where
  "with_resources c d =
     (let owner = (cd_subject_id c = LOCAL_OWNER); r = get_resources (cd_project_id c) d in
      \<lparr>pr_id = cd_id c, pr_scopes = cd_scopes c, pr_node_ids = cd_nodes c, pr_root_ids = cd_roots c,
       pr_subject_id = cd_subject_id c, pr_project_id = cd_project_id c, pr_label = cd_label c, pr_csrf = cd_csrf c,
       pr_kind = cd_kind c, pr_expires_at = cd_expires c,
       pr_project_nodes = (if owner then [] else rv_node_ids r), pr_project_roots = (if owner then [] else rv_root_ids r)\<rparr>)"

text \<open>The checks and the transaction of \<open>issue\<close> take the store lock separately; \<open>others\<close> acts between them.\<close>

definition auth_issue :: "(directory \<Rightarrow> directory) \<Rightarrow> (nat \<Rightarrow> rat) \<Rightarrow> issue_request \<Rightarrow> string \<Rightarrow> string \<Rightarrow> string \<Rightarrow> directory \<Rightarrow> directory \<times> (string \<times> auth_principal) res" where
  "auth_issue others clk q secret i csrf d =
     (case issue_checks q d of
        Inl e \<Rightarrow> (d, Inl e)
      | Inr (label, scopes) \<Rightarrow>
          (let d1 = others d; c = new_credential clk q secret i csrf label scopes in
           case issue_commit (clk 1) c d1 of
             Inl e \<Rightarrow> (d1, Inl e)
           | Inr (d2, _) \<Rightarrow> (d2, Inr (secret, with_resources c d2))))"

section \<open>Revocation and rotation\<close>

record revocation =
  rk_notice :: "(string \<times> string list option) option"
  rk_audit :: "(string \<times> string) option"

definition revoke :: "string \<Rightarrow> string \<Rightarrow> directory \<Rightarrow> directory \<times> revocation" where
  "revoke i actor d =
     (d\<lparr>dir_credentials := filter (\<lambda>c. cd_id c \<noteq> i) (dir_credentials d)\<rparr>,
      \<lparr>rk_notice = map_option (\<lambda>c. (cd_subject_id c, cd_nodes c)) (find_row cd_id (dir_credentials d) i),
       rk_audit = map_option (\<lambda>c. (cd_subject_id c, cd_project_id c)) (find_row cd_id (dir_credentials d) actor)\<rparr>)"

definition ownership_of :: "(string \<Rightarrow> string \<Rightarrow> unit res) option \<Rightarrow> rat \<Rightarrow> string \<Rightarrow> directory \<Rightarrow> (string \<times> string) res" where
  "ownership_of ext now actor d = bindr (auth_current ext now actor d) (\<lambda>p. Inr (pr_subject_id p, pr_project_id p))"

definition auth_record :: "(string \<Rightarrow> string \<Rightarrow> unit res) option \<Rightarrow> rat \<Rightarrow> string \<Rightarrow> owned_value \<Rightarrow> bool \<Rightarrow> directory \<Rightarrow> auth_principal res" where
  "auth_record ext now actor v private d =
     bindr (auth_current ext now actor d) (\<lambda>p. bindr (require_record p v private) (\<lambda>_. Inr p))"

definition rotated :: "auth_principal \<Rightarrow> credential \<Rightarrow> string list \<Rightarrow> string \<Rightarrow> string \<Rightarrow> string \<Rightarrow> string \<Rightarrow> credential" where
  "rotated p row scopes secret i csrf project =
     \<lparr>cd_id = i, cd_digest = sha256_hex secret, cd_kind = pr_kind p, cd_label = pr_label p, cd_scopes = scopes,
      cd_nodes = cd_nodes row, cd_expires = pr_expires_at p, cd_csrf = csrf, cd_roots = cd_roots row,
      cd_subject_id = pr_subject_id p, cd_project_id = project\<rparr>"

text \<open>
  \<open>rot\<close> is the callback \<open>external_rotate\<close>: the transaction fails with it. The credential row
  exists, since \<open>current\<close> found it under the same lock; the branch without it is never taken.
\<close>

definition switch_project :: "(string \<Rightarrow> string \<Rightarrow> unit res) option \<Rightarrow> (string \<Rightarrow> string \<Rightarrow> unit res) option \<Rightarrow> (nat \<Rightarrow> rat) \<Rightarrow> string \<Rightarrow> string \<Rightarrow> string \<Rightarrow> string \<Rightarrow> string \<Rightarrow> (string \<times> auth_principal) dir_op" where
  "switch_project ext rot clk secret i csrf credential_id project d =
     bindr (auth_current ext (clk 0) credential_id d) (\<lambda>p.
     bindr (ensure (pr_kind p \<in> {Session, Remote}) (Failure ''denied'' 403)) (\<lambda>_.
     bindr (case access (pr_subject_id p) project d of Inl (Failure _ _) \<Rightarrow> Inl (Failure ''denied'' 403) | r \<Rightarrow> r) (\<lambda>permitted.
     case find_row cd_id (dir_credentials d) credential_id of
       None \<Rightarrow> Inl AssertionError
     | Some row \<Rightarrow>
     let scopes = (if pr_kind p = Remote then sorted_set permitted else cd_scopes row) in
     bindr (insert_credential (rotated p row scopes secret i csrf project) d) (\<lambda>d1.
     let d2 = d1\<lparr>dir_credentials := filter (\<lambda>c. cd_id c \<noteq> credential_id) (dir_credentials d1)\<rparr> in
     bindr (case rot of Some f \<Rightarrow> if pr_kind p = Remote then f credential_id i else Inr () | None \<Rightarrow> Inr ()) (\<lambda>_.
     bindr (auth_current ext (clk 1) i d2) (\<lambda>v. Inr (d2, (secret, v))))))))"

record token_view =
  tv_id :: string
  tv_label :: string
  tv_scopes :: "string list"
  tv_node_ids :: "string list option"
  tv_expires_at :: rat
  tv_root_ids :: "string list option"
  tv_subject_id :: string
  tv_project_id :: string

definition tokens :: "rat \<Rightarrow> directory \<Rightarrow> token_view list" where
  "tokens now d = map (\<lambda>c. \<lparr>tv_id = cd_id c, tv_label = cd_label c, tv_scopes = cd_scopes c, tv_node_ids = cd_nodes c,
       tv_expires_at = cd_expires c, tv_root_ids = cd_roots c, tv_subject_id = cd_subject_id c, tv_project_id = cd_project_id c\<rparr>)
     (sort_key cd_label (filter (\<lambda>c. cd_kind c = Token \<and> cd_expires c > now) (dir_credentials d)))"

end
