(* ===== verification/Policy_Store.thy ===== *)
theory Policy_Store
  imports Access_Store
begin

text \<open>
  Signed policy packages and the durable policy state (\<open>src/ficc/policy_packages.py\<close> and
  \<open>src/ficc/policy_store.py\<close>). What is outside the repository is the record \<open>policy_library\<close>: the
  members of a ZIP archive, the JSON reader of a manifest, and the signature check of
  \<open>ssh-keygen -Y verify\<close>. Every exception of those calls is caught and becomes \<open>ValueError\<close>.
\<close>

section \<open>Packages\<close>

definition policy_identifier :: "string \<Rightarrow> bool" where
  "policy_identifier = head_tail is_lower (\<lambda>c. is_lower c \<or> is_digit c \<or> c \<in> set ''_-'') 63"

definition policy_text :: "string \<Rightarrow> nat \<Rightarrow> bool" where
  "policy_text s maximum \<longleftrightarrow> \<not> (\<not> (1 \<le> length s \<and> length s \<le> maximum) \<or> list_ex (\<lambda>c. (of_char c :: nat) < 32) s)"

text \<open>\<open>str.split()\<close> at runs of white space, and the bytes of a hexadecimal digest.\<close>

fun split_space :: "string \<Rightarrow> string \<Rightarrow> string list" where
  "split_space acc [] = (if acc = [] then [] else [rev acc])"
| "split_space acc (c # cs) =
     (if is_space c then (if acc = [] then [] else [rev acc]) @ split_space [] cs else split_space (c # acc) cs)"

fun unhex_bytes :: "string \<Rightarrow> string" where
  "unhex_bytes (a # b # s) = char_of (16 * unhex a + unhex b) # unhex_bytes s"
| "unhex_bytes _ = []"

definition key_prefix :: string where
  "key_prefix = map char_of [0, 0, 0, 11 :: nat] @ ''ssh-ed25519'' @ map char_of [0, 0, 0, 32 :: nat]"

definition key_fingerprint_of :: "string \<Rightarrow> string" where
  "key_fingerprint_of raw =
     ''SHA256:'' @ rev (dropWhile (\<lambda>c. c = CHR ''='') (rev (b64encode (unhex_bytes (sha256_hex raw)))))"

definition public_key :: "string \<Rightarrow> (string \<times> string) res" where
  "public_key v =
     (if length v > 1024 \<or> CHR ''\<newline>'' \<in> set (strip v) then Inl ValueError
      else case split_space [] (strip v) of
          algorithm # encoding # _ \<Rightarrow>
            if algorithm \<noteq> ''ssh-ed25519'' then Inl ValueError
            else (case b64decode encoding of
                    None \<Rightarrow> Inl ValueError
                  | Some raw \<Rightarrow>
                      if take 19 raw \<noteq> key_prefix \<or> length raw \<noteq> 51 then Inl ValueError
                      else Inr (''ssh-ed25519 '' @ encoding, key_fingerprint_of raw))
        | _ \<Rightarrow> Inl ValueError)"

definition path_char :: "char \<Rightarrow> bool" where
  "path_char c \<longleftrightarrow> is_alnum c \<or> c \<in> set ''_-''"

definition payload_part :: "string \<Rightarrow> bool" where
  "payload_part p \<longleftrightarrow> (case p of [] \<Rightarrow> False | c # cs \<Rightarrow> path_char c \<and> list_all (\<lambda>x. path_char x \<or> x = CHR ''.'') cs)"

definition ends_with :: "string \<Rightarrow> string \<Rightarrow> bool" where
  "ends_with suffix s \<longleftrightarrow> length suffix \<le> length s \<and> drop (length s - length suffix) s = suffix"

definition payload_path :: "string \<Rightarrow> bool" where
  "payload_path name \<longleftrightarrow>
     \<not> (length name > 160 \<or> take 1 name = ''/'' \<or> list_ex (\<lambda>p. \<not> payload_part p) (split_on (CHR ''/'') name) \<or>
        \<not> (ends_with ''.rego'' name \<or> ends_with ''.json'' name))"

definition manifest :: "policy_manifest \<Rightarrow> policy_manifest res" where
  "manifest m =
     (if mf_format m \<noteq> ''ficc-policy'' \<or> mf_version m \<noteq> 1 \<or> mf_decision_api m \<noteq> 1 then Inl ValueError
      else if \<not> policy_identifier (mf_id m) \<or> \<not> policy_identifier (mf_publisher m) \<or> \<not> policy_text (mf_release m) 80 then Inl ValueError
      else if \<not> (1 \<le> length (mf_roles m) \<and> length (mf_roles m) \<le> 64) then Inl ValueError
      else if list_ex (\<lambda>r. \<not> policy_identifier (ro_id r) \<or> \<not> policy_text (ro_label r) 80 \<or> \<not> policy_text (ro_description r) 400) (mf_roles m)
           \<or> \<not> distinct (map ro_id (mf_roles m)) then Inl ValueError
      else if \<not> (1 \<le> length (mf_files m) \<and> length (mf_files m) \<le> 64) \<or> \<not> list_ex (\<lambda>(n, _). ends_with ''.rego'' n) (mf_files m)
        then Inl ValueError
      else if list_ex (\<lambda>(n, g). \<not> payload_path n \<or> \<not> Hex64 g) (mf_files m) then Inl ValueError
      else Inr m)"

record zip_member =
  zm_name :: string
  zm_size :: int
  zm_plain :: bool
  zm_data :: "string option"

record policy_library =
  pl_members :: "string \<Rightarrow> zip_member list option"
  pl_decode :: "string \<Rightarrow> policy_manifest option"
  pl_signed :: "string \<Rightarrow> string \<Rightarrow> string \<Rightarrow> string \<Rightarrow> bool"

definition MAX_ARCHIVE :: nat where
  "MAX_ARCHIVE = 2 ^ 19"

definition MAX_PAYLOAD :: int where
  "MAX_PAYLOAD = 2 ^ 23"

definition read_member :: "zip_member list \<Rightarrow> string \<Rightarrow> string res" where
  "read_member ms name =
     (case find_row zm_name ms name of
        None \<Rightarrow> Inl ValueError
      | Some m \<Rightarrow> (case zm_data m of None \<Rightarrow> Inl ValueError
                  | Some data \<Rightarrow> if int (length data) \<noteq> zm_size m then Inl ValueError else Inr data))"

definition size_within :: "zip_member list \<Rightarrow> string \<Rightarrow> int \<Rightarrow> bool" where
  "size_within ms name limit \<longleftrightarrow> (case find_row zm_name ms name of None \<Rightarrow> False | Some m \<Rightarrow> zm_size m \<le> limit)"

fun read_payload :: "zip_member list \<Rightarrow> (string \<times> string) list \<Rightarrow> (string \<times> string) list res" where
  "read_payload ms [] = Inr []"
| "read_payload ms ((name, g) # files) =
     bindr (read_member ms (''payload/'' @ name)) (\<lambda>data.
     if sha256_hex data \<noteq> g then Inl ValueError
     else bindr (read_payload ms files) (\<lambda>rest. Inr ((name, data) # rest)))"

record inspected =
  in_manifest :: policy_manifest
  in_signed :: string
  in_signature :: string
  in_payload :: "(string \<times> string) list"

text \<open>
  \<open>zm_plain\<close> says that a member is a regular file that is not encrypted; \<open>zm_data\<close> is what reading one
  byte more than its declared size gives.
\<close>

definition inspect :: "policy_library \<Rightarrow> string \<Rightarrow> inspected res" where
  "inspect lib raw =
     (if \<not> (1 \<le> length raw \<and> length raw \<le> MAX_ARCHIVE) then Inl ValueError
      else case pl_members lib raw of
          None \<Rightarrow> Inl ValueError
        | Some ms \<Rightarrow>
            if \<not> distinct (map zm_name ms) \<or> \<not> (3 \<le> length ms \<and> length ms \<le> 66) \<or> sum_list (map zm_size ms) > MAX_PAYLOAD
               \<or> list_ex (\<lambda>m. \<not> zm_plain m \<or> zm_size m < 0) ms then Inl ValueError
            else if \<not> size_within ms ''manifest.json'' 65536 \<or> \<not> size_within ms ''manifest.sig'' 8192 then Inl ValueError
            else bindr (read_member ms ''manifest.json'') (\<lambda>signed.
                 bindr (case pl_decode lib signed of None \<Rightarrow> Inl ValueError | Some m \<Rightarrow> manifest m) (\<lambda>m.
                 if set (map zm_name ms) \<noteq> {''manifest.json'', ''manifest.sig''} \<union> set (map (\<lambda>(n, _). ''payload/'' @ n) (mf_files m))
                 then Inl ValueError
                 else bindr (read_payload ms (mf_files m)) (\<lambda>payload.
                      bindr (read_member ms ''manifest.sig'') (\<lambda>signature.
                      Inr \<lparr>in_manifest = m, in_signed = signed, in_signature = signature, in_payload = payload\<rparr>)))))"

definition verify :: "policy_library \<Rightarrow> string \<Rightarrow> string \<Rightarrow> (policy_manifest \<times> string \<times> (string \<times> string) list) res" where
  "verify lib raw key =
     bindr (inspect lib raw) (\<lambda>v.
     bindr (public_key key) (\<lambda>(k, fingerprint).
     if \<not> pl_signed lib (mf_publisher (in_manifest v)) k (in_signature v) (in_signed v) then Inl ValueError
     else Inr (in_manifest v, fingerprint, in_payload v)))"

section \<open>Policy state\<close>

definition revision_ok :: "int \<Rightarrow> bool" where
  "revision_ok r \<longleftrightarrow> 0 \<le> r \<and> r < 2 ^ 53 - 1"

definition DEFAULT_STATE :: policy_state where
  "DEFAULT_STATE = \<lparr>ps_revision = 0, ps_required = False, ps_active = None, ps_previous = None, ps_history = []\<rparr>"

definition state_value :: "policy_state \<Rightarrow> policy_state res" where
  "state_value s =
     (if \<not> revision_ok (ps_revision s) then Inl ValueError
      else if \<not> (case ps_active s of None \<Rightarrow> True | Some g \<Rightarrow> Hex64 g) \<or> \<not> (case ps_previous s of None \<Rightarrow> True | Some g \<Rightarrow> Hex64 g)
        then Inl ValueError
      else if ps_active s \<noteq> None \<and> \<not> ps_required s then Inl ValueError
      else if length (ps_history s) > 64 then Inl ValueError
      else if list_ex (\<lambda>(r, g). \<not> Hex64 g \<or> \<not> (revision_ok r \<and> 1 \<le> r \<and> r \<le> ps_revision s)) (ps_history s) then Inl ValueError
      else Inr s)"

definition get_state :: "directory \<Rightarrow> policy_state res" where
  "get_state d = state_value (case dir_policy_state d of None \<Rightarrow> DEFAULT_STATE | Some s \<Rightarrow> s)"

definition bump :: "policy_state dir_op" where
  "bump d = bindr (get_state d) (\<lambda>s.
     bindr (ensure (revision_ok (ps_revision s)) ValueError) (\<lambda>_.
     let t = s\<lparr>ps_revision := ps_revision s + 1\<rparr> in Inr (d\<lparr>dir_policy_state := Some t\<rparr>, t)))"

definition role_ids :: "string list \<Rightarrow> string list res" where
  "role_ids roles =
     (if length roles > 64 \<or> list_ex (\<lambda>r. \<not> policy_identifier r) roles \<or> \<not> distinct roles then Inl ValueError else Inr (sort roles))"

section \<open>Publishers\<close>

record publisher_view = publisher_row +
  pv_fingerprint :: string

definition publisher_view_of :: "publisher_row \<Rightarrow> publisher_view res" where
  "publisher_view_of r = bindr (public_key (pb_public_key r)) (\<lambda>(_, fingerprint).
     Inr \<lparr>pb_id = pb_id r, pb_public_key = pb_public_key r, pb_enabled = pb_enabled r, pb_revision = pb_revision r,
       pv_fingerprint = fingerprint\<rparr>)"

fun map_res :: "('a \<Rightarrow> 'b res) \<Rightarrow> 'a list \<Rightarrow> 'b list res" where
  "map_res f [] = Inr []"
| "map_res f (x # xs) = bindr (f x) (\<lambda>y. bindr (map_res f xs) (\<lambda>ys. Inr (y # ys)))"

definition publishers :: "directory \<Rightarrow> publisher_view list res" where
  "publishers d = map_res publisher_view_of (sort_key pb_id (dir_publishers d))"

definition untrusted :: exn where
  "untrusted = Failure ''policy_publisher_untrusted'' 403"

definition publisher :: "string \<Rightarrow> directory \<Rightarrow> publisher_view res" where
  "publisher i d =
     (if \<not> policy_identifier i then Inl ValueError
      else bindr (publishers d) (\<lambda>ps.
        case find_row pb_id ps i of None \<Rightarrow> Inl untrusted | Some p \<Rightarrow> if \<not> pb_enabled p then Inl untrusted else Inr p))"

definition put_publisher :: "publisher_row \<Rightarrow> directory \<Rightarrow> directory" where
  "put_publisher p d = d\<lparr>dir_publishers :=
     (if find_row pb_id (dir_publishers d) (pb_id p) = None then add_row p (dir_publishers d)
      else put_row pb_id (pb_id p) (\<lambda>r. r\<lparr>pb_enabled := pb_enabled p, pb_revision := pb_revision p\<rparr>) (dir_publishers d))\<rparr>"

definition trust :: "string \<Rightarrow> string \<Rightarrow> bool \<Rightarrow> int \<Rightarrow> publisher_view dir_op" where
  "trust i key enabled expected d =
     bindr (ensure (policy_identifier i) ValueError) (\<lambda>_.
     bindr (public_key key) (\<lambda>(k, _).
     bindr (ensure (revision_ok expected) ValueError) (\<lambda>_.
     bindr (publishers d) (\<lambda>ps.
     let old = find_row pb_id ps i in
     bindr (ensure ((case old of Some p \<Rightarrow> pb_revision p | None \<Rightarrow> 0) = expected) (Failure ''revision_conflict'' 409)) (\<lambda>_.
     bindr (ensure (\<not> (case old of Some p \<Rightarrow> pb_public_key p \<noteq> k | None \<Rightarrow> False)) (Failure ''policy_key_changed'' 409)) (\<lambda>_.
     bindr (ensure (\<not> (old = None \<and> length ps \<ge> 64)) (Failure ''capacity'' 409)) (\<lambda>_.
     let d1 = put_publisher \<lparr>pb_id = i, pb_public_key = k, pb_enabled = enabled, pb_revision = expected + 1\<rparr> d in
     bindr (bump d1) (\<lambda>(d2, _).
     bindr (publishers d2) (\<lambda>qs.
     case find_row pb_id qs i of None \<Rightarrow> Inl AssertionError | Some p \<Rightarrow> Inr (d2, p))))))))))"

section \<open>Stored packages\<close>

record package_view =
  kv_digest :: string
  kv_publisher :: string
  kv_manifest :: policy_manifest
  kv_installed_at :: rat

definition package_view_of :: "policy_manifest package_row \<Rightarrow> package_view" where
  "package_view_of r = \<lparr>kv_digest = pk_digest r, kv_publisher = pk_publisher r, kv_manifest = pk_description r,
     kv_installed_at = pk_installed r\<rparr>"

definition packages :: "directory \<Rightarrow> package_view list" where
  "packages d = map package_view_of (sort_key pk_installed (sort_key pk_digest (dir_packages d)))"

definition package :: "policy_library \<Rightarrow> string \<Rightarrow> directory \<Rightarrow> (policy_manifest \<times> (string \<times> string) list \<times> publisher_view) res" where
  "package lib g d =
     (if \<not> Hex64 g then Inl ValueError
      else case find_row pk_digest (dir_packages d) g of
          None \<Rightarrow> Inl (Failure ''not_found'' 404)
        | Some r \<Rightarrow>
            if sha256_hex (pk_archive r) \<noteq> g then Inl (Failure ''policy_changed'' 409)
            else bindr (inspect lib (pk_archive r)) (\<lambda>v.
                 bindr (publisher (mf_publisher (in_manifest v)) d) (\<lambda>p.
                 bindr (verify lib (pk_archive r) (pb_public_key p)) (\<lambda>(m, _, payload). Inr (m, payload, p)))))"

text \<open>\<open>install\<close> verifies the archive first; \<open>others\<close> acts before its transaction. The view it returns is read after it.\<close>

definition install_checked :: "policy_library \<Rightarrow> string \<Rightarrow> directory \<Rightarrow> (policy_manifest \<times> publisher_view) res" where
  "install_checked lib raw d =
     bindr (inspect lib raw) (\<lambda>v.
     bindr (publisher (mf_publisher (in_manifest v)) d) (\<lambda>p.
     bindr (verify lib raw (pb_public_key p)) (\<lambda>(m, _, _). Inr (m, p))))"

definition install_commit :: "string \<Rightarrow> policy_manifest \<Rightarrow> publisher_view \<Rightarrow> rat \<Rightarrow> package_view dir_op" where
  "install_commit raw m p now d =
     bindr (publisher (mf_publisher m) d) (\<lambda>q.
     bindr (ensure (q = p) (Failure ''revision_conflict'' 409)) (\<lambda>_.
     case find_row kv_digest (packages d) (sha256_hex raw) of
       Some v \<Rightarrow> Inr (d, v)
     | None \<Rightarrow>
         bindr (ensure (\<not> length (packages d) \<ge> 64) (Failure ''capacity'' 409)) (\<lambda>_.
         let r = \<lparr>pk_digest = sha256_hex raw, pk_publisher = mf_publisher m, pk_description = m, pk_archive = raw, pk_installed = now\<rparr>
         in Inr (d\<lparr>dir_packages := add_row r (dir_packages d)\<rparr>, package_view_of r))))"

definition install :: "(directory \<Rightarrow> directory) \<Rightarrow> policy_library \<Rightarrow> string \<Rightarrow> rat \<Rightarrow> directory \<Rightarrow> directory \<times> package_view res" where
  "install others lib raw now d =
     (case install_checked lib raw d of
        Inl e \<Rightarrow> (d, Inl e)
      | Inr (m, p) \<Rightarrow> (case install_commit raw m p now (others d) of Inl e \<Rightarrow> (others d, Inl e) | Inr (d2, v) \<Rightarrow> (d2, Inr v)))"

section \<open>Roles and activation\<close>

record binding_view =
  bv_subject_id :: string
  bv_roles :: "string list"
  bv_revision :: int

definition bindings :: "string \<Rightarrow> directory \<Rightarrow> binding_view list res" where
  "bindings project d =
     bindr (dir_project project d) (\<lambda>_.
     map_res (\<lambda>b. bindr (role_ids (bn_roles b)) (\<lambda>roles.
         Inr \<lparr>bv_subject_id = bn_subject_id b, bv_roles = roles, bv_revision = bn_revision b\<rparr>))
       (sort_key bn_subject_id (filter (\<lambda>b. bn_project_id b = project) (dir_bindings d))))"

definition find_binding :: "string \<Rightarrow> string \<Rightarrow> directory \<Rightarrow> binding_row option" where
  "find_binding project subject d =
     find_row (\<lambda>b. (bn_project_id b, bn_subject_id b)) (dir_bindings d) (project, subject)"

definition roles_of :: "string \<Rightarrow> string \<Rightarrow> directory \<Rightarrow> string list res" where
  "roles_of project subject d =
     (case find_binding project subject d of None \<Rightarrow> Inr [] | Some b \<Rightarrow> role_ids (bn_roles b))"

definition put_binding :: "binding_row \<Rightarrow> directory \<Rightarrow> directory" where
  "put_binding b d = d\<lparr>dir_bindings :=
     (if find_binding (bn_project_id b) (bn_subject_id b) d = None then add_row b (dir_bindings d)
      else put_row (\<lambda>x. (bn_project_id x, bn_subject_id x)) (bn_project_id b, bn_subject_id b) (\<lambda>_. b) (dir_bindings d))\<rparr>"

definition bind_roles :: "string \<Rightarrow> string \<Rightarrow> string list \<Rightarrow> int \<Rightarrow> binding_view dir_op" where
  "bind_roles project subject roles expected d =
     bindr (role_ids roles) (\<lambda>rs.
     bindr (ensure (revision_ok expected) ValueError) (\<lambda>_.
     bindr (access subject project d) (\<lambda>_.
     bindr (bindings project d) (\<lambda>bs.
     let old = find_row bv_subject_id bs subject in
     bindr (ensure ((case old of Some b \<Rightarrow> bv_revision b | None \<Rightarrow> 0) = expected) (Failure ''revision_conflict'' 409)) (\<lambda>_.
     bindr (ensure (\<not> (old = None \<and> length (dir_bindings d) \<ge> 4096)) (Failure ''capacity'' 409)) (\<lambda>_.
     bindr (bump (put_binding \<lparr>bn_project_id = project, bn_subject_id = subject, bn_roles = rs, bn_revision = expected + 1\<rparr> d)) (\<lambda>(d1, _).
     Inr (d1, \<lparr>bv_subject_id = subject, bv_roles = rs, bv_revision = expected + 1\<rparr>))))))))"

text \<open>The last 64 entries of a list, \<open>xs[-64:]\<close>.\<close>

definition last_entries :: "nat \<Rightarrow> 'a list \<Rightarrow> 'a list" where
  "last_entries n xs = drop (length xs - n) xs"

definition activate_policy :: "string \<Rightarrow> int \<Rightarrow> policy_state dir_op" where
  "activate_policy g expected d =
     bindr (get_state d) (\<lambda>s.
     bindr (ensure (revision_ok expected) ValueError) (\<lambda>_.
     bindr (ensure (ps_revision s = expected) (Failure ''revision_conflict'' 409)) (\<lambda>_.
     let t = s\<lparr>ps_revision := expected + 1, ps_required := True, ps_previous := ps_active s, ps_active := Some g,
           ps_history := last_entries 64 (ps_history s @ [(expected + 1, g)])\<rparr> in
     bindr (state_value t) (\<lambda>u. Inr (d\<lparr>dir_policy_state := Some u\<rparr>, u)))))"

end
