(* ===== verification/Access_Inv.thy ===== *)
theory Access_Inv
  imports Auth Policy_Store
begin

text \<open>
  The transactions of the directory as a step relation, the invariant they keep, and the relation
  between earlier and later states (revisions only grow, and a row with an unchanged revision is
  unchanged), both as interpretations of the system locales.
\<close>

section \<open>Steps\<close>

inductive dir_step :: "directory \<Rightarrow> directory \<Rightarrow> bool" where
  ds_create: "create_named k token label d = Inr (e, r) \<Longrightarrow> dir_step d e"
| ds_update: "update_named k i label disabled revision d = Inr (e, r) \<Longrightarrow> dir_step d e"
| ds_membership: "membership project subject scopes revision d = Inr (e, v) \<Longrightarrow> dir_step d e"
| ds_resources: "save_resources project nodes roots revision d = Inr (e, w) \<Longrightarrow> dir_step d e"
| ds_unassign: "dir_step d (remove_resource q i d)"
| ds_delete: "dir_step d (delete_node i d)"
| ds_registered: "dir_step d (d\<lparr>dir_machines := ms, dir_windows := ws, dir_roots := rs\<rparr>)"
| ds_issue: "issue_commit now c d = Inr (e, u) \<Longrightarrow> dir_step d e"
| ds_resolve: "resolve_credential ext now v kinds consume d = Inr (e, p) \<Longrightarrow> dir_step d e"
| ds_revoke: "dir_step d (fst (revoke i actor d))"
| ds_switch: "switch_project ext rot clk secret i csrf old project d = Inr (e, x) \<Longrightarrow> dir_step d e"
| ds_trust: "trust i key enabled expected d = Inr (e, y) \<Longrightarrow> dir_step d e"
| ds_install: "install_commit raw m p now d = Inr (e, z) \<Longrightarrow> dir_step d e"
| ds_bind: "bind_roles project subject roles expected d = Inr (e, b) \<Longrightarrow> dir_step d e"
| ds_activate: "activate_policy g expected d = Inr (e, s) \<Longrightarrow> dir_step d e"

abbreviation dir_reach :: "directory \<Rightarrow> bool" where
  "dir_reach \<equiv> reach (\<lambda>d. d = empty_directory) dir_step"

section \<open>Versioned tables\<close>

lemma find_row_put_at:
  assumes "\<And>r. key r = k \<Longrightarrow> key (f r) = k"
  shows "find_row key (put_row key k f rows) j = (if j = k then map_option f (find_row key rows k) else find_row key rows j)"
proof (induction rows)
  case (Cons r rows)
  then show ?case using assms [of r] by (cases "key r = k") (auto simp: find_row_def put_row_def)
qed (simp add: find_row_def put_row_def)

lemma map_key_put_at:
  assumes "\<And>r. key r = k \<Longrightarrow> key (f r) = k"
  shows "map key (put_row key k f rows) = map key rows"
  using assms by (auto simp: put_row_def)

definition versioned :: "('r \<Rightarrow> 'k) \<Rightarrow> ('r \<Rightarrow> int) \<Rightarrow> 'r list \<Rightarrow> 'r list \<Rightarrow> bool" where
  "versioned key vers xs ys \<longleftrightarrow> (\<forall>k r. find_row key xs k = Some r \<longrightarrow>
     (\<exists>r'. find_row key ys k = Some r' \<and> vers r \<le> vers r' \<and> (vers r = vers r' \<longrightarrow> r = r')))"

lemma versioned_refl [simp]: "versioned key vers xs xs"
  by (simp add: versioned_def)

lemma versioned_trans: "versioned key vers xs ys \<Longrightarrow> versioned key vers ys zs \<Longrightarrow> versioned key vers xs zs"
proof -
  assume a: "versioned key vers xs ys" and b: "versioned key vers ys zs"
  show ?thesis unfolding versioned_def
  proof (intro allI impI)
    fix k r assume "find_row key xs k = Some r"
    with a obtain q where q: "find_row key ys k = Some q" "vers r \<le> vers q" "vers r = vers q \<longrightarrow> r = q"
      unfolding versioned_def by blast
    with b obtain t where "find_row key zs k = Some t" "vers q \<le> vers t" "vers q = vers t \<longrightarrow> q = t"
      unfolding versioned_def by blast
    with q show "\<exists>t. find_row key zs k = Some t \<and> vers r \<le> vers t \<and> (vers r = vers t \<longrightarrow> r = t)" by auto
  qed
qed

lemma versioned_add: "versioned key vers xs (add_row r xs)"
  by (auto simp: versioned_def find_row_add)

lemma versioned_put:
  assumes "\<And>r. key r = k \<Longrightarrow> key (f r) = k" and "\<And>r. find_row key xs k = Some r \<Longrightarrow> vers r < vers (f r)"
  shows "versioned key vers xs (put_row key k f xs)"
  using assms by (auto simp: versioned_def find_row_put_at)

lemma versionedD:
  assumes "versioned key vers xs ys" and "find_row key xs k = Some r"
  obtains r' where "find_row key ys k = Some r'" and "vers r \<le> vers r'" and "vers r = vers r' \<Longrightarrow> r = r'"
  using assms unfolding versioned_def by metis

text \<open>Rows whose first version is positive: absence counts as revision zero.\<close>

definition positive_rows :: "('r \<Rightarrow> int) \<Rightarrow> 'r list \<Rightarrow> bool" where
  "positive_rows vers xs \<longleftrightarrow> (\<forall>r\<in>set xs. 0 < vers r)"

definition revision_at :: "('r \<Rightarrow> 'k) \<Rightarrow> ('r \<Rightarrow> int) \<Rightarrow> 'r list \<Rightarrow> 'k \<Rightarrow> int" where
  "revision_at key vers xs k = (case find_row key xs k of None \<Rightarrow> 0 | Some r \<Rightarrow> vers r)"

lemma revision_at_same:
  assumes "versioned key vers xs ys" and "positive_rows vers ys" and "revision_at key vers xs k = revision_at key vers ys k"
  shows "find_row key xs k = find_row key ys k"
proof (cases "find_row key xs k")
  case None
  have "0 < vers q" if "find_row key ys k = Some q" for q
    using find_row_Some [OF that] assms(2) by (simp add: positive_rows_def)
  with None show ?thesis using assms(3) by (fastforce simp: revision_at_def split: option.splits)
next
  case (Some r)
  then show ?thesis using assms(1,3) by (auto simp: revision_at_def elim: versionedD)
qed

section \<open>Access\<close>

definition has_access :: "string \<Rightarrow> string \<Rightarrow> directory \<Rightarrow> bool" where
  "has_access subject project d \<longleftrightarrow> (\<exists>S. access subject project d = Inr S)"

lemma has_access_iff:
  "has_access subject project d \<longleftrightarrow>
     (\<exists>u. find_row nm_id (dir_identities d) subject = Some u \<and> \<not> nm_disabled u) \<and>
     (\<exists>p. find_row nm_id (dir_projects d) project = Some p \<and> \<not> nm_disabled p) \<and>
     (subject = LOCAL_OWNER \<or> (\<exists>m. find_membership project subject d = Some m \<and> mb_scopes m \<noteq> []))"
  by (cases "find_row nm_id (dir_identities d) subject"; cases "find_row nm_id (dir_projects d) project";
      cases "find_membership project subject d") (simp_all add: has_access_def access_def get_named_def)

lemma access_cong:
  assumes "dir_identities e = dir_identities d" "dir_projects e = dir_projects d" "dir_memberships e = dir_memberships d"
  shows "access subject project e = access subject project d"
  unfolding access_def get_named_def find_membership_def by (simp add: assms cong: if_cong)

lemma access_scopes: "access subject project d = Inr S \<Longrightarrow> set S \<subseteq> set SCOPES"
  using project_scopes_subset
  by (auto simp: access_def bindr_Inr split: if_splits option.splits)

lemma find_put_membership:
  "find_membership p s (put_membership m d) =
     (if p = mb_project_id m \<and> s = mb_subject_id m then Some m else find_membership p s d)"
proof -
  have "find_row (\<lambda>m. (mb_project_id m, mb_subject_id m)) (dir_memberships (put_membership m d)) (p, s) =
      (if (p, s) = (mb_project_id m, mb_subject_id m) then Some m
       else find_row (\<lambda>m. (mb_project_id m, mb_subject_id m)) (dir_memberships d) (p, s))"
    unfolding put_membership_def find_membership_def
    by (simp add: find_row_put_at find_row_add split: option.split)
  then show ?thesis by (simp add: find_membership_def)
qed

section \<open>What each transaction does\<close>

text \<open>The tables that decide access, and the rest.\<close>

definition same_access :: "directory \<Rightarrow> directory \<Rightarrow> bool" where
  "same_access d e \<longleftrightarrow> dir_identities e = dir_identities d \<and> dir_projects e = dir_projects d \<and> dir_memberships e = dir_memberships d"

definition same_policy :: "directory \<Rightarrow> directory \<Rightarrow> bool" where
  "same_policy d e \<longleftrightarrow> dir_publishers e = dir_publishers d \<and> dir_packages e = dir_packages d \<and> dir_bindings e = dir_bindings d \<and>
     dir_policy_state e = dir_policy_state d"

lemma same_access_has: "same_access d e \<Longrightarrow> has_access s p e = has_access s p d"
  unfolding same_access_def has_access_def using access_cong by metis

lemma resources_step:
  "save_resources project nodes roots revision d = Inr (e, w) \<Longrightarrow>
     same_access d e \<and> same_policy d e \<and> dir_credentials e = dir_credentials d"
  by (auto simp: save_resources_def bindr_Inr Let_def same_access_def same_policy_def split: if_splits)

lemma resolve_step:
  "resolve_credential ext now v kinds consume d = Inr (e, p) \<Longrightarrow>
     same_access d e \<and> same_policy d e \<and> set (dir_credentials e) \<subseteq> set (dir_credentials d)"
  by (auto simp: resolve_credential_def bindr_Inr same_access_def same_policy_def split: if_splits)

lemma issue_step:
  "issue_commit now c d = Inr (e, u) \<Longrightarrow>
     same_access d e \<and> same_policy d e \<and> set (dir_credentials e) \<subseteq> insert c (set (dir_credentials d)) \<and>
     has_access (cd_subject_id c) (cd_project_id c) d"
  by (auto simp: issue_commit_def bindr_Inr insert_credential_def add_row_def has_access_def Let_def same_access_def same_policy_def
      split: if_splits)

lemma switch_step:
  assumes "switch_project ext rot clk secret i csrf old project d = Inr (e, (s, v))"
  obtains p row scopes where "auth_current ext (clk 0) old d = Inr p" and "pr_kind p \<in> {Session, Remote}"
    and "access (pr_subject_id p) project d = Inr scopes" and "find_row cd_id (dir_credentials d) old = Some row"
    and "s = secret" and "auth_current ext (clk 1) i e = Inr v"
    and "e = d\<lparr>dir_credentials := filter (\<lambda>c. cd_id c \<noteq> old)
        (add_row (rotated p row (if pr_kind p = Remote then sorted_set scopes else cd_scopes row) secret i csrf project) (dir_credentials d))\<rparr>"
    and "\<forall>x\<in>set (dir_credentials d). cd_id x \<noteq> i"
proof -
  have acc: "x = Inr y" if "(case x of Inl (Failure _ _) \<Rightarrow> Inl (Failure ''denied'' 403) | r \<Rightarrow> r) = Inr y" for x :: "string list res" and y
    using that by (cases x) (auto split: exn.splits)
  from assms show ?thesis
    unfolding switch_project_def
    by (elim bindr_Inr [THEN iffD1, elim_format] exE conjE)
      (auto simp: bindr_Inr Let_def insert_credential_def rotated_def list_ex_iff split: if_splits option.splits dest!: acc intro!: that)
qed


lemma create_step:
  "create_named k token label d = Inr (e, r) \<Longrightarrow>
     find_row nm_id (named_table k d) (nm_id r) = None \<and> e = set_named_table k (add_row r (named_table k d)) d"
  by (auto simp: create_named_def bindr_Inr Let_def split: if_splits)

lemma named_credentials [simp]: "dir_credentials (set_named_table k rows d) = dir_credentials d"
  by (cases k) simp_all

lemma update_step:
  assumes "update_named k i label disabled revision d = Inr (e, r)"
  obtains q where "find_row nm_id (named_table k d) i = Some q" and "nm_id r = i" and "nm_disabled r = disabled"
    and "nm_revision r = nm_revision q + 1" and "\<not> (i \<in> {LOCAL_OWNER, LOCAL_PROJECT} \<and> disabled)"
    and "e = (set_named_table k (put_row nm_id i (\<lambda>_. r) (named_table k d)) d)\<lparr>dir_credentials :=
        filter (\<lambda>c. \<not> (disabled \<and> owned_by k i c)) (dir_credentials d)\<rparr>"
proof -
  have eq: "x\<lparr>dir_credentials := dir_credentials d\<rparr> = x" if "dir_credentials x = dir_credentials d" for x :: directory
    using that by simp
  from assms obtain q where q: "find_row nm_id (named_table k d) i = Some q" "nm_revision q = revision"
    "\<not> (i \<in> {LOCAL_OWNER, LOCAL_PROJECT} \<and> disabled)"
    "r = q\<lparr>nm_label := strip label, nm_disabled := disabled, nm_revision := nm_revision q + 1\<rparr>"
    "e = (if disabled then (set_named_table k (put_row nm_id i (\<lambda>_. r) (named_table k d)) d)\<lparr>dir_credentials :=
        filter (\<lambda>c. \<not> owned_by k i c) (dir_credentials d)\<rparr> else set_named_table k (put_row nm_id i (\<lambda>_. r) (named_table k d)) d)"
    by (auto simp: update_named_def bindr_Inr get_named_def Let_def split: if_splits option.splits)
  then show thesis using find_row_Some [OF q(1)] by (intro that [of q]) (auto simp: eq)
qed

lemma membership_step:
  assumes "membership project subject scopes revision d = Inr (e, v)"
  obtains m where "mb_project_id m = project" and "mb_subject_id m = subject" and "mb_scopes m = sorted_set scopes"
    and "mb_revision m = revision + 1" and "subject \<noteq> LOCAL_OWNER"
    and "(case find_membership project subject d of Some m \<Rightarrow> mb_revision m | None \<Rightarrow> 0) = revision"
    and "e = (put_membership m d)\<lparr>dir_credentials :=
        filter (\<lambda>c. \<not> (scopes = [] \<and> cd_project_id c = project \<and> cd_subject_id c = subject)) (dir_credentials d)\<rparr>"
proof -
  define m where "m = \<lparr>mb_project_id = project, mb_subject_id = subject, mb_scopes = sorted_set scopes, mb_revision = revision + 1\<rparr>"
  have creds: "dir_credentials (put_membership m d) = dir_credentials d" by (simp add: put_membership_def)
  have eq: "x\<lparr>dir_credentials := dir_credentials d\<rparr> = x" if "dir_credentials x = dir_credentials d" for x :: directory
    using that by simp
  from assms have a: "subject \<noteq> LOCAL_OWNER"
    "(case find_membership project subject d of Some m \<Rightarrow> mb_revision m | None \<Rightarrow> 0) = revision"
    "e = (if scopes = [] then (put_membership m d)\<lparr>dir_credentials :=
        filter (\<lambda>c. \<not> (cd_project_id c = project \<and> cd_subject_id c = subject)) (dir_credentials d)\<rparr> else put_membership m d)"
    by (auto simp: membership_def bindr_Inr Let_def creds simp flip: m_def split: if_splits)
  show thesis by (rule that [of m]) (use a creds eq in \<open>simp_all add: m_def\<close>)
qed

lemma bump_step:
  "bump d = Inr (e, t) \<Longrightarrow> \<exists>s. get_state d = Inr s \<and> t = s\<lparr>ps_revision := ps_revision s + 1\<rparr> \<and> e = d\<lparr>dir_policy_state := Some t\<rparr>"
  by (auto simp: bump_def bindr_Inr Let_def split: if_splits)

lemma get_state_publisher [simp]: "get_state (put_publisher p d) = get_state d"
  by (simp add: get_state_def put_publisher_def)

lemma get_state_binding [simp]: "get_state (put_binding b d) = get_state d"
  by (simp add: get_state_def put_binding_def)

lemma trust_step:
  assumes "trust i key enabled expected d = Inr (e, y)"
  obtains k f ps s where "public_key key = Inr (k, f)" and "publishers d = Inr ps" and "get_state d = Inr s" and "revision_ok expected"
    and "(case find_row pb_id ps i of Some p \<Rightarrow> pb_revision p | None \<Rightarrow> 0) = expected"
    and "\<And>p. find_row pb_id ps i = Some p \<Longrightarrow> pb_public_key p = k"
    and "e = (put_publisher \<lparr>pb_id = i, pb_public_key = k, pb_enabled = enabled, pb_revision = expected + 1\<rparr> d)
         \<lparr>dir_policy_state := Some (s\<lparr>ps_revision := ps_revision s + 1\<rparr>)\<rparr>"
proof -
  from assms obtain k f ps d2 t where a: "public_key key = Inr (k, f)" "publishers d = Inr ps" "revision_ok expected"
    "(case find_row pb_id ps i of Some p \<Rightarrow> pb_revision p | None \<Rightarrow> 0) = expected"
    "\<not> (case find_row pb_id ps i of Some p \<Rightarrow> pb_public_key p \<noteq> k | None \<Rightarrow> False)"
    "bump (put_publisher \<lparr>pb_id = i, pb_public_key = k, pb_enabled = enabled, pb_revision = expected + 1\<rparr> d) = Inr (e, t)"
    by (auto simp: trust_def bindr_Inr Let_def split: if_splits option.splits prod.splits)
  from bump_step [OF a(6)] a(1-5) show thesis by (auto intro: that)
qed

lemma bind_step:
  assumes "bind_roles project subject roles expected d = Inr (e, v)"
  obtains rs bs s where "role_ids roles = Inr rs" and "bindings project d = Inr bs" and "get_state d = Inr s" and "revision_ok expected"
    and "(case find_row bv_subject_id bs subject of Some b \<Rightarrow> bv_revision b | None \<Rightarrow> 0) = expected"
    and "e = (put_binding \<lparr>bn_project_id = project, bn_subject_id = subject, bn_roles = rs, bn_revision = expected + 1\<rparr> d)
         \<lparr>dir_policy_state := Some (s\<lparr>ps_revision := ps_revision s + 1\<rparr>)\<rparr>"
proof -
  from assms obtain rs bs t where a: "role_ids roles = Inr rs" "bindings project d = Inr bs" "revision_ok expected"
    "(case find_row bv_subject_id bs subject of Some b \<Rightarrow> bv_revision b | None \<Rightarrow> 0) = expected"
    "bump (put_binding \<lparr>bn_project_id = project, bn_subject_id = subject, bn_roles = rs, bn_revision = expected + 1\<rparr> d) = Inr (e, t)"
    by (auto simp: bind_roles_def bindr_Inr Let_def split: if_splits option.splits prod.splits)
  from bump_step [OF a(5)] a(1-4) show thesis by (auto intro: that)
qed

lemma install_step:
  "install_commit raw m p now d = Inr (e, z) \<Longrightarrow>
     e = d \<or> (\<exists>r. pk_digest r = sha256_hex raw \<and> pk_archive r = raw \<and> pk_publisher r = mf_publisher m \<and>
       find_row kv_digest (packages d) (sha256_hex raw) = None \<and> e = d\<lparr>dir_packages := add_row r (dir_packages d)\<rparr>)"
proof -
  assume a: "install_commit raw m p now d = Inr (e, z)"
  let ?r = "\<lparr>pk_digest = sha256_hex raw, pk_publisher = mf_publisher m, pk_description = m, pk_archive = raw, pk_installed = now\<rparr>"
  from a have "e = d \<or> find_row kv_digest (packages d) (sha256_hex raw) = None \<and> e = d\<lparr>dir_packages := add_row ?r (dir_packages d)\<rparr>"
    by (auto simp: install_commit_def bindr_Inr Let_def split: if_splits option.splits)
  moreover have "pk_digest ?r = sha256_hex raw" "pk_archive ?r = raw" "pk_publisher ?r = mf_publisher m" by simp_all
  ultimately show ?thesis by blast
qed

lemma activate_step:
  assumes "activate_policy g expected d = Inr (e, u)"
  obtains s where "get_state d = Inr s" and "ps_revision s = expected" and "revision_ok expected" and "state_value u = Inr u"
    and "u = s\<lparr>ps_revision := expected + 1, ps_required := True, ps_previous := ps_active s, ps_active := Some g,
           ps_history := last_entries 64 (ps_history s @ [(expected + 1, g)])\<rparr>"
    and "e = d\<lparr>dir_policy_state := Some u\<rparr>"
proof -
  have id: "y = x" if "state_value x = Inr y" for x y using that by (auto simp: state_value_def split: if_splits)
  from assms obtain s where a: "get_state d = Inr s" "ps_revision s = expected" "revision_ok expected"
    "state_value (s\<lparr>ps_revision := expected + 1, ps_required := True, ps_previous := ps_active s, ps_active := Some g,
           ps_history := last_entries 64 (ps_history s @ [(expected + 1, g)])\<rparr>) = Inr u" "e = d\<lparr>dir_policy_state := Some u\<rparr>"
    by (auto simp: activate_policy_def bindr_Inr Let_def split: if_splits)
  then show thesis using that [of s] id [OF a(4)] by simp
qed

lemma policy_access:
  "trust i key enabled expected d = Inr (e, y) \<Longrightarrow> same_access d e \<and> dir_credentials e = dir_credentials d"
  "bind_roles project subject roles expected d = Inr (e, v) \<Longrightarrow> same_access d e \<and> dir_credentials e = dir_credentials d"
  "install_commit raw m p now d = Inr (e, z) \<Longrightarrow> same_access d e \<and> dir_credentials e = dir_credentials d"
  "activate_policy g expected d = Inr (e, u) \<Longrightarrow> same_access d e \<and> dir_credentials e = dir_credentials d"
  by (auto simp: same_access_def put_publisher_def put_binding_def elim!: trust_step bind_step activate_step dest!: install_step)

section \<open>Accounts\<close>

text \<open>
  The recovery owner keeps its access, and every stored credential belongs to somebody who still
  has access to its project: revoking access deletes credentials.
\<close>

definition owner_ok :: "directory \<Rightarrow> bool" where
  "owner_ok d \<longleftrightarrow> has_access LOCAL_OWNER LOCAL_PROJECT d"

definition credentials_ok :: "directory \<Rightarrow> bool" where
  "credentials_ok d \<longleftrightarrow> (\<forall>c\<in>set (dir_credentials d). has_access (cd_subject_id c) (cd_project_id c) d)"

definition accounts_ok :: "directory \<Rightarrow> bool" where
  "accounts_ok d \<longleftrightarrow> owner_ok d \<and> credentials_ok d"

lemma accounts_same:
  assumes "same_access d e" and "accounts_ok d"
    and "\<And>c. c \<in> set (dir_credentials e) \<Longrightarrow> c \<in> set (dir_credentials d) \<or> has_access (cd_subject_id c) (cd_project_id c) d"
  shows "accounts_ok e"
  using assms by (auto simp: accounts_ok_def owner_ok_def credentials_ok_def same_access_has)

text \<open>The rows that \<open>has_access\<close> reads survive, unless the credentials of their owner are deleted.\<close>

lemma accounts_change:
  assumes "accounts_ok d" and "has_access LOCAL_OWNER LOCAL_PROJECT d \<Longrightarrow> has_access LOCAL_OWNER LOCAL_PROJECT e"
    and "\<And>c. c \<in> set (dir_credentials e) \<Longrightarrow> c \<in> set (dir_credentials d) \<and>
       (has_access (cd_subject_id c) (cd_project_id c) d \<longrightarrow> has_access (cd_subject_id c) (cd_project_id c) e)"
  shows "accounts_ok e"
  using assms by (auto simp: accounts_ok_def owner_ok_def credentials_ok_def)

lemma has_access_add:
  assumes "has_access s p d" and "find_row nm_id (named_table k d) (nm_id r) = None"
  shows "has_access s p (set_named_table k (add_row r (named_table k d)) d)"
  using assms by (cases k) (auto simp: has_access_iff find_row_add find_membership_def)

lemma has_access_put:
  assumes "has_access s p d" and "nm_id r = i" and "\<not> nm_disabled r \<or> (case k of User_kind \<Rightarrow> s | Project_kind \<Rightarrow> p) \<noteq> i"
  shows "has_access s p (set_named_table k (put_row nm_id i (\<lambda>_. r) (named_table k d)) d)"
  using assms by (cases k) (auto simp: has_access_iff find_row_put_at find_membership_def)

lemma has_access_credentials [simp]: "has_access s p (d\<lparr>dir_credentials := cs\<rparr>) = has_access s p d"
  by (simp add: has_access_iff find_membership_def)

lemma has_access_membership:
  assumes "has_access s p d" and "mb_subject_id m = s \<and> mb_project_id m = p \<longrightarrow> s = LOCAL_OWNER \<or> mb_scopes m \<noteq> []"
  shows "has_access s p (put_membership m d)"
proof -
  have "dir_identities (put_membership m d) = dir_identities d" "dir_projects (put_membership m d) = dir_projects d"
    by (simp_all add: put_membership_def)
  then show ?thesis using assms by (auto simp: has_access_iff find_put_membership)
qed

lemma dir_step_accounts: "dir_step d e \<Longrightarrow> accounts_ok d \<Longrightarrow> accounts_ok e"
proof (induction rule: dir_step.induct)
  case (ds_create k token label d e r)
  note e = create_step [OF ds_create.hyps]
  have "has_access s p e" if "has_access s p d" for s p
    using has_access_add [OF that] e by simp
  moreover have "dir_credentials e = dir_credentials d" using e by simp
  ultimately show ?case by (intro accounts_change [OF ds_create.prems]) auto
next
  case (ds_update k i label disabled revision d e r)
  from ds_update.hyps show ?case
  proof (rule update_step)
    fix q assume q: "nm_id r = i" "nm_disabled r = disabled" "\<not> (i \<in> {LOCAL_OWNER, LOCAL_PROJECT} \<and> disabled)"
      "e = (set_named_table k (put_row nm_id i (\<lambda>_. r) (named_table k d)) d)\<lparr>dir_credentials :=
         filter (\<lambda>c. \<not> (disabled \<and> owned_by k i c)) (dir_credentials d)\<rparr>"
    show ?thesis
    proof (rule accounts_change [OF ds_update.prems])
      show "has_access LOCAL_OWNER LOCAL_PROJECT d \<Longrightarrow> has_access LOCAL_OWNER LOCAL_PROJECT e"
        using q by (auto intro!: has_access_put split: named_kind.splits)
      show "c \<in> set (dir_credentials d) \<and>
          (has_access (cd_subject_id c) (cd_project_id c) d \<longrightarrow> has_access (cd_subject_id c) (cd_project_id c) e)"
        if "c \<in> set (dir_credentials e)" for c
        using q that by (auto intro!: has_access_put simp: owned_by_def)
    qed
  qed
next
  case (ds_membership project subject scopes revision d e v)
  from ds_membership.hyps show ?case
  proof (rule membership_step)
    fix m assume m: "mb_project_id m = project" "mb_subject_id m = subject" "mb_scopes m = sorted_set scopes" "subject \<noteq> LOCAL_OWNER"
      "e = (put_membership m d)\<lparr>dir_credentials :=
         filter (\<lambda>c. \<not> (scopes = [] \<and> cd_project_id c = project \<and> cd_subject_id c = subject)) (dir_credentials d)\<rparr>"
    have "mb_scopes m \<noteq> []" if "scopes \<noteq> []" using m(3) that by simp
    then show ?thesis
      by (intro accounts_change [OF ds_membership.prems]) (use m(1,2,4,5) in \<open>auto intro!: has_access_membership\<close>)
  qed
next
  case (ds_resources project nodes roots revision d e w)
  then show ?case using resources_step [OF ds_resources.hyps] by (auto intro: accounts_same [of d])
next
  case (ds_issue now c d e u)
  then show ?case using issue_step [OF ds_issue.hyps] by (auto intro: accounts_same [of d])
next
  case (ds_resolve ext now v kinds consume d e p)
  then show ?case using resolve_step [OF ds_resolve.hyps] by (auto intro: accounts_same [of d])
next
  case (ds_switch ext rot clk secret i csrf old project d e x)
  then obtain s v where x: "switch_project ext rot clk secret i csrf old project d = Inr (e, (s, v))" by (metis prod.exhaust)
  then show ?case
  proof (rule switch_step)
    fix p row scopes
    assume "access (pr_subject_id p) project d = Inr scopes"
      and "e = d\<lparr>dir_credentials := filter (\<lambda>c. cd_id c \<noteq> old)
        (add_row (rotated p row (if pr_kind p = Remote then sorted_set scopes else cd_scopes row) secret i csrf project) (dir_credentials d))\<rparr>"
    then show ?thesis using ds_switch.prems
      by (intro accounts_same [of d e]) (auto simp: same_access_def add_row_def rotated_def has_access_def split: if_splits)
  qed
next
  case (ds_unassign d q i)
  then show ?case by (auto simp: same_access_def remove_resource_def intro: accounts_same [of d])
next
  case (ds_delete d i)
  then show ?case by (auto simp: same_access_def remove_resource_def delete_node_def intro: accounts_same [of d])
next
  case (ds_registered d ms ws rs)
  then show ?case by (auto simp: same_access_def intro: accounts_same [of d])
next
  case (ds_revoke d i actor)
  then show ?case by (auto simp: same_access_def revoke_def intro: accounts_same [of d])
next
  case (ds_trust i key enabled expected d e y)
  then show ?case using policy_access(1) [OF ds_trust.hyps] by (auto intro: accounts_same [of d])
next
  case (ds_install raw m p now d e z)
  then show ?case using policy_access(3) [OF ds_install.hyps] by (auto intro: accounts_same [of d])
next
  case (ds_bind project subject roles expected d e b)
  then show ?case using policy_access(2) [OF ds_bind.hyps] by (auto intro: accounts_same [of d])
next
  case (ds_activate g expected d e s)
  then show ?case using policy_access(4) [OF ds_activate.hyps] by (auto intro: accounts_same [of d])
qed


section \<open>The policy tables\<close>

lemma find_row_perm:
  assumes "distinct (map key xs)" and "mset ys = mset xs"
  shows "find_row key ys k = find_row key xs k"
proof (cases "find_row key xs k")
  case None
  then have "find_row key ys k = None" using mset_eq_setD [OF assms(2)] by (simp add: find_row_None)
  with None show ?thesis by simp
next
  case (Some r)
  then have r: "r \<in> set ys" "key r = k" using find_row_Some mset_eq_setD [OF assms(2)] by fastforce+
  have "distinct (map key ys)" using assms by (metis mset_eq_imp_distinct_iff mset_map)
  then show ?thesis using find_row_distinct r Some by metis
qed

lemma find_row_map_res:
  assumes "map_res f xs = Inr ys" and "\<And>x y. f x = Inr y \<Longrightarrow> key' y = key x"
  shows "case find_row key' ys k of None \<Rightarrow> find_row key xs k = None | Some y \<Rightarrow> \<exists>x. find_row key xs k = Some x \<and> f x = Inr y"
  using assms(1)
proof (induction xs arbitrary: ys)
  case (Cons x xs)
  then obtain y zs where y: "f x = Inr y" "map_res f xs = Inr zs" "ys = y # zs" by (auto simp: bindr_Inr)
  with Cons.IH [OF y(2)] assms(2) [OF y(1)] show ?case by (auto simp: find_row_def split: option.splits)
qed (simp add: find_row_def)

lemma find_row_filter_pair:
  "find_row h (filter (\<lambda>x. g x = p) xs) k = find_row (\<lambda>x. (g x, h x)) xs (p, k)"
  by (induction xs) (auto simp: find_row_def)

lemma role_ids_again: "role_ids roles = Inr rs \<Longrightarrow> role_ids rs = Inr rs"
  by (auto simp: role_ids_def list_ex_iff sorted_sort_id split: if_splits)

subsection \<open>Normalised keys\<close>

lemma split_space_words:
  "w \<in> set (split_space acc s) \<Longrightarrow> list_all (\<lambda>c. \<not> is_space c) acc \<Longrightarrow> w \<noteq> [] \<and> list_all (\<lambda>c. \<not> is_space c) w"
proof (induction s arbitrary: acc)
  case Nil
  then show ?case by (auto simp: list_all_iff split: if_splits)
next
  case (Cons c cs)
  show ?case
  proof (cases "is_space c")
    case True
    then consider "w = rev acc" "acc \<noteq> []" | "w \<in> set (split_space [] cs)" using Cons.prems(1) by (auto split: if_splits)
    then show ?thesis using Cons.IH [of "[]"] Cons.prems(2) by cases (auto simp: list_all_iff)
  next
    case False
    then show ?thesis using Cons.IH [of "c # acc"] Cons.prems by simp
  qed
qed

lemma split_space_word: "list_all (\<lambda>c. \<not> is_space c) s \<Longrightarrow> acc \<noteq> [] \<or> s \<noteq> [] \<Longrightarrow> split_space acc s = [rev acc @ s]"
  by (induction acc s rule: split_space.induct) auto

lemma b64decode_length: "b64decode s = Some r \<Longrightarrow> length s \<le> 4 * length r"
  by (induction s arbitrary: r rule: b64decode.induct) (auto split: option.splits if_splits, metis trans_le_add2)

lemma strip_id: "s \<noteq> [] \<Longrightarrow> \<not> is_space (hd s) \<Longrightarrow> \<not> is_space (last s) \<Longrightarrow> strip s = s"
proof -
  assume a: "s \<noteq> []" "\<not> is_space (hd s)" "\<not> is_space (last s)"
  then have "dropWhile is_space s = s" by (cases s) auto
  moreover have "dropWhile is_space (rev s) = rev s" using a by (cases s rule: rev_cases) auto
  ultimately show ?thesis by (simp add: strip_def)
qed

lemma public_key_again:
  assumes "public_key v = Inr (k, f)"
  shows "public_key k = Inr (k, f)"
proof -
  from assms obtain w ws raw where w: "split_space [] (strip v) = ''ssh-ed25519'' # w # ws" "b64decode w = Some raw"
      "take 19 raw = key_prefix" "length raw = 51" "k = ''ssh-ed25519 '' @ w" "f = key_fingerprint_of raw"
    by (auto simp: public_key_def split: if_splits list.splits option.splits)
  have ns: "w \<noteq> []" "list_all (\<lambda>c. \<not> is_space c) w" using split_space_words [of w "[]" "strip v"] w(1) by auto
  have len: "length w \<le> 204" using b64decode_length [OF w(2)] w(4) by simp
  have last: "\<not> is_space (last k)" using ns w(5) by (simp add: list_all_iff)
  have k: "strip k = k" using last w(5) by (intro strip_id) (simp_all add: is_space_def)
  have words: "split_space [] k = [''ssh-ed25519'', w]"
    using ns by (simp add: w(5) is_space_def split_space_word [of w "[]"])
  have "is_space (CHR ''\<newline>'')" by (simp add: is_space_def)
  then have nl: "CHR ''\<newline>'' \<notin> set k" using ns by (auto simp: w(5) list_all_iff)
  have "length k \<le> 1024" using len by (simp add: w(5))
  then have "public_key k = Inr (''ssh-ed25519 '' @ w, f)" by (simp add: public_key_def k words nl w(2,3,4,6))
  then show ?thesis by (simp only: w(5))
qed

subsection \<open>Reading the views\<close>

lemma publisher_view_of_Inr:
  "publisher_view_of r = Inr p \<Longrightarrow> pb_id p = pb_id r \<and> pb_public_key p = pb_public_key r \<and> pb_enabled p = pb_enabled r \<and> pb_revision p = pb_revision r"
  by (auto simp: publisher_view_of_def bindr_Inr)

lemma publishers_find:
  assumes "publishers d = Inr ps" and "distinct (map pb_id (dir_publishers d))"
  shows "case find_row pb_id ps i of None \<Rightarrow> find_row pb_id (dir_publishers d) i = None
    | Some p \<Rightarrow> \<exists>r. find_row pb_id (dir_publishers d) i = Some r \<and> publisher_view_of r = Inr p"
proof -
  have "find_row pb_id (sort_key pb_id (dir_publishers d)) i = find_row pb_id (dir_publishers d) i"
    by (rule find_row_perm [OF assms(2)]) simp
  with find_row_map_res [of publisher_view_of "sort_key pb_id (dir_publishers d)" ps pb_id pb_id i] assms(1)
  show ?thesis by (auto simp: publishers_def publisher_view_of_Inr split: option.splits)
qed

lemma bindings_find:
  assumes "bindings project d = Inr bs" and "distinct (map (\<lambda>b. (bn_project_id b, bn_subject_id b)) (dir_bindings d))"
  shows "case find_row bv_subject_id bs subject of None \<Rightarrow> find_binding project subject d = None
    | Some v \<Rightarrow> \<exists>b. find_binding project subject d = Some b \<and> bv_revision v = bn_revision b"
proof -
  let ?f = "\<lambda>b. bindr (role_ids (bn_roles b)) (\<lambda>roles.
         Inr \<lparr>bv_subject_id = bn_subject_id b, bv_roles = roles, bv_revision = bn_revision b\<rparr>)"
  let ?xs = "filter (\<lambda>b. bn_project_id b = project) (dir_bindings d)"
  have "distinct (map bn_subject_id ?xs)"
    using assms(2) by (auto simp: distinct_map inj_on_def)
  then have "find_row bn_subject_id (sort_key bn_subject_id ?xs) subject = find_row bn_subject_id ?xs subject"
    by (intro find_row_perm) simp_all
  moreover have "find_row bn_subject_id ?xs subject = find_binding project subject d"
    by (simp add: find_binding_def find_row_filter_pair)
  moreover have "case find_row bv_subject_id bs subject of None \<Rightarrow> find_row bn_subject_id (sort_key bn_subject_id ?xs) subject = None
    | Some v \<Rightarrow> \<exists>b. find_row bn_subject_id (sort_key bn_subject_id ?xs) subject = Some b \<and> ?f b = Inr v"
    using assms(1) by (intro find_row_map_res) (auto simp: bindings_def bindr_Inr)
  ultimately show ?thesis by (auto simp: bindr_Inr split: option.splits)
qed

subsection \<open>The invariant\<close>

definition policy_of :: "directory \<Rightarrow> policy_state" where
  "policy_of d = (case dir_policy_state d of None \<Rightarrow> DEFAULT_STATE | Some s \<Rightarrow> s)"

definition policy_shape :: "policy_state \<Rightarrow> bool" where
  "policy_shape s \<longleftrightarrow> 0 \<le> ps_revision s \<and> ps_revision s \<le> 2 ^ 53 - 1 \<and>
     ps_required s = (ps_history s \<noteq> []) \<and>
     ps_active s = (if ps_history s = [] then None else Some (snd (last (ps_history s)))) \<and>
     length (ps_history s) \<le> 64 \<and> sorted_wrt (<) (map fst (ps_history s)) \<and>
     (\<forall>(r, g)\<in>set (ps_history s). Hex64 g \<and> 1 \<le> r \<and> r \<le> ps_revision s \<and> r < 2 ^ 53 - 1)"

definition publishers_ok :: "directory \<Rightarrow> bool" where
  "publishers_ok d \<longleftrightarrow> distinct (map pb_id (dir_publishers d)) \<and> positive_rows pb_revision (dir_publishers d) \<and>
     (\<forall>p\<in>set (dir_publishers d). \<exists>f. public_key (pb_public_key p) = Inr (pb_public_key p, f))"

definition binding_key :: "binding_row \<Rightarrow> string \<times> string" where
  "binding_key b = (bn_project_id b, bn_subject_id b)"

definition membership_key :: "membership_row \<Rightarrow> string \<times> string" where
  "membership_key m = (mb_project_id m, mb_subject_id m)"

lemma binding_key_fun: "binding_key = (\<lambda>b. (bn_project_id b, bn_subject_id b))"
  by (simp add: binding_key_def fun_eq_iff)

lemma membership_key_fun: "membership_key = (\<lambda>m. (mb_project_id m, mb_subject_id m))"
  by (simp add: membership_key_def fun_eq_iff)

definition bindings_ok :: "directory \<Rightarrow> bool" where
  "bindings_ok d \<longleftrightarrow> distinct (map binding_key (dir_bindings d)) \<and> positive_rows bn_revision (dir_bindings d) \<and>
     (\<forall>b\<in>set (dir_bindings d). role_ids (bn_roles b) = Inr (bn_roles b))"

definition packages_ok :: "directory \<Rightarrow> bool" where
  "packages_ok d \<longleftrightarrow> (\<forall>r\<in>set (dir_packages d). sha256_hex (pk_archive r) = pk_digest r)"

definition policies_ok :: "directory \<Rightarrow> bool" where
  "policies_ok d \<longleftrightarrow> policy_shape (policy_of d) \<and> publishers_ok d \<and> bindings_ok d \<and> packages_ok d"

definition dir_inv :: "directory \<Rightarrow> bool" where
  "dir_inv d \<longleftrightarrow> accounts_ok d \<and> policies_ok d \<and> positive_rows mb_revision (dir_memberships d)"

lemma get_state_Inr: "get_state d = Inr s \<Longrightarrow> s = policy_of d \<and> revision_ok (ps_revision s)"
  by (auto simp: get_state_def policy_of_def state_value_def split: if_splits)

lemma positive_add: "positive_rows vers xs \<Longrightarrow> 0 < vers r \<Longrightarrow> positive_rows vers (add_row r xs)"
  by (auto simp: positive_rows_def add_row_def)

lemma positive_put: "positive_rows vers xs \<Longrightarrow> (\<And>r. 0 < vers (f r)) \<Longrightarrow> positive_rows vers (put_row key k f xs)"
  by (auto simp: positive_rows_def dest!: set_put_row)

lemma shape_bump: "policy_shape s \<Longrightarrow> revision_ok (ps_revision s) \<Longrightarrow> policy_shape (s\<lparr>ps_revision := ps_revision s + 1\<rparr>)"
  by (auto simp: policy_shape_def revision_ok_def)

lemma last_entries_props:
  "length (last_entries n xs) \<le> n" "set (last_entries n xs) \<subseteq> set xs" "n \<noteq> 0 \<Longrightarrow> xs \<noteq> [] \<Longrightarrow> last (last_entries n xs) = last xs \<and> last_entries n xs \<noteq> []"
proof -
  have "length xs - n < length xs" if "n \<noteq> 0" "xs \<noteq> []" using that by simp
  then show "n \<noteq> 0 \<Longrightarrow> xs \<noteq> [] \<Longrightarrow> last (last_entries n xs) = last xs \<and> last_entries n xs \<noteq> []"
    by (metis drop_eq_Nil last_drop last_entries_def not_le)
qed (use set_drop_subset [of "length xs - n" xs] in \<open>auto simp: last_entries_def\<close>)

lemma shape_activate:
  assumes "policy_shape s" and "revision_ok (ps_revision s)"
    and u: "u = s\<lparr>ps_revision := ps_revision s + 1, ps_required := True, ps_previous := ps_active s, ps_active := Some g,
           ps_history := last_entries 64 (ps_history s @ [(ps_revision s + 1, g)])\<rparr>"
    and ok: "state_value u = Inr u"
  shows "policy_shape u"
proof -
  let ?h = "ps_history s @ [(ps_revision s + 1, g)]"
  have h: "ps_history u = last_entries 64 ?h" "ps_revision u = ps_revision s + 1" "ps_required u" "ps_active u = Some g" by (simp_all add: u)
  have sorted: "sorted_wrt (<) (map fst ?h)"
    using assms(1) by (auto simp: policy_shape_def sorted_wrt_append)
  have drop: "sorted_wrt (<) (drop n xs)" if "sorted_wrt (<) xs" for n and xs :: "int list"
    using that by (metis append_take_drop_id sorted_wrt_append)
  have "sorted_wrt (<) (map fst (last_entries 64 ?h))"
    using drop [OF sorted, of "length ?h - 64"] by (simp add: last_entries_def drop_map)
  moreover have "\<forall>(r, g)\<in>set (last_entries 64 ?h). Hex64 g \<and> 1 \<le> r \<and> r \<le> ps_revision u \<and> r < 2 ^ 53 - 1"
    using ok h(1) by (fastforce simp: state_value_def list_ex_iff revision_ok_def split: if_splits)
  moreover have "0 \<le> ps_revision u \<and> ps_revision u \<le> 2 ^ 53 - 1" using assms(1,2) h(2) by (auto simp: policy_shape_def revision_ok_def)
  moreover have "last (last_entries 64 ?h) = (ps_revision s + 1, g) \<and> last_entries 64 ?h \<noteq> []"
    using last_entries_props(3) [of 64 ?h] by simp
  ultimately show ?thesis using last_entries_props(1) [of 64 ?h] by (simp add: policy_shape_def h)
qed

lemma policies_same: "same_policy d e \<Longrightarrow> policies_ok d \<Longrightarrow> policies_ok e"
  by (simp add: policies_ok_def same_policy_def policy_of_def publishers_ok_def bindings_ok_def packages_ok_def)


lemma publishers_put:
  assumes "publishers_ok d" and "0 < pb_revision p" and "public_key (pb_public_key p) = Inr (pb_public_key p, f)"
  shows "publishers_ok (put_publisher p d)"
proof (cases "find_row pb_id (dir_publishers d) (pb_id p)")
  case None
  then have "pb_id p \<notin> pb_id ` set (dir_publishers d)" by (auto simp: find_row_None)
  with None show ?thesis using assms
    by (auto simp: publishers_ok_def put_publisher_def positive_add add_row_def positive_rows_def)
next
  case (Some r)
  let ?g = "\<lambda>r. r\<lparr>pb_enabled := pb_enabled p, pb_revision := pb_revision p\<rparr>"
  have "\<exists>f. public_key (pb_public_key q) = Inr (pb_public_key q, f)"
    if "q \<in> set (put_row pb_id (pb_id p) ?g (dir_publishers d))" for q
    using set_put_row [OF that] assms(1) by (auto simp: publishers_ok_def)
  then show ?thesis using assms Some
    by (simp add: publishers_ok_def put_publisher_def positive_put map_key_put_at)
qed

lemma bindings_put:
  assumes "bindings_ok d" and "0 < bn_revision b" and "role_ids (bn_roles b) = Inr (bn_roles b)"
  shows "bindings_ok (put_binding b d)"
proof (cases "find_binding (bn_project_id b) (bn_subject_id b) d")
  case None
  then have "binding_key b \<notin> binding_key ` set (dir_bindings d)" by (auto simp: find_binding_def find_row_None binding_key_def)
  with None show ?thesis using assms by (auto simp: bindings_ok_def put_binding_def add_row_def positive_rows_def)
next
  case (Some r)
  let ?xs = "put_row binding_key (binding_key b) (\<lambda>_. b) (dir_bindings d)"
  have eq: "dir_bindings (put_binding b d) = ?xs" using Some by (simp add: put_binding_def binding_key_fun)
  have "role_ids (bn_roles q) = Inr (bn_roles q)" if "q \<in> set ?xs" for q
    using set_put_row [OF that] assms by (auto simp: bindings_ok_def)
  then show ?thesis using assms unfolding bindings_ok_def eq by (simp add: positive_put map_key_put_at)
qed

lemma policies_state: "policies_ok d \<Longrightarrow> policy_shape s \<Longrightarrow> policies_ok (d\<lparr>dir_policy_state := Some s\<rparr>)"
  by (simp add: policies_ok_def policy_of_def publishers_ok_def bindings_ok_def packages_ok_def)

lemma trust_policies:
  assumes "trust i key enabled expected d = Inr (e, y)" and "policies_ok d"
  shows "policies_ok e"
  using assms(1)
proof (rule trust_step)
  fix k f ps s assume a: "public_key key = Inr (k, f)" "get_state d = Inr s" "revision_ok expected"
    and e: "e = (put_publisher \<lparr>pb_id = i, pb_public_key = k, pb_enabled = enabled, pb_revision = expected + 1\<rparr> d)
         \<lparr>dir_policy_state := Some (s\<lparr>ps_revision := ps_revision s + 1\<rparr>)\<rparr>"
  let ?p = "\<lparr>pb_id = i, pb_public_key = k, pb_enabled = enabled, pb_revision = expected + 1\<rparr>"
  have "publishers_ok (put_publisher ?p d)"
    using assms(2) a(3) public_key_again [OF a(1)] by (intro publishers_put) (auto simp: policies_ok_def revision_ok_def)
  then have "policies_ok (put_publisher ?p d)"
    using assms(2) by (simp add: policies_ok_def policy_of_def put_publisher_def bindings_ok_def packages_ok_def)
  moreover have "policy_shape (s\<lparr>ps_revision := ps_revision s + 1\<rparr>)"
    using get_state_Inr [OF a(2)] assms(2) shape_bump [of s] by (auto simp: policies_ok_def)
  ultimately show ?thesis unfolding e by (rule policies_state)
qed

lemma bind_policies:
  assumes "bind_roles project subject roles expected d = Inr (e, v)" and "policies_ok d"
  shows "policies_ok e"
  using assms(1)
proof (rule bind_step)
  fix rs bs s assume a: "role_ids roles = Inr rs" "get_state d = Inr s" "revision_ok expected"
    and e: "e = (put_binding \<lparr>bn_project_id = project, bn_subject_id = subject, bn_roles = rs, bn_revision = expected + 1\<rparr> d)
         \<lparr>dir_policy_state := Some (s\<lparr>ps_revision := ps_revision s + 1\<rparr>)\<rparr>"
  let ?b = "\<lparr>bn_project_id = project, bn_subject_id = subject, bn_roles = rs, bn_revision = expected + 1\<rparr>"
  have "bindings_ok (put_binding ?b d)"
    using assms(2) a(3) role_ids_again [OF a(1)] by (intro bindings_put) (auto simp: policies_ok_def revision_ok_def)
  then have "policies_ok (put_binding ?b d)"
    using assms(2) by (simp add: policies_ok_def policy_of_def put_binding_def publishers_ok_def packages_ok_def)
  moreover have "policy_shape (s\<lparr>ps_revision := ps_revision s + 1\<rparr>)"
    using get_state_Inr [OF a(2)] assms(2) shape_bump [of s] by (auto simp: policies_ok_def)
  ultimately show ?thesis unfolding e by (rule policies_state)
qed

lemma activate_policies:
  assumes "activate_policy g expected d = Inr (e, u)" and "policies_ok d"
  shows "policies_ok e"
  using assms(1)
proof (rule activate_step)
  fix s assume a: "get_state d = Inr s" "ps_revision s = expected" "revision_ok expected" "state_value u = Inr u"
    and u: "u = s\<lparr>ps_revision := expected + 1, ps_required := True, ps_previous := ps_active s, ps_active := Some g,
           ps_history := last_entries 64 (ps_history s @ [(expected + 1, g)])\<rparr>" and e: "e = d\<lparr>dir_policy_state := Some u\<rparr>"
  have s: "policy_shape s" "revision_ok (ps_revision s)" using get_state_Inr [OF a(1)] assms(2) by (auto simp: policies_ok_def)
  have "policy_shape u" by (rule shape_activate [OF s _ a(4), of g]) (simp add: u a(2))
  then show ?thesis unfolding e by (rule policies_state [OF assms(2)])
qed

lemma install_policies: "install_commit raw m p now d = Inr (e, z) \<Longrightarrow> policies_ok d \<Longrightarrow> policies_ok e"
  by (drule install_step)
    (auto simp: policies_ok_def policy_of_def publishers_ok_def bindings_ok_def packages_ok_def add_row_def)

lemma account_steps_policy:
  "create_named k token label d = Inr (e, r) \<Longrightarrow> same_policy d e"
  "update_named k i label disabled revision d = Inr (e, r) \<Longrightarrow> same_policy d e"
  "membership project subject scopes revision d = Inr (e, v) \<Longrightarrow> same_policy d e"
  "switch_project ext rot clk secret i csrf old project d = Inr (e, x) \<Longrightarrow> same_policy d e"
proof -
  have set: "same_policy d (set_named_table k rows d)" for rows by (cases k) (simp_all add: same_policy_def)
  show "create_named k token label d = Inr (e, r) \<Longrightarrow> same_policy d e" using create_step set by blast
  show "update_named k i label disabled revision d = Inr (e, r) \<Longrightarrow> same_policy d e"
    using set by (elim update_step) (auto simp: same_policy_def)
  show "membership project subject scopes revision d = Inr (e, v) \<Longrightarrow> same_policy d e"
    by (elim membership_step) (auto simp: same_policy_def put_membership_def)
  show "switch_project ext rot clk secret i csrf old project d = Inr (e, x) \<Longrightarrow> same_policy d e"
    by (cases x) (auto elim!: switch_step simp: same_policy_def)
qed

lemma dir_step_policies: "dir_step d e \<Longrightarrow> policies_ok d \<Longrightarrow> policies_ok e"
proof (induction rule: dir_step.induct)
  case (ds_resources project nodes roots revision d e w)
  then show ?case using resources_step policies_same by blast
next
  case (ds_issue now c d e u)
  then show ?case using issue_step policies_same by blast
next
  case (ds_resolve ext now v kinds consume d e p)
  then show ?case using resolve_step policies_same by blast
qed (auto intro: trust_policies bind_policies activate_policies install_policies policies_same [OF account_steps_policy(1)]
    policies_same [OF account_steps_policy(2)] policies_same [OF account_steps_policy(3)] policies_same [OF account_steps_policy(4)]
    policies_same simp: same_policy_def remove_resource_def delete_node_def revoke_def)


section \<open>Later states\<close>

definition accounts_later :: "directory \<Rightarrow> directory \<Rightarrow> bool" where
  "accounts_later d e \<longleftrightarrow>
     versioned nm_id nm_revision (dir_identities d) (dir_identities e) \<and>
     versioned nm_id nm_revision (dir_projects d) (dir_projects e) \<and>
     versioned membership_key mb_revision (dir_memberships d) (dir_memberships e)"

definition policy_later :: "directory \<Rightarrow> directory \<Rightarrow> bool" where
  "policy_later d e \<longleftrightarrow>
     versioned binding_key bn_revision (dir_bindings d) (dir_bindings e) \<and>
     versioned pb_id pb_revision (dir_publishers d) (dir_publishers e) \<and>
     (\<forall>g r. find_row pk_digest (dir_packages d) g = Some r \<longrightarrow> find_row pk_digest (dir_packages e) g = Some r) \<and>
     (\<forall>i p. find_row pb_id (dir_publishers d) i = Some p \<longrightarrow>
        (\<exists>q. find_row pb_id (dir_publishers e) i = Some q \<and> pb_public_key q = pb_public_key p)) \<and>
     ps_revision (policy_of d) \<le> ps_revision (policy_of e) \<and>
     (ps_revision (policy_of d) = ps_revision (policy_of e) \<longrightarrow> policy_of e = policy_of d) \<and>
     (ps_required (policy_of d) \<longrightarrow> ps_required (policy_of e))"

definition dir_later :: "directory \<Rightarrow> directory \<Rightarrow> bool" where
  "dir_later d e \<longleftrightarrow> accounts_later d e \<and> policy_later d e"

lemma same_access_later: "same_access d e \<Longrightarrow> accounts_later d e"
  by (simp add: same_access_def accounts_later_def)

lemma same_policy_later: "same_policy d e \<Longrightarrow> policy_later d e"
  by (simp add: same_policy_def policy_later_def policy_of_def)

lemma dir_later_refl: "dir_later d d"
  by (simp add: dir_later_def accounts_later_def policy_later_def)

lemma policy_later_trans:
  assumes "policy_later c d" and "policy_later d e"
  shows "policy_later c e"
  unfolding policy_later_def
proof (intro conjI allI impI)
  show "\<exists>q. find_row pb_id (dir_publishers e) i = Some q \<and> pb_public_key q = pb_public_key p"
    if "find_row pb_id (dir_publishers c) i = Some p" for i p using assms that unfolding policy_later_def by metis
  show "versioned binding_key bn_revision (dir_bindings c) (dir_bindings e)"
    using assms versioned_trans unfolding policy_later_def by metis
  show "versioned pb_id pb_revision (dir_publishers c) (dir_publishers e)"
    using assms versioned_trans unfolding policy_later_def by metis
qed (use assms in \<open>simp_all add: policy_later_def\<close>)

lemma dir_later_trans: "dir_later c d \<Longrightarrow> dir_later d e \<Longrightarrow> dir_later c e"
  unfolding dir_later_def accounts_later_def by (meson policy_later_trans versioned_trans)

lemma create_later: "create_named k token label d = Inr (e, r) \<Longrightarrow> accounts_later d e"
  by (drule create_step, cases k) (auto simp: accounts_later_def versioned_add)

lemma update_later:
  assumes "update_named k i label disabled revision d = Inr (e, r)"
  shows "accounts_later d e"
  using assms
proof (rule update_step)
  fix q assume q: "find_row nm_id (named_table k d) i = Some q" "nm_id r = i" "nm_revision r = nm_revision q + 1"
    and e: "e = (set_named_table k (put_row nm_id i (\<lambda>_. r) (named_table k d)) d)\<lparr>dir_credentials :=
        filter (\<lambda>c. \<not> (disabled \<and> owned_by k i c)) (dir_credentials d)\<rparr>"
  have "versioned nm_id nm_revision (named_table k d) (put_row nm_id i (\<lambda>_. r) (named_table k d))"
    by (rule versioned_put) (use q in auto)
  then show ?thesis using e by (cases k) (simp_all add: accounts_later_def)
qed

lemma put_membership_rows:
  "dir_memberships (put_membership m d) =
     (if find_row membership_key (dir_memberships d) (membership_key m) = None then add_row m (dir_memberships d)
      else put_row membership_key (membership_key m) (\<lambda>_. m) (dir_memberships d))"
  by (simp add: put_membership_def find_membership_def membership_key_fun)

lemma membership_later:
  assumes "membership project subject scopes revision d = Inr (e, v)" and "positive_rows mb_revision (dir_memberships d)"
  shows "accounts_later d e \<and> positive_rows mb_revision (dir_memberships e)"
  using assms(1)
proof (rule membership_step)
  fix m assume m: "mb_project_id m = project" "mb_subject_id m = subject" "mb_revision m = revision + 1"
    "(case find_membership project subject d of Some m \<Rightarrow> mb_revision m | None \<Rightarrow> 0) = revision"
    and e: "e = (put_membership m d)\<lparr>dir_credentials :=
        filter (\<lambda>c. \<not> (scopes = [] \<and> cd_project_id c = project \<and> cd_subject_id c = subject)) (dir_credentials d)\<rparr>"
  have key: "find_membership project subject d = find_row membership_key (dir_memberships d) (membership_key m)"
    by (simp add: find_membership_def membership_key_fun m)
  have pos: "0 < mb_revision m"
    using m(3,4) assms(2) by (auto simp: key positive_rows_def dest!: find_row_Some split: option.splits)
  have "versioned membership_key mb_revision (dir_memberships d) (dir_memberships (put_membership m d))"
    unfolding put_membership_rows using m(3,4)
    by (auto simp: key versioned_add intro!: versioned_put split: option.splits)
  moreover have "positive_rows mb_revision (dir_memberships (put_membership m d))"
    unfolding put_membership_rows using assms(2) pos by (auto intro: positive_add positive_put)
  ultimately show ?thesis using e by (simp add: accounts_later_def put_membership_def)
qed


lemma policy_later_bump:
  assumes "get_state d = Inr s" and "dir_packages e = dir_packages d" and "dir_policy_state e = Some t"
    and "ps_revision t = ps_revision s + 1" and "ps_required s \<longrightarrow> ps_required t"
    and "versioned binding_key bn_revision (dir_bindings d) (dir_bindings e)"
    and "versioned pb_id pb_revision (dir_publishers d) (dir_publishers e)"
    and "\<And>i p. find_row pb_id (dir_publishers d) i = Some p \<Longrightarrow> \<exists>q. find_row pb_id (dir_publishers e) i = Some q \<and> pb_public_key q = pb_public_key p"
  shows "policy_later d e"
proof -
  have "policy_of d = s" "policy_of e = t" using get_state_Inr [OF assms(1)] assms(3) by (simp_all add: policy_of_def)
  then show ?thesis using assms by (simp add: policy_later_def)
qed

lemma trust_later:
  assumes "trust i key enabled expected d = Inr (e, y)" and "publishers_ok d"
  shows "policy_later d e"
  using assms(1)
proof (rule trust_step)
  fix k f ps s assume a: "publishers d = Inr ps" "get_state d = Inr s"
    "(case find_row pb_id ps i of Some p \<Rightarrow> pb_revision p | None \<Rightarrow> 0) = expected"
    and e: "e = (put_publisher \<lparr>pb_id = i, pb_public_key = k, pb_enabled = enabled, pb_revision = expected + 1\<rparr> d)
         \<lparr>dir_policy_state := Some (s\<lparr>ps_revision := ps_revision s + 1\<rparr>)\<rparr>"
  let ?g = "\<lambda>r. r\<lparr>pb_enabled := enabled, pb_revision := expected + 1\<rparr>"
  have rows: "dir_publishers e = (if find_row pb_id (dir_publishers d) i = None
      then add_row \<lparr>pb_id = i, pb_public_key = k, pb_enabled = enabled, pb_revision = expected + 1\<rparr> (dir_publishers d)
      else put_row pb_id i ?g (dir_publishers d))" by (simp add: e put_publisher_def)
  have "pb_revision r = expected" if "find_row pb_id (dir_publishers d) i = Some r" for r
    using publishers_find [OF a(1), of i] assms(2) a(3) that by (auto simp: publishers_ok_def dest: publisher_view_of_Inr split: option.splits)
  then have "versioned pb_id pb_revision (dir_publishers d) (dir_publishers e)"
    unfolding rows by (auto intro!: versioned_put simp: versioned_add)
  moreover have "\<exists>q. find_row pb_id (dir_publishers e) j = Some q \<and> pb_public_key q = pb_public_key p"
    if "find_row pb_id (dir_publishers d) j = Some p" for j p
    using that unfolding rows by (auto simp: find_row_add find_row_put_at)
  ultimately show ?thesis using a(2) by (intro policy_later_bump) (auto simp: e put_publisher_def)
qed

lemma put_binding_rows:
  "dir_bindings (put_binding b d) =
     (if find_row binding_key (dir_bindings d) (binding_key b) = None then add_row b (dir_bindings d)
      else put_row binding_key (binding_key b) (\<lambda>_. b) (dir_bindings d))"
  by (simp add: put_binding_def find_binding_def binding_key_fun)

lemma bind_later:
  assumes "bind_roles project subject roles expected d = Inr (e, v)" and "bindings_ok d"
  shows "policy_later d e"
  using assms(1)
proof (rule bind_step)
  fix rs bs s assume a: "bindings project d = Inr bs" "get_state d = Inr s"
    "(case find_row bv_subject_id bs subject of Some b \<Rightarrow> bv_revision b | None \<Rightarrow> 0) = expected"
    and e: "e = (put_binding \<lparr>bn_project_id = project, bn_subject_id = subject, bn_roles = rs, bn_revision = expected + 1\<rparr> d)
         \<lparr>dir_policy_state := Some (s\<lparr>ps_revision := ps_revision s + 1\<rparr>)\<rparr>"
  let ?b = "\<lparr>bn_project_id = project, bn_subject_id = subject, bn_roles = rs, bn_revision = expected + 1\<rparr>"
  have "bn_revision r = expected" if "find_row binding_key (dir_bindings d) (binding_key ?b) = Some r" for r
    using bindings_find [OF a(1), of subject] assms(2) a(3) that
    by (auto simp: bindings_ok_def find_binding_def binding_key_fun split: option.splits)
  then have "versioned binding_key bn_revision (dir_bindings d) (dir_bindings (put_binding ?b d))"
    unfolding put_binding_rows by (auto intro!: versioned_put simp: versioned_add)
  then show ?thesis using a(2) by (intro policy_later_bump) (auto simp: e put_binding_def)
qed

lemma activate_later: "activate_policy g expected d = Inr (e, u) \<Longrightarrow> policy_later d e"
  by (erule activate_step) (rule policy_later_bump, auto)

lemma install_later: "install_commit raw m p now d = Inr (e, z) \<Longrightarrow> policy_later d e"
  by (drule install_step) (auto simp: policy_later_def policy_of_def find_row_add)

section \<open>The system\<close>

lemma dir_step_later: "dir_step d e \<Longrightarrow> dir_inv d \<Longrightarrow> dir_later d e \<and> positive_rows mb_revision (dir_memberships e)"
proof (induction rule: dir_step.induct)
  case (ds_create k token label d e r)
  have "dir_memberships e = dir_memberships d" using create_step [OF ds_create.hyps] by (cases k) simp_all
  then show ?case using ds_create create_later account_steps_policy(1) same_policy_later by (auto simp: dir_later_def dir_inv_def)
next
  case (ds_update k i label disabled revision d e r)
  have "dir_memberships (set_named_table k rows d) = dir_memberships d" for rows by (cases k) simp_all
  then have "dir_memberships e = dir_memberships d" using ds_update.hyps by (elim update_step) simp
  then show ?case using ds_update update_later account_steps_policy(2) same_policy_later by (auto simp: dir_later_def dir_inv_def)
next
  case (ds_membership project subject scopes revision d e v)
  then show ?case using membership_later account_steps_policy(3) same_policy_later by (auto simp: dir_later_def dir_inv_def)
next
  case (ds_switch ext rot clk secret i csrf old project d e x)
  have "same_access d e" using ds_switch.hyps by (cases x) (auto elim!: switch_step simp: same_access_def)
  then show ?case using ds_switch account_steps_policy(4) same_policy_later same_access_later
    by (auto simp: dir_later_def dir_inv_def same_access_def)
next
  case (ds_trust i key enabled expected d e y)
  then show ?case using policy_access(1) [OF ds_trust.hyps] trust_later same_access_later
    by (auto simp: dir_later_def dir_inv_def policies_ok_def same_access_def)
next
  case (ds_install raw m p now d e z)
  then show ?case using policy_access(3) [OF ds_install.hyps] install_later same_access_later
    by (auto simp: dir_later_def dir_inv_def policies_ok_def same_access_def)
next
  case (ds_bind project subject roles expected d e b)
  then show ?case using policy_access(2) [OF ds_bind.hyps] bind_later same_access_later
    by (auto simp: dir_later_def dir_inv_def policies_ok_def same_access_def)
next
  case (ds_activate g expected d e s)
  then show ?case using policy_access(4) [OF ds_activate.hyps] activate_later same_access_later
    by (auto simp: dir_later_def dir_inv_def policies_ok_def same_access_def)
next
  case (ds_resources project nodes roots revision d e w)
  then show ?case using resources_step [OF ds_resources.hyps] same_access_later same_policy_later
    by (auto simp: dir_later_def dir_inv_def same_access_def)
next
  case (ds_issue now c d e u)
  then show ?case using issue_step [OF ds_issue.hyps] same_access_later same_policy_later
    by (auto simp: dir_later_def dir_inv_def same_access_def)
next
  case (ds_resolve ext now v kinds consume d e p)
  then show ?case using resolve_step [OF ds_resolve.hyps] same_access_later same_policy_later
    by (auto simp: dir_later_def dir_inv_def same_access_def)
qed (auto simp: dir_later_def dir_inv_def accounts_later_def policy_later_def policy_of_def remove_resource_def delete_node_def revoke_def)

interpretation dir: progress_system "\<lambda>d. d = empty_directory" dir_step dir_inv dir_later
proof
  show "d = empty_directory \<Longrightarrow> dir_inv d" for d
    by (simp add: dir_inv_def accounts_ok_def owner_ok_def credentials_ok_def has_access_iff policies_ok_def policy_of_def policy_shape_def
        publishers_ok_def bindings_ok_def packages_ok_def positive_rows_def empty_directory_def initialize_def find_row_def DEFAULT_STATE_def)
  show "dir_step d e \<Longrightarrow> dir_inv d \<Longrightarrow> dir_inv e" for d e
    using dir_step_accounts dir_step_policies dir_step_later by (simp add: dir_inv_def)
  show "dir_step d e \<Longrightarrow> dir_inv d \<Longrightarrow> dir_later d e" for d e using dir_step_later by simp
qed (auto intro: dir_later_refl dir_later_trans)

end
