(* ===== verification/Policies.thy ===== *)
theory Policies
  imports Auth Policy_Store
begin

text \<open>
  Policy decisions (\<open>src/ficc/policy_provider.py\<close> and \<open>src/ficc/policies.py\<close>): the envelope of a
  batch of requests, the binding of the answers of the evaluator, and the service that intersects
  host grants with current decisions. What is outside the repository is the record \<open>policy_world\<close>:
  whether the configured driver prepares a package, what the evaluator with a given object
  identity answers to an envelope (\<open>None\<close> when it raises), whether closing it succeeds, the identity
  of the next object, fresh request identities and whether the service is live. The audit events
  the operations write are left out.
\<close>

section \<open>Requests and decisions\<close>

record policy_request =
  rq_id :: string
  rq_action :: string
  rq_authority :: json
  rq_labels :: json

record decision =
  dc_id :: string
  dc_allow :: bool
  dc_reason :: string

definition request_dump :: "policy_request \<Rightarrow> json" where
  "request_dump q = JObj [(''id'', JStr (rq_id q)), (''action'', JStr (rq_action q)), (''authority'', rq_authority q), (''labels'', rq_labels q)]"

definition MAX_ENVELOPE :: nat where
  "MAX_ENVELOPE = 256 * 1024"

definition envelope :: "policy_request list \<Rightarrow> int \<Rightarrow> json res" where
  "envelope qs revision =
     (if \<not> (1 \<le> length qs \<and> length qs \<le> 64) then Inl ValueError
      else let v = JObj [(''version'', JInt 1), (''revision'', JInt revision), (''requests'', JArr (map request_dump qs))] in
        if length (dumps (JObj [(''input'', v)])) > MAX_ENVELOPE then Inl ValueError else Inr v)"

definition reason_ok :: "string \<Rightarrow> bool" where
  "reason_ok = head_tail is_lower (\<lambda>c. is_lower c \<or> is_digit c \<or> c \<in> set ''_.-'') 79"

definition decode_decision :: "json \<Rightarrow> policy_request \<Rightarrow> decision res" where
  "decode_decision v q =
     (case v of
        JObj kvs \<Rightarrow>
          if set (map fst kvs) \<noteq> {''id'', ''allow'', ''reason''} then Inl ValueError
          else (case (map_of kvs ''id'', map_of kvs ''allow'', map_of kvs ''reason'') of
                  (Some (JStr i), Some (JBool allow), Some (JStr reason)) \<Rightarrow>
                    if i \<noteq> rq_id q \<or> \<not> reason_ok reason then Inl ValueError
                    else Inr \<lparr>dc_id = i, dc_allow = allow, dc_reason = reason\<rparr>
                | _ \<Rightarrow> Inl ValueError)
      | _ \<Rightarrow> Inl ValueError)"

fun decode_decisions :: "json list \<Rightarrow> policy_request list \<Rightarrow> decision list res" where
  "decode_decisions (v # vs) (q # qs) = bindr (decode_decision v q) (\<lambda>x. bindr (decode_decisions vs qs) (\<lambda>xs. Inr (x # xs)))"
| "decode_decisions _ _ = Inr []"

definition evaluate :: "(json \<Rightarrow> json option) \<Rightarrow> policy_request list \<Rightarrow> int \<Rightarrow> decision list res" where
  "evaluate runner qs revision =
     bindr (envelope qs revision) (\<lambda>v.
     case runner v of
       Some (JArr vs) \<Rightarrow> if length vs \<noteq> length qs then Inl ValueError else decode_decisions vs qs
     | _ \<Rightarrow> Inl ValueError)"

section \<open>The service\<close>

record prepared =
  pp_id :: nat
  pp_runner :: bool

record policies =
  po_prepared :: "prepared option"
  po_digest :: "string option"
  po_publisher :: "publisher_view option"
  po_error :: bool
  po_required :: bool
  po_retired :: "prepared list"

record policy_world =
  pw_library :: policy_library
  pw_prepare :: "(string \<times> string) list \<Rightarrow> unit res"
  pw_answer :: "nat \<Rightarrow> json \<Rightarrow> json option"
  pw_close :: "nat \<Rightarrow> bool"
  pw_object :: nat
  pw_token :: "nat \<Rightarrow> string"
  pw_live :: "unit res"

definition probe :: "policy_world \<Rightarrow> policy_request" where
  "probe w = \<lparr>rq_id = pw_token w 0, rq_action = ''policy:probe'',
     rq_authority = JObj [(''local_owner'', JBool False), (''roles'', JArr []), (''scopes'', JArr []),
       (''contributor_enforcement'', JBool False)], rq_labels = JObj []\<rparr>"

definition new_prepared :: "policy_world \<Rightarrow> (string \<times> string) list \<Rightarrow> prepared res" where
  "new_prepared w payload =
     bindr (pw_prepare w payload) (\<lambda>_.
     bindr (evaluate (pw_answer w (pw_object w)) [probe w] 0) (\<lambda>_. Inr \<lparr>pp_id = pw_object w, pp_runner = True\<rparr>))"

text \<open>\<open>__init__\<close>: a stored active package that cannot be prepared leaves the service without an evaluator.\<close>

fun startup_error :: "exn \<Rightarrow> bool" where
  "startup_error ValueError = True"
| "startup_error OSError = True"
| "startup_error (Failure _ _) = True"
| "startup_error _ = False"

definition policies_init :: "policy_world \<Rightarrow> directory \<Rightarrow> policies res" where
  "policies_init w d =
     bindr (get_state d) (\<lambda>s.
     let po = \<lparr>po_prepared = None, po_digest = None, po_publisher = None, po_error = False, po_required = ps_required s, po_retired = []\<rparr> in
     case ps_active s of
       None \<Rightarrow> Inr po
     | Some g \<Rightarrow>
         (case bindr (package (pw_library w) g d) (\<lambda>(_, payload, p). bindr (new_prepared w payload) (\<lambda>x. Inr (x, p))) of
            Inr (x, p) \<Rightarrow> Inr (po\<lparr>po_prepared := Some x, po_digest := Some g, po_publisher := Some p\<rparr>)
          | Inl e \<Rightarrow> if startup_error e then Inr (po\<lparr>po_error := True\<rparr>) else Inl e))"

record policy_status =
  st_state :: policy_state
  st_ready :: bool
  st_error :: bool

definition status :: "policies \<Rightarrow> directory \<Rightarrow> policy_status res" where
  "status po d = bindr (get_state d) (\<lambda>s.
     Inr \<lparr>st_state = s, st_ready = (po_prepared po \<noteq> None \<and> po_digest po = ps_active s \<and> \<not> po_error po), st_error = po_error po\<rparr>)"

definition policy_owner :: "(string \<Rightarrow> string \<Rightarrow> unit res) option \<Rightarrow> rat \<Rightarrow> string \<Rightarrow> directory \<Rightarrow> auth_principal res" where
  "policy_owner ext now actor d =
     bindr (auth_current ext now actor d) (\<lambda>v.
     bindr (require_host v ''policies:manage'' None None) (\<lambda>_.
     bindr (ensure (\<not> (\<not> local_owner v \<or> pr_node_ids v \<noteq> None \<or> pr_root_ids v \<noteq> None)) (Failure ''denied'' 403)) (\<lambda>_. Inr v)))"

definition unavailable :: exn where
  "unavailable = Failure ''policy_unavailable'' 503"

definition cleanup :: "policy_world \<Rightarrow> prepared \<Rightarrow> bool \<Rightarrow> policies \<Rightarrow> policies \<times> unit res" where
  "cleanup w x needed po =
     (if pw_close w (pp_id x) then (po, Inr ())
      else (po\<lparr>po_retired := po_retired po @ [x], po_error := po_error po \<or> needed\<rparr>, Inl unavailable))"

definition cleanup_option :: "policy_world \<Rightarrow> prepared option \<Rightarrow> policies \<Rightarrow> policies \<times> unit res" where
  "cleanup_option w old po = (case old of None \<Rightarrow> (po, Inr ()) | Some x \<Rightarrow> cleanup w x True po)"

type_synonym 'a pol_op = "policies \<Rightarrow> directory \<Rightarrow> (policies \<times> directory) \<times> 'a res"

definition committed :: "policies \<times> unit res \<Rightarrow> directory \<Rightarrow> 'a \<Rightarrow> (policies \<times> directory) \<times> 'a res" where
  "committed r d v = ((fst r, d), (case snd r of Inl e \<Rightarrow> Inl e | Inr _ \<Rightarrow> Inr v))"

definition policies_trust :: "policy_world \<Rightarrow> (string \<Rightarrow> string \<Rightarrow> unit res) option \<Rightarrow> rat \<Rightarrow> string \<Rightarrow> string \<Rightarrow> bool \<Rightarrow> int \<Rightarrow> string \<Rightarrow> publisher_view pol_op" where
  "policies_trust w ext now i key enabled expected actor po d =
     (case bindr (pw_live w) (\<lambda>_. bindr (policy_owner ext now actor d) (\<lambda>_. trust i key enabled expected d)) of
        Inl e \<Rightarrow> ((po, d), Inl e)
      | Inr (d1, v) \<Rightarrow>
          if (case po_publisher po of None \<Rightarrow> False | Some p \<Rightarrow> pb_id p = i) \<and> po_prepared po \<noteq> None
          then committed (cleanup_option w (po_prepared po) (po\<lparr>po_prepared := None\<rparr>)) d1 v
          else ((po, d1), Inr v))"

definition policies_bind :: "policy_world \<Rightarrow> (string \<Rightarrow> string \<Rightarrow> unit res) option \<Rightarrow> rat \<Rightarrow> string \<Rightarrow> string \<Rightarrow> string list \<Rightarrow> int \<Rightarrow> string \<Rightarrow> binding_view pol_op" where
  "policies_bind w ext now project subject roles expected actor po d =
     (case bindr (pw_live w) (\<lambda>_. bindr (policy_owner ext now actor d) (\<lambda>_. bind_roles project subject roles expected d)) of
        Inl e \<Rightarrow> ((po, d), Inl e) | Inr (d1, v) \<Rightarrow> ((po, d1), Inr v))"

definition policies_install :: "policy_world \<Rightarrow> (string \<Rightarrow> string \<Rightarrow> unit res) option \<Rightarrow> (nat \<Rightarrow> rat) \<Rightarrow> string \<Rightarrow> string \<Rightarrow> package_view pol_op" where
  "policies_install w ext clk raw actor po d =
     (case bindr (pw_live w) (\<lambda>_. policy_owner ext (clk 0) actor d) of
        Inl e \<Rightarrow> ((po, d), Inl e)
      | Inr _ \<Rightarrow> (let (d1, r) = install (\<lambda>x. x) (pw_library w) raw (clk 1) d in ((po, d1), r)))"

fun close_retired :: "policy_world \<Rightarrow> prepared list \<Rightarrow> prepared list \<times> unit res" where
  "close_retired w [] = ([], Inr ())"
| "close_retired w (x # xs) = (if pw_close w (pp_id x) then close_retired w xs else (x # xs, Inl unavailable))"

text \<open>
  \<open>activate\<close>: the package is verified and prepared before the store lock is taken; \<open>others\<close> acts on the
  directory meanwhile.
\<close>

definition activate_commit :: "(string \<Rightarrow> string \<Rightarrow> unit res) option \<Rightarrow> rat \<Rightarrow> string \<Rightarrow> policy_manifest \<Rightarrow> publisher_view \<Rightarrow> string \<Rightarrow> int \<Rightarrow> policy_state dir_op" where
  "activate_commit ext now actor m p g expected d =
     bindr (policy_owner ext now actor d) (\<lambda>_.
     bindr (publisher (mf_publisher m) d) (\<lambda>q.
     bindr (ensure (q = p) (Failure ''revision_conflict'' 409)) (\<lambda>_.
     activate_policy g expected d)))"

definition policies_activate :: "(directory \<Rightarrow> directory) \<Rightarrow> policy_world \<Rightarrow> (string \<Rightarrow> string \<Rightarrow> unit res) option \<Rightarrow> (nat \<Rightarrow> rat) \<Rightarrow> string \<Rightarrow> int \<Rightarrow> string \<Rightarrow> policy_state pol_op" where
  "policies_activate others w ext clk g expected actor po d =
     (case bindr (pw_live w) (\<lambda>_. policy_owner ext (clk 0) actor d) of
        Inl e \<Rightarrow> ((po, d), Inl e)
      | Inr _ \<Rightarrow>
          (case close_retired w (po_retired po) of
             (left, Inl e) \<Rightarrow> ((po\<lparr>po_retired := left\<rparr>, d), Inl e)
           | (left, Inr _) \<Rightarrow>
               (let po1 = po\<lparr>po_retired := left\<rparr> in
                case package (pw_library w) g d of
                  Inl e \<Rightarrow> ((po1, d), Inl e)
                | Inr (m, payload, p) \<Rightarrow>
                    (case new_prepared w payload of
                       Inl e \<Rightarrow> ((po1, d), Inl e)
                     | Inr x \<Rightarrow>
                         (case activate_commit ext (clk 1) actor m p g expected (others d) of
                            Inl e \<Rightarrow> ((po1, others d), Inl e)
                          | Inr (d1, s) \<Rightarrow>
                              committed (cleanup_option w (po_prepared po1) (po1\<lparr>po_prepared := Some x, po_digest := Some g,
                                po_publisher := Some p, po_error := False, po_required := True\<rparr>)) d1 s)))))"

section \<open>Decisions\<close>

record policy_authority =
  pa_subject_id :: string
  pa_project_id :: string
  pa_credential_id :: string
  pa_local_owner :: bool
  pa_roles :: "string list"
  pa_scopes :: "string list"
  pa_node_id :: "string option"
  pa_root_id :: "string option"
  pa_contributor_enforcement :: bool

definition policy_authority_of :: "auth_principal \<Rightarrow> string option \<Rightarrow> string option \<Rightarrow> directory \<Rightarrow> policy_authority res" where
  "policy_authority_of p nid rid d =
     bindr (roles_of (pr_project_id p) (pr_subject_id p) d) (\<lambda>roles.
     Inr \<lparr>pa_subject_id = pr_subject_id p, pa_project_id = pr_project_id p, pa_credential_id = pr_id p,
       pa_local_owner = local_owner p, pa_roles = roles, pa_scopes = pr_scopes p, pa_node_id = nid, pa_root_id = rid,
       pa_contributor_enforcement = False\<rparr>)"

definition jopt :: "string option \<Rightarrow> json" where
  "jopt x = (case x of None \<Rightarrow> JNull | Some s \<Rightarrow> JStr s)"

definition authority_dump :: "policy_authority \<Rightarrow> (string \<times> json) list" where
  "authority_dump a =
     [(''subject_id'', JStr (pa_subject_id a)), (''project_id'', JStr (pa_project_id a)), (''credential_id'', JStr (pa_credential_id a)),
      (''local_owner'', JBool (pa_local_owner a)), (''roles'', JArr (map JStr (pa_roles a))), (''scopes'', JArr (map JStr (pa_scopes a))),
      (''node_id'', jopt (pa_node_id a)), (''root_id'', jopt (pa_root_id a)),
      (''contributor_enforcement'', JBool (pa_contributor_enforcement a))]"

definition evaluator_current :: "policy_state \<Rightarrow> policies \<Rightarrow> directory \<Rightarrow> bool" where
  "evaluator_current s po d \<longleftrightarrow>
     \<not> po_error po \<and> po_digest po = ps_active s \<and>
     (case po_publisher po of None \<Rightarrow> False | Some p \<Rightarrow> publisher (pb_id p) d = Inr p)"

definition decisions :: "policy_world \<Rightarrow> policy_request list \<Rightarrow> policy_state \<Rightarrow> prepared option \<Rightarrow> policies \<Rightarrow> directory \<Rightarrow> policies \<times> decision list res" where
  "decisions w qs s candidate po d =
     (case envelope qs (ps_revision s) of
        Inl e \<Rightarrow> (po, Inl e)
      | Inr _ \<Rightarrow>
          (case (case candidate of Some x \<Rightarrow> Some x | None \<Rightarrow> po_prepared po) of
             Some x \<Rightarrow>
               if pp_runner x \<and> (candidate \<noteq> None \<or> evaluator_current s po d) then
                 (case evaluate (pw_answer w (pp_id x)) qs (ps_revision s) of
                    Inr ds \<Rightarrow> (po, Inr ds)
                  | Inl _ \<Rightarrow> (po\<lparr>po_error := po_error po \<or> candidate = None\<rparr>, Inl unavailable))
               else (po\<lparr>po_error := po_error po \<or> candidate = None\<rparr>, Inl unavailable)
           | None \<Rightarrow> (po\<lparr>po_error := po_error po \<or> candidate = None\<rparr>, Inl unavailable)))"

type_synonym requirement = "string \<times> string option \<times> string option"

definition first_occurrences :: "'a list \<Rightarrow> 'a list" where
  "first_occurrences xs = rev (remdups (rev xs))"

fun require_all :: "auth_principal \<Rightarrow> requirement list \<Rightarrow> unit res" where
  "require_all p [] = Inr ()"
| "require_all p ((action, nid, rid) # rs) = bindr (require_host p action nid rid) (\<lambda>_. require_all p rs)"

definition policy_ask :: "policy_world \<Rightarrow> policy_authority \<Rightarrow> nat \<times> requirement \<Rightarrow> policy_request" where
  "policy_ask w a r = (case r of (n, (action, nid, rid)) \<Rightarrow>
     \<lparr>rq_id = pw_token w n, rq_action = action, rq_authority = JObj (authority_dump (a\<lparr>pa_node_id := nid, pa_root_id := rid\<rparr>)),
      rq_labels = JObj []\<rparr>)"

function decide_batches :: "policy_world \<Rightarrow> policy_request list \<Rightarrow> policy_state \<Rightarrow> policies \<Rightarrow> directory \<Rightarrow> policies \<times> decision list res" where
  "decide_batches w qs s po d =
     (if qs = [] then (po, Inr [])
      else case decisions w (take 64 qs) s None po d of
          (po1, Inl e) \<Rightarrow> (po1, Inl e)
        | (po1, Inr ds) \<Rightarrow>
            (case decide_batches w (drop 64 qs) s po1 d of (po2, Inl e) \<Rightarrow> (po2, Inl e) | (po2, Inr es) \<Rightarrow> (po2, Inr (ds @ es))))"
  by pat_completeness auto
termination by (relation "measure (\<lambda>(_, qs, _). length qs)") auto

declare decide_batches.simps [simp del]

definition check_many :: "policy_world \<Rightarrow> (string \<Rightarrow> string \<Rightarrow> unit res) option \<Rightarrow> (nat \<Rightarrow> rat) \<Rightarrow> auth_principal \<Rightarrow> requirement list \<Rightarrow> policies \<Rightarrow> directory \<Rightarrow> policies \<times> unit res" where
  "check_many w ext clk p rs po d =
     (let selected = first_occurrences rs in
      if selected = [] then (po, Inr ())
      else case bindr (auth_current ext (clk 0) (pr_id p) d) (\<lambda>c. bindr (require_all c selected) (\<lambda>_. Inr c)) of
          Inl e \<Rightarrow> (po, Inl e)
        | Inr c \<Rightarrow>
            if \<not> po_required po then (po, Inr ())
            else (case get_state d of
                Inl e \<Rightarrow> (po, Inl e)
              | Inr s \<Rightarrow>
                  if \<not> ps_required s then (po, Inr ())
                  else (case policy_authority_of c None None d of
                      Inl e \<Rightarrow> (po, Inl e)
                    | Inr a \<Rightarrow>
                        (case decide_batches w (map (policy_ask w a) (enumerate 0 selected)) s po d of
                           (po1, Inl e) \<Rightarrow> (po1, Inl e)
                         | (po1, Inr ds) \<Rightarrow>
                             (po1,
                              bindr (auth_current ext (clk 1) (pr_id p) d) (\<lambda>f.
                              bindr (require_all f selected) (\<lambda>_.
                              bindr (policy_authority_of f None None d) (\<lambda>b.
                              bindr (get_state d) (\<lambda>t.
                              bindr (ensure (\<not> (a \<noteq> b \<or> s \<noteq> t)) (Failure ''policy_changed'' 409)) (\<lambda>_.
                              ensure (list_all dc_allow ds) (Failure ''policy_denied'' 403)))))))))))"

definition policies_check :: "policy_world \<Rightarrow> (string \<Rightarrow> string \<Rightarrow> unit res) option \<Rightarrow> (nat \<Rightarrow> rat) \<Rightarrow> directory \<Rightarrow> policies policy_check" where
  "policies_check w ext clk d p action nid rid po =
     (if \<not> po_required po then (po, Inr ()) else check_many w ext clk p [(action, nid, rid)] po d)"

end
