(* ===== verification/Access_Props.thy ===== *)
theory Access_Props
  imports Access_Inv Policies
begin

text \<open>
  Properties of accounts, credentials and policy enforcement: credentials never outlive the access
  of their holder, rotation keeps every ceiling, the policy history is append only, and a required
  policy is consulted for every action.
\<close>

lemma owner_access: "dir_inv d \<Longrightarrow> access LOCAL_OWNER LOCAL_PROJECT d = Inr SCOPES"
  by (auto simp: dir_inv_def accounts_ok_def owner_ok_def has_access_iff access_def get_named_def)

section \<open>Example states\<close>

definition ex_credential :: credential where
  "ex_credential = \<lparr>cd_id = ''c1'', cd_digest = ''d1'', cd_kind = Session, cd_label = ''Local owner'',
     cd_scopes = [''jobs:execute'', ''contributors:read''], cd_nodes = None, cd_expires = 3600, cd_csrf = ''x'', cd_roots = None,
     cd_subject_id = LOCAL_OWNER, cd_project_id = LOCAL_PROJECT\<rparr>"

definition ex_directory :: directory where
  "ex_directory = empty_directory\<lparr>dir_credentials := [ex_credential]\<rparr>"

lemma access_owner_empty: "access LOCAL_OWNER LOCAL_PROJECT empty_directory = Inr SCOPES"
  by (rule owner_access [OF dir.start_inv]) simp

lemma access_owner_credentials [simp]:
  "access subject project (empty_directory\<lparr>dir_credentials := cs\<rparr>) = access subject project empty_directory"
  by (rule access_cong) simp_all

lemma ex_issue: "issue_commit 0 ex_credential empty_directory = Inr (ex_directory, ())"
proof -
  have "dir_credentials empty_directory = []" by (simp add: empty_directory_def)
  moreover have "set (cd_scopes ex_credential) \<subseteq> set SCOPES" by (simp add: ex_credential_def SCOPES_def)
  moreover have "access (cd_subject_id ex_credential) (cd_project_id ex_credential) empty_directory = Inr SCOPES"
    by (simp add: ex_credential_def access_owner_empty)
  ultimately show ?thesis by (simp add: issue_commit_def insert_credential_def add_row_def ex_directory_def)
qed

lemma ex_directory_reach: "dir_reach ex_directory"
proof -
  have "dir_reach empty_directory" by (rule reach_start) simp
  then show ?thesis by (rule reach_step) (rule ds_issue [OF ex_issue])
qed

definition ex_trusted_key :: string where
  "ex_trusted_key = ''ssh-ed25519 AAAAC3NzaC1lZDI1NTE5AAAAIAAAAAAAAAAAAAAAAAAAAAAAAAAAAAAAAAAAAAAAAAAA''"

definition ex_raw_key :: string where
  "ex_raw_key = key_prefix @ replicate 32 (CHR 0x00)"

lemma ex_public_key: "public_key ex_trusted_key = Inr (ex_trusted_key, key_fingerprint_of ex_raw_key)"
proof -
  have "b64decode (drop 12 ex_trusted_key) = Some ex_raw_key" "strip ex_trusted_key = ex_trusted_key" "\<not> length ex_trusted_key > 1024 \<and> CHR ''\<newline>'' \<notin> set ex_trusted_key"
    "split_space [] ex_trusted_key = [''ssh-ed25519'', drop 12 ex_trusted_key]" by code_simp+
  then show ?thesis unfolding public_key_def by (simp add: ex_raw_key_def key_prefix_def) (simp add: ex_trusted_key_def)
qed

definition ex_publisher :: publisher_row where
  "ex_publisher = \<lparr>pb_id = ''acme'', pb_public_key = ex_trusted_key, pb_enabled = True, pb_revision = 1\<rparr>"

definition ex_view :: publisher_view where
  "ex_view = \<lparr>pb_id = ''acme'', pb_public_key = ex_trusted_key, pb_enabled = True, pb_revision = 1, pv_fingerprint = key_fingerprint_of ex_raw_key\<rparr>"

definition ex_trusted :: directory where
  "ex_trusted = ex_directory\<lparr>dir_publishers := [ex_publisher], dir_policy_state := Some (DEFAULT_STATE\<lparr>ps_revision := 1\<rparr>)\<rparr>"

lemma ex_identifier: "policy_identifier ''acme''"
  by code_simp

lemma ex_publishers: "dir_publishers d = [ex_publisher] \<Longrightarrow> publishers d = Inr [ex_view]"
  by (simp add: publishers_def ex_publisher_def publisher_view_of_def ex_public_key ex_view_def)

lemma ex_trust: "trust ''acme'' ex_trusted_key True 0 ex_directory = Inr (ex_trusted, ex_view)"
proof -
  have st: "get_state ex_directory = Inr DEFAULT_STATE"
    by (simp add: get_state_def ex_directory_def empty_directory_def state_value_def DEFAULT_STATE_def revision_ok_def)
  have none: "dir_publishers ex_directory = []" by (simp add: ex_directory_def empty_directory_def)
  have put: "put_publisher ex_publisher ex_directory = ex_directory\<lparr>dir_publishers := [ex_publisher]\<rparr>"
    by (simp add: put_publisher_def none find_row_def add_row_def)
  have b: "bump (ex_directory\<lparr>dir_publishers := [ex_publisher]\<rparr>) = Inr (ex_trusted, DEFAULT_STATE\<lparr>ps_revision := 1\<rparr>)"
    using st by (simp add: bump_def get_state_def ex_trusted_def DEFAULT_STATE_def revision_ok_def Let_def)
  have ps: "publishers ex_directory = Inr []" by (simp add: publishers_def none)
  have qs: "publishers ex_trusted = Inr [ex_view]" by (rule ex_publishers) (simp add: ex_trusted_def)
  show ?thesis using put b qs
    by (simp add: trust_def ex_identifier ex_public_key revision_ok_def ps find_row_def flip: ex_publisher_def) (simp add: ex_view_def)
qed

section \<open>Credentials\<close>

lemma current_entry:
  assumes "bindr (live_entry now kinds (access_row column i d)) (principal_of ext) = Inr p"
  obtains c S where "c \<in> set (dir_credentials d)" and "column c = i" and "now < cd_expires c" and "cd_kind c \<in> set kinds"
    and "pr_id p = cd_id c" and "pr_subject_id p = cd_subject_id c" and "pr_project_id p = cd_project_id c"
    and "pr_kind p = cd_kind c" and "pr_expires_at p = cd_expires c" and "pr_node_ids p = cd_nodes c" and "pr_root_ids p = cd_roots c"
    and "access (cd_subject_id c) (cd_project_id c) d = Inr S" and "set (pr_scopes p) = set (cd_scopes c) \<inter> set S"
    and "external_ok ext c = Inr ()" and "find_row column (dir_credentials d) i = Some c" and "pr_label p = cd_label c"
proof -
  from assms obtain e where e: "access_row column i d = Some e" "cd_kind (ae_credential e) \<in> set kinds" "\<not> cd_expires (ae_credential e) \<le> now"
    "principal_of ext e = Inr p" by (auto simp: bindr_Inr live_entry_def split: option.splits if_splits)
  let ?c = "ae_credential e"
  from e(1) obtain u q where row: "find_row column (dir_credentials d) i = Some ?c"
    "find_row nm_id (dir_identities d) (cd_subject_id ?c) = Some u" "find_row nm_id (dir_projects d) (cd_project_id ?c) = Some q"
    "ae_user_disabled e = nm_disabled u" "ae_project_disabled e = nm_disabled q"
    "ae_member_scopes e = map_option mb_scopes (find_membership (cd_project_id ?c) (cd_subject_id ?c) d)"
    by (auto simp: access_row_def Let_def split: option.splits)
  from e(4) obtain S where S: "external_ok ext ?c = Inr ()" "\<not> (ae_user_disabled e \<or> ae_project_disabled e)" "permitted_scopes e = Inr S"
    "pr_id p = cd_id ?c" "pr_subject_id p = cd_subject_id ?c" "pr_project_id p = cd_project_id ?c" "pr_kind p = cd_kind ?c"
    "pr_expires_at p = cd_expires ?c" "pr_node_ids p = cd_nodes ?c" "pr_root_ids p = cd_roots ?c"
    "set (pr_scopes p) = {x \<in> set (cd_scopes ?c). x \<in> set S}" "pr_label p = cd_label ?c"
    by (auto simp: principal_of_def bindr_Inr Let_def split: if_splits)
  have "access (cd_subject_id ?c) (cd_project_id ?c) d = Inr S"
    using row S(2,3) by (cases "find_membership (cd_project_id ?c) (cd_subject_id ?c) d")
      (auto simp: access_def get_named_def permitted_scopes_def unauthenticated_def split: if_splits)
  moreover have "set (pr_scopes p) = set (cd_scopes ?c) \<inter> set S" using S(11) by blast
  ultimately show thesis using that [of ?c S] find_row_Some [OF row(1)] e row(1) S by simp
qed

lemmas auth_currentE = current_entry [of _ "[Session, Token, Remote]" cd_id, folded auth_current_def]

text \<open>
  C40: credentials follow access. In every reachable directory the recovery owner keeps all scopes,
  every stored credential belongs to somebody who still has access to its project (taking access
  away deletes the credentials, so that restoring it revives none), and whoever authenticates has
  a stored credential that has not expired, with scopes within both the credential and the current
  access of its holder.
\<close>

theorem credentials_follow_access:
  assumes "dir_reach d"
  shows "access LOCAL_OWNER LOCAL_PROJECT d = Inr SCOPES \<and>
    (\<forall>c\<in>set (dir_credentials d). \<exists>S. access (cd_subject_id c) (cd_project_id c) d = Inr S) \<and>
    (\<forall>ext now i p. auth_current ext now i d = Inr p \<longrightarrow>
       (\<exists>c S. c \<in> set (dir_credentials d) \<and> cd_id c = i \<and> now < cd_expires c \<and> pr_subject_id p = cd_subject_id c \<and>
         pr_project_id p = cd_project_id c \<and> access (cd_subject_id c) (cd_project_id c) d = Inr S \<and>
         set (pr_scopes p) \<subseteq> set (cd_scopes c) \<inter> set S))"
proof (intro conjI allI impI)
  have inv: "dir_inv d" by (rule dir.reach_inv [OF assms])
  then show "access LOCAL_OWNER LOCAL_PROJECT d = Inr SCOPES" by (rule owner_access)
  show "\<forall>c\<in>set (dir_credentials d). \<exists>S. access (cd_subject_id c) (cd_project_id c) d = Inr S"
    using inv by (auto simp: dir_inv_def accounts_ok_def credentials_ok_def has_access_def)
  show "\<exists>c S. c \<in> set (dir_credentials d) \<and> cd_id c = i \<and> now < cd_expires c \<and> pr_subject_id p = cd_subject_id c \<and>
         pr_project_id p = cd_project_id c \<and> access (cd_subject_id c) (cd_project_id c) d = Inr S \<and>
         set (pr_scopes p) \<subseteq> set (cd_scopes c) \<inter> set S" if "auth_current ext now i d = Inr p" for ext now i p
    using that by (rule auth_currentE) blast
qed

theorem credentials_follow_access_witness:
  "access LOCAL_OWNER LOCAL_PROJECT ex_directory = Inr SCOPES \<and> ex_credential \<in> set (dir_credentials ex_directory)"
  using credentials_follow_access [OF ex_directory_reach] by (simp add: ex_directory_def)

text \<open>
  Changing the project keeps every ceiling. A successful rotation moves the session to a
  credential of the same subject with the same expiry, kind and resource limits, never with scopes
  beyond the access to the new project, and for a local session never beyond the rotated
  credential; the old credential is gone.
\<close>

theorem switch_keeps_ceiling:
  assumes "switch_project ext rot clk secret i csrf old project d = Inr (e, (s, v))"
  shows "\<exists>c S. find_row cd_id (dir_credentials d) old = Some c \<and> access (cd_subject_id c) project e = Inr S \<and>
    pr_id v = i \<and> pr_project_id v = project \<and> pr_subject_id v = cd_subject_id c \<and> pr_expires_at v = cd_expires c \<and> pr_kind v = cd_kind c \<and>
    pr_node_ids v = cd_nodes c \<and> pr_root_ids v = cd_roots c \<and> set (pr_scopes v) \<subseteq> set S \<and>
    (cd_kind c = Session \<longrightarrow> set (pr_scopes v) \<subseteq> set (cd_scopes c)) \<and> cd_kind c \<in> {Session, Remote} \<and>
    (\<forall>now. auth_current ext now old e = Inl unauthenticated)"
  using assms
proof (rule switch_step)
  fix p row scopes
  assume p: "auth_current ext (clk 0) old d = Inr p" "pr_kind p \<in> {Session, Remote}" "access (pr_subject_id p) project d = Inr scopes"
    "find_row cd_id (dir_credentials d) old = Some row" "auth_current ext (clk 1) i e = Inr v" "\<forall>x\<in>set (dir_credentials d). cd_id x \<noteq> i"
    and e: "e = d\<lparr>dir_credentials := filter (\<lambda>c. cd_id c \<noteq> old)
        (add_row (rotated p row (if pr_kind p = Remote then sorted_set scopes else cd_scopes row) secret i csrf project) (dir_credentials d))\<rparr>"
  let ?c = "rotated p row (if pr_kind p = Remote then sorted_set scopes else cd_scopes row) secret i csrf project"
  have old: "pr_subject_id p = cd_subject_id row" "pr_expires_at p = cd_expires row" "pr_kind p = cd_kind row"
    using p(1) by (rule auth_currentE, use p(4) in auto)+
  have acc: "access s q e = access s q d" for s q by (rule access_cong) (simp_all add: e)
  have gone: "find_row cd_id (dir_credentials e) old = None" by (auto simp: e find_row_None)
  show ?thesis
    using p(5)
  proof (rule auth_currentE)
    fix c S assume c: "c \<in> set (dir_credentials e)" "cd_id c = i" "pr_id v = cd_id c" "pr_subject_id v = cd_subject_id c"
      "pr_project_id v = cd_project_id c" "pr_kind v = cd_kind c" "pr_expires_at v = cd_expires c" "pr_node_ids v = cd_nodes c"
      "pr_root_ids v = cd_roots c" "access (cd_subject_id c) (cd_project_id c) e = Inr S" "set (pr_scopes v) = set (cd_scopes c) \<inter> set S"
    have "c = ?c" using c(1,2) p(6) by (auto simp: e add_row_def split: if_splits)
    with c old p(2,4) gone show ?thesis
      by (intro exI [of _ row] exI [of _ S]) (auto simp: rotated_def auth_current_def access_row_def live_entry_def)
  qed
qed

lemma ex_switch:
  "\<exists>e v. switch_project None None (\<lambda>_. 1) ''s2'' ''c2'' ''y'' ''c1'' LOCAL_PROJECT ex_directory = Inr (e, (''s2'', v))"
proof -
  let ?v = "\<lambda>i csrf. \<lparr>pr_id = i, pr_scopes = [''contributors:read'', ''jobs:execute''], pr_node_ids = None, pr_root_ids = None,
     pr_subject_id = LOCAL_OWNER, pr_project_id = LOCAL_PROJECT, pr_label = ''Local owner'', pr_csrf = csrf, pr_kind = Session,
     pr_expires_at = 3600, pr_project_nodes = [], pr_project_roots = []\<rparr>"
  let ?c = "\<lambda>i g csrf. ex_credential\<lparr>cd_id := i, cd_digest := g, cd_csrf := csrf\<rparr>"
  have srt: "sorted_set [''jobs:execute'', ''contributors:read''] = [''contributors:read'', ''jobs:execute'']" by code_simp
  have cur: "auth_current None 1 i (empty_directory\<lparr>dir_credentials := [?c i g csrf]\<rparr>) = Inr (?v i csrf)" for i g csrf
    by (simp add: auth_current_def access_row_def empty_directory_def initialize_def find_row_def live_entry_def principal_of_def
        external_ok_def permitted_scopes_def ex_credential_def SCOPES_def srt)
  have first: "auth_current None 1 ''c1'' ex_directory = Inr (?v ''c1'' ''x'')"
    using cur [where i = "''c1''" and g = "''d1''" and csrf = "''x''"] by (simp add: ex_directory_def ex_credential_def)
  have new: "rotated (?v ''c1'' ''x'') ex_credential (cd_scopes ex_credential) ''s2'' ''c2'' ''y'' LOCAL_PROJECT = ?c ''c2'' (sha256_hex ''s2'') ''y''"
    by (simp add: rotated_def ex_credential_def)
  have acc: "access LOCAL_OWNER LOCAL_PROJECT ex_directory = Inr SCOPES" by (simp add: ex_directory_def access_owner_empty)
  have ins: "insert_credential (?c ''c2'' (sha256_hex ''s2'') ''y'') ex_directory =
      Inr (ex_directory\<lparr>dir_credentials := [ex_credential, ?c ''c2'' (sha256_hex ''s2'') ''y'']\<rparr>)"
  proof -
    have "sha256_hex ''s2'' \<noteq> ''d1''" using sha256_hex_shape [of "''s2''"] by (intro notI) simp
    then show ?thesis by (auto simp: insert_credential_def ex_directory_def add_row_def ex_credential_def)
  qed
  have row: "find_row cd_id (dir_credentials ex_directory) ''c1'' = Some ex_credential"
    by (simp add: ex_directory_def find_row_def ex_credential_def)
  have left: "(ex_directory\<lparr>dir_credentials := [ex_credential, ?c ''c2'' (sha256_hex ''s2'') ''y'']\<rparr>)\<lparr>dir_credentials :=
      filter (\<lambda>c. cd_id c \<noteq> ''c1'') [ex_credential, ?c ''c2'' (sha256_hex ''s2'') ''y'']\<rparr> =
      empty_directory\<lparr>dir_credentials := [?c ''c2'' (sha256_hex ''s2'') ''y'']\<rparr>"
    by (simp add: ex_directory_def ex_credential_def)
  show ?thesis
    using cur [where i = "''c2''" and g = "sha256_hex ''s2''" and csrf = "''y''"] left
    by (simp add: switch_project_def first acc row new ins)
qed

theorem switch_keeps_ceiling_witness:
  "\<exists>e (v :: auth_principal). pr_project_id v = LOCAL_PROJECT \<and> pr_expires_at v = 3600 \<and> auth_current None 1 ''c1'' e = Inl unauthenticated"
proof -
  obtain e v where "switch_project None None (\<lambda>_. 1) ''s2'' ''c2'' ''y'' ''c1'' LOCAL_PROJECT ex_directory = Inr (e, (''s2'', v))"
    using ex_switch by blast
  from switch_keeps_ceiling [OF this]
  have "pr_project_id v = LOCAL_PROJECT \<and> pr_expires_at v = 3600 \<and> auth_current None 1 ''c1'' e = Inl unauthenticated"
    by (auto simp: ex_directory_def find_row_def ex_credential_def)
  then show ?thesis by blast
qed

section \<open>Policy state\<close>

text \<open>
  The policy state only moves forward. In a reachable directory the history holds at most 64
  activations with strictly increasing revisions, the active package is the last one and
  enforcement is required as soon as there is one; and in every later directory the revision has
  not decreased, an equal revision means an equal state, enforcement stays required, every
  publisher keeps its key and every stored package its archive, which its digest determines.
\<close>

theorem policy_moves_forward:
  assumes "dir_reach d" and "dir_step\<^sup>*\<^sup>* d e"
  shows "policy_shape (policy_of d) \<and> policy_shape (policy_of e) \<and> ps_revision (policy_of d) \<le> ps_revision (policy_of e) \<and>
    (ps_revision (policy_of d) = ps_revision (policy_of e) \<longrightarrow> policy_of e = policy_of d) \<and>
    (ps_required (policy_of d) \<longrightarrow> ps_required (policy_of e)) \<and>
    (\<forall>i p. find_row pb_id (dir_publishers d) i = Some p \<longrightarrow>
       (\<exists>q. find_row pb_id (dir_publishers e) i = Some q \<and> pb_public_key q = pb_public_key p)) \<and>
    (\<forall>g r. find_row pk_digest (dir_packages d) g = Some r \<longrightarrow> find_row pk_digest (dir_packages e) g = Some r \<and> sha256_hex (pk_archive r) = g)"
proof -
  have inv: "dir_inv d" "dir_inv e" using dir.reach_inv [OF assms(1)] dir.run_inv [OF assms(2)] by auto
  have later: "policy_later d e" using dir.reach_rel [OF assms] by (simp add: dir_later_def)
  have "sha256_hex (pk_archive r) = g" if "find_row pk_digest (dir_packages d) g = Some r" for g r
    using find_row_Some [OF that] inv(1) by (auto simp: dir_inv_def policies_ok_def packages_ok_def)
  then show ?thesis using inv later by (simp add: policy_later_def dir_inv_def policies_ok_def)
qed

theorem policy_moves_forward_witness:
  "ps_revision (policy_of ex_directory) \<le> ps_revision (policy_of ex_trusted) \<and> policy_shape (policy_of ex_trusted)"
  using policy_moves_forward [OF ex_directory_reach r_into_rtranclp [of dir_step, OF ds_trust [OF ex_trust]]] by blast

section \<open>Decisions\<close>

text \<open>The evaluator allowed a request: it answered an envelope with the current revision that contains the request.\<close>

definition approved :: "policy_world \<Rightarrow> prepared \<Rightarrow> policy_state \<Rightarrow> policy_request \<Rightarrow> bool" where
  "approved w x s q \<longleftrightarrow> (\<exists>qs v vs k r. envelope qs (ps_revision s) = Inr v \<and> pw_answer w (pp_id x) v = Some (JArr vs) \<and>
     length vs = length qs \<and> k < length qs \<and> qs ! k = q \<and> decode_decision (vs ! k) q = Inr r \<and> dc_allow r)"

lemma decode_decisions_Inr:
  assumes "decode_decisions vs qs = Inr ds" and "length vs = length qs"
  shows "length ds = length qs \<and> (\<forall>k<length qs. decode_decision (vs ! k) (qs ! k) = Inr (ds ! k))"
  using assms
proof (induction vs qs arbitrary: ds rule: decode_decisions.induct)
  case (1 v vs q qs)
  from "1.prems" obtain x xs where x: "decode_decision v q = Inr x" "decode_decisions vs qs = Inr xs" "ds = x # xs"
    by (auto simp: bindr_Inr)
  with "1.IH" [of xs] "1.prems"(2) show ?case by (auto simp: nth_Cons split: nat.split)
qed auto

lemma evaluate_Inr:
  assumes "evaluate runner qs revision = Inr ds"
  obtains v vs where "envelope qs revision = Inr v" and "runner v = Some (JArr vs)" and "length vs = length qs" and "decode_decisions vs qs = Inr ds"
proof -
  from assms obtain v where v: "envelope qs revision = Inr v" by (auto simp: evaluate_def bindr_Inr)
  with assms obtain j where j: "runner v = Some j" by (cases "runner v") (auto simp: evaluate_def)
  with assms v show thesis by (cases j) (auto simp: evaluate_def split: if_splits intro: that)
qed

lemma decisions_approved:
  assumes "decisions w qs s None po d = (po1, Inr ds)"
  shows "po1 = po" and "\<exists>x. po_prepared po = Some x \<and> evaluator_current s po d \<and>
    length ds = length qs \<and> (\<forall>k<length qs. dc_allow (ds ! k) \<longrightarrow> approved w x s (qs ! k))"
proof -
  from assms obtain x where x: "po1 = po" "po_prepared po = Some x" "evaluator_current s po d"
    "evaluate (pw_answer w (pp_id x)) qs (ps_revision s) = Inr ds"
    by (cases "envelope qs (ps_revision s)"; cases "po_prepared po") (auto simp: decisions_def split: sum.splits if_splits)
  then show "po1 = po" by simp
  from x(4) obtain v vs where v: "envelope qs (ps_revision s) = Inr v" "pw_answer w (pp_id x) v = Some (JArr vs)"
    "length vs = length qs" "decode_decisions vs qs = Inr ds"
    by (rule evaluate_Inr)
  note ds = decode_decisions_Inr [OF v(4,3)]
  have "approved w x s (qs ! k)" if "k < length qs" "dc_allow (ds ! k)" for k
    unfolding approved_def using v(1,2,3) ds that by blast
  with ds x(2,3) show "\<exists>x. po_prepared po = Some x \<and> evaluator_current s po d \<and>
    length ds = length qs \<and> (\<forall>k<length qs. dc_allow (ds ! k) \<longrightarrow> approved w x s (qs ! k))" by blast
qed

lemma decide_batches_approved:
  "decide_batches w qs s po d = (po1, Inr ds) \<Longrightarrow> list_all dc_allow ds \<Longrightarrow>
     po1 = po \<and> (\<forall>q\<in>set qs. \<exists>x. po_prepared po = Some x \<and> evaluator_current s po d \<and> approved w x s q)"
proof (induction w qs s po d arbitrary: po1 ds rule: decide_batches.induct)
  case (1 w qs s po d)
  show ?case
  proof (cases "qs = []")
    case True
    then show ?thesis using "1.prems" by (simp add: decide_batches.simps)
  next
    case False
    with "1.prems"(1) obtain p1 as bs where a: "decisions w (take 64 qs) s None po d = (p1, Inr as)"
      and b: "decide_batches w (drop 64 qs) s p1 d = (po1, Inr bs)" and ds: "ds = as @ bs"
      by (subst (asm) decide_batches.simps) (auto split: prod.splits sum.splits)
    note da = decisions_approved [OF a]
    have rest: "po1 = p1 \<and> (\<forall>q\<in>set (drop 64 qs). \<exists>x. po_prepared p1 = Some x \<and> evaluator_current s p1 d \<and> approved w x s q)"
      using "1.IH" [OF False a [symmetric] refl, of po1 bs] b "1.prems"(2) ds by simp
    have first: "\<exists>x. po_prepared po = Some x \<and> evaluator_current s po d \<and> approved w x s q" if "q \<in> set (take 64 qs)" for q
    proof -
      from that obtain k where k: "k < length (take 64 qs)" "take 64 qs ! k = q" by (metis in_set_conv_nth)
      have "list_all dc_allow as" using "1.prems"(2) ds by simp
      with da(2) k show ?thesis by (auto simp: list_all_length simp del: nth_take)
    qed
    have "set qs = set (take 64 qs) \<union> set (drop 64 qs)" by (metis append_take_drop_id set_append)
    with first rest da(1) show ?thesis by auto
  qed
qed

lemma require_all_Inr: "require_all p rs = Inr u \<longleftrightarrow> (\<forall>(action, nid, rid)\<in>set rs. host_allows p action nid rid)"
  by (induction p rs rule: require_all.induct) (auto simp: bindr_Inr require_host_def)

lemma set_first_occurrences [simp]: "set (first_occurrences xs) = set xs"
  by (simp add: first_occurrences_def)

text \<open>
  C39: a required policy is enforced. If a check of several requirements succeeds while the policy is
  required, then for each of them the stored grants of the credential allow the action, an
  evaluator is prepared for exactly the active package, its publisher is still trusted with an
  unchanged key and revision, and this evaluator allowed a request that names the action, the
  resource and the current roles and scopes of the credential under the current policy revision.
  So without a working evaluator every access is denied.
\<close>

theorem policy_enforced:
  assumes "check_many w ext clk p rs po d = (po', Inr ())" and "po_required po" and "get_state d = Inr s" and "ps_required s"
    and "(action, nid, rid) \<in> set rs"
  shows "\<exists>c a x pub q. auth_current ext (clk 0) (pr_id p) d = Inr c \<and> host_allows c action nid rid \<and>
    policy_authority_of c None None d = Inr a \<and> po_prepared po = Some x \<and> \<not> po_error po \<and> po_digest po = ps_active s \<and>
    po_publisher po = Some pub \<and> publisher (pb_id pub) d = Inr pub \<and>
    rq_action q = action \<and> rq_authority q = JObj (authority_dump (a\<lparr>pa_node_id := nid, pa_root_id := rid\<rparr>)) \<and> approved w x s q"
proof -
  let ?sel = "first_occurrences rs"
  have ne: "?sel \<noteq> []" using assms(5) by (metis empty_iff set_empty set_first_occurrences)
  from assms(1-4) ne obtain c a ds where c: "auth_current ext (clk 0) (pr_id p) d = Inr c" "require_all c ?sel = Inr ()"
    "policy_authority_of c None None d = Inr a"
    "decide_batches w (map (policy_ask w a) (enumerate 0 ?sel)) s po d = (po', Inr ds)" "list_all dc_allow ds"
    by (auto simp: check_many_def Let_def bindr_Inr split: sum.splits prod.splits if_splits)
  have "(action, nid, rid) \<in> set ?sel" using assms(5) by simp
  then obtain n where "n < length ?sel" "?sel ! n = (action, nid, rid)" by (metis in_set_conv_nth)
  then have "policy_ask w a (n, (action, nid, rid)) \<in> set (map (policy_ask w a) (enumerate 0 ?sel))"
    by (force simp: in_set_enumerate_eq)
  with decide_batches_approved [OF c(4,5)] obtain x where x: "po_prepared po = Some x" "evaluator_current s po d"
    "approved w x s (policy_ask w a (n, (action, nid, rid)))" by blast
  moreover have "host_allows c action nid rid" using c(2) assms(5) by (auto simp: require_all_Inr)
  ultimately show ?thesis using c(1,3)
    by (intro exI [of _ c] exI [of _ a] exI [of _ x] exI [of _ "the (po_publisher po)"] exI [of _ "policy_ask w a (n, (action, nid, rid))"])
      (auto simp: evaluator_current_def policy_ask_def split: option.splits)
qed

definition ex_hash :: string where
  "ex_hash = replicate 64 (CHR ''a'')"

definition ex_state :: policy_state where
  "ex_state = \<lparr>ps_revision = 2, ps_required = True, ps_active = Some ex_hash, ps_previous = None, ps_history = [(2, ex_hash)]\<rparr>"

definition ex_enforcing :: directory where
  "ex_enforcing = ex_directory\<lparr>dir_publishers := [ex_publisher], dir_policy_state := Some ex_state\<rparr>"

definition ex_policy_world :: policy_world where
  "ex_policy_world = \<lparr>pw_library = \<lparr>pl_members = \<lambda>_. None, pl_decode = \<lambda>_. None, pl_signed = \<lambda>_ _ _ _. False\<rparr>, pw_prepare = \<lambda>_. Inr (),
     pw_answer = \<lambda>_ _. Some (JArr [JObj [(''id'', JStr ''t''), (''allow'', JBool True), (''reason'', JStr ''ok'')]]),
     pw_close = \<lambda>_. True, pw_object = 1, pw_token = \<lambda>_. ''t'', pw_live = Inr ()\<rparr>"

definition ex_policies :: policies where
  "ex_policies = \<lparr>po_prepared = Some \<lparr>pp_id = 1, pp_runner = True\<rparr>, po_digest = Some ex_hash, po_publisher = Some ex_view,
     po_error = False, po_required = True, po_retired = []\<rparr>"

definition ex_principal :: auth_principal where
  "ex_principal = \<lparr>pr_id = ''c1'', pr_scopes = [''contributors:read'', ''jobs:execute''], pr_node_ids = None, pr_root_ids = None,
     pr_subject_id = LOCAL_OWNER, pr_project_id = LOCAL_PROJECT, pr_label = ''Local owner'', pr_csrf = ''x'', pr_kind = Session,
     pr_expires_at = 3600, pr_project_nodes = [], pr_project_roots = []\<rparr>"

definition ex_authority :: policy_authority where
  "ex_authority = \<lparr>pa_subject_id = LOCAL_OWNER, pa_project_id = LOCAL_PROJECT, pa_credential_id = ''c1'', pa_local_owner = True,
     pa_roles = [], pa_scopes = [''contributors:read'', ''jobs:execute''], pa_node_id = None, pa_root_id = None,
     pa_contributor_enforcement = False\<rparr>"

lemma ex_session_current: "auth_current None 1 ''c1'' ex_enforcing = Inr ex_principal"
proof -
  have "sorted_set [''jobs:execute'', ''contributors:read''] = [''contributors:read'', ''jobs:execute'']" by code_simp
  then show ?thesis
    by (simp add: auth_current_def access_row_def ex_enforcing_def ex_directory_def empty_directory_def initialize_def find_row_def
        live_entry_def principal_of_def external_ok_def permitted_scopes_def ex_credential_def SCOPES_def ex_principal_def)
qed

lemma ex_get_state: "get_state ex_enforcing = Inr ex_state"
proof -
  have "Hex64 ex_hash" by code_simp
  then show ?thesis by (simp add: get_state_def ex_enforcing_def state_value_def ex_state_def revision_ok_def)
qed

lemma ex_authority_of: "policy_authority_of ex_principal None None ex_enforcing = Inr ex_authority"
  by (simp add: policy_authority_of_def roles_of_def find_binding_def ex_enforcing_def ex_directory_def empty_directory_def find_row_def
      ex_principal_def ex_authority_def local_owner_def)

lemma ex_decisions:
  "decide_batches ex_policy_world [policy_ask ex_policy_world ex_authority (0, (''jobs:execute'', None, None))] ex_state ex_policies ex_enforcing =
     (ex_policies, Inr [\<lparr>dc_id = ''t'', dc_allow = True, dc_reason = ''ok''\<rparr>])"
proof -
  let ?q = "policy_ask ex_policy_world ex_authority (0, (''jobs:execute'', None, None))"
  have q: "request_dump ?q = JObj [(''id'', JStr ''t''), (''action'', JStr ''jobs:execute''),
      (''authority'', JObj (authority_dump ex_authority)), (''labels'', JObj [])]"
    by (simp add: request_dump_def policy_ask_def ex_policy_world_def ex_authority_def)
  have "length (dumps (JObj [(''input'', JObj [(''version'', JInt 1), (''revision'', JInt 2), (''requests'', JArr [JObj
      [(''id'', JStr ''t''), (''action'', JStr ''jobs:execute''), (''authority'', JObj (authority_dump ex_authority)), (''labels'', JObj [])]])])])) < 1000"
    by code_simp
  then obtain v where v: "envelope [?q] 2 = Inr v" by (simp add: envelope_def q MAX_ENVELOPE_def Let_def)
  have "reason_ok ''ok''" by code_simp
  have e: "evaluate (pw_answer ex_policy_world 1) [?q] 2 = Inr [\<lparr>dc_id = ''t'', dc_allow = True, dc_reason = ''ok''\<rparr>]"
  proof -
    have "decode_decision (JObj [(''id'', JStr ''t''), (''allow'', JBool True), (''reason'', JStr ''ok'')]) ?q =
        Inr \<lparr>dc_id = ''t'', dc_allow = True, dc_reason = ''ok''\<rparr>"
      using \<open>reason_ok ''ok''\<close> by (simp add: decode_decision_def policy_ask_def ex_policy_world_def insert_commute)
    moreover have "pw_answer ex_policy_world 1 v = Some (JArr [JObj [(''id'', JStr ''t''), (''allow'', JBool True), (''reason'', JStr ''ok'')]])"
      by (simp add: ex_policy_world_def)
    ultimately show ?thesis by (simp add: evaluate_def v)
  qed
  have "publishers ex_enforcing = Inr [ex_view]" by (rule ex_publishers) (simp add: ex_enforcing_def)
  then have "publisher (pb_id ex_view) ex_enforcing = Inr ex_view"
    using ex_identifier by (simp add: publisher_def ex_view_def find_row_def)
  then have "evaluator_current ex_state ex_policies ex_enforcing" by (simp add: evaluator_current_def ex_policies_def ex_state_def)
  with v e show ?thesis
    by (subst decide_batches.simps) (simp add: decisions_def ex_state_def ex_policies_def decide_batches.simps [of _ "[]"])
qed

lemma ex_check: "check_many ex_policy_world None (\<lambda>_. 1) ex_principal [(''jobs:execute'', None, None)] ex_policies ex_enforcing = (ex_policies, Inr ())"
proof -
  have "host_allows ex_principal ''jobs:execute'' None None" by (simp add: host_allows_def ex_principal_def)
  then have "require_all ex_principal [(''jobs:execute'', None, None)] = Inr ()" by (simp add: require_host_def)
  moreover have "pr_id ex_principal = ''c1''" by (simp add: ex_principal_def)
  ultimately show ?thesis
    using ex_decisions by (simp add: check_many_def Let_def first_occurrences_def ex_session_current ex_get_state ex_authority_of ex_policies_def
        ex_state_def enumerate_eq_zip)
qed

theorem policy_enforced_witness:
  "\<exists>q. rq_action q = ''jobs:execute'' \<and> approved ex_policy_world \<lparr>pp_id = 1, pp_runner = True\<rparr> ex_state q"
proof -
  have "po_required ex_policies" "ps_required ex_state" by (simp_all add: ex_policies_def ex_state_def)
  from policy_enforced [OF ex_check this(1) ex_get_state this(2), of "''jobs:execute''" None None] show ?thesis
    by (auto simp: ex_policies_def)
qed

end
