(* ===== verification/Work_Authority.thy ===== *)
theory Work_Authority
  imports Access_Props Contrib_Store
begin

text \<open>
  Durable workload delegations (\<open>src/ficc/workloads/authority.py\<close>). A submission captures the
  revisions of everything its authority rests on; a delegation is current only while none of them
  has changed. The directory, the database of contributors and the policy service are arguments;
  \<open>safety\<close> is the check of the registered input dataset of a job, which tells whether the data is
  sensitive. All operations hold the store lock.
\<close>

section \<open>Stamps\<close>

record stamp =
  sp_subject_revision :: int
  sp_project_revision :: int
  sp_membership_revision :: int
  sp_policy_revision :: int
  sp_role_revision :: int
  sp_policy_digest :: "string option"
  sp_publisher_revision :: int

definition publisher_of_package :: "string \<Rightarrow> directory \<Rightarrow> publisher_row option" where
  "publisher_of_package g d =
     (case find_row pk_digest (dir_packages d) g of None \<Rightarrow> None | Some b \<Rightarrow> find_row pb_id (dir_publishers d) (pk_publisher b))"

definition publisher_revision_of :: "policy_state \<Rightarrow> directory \<Rightarrow> int res" where
  "publisher_revision_of s d =
     (case ps_active s of
        None \<Rightarrow> Inr 0
      | Some g \<Rightarrow> (case publisher_of_package g d of None \<Rightarrow> Inl untrusted
                  | Some p \<Rightarrow> if \<not> pb_enabled p then Inl untrusted else Inr (pb_revision p)))"

definition make_stamp :: "string \<Rightarrow> string \<Rightarrow> directory \<Rightarrow> (string list \<times> stamp) res" where
  "make_stamp subject project d =
     bindr (access subject project d) (\<lambda>scopes.
     bindr (dir_user subject d) (\<lambda>u.
     bindr (dir_project project d) (\<lambda>q.
     bindr (get_state d) (\<lambda>s.
     bindr (publisher_revision_of s d) (\<lambda>r.
     Inr (scopes,
       \<lparr>sp_subject_revision = nm_revision u, sp_project_revision = nm_revision q,
        sp_membership_revision = (case find_membership project subject d of Some m \<Rightarrow> mb_revision m | None \<Rightarrow> 0),
        sp_policy_revision = ps_revision s,
        sp_role_revision = (case find_binding project subject d of Some b \<Rightarrow> bn_revision b | None \<Rightarrow> 0),
        sp_policy_digest = ps_active s, sp_publisher_revision = r\<rparr>))))))"

section \<open>Capture\<close>

definition authority_node :: "string \<Rightarrow> string \<Rightarrow> database \<Rightarrow> contributor res" where
  "authority_node project i db =
     bindr (get_node db i) (\<lambda>n.
     bindr (ensure (cn_project_id n = project) (Failure ''not_found'' 404)) (\<lambda>_.
     bindr (ensure (\<not> cn_disabled n) (Failure ''contributor_disabled'' 403)) (\<lambda>_. Inr n)))"

fun authority_nodes :: "string \<Rightarrow> string list \<Rightarrow> database \<Rightarrow> unit res" where
  "authority_nodes project [] db = Inr ()"
| "authority_nodes project (i # is) db = bindr (authority_node project i db) (\<lambda>_. authority_nodes project is db)"

definition new_delegation :: "string \<Rightarrow> auth_principal \<Rightarrow> stamp \<Rightarrow> delegation" where
  "new_delegation token c st =
     \<lparr>del_id = token, del_subject_id = pr_subject_id c, del_project_id = pr_project_id c, del_credential_id = pr_id c,
      del_scopes = sort (pr_scopes c), del_subject_revision = sp_subject_revision st, del_project_revision = sp_project_revision st,
      del_membership_revision = sp_membership_revision st, del_policy_revision = sp_policy_revision st,
      del_role_revision = sp_role_revision st, del_policy_digest = sp_policy_digest st,
      del_publisher_revision = sp_publisher_revision st\<rparr>"

definition delegate :: "string \<Rightarrow> auth_principal \<Rightarrow> submission \<Rightarrow> directory \<Rightarrow> database \<Rightarrow> delegation res" where
  "delegate token c request d db =
     bindr (ensure (\<not> (pr_node_ids c \<noteq> None \<or> pr_root_ids c \<noteq> None)) (Failure ''denied'' 403)) (\<lambda>_.
     bindr (make_stamp (pr_subject_id c) (pr_project_id c) d) (\<lambda>(_, st).
     bindr (authority_nodes (pr_project_id c) (sub_node_ids request) db) (\<lambda>_.
     let v = new_delegation token c st in
     bindr (ensure (valid_delegation v) ValueError) (\<lambda>_. Inr v))))"

definition capture :: "policy_world \<Rightarrow> (string \<Rightarrow> string \<Rightarrow> unit res) option \<Rightarrow> (nat \<Rightarrow> rat) \<Rightarrow> string \<Rightarrow> string \<Rightarrow> submission \<Rightarrow> directory \<Rightarrow> database \<Rightarrow> policies \<Rightarrow> policies \<times> delegation res" where
  "capture w ext clk token actor request d db po =
     (case auth_current ext (clk 0) actor d of
        Inl e \<Rightarrow> (po, Inl e)
      | Inr c \<Rightarrow>
          (case require (Some (policies_check w ext (\<lambda>n. clk (1 + n)) d)) c ''jobs:execute'' None None po of
             (po1, Inl e) \<Rightarrow> (po1, Inl e)
           | (po1, Inr _) \<Rightarrow>
               (case require (Some (policies_check w ext (\<lambda>n. clk (3 + n)) d)) c ''contributors:read'' None None po1 of
                  (po2, Inl e) \<Rightarrow> (po2, Inl e)
                | (po2, Inr _) \<Rightarrow> (po2, delegate token c request d db))))"

section \<open>Current authority\<close>

definition same_stamp :: "delegation \<Rightarrow> stamp \<Rightarrow> bool" where
  "same_stamp v st \<longleftrightarrow>
     del_subject_revision v = sp_subject_revision st \<and> del_project_revision v = sp_project_revision st \<and>
     del_membership_revision v = sp_membership_revision st \<and> del_role_revision v = sp_role_revision st \<and>
     del_policy_digest v = sp_policy_digest st \<and> del_publisher_revision v = sp_publisher_revision st"

definition delegation_current :: "delegation \<Rightarrow> directory \<Rightarrow> auth_principal res" where
  "delegation_current v d =
     bindr (make_stamp (del_subject_id v) (del_project_id v) d) (\<lambda>(scopes, st).
     bindr (ensure (same_stamp v st) (Failure ''delegation_changed'' 403)) (\<lambda>_.
     Inr \<lparr>pr_id = del_id v, pr_scopes = sorted_set (filter (\<lambda>s. s \<in> set (del_scopes v)) scopes), pr_node_ids = None, pr_root_ids = None,
       pr_subject_id = del_subject_id v, pr_project_id = del_project_id v, pr_label = ''Workload delegation'', pr_csrf = [],
       pr_kind = Workload, pr_expires_at = 0, pr_project_nodes = [], pr_project_roots = []\<rparr>))"

section \<open>Checking one job on one contributor\<close>

definition mode_text :: "mode \<Rightarrow> string" where
  "mode_text m = (case m of Managed \<Rightarrow> ''managed'' | Voluntary \<Rightarrow> ''voluntary'')"

text \<open>
  The authority of the request: the dictionary of the delegation with the contributor and the job
  added; two of its keys are overwritten in place.
\<close>

definition workload_authority :: "policy_authority \<Rightarrow> contributor \<Rightarrow> bool \<Rightarrow> job_record \<Rightarrow> json" where
  "workload_authority a n enforcement job = JObj (
     authority_dump (a\<lparr>pa_contributor_enforcement := enforcement\<rparr>) @
     [(''contributor_id'', JStr (cn_id n)), (''contributor_mode'', JStr (mode_text (cn_mode n))), (''contributor_revision'', JInt (cn_revision n)),
      (''job_id'', JStr (rec_id job)), (''delegation_id'', JStr (del_id (rec_delegation job))),
      (''initiating_credential_id'', JStr (rec_actor job))])"

definition workload_labels :: "job_record \<Rightarrow> bool \<Rightarrow> string \<Rightarrow> json" where
  "workload_labels job sensitive node_id = JObj
     [(''workload'', job_dump (sub_job (rec_request job)\<lparr>job_sensitive := sensitive\<rparr>)), (''candidate_node_id'', JStr node_id)]"

definition workload_request :: "policy_world \<Rightarrow> policy_authority \<Rightarrow> contributor \<Rightarrow> bool \<Rightarrow> job_record \<Rightarrow> bool \<Rightarrow> policy_request" where
  "workload_request w a n enforcement job sensitive =
     \<lparr>rq_id = pw_token w 0, rq_action = ''jobs:execute'', rq_authority = workload_authority a n enforcement job,
      rq_labels = workload_labels job sensitive (cn_id n)\<rparr>"

record workload_grant =
  wg_principal :: auth_principal
  wg_node :: contributor
  wg_sensitive :: bool
  wg_state :: policy_state
  wg_authority :: policy_authority

definition workload_granted :: "(job_record \<Rightarrow> bool res) \<Rightarrow> job_record \<Rightarrow> string \<Rightarrow> directory \<Rightarrow> database \<Rightarrow> workload_grant res" where
  "workload_granted safety job node_id d db =
     bindr (ensure (\<not> (rec_cancelled job \<or> node_id \<notin> set (sub_node_ids (rec_request job)))) (Failure ''workload_cancelled'' 403)) (\<lambda>_.
     bindr (delegation_current (rec_delegation job) d) (\<lambda>c.
     bindr (require_host c ''jobs:execute'' None None) (\<lambda>_.
     bindr (require_host c ''contributors:read'' None None) (\<lambda>_.
     bindr (if sub_dataset (rec_request job) \<noteq> None then safety job else Inr False) (\<lambda>data.
     bindr (authority_node (rec_project_id job) node_id db) (\<lambda>n.
     let sensitive = (job_sensitive (sub_job (rec_request job)) \<or> data) in
     bindr (ensure (\<not> (sensitive \<and> cn_mode n \<noteq> Managed)) (Failure ''sensitive_workload'' 403)) (\<lambda>_.
     bindr (get_state d) (\<lambda>s.
     bindr (ensure (ps_required s) (Failure ''policy_required'' 409)) (\<lambda>_.
     bindr (policy_authority_of c None None d) (\<lambda>a.
     Inr \<lparr>wg_principal = c, wg_node = n, wg_sensitive = sensitive, wg_state = s, wg_authority = a\<rparr>))))))))))"

definition authority_check :: "policy_world \<Rightarrow> (job_record \<Rightarrow> bool res) \<Rightarrow> job_record \<Rightarrow> string \<Rightarrow> bool \<Rightarrow> directory \<Rightarrow> database \<Rightarrow> policies \<Rightarrow> policies \<times> int res" where
  "authority_check w safety job node_id enforcement d db po =
     (case workload_granted safety job node_id d db of
        Inl e \<Rightarrow> (po, Inl e)
      | Inr g \<Rightarrow>
          (case decisions w [workload_request w (wg_authority g) (wg_node g) enforcement job (wg_sensitive g)] (wg_state g) None po d of
             (po1, Inl e) \<Rightarrow> (po1, Inl e)
           | (po1, Inr ds) \<Rightarrow>
               (po1,
                bindr (delegation_current (rec_delegation job) d) (\<lambda>f.
                bindr (get_state d) (\<lambda>t.
                bindr (authority_node (rec_project_id job) node_id db) (\<lambda>m.
                bindr (roles_of (rec_project_id job) (rec_subject_id job) d) (\<lambda>roles.
                bindr (ensure (\<not> (pr_scopes f \<noteq> pr_scopes (wg_principal g) \<or> t \<noteq> wg_state g \<or> m \<noteq> wg_node g \<or>
                   roles \<noteq> pa_roles (wg_authority g))) (Failure ''policy_changed'' 409)) (\<lambda>_.
                bindr (ensure (case ds of [] \<Rightarrow> False | r # _ \<Rightarrow> dc_allow r) (Failure ''policy_denied'' 403)) (\<lambda>_.
                Inr (ps_revision (wg_state g)))))))))))"

section \<open>Properties\<close>

lemma make_stamp_Inr:
  assumes "make_stamp subject project d = Inr (scopes, st)"
  obtains u q s r where "access subject project d = Inr scopes" and "find_row nm_id (dir_identities d) subject = Some u"
    and "find_row nm_id (dir_projects d) project = Some q" and "get_state d = Inr s" and "publisher_revision_of s d = Inr r"
    and "sp_subject_revision st = nm_revision u" and "sp_project_revision st = nm_revision q"
    and "sp_membership_revision st = revision_at membership_key mb_revision (dir_memberships d) (project, subject)"
    and "sp_role_revision st = revision_at binding_key bn_revision (dir_bindings d) (project, subject)"
    and "sp_policy_digest st = ps_active s" and "sp_publisher_revision st = r" and "sp_policy_revision st = ps_revision s"
  using assms
  by (auto simp: make_stamp_def bindr_Inr get_named_def revision_at_def find_membership_def find_binding_def membership_key_fun
      binding_key_fun split: option.splits intro: that)

text \<open>Two stamps that agree, at an earlier and a later directory, rest on the same rows.\<close>

definition same_rows :: "string \<Rightarrow> string \<Rightarrow> directory \<Rightarrow> directory \<Rightarrow> bool" where
  "same_rows subject project d e \<longleftrightarrow>
     find_row nm_id (dir_identities e) subject = find_row nm_id (dir_identities d) subject \<and>
     find_row nm_id (dir_projects e) project = find_row nm_id (dir_projects d) project \<and>
     find_membership project subject e = find_membership project subject d \<and>
     find_binding project subject e = find_binding project subject d \<and>
     ps_active (policy_of e) = ps_active (policy_of d) \<and>
     (case ps_active (policy_of d) of None \<Rightarrow> True | Some g \<Rightarrow> publisher_of_package g e = publisher_of_package g d)"

lemma same_rows_access: "same_rows subject project d e \<Longrightarrow> access subject project e = access subject project d"
  unfolding access_def get_named_def by (simp add: same_rows_def cong: if_cong)

lemma versioned_same:
  "versioned key vers xs ys \<Longrightarrow> find_row key xs k = Some r \<Longrightarrow> find_row key ys k = Some t \<Longrightarrow> vers r = vers t \<Longrightarrow> t = r"
  by (erule (1) versionedD) simp

lemma same_publisher:
  assumes "policy_later d e" and "ps_active s = Some g" and "ps_active t = Some g"
    and "publisher_revision_of s d = Inr r" and "publisher_revision_of t e = Inr r"
  shows "publisher_of_package g e = publisher_of_package g d"
proof -
  obtain b x where b: "find_row pk_digest (dir_packages d) g = Some b" "find_row pb_id (dir_publishers d) (pk_publisher b) = Some x" "pb_revision x = r"
    using assms(2,4) by (auto simp: publisher_revision_of_def publisher_of_package_def split: option.splits if_splits)
  have p: "find_row pk_digest (dir_packages e) g = Some b" using assms(1) b(1) by (simp add: policy_later_def)
  then obtain y where y: "find_row pb_id (dir_publishers e) (pk_publisher b) = Some y" "pb_revision y = r"
    using assms(3,5) by (auto simp: publisher_revision_of_def publisher_of_package_def split: option.splits if_splits)
  have "versioned pb_id pb_revision (dir_publishers d) (dir_publishers e)" using assms(1) by (simp add: policy_later_def)
  from versioned_same [OF this b(2) y(1)] b(3) y(2) have "y = x" by simp
  then show ?thesis using b p y by (simp add: publisher_of_package_def)
qed

lemma stamps_same_rows:
  assumes "dir_reach d" and "dir_step\<^sup>*\<^sup>* d e" and "make_stamp subject project d = Inr (S, st)" and "make_stamp subject project e = Inr (T, su)"
    and "sp_subject_revision st = sp_subject_revision su" and "sp_project_revision st = sp_project_revision su"
    and "sp_membership_revision st = sp_membership_revision su" and "sp_role_revision st = sp_role_revision su"
    and "sp_policy_digest st = sp_policy_digest su" and "sp_publisher_revision st = sp_publisher_revision su"
  shows "same_rows subject project d e"
proof -
  have inv: "dir_inv e" using dir.reach_inv dir.run_inv assms(1,2) by blast
  have later: "accounts_later d e" "policy_later d e" using dir.reach_rel [OF assms(1,2)] by (simp_all add: dir_later_def)
  from assms(3) obtain u q s r where d: "find_row nm_id (dir_identities d) subject = Some u"
    "find_row nm_id (dir_projects d) project = Some q" "get_state d = Inr s" "publisher_revision_of s d = Inr r"
    "sp_subject_revision st = nm_revision u" "sp_project_revision st = nm_revision q"
    "sp_membership_revision st = revision_at membership_key mb_revision (dir_memberships d) (project, subject)"
    "sp_role_revision st = revision_at binding_key bn_revision (dir_bindings d) (project, subject)"
    "sp_policy_digest st = ps_active s" "sp_publisher_revision st = r" by (rule make_stamp_Inr)
  from assms(4) obtain v p t k where e: "find_row nm_id (dir_identities e) subject = Some v"
    "find_row nm_id (dir_projects e) project = Some p" "get_state e = Inr t" "publisher_revision_of t e = Inr k"
    "sp_subject_revision su = nm_revision v" "sp_project_revision su = nm_revision p"
    "sp_membership_revision su = revision_at membership_key mb_revision (dir_memberships e) (project, subject)"
    "sp_role_revision su = revision_at binding_key bn_revision (dir_bindings e) (project, subject)"
    "sp_policy_digest su = ps_active t" "sp_publisher_revision su = k" by (rule make_stamp_Inr)
  have user: "v = u" using later(1) d(1,5) e(1,5) assms(5) versioned_same unfolding accounts_later_def by metis
  have proj: "p = q" using later(1) d(2,6) e(2,6) assms(6) versioned_same unfolding accounts_later_def by metis
  have "find_row membership_key (dir_memberships d) (project, subject) = find_row membership_key (dir_memberships e) (project, subject)"
    using later(1) inv d(7) e(7) assms(7) by (intro revision_at_same) (auto simp: accounts_later_def dir_inv_def)
  then have mem: "find_membership project subject e = find_membership project subject d"
    by (simp add: find_membership_def membership_key_fun)
  have "find_row binding_key (dir_bindings d) (project, subject) = find_row binding_key (dir_bindings e) (project, subject)"
    using later(2) inv d(8) e(8) assms(8) by (intro revision_at_same) (auto simp: policy_later_def dir_inv_def policies_ok_def bindings_ok_def)
  then have bin: "find_binding project subject e = find_binding project subject d"
    by (simp add: find_binding_def binding_key_fun)
  have st: "policy_of d = s" "policy_of e = t" using get_state_Inr [OF d(3)] get_state_Inr [OF e(3)] by auto
  have act: "ps_active t = ps_active s" using d(9) e(9) assms(9) by simp
  have "publisher_of_package g e = publisher_of_package g d" if "ps_active s = Some g" for g
    using same_publisher [OF later(2), of s g t r] that act d(4,10) e(4,10) assms(10) by simp
  then show ?thesis using user proj mem bin d(1,2) e(1,2) st act by (simp add: same_rows_def split: option.split)
qed

end
