(* ===== verification/Work_Authority_Props.thy ===== *)
theory Work_Authority_Props
  imports Work_Authority Work_Records_Props
begin

text \<open>
  Properties of workload delegations: a delegation never gains authority, any change of what it
  rests on ends it for good, and a job runs on a contributor only with everything the code asks
  for.
\<close>

section \<open>Example states\<close>

definition ex_submitter :: credential where
  "ex_submitter = ex_credential\<lparr>cd_id := ex_id (CHR ''7'')\<rparr>"

definition ex_accounts :: directory where
  "ex_accounts = empty_directory\<lparr>dir_credentials := [ex_submitter]\<rparr>"

definition ex_submitting :: auth_principal where
  "ex_submitting = ex_principal\<lparr>pr_id := ex_id (CHR ''7'')\<rparr>"

definition ex_stamp :: stamp where
  "ex_stamp = \<lparr>sp_subject_revision = 0, sp_project_revision = 0, sp_membership_revision = 0, sp_policy_revision = 0, sp_role_revision = 0,
     sp_policy_digest = None, sp_publisher_revision = 0\<rparr>"

definition ex_delegated :: delegation where
  "ex_delegated = new_delegation (ex_id (CHR ''8'')) ex_submitting ex_stamp"

definition ex_machine :: contributor where
  "ex_machine = \<lparr>cn_id = ex_id (CHR ''1''), cn_project_id = LOCAL_PROJECT, cn_name = ''lab'', cn_mode = Managed, cn_disabled = False,
     cn_revision = 1, cn_created_at = 0\<rparr>"

definition ex_machines :: database where
  "ex_machines = \<lparr>db_projects = [(LOCAL_PROJECT, False)], db_nodes = [ex_machine], db_invitations = [], db_requests = [], db_certificates = [],
     db_work = empty_store\<rparr>"

definition ex_unenforced :: policies where
  "ex_unenforced = ex_policies\<lparr>po_required := False\<rparr>"

lemma ex_submit_issue: "issue_commit 0 ex_submitter empty_directory = Inr (ex_accounts, ())"
proof -
  have "dir_credentials empty_directory = []" by (simp add: empty_directory_def)
  moreover have "set (cd_scopes ex_submitter) \<subseteq> set SCOPES" by (simp add: ex_submitter_def ex_credential_def SCOPES_def)
  moreover have "access (cd_subject_id ex_submitter) (cd_project_id ex_submitter) empty_directory = Inr SCOPES"
    by (simp add: ex_submitter_def ex_credential_def access_owner_empty)
  ultimately show ?thesis by (simp add: issue_commit_def insert_credential_def add_row_def ex_accounts_def)
qed

lemma ex_accounts_reach: "dir_reach ex_accounts"
proof -
  have "dir_reach empty_directory" by (rule reach_start) simp
  then show ?thesis by (rule reach_step) (rule ds_issue [OF ex_submit_issue])
qed

lemma ex_submitting_current: "auth_current None 1 (ex_id (CHR ''7'')) ex_accounts = Inr ex_submitting"
proof -
  have "sorted_set [''jobs:execute'', ''contributors:read''] = [''contributors:read'', ''jobs:execute'']" by code_simp
  then show ?thesis
    by (simp add: auth_current_def access_row_def ex_accounts_def empty_directory_def initialize_def find_row_def ex_submitter_def
        live_entry_def principal_of_def external_ok_def permitted_scopes_def ex_credential_def SCOPES_def ex_principal_def ex_submitting_def)
qed

lemma ex_make_stamp: "make_stamp LOCAL_OWNER LOCAL_PROJECT ex_accounts = Inr (SCOPES, ex_stamp)"
proof -
  have "access LOCAL_OWNER LOCAL_PROJECT ex_accounts = Inr SCOPES" by (simp add: ex_accounts_def access_owner_empty)
  then show ?thesis
    by (simp add: make_stamp_def ex_accounts_def empty_directory_def initialize_def get_named_def find_row_def get_state_def state_value_def
        DEFAULT_STATE_def revision_ok_def publisher_revision_of_def find_membership_def find_binding_def ex_stamp_def)
qed

lemma ex_capture:
  "capture ex_policy_world None (\<lambda>_. 1) (ex_id (CHR ''8'')) (ex_id (CHR ''7'')) ex_submission ex_accounts ex_machines ex_unenforced =
     (ex_unenforced, Inr ex_delegated)"
proof -
  have host: "require_host ex_submitting ''jobs:execute'' None None = Inr ()" "require_host ex_submitting ''contributors:read'' None None = Inr ()"
    by (simp_all add: require_host_def host_allows_def ex_submitting_def ex_principal_def)
  have off: "\<not> po_required ex_unenforced" by (simp add: ex_unenforced_def)
  have ids: "pr_subject_id ex_submitting = LOCAL_OWNER" "pr_project_id ex_submitting = LOCAL_PROJECT" "pr_node_ids ex_submitting = None"
    "pr_root_ids ex_submitting = None" by (simp_all add: ex_submitting_def ex_principal_def)
  have nodes: "authority_nodes LOCAL_PROJECT (sub_node_ids ex_submission) ex_machines = Inr ()"
    by (simp add: ex_submission_def authority_node_def get_node_def ex_machines_def ex_machine_def find_row_def)
  have "Identity LOCAL_OWNER" "Identity LOCAL_PROJECT" "sort [''contributors:read'', ''jobs:execute''] = [''contributors:read'', ''jobs:execute'']"
    by code_simp+
  then have "valid_delegation ex_delegated" using ex_hex
    by (simp add: valid_delegation_def ex_delegated_def new_delegation_def ex_submitting_def ex_principal_def ex_stamp_def Count_def)
  then have "delegate (ex_id (CHR ''8'')) ex_submitting ex_submission ex_accounts ex_machines = Inr ex_delegated"
    by (simp add: delegate_def ids ex_make_stamp nodes Let_def flip: ex_delegated_def)
  then show ?thesis by (simp add: capture_def ex_submitting_current require_def host policies_check_def off)
qed

lemma ex_delegated_sel [simp]:
  "del_subject_id ex_delegated = LOCAL_OWNER" "del_project_id ex_delegated = LOCAL_PROJECT"
  by (simp_all add: ex_delegated_def new_delegation_def ex_submitting_def ex_principal_def)

lemma ex_delegated_current: "\<exists>p. delegation_current ex_delegated ex_accounts = Inr p"
  by (simp add: delegation_current_def ex_make_stamp same_stamp_def) (simp add: ex_delegated_def new_delegation_def)

section \<open>Captured delegations\<close>

lemma captureE:
  assumes "capture w ext clk token actor request d db po = (po', Inr v)"
  obtains c S st where "auth_current ext (clk 0) actor d = Inr c" and "make_stamp (pr_subject_id c) (pr_project_id c) d = Inr (S, st)"
    and "v = new_delegation token c st" and "host_allows c ''jobs:execute'' None None" and "pr_node_ids c = None" and "pr_root_ids c = None"
    and "authority_nodes (pr_project_id c) (sub_node_ids request) db = Inr ()"
proof -
  from assms obtain c po2 where c: "auth_current ext (clk 0) actor d = Inr c" "delegate token c request d db = Inr v"
    "require_host c ''jobs:execute'' None None = Inr ()"
    by (auto simp: capture_def require_def split: sum.splits prod.splits)
  then show thesis
    by (auto simp: delegate_def bindr_Inr Let_def require_host_def split: prod.splits if_splits intro!: that)
qed

lemma captured_scopes:
  assumes "capture w ext clk token actor request d db po = (po', Inr v)"
  obtains c S st where "auth_current ext (clk 0) actor d = Inr c" and "make_stamp (del_subject_id v) (del_project_id v) d = Inr (S, st)"
    and "same_stamp v st" and "set (del_scopes v) = set (pr_scopes c)" and "set (pr_scopes c) \<subseteq> set S"
    and "del_subject_id v = pr_subject_id c" and "del_project_id v = pr_project_id c"
  using assms
proof (rule captureE)
  fix c S st assume c: "auth_current ext (clk 0) actor d = Inr c" "make_stamp (pr_subject_id c) (pr_project_id c) d = Inr (S, st)"
    "v = new_delegation token c st"
  have "access (pr_subject_id c) (pr_project_id c) d = Inr S" using c(2) by (rule make_stamp_Inr)
  with c(1) have "set (pr_scopes c) \<subseteq> set S" by (elim auth_currentE) auto
  with c show thesis by (intro that [of c S st]) (auto simp: new_delegation_def same_stamp_def)
qed

lemma delegation_currentE:
  assumes "delegation_current v e = Inr p"
  obtains S st where "make_stamp (del_subject_id v) (del_project_id v) e = Inr (S, st)" and "same_stamp v st"
    and "set (pr_scopes p) = set S \<inter> set (del_scopes v)" and "pr_subject_id p = del_subject_id v" and "pr_project_id p = del_project_id v"
    and "access (del_subject_id v) (del_project_id v) e = Inr S"
proof -
  from assms obtain S st where s: "make_stamp (del_subject_id v) (del_project_id v) e = Inr (S, st)" "same_stamp v st"
    "p = \<lparr>pr_id = del_id v, pr_scopes = sorted_set (filter (\<lambda>s. s \<in> set (del_scopes v)) S), pr_node_ids = None, pr_root_ids = None,
       pr_subject_id = del_subject_id v, pr_project_id = del_project_id v, pr_label = ''Workload delegation'', pr_csrf = [],
       pr_kind = Workload, pr_expires_at = 0, pr_project_nodes = [], pr_project_roots = []\<rparr>"
    by (auto simp: delegation_current_def bindr_Inr split: prod.splits if_splits)
  moreover have "access (del_subject_id v) (del_project_id v) e = Inr S" using s(1) by (rule make_stamp_Inr)
  ultimately show thesis by (intro that [of S st]) auto
qed

lemma delegation_same_rows:
  assumes "dir_reach d" and "capture w ext clk token actor request d db po = (po', Inr v)" and "dir_step\<^sup>*\<^sup>* d e"
    and "delegation_current v e = Inr p"
  shows "same_rows (del_subject_id v) (del_project_id v) d e"
  using assms(2)
proof (rule captured_scopes)
  fix c S st assume c: "make_stamp (del_subject_id v) (del_project_id v) d = Inr (S, st)" "same_stamp v st"
  from assms(4) show ?thesis
  proof (rule delegation_currentE)
    fix T su assume "make_stamp (del_subject_id v) (del_project_id v) e = Inr (T, su)" "same_stamp v su"
    with c show ?thesis by (intro stamps_same_rows [OF assms(1,3) c(1)]) (auto simp: same_stamp_def)
  qed
qed

text \<open>
  A delegation keeps exactly the authority that was captured. If a delegation captured in a
  reachable directory is still current in a later one, then the user, the project, the membership,
  the roles, the active policy package and its publisher are unchanged, and it carries exactly the
  scopes that the submitting credential had when it was captured.
\<close>

theorem delegation_frozen:
  assumes "dir_reach d" and "capture w ext clk token actor request d db po = (po', Inr v)" and "dir_step\<^sup>*\<^sup>* d e"
    and "delegation_current v e = Inr p"
  shows "same_rows (del_subject_id v) (del_project_id v) d e \<and>
    (\<exists>c. auth_current ext (clk 0) actor d = Inr c \<and> set (pr_scopes p) = set (pr_scopes c) \<and>
       pr_subject_id p = pr_subject_id c \<and> pr_project_id p = pr_project_id c)"
proof -
  have rows: "same_rows (del_subject_id v) (del_project_id v) d e" by (rule delegation_same_rows [OF assms])
  from assms(2) show ?thesis
  proof (rule captured_scopes)
    fix c S st assume c: "auth_current ext (clk 0) actor d = Inr c" "make_stamp (del_subject_id v) (del_project_id v) d = Inr (S, st)"
      "set (del_scopes v) = set (pr_scopes c)" "set (pr_scopes c) \<subseteq> set S" "del_subject_id v = pr_subject_id c" "del_project_id v = pr_project_id c"
    have "access (del_subject_id v) (del_project_id v) d = Inr S" using c(2) by (rule make_stamp_Inr)
    then have acc: "access (del_subject_id v) (del_project_id v) e = Inr S" using same_rows_access [OF rows] by simp
    obtain T where "set (pr_scopes p) = set T \<inter> set (del_scopes v)" "pr_subject_id p = del_subject_id v" "pr_project_id p = del_project_id v"
      "access (del_subject_id v) (del_project_id v) e = Inr T" using assms(4) by (rule delegation_currentE)
    with acc c(3-6) have "set (pr_scopes p) = set (pr_scopes c)" "pr_subject_id p = pr_subject_id c" "pr_project_id p = pr_project_id c" by auto
    with c(1) rows show ?thesis by blast
  qed
qed

theorem delegation_frozen_witness:
  "same_rows LOCAL_OWNER LOCAL_PROJECT ex_accounts ex_accounts \<and> (\<exists>c. auth_current None 1 (ex_id (CHR ''7'')) ex_accounts = Inr c)"
  using ex_delegated_current delegation_frozen [OF ex_accounts_reach ex_capture rtranclp.rtrancl_refl] by auto

section \<open>Revocation\<close>

text \<open>A change of the membership, the user, the project or the roles that a delegation rests on.\<close>

definition changes_authority :: "delegation \<Rightarrow> directory \<Rightarrow> directory \<Rightarrow> bool" where
  "changes_authority v d e \<longleftrightarrow>
     (\<exists>scopes revision x. membership (del_project_id v) (del_subject_id v) scopes revision d = Inr (e, x)) \<or>
     (\<exists>label disabled revision x. update_named User_kind (del_subject_id v) label disabled revision d = Inr (e, x)) \<or>
     (\<exists>label disabled revision x. update_named Project_kind (del_project_id v) label disabled revision d = Inr (e, x)) \<or>
     (\<exists>roles expected x. bind_roles (del_project_id v) (del_subject_id v) roles expected d = Inr (e, x))"

lemma changes_step: "changes_authority v d e \<Longrightarrow> dir_step d e"
  by (auto simp: changes_authority_def intro: dir_step.intros)

lemma revision_at_mono:
  assumes "versioned key vers xs ys" and "positive_rows vers ys \<or> find_row key xs k \<noteq> None"
  shows "revision_at key vers xs k \<le> revision_at key vers ys k"
proof (cases "find_row key xs k")
  case None
  then show ?thesis using assms(2)
    by (auto simp: revision_at_def positive_rows_def dest!: find_row_Some split: option.split intro: less_imp_le)
next
  case (Some r)
  then show ?thesis using assms(1) by (auto simp: revision_at_def elim: versionedD)
qed

text \<open>The four revisions, added up.\<close>

definition authority_revision :: "delegation \<Rightarrow> directory \<Rightarrow> int" where
  "authority_revision v d =
     revision_at nm_id nm_revision (dir_identities d) (del_subject_id v) + revision_at nm_id nm_revision (dir_projects d) (del_project_id v) +
     revision_at membership_key mb_revision (dir_memberships d) (del_project_id v, del_subject_id v) +
     revision_at binding_key bn_revision (dir_bindings d) (del_project_id v, del_subject_id v)"

definition has_rows :: "delegation \<Rightarrow> directory \<Rightarrow> bool" where
  "has_rows v d \<longleftrightarrow> find_row nm_id (dir_identities d) (del_subject_id v) \<noteq> None \<and> find_row nm_id (dir_projects d) (del_project_id v) \<noteq> None"

lemma versioned_keeps: "versioned key vers xs ys \<Longrightarrow> find_row key xs k \<noteq> None \<Longrightarrow> find_row key ys k \<noteq> None"
  by (auto elim: versionedD)

lemma revision_mono:
  assumes "dir_later d e" and "dir_inv e" and "has_rows v d"
  shows "authority_revision v d \<le> authority_revision v e \<and> has_rows v e"
proof -
  have rows: "has_rows v e"
  proof -
    have "versioned nm_id nm_revision (dir_identities d) (dir_identities e)" "versioned nm_id nm_revision (dir_projects d) (dir_projects e)"
      using assms(1) by (simp_all add: dir_later_def accounts_later_def)
    from this [THEN versioned_keeps] assms(3) show ?thesis unfolding has_rows_def by blast
  qed
  have "revision_at nm_id nm_revision (dir_identities d) (del_subject_id v) \<le> revision_at nm_id nm_revision (dir_identities e) (del_subject_id v)"
    "revision_at nm_id nm_revision (dir_projects d) (del_project_id v) \<le> revision_at nm_id nm_revision (dir_projects e) (del_project_id v)"
    "revision_at membership_key mb_revision (dir_memberships d) (del_project_id v, del_subject_id v) \<le>
     revision_at membership_key mb_revision (dir_memberships e) (del_project_id v, del_subject_id v)"
    "revision_at binding_key bn_revision (dir_bindings d) (del_project_id v, del_subject_id v) \<le>
     revision_at binding_key bn_revision (dir_bindings e) (del_project_id v, del_subject_id v)"
    using assms by (auto simp: has_rows_def dir_later_def accounts_later_def policy_later_def dir_inv_def policies_ok_def bindings_ok_def
        intro!: revision_at_mono)
  with rows show ?thesis by (simp add: authority_revision_def)
qed

lemma same_rows_revision: "same_rows (del_subject_id v) (del_project_id v) d e \<Longrightarrow> authority_revision v e = authority_revision v d"
  by (simp add: same_rows_def authority_revision_def revision_at_def find_membership_def find_binding_def membership_key_fun binding_key_fun)

lemma membership_revision:
  assumes "membership project subject scopes revision d = Inr (e, x)"
  shows "revision_at membership_key mb_revision (dir_memberships e) (project, subject) =
    revision_at membership_key mb_revision (dir_memberships d) (project, subject) + 1"
  using assms
proof (rule membership_step)
  fix m assume m: "mb_project_id m = project" "mb_subject_id m = subject" "mb_revision m = revision + 1"
    "(case find_membership project subject d of Some m \<Rightarrow> mb_revision m | None \<Rightarrow> 0) = revision"
    and e: "e = (put_membership m d)\<lparr>dir_credentials :=
        filter (\<lambda>c. \<not> (scopes = [] \<and> cd_project_id c = project \<and> cd_subject_id c = subject)) (dir_credentials d)\<rparr>"
  have "find_membership project subject (put_membership m d) = Some m" by (simp add: find_put_membership m)
  then have "find_row membership_key (dir_memberships e) (project, subject) = Some m"
    by (simp add: e find_membership_def membership_key_fun)
  with m(3,4) show ?thesis by (auto simp: revision_at_def find_membership_def membership_key_fun split: option.splits)
qed

lemma update_revision:
  assumes "update_named k i label disabled revision d = Inr (e, r)"
  shows "revision_at nm_id nm_revision (named_table k e) i = revision_at nm_id nm_revision (named_table k d) i + 1"
  using assms
proof (rule update_step)
  fix q assume q: "find_row nm_id (named_table k d) i = Some q" "nm_id r = i" "nm_revision r = nm_revision q + 1"
    and e: "e = (set_named_table k (put_row nm_id i (\<lambda>_. r) (named_table k d)) d)\<lparr>dir_credentials :=
        filter (\<lambda>c. \<not> (disabled \<and> owned_by k i c)) (dir_credentials d)\<rparr>"
  have "named_table k e = put_row nm_id i (\<lambda>_. r) (named_table k d)" using e by (cases k) simp_all
  with q show ?thesis by (simp add: revision_at_def find_row_put_at)
qed

lemma bind_revision:
  assumes "bind_roles project subject roles expected d = Inr (e, x)" and "dir_inv d"
  shows "revision_at binding_key bn_revision (dir_bindings e) (project, subject) =
    revision_at binding_key bn_revision (dir_bindings d) (project, subject) + 1"
  using assms(1)
proof (rule bind_step)
  fix rs bs s assume b: "bindings project d = Inr bs"
    "(case find_row bv_subject_id bs subject of Some b \<Rightarrow> bv_revision b | None \<Rightarrow> 0) = expected"
    and e: "e = (put_binding \<lparr>bn_project_id = project, bn_subject_id = subject, bn_roles = rs, bn_revision = expected + 1\<rparr> d)
         \<lparr>dir_policy_state := Some (s\<lparr>ps_revision := ps_revision s + 1\<rparr>)\<rparr>"
  let ?b = "\<lparr>bn_project_id = project, bn_subject_id = subject, bn_roles = rs, bn_revision = expected + 1\<rparr>"
  have key: "binding_key ?b = (project, subject)" by (simp add: binding_key_def)
  have "find_row binding_key (dir_bindings (put_binding ?b d)) (project, subject) = Some ?b"
    unfolding put_binding_rows key by (auto simp: find_row_add find_row_put_at key split: option.splits)
  then have new: "revision_at binding_key bn_revision (dir_bindings e) (project, subject) = expected + 1" by (simp add: e revision_at_def)
  have "revision_at binding_key bn_revision (dir_bindings d) (project, subject) = expected"
    using bindings_find [OF b(1), of subject] b(2) assms(2)
    by (auto simp: revision_at_def find_binding_def binding_key_fun dir_inv_def policies_ok_def bindings_ok_def split: option.splits)
  with new show ?thesis by simp
qed

lemma changes_revision:
  assumes "changes_authority v d e" and "dir_inv d" and "has_rows v d"
  shows "authority_revision v d < authority_revision v e"
proof -
  let ?u = "\<lambda>d. revision_at nm_id nm_revision (dir_identities d) (del_subject_id v)"
  let ?p = "\<lambda>d. revision_at nm_id nm_revision (dir_projects d) (del_project_id v)"
  let ?m = "\<lambda>d. revision_at membership_key mb_revision (dir_memberships d) (del_project_id v, del_subject_id v)"
  let ?b = "\<lambda>d. revision_at binding_key bn_revision (dir_bindings d) (del_project_id v, del_subject_id v)"
  have later: "dir_later d e" "dir_inv e" using changes_step [OF assms(1)] assms(2) dir.step_rel dir.step_inv by blast+
  have le: "?u d \<le> ?u e" "?p d \<le> ?p e" "?m d \<le> ?m e" "?b d \<le> ?b e"
    using later assms(3) by (auto simp: has_rows_def dir_later_def accounts_later_def policy_later_def dir_inv_def policies_ok_def bindings_ok_def
        intro!: revision_at_mono)
  have "?m e = ?m d + 1 \<or> ?u e = ?u d + 1 \<or> ?p e = ?p d + 1 \<or> ?b e = ?b d + 1"
    using assms(1) membership_revision update_revision [of User_kind] update_revision [of Project_kind] bind_revision [OF _ assms(2)]
    unfolding changes_authority_def named_table.simps by metis
  with le show ?thesis by (auto simp: authority_revision_def)
qed

text \<open>
  C38: taking authority away is final. Once the membership, the user, the project or the roles that
  a delegation rests on are changed in any way, even if they are changed back later, the
  delegation is never current again.
\<close>

theorem delegation_revocation_final:
  assumes "dir_reach d" and "capture w ext clk token actor request d db po = (po', Inr v)"
    and "dir_step\<^sup>*\<^sup>* d d1" and "changes_authority v d1 d2" and "dir_step\<^sup>*\<^sup>* d2 e"
  shows "\<exists>x. delegation_current v e = Inl x"
proof (cases "delegation_current v e")
  case (Inr p)
  have run: "dir_step\<^sup>*\<^sup>* d e" using assms(3,5) changes_step [OF assms(4)] by (meson converse_rtranclp_into_rtranclp rtranclp_trans)
  have inv: "dir_inv d" "dir_inv d1" "dir_inv d2" "dir_inv e"
    using dir.reach_inv [OF assms(1)] dir.run_inv dir.step_inv assms(3,5) changes_step [OF assms(4)] by blast+
  have later: "dir_later d d1" "dir_later d2 e" using dir.run_rel inv assms(3,5) by blast+
  have rows: "has_rows v d"
    using assms(2) by (elim captured_scopes make_stamp_Inr) (simp add: has_rows_def)
  note m1 = revision_mono [OF later(1) inv(2) rows]
  have step: "dir_later d1 d2" using changes_step [OF assms(4)] inv(2) dir.step_rel by blast
  note m2 = revision_mono [OF step inv(3)] and m3 = revision_mono [OF later(2) inv(4)]
  have "authority_revision v d < authority_revision v e"
    using m1 m2 m3 changes_revision [OF assms(4) inv(2)] by force
  moreover have "authority_revision v e = authority_revision v d"
    by (rule same_rows_revision [OF delegation_same_rows [OF assms(1,2) run Inr]])
  ultimately show ?thesis by simp
qed blast

theorem delegation_revocation_final_witness:
  "\<exists>d x. update_named User_kind LOCAL_OWNER ''Operator'' False 0 ex_accounts = Inr d \<and> delegation_current ex_delegated (fst d) = Inl x"
proof -
  have l: "label_ok ''Operator''" by code_simp
  have "find_row nm_id (dir_identities ex_accounts) LOCAL_OWNER =
      Some \<lparr>nm_id = LOCAL_OWNER, nm_label = ''Local owner'', nm_disabled = False, nm_revision = 0\<rparr>"
    by (simp add: ex_accounts_def empty_directory_def initialize_def find_row_def)
  then obtain d r where u: "update_named User_kind LOCAL_OWNER ''Operator'' False 0 ex_accounts = Inr (d, r)"
    using l by (auto simp: update_named_def get_named_def Let_def)
  then have "changes_authority ex_delegated ex_accounts d" unfolding changes_authority_def ex_delegated_sel by blast
  from delegation_revocation_final [OF ex_accounts_reach ex_capture rtranclp.rtrancl_refl this rtranclp.rtrancl_refl] u show ?thesis by auto
qed

section \<open>Running a job on a contributor\<close>


definition ex_package_manifest :: policy_manifest where
  "ex_package_manifest = \<lparr>mf_format = ''ficc-policy'', mf_version = 1, mf_id = ''lab'', mf_release = ''1'', mf_publisher = ''acme'',
     mf_decision_api = 1, mf_roles = [], mf_files = []\<rparr>"

definition ex_granting :: directory where
  "ex_granting = ex_accounts\<lparr>dir_publishers := [ex_publisher], dir_policy_state := Some ex_state,
     dir_packages := [\<lparr>pk_digest = ex_hash, pk_publisher = ''acme'', pk_description = ex_package_manifest, pk_archive = [], pk_installed = 0\<rparr>]\<rparr>"

definition ex_granted :: delegation where
  "ex_granted = ex_delegated\<lparr>del_policy_revision := 2, del_policy_digest := Some ex_hash, del_publisher_revision := 1\<rparr>"

definition ex_workload :: job_record where
  "ex_workload = ex_record\<lparr>rec_subject_id := LOCAL_OWNER, rec_project_id := LOCAL_PROJECT, rec_delegation := ex_granted\<rparr>"

lemma ex_granting_accounts: "access LOCAL_OWNER LOCAL_PROJECT ex_granting = Inr SCOPES"
  by (subst access_cong [of _ empty_directory]) (simp_all add: ex_granting_def ex_accounts_def access_owner_empty)

lemma ex_granting_state: "get_state ex_granting = Inr ex_state"
  using ex_get_state by (simp add: get_state_def ex_granting_def ex_enforcing_def)

definition ex_grant_principal :: auth_principal where
  "ex_grant_principal = \<lparr>pr_id = ex_id (CHR ''8''), pr_scopes = [''contributors:read'', ''jobs:execute''], pr_node_ids = None, pr_root_ids = None,
     pr_subject_id = LOCAL_OWNER, pr_project_id = LOCAL_PROJECT, pr_label = ''Workload delegation'', pr_csrf = [],
     pr_kind = Workload, pr_expires_at = 0, pr_project_nodes = [], pr_project_roots = []\<rparr>"

lemma ex_granted_current: "delegation_current ex_granted ex_granting = Inr ex_grant_principal"
proof -
  have scopes: "sort [''contributors:read'', ''jobs:execute''] = [''contributors:read'', ''jobs:execute'']"
    "sorted_set (filter (\<lambda>s. s = ''contributors:read'' \<or> s = ''jobs:execute'') SCOPES) = [''contributors:read'', ''jobs:execute'']" by code_simp+
  have "\<exists>st. make_stamp LOCAL_OWNER LOCAL_PROJECT ex_granting = Inr (SCOPES, st) \<and> same_stamp ex_granted st"
    using ex_granting_accounts ex_granting_state
    by (simp add: make_stamp_def get_named_def publisher_revision_of_def)
      (simp add: ex_granting_def ex_accounts_def empty_directory_def initialize_def find_row_def ex_state_def publisher_of_package_def
        ex_publisher_def same_stamp_def ex_granted_def ex_delegated_def new_delegation_def ex_stamp_def find_membership_def find_binding_def)
  then obtain st where "make_stamp LOCAL_OWNER LOCAL_PROJECT ex_granting = Inr (SCOPES, st)" "same_stamp ex_granted st" by blast
  moreover have "del_subject_id ex_granted = LOCAL_OWNER" "del_project_id ex_granted = LOCAL_PROJECT" "del_id ex_granted = ex_id (CHR ''8'')"
    "del_scopes ex_granted = [''contributors:read'', ''jobs:execute'']"
    by (simp_all add: ex_granted_def ex_delegated_def new_delegation_def ex_submitting_def ex_principal_def scopes)
  ultimately show ?thesis by (simp add: delegation_current_def ex_grant_principal_def scopes)
qed

definition ex_grant_authority :: policy_authority where
  "ex_grant_authority = ex_authority\<lparr>pa_credential_id := ex_id (CHR ''8'')\<rparr>"

lemma ex_workload_granted:
  "workload_granted (\<lambda>_. Inr False) ex_workload (ex_id (CHR ''1'')) ex_granting ex_machines =
     Inr \<lparr>wg_principal = ex_grant_principal, wg_node = ex_machine, wg_sensitive = False, wg_state = ex_state, wg_authority = ex_grant_authority\<rparr>"
proof -
  have job: "\<not> rec_cancelled ex_workload" "sub_node_ids (rec_request ex_workload) = [ex_id (CHR ''1'')]" "rec_delegation ex_workload = ex_granted"
    "sub_dataset (rec_request ex_workload) = None" "rec_project_id ex_workload = LOCAL_PROJECT" "\<not> job_sensitive (sub_job (rec_request ex_workload))"
    by (simp_all add: ex_workload_def ex_record_def ex_submission_def ex_job_def)
  have host: "require_host ex_grant_principal ''jobs:execute'' None None = Inr ()" "require_host ex_grant_principal ''contributors:read'' None None = Inr ()"
    by (simp_all add: require_host_def host_allows_def ex_grant_principal_def)
  have node: "authority_node LOCAL_PROJECT (ex_id (CHR ''1'')) ex_machines = Inr ex_machine"
    by (simp add: authority_node_def get_node_def ex_machines_def ex_machine_def find_row_def)
  have auth: "policy_authority_of ex_grant_principal None None ex_granting = Inr ex_grant_authority"
    by (simp add: policy_authority_of_def roles_of_def find_binding_def ex_granting_def ex_accounts_def empty_directory_def find_row_def
        ex_grant_principal_def ex_grant_authority_def ex_authority_def local_owner_def)
  have "ps_required ex_state" by (simp add: ex_state_def)
  then show ?thesis by (simp add: workload_granted_def job ex_granted_current host node ex_granting_state auth Let_def)
qed

lemma ex_workload_decided:
  "decisions ex_policy_world [workload_request ex_policy_world ex_grant_authority ex_machine True ex_workload False] ex_state None ex_policies ex_granting =
     (ex_policies, Inr [\<lparr>dc_id = ''t'', dc_allow = True, dc_reason = ''ok''\<rparr>])"
proof -
  let ?q = "workload_request ex_policy_world ex_grant_authority ex_machine True ex_workload False"
  have q: "request_dump ?q = JObj [(''id'', JStr ''t''), (''action'', JStr ''jobs:execute''),
      (''authority'', workload_authority ex_grant_authority ex_machine True ex_workload),
      (''labels'', workload_labels ex_workload False (ex_id (CHR ''1'')))]"
    by (simp add: request_dump_def workload_request_def ex_policy_world_def ex_machine_def)
  have wl: "workload_authority ex_grant_authority ex_machine True ex_workload = JObj (authority_dump (ex_grant_authority\<lparr>pa_contributor_enforcement := True\<rparr>) @
      [(''contributor_id'', JStr (ex_id (CHR ''1''))), (''contributor_mode'', JStr ''managed''), (''contributor_revision'', JInt 1),
       (''job_id'', JStr (ex_id (CHR ''c''))), (''delegation_id'', JStr (ex_id (CHR ''8''))), (''initiating_credential_id'', JStr (ex_id (CHR ''7'')))])"
    by (simp add: workload_authority_def ex_machine_def mode_text_def ex_workload_def ex_record_def ex_granted_def ex_delegated_def new_delegation_def)
  have wb: "workload_labels ex_workload False (ex_id (CHR ''1'')) = JObj [(''workload'', job_dump (ex_job [''gpu0''])), (''candidate_node_id'', JStr (ex_id (CHR ''1'')))]"
    by (simp add: workload_labels_def ex_workload_def ex_record_def ex_submission_def ex_job_def)
  have "length (dumps (JObj [(''input'', JObj [(''version'', JInt 1), (''revision'', JInt 2), (''requests'', JArr [JObj
      [(''id'', JStr ''t''), (''action'', JStr ''jobs:execute''),
       (''authority'', JObj (authority_dump (ex_grant_authority\<lparr>pa_contributor_enforcement := True\<rparr>) @
      [(''contributor_id'', JStr (ex_id (CHR ''1''))), (''contributor_mode'', JStr ''managed''), (''contributor_revision'', JInt 1),
       (''job_id'', JStr (ex_id (CHR ''c''))), (''delegation_id'', JStr (ex_id (CHR ''8''))), (''initiating_credential_id'', JStr (ex_id (CHR ''7'')))])),
       (''labels'', JObj [(''workload'', job_dump (ex_job [''gpu0''])), (''candidate_node_id'', JStr (ex_id (CHR ''1'')))])]])])])) < 4000"
    by code_simp
  then obtain v where v: "envelope [?q] 2 = Inr v" by (simp add: envelope_def q wl wb MAX_ENVELOPE_def Let_def)
  have ok: "reason_ok ''ok''" by code_simp
  have "decode_decision (JObj [(''id'', JStr ''t''), (''allow'', JBool True), (''reason'', JStr ''ok'')]) ?q =
        Inr \<lparr>dc_id = ''t'', dc_allow = True, dc_reason = ''ok''\<rparr>"
    using ok by (simp add: decode_decision_def workload_request_def ex_policy_world_def insert_commute)
  moreover have "pw_answer ex_policy_world 1 v = Some (JArr [JObj [(''id'', JStr ''t''), (''allow'', JBool True), (''reason'', JStr ''ok'')]])"
    by (simp add: ex_policy_world_def)
  ultimately have e: "evaluate (pw_answer ex_policy_world 1) [?q] 2 = Inr [\<lparr>dc_id = ''t'', dc_allow = True, dc_reason = ''ok''\<rparr>]"
    by (simp add: evaluate_def v)
  have "publishers ex_granting = Inr [ex_view]" by (rule ex_publishers) (simp add: ex_granting_def)
  then have "publisher (pb_id ex_view) ex_granting = Inr ex_view"
    using ex_identifier by (simp add: publisher_def ex_view_def find_row_def)
  then have "evaluator_current ex_state ex_policies ex_granting" by (simp add: evaluator_current_def ex_policies_def ex_state_def)
  with v e show ?thesis by (simp add: decisions_def ex_state_def ex_policies_def)
qed


end
