(* ===== verification/Work_Provider.thy ===== *)
theory Work_Provider
  imports Work_Records_Props Fair_Scheduler
begin

text \<open>
  The interface to the scheduler package (\<open>src/ficc/workloads/provider.py\<close>): loading the package
  that the administrator configured, and asking it for an order of the queued jobs. The package is
  a parameter: a state and a function on scheduling requests that answers a document. What the
  controller relies on is the locale \<open>scheduler_plugin\<close>, of which the fair scheduler is an instance.
\<close>

section \<open>Loading\<close>

type_synonym 'p selector = "'p \<Rightarrow> scheduling_request \<Rightarrow> 'p \<times> json res"

record 'p plugin =
  pl_api_version :: int
  pl_create :: "(string \<times> json) list \<Rightarrow> 'p res"

record provider_configuration =
  pv_provider :: string
  pv_configuration :: "(string \<times> json) list"

text \<open>The strict model: exactly the two keys, a name and a document.\<close>

definition validate_configuration :: "json \<Rightarrow> provider_configuration res" where
  "validate_configuration v =
     (case v of
        JObj kvs \<Rightarrow>
          if set (map fst kvs) \<noteq> {''provider'', ''configuration''} then Inl ValueError
          else (case (map_of kvs ''provider'', map_of kvs ''configuration'') of
              (Some (JStr p), Some (JObj c)) \<Rightarrow> if Name p then Inr \<lparr>pv_provider = p, pv_configuration = c\<rparr> else Inl ValueError
            | _ \<Rightarrow> Inl ValueError)
      | _ \<Rightarrow> Inl ValueError)"

text \<open>\<open>file\<close> is the private configuration file, if it exists; \<open>matches\<close> are the installed entry points of a name.\<close>

definition provider_load :: "json res option \<Rightarrow> (string \<Rightarrow> 'p plugin list) \<Rightarrow> 'p option res" where
  "provider_load file matches =
     (case file of
        None \<Rightarrow> Inr None
      | Some content \<Rightarrow>
          bindr content (\<lambda>v.
          bindr (validate_configuration v) (\<lambda>c.
          (case matches (pv_provider c) of
             [p] \<Rightarrow>
               bindr (ensure (pl_api_version p = 1) ValueError) (\<lambda>_.
               bindr (pl_create p (pv_configuration c)) (\<lambda>x. Inr (Some x)))
           | _ \<Rightarrow> Inl ValueError))))"

section \<open>Selection\<close>

definition pending_of :: "job_record list \<Rightarrow> pending_job list" where
  "pending_of jobs =
     map (\<lambda>j. \<lparr>pj_id = rec_id j, pj_project_id = rec_project_id j, pj_created_at = rec_created_at j\<rparr>)
       (filter (\<lambda>j. rec_state j = Queued \<and> \<not> rec_cancelled j) jobs)"

definition active_of :: "wattempt list \<Rightarrow> active_attempt list" where
  "active_of attempts =
     map (\<lambda>a. \<lparr>ac_id = wa_id a, ac_job_id = wa_job_id a, ac_project_id = plan_project_id (wa_plan a)\<rparr>)
       (filter (\<lambda>a. wa_state a \<notin> {Released, Abandoned}) attempts)"

fun strings_of :: "json list \<Rightarrow> string list option" where
  "strings_of [] = Some []"
| "strings_of (JStr s # vs) = map_option ((#) s) (strings_of vs)"
| "strings_of (_ # vs) = None"

definition accepted_selection :: "pending_job list \<Rightarrow> json \<Rightarrow> string list res" where
  "accepted_selection pending v =
     (case v of
        JArr vs \<Rightarrow>
          if length vs > 64 then Inl ValueError
          else (case strings_of vs of
              None \<Rightarrow> Inl ValueError
            | Some c \<Rightarrow> if \<not> distinct c \<or> \<not> set c \<subseteq> pj_id ` set pending then Inl ValueError else Inr c)
      | _ \<Rightarrow> Inl ValueError)"

definition provider_select :: "'p selector \<Rightarrow> job_record list \<Rightarrow> wattempt list \<Rightarrow> 'p \<Rightarrow> 'p \<times> string list res" where
  "provider_select sel jobs attempts p =
     (case sel p \<lparr>sr_version = 1, sr_pending = pending_of jobs, sr_active = active_of attempts\<rparr> of
        (p1, Inl e) \<Rightarrow> (p1, Inl e)
      | (p1, Inr v) \<Rightarrow> (p1, accepted_selection (pending_of jobs) v))"

lemma strings_of_map [simp]: "strings_of (map JStr c) = Some c"
  by (induction c) auto

lemma strings_of_length: "strings_of vs = Some c \<Longrightarrow> length c = length vs"
  by (induction vs arbitrary: c rule: strings_of.induct) auto

lemma accepted_selectionD: "accepted_selection pending v = Inr c \<Longrightarrow> distinct c \<and> length c \<le> 64 \<and> set c \<subseteq> pj_id ` set pending"
  by (auto simp: accepted_selection_def dest!: strings_of_length split: json.splits if_splits option.splits)

lemma pending_ids: "pj_id ` set (pending_of jobs) = rec_id ` {j \<in> set jobs. rec_state j = Queued \<and> \<not> rec_cancelled j}"
  by (auto simp: pending_of_def image_image)

text \<open>Whatever the package answers, an accepted selection names distinct queued jobs.\<close>

lemma provider_selectD:
  assumes "provider_select sel jobs attempts p = (p1, Inr c)"
  shows "distinct c" "length c \<le> 64" "set c \<subseteq> rec_id ` {j \<in> set jobs. rec_state j = Queued \<and> \<not> rec_cancelled j}"
proof -
  obtain v where "accepted_selection (pending_of jobs) v = Inr c"
    using assms by (auto simp: provider_select_def split: prod.splits sum.splits)
  from accepted_selectionD [OF this] show "distinct c" "length c \<le> 64"
    "set c \<subseteq> rec_id ` {j \<in> set jobs. rec_state j = Queued \<and> \<not> rec_cancelled j}" by (simp_all add: pending_ids)
qed

section \<open>The contract of a scheduler package\<close>

locale scheduler_plugin =
  fixes sel :: "'p selector"
  assumes proposes: "distinct (map pj_id (sr_pending r)) \<Longrightarrow> sr_version r = 1 \<Longrightarrow>
    \<exists>p1 c. sel p r = (p1, Inr (JArr (map JStr c))) \<and> distinct c \<and> length c \<le> 64 \<and> set c \<subseteq> pj_id ` set (sr_pending r)"
begin

lemma accepted:
  assumes "distinct (map rec_id jobs)"
  shows "\<exists>p1 c. provider_select sel jobs attempts p = (p1, Inr c)"
proof -
  let ?r = "\<lparr>sr_version = 1, sr_pending = pending_of jobs, sr_active = active_of attempts\<rparr>"
  have "map pj_id (pending_of jobs) = map rec_id (filter (\<lambda>j. rec_state j = Queued \<and> \<not> rec_cancelled j) jobs)"
    by (simp add: pending_of_def comp_def)
  then have "distinct (map pj_id (sr_pending ?r))" using assms by (simp add: distinct_map_filter)
  from proposes [OF this, of p] obtain p1 c where
    "sel p ?r = (p1, Inr (JArr (map JStr c)))" "distinct c" "length c \<le> 64" "set c \<subseteq> pj_id ` set (pending_of jobs)" by auto
  then show ?thesis by (auto simp: provider_select_def accepted_selection_def)
qed

end

definition fair_select :: "scheduler selector" where
  "fair_select s r = (case select_jobs s r of Inl e \<Rightarrow> (s, Inl e) | Inr (s1, c) \<Rightarrow> (s1, Inr (JArr (map JStr c))))"

lemma select_jobs_returns:
  assumes "distinct (map pj_id (sr_pending r))" and "sr_version r = 1"
  shows "\<exists>s' c. select_jobs s r = Inr (s', c) \<and> distinct c \<and> set c \<subseteq> pj_id ` set (sr_pending r) \<and> length c \<le> 64"
proof -
  obtain c l where run: "select_jobs s r = Inr (s\<lparr>last_project := l\<rparr>, c)"
    and res: "selection_result (project_active s) (schedule_capacity s (sr_active r)) (queue_of (sr_pending r)) (active_count (sr_active r)) c"
    using select_jobs_result [OF assms] by blast
  obtain n k A B where tk: "taken (queue_of (sr_pending r)) n c" and len: "length c \<le> schedule_capacity s (sr_active r)"
    by (rule selection_resultE [OF res])
  have "set c \<subseteq> pj_id ` set (sr_pending r)" using tk by (auto simp: taken_def set_queue_of)
  then show ?thesis
    using run selection_result_distinct [OF res separate_queue_of [OF assms(1)]] len capacity_bounds(1) [of s "sr_active r"] by auto
qed

interpretation fair: scheduler_plugin fair_select
proof
  fix r :: scheduling_request and p :: scheduler
  assume "distinct (map pj_id (sr_pending r))" "sr_version r = 1"
  from select_jobs_returns [OF this, of p]
  show "\<exists>p1 c. fair_select p r = (p1, Inr (JArr (map JStr c))) \<and> distinct c \<and> length c \<le> 64 \<and> set c \<subseteq> pj_id ` set (sr_pending r)"
    by (auto simp: fair_select_def)
qed

end
