(* ===== verification/Work_Runner.thy ===== *)
theory Work_Runner
  imports Work_Provider Work_Commands Work_Channel Work_Authority_Props
begin

text \<open>
  The runner of the workload queue (\<open>src/ficc/workloads/runner.py\<close>): it decides whether a
  contributor has reconciled current capacity, whether an attempt may go on, what to stop, renew
  and start, which contributor a queued job is placed on, and it dispatches admitted attempts. The
  state of the controller is one record: the stored records with the last observations, the
  runner's tables, the policy service, the contributors and their sessions, the directory, the
  state of the scheduler package, the read-aheads of inputs, and how many outputs are being read. The workload tables are the store of \<open>ct_commands\<close>.

  A coroutine is a function that takes, for every await, what the channel returned and what other
  tasks did to the controller meanwhile: \<open>await\<close>. The order in which the missing attempts of a
  reconciliation are marked is the order of the records. Seconds are rationals, also \<open>0.5\<close> and \<open>0.6\<close>.
\<close>

section \<open>State\<close>

type_synonym reconciliation = "string \<times> string \<times> string option"

record runner =
  rn_reconciled :: "(string \<times> reconciliation) list"
  rn_live :: "(string \<times> (snapshot \<times> rat)) list"
  rn_errors :: "(string \<times> string) list"
  rn_deferred :: "(string \<times> rat) list"
  rn_locked :: "string list"
  rn_failed :: bool
  rn_transferring :: "string list"

definition new_runner :: runner where
  "new_runner = \<lparr>rn_reconciled = [], rn_live = [], rn_errors = [], rn_deferred = [], rn_locked = [], rn_failed = False,
     rn_transferring = []\<rparr>"

text \<open>A read-ahead of a streamed input; its task is running, returned data, raised, or was cancelled.\<close>

datatype read_task = Task_running | Task_cancelling | Task_returned string | Task_raised exn

record prefetch =
  pf_attempt :: wattempt
  pf_job :: job_record
  pf_object :: string
  pf_offset :: int
  pf_task :: read_task
  pf_discarded :: bool

record 'p controller =
  ct_commands :: commands
  ct_runner :: runner
  ct_policies :: policies
  ct_contributors :: contributors
  ct_directory :: directory
  ct_scheduler :: "'p option"
  ct_prefetches :: "(string \<times> prefetch) list"
  ct_inputs_closed :: bool
  ct_readers :: nat

abbreviation ct_store :: "'p controller \<Rightarrow> work_store" where
  "ct_store s \<equiv> cm_store (ct_commands s)"

type_synonym ('p, 'a) ctl_op = "'p controller \<Rightarrow> 'p controller \<times> 'a res"

text \<open>What one call reads of its surroundings: clocks, a fresh token, the evaluator processes and the safety of a dataset.\<close>

record readings =
  rg_turn :: turn
  rg_mono :: rat
  rg_now :: rat
  rg_clk :: "nat \<Rightarrow> rat"
  rg_token :: string
  rg_world :: policy_world
  rg_safety :: "job_record \<Rightarrow> bool res"

record 'p await =
  aw_admit :: "unit res"
  aw_reply :: "message \<Rightarrow> reply res"
  aw_others :: "'p controller \<Rightarrow> 'p controller"

definition with_store :: "'a work_op \<Rightarrow> ('p, 'a) ctl_op" where
  "with_store f s = (case on_store f (ct_commands s) of (c, r) \<Rightarrow> (s\<lparr>ct_commands := c\<rparr>, r))"

definition with_commands :: "'a cmd_op \<Rightarrow> ('p, 'a) ctl_op" where
  "with_commands f s = (case f (ct_commands s) of (c, r) \<Rightarrow> (s\<lparr>ct_commands := c\<rparr>, r))"

definition ctl_bind :: "('p, 'a) ctl_op \<Rightarrow> ('a \<Rightarrow> ('p, 'b) ctl_op) \<Rightarrow> ('p, 'b) ctl_op" where
  "ctl_bind f g s = (case f s of (t, Inl e) \<Rightarrow> (t, Inl e) | (t, Inr v) \<Rightarrow> g v t)"

definition ctl_lift :: "('p controller \<Rightarrow> 'a res) \<Rightarrow> ('p, 'a) ctl_op" where
  "ctl_lift f s = (s, f s)"

definition on_runner :: "(runner \<Rightarrow> runner) \<Rightarrow> ('p, unit) ctl_op" where
  "on_runner f s = (s\<lparr>ct_runner := f (ct_runner s)\<rparr>, Inr ())"

definition suspended :: "'p controller \<Rightarrow> bool" where
  "suspended s = ws_suspended (ct_store s)"

fun is_failure :: "exn \<Rightarrow> bool" where
  "is_failure (Failure _ _) = True"
| "is_failure _ = False"

section \<open>Current capacity and authority\<close>

definition live_snapshot :: "string \<Rightarrow> 'p controller \<Rightarrow> snapshot option" where
  "live_snapshot i s = map_option fst (map_of (rn_live (ct_runner s)) i)"

definition available :: "contributor_settings \<Rightarrow> readings \<Rightarrow> string \<Rightarrow> 'p controller \<Rightarrow> bool res" where
  "available cfg rg i s =
     (case map_of (rn_live (ct_runner s)) i of
        None \<Rightarrow> Inr False
      | Some (n, seen) \<Rightarrow>
          if rg_mono rg - seen > of_int (sn_maximum_lease_seconds n) then Inr False
          else (case channel_session cfg (rg_turn rg) i (ct_contributors s) of
              Inl e \<Rightarrow> if is_failure e then Inr False else Inl e
            | Inr c \<Rightarrow> Inr (map_of (rn_reconciled (ct_runner s)) i = Some (se_id c, sn_installation_id n, sn_ledger_id n))))"

definition work_authority :: "readings \<Rightarrow> job_record \<Rightarrow> string \<Rightarrow> ('p, int) ctl_op" where
  "work_authority rg job i s =
     (case authority_check (rg_world rg) (rg_safety rg) job i True (ct_directory s) (co_db (ct_contributors s)) (ct_policies s) of
        (po, r) \<Rightarrow> (s\<lparr>ct_policies := po\<rparr>, r))"

definition require_available :: "contributor_settings \<Rightarrow> readings \<Rightarrow> string \<Rightarrow> 'p controller \<Rightarrow> snapshot res" where
  "require_available cfg rg i s =
     bindr (available cfg rg i s) (\<lambda>ok.
     bindr (ensure ok (Failure ''executor_unavailable'' 409)) (\<lambda>_.
     (case live_snapshot i s of None \<Rightarrow> Inl KeyError | Some n \<Rightarrow> Inr n)))"

definition executor_admits :: "readings \<Rightarrow> bool \<Rightarrow> wattempt \<Rightarrow> job_record \<Rightarrow> snapshot \<Rightarrow> unit res" where
  "executor_admits rg starting a job n =
     (if sn_installation_id n \<noteq> wa_installation_id a then Inl (Failure ''executor_replaced'' 409)
      else if wa_ledger_id a \<noteq> None \<and> (sn_ledger_id n, sn_admission_version n) \<noteq> (wa_ledger_id a, wa_admission_version a)
      then Inl (Failure ''executor_replaced'' 409)
      else if starting \<and> off_revision (sn_offer n) \<noteq> plan_offer_revision (wa_plan a) then Inl (Failure ''offer_changed'' 409)
      else (case refusal (sn_offer n) (rec_project_id job) (sub_job (rec_request job)) (rg_now rg) (\<not> starting) of
          Some reason \<Rightarrow> Inl (Failure reason 409) | None \<Rightarrow> Inr ()))"

definition runner_authority :: "contributor_settings \<Rightarrow> readings \<Rightarrow> bool \<Rightarrow> wattempt \<Rightarrow> ('p, unit) ctl_op" where
  "runner_authority cfg rg starting a =
     ctl_bind (ctl_lift (\<lambda>s. ensure (\<not> suspended s) (Failure ''workloads_suspended'' 409))) (\<lambda>_.
     ctl_bind (ctl_lift (\<lambda>s. get_job (ct_store s) (wa_job_id a))) (\<lambda>job.
     ctl_bind (work_authority rg job (wa_node_id a)) (\<lambda>_.
     ctl_bind (ctl_lift (require_available cfg rg (wa_node_id a))) (\<lambda>n.
     ctl_lift (\<lambda>_. executor_admits rg starting a job n)))))"

section \<open>Commands with awaits\<close>

definition runner_request :: "readings \<Rightarrow> request" where
  "runner_request rg = \<lparr>req_version = 1, req_id = rg_token rg\<rparr>"

text \<open>
  \<open>Channel.request\<close> seen by the caller: the channel may refuse (busy, stopped, no connection), the
  caller's check runs before the command is queued and again on the reply; the reply, the timeout and
  what the poll of the contributor did with the command are the await.
\<close>

definition no_check :: "nat \<Rightarrow> ('p, unit) ctl_op" where
  "no_check k s = (s, Inr ())"

definition channel_request :: "'p await \<Rightarrow> (nat \<Rightarrow> ('p, unit) ctl_op) \<Rightarrow> message \<Rightarrow> ('p, reply) ctl_op" where
  "channel_request aw chk m =
     ctl_bind (ctl_lift (\<lambda>_. bindr (ensure (valid_message m) ValueError) (\<lambda>_. aw_admit aw))) (\<lambda>_.
     ctl_bind (chk 0) (\<lambda>_.
     ctl_bind (\<lambda>s. (aw_others aw s, aw_reply aw m)) (\<lambda>r.
     ctl_bind (chk 1) (\<lambda>_. ctl_lift (\<lambda>_. Inr r)))))"

definition channel_call :: "'p await \<Rightarrow> (nat \<Rightarrow> ('p, unit) ctl_op) \<Rightarrow> message \<Rightarrow> ('p, reply) ctl_op" where
  "channel_call aw chk m = ctl_bind (channel_request aw chk m) (\<lambda>r. ctl_lift (\<lambda>_. call_reply (Inr r)))"

definition fetch_snapshot :: "'p await \<Rightarrow> readings \<Rightarrow> string \<Rightarrow> string option \<Rightarrow> ('p, snapshot) ctl_op" where
  "fetch_snapshot aw rg i after =
     ctl_bind (channel_call aw no_check (Snapshot (runner_request rg) after)) (\<lambda>x s.
       (s, case x of
            SnapshotReply h n \<Rightarrow> bindr (get_node (co_db (ct_contributors s)) i) (\<lambda>c. snapshot_reply i (cn_mode c) after (Inr x))
          | _ \<Rightarrow> Inl (Failure ''executor_response'' 502)))"

text \<open>\<open>Commands.batch\<close> around the channel: a message that does not validate is an unknown dispatch as well.\<close>

definition send_batch :: "'p await \<Rightarrow> (nat \<Rightarrow> ('p, unit) ctl_op) \<Rightarrow> readings \<Rightarrow> snapshot \<Rightarrow> message option \<Rightarrow> wattempt list
    \<Rightarrow> ('p, wattempt list) ctl_op" where
  "send_batch aw chk rg n m attempts s =
     (if attempts = [] then (s, Inr [])
      else (case (case m of None \<Rightarrow> (s, Inl ValueError) | Some msg \<Rightarrow> channel_request aw chk msg s) of (s1, r) \<Rightarrow>
        with_commands (batch_commands (rg_clk rg) (rg_mono rg) n attempts r) s1))"

definition control_message :: "readings \<Rightarrow> control_action \<Rightarrow> wattempt list \<Rightarrow> message" where
  "control_message rg act attempts = Control (runner_request rg) act (map fence_of_attempt attempts)"

text \<open>A request bound to the executor's ledger; the model refuses an absent ledger identity.\<close>

definition bound_to :: "readings \<Rightarrow> snapshot \<Rightarrow> int \<Rightarrow> bound_request option" where
  "bound_to rg n version =
     map_option (\<lambda>l. \<lparr>req_version = 1, req_id = rg_token rg, req_installation_id = sn_installation_id n, req_ledger_id = l,
       req_admission_version = version\<rparr>) (sn_ledger_id n)"

text \<open>Slices of 64.\<close>

fun slices :: "'a list \<Rightarrow> 'a list list" where
  "slices xs = (if xs = [] then [] else take 64 xs # slices (drop 64 xs))"

declare slices.simps [simp del]

text \<open>Every slice in turn; slice \<open>k\<close> has its own readings and its own await.\<close>

fun each_slice :: "(nat \<Rightarrow> 'a list \<Rightarrow> ('p, 'b) ctl_op) \<Rightarrow> nat \<Rightarrow> 'a list list \<Rightarrow> ('p, unit) ctl_op" where
  "each_slice f k [] s = (s, Inr ())"
| "each_slice f k (xs # rest) s = ctl_bind (f k xs) (\<lambda>_. each_slice f (Suc k) rest) s"

section \<open>Reconciliation\<close>

definition open_attempts :: "string \<Rightarrow> 'p controller \<Rightarrow> wattempt list" where
  "open_attempts i s = filter (\<lambda>a. wa_state a \<notin> {Released, Abandoned}) (list_attempts (ct_store s) (Some i))"

text \<open>One reported attempt: an unknown live one is told to stop, a known one is observed.\<close>

definition reconcile_row :: "'p await \<Rightarrow> readings \<Rightarrow> snapshot \<Rightarrow> public_attempt \<Rightarrow> ('p, unit) ctl_op" where
  "reconcile_row aw rg n r s =
     (case get_attempt (ct_store s) (f_attempt_id r) of
        Inl e \<Rightarrow>
          if e \<noteq> Failure ''not_found'' 404 then (s, Inl e)
          else if res_state r \<notin> terminal \<union> {Released}
          then ctl_bind (channel_call aw no_check (Control (runner_request rg) Act_stop [result_fence r])) (\<lambda>_. ctl_lift (\<lambda>_. Inr ())) s
          else (s, Inr ())
      | Inr a \<Rightarrow>
          if wa_state a \<notin> {Released, Abandoned}
          then ctl_bind (with_commands (cmd_observation (rg_clk rg) (rg_mono rg) r n)) (\<lambda>_. ctl_lift (\<lambda>_. Inr ())) s
          else (s, Inr ()))"

fun reconcile_rows :: "(nat \<Rightarrow> 'p await) \<Rightarrow> (nat \<Rightarrow> readings) \<Rightarrow> snapshot \<Rightarrow> public_attempt list \<Rightarrow> string \<Rightarrow> string list
    \<Rightarrow> ('p, string \<times> string list) ctl_op" where
  "reconcile_rows aw rg n [] cursor missing s = (s, Inr (cursor, missing))"
| "reconcile_rows aw rg n (r # rs) cursor missing s =
     (if f_attempt_id r \<le> cursor then (s, Inl (Failure ''executor_response'' 502))
      else ctl_bind (reconcile_row (aw 0) (rg 0) n r) (\<lambda>_.
        reconcile_rows (\<lambda>k. aw (Suc k)) (\<lambda>k. rg (Suc k)) n rs (f_attempt_id r) (removeAll (f_attempt_id r) missing)) s)"

definition same_executor :: "snapshot \<Rightarrow> snapshot \<Rightarrow> bool" where
  "same_executor p n \<longleftrightarrow> (sn_installation_id p, sn_ledger_id p, sn_admission_version p, sn_offer p) =
     (sn_installation_id n, sn_ledger_id n, sn_admission_version n, sn_offer n)"

definition reconcile_page :: "(nat \<Rightarrow> 'p await) \<Rightarrow> (nat \<Rightarrow> readings) \<Rightarrow> snapshot \<Rightarrow> snapshot \<Rightarrow> string \<Rightarrow> string list
    \<Rightarrow> ('p, string \<times> string list) ctl_op" where
  "reconcile_page aw rg n pg cursor missing s =
     (if \<not> same_executor pg n then (s, Inl (Failure ''executor_changed'' 409))
      else reconcile_rows aw rg n (sn_attempts pg) cursor missing s)"

text \<open>
  The loop over the pages: \<open>None\<close> stands for a loop that does not end. Page \<open>k\<close> has its own awaits
  and readings; its last await fetches the next page.
\<close>

partial_function (option) reconcile_pages :: "(nat \<Rightarrow> nat \<Rightarrow> 'p await) \<Rightarrow> (nat \<Rightarrow> nat \<Rightarrow> readings) \<Rightarrow> string \<Rightarrow> snapshot \<Rightarrow> nat \<Rightarrow> snapshot \<Rightarrow> string
    \<Rightarrow> string list \<Rightarrow> 'p controller \<Rightarrow> ('p controller \<times> string list res) option" where
  "reconcile_pages aw rg i n k pg cursor missing s =
     (case reconcile_page (\<lambda>m. aw k (Suc m)) (\<lambda>m. rg k (Suc m)) n pg cursor missing s of
        (s1, Inl e) \<Rightarrow> Some (s1, Inl e)
      | (s1, Inr (cursor1, missing1)) \<Rightarrow>
          (case sn_next pg of
             None \<Rightarrow> Some (s1, Inr missing1)
           | Some x \<Rightarrow>
               if sn_attempts pg = [] \<or> x \<noteq> cursor1 then Some (s1, Inl (Failure ''executor_response'' 502))
               else (case fetch_snapshot (aw k 0) (rg k 0) i (Some x) s1 of
                   (s2, Inl e) \<Rightarrow> Some (s2, Inl e)
                 | (s2, Inr page1) \<Rightarrow> reconcile_pages aw rg i n (Suc k) page1 cursor1 missing1 s2)))"

definition note_reconciled :: "string \<Rightarrow> reconciliation \<Rightarrow> ('p, unit) ctl_op" where
  "note_reconciled i b = on_runner (\<lambda>r. r\<lparr>rn_reconciled := AList.update i b (rn_reconciled r)\<rparr>)"

definition reconcile :: "contributor_settings \<Rightarrow> (nat \<Rightarrow> nat \<Rightarrow> 'p await) \<Rightarrow> (nat \<Rightarrow> nat \<Rightarrow> readings) \<Rightarrow> readings \<Rightarrow> string \<Rightarrow> snapshot
    \<Rightarrow> 'p controller \<Rightarrow> ('p controller \<times> unit res) option" where
  "reconcile cfg aw rg now i n s =
     (case channel_session cfg (rg_turn now) i (ct_contributors s) of
        Inl e \<Rightarrow> Some (s, Inl e)
      | Inr c \<Rightarrow>
          let b = (se_id c, sn_installation_id n, sn_ledger_id n) in
          if map_of (rn_reconciled (ct_runner s)) i = Some b then Some (s, Inr ())
          else (case reconcile_pages aw rg i n 0 n [] (map wa_id (open_attempts i s)) s of
              None \<Rightarrow> None
            | Some (s1, Inl e) \<Rightarrow> Some (s1, Inl e)
            | Some (s1, Inr missing) \<Rightarrow>
                Some (ctl_bind (with_commands (uncertain_all (rg_clk now) missing ''attempt_not_observed'')) (\<lambda>_. note_reconciled i b) s1)))"

text \<open>Attempts whose admission the executor never confirmed are offered for rejection.\<close>

definition never_admitted :: "snapshot \<Rightarrow> wattempt \<Rightarrow> bool" where
  "never_admitted n a \<longleftrightarrow> wa_state a = Unknown \<and> wa_observed a = None \<and> \<not> wa_start_requested a \<and>
     wa_admission_version a = sn_admission_version n \<and> sn_admission_version n = 1 \<and>
     (wa_installation_id a, wa_ledger_id a) = (sn_installation_id n, sn_ledger_id n)"

definition runner_reject_absent :: "(nat \<Rightarrow> 'p await) \<Rightarrow> (nat \<Rightarrow> readings) \<Rightarrow> snapshot \<Rightarrow> wattempt list \<Rightarrow> ('p, unit) ctl_op" where
  "runner_reject_absent aw rg n attempts =
     each_slice (\<lambda>k values. send_batch (aw k) no_check (rg k) n
         (map_option (\<lambda>q. RejectAbsent q (map wa_plan values)) (bound_to (rg k) n 1)) values)
       0 (slices (filter (never_admitted n) attempts))"

section \<open>Renewal, start and stop\<close>

datatype advance_action = Stopping | Renewing | Starting_up

record advance_lists =
  al_stop :: "wattempt list"
  al_renew :: "wattempt list"
  al_start :: "wattempt list"

definition is_ready :: "string \<Rightarrow> 'p controller \<Rightarrow> bool" where
  "is_ready i s = (case map_of (cm_observed (ct_commands s)) i of None \<Rightarrow> False | Some x \<Rightarrow> ob_ready x = Some True)"

text \<open>An attempt goes on only with current authority and an unexpired lease.\<close>

definition may_continue :: "contributor_settings \<Rightarrow> readings \<Rightarrow> wattempt \<Rightarrow> ('p, unit) ctl_op" where
  "may_continue cfg rg a =
     ctl_bind (runner_authority cfg rg (wa_state a = Prepared) a) (\<lambda>_.
     ctl_lift (\<lambda>_. ensure (\<not> ren_expires_at (wa_lease a) \<le> rg_clk rg 0) (Failure ''lease_expired'' 409)))"

definition advance_one :: "contributor_settings \<Rightarrow> readings \<Rightarrow> snapshot \<Rightarrow> wattempt \<Rightarrow> advance_lists \<Rightarrow> ('p, advance_lists) ctl_op" where
  "advance_one cfg rg n a l s =
     (if wa_state a \<in> terminal \<union> {Released, Abandoned} then (s, Inr l)
      else if wa_state a = Unknown then (s, Inr (if cleaned a then l else l\<lparr>al_stop := al_stop l @ [a]\<rparr>))
      else (case may_continue cfg rg a s of
          (s1, Inl e) \<Rightarrow> if is_failure e then (s1, Inr (l\<lparr>al_stop := al_stop l @ [a]\<rparr>)) else (s1, Inl e)
        | (s1, Inr _) \<Rightarrow>
            let l1 = (if ren_expires_at (wa_lease a) - rg_clk rg 1 < of_int (sn_maximum_lease_seconds n) * (3 / 5)
                then l\<lparr>al_renew := al_renew l @ [a]\<rparr> else l);
                l2 = (if wa_state a = Prepared \<and> \<not> wa_start_requested a \<and> is_ready (wa_id a) s1
                then l1\<lparr>al_start := al_start l1 @ [a]\<rparr> else l1)
            in (s1, Inr l2)))"

fun classify :: "contributor_settings \<Rightarrow> (nat \<Rightarrow> readings) \<Rightarrow> snapshot \<Rightarrow> wattempt list \<Rightarrow> advance_lists \<Rightarrow> ('p, advance_lists) ctl_op" where
  "classify cfg rg n [] l s = (s, Inr l)"
| "classify cfg rg n (a # as) l s = ctl_bind (advance_one cfg (rg 0) n a l) (\<lambda>l1. classify cfg (\<lambda>k. rg (Suc k)) n as l1) s"

fun authorities :: "contributor_settings \<Rightarrow> (nat \<Rightarrow> readings) \<Rightarrow> bool \<Rightarrow> wattempt list \<Rightarrow> ('p, unit) ctl_op" where
  "authorities cfg rg starting [] s = (s, Inr ())"
| "authorities cfg rg starting (a # as) s =
     ctl_bind (runner_authority cfg (rg 0) starting a) (\<lambda>_. authorities cfg (\<lambda>k. rg (Suc k)) starting as) s"

fun renew_all :: "(nat \<Rightarrow> readings) \<Rightarrow> snapshot \<Rightarrow> wattempt list \<Rightarrow> ('p, renewal list) ctl_op" where
  "renew_all rg n [] s = (s, Inr [])"
| "renew_all rg n (a # as) s =
     ctl_bind (with_store (renew_attempt (rg_clk (rg 0)) (wa_id a) (rg_now (rg 0) + of_int (sn_maximum_lease_seconds n) - 1 / 2))) (\<lambda>v.
     ctl_bind (renew_all (\<lambda>k. rg (Suc k)) n as) (\<lambda>vs. ctl_lift (\<lambda>_. Inr (v # vs)))) s"

fun start_all :: "(nat \<Rightarrow> readings) \<Rightarrow> wattempt list \<Rightarrow> ('p, wattempt list) ctl_op" where
  "start_all rg [] s = (s, Inr [])"
| "start_all rg (a # as) s =
     ctl_bind (with_store (transition_attempt (rg_clk (rg 0)) (wa_id a) Prepared Starting None)) (\<lambda>v.
     ctl_bind (start_all (\<lambda>k. rg (Suc k)) as) (\<lambda>vs. ctl_lift (\<lambda>_. Inr (v # vs)))) s"

text \<open>
  \<open>rg 0\<close> is read by the batch itself, the further readings by its attempts: once before the batch, once
  by the update, and by the check that the channel repeats.
\<close>

definition attempt_checks :: "contributor_settings \<Rightarrow> (nat \<Rightarrow> readings) \<Rightarrow> bool \<Rightarrow> wattempt list \<Rightarrow> nat \<Rightarrow> ('p, unit) ctl_op" where
  "attempt_checks cfg rg starting values k = authorities cfg (\<lambda>m. rg (Suc ((2 + k) * length values + m))) starting values"

definition stop_slice :: "'p await \<Rightarrow> (nat \<Rightarrow> readings) \<Rightarrow> snapshot \<Rightarrow> wattempt list \<Rightarrow> ('p, wattempt list) ctl_op" where
  "stop_slice aw rg n values = send_batch aw no_check (rg 0) n (Some (control_message (rg 0) Act_stop values)) values"

definition renew_slice :: "contributor_settings \<Rightarrow> 'p await \<Rightarrow> (nat \<Rightarrow> readings) \<Rightarrow> snapshot \<Rightarrow> wattempt list \<Rightarrow> ('p, wattempt list) ctl_op" where
  "renew_slice cfg aw rg n values =
     ctl_bind (authorities cfg (\<lambda>k. rg (Suc k)) False values) (\<lambda>_.
     ctl_bind (renew_all (\<lambda>k. rg (Suc (length values + k))) n values) (\<lambda>leases.
     send_batch aw (attempt_checks cfg rg False values) (rg 0) n (Some (Renew (runner_request (rg 0)) leases)) values))"

definition start_slice :: "contributor_settings \<Rightarrow> 'p await \<Rightarrow> (nat \<Rightarrow> readings) \<Rightarrow> snapshot \<Rightarrow> wattempt list \<Rightarrow> ('p, wattempt list) ctl_op" where
  "start_slice cfg aw rg n values =
     ctl_bind (authorities cfg (\<lambda>k. rg (Suc k)) True values) (\<lambda>_.
     ctl_bind (start_all (\<lambda>k. rg (Suc (length values + k))) values) (\<lambda>started.
     send_batch aw (attempt_checks cfg rg True started) (rg 0) n (Some (control_message (rg 0) Act_start started)) started))"

definition advance :: "contributor_settings \<Rightarrow> (advance_action \<Rightarrow> nat \<Rightarrow> 'p await) \<Rightarrow> (nat \<Rightarrow> readings) \<Rightarrow> (advance_action \<Rightarrow> nat \<Rightarrow> nat \<Rightarrow> readings)
    \<Rightarrow> string \<Rightarrow> snapshot \<Rightarrow> ('p, unit) ctl_op" where
  "advance cfg aw rg rgs i n s =
     ctl_bind (classify cfg rg n (list_attempts (ct_store s) (Some i)) \<lparr>al_stop = [], al_renew = [], al_start = []\<rparr>) (\<lambda>l.
     ctl_bind (each_slice (\<lambda>k. stop_slice (aw Stopping k) (rgs Stopping k) n) 0 (slices (al_stop l))) (\<lambda>_.
     ctl_bind (each_slice (\<lambda>k. renew_slice cfg (aw Renewing k) (rgs Renewing k) n) 0 (slices (al_renew l))) (\<lambda>_.
     each_slice (\<lambda>k. start_slice cfg (aw Starting_up k) (rgs Starting_up k) n) 0 (slices (al_start l))))) s"

section \<open>Placement\<close>

definition placement_checks :: "readings \<Rightarrow> job_record \<Rightarrow> snapshot \<Rightarrow> unit res" where
  "placement_checks rg job n =
     (let j = sub_job (rec_request job); l = job_limits j in
      case refusal (sn_offer n) (rec_project_id job) j (rg_now rg) False of
        Some reason \<Rightarrow> Inl (Failure reason 409)
      | None \<Rightarrow>
          if \<not> list_ex (\<lambda>p. pc_id p = rt_provider (job_runtime j) \<and> pc_package_digest p = rt_package_digest (job_runtime j) \<and> pc_available p) (sn_providers n)
          then Inl (Failure ''runtime_unavailable'' 409)
          else if \<not> fits l (sn_available n) then Inl (Failure ''capacity'' 409)
          else if \<not> list_ex (\<lambda>sl. sc_available sl \<and> sc_storage_bytes sl \<le> storage_bytes l \<and> sc_storage_inodes sl \<le> storage_inodes l) (sn_slots n)
          then Inl (Failure ''storage_slot_unavailable'' 409) else Inr ())"

definition new_plan :: "readings \<Rightarrow> job_record \<Rightarrow> string \<Rightarrow> snapshot \<Rightarrow> int \<Rightarrow> plan" where
  "new_plan rg job i n revision =
     \<lparr>plan_version = 1, plan_deployment_id = sn_deployment_id n, plan_node_id = i, plan_project_id = rec_project_id job,
      plan_subject_id = rec_subject_id job, plan_job_id = rec_id job, plan_attempt_id = rg_token rg,
      plan_generation = rec_generation job + 1, plan_offer_revision = off_revision (sn_offer n), plan_policy_revision = revision,
      plan_job = sub_job (rec_request job)\<rparr>"

definition new_lease :: "readings \<Rightarrow> plan \<Rightarrow> snapshot \<Rightarrow> renewal" where
  "new_lease rg p n =
     \<lparr>f_attempt_id = plan_attempt_id p, f_generation = plan_generation p, f_plan_digest = digest_of_plan p, ren_sequence = 1,
      ren_expires_at = rg_clk rg 0 + of_int (sn_maximum_lease_seconds n) - 1 / 2\<rparr>"

definition placement :: "contributor_settings \<Rightarrow> readings \<Rightarrow> job_record \<Rightarrow> string \<Rightarrow> ('p, wattempt) ctl_op" where
  "placement cfg rg job i =
     ctl_bind (ctl_lift (require_available cfg rg i)) (\<lambda>n.
     ctl_bind (ctl_lift (\<lambda>_. ensure (\<not> (sn_admission_version n \<noteq> 1 \<or> sn_ledger_id n = None)) (Failure ''executor_upgrade_required'' 409))) (\<lambda>_.
     ctl_bind (work_authority rg job i) (\<lambda>revision.
     ctl_bind (ctl_lift (\<lambda>_. placement_checks rg job n)) (\<lambda>_.
     let p = new_plan rg job i n revision; lease = new_lease rg p n in
     ctl_bind (ctl_lift (\<lambda>_. ensure (valid_plan p \<and> valid_renewal lease) ValueError)) (\<lambda>_.
     with_store (reserve_attempt (\<lambda>k. rg_clk rg (Suc k)) p lease (sn_installation_id n) (off_limits (sn_offer n)) (sn_ledger_id n)
       (sn_admission_version n)))))))"

type_synonym groups = "(string \<times> wattempt list) list"

text \<open>The candidates of one job in order: the contributor it is placed on, or the last reason.\<close>

fun try_nodes :: "contributor_settings \<Rightarrow> (nat \<Rightarrow> readings) \<Rightarrow> job_record \<Rightarrow> groups \<Rightarrow> string list \<Rightarrow> string
    \<Rightarrow> ('p, string + string \<times> wattempt) ctl_op" where
  "try_nodes cfg rg job groups [] reason s = (s, Inr (Inl reason))"
| "try_nodes cfg rg job groups (i # is) reason s =
     (if i \<in> fst ` set groups \<or> i \<in> set (rn_locked (ct_runner s))
      then try_nodes cfg (\<lambda>k. rg (Suc k)) job groups is ''executor_busy'' s
      else (case placement cfg (rg 0) job i s of
          (s1, Inl e) \<Rightarrow>
            (case e of Failure code _ \<Rightarrow> try_nodes cfg (\<lambda>k. rg (Suc k)) job groups is code s1 | _ \<Rightarrow> (s1, Inl e))
        | (s1, Inr a) \<Rightarrow> (s1, Inr (Inr (i, a)))))"

definition defer_job :: "readings \<Rightarrow> string \<Rightarrow> ('p, unit) ctl_op" where
  "defer_job rg i = on_runner (\<lambda>r. r\<lparr>rn_deferred := AList.update i (rg_mono rg + 2) (rn_deferred r)\<rparr>)"

definition schedule_one :: "contributor_settings \<Rightarrow> (nat \<Rightarrow> readings) \<Rightarrow> string \<Rightarrow> groups \<Rightarrow> ('p, groups) ctl_op" where
  "schedule_one cfg rg i groups =
     ctl_bind (ctl_lift (\<lambda>s. get_job (ct_store s) i)) (\<lambda>job.
     ctl_bind (try_nodes cfg (\<lambda>k. rg (Suc k)) job groups (sub_node_ids (rec_request job)) ''executor_unavailable'') (\<lambda>r.
     (case r of
        Inr (node, a) \<Rightarrow> ctl_lift (\<lambda>_. Inr (groups @ [(node, [a])]))
      | Inl reason \<Rightarrow>
          ctl_bind (with_store (mark_pending (rg_clk (rg 0)) i (Some reason))) (\<lambda>_.
          ctl_bind (defer_job (rg 0) i) (\<lambda>_. ctl_lift (\<lambda>_. Inr groups))))))"

fun schedule_chosen :: "contributor_settings \<Rightarrow> (nat \<Rightarrow> nat \<Rightarrow> readings) \<Rightarrow> string list \<Rightarrow> groups \<Rightarrow> ('p, groups) ctl_op" where
  "schedule_chosen cfg rg [] groups s = (s, Inr groups)"
| "schedule_chosen cfg rg (i # is) groups s =
     ctl_bind (schedule_one cfg (rg 0) i groups) (\<lambda>g. schedule_chosen cfg (\<lambda>k. rg (Suc k)) is g) s"

text \<open>
  The scheduling loop. Each round asks the package again, with the jobs that were not examined yet;
  it ends because a round without a selection is the last one.
\<close>

definition ask_scheduler :: "'p selector \<Rightarrow> job_record list \<Rightarrow> ('p, string list) ctl_op" where
  "ask_scheduler sel jobs s =
     (case ct_scheduler s of
        None \<Rightarrow> (s, Inl AssertionError)
      | Some p \<Rightarrow> (case provider_select sel jobs (list_attempts (ct_store s) None) p of (p1, r) \<Rightarrow> (s\<lparr>ct_scheduler := Some p1\<rparr>, r)))"

lemma ask_schedulerD:
  assumes "ask_scheduler sel jobs s = (t, Inr c)"
  shows "distinct c" "length c \<le> 64" "set c \<subseteq> rec_id ` {j \<in> set jobs. rec_state j = Queued \<and> \<not> rec_cancelled j}"
    "t = s\<lparr>ct_scheduler := ct_scheduler t\<rparr>"
proof -
  obtain p p1 where "provider_select sel jobs (list_attempts (ct_store s) None) p = (p1, Inr c)" and t: "t = s\<lparr>ct_scheduler := Some p1\<rparr>"
    using assms by (auto simp: ask_scheduler_def split: option.splits prod.splits)
  from provider_selectD [OF this(1)] show "distinct c" "length c \<le> 64" "set c \<subseteq> rec_id ` {j \<in> set jobs. rec_state j = Queued \<and> \<not> rec_cancelled j}"
    by simp_all
  show "t = s\<lparr>ct_scheduler := ct_scheduler t\<rparr>" using t by simp
qed

lemma chosen_shrinks:
  assumes "ask_scheduler sel pending s = (t, Inr c)" and "take m c \<noteq> []"
  shows "length (filter (\<lambda>j. rec_id j \<notin> set (take m c)) pending) < length pending"
proof -
  obtain i where i: "i \<in> set (take m c)" using assms(2) by (cases "take m c") auto
  then have "i \<in> rec_id ` set pending" using ask_schedulerD(3) [OF assms(1)] set_take_subset [of m c] by fastforce
  then obtain j where "j \<in> set pending" "rec_id j \<in> set (take m c)" using i by auto
  then show ?thesis by (intro length_filter_less [of j]) auto
qed

function schedule_loop :: "contributor_settings \<Rightarrow> 'p selector \<Rightarrow> (nat \<Rightarrow> nat \<Rightarrow> readings) \<Rightarrow> job_record list \<Rightarrow> nat \<Rightarrow> groups
    \<Rightarrow> ('p, groups) ctl_op" where
  "schedule_loop cfg sel rg pending examined groups s =
     (if pending = [] \<or> \<not> examined < 64 then (s, Inr groups)
      else (case ask_scheduler sel pending s of
          (s1, Inl e) \<Rightarrow> (s1, Inl e)
        | (s1, Inr selection) \<Rightarrow>
            let chosen = take (64 - examined) selection in
            if chosen = [] then (s1, Inr groups)
            else (case schedule_chosen cfg rg chosen groups s1 of
                (s2, Inl e) \<Rightarrow> (s2, Inl e)
              | (s2, Inr g) \<Rightarrow>
                  schedule_loop cfg sel (\<lambda>k. rg (length chosen + k)) (filter (\<lambda>j. rec_id j \<notin> set chosen) pending)
                    (examined + length chosen) g s2)))"
  by pat_completeness auto

termination schedule_loop
  by (relation "measure (\<lambda>(_, _, _, pending, _, _, _). length pending)")
    (auto intro!: chosen_shrinks [OF sym] simp del: take_eq_Nil)

declare schedule_loop.simps [simp del]

text \<open>The synchronous part of \<open>schedule\<close>: nothing else runs until the groups are complete.\<close>

definition schedule_groups :: "contributor_settings \<Rightarrow> 'p selector \<Rightarrow> rat \<Rightarrow> (nat \<Rightarrow> nat \<Rightarrow> readings) \<Rightarrow> ('p, groups) ctl_op" where
  "schedule_groups cfg sel now rg s =
     (if ct_scheduler s = None \<or> suspended s then (s, Inr [])
      else
        let s1 = s\<lparr>ct_runner := (ct_runner s)\<lparr>rn_deferred := filter (\<lambda>(_, deadline). deadline > now) (rn_deferred (ct_runner s))\<rparr>\<rparr>;
            pending = filter (\<lambda>j. rec_id j \<notin> fst ` set (rn_deferred (ct_runner s1))) (list_jobs (ct_store s) None)
        in schedule_loop cfg sel rg pending 0 [] s1)"

section \<open>Dispatch\<close>

definition lock_node :: "string \<Rightarrow> 'p controller \<Rightarrow> 'p controller" where
  "lock_node i s = s\<lparr>ct_runner := (ct_runner s)\<lparr>rn_locked := i # rn_locked (ct_runner s)\<rparr>\<rparr>"

definition unlock_node :: "string \<Rightarrow> 'p controller \<Rightarrow> 'p controller" where
  "unlock_node i s = s\<lparr>ct_runner := (ct_runner s)\<lparr>rn_locked := remove1 i (rn_locked (ct_runner s))\<rparr>\<rparr>"

definition note_error :: "string \<Rightarrow> string \<Rightarrow> 'p controller \<Rightarrow> 'p controller" where
  "note_error i code s = s\<lparr>ct_runner := (ct_runner s)\<lparr>rn_errors := AList.update i code (rn_errors (ct_runner s))\<rparr>\<rparr>"

definition admissions :: "wattempt list \<Rightarrow> admission list" where
  "admissions attempts = map (\<lambda>a. \<lparr>adm_plan = wa_plan a, adm_lease = wa_lease a\<rparr>) attempts"

definition dispatch_locked :: "contributor_settings \<Rightarrow> 'p await \<Rightarrow> (nat \<Rightarrow> readings) \<Rightarrow> string \<Rightarrow> wattempt list \<Rightarrow> ('p, unit) ctl_op" where
  "dispatch_locked cfg aw rg i attempts s =
     (case live_snapshot i s of
        None \<Rightarrow> (s, Inl KeyError)
      | Some n \<Rightarrow>
          (case send_batch aw (attempt_checks cfg rg True attempts) (rg 0) n
              (map_option (\<lambda>q. Prepare q (admissions attempts)) (bound_to (rg 0) n (sn_admission_version n))) attempts s of
             (s1, Inl e) \<Rightarrow> if caught e then (note_error i ''executor_reply_unknown'' s1, Inr ()) else (s1, Inl e)
           | (s1, Inr _) \<Rightarrow> (s1, Inr ())))"

text \<open>Others run while the coroutine waits for the lock of the contributor and for one of the eight turns.\<close>

definition runner_dispatch :: "contributor_settings \<Rightarrow> ('p controller \<Rightarrow> 'p controller) \<Rightarrow> ('p controller \<Rightarrow> 'p controller) \<Rightarrow> 'p await
    \<Rightarrow> (nat \<Rightarrow> readings) \<Rightarrow> string \<Rightarrow> wattempt list \<Rightarrow> ('p, unit) ctl_op" where
  "runner_dispatch cfg waited queued aw rg i attempts s =
     (case dispatch_locked cfg aw rg i attempts (queued (lock_node i (waited s))) of (s1, r) \<Rightarrow> (unlock_node i s1, r))"

end
