(* ===== verification/Work_Inputs.thy ===== *)
theory Work_Inputs
  imports Work_Runner
begin

text \<open>
  Streamed inputs of a workload (\<open>src/ficc/workloads/inputs.py\<close>): a submission is bound to the files
  of an immutable dataset, and the controller relays their bytes to the prepared attempt, one
  chunk at a time, at the offset that the executor acknowledged. The registries of datasets and
  models are arguments. A read-ahead is a task: it is created here and finishes in a step of its
  own with the bytes it read (\<open>task_finished\<close>); reading the registries is not modelled.
\<close>

section \<open>References of a dataset\<close>

record dataset_file =
  df_name :: string
  df_sha256 :: string
  df_size :: int

record dataset_value =
  dv_id :: string
  dv_manifest_digest :: string
  dv_files :: "dataset_file list"

definition input_name_ok :: "string \<Rightarrow> bool" where
  "input_name_ok s \<longleftrightarrow> head_tail is_alnum (\<lambda>c. is_alnum c \<or> c \<in> set ''_.-'') 127 s"

text \<open>\<open>f"input-{index:03}"\<close>\<close>

definition padded3 :: "nat \<Rightarrow> string" where
  "padded3 n = replicate (3 - length (show_nat n)) CHR ''0'' @ show_nat n"

definition input_reference :: "string \<Rightarrow> nat \<times> dataset_file \<Rightarrow> object_reference" where
  "input_reference i = (\<lambda>(index, f).
     \<lparr>obj_id = take 32 (sha256_hex (i @ '':'' @ show_nat index @ '':'' @ df_sha256 f)), obj_digest = ''sha256:'' @ df_sha256 f, obj_bytes = df_size f,
      obj_name = (if input_name_ok (df_name f) then df_name f else ''input-'' @ padded3 index), obj_delivery = Stream\<rparr>)"

definition dataset_references :: "dataset_value \<Rightarrow> object_reference list res" where
  "dataset_references v =
     (let xs = map (input_reference (dv_id v)) (enumerate 0 (dv_files v)) in
      if \<not> list_all valid_object_reference xs then Inl ValueError
      else if length xs > 64 \<or> \<not> distinct (map obj_name xs) then Inl (Failure ''dataset_inputs'' 409)
      else Inr xs)"

section \<open>Binding a submission\<close>

text \<open>
  \<open>datasets.get\<close>, \<open>safety.require\<close> and \<open>safety.effective\<close> (whether the data is sensitive), and
  \<open>models.bind\<close> with \<open>models.references\<close>, as functions of the caller's current authority.
\<close>

record registries =
  rs_dataset :: "string \<Rightarrow> auth_principal res \<Rightarrow> dataset_value res"
  rs_require :: "dataset_value \<Rightarrow> bool res"
  rs_effective :: "dataset_value \<Rightarrow> bool res"
  rs_model :: "string \<Rightarrow> auth_principal res \<Rightarrow> object_reference list res"

definition selected_dataset :: "registries \<Rightarrow> submission \<Rightarrow> auth_principal res \<Rightarrow> dataset_value option res" where
  "selected_dataset rs request authority =
     (case sub_dataset request of
        None \<Rightarrow> Inr None
      | Some d \<Rightarrow>
          bindr (rs_dataset rs (ds_id d) authority) (\<lambda>v.
          bindr (ensure (dv_manifest_digest v = ds_manifest_digest d) (Failure ''dataset_changed'' 409)) (\<lambda>_.
          bindr (rs_require rs v) (\<lambda>_. Inr (Some v)))))"

definition bind_dataset :: "registries \<Rightarrow> submission \<Rightarrow> dataset_value \<Rightarrow> submission res" where
  "bind_dataset rs request v =
     bindr (dataset_references v) (\<lambda>xs.
     bindr (ensure (\<not> (job_inputs (sub_job request) \<noteq> [] \<and> job_inputs (sub_job request) \<noteq> xs)) (Failure ''dataset_inputs'' 409)) (\<lambda>_.
     bindr (ensure (\<not> sum_list (map obj_bytes xs) > storage_bytes (job_limits (sub_job request))) (Failure ''dataset_capacity'' 409)) (\<lambda>_.
     bindr (if job_sensitive (sub_job request) then Inr True else rs_effective rs v) (\<lambda>sensitive.
     Inr (request\<lparr>sub_job := (sub_job request)\<lparr>job_inputs := xs, job_sensitive := sensitive\<rparr>\<rparr>)))))"

definition bind_inputs :: "registries \<Rightarrow> submission \<Rightarrow> delegation \<Rightarrow> directory \<Rightarrow> submission res" where
  "bind_inputs rs request dele d =
     (case sub_model_revision request of
        Some m \<Rightarrow>
          bindr (delegation_current dele d) (\<lambda>p.
          bindr (rs_model rs m (Inr p)) (\<lambda>xs.
          bindr (ensure (job_inputs (sub_job request) = xs) (Failure ''model_inputs'' 409)) (\<lambda>_. Inr request)))
      | None \<Rightarrow>
          bindr (selected_dataset rs request (delegation_current dele d)) (\<lambda>r.
          (case r of
             None \<Rightarrow>
               if list_ex (\<lambda>x. obj_delivery x = Stream) (job_inputs (sub_job request)) then Inl (Failure ''dataset_required'' 400)
               else Inr request
           | Some v \<Rightarrow> bind_dataset rs request v)))"

text \<open>The check before each use: the data is sensitive, or there is none.\<close>

definition check_inputs :: "registries \<Rightarrow> directory \<Rightarrow> job_record \<Rightarrow> bool res" where
  "check_inputs rs d job =
     bindr (selected_dataset rs (rec_request job) (delegation_current (rec_delegation job) d)) (\<lambda>r.
     (case r of
        None \<Rightarrow> Inr False
      | Some v \<Rightarrow>
          bindr (dataset_references v) (\<lambda>xs.
          bindr (ensure (xs = job_inputs (sub_job (rec_request job))) (Failure ''dataset_inputs'' 409)) (\<lambda>_. rs_require rs v))))"

section \<open>Read-ahead\<close>

definition CHUNK :: int where
  "CHUNK = 1048576"

definition PREFETCHES :: nat where
  "PREFETCHES = 8"

fun task_done :: "read_task \<Rightarrow> bool" where
  "task_done Task_running = False"
| "task_done Task_cancelling = False"
| "task_done _ = True"

text \<open>The slot of a cancelled task is kept until its transport has closed.\<close>

definition discard :: "string \<Rightarrow> 'p controller \<Rightarrow> 'p controller" where
  "discard i s =
     (case map_of (ct_prefetches s) i of
        None \<Rightarrow> s
      | Some w \<Rightarrow>
          if task_done (pf_task w) then s\<lparr>ct_prefetches := AList.delete i (ct_prefetches s)\<rparr>
          else s\<lparr>ct_prefetches := AList.update i (w\<lparr>pf_discarded := True, pf_task := Task_cancelling\<rparr>) (ct_prefetches s)\<rparr>)"

definition discard_where :: "(prefetch \<Rightarrow> bool) \<Rightarrow> 'p controller \<Rightarrow> 'p controller" where
  "discard_where P s = fold (\<lambda>w. discard (wa_id (pf_attempt w))) (filter P (map snd (ct_prefetches s))) s"

definition discard_job :: "string \<Rightarrow> 'p controller \<Rightarrow> 'p controller" where
  "discard_job i = discard_where (\<lambda>w. rec_id (pf_job w) = i)"

definition discard_node :: "string \<Rightarrow> 'p controller \<Rightarrow> 'p controller" where
  "discard_node i = discard_where (\<lambda>w. wa_node_id (pf_attempt w) = i)"

definition inputs_stop :: "'p controller \<Rightarrow> 'p controller" where
  "inputs_stop s = fold discard (map fst (ct_prefetches s)) (s\<lparr>ct_inputs_closed := True\<rparr>)"

text \<open>A task ends: the callback drops a discarded entry; a cancelled task has no result.\<close>

definition task_finished :: "string \<Rightarrow> string res \<Rightarrow> 'p controller \<Rightarrow> 'p controller" where
  "task_finished i r s =
     (case map_of (ct_prefetches s) i of
        None \<Rightarrow> s
      | Some w \<Rightarrow>
          if task_done (pf_task w) then s
          else if pf_discarded w then s\<lparr>ct_prefetches := AList.delete i (ct_prefetches s)\<rparr>
          else s\<lparr>ct_prefetches := AList.update i (w\<lparr>pf_task := (case r of Inl e \<Rightarrow> Task_raised e | Inr data \<Rightarrow> Task_returned data)\<rparr>) (ct_prefetches s)\<rparr>)"

definition inputs_current :: "contributor_settings \<Rightarrow> readings \<Rightarrow> wattempt \<Rightarrow> job_record \<Rightarrow> ('p, job_record) ctl_op" where
  "inputs_current cfg rg a job =
     ctl_bind (ctl_lift (\<lambda>s. get_attempt (ct_store s) (wa_id a))) (\<lambda>b.
     ctl_bind (ctl_lift (\<lambda>s. get_job (ct_store s) (rec_id job))) (\<lambda>r.
     ctl_bind (ctl_lift (\<lambda>s. ensure (\<not> (ct_inputs_closed s \<or> rec_current_attempt r \<noteq> Some (wa_id a) \<or> wa_state b \<noteq> Prepared
         \<or> wa_start_requested b \<or> fence_of_attempt b \<noteq> fence_of_attempt a \<or> sub_dataset (rec_request r) \<noteq> sub_dataset (rec_request job)))
         (Failure ''attempt_changed'' 409))) (\<lambda>_.
     ctl_bind (runner_authority cfg rg True b) (\<lambda>_. ctl_lift (\<lambda>_. Inr r)))))"

fun prune_works :: "contributor_settings \<Rightarrow> (nat \<Rightarrow> readings) \<Rightarrow> prefetch list \<Rightarrow> ('p, unit) ctl_op" where
  "prune_works cfg rg [] s = (s, Inr ())"
| "prune_works cfg rg (w # ws) s =
     (case inputs_current cfg (rg 0) (pf_attempt w) (pf_job w) s of
        (s1, Inr _) \<Rightarrow> prune_works cfg (\<lambda>k. rg (Suc k)) ws s1
      | (s1, Inl e) \<Rightarrow>
          if is_failure e \<or> e = ValueError then prune_works cfg (\<lambda>k. rg (Suc k)) ws (discard (wa_id (pf_attempt w)) s1)
          else (s1, Inl e))"

definition prune_prefetches :: "contributor_settings \<Rightarrow> (nat \<Rightarrow> readings) \<Rightarrow> ('p, unit) ctl_op" where
  "prune_prefetches cfg rg s = prune_works cfg rg (map snd (ct_prefetches s)) s"

definition new_prefetch :: "wattempt \<Rightarrow> job_record \<Rightarrow> nat \<Rightarrow> int \<Rightarrow> 'p controller \<Rightarrow> 'p controller" where
  "new_prefetch a job index offset s =
     s\<lparr>ct_prefetches := AList.update (wa_id a) \<lparr>pf_attempt = a, pf_job = job, pf_object = obj_id (job_inputs (sub_job (rec_request job)) ! index),
       pf_offset = offset, pf_task = Task_running, pf_discarded = False\<rparr> (ct_prefetches s)\<rparr>"

section \<open>Transfer\<close>

text \<open>Every row answers its input: bound to the attempt, the object, its size and its digest.\<close>

definition progress_row :: "wattempt \<Rightarrow> object_reference \<Rightarrow> reply_row \<Rightarrow> input_view res" where
  "progress_row a x row =
     (if row_fence row \<noteq> fence_of_attempt a then Inl (Failure ''executor_response'' 502)
      else case row of
        Refused f e \<Rightarrow> Inl (Failure (err_code e) 409)
      | InputResult f v \<Rightarrow>
          if iv_object v \<noteq> obj_id x \<or> iv_bytes v \<noteq> obj_bytes x \<or> iv_digest v \<noteq> obj_digest x \<or> iv_complete v \<and> iv_offset v \<noteq> obj_bytes x
          then Inl (Failure ''executor_response'' 502) else Inr v
      | _ \<Rightarrow> Inl (Failure ''executor_response'' 502))"

fun progress_rows :: "wattempt \<Rightarrow> object_reference list \<Rightarrow> reply_row list \<Rightarrow> input_view list res" where
  "progress_rows a (x # xs) (row # rows) = bindr (progress_row a x row) (\<lambda>v. bindr (progress_rows a xs rows) (\<lambda>vs. Inr (v # vs)))"
| "progress_rows a _ _ = Inr []"

definition progress :: "reply \<Rightarrow> wattempt \<Rightarrow> object_reference list \<Rightarrow> input_view list res" where
  "progress r a xs =
     (case r of
        BatchReply h rows \<Rightarrow> if length rows \<noteq> length xs then Inl (Failure ''executor_response'' 502) else progress_rows a xs rows
      | _ \<Rightarrow> Inl (Failure ''executor_response'' 502))"

definition no_info :: observed_info where
  "no_info = \<lparr>ob_ready = None, ob_at = None, ob_inputs = None\<rparr>"

definition note_progress :: "string \<Rightarrow> int \<times> int \<Rightarrow> 'p controller \<Rightarrow> 'p controller" where
  "note_progress i p s =
     (let c = ct_commands s; old = (case map_of (cm_observed c) i of None \<Rightarrow> no_info | Some x \<Rightarrow> x)
      in s\<lparr>ct_commands := c\<lparr>cm_observed := AList.update i (old\<lparr>ob_inputs := Some p\<rparr>) (cm_observed c)\<rparr>\<rparr>)"

text \<open>The progress of a finished write goes into the document that the observation still shares.\<close>

definition renote_progress :: "string \<Rightarrow> int \<times> int \<Rightarrow> 'p controller \<Rightarrow> 'p controller" where
  "renote_progress i p s =
     (case map_of (cm_observed (ct_commands s)) i of
        Some x \<Rightarrow> if ob_inputs x = None then s else note_progress i p s
      | None \<Rightarrow> s)"

definition input_objects :: "wattempt \<Rightarrow> object_reference list \<Rightarrow> input_object list" where
  "input_objects a xs = map (\<lambda>x. fence.extend (fence_of_attempt a) (input_object.fields (obj_id x))) xs"

definition write_message :: "readings \<Rightarrow> wattempt \<Rightarrow> object_reference \<Rightarrow> int \<Rightarrow> string \<Rightarrow> message" where
  "write_message rg a x offset data = InputWrite (runner_request rg)
     [\<lparr>f_attempt_id = wa_id a, f_generation = plan_generation (wa_plan a), f_plan_digest = digest_of_plan (wa_plan a), in_object = obj_id x,
       ch_offset = offset, ch_data = b64encode data, ch_digest = ''sha256:'' @ sha256_hex data\<rparr>]"

definition first_incomplete :: "input_view list \<Rightarrow> (nat \<times> input_view) option" where
  "first_incomplete rows = find (\<lambda>(_, v). \<not> iv_complete v) (enumerate 0 rows)"

definition other_read :: "prefetch \<Rightarrow> wattempt \<Rightarrow> object_reference \<Rightarrow> int \<Rightarrow> bool" where
  "other_read w a x offset \<longleftrightarrow> pf_object w \<noteq> obj_id x \<or> pf_offset w \<noteq> offset \<or> fence_of_attempt (pf_attempt w) \<noteq> fence_of_attempt a"

text \<open>The check of a transfer, before and after every command of it; \<open>rg 0\<close> is the caller's own reading.\<close>

definition input_check :: "contributor_settings \<Rightarrow> (nat \<Rightarrow> readings) \<Rightarrow> wattempt \<Rightarrow> job_record \<Rightarrow> nat \<Rightarrow> ('p, unit) ctl_op" where
  "input_check cfg rg a job k = ctl_bind (inputs_current cfg (rg (Suc k)) a job) (\<lambda>_. ctl_lift (\<lambda>_. Inr ()))"

text \<open>The try block: the data read ahead is sent, and the acknowledged offset is its end.\<close>

definition write_chunk :: "contributor_settings \<Rightarrow> 'p await \<Rightarrow> (nat \<Rightarrow> readings) \<Rightarrow> wattempt \<Rightarrow> job_record \<Rightarrow> object_reference \<Rightarrow> int \<Rightarrow> read_task
    \<Rightarrow> ('p, input_view) ctl_op" where
  "write_chunk cfg aw rg a job x offset task s =
     (case task of
        Task_returned data \<Rightarrow>
          ctl_bind (inputs_current cfg (rg 0) a job) (\<lambda>_.
          ctl_bind (channel_call aw (input_check cfg rg a job) (write_message (rg 0) a x offset data)) (\<lambda>r.
          ctl_bind (ctl_lift (\<lambda>_. bindr (progress r a [x]) (\<lambda>vs. Inr (hd vs)))) (\<lambda>v.
          ctl_lift (\<lambda>_. bindr (ensure (iv_offset v = offset + int (length data)) (Failure ''executor_response'' 502)) (\<lambda>_. Inr v))))) s
      | Task_raised e \<Rightarrow> (s, Inl e)
      | _ \<Rightarrow> (s, Inl AssertionError))"

definition transfer_chunk :: "contributor_settings \<Rightarrow> 'p await \<Rightarrow> (nat \<Rightarrow> readings) \<Rightarrow> wattempt \<Rightarrow> job_record \<Rightarrow> input_view list \<Rightarrow> nat \<Rightarrow> int
    \<Rightarrow> ('p, bool) ctl_op" where
  "transfer_chunk cfg aw rg a job rows index offset s =
     (let xs = job_inputs (sub_job (rec_request job)); x = xs ! index;
          s1 = (case map_of (ct_prefetches s) (wa_id a) of
              Some w \<Rightarrow> if other_read w a x offset then discard (wa_id a) s else s | None \<Rightarrow> s)
      in case map_of (ct_prefetches s1) (wa_id a) of
        None \<Rightarrow> (if length (ct_prefetches s1) < PREFETCHES then new_prefetch a job index offset s1 else s1, Inr False)
      | Some w \<Rightarrow>
          if pf_discarded w \<or> \<not> task_done (pf_task w) then (s1, Inr False)
          else (case write_chunk cfg aw rg a job x offset (pf_task w) s1 of
              (s2, Inl e) \<Rightarrow> (discard (wa_id a) s2, Inl e)
            | (s2, Inr v) \<Rightarrow>
                let s3 = discard (wa_id a) (renote_progress (wa_id a)
                      (sum_list (map iv_offset rows) + iv_offset v - offset, sum_list (map obj_bytes xs)) s2)
                in (if iv_complete v then s3 else new_prefetch a job index (iv_offset v) s3, Inr True)))"

definition transfer :: "contributor_settings \<Rightarrow> (nat \<Rightarrow> 'p await) \<Rightarrow> (nat \<Rightarrow> readings) \<Rightarrow> wattempt \<Rightarrow> job_record \<Rightarrow> ('p, bool) ctl_op" where
  "transfer cfg aw rg a job =
     ctl_bind (inputs_current cfg (rg 0) a job) (\<lambda>_.
     let xs = job_inputs (sub_job (rec_request job)) in
     if xs = [] then ctl_lift (\<lambda>_. Inr False)
     else
       ctl_bind (channel_call (aw 0) (input_check cfg rg a job) (InputStatus (runner_request (rg 0)) (input_objects a xs))) (\<lambda>r.
       ctl_bind (ctl_lift (\<lambda>_. progress r a xs)) (\<lambda>rows s.
         let s1 = note_progress (wa_id a) (sum_list (map iv_offset rows), sum_list (map obj_bytes xs)) s in
         case first_incomplete rows of
           None \<Rightarrow> (discard (wa_id a) s1, Inr False)
         | Some (index, v) \<Rightarrow> transfer_chunk cfg (aw 1) (\<lambda>k. rg (3 + k)) a job rows index (iv_offset v) s1)))"

section \<open>All attempts of a contributor\<close>

definition transient_input :: "string \<Rightarrow> bool" where
  "transient_input code \<longleftrightarrow> code \<in> {''inputs_preparing'', ''input_offset_changed'', ''input_busy'', ''input_not_prepared'', ''executor_busy''}"

definition audit_input :: "job_record \<Rightarrow> string \<Rightarrow> work_store \<Rightarrow> work_store" where
  "audit_input job code s =
     s\<lparr>ws_audit := ws_audit s @ [\<lparr>au_action = ''workload.input'', au_target = rec_id job, au_outcome = code, au_actor = rec_actor job\<rparr>]\<rparr>"

text \<open>A permanent failure cancels the job, in one transaction.\<close>

definition cancel_failed_input :: "(nat \<Rightarrow> rat) \<Rightarrow> string \<Rightarrow> string \<Rightarrow> unit work_op" where
  "cancel_failed_input clk i code s =
     bindr (get_job s i) (\<lambda>c.
       if rec_cancelled c then Inr (s, ())
       else bindr (cancel_job clk (rec_id c) (rec_revision c) s) (\<lambda>(s1, _). Inr (audit_input c code s1, ())))"

definition needs_inputs :: "wattempt \<Rightarrow> bool" where
  "needs_inputs a \<longleftrightarrow> wa_state a = Prepared \<and> \<not> wa_start_requested a"

fun advance_inputs :: "contributor_settings \<Rightarrow> (nat \<Rightarrow> nat \<Rightarrow> 'p await) \<Rightarrow> (nat \<Rightarrow> nat \<Rightarrow> readings) \<Rightarrow> wattempt list \<Rightarrow> ('p, bool) ctl_op" where
  "advance_inputs cfg aw rg [] s = (s, Inr False)"
| "advance_inputs cfg aw rg (a # as) s =
     (let next = advance_inputs cfg (\<lambda>k. aw (Suc k)) (\<lambda>k. rg (Suc k)) as in
      if \<not> needs_inputs a then next s
      else case get_job (ct_store s) (wa_job_id a) of
        Inl e \<Rightarrow> (s, Inl e)
      | Inr job \<Rightarrow>
          if sub_dataset (rec_request job) = None \<and> sub_model_revision (rec_request job) = None \<or> is_ready (wa_id a) s then next s
          else (case transfer cfg (aw 0) (rg 0) a job s of
              (s1, Inr True) \<Rightarrow> (s1, Inr True)
            | (s1, Inr False) \<Rightarrow> next s1
            | (s1, Inl (Failure code http)) \<Rightarrow>
                let s2 = discard (wa_id a) s1 in
                if transient_input code then next s2
                else if http \<ge> 500 \<or> code \<in> {''contributor_disconnected'', ''node_lease_changed''} then (s2, Inl (Failure code http))
                else ctl_bind (with_store (cancel_failed_input (rg_clk (rg 0 6)) (rec_id job) code)) (\<lambda>_. next) s2
            | (s1, Inl e) \<Rightarrow> (s1, Inl e)))"

definition inputs_advance :: "contributor_settings \<Rightarrow> (nat \<Rightarrow> nat \<Rightarrow> 'p await) \<Rightarrow> (nat \<Rightarrow> nat \<Rightarrow> readings) \<Rightarrow> string \<Rightarrow> wattempt list \<Rightarrow> ('p, bool) ctl_op" where
  "inputs_advance cfg aw rg i attempts s =
     (if ct_inputs_closed s then (s, Inr False)
      else
        let kept = map wa_id (filter (\<lambda>a. needs_inputs a \<and> \<not> is_ready (wa_id a) s) attempts)
        in advance_inputs cfg aw rg attempts
             (discard_where (\<lambda>w. wa_node_id (pf_attempt w) = i \<and> wa_id (pf_attempt w) \<notin> set kept) s))"

end
