(* ===== verification/Work_Loop.thy ===== *)
theory Work_Loop
  imports Work_Inputs
begin

text \<open>
  The polling loop of the runner (\<open>Runner.node\<close> and \<open>Runner.poll\<close> of
  \<open>src/ficc/workloads/runner.py\<close>): one turn of a contributor takes a snapshot, reconciles it, offers
  unconfirmed admissions for rejection, observes, renews, starts and stops attempts and relays
  inputs; one turn of the loop does this for all connected contributors, gives up attempts whose
  lease ran out at an unavailable contributor, and schedules. The turns of the contributors run
  concurrently: what the others do between two awaits is in the awaits of each of them.
\<close>

section \<open>One contributor\<close>

record 'p node_world =
  nw_queued :: "'p controller \<Rightarrow> 'p controller"
  nw_rg :: "nat \<Rightarrow> readings"
  nw_snapshot :: "'p await"
  nw_pages :: "nat \<Rightarrow> nat \<Rightarrow> 'p await"
  nw_pages_rg :: "nat \<Rightarrow> nat \<Rightarrow> readings"
  nw_reject :: "nat \<Rightarrow> 'p await"
  nw_reject_rg :: "nat \<Rightarrow> readings"
  nw_observe :: "nat \<Rightarrow> 'p await"
  nw_observe_rg :: "nat \<Rightarrow> readings"
  nw_advance :: "advance_action \<Rightarrow> nat \<Rightarrow> 'p await"
  nw_advance_rg :: "advance_action \<Rightarrow> nat \<Rightarrow> nat \<Rightarrow> readings"
  nw_inputs :: "nat \<Rightarrow> nat \<Rightarrow> 'p await"
  nw_inputs_rg :: "nat \<Rightarrow> nat \<Rightarrow> readings"

definition note_live :: "string \<Rightarrow> snapshot \<Rightarrow> rat \<Rightarrow> ('p, unit) ctl_op" where
  "note_live i n m = on_runner (\<lambda>r. r\<lparr>rn_live := AList.update i (n, m) (rn_live r)\<rparr>)"

definition observe_slices :: "(nat \<Rightarrow> 'p await) \<Rightarrow> (nat \<Rightarrow> readings) \<Rightarrow> snapshot \<Rightarrow> wattempt list \<Rightarrow> ('p, unit) ctl_op" where
  "observe_slices aw rg n attempts =
     each_slice (\<lambda>k values. send_batch (aw k) no_check (rg k) n (Some (control_message (rg k) Act_observe values)) values) 0 (slices attempts)"

definition note_transferring :: "string \<Rightarrow> bool \<Rightarrow> ('p, unit) ctl_op" where
  "note_transferring i b = on_runner (\<lambda>r. r\<lparr>rn_transferring := (if b then List.insert i (rn_transferring r) else removeAll i (rn_transferring r))\<rparr>)"

definition clear_error :: "string \<Rightarrow> ('p, unit) ctl_op" where
  "clear_error i = on_runner (\<lambda>r. r\<lparr>rn_errors := AList.delete i (rn_errors r)\<rparr>)"

definition node_reconciled :: "contributor_settings \<Rightarrow> 'p node_world \<Rightarrow> string \<Rightarrow> snapshot \<Rightarrow> ('p, unit) ctl_op" where
  "node_reconciled cfg w i n =
     ctl_bind (note_live i n (rg_mono (nw_rg w 3))) (\<lambda>_.
     ctl_bind (ctl_lift (\<lambda>s. Inr (open_attempts i s))) (\<lambda>attempts.
     ctl_bind (runner_reject_absent (nw_reject w) (nw_reject_rg w) n attempts) (\<lambda>_.
     ctl_bind (observe_slices (nw_observe w) (nw_observe_rg w) n attempts) (\<lambda>_.
     ctl_bind (advance cfg (nw_advance w) (\<lambda>k. nw_rg w (4 + k)) (nw_advance_rg w) i n) (\<lambda>_.
     ctl_bind (\<lambda>s. inputs_advance cfg (nw_inputs w) (nw_inputs_rg w) i (list_attempts (ct_store s) (Some i)) s) (\<lambda>moved.
     ctl_bind (note_transferring i moved) (\<lambda>_. clear_error i)))))))"

definition node_body :: "contributor_settings \<Rightarrow> 'p node_world \<Rightarrow> string \<Rightarrow> 'p controller \<Rightarrow> ('p controller \<times> unit res) option" where
  "node_body cfg w i s =
     (case fetch_snapshot (nw_snapshot w) (nw_rg w 0) i None s of
        (s1, Inl e) \<Rightarrow> Some (s1, Inl e)
      | (s1, Inr n) \<Rightarrow>
          (case with_store (save_node (rg_clk (nw_rg w 1)) n) s1 of
             (s2, Inl e) \<Rightarrow> Some (s2, Inl e)
           | (s2, Inr _) \<Rightarrow>
               (case reconcile cfg (nw_pages w) (nw_pages_rg w) (nw_rg w 2) i n s2 of
                  None \<Rightarrow> None
                | Some (s3, Inl e) \<Rightarrow> Some (s3, Inl e)
                | Some (s3, Inr _) \<Rightarrow> Some (node_reconciled cfg w i n s3))))"

fun handled :: "exn \<Rightarrow> bool" where
  "handled (Failure _ _) = True"
| "handled OSError = True"
| "handled ValueError = True"
| "handled IntegrityError = True"
| "handled _ = False"

fun error_code :: "exn \<Rightarrow> string" where
  "error_code (Failure code _) = code"
| "error_code _ = ''executor_unavailable''"

definition node_failed :: "string \<Rightarrow> exn \<Rightarrow> 'p controller \<Rightarrow> 'p controller" where
  "node_failed i e s =
     (let s1 = discard_node i s; r = ct_runner s1
      in s1\<lparr>ct_runner := r\<lparr>rn_transferring := removeAll i (rn_transferring r), rn_live := AList.delete i (rn_live r),
           rn_errors := AList.update i (error_code e) (rn_errors r)\<rparr>\<rparr>)"

definition runner_node :: "contributor_settings \<Rightarrow> 'p node_world \<Rightarrow> string \<Rightarrow> 'p controller \<Rightarrow> ('p controller \<times> unit res) option" where
  "runner_node cfg w i s =
     (if i \<in> set (rn_locked (ct_runner s)) then Some (s, Inr ())
      else (case node_body cfg w i (nw_queued w (lock_node i s)) of
          None \<Rightarrow> None
        | Some (s1, Inl e) \<Rightarrow> if handled e then Some (unlock_node i (node_failed i e s1), Inr ()) else Some (unlock_node i s1, Inl e)
        | Some (s1, Inr _) \<Rightarrow> Some (unlock_node i s1, Inr ())))"

section \<open>The loop\<close>

text \<open>
  \<open>asyncio.gather\<close>: all coroutines run, and the first exception is raised.
\<close>

definition first_error :: "unit res \<Rightarrow> unit res \<Rightarrow> unit res" where
  "first_error r q = (case r of Inl e \<Rightarrow> Inl e | Inr _ \<Rightarrow> q)"

fun runner_nodes :: "contributor_settings \<Rightarrow> (string \<Rightarrow> 'p node_world) \<Rightarrow> string list \<Rightarrow> 'p controller \<Rightarrow> ('p controller \<times> unit res) option" where
  "runner_nodes cfg w [] s = Some (s, Inr ())"
| "runner_nodes cfg w (i # is) s =
     (case runner_node cfg (w i) i s of
        None \<Rightarrow> None
      | Some (s1, r) \<Rightarrow>
          (case runner_nodes cfg w is s1 of None \<Rightarrow> None | Some (s2, q) \<Rightarrow> Some (s2, first_error r q)))"

definition lease_lost :: "contributor_settings \<Rightarrow> readings \<Rightarrow> wattempt \<Rightarrow> 'p controller \<Rightarrow> bool res" where
  "lease_lost cfg rg a s =
     (if wa_state a \<in> {Preparing, Prepared, Starting, Running} \<and> ren_expires_at (wa_lease a) \<le> rg_now rg
      then bindr (available cfg rg (wa_node_id a) s) (\<lambda>ok. Inr (\<not> ok)) else Inr False)"

fun give_up :: "contributor_settings \<Rightarrow> (nat \<Rightarrow> readings) \<Rightarrow> wattempt list \<Rightarrow> ('p, unit) ctl_op" where
  "give_up cfg rg [] s = (s, Inr ())"
| "give_up cfg rg (a # as) s =
     ctl_bind (ctl_lift (lease_lost cfg (rg 0) a)) (\<lambda>lost.
     ctl_bind (if lost then with_commands (uncertain (rg_clk (rg 0)) (wa_id a) ''executor_unavailable'') else ctl_lift (\<lambda>_. Inr ())) (\<lambda>_.
     give_up cfg (\<lambda>k. rg (Suc k)) as)) s"

record 'p poll_world =
  pl_prune_rg :: "nat \<Rightarrow> readings"
  pl_nodes :: "string \<Rightarrow> 'p node_world"
  pl_lost_rg :: "nat \<Rightarrow> readings"
  pl_now :: rat
  pl_schedule_rg :: "nat \<Rightarrow> nat \<Rightarrow> readings"
  pl_waited :: "string \<Rightarrow> 'p controller \<Rightarrow> 'p controller"
  pl_queued :: "string \<Rightarrow> 'p controller \<Rightarrow> 'p controller"
  pl_dispatch :: "string \<Rightarrow> 'p await"
  pl_dispatch_rg :: "string \<Rightarrow> nat \<Rightarrow> readings"

fun dispatch_groups :: "contributor_settings \<Rightarrow> 'p poll_world \<Rightarrow> groups \<Rightarrow> ('p, unit) ctl_op" where
  "dispatch_groups cfg w [] s = (s, Inr ())"
| "dispatch_groups cfg w ((i, attempts) # gs) s =
     (case runner_dispatch cfg (pl_waited w i) (pl_queued w i) (pl_dispatch w i) (pl_dispatch_rg w i) i attempts s of (s1, r) \<Rightarrow>
        (case dispatch_groups cfg w gs s1 of (s2, q) \<Rightarrow> (s2, first_error r q)))"

definition schedule :: "contributor_settings \<Rightarrow> 'p selector \<Rightarrow> 'p poll_world \<Rightarrow> ('p, unit) ctl_op" where
  "schedule cfg sel w = ctl_bind (schedule_groups cfg sel (pl_now w) (pl_schedule_rg w)) (dispatch_groups cfg w)"

definition poll_body :: "contributor_settings \<Rightarrow> 'p selector \<Rightarrow> 'p poll_world \<Rightarrow> 'p controller \<Rightarrow> ('p controller \<times> unit res) option" where
  "poll_body cfg sel w s =
     (case prune_prefetches cfg (pl_prune_rg w) s of
        (s1, Inl e) \<Rightarrow> Some (s1, Inl e)
      | (s1, Inr _) \<Rightarrow>
          (case runner_nodes cfg (pl_nodes w) (map fst (co_sessions (ct_contributors s1))) s1 of
             None \<Rightarrow> None
           | Some (s2, Inl e) \<Rightarrow> Some (s2, Inl e)
           | Some (s2, Inr _) \<Rightarrow>
               Some (ctl_bind (give_up cfg (pl_lost_rg w) (list_attempts (ct_store s2) None)) (\<lambda>_. schedule cfg sel w) s2)))"

definition note_failed :: "bool \<Rightarrow> 'p controller \<Rightarrow> 'p controller" where
  "note_failed b s = s\<lparr>ct_runner := (ct_runner s)\<lparr>rn_failed := b\<rparr>\<rparr>"

text \<open>One turn of the loop; an exception outside the handled ones ends the loop.\<close>

definition poll_turn :: "contributor_settings \<Rightarrow> 'p selector \<Rightarrow> 'p poll_world \<Rightarrow> 'p controller \<Rightarrow> ('p controller \<times> unit res) option" where
  "poll_turn cfg sel w s =
     (if ct_scheduler s = None then Some (s, Inr ())
      else (case poll_body cfg sel w s of
          None \<Rightarrow> None
        | Some (s1, Inr _) \<Rightarrow> Some (note_failed False s1, Inr ())
        | Some (s1, Inl e) \<Rightarrow> if handled e then Some (note_failed True s1, Inr ()) else Some (s1, Inl e)))"

end
