(* ===== verification/Work_Client.thy ===== *)
theory Work_Client
  imports Work_Loop
begin

text \<open>
  The interface between the controller's coroutines and the stored records. \<open>store_preorder\<close> is any
  preorder on stores that ignores the audit; inside it an operation \<open>keeps\<close> the preorder if its
  effect on the store stays in it, and the combinators of the model carry this over to composed
  operations. \<open>attempt_client\<close> adds the transactions on a set of attempts: whatever an executor
  answers to a batch about these attempts stays in the preorder.
\<close>

section \<open>Bookkeeping that leaves the records alone\<close>

lemma discard_store [simp]: "ct_store (discard i s) = ct_store s"
  by (simp add: discard_def split: option.split)

lemma fold_same: "(\<And>x s. g (f x s) = g s) \<Longrightarrow> g (fold f xs s) = g s"
  by (induction xs arbitrary: s) simp_all

lemma discard_where_store [simp]: "ct_store (discard_where P s) = ct_store s"
  unfolding discard_where_def by (rule fold_same) simp

lemma bookkeeping_store [simp]:
  "ct_store (discard_job i s) = ct_store s" "ct_store (discard_node i s) = ct_store s" "ct_store (new_prefetch a job index offset s) = ct_store s"
  "ct_store (note_progress i p s) = ct_store s" "ct_store (lock_node i s) = ct_store s" "ct_store (unlock_node i s) = ct_store s"
  "ct_store (note_error i code s) = ct_store s" "ct_store (node_failed i e s) = ct_store s" "ct_store (note_failed b s) = ct_store s"
  by (simp_all add: discard_job_def discard_node_def new_prefetch_def note_progress_def Let_def lock_node_def unlock_node_def note_error_def
      node_failed_def note_failed_def)

lemma renote_progress_store [simp]: "ct_store (renote_progress i p s) = ct_store s"
  by (simp add: renote_progress_def split: option.split)

section \<open>Preorders on stores\<close>

lemma each_slice_Cons: "each_slice f k (xs # xss) = ctl_bind (f k xs) (\<lambda>_. each_slice f (Suc k) xss)"
  by (rule ext) simp

text \<open>What other tasks do meanwhile, restricted by a relation on the stored records.\<close>

definition tame :: "(work_store \<Rightarrow> work_store \<Rightarrow> bool) \<Rightarrow> ('p controller \<Rightarrow> 'p controller) \<Rightarrow> bool" where
  "tame R f \<longleftrightarrow> (\<forall>s. R (ct_store s) (ct_store (f s)))"

locale store_preorder =
  fixes R :: "work_store \<Rightarrow> work_store \<Rightarrow> bool"
  assumes R_refl: "R s s"
    and R_trans: "R s t \<Longrightarrow> R t u \<Longrightarrow> R s u"
    and R_audit: "R s (s\<lparr>ws_audit := au\<rparr>)"
begin

definition cmd_keeps :: "'a cmd_op \<Rightarrow> bool" where
  "cmd_keeps f \<longleftrightarrow> (\<forall>c. R (cm_store c) (cm_store (fst (f c))))"

definition keeps :: "('p, 'a) ctl_op \<Rightarrow> bool" where
  "keeps f \<longleftrightarrow> (\<forall>s. R (ct_store s) (ct_store (fst (f s))))"

lemma keepsD: "keeps f \<Longrightarrow> f s = (t, r) \<Longrightarrow> R (ct_store s) (ct_store t)"
  unfolding keeps_def by (metis fst_conv)

lemma keepsI: "(\<And>s t r. f s = (t, r) \<Longrightarrow> R (ct_store s) (ct_store t)) \<Longrightarrow> keeps f"
  unfolding keeps_def by (metis prod.collapse)

lemma cmd_keepsD: "cmd_keeps f \<Longrightarrow> f c = (d, r) \<Longrightarrow> R (cm_store c) (cm_store d)"
  unfolding cmd_keeps_def by (metis fst_conv)

lemma cmd_keepsI: "(\<And>c d r. f c = (d, r) \<Longrightarrow> R (cm_store c) (cm_store d)) \<Longrightarrow> cmd_keeps f"
  unfolding cmd_keeps_def by (metis prod.collapse)

subsection \<open>Commands\<close>

lemma keeps_on_store: "(\<And>s t v. f s = Inr (t, v) \<Longrightarrow> R s t) \<Longrightarrow> cmd_keeps (on_store f)"
  by (rule cmd_keepsI) (auto simp: on_store_def R_refl split: sum.splits)

lemma keeps_andthen_cmd: "cmd_keeps f \<Longrightarrow> (\<And>v. cmd_keeps (g v)) \<Longrightarrow> cmd_keeps (andthen_cmd f g)"
  by (rule cmd_keepsI) (auto simp: andthen_cmd_def split: prod.splits sum.splits dest: cmd_keepsD intro: R_trans)

lemma keeps_give: "cmd_keeps (\<lambda>c. (c, r))"
  by (rule cmd_keepsI) (simp add: R_refl)

subsection \<open>The controller\<close>

lemma keeps_bind: "keeps f \<Longrightarrow> (\<And>v. keeps (g v)) \<Longrightarrow> keeps (ctl_bind f g)"
proof (rule keepsI)
  fix s t r
  assume f: "keeps f" and g: "\<And>v. keeps (g v)" and run: "ctl_bind f g s = (t, r)"
  obtain s1 v where v: "f s = (s1, v)" by fastforce
  have "R (ct_store s) (ct_store s1)" by (rule keepsD [OF f v])
  moreover have "s1 = t \<or> R (ct_store s1) (ct_store t)"
    using run by (cases v) (auto simp: ctl_bind_def v dest: keepsD [OF g])
  ultimately show "R (ct_store s) (ct_store t)" by (auto intro: R_trans)
qed

lemma keeps_lift: "keeps (ctl_lift f)"
  by (rule keepsI) (auto simp: ctl_lift_def R_refl)

lemma keeps_on_runner: "keeps (on_runner f)"
  by (rule keepsI) (auto simp: on_runner_def R_refl)

lemma keeps_commands: "cmd_keeps f \<Longrightarrow> keeps (with_commands f)"
  by (rule keepsI) (auto simp: with_commands_def split: prod.splits dest: cmd_keepsD)

lemma keeps_store: "(\<And>s t v. f s = Inr (t, v) \<Longrightarrow> R s t) \<Longrightarrow> keeps (with_store f)"
proof -
  assume "\<And>s t v. f s = Inr (t, v) \<Longrightarrow> R s t"
  then have "keeps (with_commands (on_store f))" by (intro keeps_commands keeps_on_store)
  then show ?thesis by (simp add: keeps_def with_commands_def with_store_def)
qed

lemma keeps_if: "keeps f \<Longrightarrow> keeps g \<Longrightarrow> keeps (if b then f else g)"
  by simp

lemma keeps_same: "(\<And>s. ct_store (fst (f s)) = ct_store s) \<Longrightarrow> keeps f"
  by (simp add: keeps_def R_refl)

lemma keeps_work_authority: "keeps (work_authority rg job i)"
  by (rule keeps_same) (simp add: work_authority_def split: prod.split)

lemmas keeps_basic = keeps_bind keeps_lift keeps_on_runner keeps_if keeps_work_authority

lemma keeps_runner_authority: "keeps (runner_authority cfg rg starting a)"
  unfolding runner_authority_def by (intro keeps_basic)

lemma keeps_no_check: "keeps (no_check k)"
  by (rule keeps_same) (simp add: no_check_def)

lemma keeps_others: "tame R (aw_others aw) \<Longrightarrow> keeps (\<lambda>s. (aw_others aw s, r))"
  by (simp add: keeps_def tame_def)

lemma keeps_channel_request: "tame R (aw_others aw) \<Longrightarrow> (\<And>k. keeps (chk k)) \<Longrightarrow> keeps (channel_request aw chk m)"
  unfolding channel_request_def by (intro keeps_bind keeps_lift keeps_others)

lemma keeps_channel_call: "tame R (aw_others aw) \<Longrightarrow> (\<And>k. keeps (chk k)) \<Longrightarrow> keeps (channel_call aw chk m)"
  unfolding channel_call_def by (intro keeps_bind keeps_lift keeps_channel_request)

lemma keeps_fetch_snapshot: "tame R (aw_others aw) \<Longrightarrow> keeps (fetch_snapshot aw rg i after)"
  unfolding fetch_snapshot_def by (intro keeps_bind keeps_channel_call keeps_no_check keeps_same) simp_all

lemma keeps_each_slice: "(\<And>k xs. keeps (f k xs)) \<Longrightarrow> keeps (each_slice f k xss)"
proof (induction xss arbitrary: k)
  case (Cons xs xss)
  show ?case unfolding each_slice_Cons by (intro keeps_bind Cons)
qed (simp add: keeps_def R_refl)

end

section \<open>Transactions on some attempts\<close>

text \<open>The attempts that the rows of a reply are applied to.\<close>

fun row_target :: "reply_row \<Rightarrow> string set" where
  "row_target (Result g a) = {f_attempt_id a}"
| "row_target (Refused g e) = {f_attempt_id g}"
| "row_target _ = {}"

lemma batch_rows_bound: "batch_rows fs r = Inr rows \<Longrightarrow> list_all2 row_bound fs rows"
proof -
  assume "batch_rows fs r = Inr rows"
  then obtain x where "(case x of BatchReply h rs \<Rightarrow> if length rs \<noteq> length fs then Inl (Failure ''executor_response'' 502)
      else if \<not> list_all2 row_bound fs rs then Inl (Failure ''executor_response'' 502) else Inr rs
    | _ \<Rightarrow> Inl (Failure ''executor_response'' 502)) = Inr rows" by (auto simp: batch_rows_def bindr_Inr)
  then show ?thesis by (cases x) (auto split: if_splits)
qed

lemma bound_targets: "list_all2 row_bound (map fence_of_attempt attempts) rows \<Longrightarrow> row \<in> set rows \<Longrightarrow> row_target row \<subseteq> wa_id ` set attempts"
proof (induction attempts arbitrary: rows)
  case (Cons a attempts)
  then obtain x xs where rows: "rows = x # xs" "row_bound (fence_of_attempt a) x" "list_all2 row_bound (map fence_of_attempt attempts) xs"
    by (auto simp: list_all2_Cons1)
  have "row_target x \<subseteq> {wa_id a}" using rows(2) by (cases x) (auto simp: row_bound_def fence_of_attempt_def result_fence_def)
  then show ?case using Cons.IH [OF rows(3)] Cons.prems(2) rows(1) by auto
qed simp

locale attempt_client = store_preorder +
  fixes A :: "string set"
  assumes R_observe: "observe_attempt clk r node inst s = Inr (t, a) \<Longrightarrow> valid_attempt_result r \<Longrightarrow> f_attempt_id r \<in> A \<Longrightarrow> R s t"
    and R_transition: "transition_attempt clk i expected state reason s = Inr (t, a) \<Longrightarrow> i \<in> A \<Longrightarrow> R s t"
begin

lemma record_result_within:
  assumes "f_attempt_id r \<in> A"
  shows "cmd_keeps (record_result clk r n)"
proof (rule cmd_keepsI)
  fix c d v
  assume "record_result clk r n c = (d, v)"
  then show "R (cm_store c) (cm_store d)"
    using R_observe assms by (auto simp: record_result_def on_store_def R_refl split: if_splits sum.splits)
qed

lemma plain_within: "f_attempt_id r \<in> A \<Longrightarrow> cmd_keeps (record_result clk (plain_result r st) n)"
  by (rule record_result_within) (simp add: plain_result_def)

lemma retained_within:
  assumes "f_attempt_id r \<in> A"
  shows "cmd_keeps (retained_outcome clk stored r n)"
  by (rule cmd_keepsI)
    (auto simp: retained_outcome_def R_refl split: if_splits option.splits
      elim: cmd_keepsD [OF keeps_andthen_cmd [OF plain_within [OF assms] keeps_give]])

lemma keeps_note_observed: "cmd_keeps (note_observed m r v)"
  by (rule cmd_keepsI) (auto simp: note_observed_def Let_def R_refl)

lemma observation_within:
  assumes "f_attempt_id r \<in> A"
  shows "cmd_keeps (cmd_observation clk m r n)"
  by (rule cmd_keepsI)
    (auto simp: cmd_observation_def R_refl split: sum.splits
      elim!: cmd_keepsD [OF keeps_andthen_cmd [OF retained_within [OF assms] keeps_andthen_cmd [OF plain_within [OF assms] keeps_note_observed]]])

lemma uncertain_within:
  assumes "i \<in> A"
  shows "cmd_keeps (uncertain clk i reason)"
proof (rule cmd_keepsI)
  fix c d v
  assume r: "uncertain clk i reason c = (d, v)"
  have "cmd_keeps (andthen_cmd (on_store (transition_attempt clk i st Unknown (Some reason))) (\<lambda>_ t. (t, Inr ())))" for st
    by (intro keeps_andthen_cmd keeps_on_store keeps_give R_transition [OF _ assms])
  from cmd_keepsD [OF this] r show "R (cm_store c) (cm_store d)"
    by (fastforce simp: uncertain_def Let_def R_refl split: sum.splits if_splits)
qed

lemma uncertain_all_within: "set is \<subseteq> A \<Longrightarrow> cmd_keeps (uncertain_all clk is reason)"
proof (induction "is" arbitrary: clk)
  case (Cons i "is")
  have "uncertain_all clk (i # is) reason = andthen_cmd (uncertain clk i reason) (\<lambda>_. uncertain_all (\<lambda>k. clk (2 + k)) is reason)"
    by (rule ext) simp
  moreover have "i \<in> A" "set is \<subseteq> A" using Cons.prems by simp_all
  ultimately show ?case by (simp only:) (intro keeps_andthen_cmd uncertain_within Cons.IH)
qed (rule cmd_keepsI, simp add: R_refl)

lemma rows_within: "(\<And>row. row \<in> set rows \<Longrightarrow> row_target row \<subseteq> A) \<Longrightarrow> cmd_keeps (apply_rows clk m n rows)"
proof (induction rows arbitrary: clk)
  case (Cons row rows)
  note IH = Cons.IH [OF Cons.prems [OF list.set_intros(2)]]
  have target: "row_target row \<subseteq> A" by (rule Cons.prems) simp
  show ?case
  proof (cases row)
    case (Result g a)
    have "apply_rows clk m n (Result g a # rows) = andthen_cmd (cmd_observation clk m a n) (\<lambda>v.
        andthen_cmd (apply_rows (\<lambda>k. clk (4 + k)) m n rows) (\<lambda>vs t. (t, Inr (v # vs))))" by (rule ext) simp
    moreover have "f_attempt_id a \<in> A" using target Result by simp
    ultimately show ?thesis by (simp only: Result) (intro keeps_andthen_cmd observation_within IH keeps_give)
  next
    case (Refused g e)
    have "apply_rows clk m n (Refused g e # rows) = andthen_cmd (uncertain clk (f_attempt_id g) (err_code e)) (\<lambda>_. apply_rows (\<lambda>k. clk (4 + k)) m n rows)"
      by (rule ext) simp
    moreover have "f_attempt_id g \<in> A" using target Refused by simp
    ultimately show ?thesis by (simp only: Refused) (intro keeps_andthen_cmd uncertain_within IH)
  qed (use IH in \<open>simp_all add: cmd_keeps_def\<close>)
qed (simp add: cmd_keeps_def R_refl)

lemma batch_within:
  assumes "wa_id ` set attempts \<subseteq> A"
  shows "cmd_keeps (batch_commands clk m n attempts r)"
proof (rule cmd_keepsI)
  fix c d v
  assume r: "batch_commands clk m n attempts r c = (d, v)"
  obtain e w where e: "(case batch_rows (map fence_of_attempt attempts) r of Inl x \<Rightarrow> (c, Inl x) | Inr rows \<Rightarrow> apply_rows clk m n rows c) = (e, w)"
    by fastforce
  have rows: "cmd_keeps (apply_rows clk m n rows)" if "batch_rows (map fence_of_attempt attempts) r = Inr rows" for rows
  proof (rule rows_within)
    fix row
    assume "row \<in> set rows"
    with bound_targets [OF batch_rows_bound [OF that]] assms show "row_target row \<subseteq> A" by blast
  qed
  from e have 1: "R (cm_store c) (cm_store e)" by (auto simp: R_refl split: sum.splits dest: cmd_keepsD [OF rows])
  have all: "cmd_keeps (uncertain_all clk (map wa_id attempts) reason)" for clk reason by (rule uncertain_all_within) (use assms in simp)
  have "R (cm_store e) (cm_store d) \<or> d = c"
    using r by (auto simp: batch_commands_def e R_refl split: if_splits sum.splits prod.splits dest: cmd_keepsD [OF all])
  with 1 show "R (cm_store c) (cm_store d)" by (auto intro: R_trans R_refl)
qed

lemma send_within:
  assumes "tame R (aw_others aw)" and "\<And>k. keeps (chk k)" and "wa_id ` set attempts \<subseteq> A"
  shows "keeps (send_batch aw chk rg n m attempts)"
  by (rule keepsI)
    (auto simp: send_batch_def R_refl split: if_splits option.splits prod.splits
      dest!: keepsD [OF keeps_channel_request, OF assms(1,2)] keepsD [OF keeps_commands [OF batch_within [OF assms(3)]]] intro: R_trans)

end

end
