(* ===== verification/Work_Loop_Props.thy ===== *)
theory Work_Loop_Props
  imports Work_Client
begin

text \<open>
  What the polling loop does to the stored records. The locale \<open>records_client\<close> is the interface
  between the runner and the records: a preorder on stores (\<open>attempt_client\<close> on all attempts) that
  contains the transactions which the runner uses. Inside it, every operation of the loop is shown to stay in the preorder, whatever
  the executors answer and whatever other tasks do between two awaits, as long as they stay in it
  as well. It is interpreted twice: by the steps of the records, which makes the loop an
  implementation of them, and by the owner's decisions, which the loop keeps.
\<close>

section \<open>The loops as operations\<close>

lemma classify_Cons: "classify cfg rg n (a # as) l = ctl_bind (advance_one cfg (rg 0) n a l) (classify cfg (\<lambda>k. rg (Suc k)) n as)"
  by (rule ext) simp

lemma authorities_Cons:
  "authorities cfg rg starting (a # as) = ctl_bind (runner_authority cfg (rg 0) starting a) (\<lambda>_. authorities cfg (\<lambda>k. rg (Suc k)) starting as)"
  by (rule ext) simp

lemma renew_all_Cons:
  "renew_all rg n (a # as) =
     ctl_bind (with_store (renew_attempt (rg_clk (rg 0)) (wa_id a) (rg_now (rg 0) + of_int (sn_maximum_lease_seconds n) - 1 / 2))) (\<lambda>v.
     ctl_bind (renew_all (\<lambda>k. rg (Suc k)) n as) (\<lambda>vs. ctl_lift (\<lambda>_. Inr (v # vs))))"
  by (rule ext) simp

lemma start_all_Cons:
  "start_all rg (a # as) = ctl_bind (with_store (transition_attempt (rg_clk (rg 0)) (wa_id a) Prepared Starting None)) (\<lambda>v.
     ctl_bind (start_all (\<lambda>k. rg (Suc k)) as) (\<lambda>vs. ctl_lift (\<lambda>_. Inr (v # vs))))"
  by (rule ext) simp

lemma schedule_chosen_Cons:
  "schedule_chosen cfg rg (i # is) groups = ctl_bind (schedule_one cfg (rg 0) i groups) (schedule_chosen cfg (\<lambda>k. rg (Suc k)) is)"
  by (rule ext) simp

lemma give_up_Cons:
  "give_up cfg rg (a # as) =
     ctl_bind (ctl_lift (lease_lost cfg (rg 0) a)) (\<lambda>lost.
     ctl_bind (if lost then with_commands (uncertain (rg_clk (rg 0)) (wa_id a) ''executor_unavailable'') else ctl_lift (\<lambda>_. Inr ())) (\<lambda>_.
     give_up cfg (\<lambda>k. rg (Suc k)) as))"
  by (rule ext) simp

lemma schedule_loop_cases:
  assumes "schedule_loop cfg sel rg pending examined groups s = (t, r)"
  obtains (stop) "t = s" "r = Inr groups"
  | (asked) v where "ask_scheduler sel pending s = (t, v)" and "r = Inr groups \<or> (\<exists>e. r = Inl e)"
  | (failed) s1 selection e where "examined < 64" and "ask_scheduler sel pending s = (s1, Inr selection)"
      and "schedule_chosen cfg rg (take (64 - examined) selection) groups s1 = (t, Inl e)" and "r = Inl e"
  | (again) s1 selection chosen s2 g where "examined < 64" and "ask_scheduler sel pending s = (s1, Inr selection)"
      and "chosen = take (64 - examined) selection" and "chosen \<noteq> []" and "schedule_chosen cfg rg chosen groups s1 = (s2, Inr g)"
      and "schedule_loop cfg sel (\<lambda>k. rg (length chosen + k)) (filter (\<lambda>j. rec_id j \<notin> set chosen) pending) (examined + length chosen) g s2 = (t, r)"
      and "length (filter (\<lambda>j. rec_id j \<notin> set chosen) pending) < length pending"
proof (cases "pending = [] \<or> \<not> examined < 64")
  case True
  then show ?thesis using assms stop by (subst (asm) schedule_loop.simps) auto
next
  case False
  obtain s1 v where ask: "ask_scheduler sel pending s = (s1, v)" by fastforce
  show ?thesis
  proof (cases v)
    case (Inl e)
    then show ?thesis using assms False ask asked by (subst (asm) schedule_loop.simps) auto
  next
    case (Inr selection)
    define chosen where "chosen = take (64 - examined) selection"
    obtain s2 w where ch: "schedule_chosen cfg rg chosen groups s1 = (s2, w)" by fastforce
    have run: "(if chosen = [] then (s1, Inr groups) else case (s2, w) of (s2, Inl e) \<Rightarrow> (s2, Inl e)
        | (s2, Inr g) \<Rightarrow> schedule_loop cfg sel (\<lambda>k. rg (length chosen + k)) (filter (\<lambda>j. rec_id j \<notin> set chosen) pending) (examined + length chosen) g s2) = (t, r)"
      using assms False ch unfolding chosen_def by (subst (asm) schedule_loop.simps) (simp add: ask Inr Let_def cong: if_cong)
    show ?thesis
    proof (cases "chosen = []")
      case True
      then show ?thesis using run ask asked by auto
    next
      case nonempty: False
      have "length (filter (\<lambda>j. rec_id j \<notin> set chosen) pending) < length pending"
        using chosen_shrinks [OF ask [unfolded Inr]] nonempty chosen_def by simp
      then show ?thesis using run nonempty False Inr ask ch failed again [OF _ ask [unfolded Inr] chosen_def nonempty] chosen_def by (cases w) auto
    qed
  qed
qed

section \<open>The interface to the records\<close>

definition tame_node :: "(work_store \<Rightarrow> work_store \<Rightarrow> bool) \<Rightarrow> 'p node_world \<Rightarrow> bool" where
  "tame_node R w \<longleftrightarrow> tame R (nw_queued w) \<and> tame R (aw_others (nw_snapshot w)) \<and> (\<forall>k m. tame R (aw_others (nw_pages w k m))) \<and>
     (\<forall>k. tame R (aw_others (nw_reject w k)) \<and> tame R (aw_others (nw_observe w k))) \<and> (\<forall>b k. tame R (aw_others (nw_advance w b k))) \<and>
     (\<forall>k m. tame R (aw_others (nw_inputs w k m)))"

definition tame_poll :: "(work_store \<Rightarrow> work_store \<Rightarrow> bool) \<Rightarrow> 'p poll_world \<Rightarrow> bool" where
  "tame_poll R w \<longleftrightarrow> (\<forall>i. tame_node R (pl_nodes w i) \<and> tame R (pl_waited w i) \<and> tame R (pl_queued w i) \<and> tame R (aw_others (pl_dispatch w i)))"

locale records_client = attempt_client R UNIV for R +
  assumes R_reserve: "reserve_attempt clk p lease inst capacity ledger version s = Inr (t, a) \<Longrightarrow> R s t"
    and R_renew: "renew_attempt clk i expires s = Inr (t, l) \<Longrightarrow> R s t"
    and R_cancel: "cancel_job clk i revision s = Inr (t, v) \<Longrightarrow> R s t"
    and R_pending: "mark_pending clk i reason s = Inr (t, v) \<Longrightarrow> R s t"
    and R_node: "save_node clk n s = Inr (t, b) \<Longrightarrow> R s t"
begin

lemmas keeps_cmd_observation = observation_within [OF UNIV_I]

lemmas keeps_uncertain = uncertain_within [OF UNIV_I]

lemmas keeps_uncertain_all = uncertain_all_within [OF subset_UNIV]

lemmas keeps_send_batch = send_within [OF _ _ subset_UNIV]

subsection \<open>Reconciliation\<close>

lemma keeps_reconcile_row: "tame R (aw_others aw) \<Longrightarrow> keeps (reconcile_row aw rg n r)"
proof (rule keepsI)
  fix s t v
  assume aw: "tame R (aw_others aw)" and r: "reconcile_row aw rg n r s = (t, v)"
  have "keeps (ctl_bind (channel_call aw no_check m) (\<lambda>_. ctl_lift (\<lambda>_. Inr ())))" for m
    by (intro keeps_bind keeps_channel_call keeps_no_check aw keeps_lift)
  moreover have "keeps (ctl_bind (with_commands (cmd_observation (rg_clk rg) (rg_mono rg) r n)) (\<lambda>_. ctl_lift (\<lambda>_. Inr ())))"
    by (intro keeps_bind keeps_commands keeps_cmd_observation keeps_lift)
  ultimately show "R (ct_store s) (ct_store t)"
    using r by (auto simp: reconcile_row_def R_refl split: sum.splits if_splits dest: keepsD)
qed

lemma keeps_reconcile_rows: "(\<And>k. tame R (aw_others (aw k))) \<Longrightarrow> keeps (reconcile_rows aw rg n rs cursor missing)"
proof (induction rs arbitrary: aw rg cursor missing)
  case (Cons r rs)
  have "keeps (ctl_bind (reconcile_row (aw 0) (rg 0) n r) (\<lambda>_. reconcile_rows (\<lambda>k. aw (Suc k)) (\<lambda>k. rg (Suc k)) n rs c m))" for c m
    by (intro keeps_bind keeps_reconcile_row Cons)
  from keepsD [OF this] show ?case by (intro keepsI) (auto simp: R_refl split: if_splits)
qed (simp add: keeps_def R_refl)

lemma keeps_reconcile_page: "(\<And>k. tame R (aw_others (aw k))) \<Longrightarrow> keeps (reconcile_page aw rg n pg cursor missing)"
  by (rule keepsI) (auto simp: reconcile_page_def R_refl split: if_splits dest!: keepsD [OF keeps_reconcile_rows, rotated])

lemma keeps_reconcile_pages:
  assumes "reconcile_pages aw rg i n k pg cursor missing s = Some (t, r)" and "\<And>k m. tame R (aw_others (aw k m))"
  shows "R (ct_store s) (ct_store t)"
  using assms
proof (induction aw rg i n k pg cursor missing s "(t, r)" arbitrary: t r rule: reconcile_pages.raw_induct [rotated, consumes 1, case_names page])
  case (page f aw rg i n k pg cursor missing s)
  note rows = keepsD [OF keeps_reconcile_page [of "\<lambda>m. aw k (Suc m)", OF page(3)]]
  note snap = keepsD [OF keeps_fetch_snapshot [of "aw k 0", OF page(3)]]
  note rest = page(1) [OF _ page(3)]
  from page(2) show ?case
    by (auto split: prod.splits sum.splits option.splits if_splits dest!: rows snap rest intro: R_trans)
qed

lemma keeps_reconcile:
  assumes "reconcile cfg aw rg now i n s = Some (t, r)" and "\<And>k m. tame R (aw_others (aw k m))"
  shows "R (ct_store s) (ct_store t)"
proof -
  have rest: "keeps (ctl_bind (with_commands (uncertain_all clk missing reason)) (\<lambda>_. note_reconciled i b))" for clk missing reason b
    unfolding note_reconciled_def by (intro keeps_bind keeps_commands keeps_uncertain_all keeps_on_runner)
  show ?thesis
    using assms by (auto simp: reconcile_def Let_def R_refl split: sum.splits if_splits option.splits
        dest!: keeps_reconcile_pages keepsD [OF rest] intro: R_trans)
qed

lemma keeps_reject_absent: "(\<And>k. tame R (aw_others (aw k))) \<Longrightarrow> keeps (runner_reject_absent aw rg n attempts)"
  unfolding runner_reject_absent_def by (intro keeps_each_slice keeps_send_batch keeps_no_check)

subsection \<open>Renewal, start and stop\<close>

lemma keeps_may_continue: "keeps (may_continue cfg rg a)"
  unfolding may_continue_def by (intro keeps_bind keeps_runner_authority keeps_lift)

lemma keeps_advance_one: "keeps (advance_one cfg rg n a l)"
  by (rule keepsI)
    (auto simp: advance_one_def Let_def R_refl split: if_splits prod.splits sum.splits dest: keepsD [OF keeps_may_continue])

lemma keeps_classify: "keeps (classify cfg rg n as l)"
proof (induction as arbitrary: rg l)
  case (Cons a as)
  show ?case unfolding classify_Cons by (intro keeps_bind keeps_advance_one Cons)
qed (simp add: keeps_def R_refl)

lemma keeps_authorities: "keeps (authorities cfg rg starting as)"
proof (induction as arbitrary: rg)
  case (Cons a as)
  show ?case unfolding authorities_Cons by (intro keeps_bind keeps_runner_authority Cons)
qed (simp add: keeps_def R_refl)

lemma keeps_attempt_checks: "keeps (attempt_checks cfg rg starting as k)"
  by (simp add: keeps_def attempt_checks_def keepsD [OF keeps_authorities, OF prod.collapse [symmetric]])

lemma keeps_renew_all: "keeps (renew_all rg n as)"
proof (induction as arbitrary: rg)
  case (Cons a as)
  show ?case unfolding renew_all_Cons by (intro keeps_bind keeps_store keeps_lift Cons R_renew)
qed (simp add: keeps_def R_refl)

lemma keeps_start_all: "keeps (start_all rg as)"
proof (induction as arbitrary: rg)
  case (Cons a as)
  show ?case unfolding start_all_Cons by (intro keeps_bind keeps_store keeps_lift Cons R_transition [OF _ UNIV_I])
qed (simp add: keeps_def R_refl)

lemma keeps_advance:
  assumes "\<And>b k. tame R (aw_others (aw b k))"
  shows "keeps (advance cfg aw rg rgs i n)"
proof -
  have "keeps (ctl_bind (classify cfg rg n as l0) (\<lambda>l.
     ctl_bind (each_slice (\<lambda>k. stop_slice (aw Stopping k) (rgs Stopping k) n) 0 (slices (al_stop l))) (\<lambda>_.
     ctl_bind (each_slice (\<lambda>k. renew_slice cfg (aw Renewing k) (rgs Renewing k) n) 0 (slices (al_renew l))) (\<lambda>_.
     each_slice (\<lambda>k. start_slice cfg (aw Starting_up k) (rgs Starting_up k) n) 0 (slices (al_start l))))))" for as l0
    unfolding stop_slice_def renew_slice_def start_slice_def
    by (intro keeps_bind keeps_classify keeps_each_slice keeps_send_batch keeps_no_check keeps_attempt_checks keeps_authorities keeps_renew_all keeps_start_all assms)
  from keepsD [OF this] show ?thesis by (intro keepsI) (simp add: advance_def)
qed

subsection \<open>Placement and dispatch\<close>

lemma keeps_placement: "keeps (placement cfg rg job i)"
  unfolding placement_def Let_def by (intro keeps_bind keeps_lift keeps_work_authority keeps_store R_reserve)

lemma keeps_try_nodes: "keeps (try_nodes cfg rg job groups is reason)"
proof (induction "is" arbitrary: rg reason)
  case (Cons i "is")
  show ?case
    by (rule keepsI)
      (auto split: if_splits prod.splits sum.splits exn.splits dest!: keepsD [OF keeps_placement] keepsD [OF Cons] intro: R_trans)
qed (simp add: keeps_def R_refl)

lemma keeps_schedule_one: "keeps (schedule_one cfg rg i groups)"
  unfolding schedule_one_def
proof (intro keeps_bind keeps_lift keeps_try_nodes)
  fix r :: "string + string \<times> wattempt"
  have "keeps (ctl_bind (with_store (mark_pending (rg_clk (rg 0)) i (Some reason))) (\<lambda>_. ctl_bind (defer_job (rg 0) i) (\<lambda>_. ctl_lift (\<lambda>_. Inr groups))))" for reason
    unfolding defer_job_def by (intro keeps_bind keeps_store keeps_on_runner keeps_lift R_pending)
  then show "keeps (case r of Inr (node, a) \<Rightarrow> ctl_lift (\<lambda>_. Inr (groups @ [(node, [a])]))
      | Inl reason \<Rightarrow> ctl_bind (with_store (mark_pending (rg_clk (rg 0)) i (Some reason))) (\<lambda>_. ctl_bind (defer_job (rg 0) i) (\<lambda>_. ctl_lift (\<lambda>_. Inr groups))))"
    by (auto simp: keeps_lift split: sum.split)
qed

lemma keeps_schedule_chosen: "keeps (schedule_chosen cfg rg is groups)"
proof (induction "is" arbitrary: rg groups)
  case (Cons i "is")
  show ?case unfolding schedule_chosen_Cons by (intro keeps_bind keeps_schedule_one Cons)
qed (simp add: keeps_def R_refl)

lemma keeps_ask: "keeps (ask_scheduler sel jobs)"
  by (rule keeps_same) (simp add: ask_scheduler_def split: option.split prod.split)

lemma keeps_schedule_loop: "keeps (schedule_loop cfg sel rg pending examined groups)"
proof (rule keepsI)
  fix s t r
  assume "schedule_loop cfg sel rg pending examined groups s = (t, r)"
  then show "R (ct_store s) (ct_store t)"
  proof (induction pending arbitrary: rg examined groups s rule: length_induct)
    case (1 pending)
    from 1(2) show ?case
    proof (cases rule: schedule_loop_cases)
      case (again s1 selection chosen s2 g)
      from 1(1) again(6,7) have "R (ct_store s2) (ct_store t)" by blast
      then show ?thesis using keepsD [OF keeps_ask again(2)] keepsD [OF keeps_schedule_chosen again(5)] by (blast intro: R_trans)
    qed (auto simp: R_refl dest!: keepsD [OF keeps_ask] keepsD [OF keeps_schedule_chosen] intro: R_trans)
  qed
qed

lemma keeps_schedule_groups: "keeps (schedule_groups cfg sel now rg)"
  by (rule keepsI) (auto simp: schedule_groups_def Let_def R_refl split: if_splits dest!: keepsD [OF keeps_schedule_loop])

lemma keeps_dispatch:
  assumes "tame R waited" and "tame R queued" and "tame R (aw_others aw)"
  shows "keeps (runner_dispatch cfg waited queued aw rg i attempts)"
proof -
  have d: "keeps (dispatch_locked cfg aw rg i attempts)"
    by (rule keepsI) (auto simp: dispatch_locked_def R_refl split: option.splits prod.splits sum.splits if_splits
        dest!: keepsD [OF keeps_send_batch [OF assms(3) keeps_attempt_checks]])
  show ?thesis
  proof (rule keepsI)
    fix s t r
    assume "runner_dispatch cfg waited queued aw rg i attempts s = (t, r)"
    then have "R (ct_store (queued (lock_node i (waited s)))) (ct_store t)"
      by (auto simp: runner_dispatch_def split: prod.splits dest!: keepsD [OF d])
    moreover have "R (ct_store (waited s)) (ct_store (queued (lock_node i (waited s))))" "R (ct_store s) (ct_store (waited s))"
      using assms(1,2) by (simp_all add: tame_def) (metis bookkeeping_store(5))
    ultimately show "R (ct_store s) (ct_store t)" by (blast intro: R_trans)
  qed
qed

subsection \<open>Inputs\<close>

lemma keeps_inputs_current: "keeps (inputs_current cfg rg a job)"
  unfolding inputs_current_def by (intro keeps_bind keeps_lift keeps_runner_authority)

lemma keeps_input_check: "keeps (input_check cfg rg a job k)"
  unfolding input_check_def by (intro keeps_bind keeps_inputs_current keeps_lift)

lemma keeps_prune_works: "keeps (prune_works cfg rg ws)"
proof (induction ws arbitrary: rg)
  case (Cons w ws)
  show ?case
    by (rule keepsI)
      (auto split: prod.splits sum.splits if_splits dest!: keepsD [OF keeps_inputs_current] keepsD [OF Cons] intro: R_trans)
qed (simp add: keeps_def R_refl)

lemma keeps_prune: "keeps (prune_prefetches cfg rg)"
  by (rule keepsI) (auto simp: prune_prefetches_def dest: keepsD [OF keeps_prune_works])

lemma keeps_write_chunk:
  assumes "tame R (aw_others aw)"
  shows "keeps (write_chunk cfg aw rg a job x offset task)"
proof (cases task)
  case (Task_returned data)
  have "keeps (ctl_bind (inputs_current cfg (rg 0) a job) (\<lambda>_.
      ctl_bind (channel_call aw (input_check cfg rg a job) (write_message (rg 0) a x offset data)) (\<lambda>r.
      ctl_bind (ctl_lift (\<lambda>_. bindr (progress r a [x]) (\<lambda>vs. Inr (hd vs)))) (\<lambda>v.
      ctl_lift (\<lambda>_. bindr (ensure (iv_offset v = offset + int (length data)) (Failure ''executor_response'' 502)) (\<lambda>_. Inr v))))))"
    by (intro keeps_bind keeps_lift keeps_inputs_current keeps_channel_call keeps_input_check assms)
  then show ?thesis by (simp add: keeps_def write_chunk_def Task_returned)
qed (simp_all add: keeps_def write_chunk_def R_refl)

lemma keeps_transfer_chunk:
  assumes "tame R (aw_others aw)"
  shows "keeps (transfer_chunk cfg aw rg a job rows index offset)"
proof (rule keepsI)
  fix s t r
  assume run: "transfer_chunk cfg aw rg a job rows index offset s = (t, r)"
  let ?x = "job_inputs (sub_job (rec_request job)) ! index"
  let ?s = "case map_of (ct_prefetches s) (wa_id a) of Some w \<Rightarrow> if other_read w a ?x offset then discard (wa_id a) s else s | None \<Rightarrow> s"
  have s: "ct_store ?s = ct_store s" by (simp split: option.split)
  from run have "R (ct_store ?s) (ct_store t)"
    by (auto simp: transfer_chunk_def Let_def R_refl split: option.splits if_splits prod.splits sum.splits
        dest!: keepsD [OF keeps_write_chunk [OF assms]])
  then show "R (ct_store s) (ct_store t)" unfolding s .
qed

lemma keeps_transfer:
  assumes "\<And>k. tame R (aw_others (aw k))"
  shows "keeps (transfer cfg aw rg a job)"
proof -
  have "keeps (\<lambda>s. let s1 = note_progress (wa_id a) p s in case v of None \<Rightarrow> (discard (wa_id a) s1, Inr False)
      | Some (index, w) \<Rightarrow> transfer_chunk cfg (aw 1) (\<lambda>k. rg (3 + k)) a job rows index (iv_offset w) s1)" for p v rows
    by (rule keepsI) (auto simp: Let_def R_refl split: option.splits dest!: keepsD [OF keeps_transfer_chunk [OF assms]])
  then show ?thesis unfolding transfer_def Let_def
    by (intro keeps_bind keeps_inputs_current keeps_if keeps_lift keeps_channel_call keeps_input_check assms) simp
qed

lemma R_input_failed: "cancel_failed_input clk i code s = Inr (t, u) \<Longrightarrow> R s t"
  by (auto simp: cancel_failed_input_def bindr_Inr audit_input_def R_refl split: if_splits dest!: R_cancel intro: R_trans [OF _ R_audit])

lemma keeps_input_failed: "keeps (with_store (cancel_failed_input clk i code))"
  by (intro keeps_store R_input_failed)

lemma keeps_advance_inputs: "(\<And>k m. tame R (aw_others (aw k m))) \<Longrightarrow> keeps (advance_inputs cfg aw rg as)"
proof (induction as arbitrary: aw rg)
  case (Cons a as)
  let ?rest = "advance_inputs cfg (\<lambda>k. aw (Suc k)) (\<lambda>k. rg (Suc k)) as"
  have rest: "keeps ?rest" by (rule Cons.IH) (rule Cons.prems)
  note tr = keepsD [OF keeps_transfer [of "aw 0", OF Cons(2)]]
  have failed: "keeps (ctl_bind (with_store (cancel_failed_input clk i code)) (\<lambda>_. ?rest))" for clk i code
    by (intro keeps_bind keeps_input_failed rest)
  show ?case
    by (rule keepsI)
      (auto simp: Let_def R_refl split: if_splits sum.splits prod.splits bool.splits exn.splits dest!: tr keepsD [OF rest] keepsD [OF failed]
        intro: R_trans)
qed (simp add: keeps_def R_refl)

lemma keeps_inputs_advance: "(\<And>k m. tame R (aw_others (aw k m))) \<Longrightarrow> keeps (inputs_advance cfg aw rg i attempts)"
  by (rule keepsI) (auto simp: inputs_advance_def Let_def R_refl split: if_splits dest!: keepsD [OF keeps_advance_inputs, rotated])

subsection \<open>The loop\<close>

lemma keeps_node_reconciled:
  assumes "tame_node R w"
  shows "keeps (node_reconciled cfg w i n)"
proof -
  have "keeps (\<lambda>s. inputs_advance cfg (nw_inputs w) (nw_inputs_rg w) i (list_attempts (ct_store s) (Some i)) s)"
    using keeps_inputs_advance [of "nw_inputs w"] assms by (simp add: keeps_def tame_node_def)
  then show ?thesis
    unfolding node_reconciled_def note_live_def observe_slices_def note_transferring_def clear_error_def using assms
    by (intro keeps_bind keeps_on_runner keeps_lift keeps_reject_absent keeps_each_slice keeps_send_batch keeps_no_check keeps_advance)
      (simp_all add: tame_node_def)
qed

lemma keeps_node_body:
  assumes "tame_node R w" and "node_body cfg w i s = Some (t, r)"
  shows "R (ct_store s) (ct_store t)"
proof -
  have w: "tame R (aw_others (nw_snapshot w))" "\<And>k m. tame R (aw_others (nw_pages w k m))" using assms(1) by (simp_all add: tame_node_def)
  have save: "keeps (with_store (save_node clk n))" for clk n by (intro keeps_store R_node)
  show ?thesis
    using assms(2) w(2) by (auto simp: node_body_def split: prod.splits sum.splits option.splits dest!: keepsD [OF keeps_fetch_snapshot [OF w(1)]]
        keepsD [OF save] keepsD [OF keeps_node_reconciled [OF assms(1)]] keeps_reconcile intro: R_trans)
qed

lemma keeps_runner_node:
  assumes "tame_node R w" and "runner_node cfg w i s = Some (t, r)"
  shows "R (ct_store s) (ct_store t)"
proof -
  have queued: "R (ct_store s) (ct_store (nw_queued w (lock_node i s)))" using assms(1) unfolding tame_node_def tame_def by (metis bookkeeping_store(5))
  have "R (ct_store s) (ct_store t)" if "node_body cfg w i (nw_queued w (lock_node i s)) = Some (t, r)" for t r
    using keeps_node_body [OF assms(1) that] queued by (blast intro: R_trans)
  then show ?thesis
    using assms(2) by (auto simp: runner_node_def R_refl split: if_splits option.splits sum.splits)
qed

lemma keeps_runner_nodes:
  assumes "\<And>i. tame_node R (w i)"
  shows "runner_nodes cfg w is s = Some (t, r) \<Longrightarrow> R (ct_store s) (ct_store t)"
proof (induction "is" arbitrary: s r)
  case (Cons i "is")
  then obtain s1 v q where "runner_node cfg (w i) i s = Some (s1, v)" "runner_nodes cfg w is s1 = Some (t, q)"
    by (auto split: option.splits)
  from R_trans [OF keeps_runner_node [OF assms this(1)] Cons.IH [OF this(2)]] show ?case .
qed (simp add: R_refl)

lemma keeps_give_up: "keeps (give_up cfg rg as)"
proof (induction as arbitrary: rg)
  case (Cons a as)
  show ?case unfolding give_up_Cons by (intro keeps_bind keeps_lift keeps_if keeps_commands keeps_uncertain Cons)
qed (simp add: keeps_def R_refl)

lemma keeps_dispatch_groups:
  assumes "tame_poll R w"
  shows "keeps (dispatch_groups cfg w gs)"
proof (induction gs)
  case (Cons g gs)
  obtain i attempts where g: "g = (i, attempts)" by fastforce
  have "keeps (runner_dispatch cfg (pl_waited w i) (pl_queued w i) (pl_dispatch w i) (pl_dispatch_rg w i) i attempts)"
    using assms by (intro keeps_dispatch) (simp_all add: tame_poll_def)
  note one = keepsD [OF this]
  show ?case by (rule keepsI) (auto simp: g split: prod.splits dest!: one keepsD [OF Cons] intro: R_trans)
qed (simp add: keeps_def R_refl)

lemma keeps_schedule: "tame_poll R w \<Longrightarrow> keeps (schedule cfg sel w)"
  unfolding schedule_def by (intro keeps_bind keeps_schedule_groups keeps_dispatch_groups)

lemma poll_turn_keeps:
  assumes "tame_poll R w" and "poll_turn cfg sel w s = Some (t, r)"
  shows "R (ct_store s) (ct_store t)"
proof -
  have nodes: "\<And>i. tame_node R (pl_nodes w i)" using assms(1) by (simp add: tame_poll_def)
  have rest: "keeps (ctl_bind (give_up cfg rg as) (\<lambda>_. schedule cfg sel w))" for rg as
    by (intro keeps_bind keeps_give_up keeps_schedule assms(1))
  have "R (ct_store s) (ct_store t)" if "poll_body cfg sel w s = Some (t, r)" for t r
    using that by (auto simp: poll_body_def split: prod.splits sum.splits option.splits dest!: keepsD [OF keeps_prune]
        keeps_runner_nodes [OF nodes] keepsD [OF rest] intro: R_trans)
  then show ?thesis
    using assms(2) by (auto simp: poll_turn_def R_refl split: if_splits option.splits sum.splits)
qed

end

section \<open>The loop implements the records\<close>

lemma audit_step: "work_step s (s\<lparr>ws_audit := au\<rparr>)"
  using work_other [where s = s and n = "ws_policy_revision s" and gs = "ws_ssh_gpus s" and cs = "ws_contributors s" and au = au] by simp

interpretation steps: records_client "work_step\<^sup>*\<^sup>*"
  by unfold_locales (auto intro: work_step.intros audit_step)

section \<open>The loop keeps the decisions of the owner\<close>

text \<open>A later version of a job: the same submission under the same delegation, still cancelled if it was, and not queued again.\<close>

definition job_kept :: "job_record \<Rightarrow> job_record \<Rightarrow> bool" where
  "job_kept j k \<longleftrightarrow> same_job j k \<and> rec_delegation k = rec_delegation j \<and> rec_actor k = rec_actor j \<and> (rec_cancelled j \<longrightarrow> rec_cancelled k) \<and>
     (rec_state j \<noteq> Queued \<longrightarrow> rec_state k \<noteq> Queued) \<and> rec_revision j \<le> rec_revision k"

definition decisions_kept :: "work_store \<Rightarrow> work_store \<Rightarrow> bool" where
  "decisions_kept s t \<longleftrightarrow> (\<forall>i. rel_option job_kept (job_at s i) (job_at t i))"

definition owner_kept :: "work_store \<Rightarrow> work_store \<Rightarrow> bool" where
  "owner_kept s t \<longleftrightarrow> (work_inv s \<longrightarrow> work_inv t \<and> decisions_kept s t)"

lemma job_kept_refl: "job_kept j j"
  by (simp add: job_kept_def same_job_def)

lemma job_kept_trans: "job_kept j k \<Longrightarrow> job_kept k l \<Longrightarrow> job_kept j l"
  by (auto simp: job_kept_def same_job_def)

lemma kept_same: "job_at t = job_at s \<Longrightarrow> decisions_kept s t"
  by (simp add: decisions_kept_def job_kept_refl option.rel_refl)

lemma kept_put: "job_at s (rec_id v) = Some j \<Longrightarrow> job_kept j v \<Longrightarrow> decisions_kept s (put_job v s)"
  by (auto simp: decisions_kept_def put_job_at job_kept_refl option.rel_refl)

lemma kept_trans:
  assumes "decisions_kept s t" and "decisions_kept t u"
  shows "decisions_kept s u"
  unfolding decisions_kept_def
proof
  fix i
  have "rel_option job_kept (job_at s i) (job_at t i)" "rel_option job_kept (job_at t i) (job_at u i)"
    using assms by (simp_all add: decisions_kept_def)
  then show "rel_option job_kept (job_at s i) (job_at u i)"
    by (cases "job_at s i"; cases "job_at t i"; cases "job_at u i") (auto intro: job_kept_trans)
qed

lemma kept_save:
  assumes "save_job now v s = Inr (t, w)" and "job_at s (rec_id v) = Some j" and "job_kept j v"
  shows "decisions_kept s t"
proof -
  note d = save_jobD [OF assms(1)]
  have "job_kept j w" using assms(3) d(3) by (simp add: job_kept_def same_job_def)
  then show ?thesis unfolding d(1) using assms(2) d(3) by (intro kept_put) simp_all
qed

lemma kept_attempt: "save_attempt now v s = Inr (t, w) \<Longrightarrow> job_at t = job_at s"
  by (drule save_attemptD(1)) simp

lemma kept_jobs: "ws_jobs t = ws_jobs s \<Longrightarrow> job_at t = job_at s"
  by (simp add: job_at_def fun_eq_iff)

lemma kept_reserve:
  assumes inv: "work_inv s" and "reserve_attempt clk p lease inst capacity ledger version s = Inr (t, a)"
  shows "decisions_kept s t"
proof -
  obtain job s1 s2 w where job: "job_at s (plan_job_id p) = Some job" and ins: "insert_wattempt a (rec_id job) s = Inr s1"
    and sv: "save_job (clk 2) (job\<lparr>rec_current_attempt := Some (wa_id a), rec_generation := plan_generation p,
         rec_state := Preparing, rec_reason := None\<rparr>) s1 = Inr (s2, w)"
    and t: "t = audit ''workload.admit'' w a ''preparing'' s2"
    using assms(2) by (auto simp: reserve_attempt_def bindr_Inr get_Inr Let_def split: if_splits)
  have s1: "job_at s1 = job_at s" using ins by (intro kept_jobs) (auto simp: insert_wattempt_def split: if_splits)
  have "decisions_kept s1 s2"
    by (rule kept_save [OF sv, of job]) (use job job_at_ok [OF inv job] s1 in \<open>simp_all add: job_kept_def same_job_def\<close>)
  then show ?thesis using t by (simp add: decisions_kept_def s1)
qed

lemma kept_observe:
  assumes inv: "work_inv s" and "observe_attempt clk r node inst s = Inr (t, c)" and "valid_attempt_result r"
  shows "decisions_kept s t"
  using assms(2)
proof (cases rule: observe_cases)
  case (2 a job b s1 j s2)
  have "decisions_kept s s1"
  proof (cases "s1 = s")
    case False
    then have sv: "save_job (clk 0) (job\<lparr>rec_state := res_state r, rec_reason := res_reason r\<rparr>) s = Inr (s1, j)"
      using 2(6) by (auto simp: observe_job_def split: if_splits)
    show ?thesis
      by (rule kept_save [OF sv, of job]) (use 2(3) job_at_ok [OF inv 2(3)] assms(3) in \<open>simp_all add: job_kept_def same_job_def valid_attempt_result_def\<close>)
  qed (simp add: kept_same)
  then show ?thesis using kept_jobs [OF 2(8)] kept_attempt [OF 2(7)] by (simp add: decisions_kept_def)
qed (simp add: kept_same)

lemma kept_transition:
  assumes inv: "work_inv s" and "transition_attempt clk i expected state reason s = Inr (t, b)"
  shows "decisions_kept s t"
  using assms(2)
proof (cases rule: transition_cases)
  case (1 a job s1 s2 j)
  note s1 = kept_attempt [OF 1(6)]
  have "state \<noteq> Queued" using 1(4) by (auto simp: transition_allowed_def)
  then have "decisions_kept s1 s2"
    by (intro kept_save [OF 1(7), of job]) (use 1(2) job_at_ok [OF inv 1(2)] s1 in \<open>simp_all add: job_kept_def same_job_def\<close>)
  then show ?thesis using 1(8) by (simp add: decisions_kept_def s1)
qed

lemma kept_renew: "renew_attempt clk i expires s = Inr (t, l) \<Longrightarrow> decisions_kept s t"
  by (elim renew_attempt_cases) (auto dest: kept_attempt intro: kept_same)

lemma kept_cancel:
  assumes inv: "work_inv s" and "cancel_job clk i revision s = Inr (t, w)"
  shows "decisions_kept s t"
proof -
  obtain job where job: "job_at s i = Some job"
    and sv: "save_job (clk 0) (if rec_state job = Queued
         then job\<lparr>rec_cancelled := True, rec_state := Cancelled, rec_reason := Some ''cancelled_before_dispatch''\<rparr>
         else job\<lparr>rec_cancelled := True\<rparr>) s = Inr (t, w)"
    using assms(2) by (auto simp: cancel_job_def bindr_Inr get_Inr split: if_splits)
  show ?thesis
    by (rule kept_save [OF sv, of job]) (use job job_at_ok [OF inv job] in \<open>simp_all add: job_kept_def same_job_def\<close>)
qed

lemma kept_pending:
  assumes inv: "work_inv s" and "mark_pending clk i reason s = Inr (t, w)"
  shows "decisions_kept s t"
proof -
  obtain job where job: "job_at s i = Some job"
    and o: "t = s \<or> save_job (clk 0) (job\<lparr>rec_reason := reason\<rparr>) s = Inr (t, w)"
    using assms(2) by (auto simp: mark_pending_def bindr_Inr get_Inr split: if_splits)
  from o show ?thesis
  proof
    assume sv: "save_job (clk 0) (job\<lparr>rec_reason := reason\<rparr>) s = Inr (t, w)"
    show ?thesis
      by (rule kept_save [OF sv, of job]) (use job job_at_ok [OF inv job] in \<open>simp_all add: job_kept_def same_job_def\<close>)
  qed (simp add: kept_same)
qed

lemma kept_node: "save_node clk n s = Inr (t, b) \<Longrightarrow> decisions_kept s t"
  by (rule kept_same, rule kept_jobs) (auto simp: save_node_def bindr_Inr Let_def split: option.splits if_splits)

interpretation owner: records_client owner_kept
proof unfold_locales
  show "owner_kept s u" if "owner_kept s t" "owner_kept t u" for s t u
    using that by (auto simp: owner_kept_def intro: kept_trans)
  show "owner_kept s (s\<lparr>ws_audit := au\<rparr>)" for s au
    using work_inv_cong [of s "s\<lparr>ws_audit := au\<rparr>"] kept_same [OF kept_jobs, of "s\<lparr>ws_audit := au\<rparr>" s] by (simp add: owner_kept_def)
qed (auto simp: owner_kept_def intro: kept_same reserve_attempt_inv kept_reserve observe_inv kept_observe transition_inv kept_transition
    renew_attempt_inv kept_renew cancel_inv kept_cancel mark_pending_inv kept_pending save_node_inv kept_node)

section \<open>The loop returns\<close>

text \<open>Replies pass the validation of the channel.\<close>

definition valid_replies :: "'p await \<Rightarrow> bool" where
  "valid_replies aw \<longleftrightarrow> (\<forall>m r. aw_reply aw m = Inr r \<longrightarrow> valid_reply r)"

lemma finite_Identity: "finite {i. Identity i \<and> P i}"
proof (rule finite_subset)
  show "{i. Identity i \<and> P i} \<subseteq> {xs. set xs \<subseteq> UNIV \<and> length xs = 32}" by (auto simp: Identity_def)
qed (rule finite_lists_length_eq, simp)

lemma reconcile_rows_cursor:
  "reconcile_rows aw rg n rs cursor missing s = (t, Inr (c, m)) \<Longrightarrow> cursor \<le> c \<and> (rs \<noteq> [] \<longrightarrow> cursor < c \<and> c \<in> f_attempt_id ` set rs)"
proof (induction rs arbitrary: aw rg cursor missing s)
  case (Cons r rs)
  from Cons.prems obtain s1 where less: "cursor < f_attempt_id r"
    and rest: "reconcile_rows (\<lambda>k. aw (Suc k)) (\<lambda>k. rg (Suc k)) n rs (f_attempt_id r) (removeAll (f_attempt_id r) missing) s1 = (t, Inr (c, m))"
    by (auto simp: ctl_bind_def not_le split: if_splits prod.splits sum.splits)
  from Cons.IH [OF rest] have "f_attempt_id r \<le> c" "c = f_attempt_id r \<or> c \<in> f_attempt_id ` set rs"
    using rest by (cases rs; auto)+
  then show ?case using less by auto
qed simp

lemma fetch_snapshot_valid:
  assumes "valid_replies aw" and "fetch_snapshot aw rg i after s = (t, Inr n)"
  shows "valid_snapshot n"
proof -
  from assms(2) obtain h m where r: "aw_reply aw m = Inr (SnapshotReply h n)"
    by (auto simp: fetch_snapshot_def ctl_bind_def channel_call_def channel_request_def ctl_lift_def snapshot_reply_def call_reply_def bindr_Inr
        split: if_splits sum.splits prod.splits reply.splits)
  then show ?thesis using assms(1) by (fastforce simp: valid_replies_def)
qed

lemma page_cursor:
  assumes "reconcile_page aw rg n pg cursor missing s = (t, Inr (c, m))" and "sn_attempts pg \<noteq> []"
  shows "cursor < c" "c \<in> f_attempt_id ` set (sn_attempts pg)"
  using assms reconcile_rows_cursor by (force simp: reconcile_page_def split: if_splits)+

lemma cursor_decreases: "Identity c \<Longrightarrow> cursor < c \<Longrightarrow> card {i. Identity i \<and> c < i} < card {i. Identity i \<and> cursor < i}"
  by (rule psubset_card_mono [OF finite_Identity]) auto

lemma pages_return:
  assumes "\<And>k. valid_replies (aw k 0)" and "valid_snapshot pg"
  shows "\<exists>y. reconcile_pages aw rg i n k pg cursor missing s = Some y"
  using assms(2)
proof (induction "card {j. Identity j \<and> cursor < j}" arbitrary: k pg cursor missing s rule: less_induct)
  case less
  obtain s1 v where p: "reconcile_page (\<lambda>m. aw k (Suc m)) (\<lambda>m. rg k (Suc m)) n pg cursor missing s = (s1, v)" by fastforce
  show ?case
  proof (cases "\<exists>c m x. v = Inr (c, m) \<and> sn_next pg = Some x \<and> sn_attempts pg \<noteq> [] \<and> x = c")
    case True
    then obtain c m where v: "v = Inr (c, m)" and x: "sn_next pg = Some c" and ne: "sn_attempts pg \<noteq> []" by auto
    obtain s2 w where q: "fetch_snapshot (aw k 0) (rg k 0) i (Some c) s1 = (s2, w)" by fastforce
    note pc = page_cursor [OF p [unfolded v] ne]
    have "Identity c" using pc(2) less.prems by (auto simp: valid_snapshot_def list_all_iff valid_public_attempt_def valid_attempt_result_def valid_fence_def)
    note smaller = less.hyps [OF cursor_decreases [OF this pc(1)]]
    show ?thesis
    proof (cases w)
      case (Inr pg1)
      with smaller [OF fetch_snapshot_valid [OF assms(1) q [unfolded Inr]], of "Suc k" m s2] x ne show ?thesis
        by (subst reconcile_pages.simps) (simp add: p v q)
    qed (use x ne in \<open>subst reconcile_pages.simps, simp add: p v q\<close>)
  qed (subst reconcile_pages.simps, auto simp: p split: sum.splits option.splits)
qed

definition valid_poll :: "'p poll_world \<Rightarrow> bool" where
  "valid_poll w \<longleftrightarrow> (\<forall>i. valid_replies (nw_snapshot (pl_nodes w i)) \<and> (\<forall>k. valid_replies (nw_pages (pl_nodes w i) k 0)))"

lemma node_returns:
  assumes "valid_replies (nw_snapshot w)" and "\<And>k. valid_replies (nw_pages w k 0)"
  shows "\<exists>y. runner_node cfg w i s = Some y"
proof -
  have "\<exists>y. reconcile cfg (nw_pages w) rg now i n s = Some y" if n: "valid_snapshot n" for rg now n s
  proof -
    obtain y where "reconcile_pages (nw_pages w) rg i n 0 n [] (map wa_id (open_attempts i s)) s = Some y"
      using pages_return [of "nw_pages w", OF assms(2) n] by blast
    then show ?thesis by (cases y) (auto simp: reconcile_def Let_def split: sum.split)
  qed
  then have reconciled: "reconcile cfg (nw_pages w) rg now i n s \<noteq> None" if "valid_snapshot n" for rg now n s using that by fastforce
  have "node_body cfg w i s \<noteq> None" for s
  proof -
    obtain s1 v where v: "fetch_snapshot (nw_snapshot w) (nw_rg w 0) i None s = (s1, v)" by fastforce
    show ?thesis
    proof (cases v)
      case (Inr n)
      with fetch_snapshot_valid [OF assms(1)] v have "valid_snapshot n" by blast
      then have "reconcile cfg (nw_pages w) (nw_pages_rg w) (nw_rg w 2) i n u \<noteq> None" for u by (rule reconciled)
      then show ?thesis by (auto simp: node_body_def v Inr simp del: not_None_eq split: prod.split sum.split option.split)
    qed (simp add: node_body_def v)
  qed
  then obtain y where "node_body cfg w i (nw_queued w (lock_node i s)) = Some y" by blast
  then show ?thesis by (cases y) (auto simp: runner_node_def split: sum.split)
qed

lemma poll_returns:
  assumes "valid_poll w"
  shows "\<exists>y. poll_turn cfg sel w s = Some y"
proof -
  have "\<exists>y. runner_nodes cfg (pl_nodes w) is s = Some y" for "is" s
  proof (induction "is" arbitrary: s)
    case (Cons i "is")
    obtain t r where "runner_node cfg (pl_nodes w i) i s = Some (t, r)"
      using node_returns [of "pl_nodes w i" cfg i s] assms by (auto simp: valid_poll_def)
    moreover obtain u q where "runner_nodes cfg (pl_nodes w) is t = Some (u, q)" using Cons [of t] by fastforce
    ultimately show ?case by simp
  qed simp
  then have "\<exists>y. poll_body cfg sel w s = Some y" for s
    by (auto simp: poll_body_def split: prod.split sum.split option.split) (metis option.distinct(1))
  then obtain y where "poll_body cfg sel w s = Some y" by blast
  then show ?thesis by (cases y) (auto simp: poll_turn_def split: sum.split)
qed

section \<open>Properties\<close>


text \<open>
  The polling loop keeps the decisions of the owner. If other tasks neither add nor remove jobs
  nor undo a cancellation, a turn of the loop on reachable records creates and deletes no job,
  keeps every submission and its delegation, never takes back a cancellation and never queues a job
  again that has left the queue.
\<close>

theorem poll_keeps_decisions:
  assumes "tame_poll owner_kept w" and "work_reach (ct_store s)" and "poll_turn cfg sel w s = Some (t, r)"
  shows "decisions_kept (ct_store s) (ct_store t)"
  using owner.poll_turn_keeps [OF assms(1,3)] work.reach_inv [OF assms(2)] by (simp add: owner_kept_def)

text \<open>
  C23: a turn of the polling loop returns. The pages of a reconciliation have strictly growing attempt
  identities and a scheduling round always removes a job, so that no executor whose replies pass
  validation and no scheduler package can keep the loop in a turn.
\<close>

theorem poll_turn_returns:
  assumes "valid_poll w"
  shows "\<exists>t r. poll_turn cfg sel w s = Some (t, r)"
  using poll_returns [OF assms] by fastforce

definition ex_await :: "scheduler await" where
  "ex_await = \<lparr>aw_admit = Inr (), aw_reply = (\<lambda>_. Inl OSError), aw_others = id\<rparr>"

definition ex_node_world :: "readings \<Rightarrow> scheduler node_world" where
  "ex_node_world rg = \<lparr>nw_queued = id, nw_rg = (\<lambda>_. rg), nw_snapshot = ex_await, nw_pages = (\<lambda>_ _. ex_await), nw_pages_rg = (\<lambda>_ _. rg),
     nw_reject = (\<lambda>_. ex_await), nw_reject_rg = (\<lambda>_. rg), nw_observe = (\<lambda>_. ex_await), nw_observe_rg = (\<lambda>_. rg),
     nw_advance = (\<lambda>_ _. ex_await), nw_advance_rg = (\<lambda>_ _ _. rg), nw_inputs = (\<lambda>_ _. ex_await), nw_inputs_rg = (\<lambda>_ _. rg)\<rparr>"

definition ex_poll_world :: "readings \<Rightarrow> scheduler poll_world" where
  "ex_poll_world rg = \<lparr>pl_prune_rg = (\<lambda>_. rg), pl_nodes = (\<lambda>_. ex_node_world rg), pl_lost_rg = (\<lambda>_. rg), pl_now = 0,
     pl_schedule_rg = (\<lambda>_ _. rg), pl_waited = (\<lambda>_. id), pl_queued = (\<lambda>_. id), pl_dispatch = (\<lambda>_. ex_await), pl_dispatch_rg = (\<lambda>_ _. rg)\<rparr>"

definition ex_controller :: "policies \<Rightarrow> contributors \<Rightarrow> directory \<Rightarrow> scheduler controller" where
  "ex_controller po con d = \<lparr>ct_commands = \<lparr>cm_store = ex_store2, cm_observed = []\<rparr>, ct_runner = new_runner, ct_policies = po,
     ct_contributors = con, ct_directory = d, ct_scheduler = Some ex_sched, ct_prefetches = [], ct_inputs_closed = False, ct_readers = 0\<rparr>"

lemma ex_tame: "(\<And>s. R s s) \<Longrightarrow> tame_poll R (ex_poll_world rg)"
  by (simp add: tame_poll_def tame_node_def tame_def ex_poll_world_def ex_node_world_def ex_await_def)

lemma ex_valid_poll: "valid_poll (ex_poll_world rg)"
  by (simp add: valid_poll_def valid_replies_def ex_poll_world_def ex_node_world_def ex_await_def)


theorem poll_keeps_decisions_witness:
  "\<forall>cfg rg po con d. \<exists>t r. poll_turn cfg fair_select (ex_poll_world rg) (ex_controller po con d) = Some (t, r) \<and>
     decisions_kept ex_store2 (ct_store t)"
proof (intro allI)
  fix cfg rg po con d
  obtain t r where run: "poll_turn cfg fair_select (ex_poll_world rg) (ex_controller po con d) = Some (t, r)"
    using poll_returns [OF ex_valid_poll] by fastforce
  have "work_reach (ct_store (ex_controller po con d))" by (simp add: ex_controller_def ex_store2_reach)
  from poll_keeps_decisions [OF ex_tame this run] run owner.R_refl
  show "\<exists>t r. poll_turn cfg fair_select (ex_poll_world rg) (ex_controller po con d) = Some (t, r) \<and> decisions_kept ex_store2 (ct_store t)"
    by (auto simp: ex_controller_def)
qed

theorem poll_turn_returns_witness:
  "\<forall>cfg rg po con d. \<exists>t r. poll_turn cfg fair_select (ex_poll_world rg) (ex_controller po con d) = Some (t, r)"
  using poll_turn_returns [OF ex_valid_poll] by blast

end
