(* ===== verification/Work_Runner_Props.thy ===== *)
theory Work_Runner_Props
  imports Work_Loop_Props
begin

text \<open>
  What the runner renews, starts, stops and places: an attempt goes on only with current authority
  at a reconciled executor whose current offer admits it, and a queued job is placed at most once,
  on a contributor that every authority agrees with.
\<close>

section \<open>Current authority of an attempt\<close>

text \<open>Everything the runner asks for, at the state \<open>s\<close> of the controller and some state of the policy service.\<close>

definition authorised :: "contributor_settings \<Rightarrow> readings \<Rightarrow> bool \<Rightarrow> wattempt \<Rightarrow> 'p controller \<Rightarrow> bool" where
  "authorised cfg rg starting a s \<longleftrightarrow> \<not> suspended s \<and>
     (\<exists>job n po po' revision. job_at (ct_store s) (wa_job_id a) = Some job \<and>
       authority_check (rg_world rg) (rg_safety rg) job (wa_node_id a) True (ct_directory s) (co_db (ct_contributors s)) po = (po', Inr revision) \<and>
       available cfg rg (wa_node_id a) s = Inr True \<and> live_snapshot (wa_node_id a) s = Some n \<and> executor_admits rg starting a job n = Inr ())"

definition only_policies :: "'p controller \<Rightarrow> 'p controller \<Rightarrow> bool" where
  "only_policies s t \<longleftrightarrow> t = s\<lparr>ct_policies := ct_policies t\<rparr>"

lemma only_policies_refl [simp]: "only_policies s s"
  by (simp add: only_policies_def)

lemma only_policies_set [simp]: "only_policies s (s\<lparr>ct_policies := po\<rparr>)"
  by (simp add: only_policies_def)

lemma only_policies_trans: "only_policies s t \<Longrightarrow> only_policies t u \<Longrightarrow> only_policies s u"
  unfolding only_policies_def by (metis controller.update_convs(3) controller.surjective controller.select_convs)

lemma only_policies_parts:
  assumes "only_policies s t"
  shows "ct_commands t = ct_commands s" "ct_runner t = ct_runner s" "ct_contributors t = ct_contributors s" "ct_directory t = ct_directory s"
    "ct_scheduler t = ct_scheduler s" "ct_prefetches t = ct_prefetches s" "ct_inputs_closed t = ct_inputs_closed s" "ct_readers t = ct_readers s"
proof -
  obtain po where t: "t = s\<lparr>ct_policies := po\<rparr>" using assms by (auto simp: only_policies_def)
  show "ct_commands t = ct_commands s" "ct_runner t = ct_runner s" "ct_contributors t = ct_contributors s" "ct_directory t = ct_directory s"
    "ct_scheduler t = ct_scheduler s" "ct_prefetches t = ct_prefetches s" "ct_inputs_closed t = ct_inputs_closed s" "ct_readers t = ct_readers s" by (simp_all add: t)
qed

lemma available_policies: "available cfg rg i (s\<lparr>ct_policies := po\<rparr>) = available cfg rg i s"
  by (simp add: available_def split: option.split sum.split)

lemma authorised_cong: "only_policies s t \<Longrightarrow> authorised cfg rg starting a t = authorised cfg rg starting a s"
  unfolding only_policies_def by (erule ssubst) (simp add: authorised_def suspended_def available_policies live_snapshot_def)

lemma is_ready_cong: "only_policies s t \<Longrightarrow> is_ready i t = is_ready i s"
  by (simp add: is_ready_def only_policies_parts)

lemma ctl_bindE:
  assumes "ctl_bind f g s = (t, r)"
  obtains (raised) e where "f s = (t, Inl e)" "r = Inl e" | (went) u v where "f s = (u, Inr v)" "g v u = (t, r)"
  using assms by (auto simp: ctl_bind_def split: prod.splits sum.splits)

lemma runner_authority_result:
  assumes "runner_authority cfg rg starting a s = (t, r)"
  shows "only_policies s t" "r = Inr () \<Longrightarrow> authorised cfg rg starting a s"
proof -
  obtain po v where chk: "\<And>job. get_job (ct_store s) (wa_job_id a) = Inr job \<Longrightarrow>
      authority_check (rg_world rg) (rg_safety rg) job (wa_node_id a) True (ct_directory s) (co_db (ct_contributors s)) (ct_policies s) = (po, v)"
    by (cases "get_job (ct_store s) (wa_job_id a)") (auto, metis surj_pair)
  show "only_policies s t"
    using assms by (auto simp: runner_authority_def ctl_bind_def ctl_lift_def work_authority_def split: sum.splits prod.splits)
  assume r: "r = Inr ()"
  from assms r obtain job n revision where "\<not> suspended s" "get_job (ct_store s) (wa_job_id a) = Inr job" "v = Inr revision"
    "require_available cfg rg (wa_node_id a) (s\<lparr>ct_policies := po\<rparr>) = Inr n" "executor_admits rg starting a job n = Inr ()"
    by (auto simp: runner_authority_def ctl_bind_def ctl_lift_def work_authority_def chk split: sum.splits prod.splits)
  moreover from this(4) have "available cfg rg (wa_node_id a) s = Inr True" "live_snapshot (wa_node_id a) s = Some n"
    by (auto simp: require_available_def bindr_Inr available_policies live_snapshot_def split: option.splits if_splits)
  ultimately show "authorised cfg rg starting a s" using chk unfolding authorised_def by (metis get_job_Inr)
qed

lemma may_continue_result:
  assumes "may_continue cfg rg a s = (t, r)"
  shows "only_policies s t" "r = Inr () \<Longrightarrow> authorised cfg rg (wa_state a = Prepared) a s \<and> rg_clk rg 0 < ren_expires_at (wa_lease a)"
  using assms unfolding may_continue_def
  by (auto elim!: ctl_bindE dest: runner_authority_result simp: ctl_lift_def)

section \<open>The lists of a turn\<close>

definition continues :: "contributor_settings \<Rightarrow> wattempt \<Rightarrow> 'p controller \<Rightarrow> bool" where
  "continues cfg a s \<longleftrightarrow> (\<exists>rg. authorised cfg rg (wa_state a = Prepared) a s \<and> rg_clk rg 0 < ren_expires_at (wa_lease a))"

definition live_state :: "wstate \<Rightarrow> bool" where
  "live_state st \<longleftrightarrow> st \<notin> terminal \<union> {Released, Abandoned, Unknown}"

text \<open>The lists after some attempts were looked at.\<close>

definition lists_ok :: "contributor_settings \<Rightarrow> 'p controller \<Rightarrow> wattempt set \<Rightarrow> advance_lists \<Rightarrow> bool" where
  "lists_ok cfg s A l \<longleftrightarrow>
     set (al_stop l) \<subseteq> A \<and> set (al_renew l) \<union> set (al_start l) \<subseteq> {a \<in> A. live_state (wa_state a) \<and> continues cfg a s} \<and>
     set (al_start l) \<subseteq> {a. wa_state a = Prepared \<and> \<not> wa_start_requested a \<and> is_ready (wa_id a) s} \<and>
     set (al_stop l) \<inter> (set (al_renew l) \<union> set (al_start l)) = {} \<and>
     (\<forall>a\<in>A. live_state (wa_state a) \<longrightarrow> a \<in> set (al_stop l) \<or> continues cfg a s) \<and>
     (\<forall>a\<in>A. wa_state a = Unknown \<longrightarrow> a \<in> set (al_stop l) \<or> cleaned a)"

lemma advance_one_ok:
  assumes "advance_one cfg rg n a l s = (t, Inr m)" and "lists_ok cfg s A l" and "a \<notin> A"
  shows "only_policies s t" "lists_ok cfg s (insert a A) m"
proof -
  have fresh: "a \<notin> set (al_stop l) \<union> set (al_renew l) \<union> set (al_start l)" using assms(2,3) by (auto simp: lists_ok_def)
  show "only_policies s t"
    using assms(1) by (auto simp: advance_one_def Let_def split: if_splits prod.splits sum.splits dest: may_continue_result(1))
  consider (idle) "wa_state a \<in> terminal \<union> {Released, Abandoned}" "m = l"
    | (unknown) "wa_state a = Unknown" "m = (if cleaned a then l else l\<lparr>al_stop := al_stop l @ [a]\<rparr>)"
    | (stop) "live_state (wa_state a)" "m = l\<lparr>al_stop := al_stop l @ [a]\<rparr>"
    | (go) b c where "live_state (wa_state a)" "continues cfg a s"
        "m = l\<lparr>al_renew := al_renew l @ (if b then [a] else []), al_start := al_start l @ (if c then [a] else [])\<rparr>"
        "c \<longrightarrow> wa_state a = Prepared \<and> \<not> wa_start_requested a \<and> is_ready (wa_id a) s"
  proof -
    show thesis
    proof (cases "live_state (wa_state a)")
      case False
      then show thesis using assms(1) idle unknown by (auto simp: advance_one_def live_state_def terminal_def split: if_splits)
    next
      case True
      obtain s1 r where mc: "may_continue cfg rg a s = (s1, r)" by fastforce
      note res = may_continue_result [OF mc]
      have live: "wa_state a \<notin> terminal \<union> {Released, Abandoned}" "wa_state a \<noteq> Unknown" using True by (auto simp: live_state_def)
      show thesis
      proof (cases r)
        case (Inl e)
        then show thesis using assms(1) live mc stop [OF True] by (auto simp: advance_one_def split: if_splits)
      next
        case (Inr u)
        define b where "b \<longleftrightarrow> ren_expires_at (wa_lease a) - rg_clk rg 1 < of_int (sn_maximum_lease_seconds n) * (3 / 5)"
        define c where "c \<longleftrightarrow> wa_state a = Prepared \<and> \<not> wa_start_requested a \<and> is_ready (wa_id a) s"
        have m: "m = l\<lparr>al_renew := al_renew l @ (if b then [a] else []), al_start := al_start l @ (if c then [a] else [])\<rparr>"
          using assms(1) live mc Inr is_ready_cong [OF res(1)] unfolding b_def c_def by (auto simp: advance_one_def Let_def)
        have "continues cfg a s" using res(2) Inr by (auto simp: continues_def)
        from go [OF True this m] show thesis by (simp add: c_def)
      qed
    qed
  qed
  then show "lists_ok cfg s (insert a A) m"
    using assms(2) fresh by cases (auto simp: lists_ok_def live_state_def terminal_def)
qed

lemma lists_ok_cong: "only_policies s t \<Longrightarrow> lists_ok cfg t A l = lists_ok cfg s A l"
  by (simp add: lists_ok_def continues_def authorised_cong is_ready_cong)

lemma classify_ok:
  "classify cfg rg n as l s = (t, Inr m) \<Longrightarrow> lists_ok cfg s A l \<Longrightarrow> distinct as \<Longrightarrow> A \<inter> set as = {} \<Longrightarrow>
    only_policies s t \<and> lists_ok cfg s (A \<union> set as) m"
proof (induction as arbitrary: rg l s A)
  case (Cons a as)
  from Cons.prems(1) obtain s1 l1 where one: "advance_one cfg (rg 0) n a l s = (s1, Inr l1)"
    and rest: "classify cfg (\<lambda>k. rg (Suc k)) n as l1 s1 = (t, Inr m)"
    by (auto elim!: ctl_bindE)
  note o = advance_one_ok [OF one Cons.prems(2)]
  have "a \<notin> A" using Cons.prems(4) by auto
  then have o1: "only_policies s s1" "lists_ok cfg s1 (insert a A) l1" using o lists_ok_cong by blast+
  have "only_policies s1 t \<and> lists_ok cfg s1 (insert a A \<union> set as) m"
    by (rule Cons.IH [OF rest o1(2)]) (use Cons.prems in auto)
  then show ?case using o1(1) lists_ok_cong [OF o1(1)] by (auto intro: only_policies_trans)
qed simp

section \<open>No effect without authority\<close>

lemma authorities_result:
  assumes "authorities cfg rg starting as s = (t, r)"
  shows "only_policies s t \<and> (r = Inr () \<longrightarrow> (\<forall>a\<in>set as. \<exists>rg. authorised cfg rg starting a s))"
  using assms
proof (induction as arbitrary: rg s)
  case (Cons a as)
  from Cons.prems show ?case unfolding authorities_Cons
  proof (cases rule: ctl_bindE)
    case (raised e)
    then show ?thesis using runner_authority_result(1) by auto
  next
    case (went u v)
    note h = runner_authority_result [OF went(1)]
    from Cons.IH [OF went(2)] h show ?thesis by (auto simp: authorised_cong intro: only_policies_trans)
  qed
qed simp

lemma unauthorised_checks:
  assumes "a \<in> set attempts" and "\<And>rg. \<not> authorised cfg rg starting a s"
  shows "\<exists>u e. attempt_checks cfg rg starting attempts k s = (u, Inl e)"
proof -
  obtain u r where "attempt_checks cfg rg starting attempts k s = (u, r)" by fastforce
  moreover from this have "r \<noteq> Inr ()" unfolding attempt_checks_def using authorities_result assms by blast
  ultimately show ?thesis by (cases r) auto
qed

text \<open>A failed check keeps the command from the channel.\<close>

lemma request_refused:
  assumes "\<exists>u e. chk 0 s = (u, Inl e)"
  shows "channel_request aw chk m s = channel_request (aw\<lparr>aw_reply := f, aw_others := g\<rparr>) chk m s"
  using assms by (auto simp: channel_request_def ctl_bind_def ctl_lift_def split: sum.split)

section \<open>Scheduling\<close>

text \<open>What scheduling changes: the stored records, the policy service, the package and the deferred jobs.\<close>

definition same_surroundings :: "'p controller \<Rightarrow> 'p controller \<Rightarrow> bool" where
  "same_surroundings s t \<longleftrightarrow> ct_contributors t = ct_contributors s \<and> ct_directory t = ct_directory s \<and>
     rn_live (ct_runner t) = rn_live (ct_runner s) \<and> rn_reconciled (ct_runner t) = rn_reconciled (ct_runner s) \<and>
     rn_locked (ct_runner t) = rn_locked (ct_runner s)"

lemma same_surroundings_trans: "same_surroundings s t \<Longrightarrow> same_surroundings t u \<Longrightarrow> same_surroundings s u"
  by (simp add: same_surroundings_def)

lemma available_cong: "same_surroundings s t \<Longrightarrow> available cfg rg i t = available cfg rg i s"
  by (simp add: same_surroundings_def available_def split: option.split sum.split)

lemma live_snapshot_cong: "same_surroundings s t \<Longrightarrow> live_snapshot i t = live_snapshot i s"
  by (simp add: same_surroundings_def live_snapshot_def)

text \<open>A placed attempt: every authority agreed at the state \<open>s\<close>, and the records of \<open>w\<close> hold the reservation.\<close>

definition placed :: "contributor_settings \<Rightarrow> 'p controller \<Rightarrow> work_store \<Rightarrow> string \<Rightarrow> wattempt \<Rightarrow> bool" where
  "placed cfg s w i a \<longleftrightarrow> wa_node_id a = i \<and> i \<notin> set (rn_locked (ct_runner s)) \<and> attempt_at w (wa_id a) = Some a \<and> wa_state a = Preparing \<and>
     (\<exists>k. job_at w (wa_job_id a) = Some k \<and> rec_state k = Preparing \<and> rec_current_attempt k = Some (wa_id a)) \<and>
     (\<exists>rg job n po po' revision. rec_id job = wa_job_id a \<and> rec_state job = Queued \<and> i \<in> set (sub_node_ids (rec_request job)) \<and>
       available cfg rg i s = Inr True \<and> live_snapshot i s = Some n \<and>
       authority_check (rg_world rg) (rg_safety rg) job i True (ct_directory s) (co_db (ct_contributors s)) po = (po', Inr revision) \<and>
       placement_checks rg job n = Inr () \<and> wa_plan a = new_plan rg job i n revision \<and>
       wa_lease a = new_lease rg (wa_plan a) n \<and> wa_installation_id a = sn_installation_id n)"

lemma reserve_result:
  assumes inv: "work_inv w" and r: "reserve_attempt clk p lease inst capacity ledger version w = Inr (v, a)"
  obtains job k where "job_at w (plan_job_id p) = Some job" "rec_state job = Queued" "plan_node_id p \<in> set (sub_node_ids (rec_request job))"
    "rec_id job = plan_job_id p" "a = new_attempt p lease inst ledger version (plan_job_id p) (clk 1)"
    "attempt_at w (wa_id a) = None" "attempt_at v = (attempt_at w)(wa_id a \<mapsto> a)" "job_at v = (job_at w)(plan_job_id p \<mapsto> k)"
    "rec_state k = Preparing" "rec_current_attempt k = Some (wa_id a)"
proof -
  obtain job s1 s2 k where job: "job_at w (plan_job_id p) = Some job" and q: "queued_for w job p"
    and a: "a = new_attempt p lease inst ledger version (rec_id job) (clk 1)" and ins: "insert_wattempt a (rec_id job) w = Inr s1"
    and sv: "save_job (clk 2) (job\<lparr>rec_current_attempt := Some (wa_id a), rec_generation := plan_generation p,
         rec_state := Preparing, rec_reason := None\<rparr>) s1 = Inr (s2, k)"
    and v: "v = audit ''workload.admit'' k a ''preparing'' s2"
    using r by (auto simp: reserve_attempt_def bindr_Inr get_Inr Let_def split: if_splits)
  have jid: "rec_id job = plan_job_id p" using job_at_ok [OF inv job] by simp
  have new: "attempt_at w (wa_id a) = None" and s1: "s1 = w\<lparr>ws_attempts := add_row \<lparr>wrow_id = wa_id a, wrow_job_id = rec_id job,
      wrow_node_id = wa_node_id a, wrow_value = a\<rparr> (ws_attempts w)\<rparr>"
    using ins by (auto simp: insert_wattempt_def attempt_at_def split: if_splits)
  note d = save_jobD [OF sv]
  have at: "attempt_at v = (attempt_at w)(wa_id a \<mapsto> a)"
    using new by (auto simp: v d(1) s1 fun_eq_iff attempt_at_def find_row_add split: option.split)
  have jobs: "job_at s1 = job_at w" by (simp add: s1 job_at_def fun_eq_iff)
  have kid: "rec_id k = plan_job_id p" using d(3) jid by simp
  have "job_at v = (job_at w)(plan_job_id p \<mapsto> k)"
    by (auto simp: v d(1) fun_eq_iff put_job_at jobs kid job)
  with q job jid a new at d(3) that show thesis by (simp add: queued_for_def)
qed

text \<open>Later stores keep the recorded attempts and the jobs that left the queue.\<close>

definition grown :: "work_store \<Rightarrow> work_store \<Rightarrow> bool" where
  "grown w v \<longleftrightarrow> (work_inv w \<longrightarrow> work_inv v) \<and> (\<forall>i a. attempt_at w i = Some a \<longrightarrow> attempt_at v i = Some a) \<and>
     (\<forall>i j. job_at w i = Some j \<and> rec_state j \<noteq> Queued \<longrightarrow> job_at v i = Some j)"

lemma grown_refl [simp]: "grown w w"
  by (simp add: grown_def)

lemma grown_trans: "grown w v \<Longrightarrow> grown v u \<Longrightarrow> grown w u"
  by (simp add: grown_def)

lemma placed_grown: "placed cfg s w i a \<Longrightarrow> grown w v \<Longrightarrow> placed cfg s v i a"
  unfolding placed_def grown_def by (elim conjE exE) (intro conjI exI; (assumption | simp))

lemma placed_cong: "same_surroundings s t \<Longrightarrow> placed cfg t w i a = placed cfg s w i a"
  by (simp add: placed_def available_cong live_snapshot_cong) (simp add: same_surroundings_def)

lemma grown_pending:
  assumes "work_inv w" and "mark_pending clk i reason w = Inr (v, k)"
  shows "grown w v"
proof -
  obtain job where job: "job_at w i = Some job"
    and o: "v = w \<or> rec_state job = Queued \<and> save_job (clk 0) (job\<lparr>rec_reason := reason\<rparr>) w = Inr (v, k)"
    using assms(2) by (auto simp: mark_pending_def bindr_Inr get_Inr split: if_splits)
  from o show ?thesis
  proof
    assume sv: "rec_state job = Queued \<and> save_job (clk 0) (job\<lparr>rec_reason := reason\<rparr>) w = Inr (v, k)"
    note d = save_jobD [OF conjunct2 [OF sv]]
    show ?thesis using mark_pending_inv [OF assms] sv job job_at_ok [OF assms(1) job] d(3) unfolding d(1) by (auto simp: grown_def put_job_at)
  qed simp
qed

lemma with_store_result:
  assumes "with_store f s = (t, r)"
  shows "same_surroundings s t" "r = Inl e \<Longrightarrow> ct_store t = ct_store s" "r = Inr v \<Longrightarrow> f (ct_store s) = Inr (ct_store t, v)"
  using assms by (auto simp: with_store_def on_store_def same_surroundings_def split: sum.splits)

lemma placement_result:
  assumes inv: "work_inv (ct_store s)" and run: "placement cfg rg job i s = (t, r)"
    and job: "job_at (ct_store s) (rec_id job) = Some job" and lock: "i \<notin> set (rn_locked (ct_runner s))"
  shows "same_surroundings s t" "r = Inl e \<Longrightarrow> ct_store t = ct_store s" "r = Inr a \<Longrightarrow> grown (ct_store s) (ct_store t) \<and> placed cfg s (ct_store t) i a"
proof -
  obtain po v where chk: "authority_check (rg_world rg) (rg_safety rg) job i True (ct_directory s) (co_db (ct_contributors s)) (ct_policies s) = (po, v)"
    by fastforce
  let ?s = "s\<lparr>ct_policies := po\<rparr>"
  have s: "same_surroundings s ?s" by (simp add: same_surroundings_def)
  have "(t = s \<or> t = ?s) \<and> (\<exists>e. r = Inl e) \<or> (\<exists>n revision. available cfg rg i s = Inr True \<and> live_snapshot i s = Some n \<and> v = Inr revision \<and>
      placement_checks rg job n = Inr () \<and> with_store (reserve_attempt (\<lambda>k. rg_clk rg (Suc k)) (new_plan rg job i n revision)
        (new_lease rg (new_plan rg job i n revision) n) (sn_installation_id n) (off_limits (sn_offer n)) (sn_ledger_id n) (sn_admission_version n)) ?s = (t, r))"
    using run by (auto simp: placement_def ctl_bind_def ctl_lift_def work_authority_def chk Let_def require_available_def bindr_Inr ensure_def
        split: sum.splits if_splits option.splits prod.splits)
  then consider (raised) e where "t = s \<or> t = ?s" "r = Inl e"
    | (reserved) n revision p lease where "available cfg rg i s = Inr True" "live_snapshot i s = Some n" "v = Inr revision"
      "placement_checks rg job n = Inr ()" "p = new_plan rg job i n revision" "lease = new_lease rg p n"
      "with_store (reserve_attempt (\<lambda>k. rg_clk rg (Suc k)) p lease (sn_installation_id n) (off_limits (sn_offer n)) (sn_ledger_id n)
        (sn_admission_version n)) ?s = (t, r)" by blast
  then have "same_surroundings s t \<and> (\<forall>e. r = Inl e \<longrightarrow> ct_store t = ct_store s) \<and>
      (\<forall>a. r = Inr a \<longrightarrow> grown (ct_store s) (ct_store t) \<and> placed cfg s (ct_store t) i a)"
  proof cases
    case raised
    then show ?thesis using s by (auto simp: same_surroundings_def)
  next
    case reserved
    note ws = with_store_result [OF reserved(7)]
    have "grown (ct_store s) (ct_store t) \<and> placed cfg s (ct_store t) i a" if "r = Inr a" for a
    proof -
      have rv: "reserve_attempt (\<lambda>k. rg_clk rg (Suc k)) p lease (sn_installation_id n) (off_limits (sn_offer n)) (sn_ledger_id n)
          (sn_admission_version n) (ct_store s) = Inr (ct_store t, a)" using ws(3) [OF that] by simp
      have pj: "plan_job_id p = rec_id job" "plan_node_id p = i" by (simp_all add: reserved(5) new_plan_def)
      from rv show ?thesis
      proof (rule reserve_result [OF inv])
        fix job' k
        assume res: "job_at (ct_store s) (plan_job_id p) = Some job'" "rec_state job' = Queued" "plan_node_id p \<in> set (sub_node_ids (rec_request job'))"
          "rec_id job' = plan_job_id p" "a = new_attempt p lease (sn_installation_id n) (sn_ledger_id n) (sn_admission_version n) (plan_job_id p) (rg_clk rg (Suc 1))"
          "attempt_at (ct_store s) (wa_id a) = None" "attempt_at (ct_store t) = (attempt_at (ct_store s))(wa_id a \<mapsto> a)"
          "job_at (ct_store t) = (job_at (ct_store s))(plan_job_id p \<mapsto> k)" "rec_state k = Preparing" "rec_current_attempt k = Some (wa_id a)"
        have j: "job' = job" using res(1) job pj by simp
        have g: "grown (ct_store s) (ct_store t)"
          using reserve_attempt_inv [OF _ rv] res(1,2,6,7,8) by (auto simp: grown_def)
        have a: "wa_node_id a = i" "wa_state a = Preparing" "wa_job_id a = rec_id job" "wa_plan a = p" "wa_lease a = lease"
          "wa_installation_id a = sn_installation_id n" using res(5) pj by (simp_all add: new_attempt_def)
        have "rec_id job = wa_job_id a \<and> rec_state job = Queued \<and> i \<in> set (sub_node_ids (rec_request job)) \<and>
            available cfg rg i s = Inr True \<and> live_snapshot i s = Some n \<and>
            authority_check (rg_world rg) (rg_safety rg) job i True (ct_directory s) (co_db (ct_contributors s)) (ct_policies s) = (po, Inr revision) \<and>
            placement_checks rg job n = Inr () \<and> wa_plan a = new_plan rg job i n revision \<and> wa_lease a = new_lease rg (wa_plan a) n \<and>
            wa_installation_id a = sn_installation_id n"
          using a res(2,3) pj reserved(1-6) chk j by simp
        moreover have "attempt_at (ct_store t) (wa_id a) = Some a"
          "\<exists>k. job_at (ct_store t) (wa_job_id a) = Some k \<and> rec_state k = Preparing \<and> rec_current_attempt k = Some (wa_id a)"
          using a res(7-10) pj by simp_all
        ultimately have "placed cfg s (ct_store t) i a" unfolding placed_def using a(1,2) lock by blast
        with g show ?thesis by simp
      qed
    qed
    then show ?thesis using ws(1,2) s by (auto intro: same_surroundings_trans)
  qed
  then show "same_surroundings s t" "r = Inl e \<Longrightarrow> ct_store t = ct_store s" "r = Inr a \<Longrightarrow> grown (ct_store s) (ct_store t) \<and> placed cfg s (ct_store t) i a"
    by blast+
qed

lemma try_nodes_result:
  assumes "work_inv (ct_store s)" and "try_nodes cfg rg job groups is reason s = (t, r)" and "job_at (ct_store s) (rec_id job) = Some job"
  shows "same_surroundings s t \<and> grown (ct_store s) (ct_store t) \<and>
    (\<forall>i a. r = Inr (Inr (i, a)) \<longrightarrow> i \<notin> fst ` set groups \<and> placed cfg s (ct_store t) i a)"
  using assms
proof (induction "is" arbitrary: rg reason s)
  case (Cons i "is")
  show ?case
  proof (cases "i \<in> fst ` set groups \<or> i \<in> set (rn_locked (ct_runner s))")
    case True
    then have "try_nodes cfg (\<lambda>k. rg (Suc k)) job groups is ''executor_busy'' s = (t, r)" using Cons.prems(2) by simp
    from Cons.IH [OF Cons.prems(1) this Cons.prems(3)] show ?thesis .
  next
    case False
    obtain s1 v where pl: "placement cfg (rg 0) job i s = (s1, v)" by fastforce
    have i: "i \<notin> set (rn_locked (ct_runner s))" using False by simp
    note res = placement_result [OF Cons.prems(1) pl Cons.prems(3) i]
    show ?thesis
    proof (cases v)
      case (Inr a)
      then show ?thesis using Cons.prems(2) False pl res(1) res(3) [OF Inr] by auto
    next
      case (Inl e)
      note st = res(2) [OF Inl]
      have IH: "same_surroundings s1 t \<and> grown (ct_store s) (ct_store t) \<and>
          (\<forall>i a. r = Inr (Inr (i, a)) \<longrightarrow> i \<notin> fst ` set groups \<and> placed cfg s1 (ct_store t) i a)"
        if "try_nodes cfg (\<lambda>k. rg (Suc k)) job groups is code s1 = (t, r)" for code
        using Cons.IH [of s1, OF _ that] Cons.prems(1,3) st by simp
      show ?thesis
      proof (cases "is_failure e")
        case True
        then obtain code n where "e = Failure code n" by (cases e) auto
        then show ?thesis using IH [of code] Cons.prems(2) False pl Inl res(1) placed_cong [OF res(1)]
          by (auto intro: same_surroundings_trans)
      next
        case other: False
        then show ?thesis using Cons.prems(2) False pl Inl res(1) st by (cases e) auto
      qed
    qed
  qed
qed (auto simp: same_surroundings_def)

definition groups_ok :: "contributor_settings \<Rightarrow> 'p controller \<Rightarrow> work_store \<Rightarrow> groups \<Rightarrow> bool" where
  "groups_ok cfg s w gs \<longleftrightarrow> distinct (map fst gs) \<and> (\<forall>(i, as)\<in>set gs. \<exists>a. as = [a] \<and> placed cfg s w i a)"

lemma groups_ok_grown: "groups_ok cfg s w gs \<Longrightarrow> grown w v \<Longrightarrow> groups_ok cfg s v gs"
  by (fastforce simp: groups_ok_def dest: placed_grown)

lemma groups_ok_cong: "same_surroundings s t \<Longrightarrow> groups_ok cfg t w gs = groups_ok cfg s w gs"
  by (simp add: groups_ok_def placed_cong)

text \<open>One step of scheduling: the state, the groups and how many were added.\<close>

definition scheduled :: "contributor_settings \<Rightarrow> 'p controller \<Rightarrow> groups \<Rightarrow> nat \<Rightarrow> 'p controller \<Rightarrow> groups \<Rightarrow> bool" where
  "scheduled cfg s gs m t gs' \<longleftrightarrow> same_surroundings s t \<and> grown (ct_store s) (ct_store t) \<and> length gs' \<le> length gs + m \<and>
     (\<forall>u. same_surroundings u s \<longrightarrow> groups_ok cfg u (ct_store s) gs \<longrightarrow> groups_ok cfg u (ct_store t) gs')"

lemma scheduled_trans: "scheduled cfg s gs m t gs1 \<Longrightarrow> scheduled cfg t gs1 k u gs2 \<Longrightarrow> scheduled cfg s gs (m + k) u gs2"
  unfolding scheduled_def by (auto intro: same_surroundings_trans grown_trans)

lemma groups_ok_append:
  assumes "groups_ok cfg u w gs" and "grown w v" and "i \<notin> fst ` set gs" and "placed cfg u v i a"
  shows "groups_ok cfg u v (gs @ [(i, [a])])"
  using groups_ok_grown [OF assms(1,2)] assms(3,4) by (auto simp: groups_ok_def)

lemma schedule_one_result:
  assumes inv: "work_inv (ct_store s)" and run: "schedule_one cfg rg i gs s = (t, Inr gs')"
  shows "scheduled cfg s gs 1 t gs'"
proof -
  from run obtain job s1 r where job: "job_at (ct_store s) i = Some job"
    and tr: "try_nodes cfg (\<lambda>k. rg (Suc k)) job gs (sub_node_ids (rec_request job)) ''executor_unavailable'' s = (s1, Inr r)"
    and rest: "(case r of Inr (node, a) \<Rightarrow> ctl_lift (\<lambda>_. Inr (gs @ [(node, [a])]))
      | Inl reason \<Rightarrow> ctl_bind (with_store (mark_pending (rg_clk (rg 0)) i (Some reason))) (\<lambda>_.
          ctl_bind (defer_job (rg 0) i) (\<lambda>_. ctl_lift (\<lambda>_. Inr gs)))) s1 = (t, Inr gs')"
    by (auto simp: schedule_one_def ctl_lift_def get_Inr elim!: ctl_bindE)
  have "job_at (ct_store s) (rec_id job) = Some job" using job_at_ok [OF inv job] job by simp
  from try_nodes_result [OF inv tr this] have tn: "same_surroundings s s1" "grown (ct_store s) (ct_store s1)"
    "\<And>i a. r = Inr (i, a) \<Longrightarrow> i \<notin> fst ` set gs \<and> placed cfg s (ct_store s1) i a" by auto
  show ?thesis
  proof (cases r)
    case (Inr x)
    obtain node a where x: "x = (node, a)" by fastforce
    have t: "t = s1" "gs' = gs @ [(node, [a])]" using rest by (simp_all add: Inr x ctl_lift_def)
    note pl = tn(3) [OF Inr [unfolded x]]
    have "groups_ok cfg u (ct_store s1) gs'" if "same_surroundings u s" "groups_ok cfg u (ct_store s) gs" for u
      unfolding t using that pl tn(2) by (intro groups_ok_append) (simp_all add: placed_cong [OF that(1)])
    then show ?thesis using tn(1,2) by (auto simp: scheduled_def t)
  next
    case (Inl reason)
    obtain s2 v where s2: "with_store (mark_pending (rg_clk (rg 0)) i (Some reason)) s1 = (s2, Inr v)"
      and t: "t = fst (defer_job (rg 0) i s2)" "gs' = gs"
      using rest by (auto simp: Inl ctl_lift_def defer_job_def on_runner_def elim!: ctl_bindE)
    note ws = with_store_result [OF s2]
    have "work_inv (ct_store s1)" using tn(2) inv by (simp add: grown_def)
    then have "grown (ct_store s1) (ct_store s2)" using grown_pending ws(3) by blast
    moreover have "ct_store t = ct_store s2" "same_surroundings s2 t" by (simp_all add: t defer_job_def on_runner_def same_surroundings_def)
    ultimately have g: "grown (ct_store s) (ct_store t)" "same_surroundings s t"
      using tn(1,2) ws(1) by (auto intro: grown_trans same_surroundings_trans)
    then show ?thesis by (auto simp: scheduled_def t(2) intro: groups_ok_grown)
  qed
qed

lemma schedule_chosen_result:
  "work_inv (ct_store s) \<Longrightarrow> schedule_chosen cfg rg is gs s = (t, Inr gs') \<Longrightarrow> scheduled cfg s gs (length is) t gs'"
proof (induction "is" arbitrary: rg gs s)
  case (Cons i "is")
  from Cons.prems(2) obtain s1 g where one: "schedule_one cfg (rg 0) i gs s = (s1, Inr g)"
    and rest: "schedule_chosen cfg (\<lambda>k. rg (Suc k)) is g s1 = (t, Inr gs')" by (auto elim!: ctl_bindE)
  note o = schedule_one_result [OF Cons.prems(1) one]
  have "work_inv (ct_store s1)" using o Cons.prems(1) by (simp add: scheduled_def grown_def)
  from scheduled_trans [OF o Cons.IH [OF this rest]] show ?case by simp
qed (simp add: scheduled_def same_surroundings_def)

lemma scheduled_refl: "same_surroundings s t \<Longrightarrow> ct_store t = ct_store s \<Longrightarrow> scheduled cfg s gs 0 t gs"
  by (simp add: scheduled_def)

lemma scheduled_mono: "scheduled cfg s gs m t gs' \<Longrightarrow> m \<le> n \<Longrightarrow> scheduled cfg s gs n t gs'"
  by (auto simp: scheduled_def)

lemma ask_scheduler_surroundings: "ask_scheduler sel jobs s = (t, v) \<Longrightarrow> same_surroundings s t \<and> ct_store t = ct_store s"
  by (auto simp: ask_scheduler_def same_surroundings_def split: option.splits prod.splits)

lemma schedule_loop_result:
  "work_inv (ct_store s) \<Longrightarrow> schedule_loop cfg sel rg pending examined gs s = (t, Inr gs') \<Longrightarrow> scheduled cfg s gs (64 - examined) t gs'"
proof (induction pending arbitrary: rg examined gs s rule: length_induct)
  case (1 pending)
  from 1(3) show ?case
  proof (cases rule: schedule_loop_cases)
    case stop
    then show ?thesis by (auto intro!: scheduled_mono [OF scheduled_refl] simp: same_surroundings_def)
  next
    case (asked v)
    then show ?thesis using ask_scheduler_surroundings [OF asked(1)] by (auto intro!: scheduled_mono [OF scheduled_refl])
  next
    case (again s1 selection chosen s2 g)
    note a = ask_scheduler_surroundings [OF again(2)]
    have i1: "work_inv (ct_store s1)" using a 1(2) by simp
    note c = schedule_chosen_result [OF i1 again(5)]
    have "work_inv (ct_store s2)" using c i1 by (simp add: scheduled_def grown_def)
    then have "scheduled cfg s2 g (64 - (examined + length chosen)) t gs'" using 1(1) again(6,7) by blast
    from scheduled_trans [OF scheduled_trans [OF scheduled_refl c] this] a have "scheduled cfg s gs (length chosen + (64 - (examined + length chosen))) t gs'" by simp
    moreover have "length chosen \<le> 64 - examined" by (simp add: again(3))
    ultimately show ?thesis using again(1) by (elim scheduled_mono) simp
  qed simp
qed

lemma distinct_attempts:
  assumes "work_inv w"
  shows "distinct (list_attempts w i)"
proof -
  let ?rows = "sort_key wrow_id (filter (\<lambda>r. case i of None \<Rightarrow> True | Some n \<Rightarrow> n = [] \<or> wrow_node_id r = n) (ws_attempts w))"
  have "map wa_id (list_attempts w i) = map wrow_id ?rows"
    using assms by (auto simp: list_attempts_def work_inv_def rows_ok_def attempt_row_ok_def)
  moreover have "distinct (map wrow_id ?rows)"
    using assms by (simp add: work_inv_def rows_ok_def distinct_map inj_on_def)
  ultimately show ?thesis by (metis distinct_map)
qed

lemma distinct_jobs:
  assumes "work_inv w"
  shows "distinct (map rec_id (list_jobs w p))" and "j \<in> set (list_jobs w p) \<Longrightarrow> job_at w (rec_id j) = Some j"
proof -
  let ?rows = "sort_key jrow_id (filter (\<lambda>r. case p of None \<Rightarrow> True | Some q \<Rightarrow> q = [] \<or> jrow_project_id r = q) (ws_jobs w))"
  have ok: "distinct (map jrow_id (ws_jobs w))" "\<And>r. r \<in> set (ws_jobs w) \<Longrightarrow> jrow_id r = rec_id (jrow_value r)"
    using assms by (auto simp: work_inv_def rows_ok_def job_row_ok_def)
  have "map rec_id (list_jobs w p) = map jrow_id ?rows" using ok(2) by (auto simp: list_jobs_def)
  moreover have "distinct (map jrow_id ?rows)" using ok(1) by (simp add: distinct_map inj_on_def)
  ultimately show "distinct (map rec_id (list_jobs w p))" by simp
  assume "j \<in> set (list_jobs w p)"
  then obtain r where r: "r \<in> set (ws_jobs w)" "j = jrow_value r" by (auto simp: list_jobs_def)
  have "find_row jrow_id (ws_jobs w) (jrow_id r) = Some r" using find_row_distinct [OF ok(1) r(1)] by simp
  then show "job_at w (rec_id j) = Some j" using ok(2) [OF r(1)] r(2) by (simp add: job_at_def)
qed

section \<open>Properties\<close>

text \<open>
  The answer of the fair scheduler is always accepted. For reachable records, whatever part of the
  queue the runner offers, the fair scheduler proposes distinct queued jobs that are not cancelled,
  and the runner's check of the proposal never refuses it.
\<close>

theorem fair_selection_accepted:
  assumes "work_reach w" and "jobs = filter P (list_jobs w None)"
  shows "\<exists>p' c. provider_select fair_select jobs (list_attempts w None) p = (p', Inr c) \<and> distinct c \<and> length c \<le> 64 \<and>
    (\<forall>i\<in>set c. \<exists>j. job_at w i = Some j \<and> rec_state j = Queued \<and> \<not> rec_cancelled j)"
proof -
  note inv = work.reach_inv [OF assms(1)]
  have "distinct (map rec_id jobs)" using distinct_jobs(1) [OF inv, of None] assms(2) by (simp add: distinct_map_filter)
  from fair.accepted [OF this] obtain p' c where c: "provider_select fair_select jobs (list_attempts w None) p = (p', Inr c)" by blast
  note d = provider_selectD [OF c]
  have "\<exists>j. job_at w i = Some j \<and> rec_state j = Queued \<and> \<not> rec_cancelled j" if i: "i \<in> set c" for i
  proof -
    obtain j where "j \<in> set (list_jobs w None)" "rec_id j = i" "rec_state j = Queued" "\<not> rec_cancelled j" using i d(3) assms(2) by auto
    then show ?thesis using distinct_jobs(2) [OF inv] by blast
  qed
  then show ?thesis using c d(1,2) by blast
qed



text \<open>
  Without authority a lease is not renewed and nothing is started. If one attempt of a batch has
  no current authority when the batch is renewed or started, the operation raises before any
  record is changed and before anything is sent to the executor.
\<close>

theorem no_effect_without_authority:
  assumes "a \<in> set values" and "\<And>rg. \<not> authorised cfg rg starting a s"
    and "(if starting then start_slice cfg aw rg n values else renew_slice cfg aw rg n values) s = (t, r)"
  shows "(\<exists>e. r = Inl e) \<and> only_policies s t"
proof -
  obtain u v where au: "authorities cfg (\<lambda>k. rg (Suc k)) starting values s = (u, v)" by fastforce
  note res = authorities_result [OF au]
  have "v \<noteq> Inr ()" using res assms(1,2) by blast
  then obtain e where v: "v = Inl e" by (cases v) auto
  have "t = u" "r = Inl e" using assms(3) au v by (auto simp: start_slice_def renew_slice_def ctl_bind_def split: if_splits)
  then show ?thesis using res by blast
qed


end
