(* ===== verification/Work_Runner_Run.thy ===== *)
theory Work_Runner_Run
  imports Work_Runner_Props Work_Channel_Props
begin

text \<open>
  Concrete runs of the runner: a contributor with a current connection and a reconciled snapshot, a
  queued job under a current delegation and an enforced policy, which scheduling places; and a
  controller that a restore has suspended, which stops the attempt it finds. They show that the
  hypotheses of the properties of the runner can hold.
\<close>

section \<open>A job that is placed\<close>

definition ex_hosts :: contributors where
  "ex_hosts = ex_live\<lparr>co_db := (co_db ex_live)\<lparr>db_projects := [(LOCAL_PROJECT, False)], db_nodes := [ex_machine]\<rparr>\<rparr>"

definition ex_snapshot :: snapshot where
  "ex_snapshot = \<lparr>sn_installation_id = ex_id (CHR ''0''), sn_ledger_id = Some (ex_id (CHR ''3'')), sn_admission_version = 1, sn_endpoint_version = 1,
     sn_input_chunk_bytes = 1048576, sn_deployment_id = ex_id (CHR ''0''), sn_node_id = ex_id (CHR ''1''), sn_maximum_lease_seconds = 20,
     sn_offer = ex_offer\<lparr>off_projects := [LOCAL_PROJECT], off_mode := Managed\<rparr>,
     sn_slots = [\<lparr>sc_id = ''slot'', sc_generation = 1, sc_storage_bytes = 30, sc_storage_inodes = 8, sc_available = True, sc_reason = None\<rparr>],
     sn_providers = [\<lparr>pc_id = ''podman'', pc_package_digest = rt_package_digest ex_runtime, pc_available = True, pc_reason = None\<rparr>],
     sn_available = ex_limits 2 [''gpu0'', ''gpu1''], sn_attempts = [], sn_next = None\<rparr>"

definition ex_readings :: readings where
  "ex_readings = \<lparr>rg_turn = ex_turn, rg_mono = 51, rg_now = 1000, rg_clk = (\<lambda>_. 1000), rg_token = ex_id (CHR ''a''), rg_world = ex_policy_world,
     rg_safety = (\<lambda>_. Inr False)\<rparr>"

definition ex_waiting :: work_store where
  "ex_waiting = empty_store\<lparr>ws_policy_revision := 2, ws_jobs := [\<lparr>jrow_id = ex_id (CHR ''c''), jrow_subject_id = LOCAL_OWNER,
     jrow_project_id = LOCAL_PROJECT, jrow_key = ex_key, jrow_digest = digest (submission_dump ex_submission), jrow_value = ex_workload\<rparr>]\<rparr>"

definition ex_ready :: "scheduler \<Rightarrow> scheduler controller" where
  "ex_ready p = \<lparr>ct_commands = \<lparr>cm_store = ex_waiting, cm_observed = []\<rparr>,
     ct_runner = new_runner\<lparr>rn_live := [(ex_id (CHR ''1''), ex_snapshot, 50)],
       rn_reconciled := [(ex_id (CHR ''1''), ''s1'', ex_id (CHR ''0''), Some (ex_id (CHR ''3'')))]\<rparr>,
     ct_policies = ex_policies, ct_contributors = ex_hosts, ct_directory = ex_granting, ct_scheduler = Some p, ct_prefetches = [],
     ct_inputs_closed = False, ct_readers = 0\<rparr>"

lemma ex_local: "Identity LOCAL_OWNER" "Identity LOCAL_PROJECT" "Hex64 ex_hash"
  by code_simp+

lemma ex_granted_valid: "valid_delegation ex_granted"
proof -
  have s: "sort [''contributors:read'', ''jobs:execute''] = [''contributors:read'', ''jobs:execute'']" by code_simp
  show ?thesis using ex_hex ex_local
  by (simp add: valid_delegation_def ex_granted_def ex_delegated_def new_delegation_def ex_submitting_def ex_principal_def ex_stamp_def Count_def s)
qed

lemma ex_workload_valid: "valid_record ex_workload"
  using ex_valid_record ex_granted_valid ex_local
  by (simp add: valid_record_def ex_workload_def ownership_def ex_granted_def ex_delegated_def new_delegation_def ex_submitting_def ex_principal_def)

lemma ex_waiting_reach: "work_reach ex_waiting"
proof -
  have "submit_job (\<lambda>_. 1000) (ex_id (CHR ''c'')) ex_submission ex_key ex_granted (empty_store\<lparr>ws_policy_revision := 2\<rparr>) = Inr (ex_waiting, ex_workload)"
    using ex_workload_valid
    by (simp add: submit_job_def empty_store_def Let_def ex_waiting_def find_row_def add_row_def ex_workload_def ex_record_def)
      (simp add: ex_granted_def ex_delegated_def new_delegation_def ex_submitting_def ex_principal_def)
  from work_submit [OF this] have 1: "work_step (empty_store\<lparr>ws_policy_revision := 2\<rparr>) ex_waiting" .
  have "work_step empty_store (empty_store\<lparr>ws_policy_revision := 2\<rparr>)"
    using work_other [where s = empty_store and n = 2 and gs = "ws_ssh_gpus empty_store" and cs = "ws_contributors empty_store" and au = "ws_audit empty_store"]
    by (simp add: empty_store_def)
  moreover have "work_reach empty_store" by (simp add: reach_start)
  ultimately have "work_reach (empty_store\<lparr>ws_policy_revision := 2\<rparr>)" by (rule reach_step [rotated])
  then show ?thesis using 1 by (rule reach_step)
qed

lemma ex_ready_available: "available ex_cfg ex_readings (ex_id (CHR ''1'')) (ex_ready p) = Inr True"
proof -
  have a: "authenticate 100 ''f1'' False (co_db ex_hosts) = Inr (ex_machine, ex_cert\<lparr>ct_status := Current\<rparr>)"
    by (simp add: ex_hosts_def ex_live_def ex_con_def authenticate_def joined_def ex_dbs find_row_def ex_cert_def ex_machine_def
      certificate_active_def ex_leaf_def)
  have "connection ex_cfg 51 51 (ex_id (CHR ''1'')) ''s1'' ''f1'' ex_hosts = Inr ()"
    by (simp add: connection_def ex_hosts_def ex_live_def ex_session_def new_session_def ex_cfg_def)
  then have "turn_guard ex_cfg ex_turn (ex_id (CHR ''1'')) ''s1'' ''f1'' ex_hosts = Inr ()" using a by (simp add: turn_guard_def guard_def ex_turn_def)
  moreover have "map_of (co_sessions ex_hosts) (ex_id (CHR ''1'')) = Some ex_session" "se_id ex_session = ''s1''" "se_fingerprint ex_session = ''f1''"
    by (simp_all add: ex_hosts_def ex_live_def ex_session_def new_session_def)
  ultimately have "channel_session ex_cfg ex_turn (ex_id (CHR ''1'')) ex_hosts = Inr ex_session" by (simp add: channel_session_def)
  then show ?thesis by (simp add: available_def ex_ready_def ex_readings_def ex_snapshot_def ex_session_def new_session_def)
qed


lemma ex_ready_authority:
  "authority_check ex_policy_world (\<lambda>_. Inr False) ex_workload (ex_id (CHR ''1'')) True ex_granting (co_db ex_hosts) ex_policies =
     (ex_policies, Inr 2)"
proof -
  have job: "rec_delegation ex_workload = ex_granted" "rec_project_id ex_workload = LOCAL_PROJECT" "rec_subject_id ex_workload = LOCAL_OWNER"
    by (simp_all add: ex_workload_def)
  have node: "authority_node LOCAL_PROJECT (ex_id (CHR ''1'')) (co_db ex_hosts) = Inr ex_machine"
    "authority_node LOCAL_PROJECT (ex_id (CHR ''1'')) ex_machines = Inr ex_machine"
    by (simp_all add: authority_node_def get_node_def ex_hosts_def ex_machines_def ex_machine_def find_row_def)
  have roles: "roles_of LOCAL_PROJECT LOCAL_OWNER ex_granting = Inr (pa_roles ex_grant_authority)"
    by (simp add: roles_of_def find_binding_def ex_granting_def ex_accounts_def empty_directory_def find_row_def ex_grant_authority_def ex_authority_def)
  have "workload_granted (\<lambda>_. Inr False) ex_workload (ex_id (CHR ''1'')) ex_granting (co_db ex_hosts) =
      workload_granted (\<lambda>_. Inr False) ex_workload (ex_id (CHR ''1'')) ex_granting ex_machines"
    by (simp add: workload_granted_def job node)
  moreover have "ps_revision ex_state = 2" by (simp add: ex_state_def)
  ultimately show ?thesis
    by (simp add: authority_check_def ex_workload_granted ex_workload_decided job ex_granted_current ex_granting_state node roles)
qed

definition ex_admitted_plan :: plan where
  "ex_admitted_plan = ex_plan1\<lparr>plan_project_id := LOCAL_PROJECT, plan_subject_id := LOCAL_OWNER, plan_policy_revision := 2\<rparr>"

lemma ex_new_plan: "new_plan ex_readings ex_workload (ex_id (CHR ''1'')) ex_snapshot 2 = ex_admitted_plan"
  by (simp add: new_plan_def ex_admitted_plan_def ex_plan1_def ex_plan_def ex_snapshot_def ex_readings_def ex_workload_def ex_record_def ex_submission_def
      ex_offer_def)

lemma ex_admitted_valid: "valid_plan ex_admitted_plan"
proof -
  have "length (encoded (plan_dump ex_admitted_plan)) \<le> 131072"
    unfolding encoded_def by (rule order_trans [OF length_dumps])
      (simp add: ex_admitted_plan_def ex_plan1_def ex_plan_def ex_job_def ex_id_def ex_limits_def ex_runtime_def plan_dump_def job_dump_def dump_defs
        LOCAL_OWNER_def LOCAL_PROJECT_def)
  then show ?thesis using ex_valid(1) ex_local by (simp add: valid_plan_def ex_admitted_plan_def Count_def)
qed

definition ex_admitted_lease :: renewal where
  "ex_admitted_lease = new_lease ex_readings ex_admitted_plan ex_snapshot"

definition ex_admitted :: wattempt where
  "ex_admitted = new_attempt ex_admitted_plan ex_admitted_lease (ex_id (CHR ''0'')) (Some (ex_id (CHR ''3''))) 1 (ex_id (CHR ''c'')) 1000"

lemma ex_admitted_lease_sel:
  "ren_sequence ex_admitted_lease = 1" "ren_expires_at ex_admitted_lease = 1019 + 1 / 2" "valid_renewal ex_admitted_lease"
  "same_fence ex_admitted_lease ex_admitted_plan"
  using ex_hex digest_Digest
  by (simp_all add: ex_admitted_lease_def new_lease_def ex_readings_def ex_snapshot_def valid_renewal_def valid_fence_def same_fence_def
      digest_of_plan_def Revision_def) (simp_all add: ex_admitted_plan_def ex_plan1_def ex_plan_def)

lemma ex_admitted_attempt: "valid_wattempt ex_admitted"
  using ex_hex ex_admitted_valid ex_admitted_lease_sel
  by (simp add: valid_wattempt_def ex_admitted_def new_attempt_def attempt_binding_def) (simp add: ex_admitted_plan_def ex_plan1_def ex_plan_def)


definition ex_placed_job :: job_record where
  "ex_placed_job = ex_workload\<lparr>rec_current_attempt := Some (ex_id (CHR ''a'')), rec_generation := 1, rec_state := Preparing,
     rec_reason := None, rec_updated_at := 1000, rec_revision := 2\<rparr>"

lemma ex_admitted_sel: "wa_id ex_admitted = ex_id (CHR ''a'')" "wa_node_id ex_admitted = ex_id (CHR ''1'')"
  by (simp_all add: ex_admitted_def new_attempt_def ex_admitted_plan_def ex_plan1_def ex_plan_def)

lemma ex_place_reserve:
  "\<exists>w. reserve_attempt (\<lambda>_. 1000) ex_admitted_plan ex_admitted_lease (ex_id (CHR ''0'')) (ex_limits 2 [''gpu0'', ''gpu1'']) (Some (ex_id (CHR ''3''))) 1 ex_waiting =
     Inr (w, ex_admitted)"
proof -
  have p: "plan_job_id ex_admitted_plan = ex_id (CHR ''c'')" "plan_generation ex_admitted_plan = 1"
    by (simp_all add: ex_admitted_plan_def ex_plan1_def ex_plan_def)
  have j: "get_job ex_waiting (ex_id (CHR ''c'')) = Inr ex_workload"
    by (simp add: get_job_def ex_waiting_def find_row_def)
  have q: "queued_for ex_waiting ex_workload ex_admitted_plan"
    by (simp add: queued_for_def ex_workload_def ex_record_def ex_admitted_plan_def ex_plan1_def ex_plan_def ex_submission_def ex_waiting_def)
  have c: "reserve_checks ex_waiting ex_admitted_plan (ex_limits 2 [''gpu0'', ''gpu1'']) = Inr ()"
    by (simp add: reserve_checks_def require_free_def ex_waiting_def empty_store_def list_attempts_def held_on_def wtotal_def summed_def
      ex_admitted_plan_def ex_plan1_def ex_plan_def ex_job_def ex_limits_def fits_def)
  have i: "\<exists>w. insert_wattempt ex_admitted (ex_id (CHR ''c'')) ex_waiting = Inr w"
    by (simp add: insert_wattempt_def ex_waiting_def empty_store_def find_row_def)
  have "valid_record ex_placed_job"
    using ex_workload_valid ex_hex by (simp add: ex_placed_job_def valid_record_def ex_workload_def ex_record_def Count_def Revision_def ownership_def)
  then have "save_job 1000 (ex_workload\<lparr>rec_current_attempt := Some (ex_id (CHR ''a'')), rec_generation := 1, rec_state := Preparing,
      rec_reason := None\<rparr>) s = Inr (put_job ex_placed_job s, ex_placed_job)" for s
    by (simp add: save_job_def ex_placed_job_def ex_workload_def ex_record_def Let_def)
  moreover have n: "new_attempt ex_admitted_plan ex_admitted_lease (ex_id (CHR ''0'')) (Some (ex_id (CHR ''3''))) 1 (rec_id ex_workload) 1000 = ex_admitted"
    "rec_id ex_workload = ex_id (CHR ''c'')" by (simp_all add: ex_admitted_def ex_workload_def ex_record_def)
  ultimately show ?thesis
    using i by (auto simp: reserve_attempt_def p j q c ex_admitted_lease_sel ex_admitted_attempt ex_admitted_sel Let_def)
qed

lemma ex_placement: "\<exists>t. placement ex_cfg ex_readings ex_workload (ex_id (CHR ''1'')) (ex_ready p) = (t, Inr ex_admitted)"
proof -
  have r: "rg_world ex_readings = ex_policy_world" "rg_safety ex_readings = (\<lambda>_. Inr False)" "rg_clk ex_readings = (\<lambda>_. 1000)" by (simp_all add: ex_readings_def)
  have live: "live_snapshot (ex_id (CHR ''1'')) (ex_ready p) = Some ex_snapshot" by (simp add: live_snapshot_def ex_ready_def)
  have n: "sn_admission_version ex_snapshot = 1" "sn_ledger_id ex_snapshot = Some (ex_id (CHR ''3''))" "sn_installation_id ex_snapshot = ex_id (CHR ''0'')"
    "off_limits (sn_offer ex_snapshot) = ex_limits 2 [''gpu0'', ''gpu1'']" by (simp_all add: ex_snapshot_def ex_offer_def)
  have checks: "placement_checks ex_readings ex_workload ex_snapshot = Inr ()"
    by (simp add: placement_checks_def refusal_def Let_def ex_snapshot_def ex_offer_def ex_workload_def ex_record_def ex_submission_def ex_job_def
        ex_limits_def fits_def) (simp add: ex_runtime_def)
  have s: "ct_directory (ex_ready p) = ex_granting" "ct_contributors (ex_ready p) = ex_hosts" "ct_policies (ex_ready p) = ex_policies" "ct_store (ex_ready p) = ex_waiting"
    by (simp_all add: ex_ready_def)
  obtain w where "reserve_attempt (\<lambda>_. 1000) ex_admitted_plan ex_admitted_lease (ex_id (CHR ''0'')) (ex_limits 2 [''gpu0'', ''gpu1''])
      (Some (ex_id (CHR ''3''))) 1 ex_waiting = Inr (w, ex_admitted)" using ex_place_reserve by blast
  then show ?thesis
    using ex_ready_available ex_ready_authority
    by (simp add: placement_def ctl_bind_def ctl_lift_def require_available_def live n work_authority_def r s ensure_def)
      (simp add: checks ex_new_plan ex_admitted_valid ex_admitted_lease_sel ensure_def n ctl_bind_def ctl_lift_def with_store_def on_store_def s flip: ex_admitted_lease_def)
qed


lemma ex_ready_jobs: "list_jobs (ct_store (ex_ready p)) None = [ex_workload]" "list_attempts (ct_store (ex_ready p)) None = []"
  by (simp_all add: list_jobs_def list_attempts_def ex_ready_def ex_waiting_def empty_store_def)

lemma ex_ready_asked: "ask_scheduler fair_select [ex_workload] (ex_ready ex_sched) = (ex_ready (ex_sched\<lparr>last_project := Some LOCAL_PROJECT\<rparr>), Inr [ex_id (CHR ''c'')])"
proof -
  have "pending_of [ex_workload] = [\<lparr>pj_id = ex_id (CHR ''c''), pj_project_id = LOCAL_PROJECT, pj_created_at = 1000\<rparr>]"
    by (simp add: pending_of_def ex_workload_def ex_record_def)
  moreover have "select_jobs ex_sched \<lparr>sr_version = 1, sr_pending = [\<lparr>pj_id = ex_id (CHR ''c''), pj_project_id = LOCAL_PROJECT, pj_created_at = 1000\<rparr>], sr_active = []\<rparr> =
      Inr (ex_sched\<lparr>last_project := Some LOCAL_PROJECT\<rparr>, [ex_id (CHR ''c'')])" by code_simp
  ultimately have "provider_select fair_select [ex_workload] [] ex_sched = (ex_sched\<lparr>last_project := Some LOCAL_PROJECT\<rparr>, Inr [ex_id (CHR ''c'')])"
    by (simp add: provider_select_def fair_select_def active_of_def accepted_selection_def)
  moreover have "ct_scheduler (ex_ready p) = Some p" "(ex_ready p)\<lparr>ct_scheduler := Some q\<rparr> = ex_ready q" for p q by (simp_all add: ex_ready_def)
  ultimately show ?thesis by (simp add: ask_scheduler_def ex_ready_jobs)
qed

lemma ex_schedule: "\<exists>t. schedule_groups ex_cfg fair_select 51 (\<lambda>_ _. ex_readings) (ex_ready ex_sched) = (t, Inr [(ex_id (CHR ''1''), [ex_admitted])])"
proof -
  let ?s = "ex_ready (ex_sched\<lparr>last_project := Some LOCAL_PROJECT\<rparr>)"
  obtain t where pl: "placement ex_cfg ex_readings ex_workload (ex_id (CHR ''1'')) ?s = (t, Inr ex_admitted)" using ex_placement by blast
  have j: "get_job (ct_store ?s) (ex_id (CHR ''c'')) = Inr ex_workload" "sub_node_ids (rec_request ex_workload) = [ex_id (CHR ''1'')]"
    "rn_locked (ct_runner ?s) = []" "rec_id ex_workload = ex_id (CHR ''c'')"
    by (simp_all add: get_job_def ex_ready_def ex_waiting_def find_row_def ex_workload_def ex_record_def ex_submission_def new_runner_def)
  have "schedule_one ex_cfg (\<lambda>_. ex_readings) (ex_id (CHR ''c'')) [] ?s = (t, Inr [(ex_id (CHR ''1''), [ex_admitted])])"
    using pl j by (simp add: schedule_one_def ctl_bind_def ctl_lift_def)
  then have "schedule_loop ex_cfg fair_select (\<lambda>_ _. ex_readings) [ex_workload] 0 [] (ex_ready ex_sched) = (t, Inr [(ex_id (CHR ''1''), [ex_admitted])])"
    by (subst schedule_loop.simps) (simp add: ex_ready_asked Let_def ctl_bind_def j schedule_loop.simps)
  moreover have s: "ct_scheduler (ex_ready ex_sched) = Some ex_sched" "\<not> suspended (ex_ready ex_sched)" "rn_deferred (ct_runner (ex_ready ex_sched)) = []"
    "(ex_ready ex_sched)\<lparr>ct_runner := (ct_runner (ex_ready ex_sched))\<lparr>rn_deferred := []\<rparr>\<rparr> = ex_ready ex_sched"
    by (simp_all add: ex_ready_def suspended_def ex_waiting_def empty_store_def new_runner_def)
  ultimately show ?thesis by (simp add: schedule_groups_def Let_def ex_ready_jobs s)
qed


section \<open>A controller that a restore has suspended\<close>

definition ex_restored :: "policies \<Rightarrow> contributors \<Rightarrow> directory \<Rightarrow> scheduler controller" where
  "ex_restored po con d = (ex_controller po con d)\<lparr>ct_commands := \<lparr>cm_store = suspend ex_store2, cm_observed = []\<rparr>\<rparr>"

lemma ex_restored_reach: "work_reach (ct_store (ex_restored po con d))"
proof -
  have "\<forall>r\<in>set (ws_jobs ex_store2). rec_revision (jrow_value r) < 2 ^ 53 - 1"
    by (simp add: ex_store2_def put_job_def put_row_def audit_def ex_store1_def ex_record2_def ex_record_def)
  then have "work_step ex_store2 (suspend ex_store2)" by (rule work_suspend)
  from reach_step [OF ex_store2_reach this] show ?thesis by (simp add: ex_restored_def)
qed

lemma ex_restored_suspended: "suspended (ex_restored po con d)"
  by (simp add: suspended_def ex_restored_def suspend_def)

lemma ex_restored_attempts: "list_attempts (ct_store (ex_restored po con d)) (Some (ex_id (CHR ''1''))) = [ex_wattempt]"
  by (simp add: ex_restored_def suspend_def list_attempts_def ex_store2_def audit_def put_job_def)

lemma ex_restored_refused:
  "runner_authority cfg rg starting ex_wattempt (ex_restored po con d) = (ex_restored po con d, Inl (Failure ''workloads_suspended'' 409))"
  by (simp add: runner_authority_def ctl_bind_def ctl_lift_def ensure_def ex_restored_suspended)

theorem fair_selection_accepted_witness:
  "\<exists>p' c. provider_select fair_select (filter (\<lambda>_. True) (list_jobs ex_store1 None)) (list_attempts ex_store1 None) ex_sched = (p', Inr c) \<and>
     distinct c"
  using fair_selection_accepted [OF ex_store1_reach refl, of "\<lambda>_. True" ex_sched] by blast

lemma ex_restored_classify:
  "classify cfg rg n [ex_wattempt] \<lparr>al_stop = [], al_renew = [], al_start = []\<rparr> (ex_restored po con d) =
     (ex_restored po con d, Inr \<lparr>al_stop = [ex_wattempt], al_renew = [], al_start = []\<rparr>)"
proof -
  have "may_continue cfg (rg 0) ex_wattempt (ex_restored po con d) = (ex_restored po con d, Inl (Failure ''workloads_suspended'' 409))"
    using ex_restored_refused [of cfg "rg 0" "wa_state ex_wattempt = Prepared" po con d] by (simp add: may_continue_def ctl_bind_def)
  then show ?thesis by (simp add: ctl_bind_def advance_one_def terminal_def)
qed


theorem no_effect_without_authority_witness:
  "\<forall>cfg aw rg n po con d. \<exists>t e. renew_slice cfg aw rg n [ex_wattempt] (ex_restored po con d) = (t, Inl e) \<and> only_policies (ex_restored po con d) t"
proof (intro allI)
  fix cfg and aw :: "scheduler await" and rg n po con d
  obtain t r where run: "renew_slice cfg aw rg n [ex_wattempt] (ex_restored po con d) = (t, r)" by fastforce
  have "\<not> authorised cfg rg False ex_wattempt (ex_restored po con d)" for rg by (simp add: authorised_def ex_restored_suspended)
  from no_effect_without_authority [where starting = False, OF _ this, of "[ex_wattempt]" aw rg n t r] run
  show "\<exists>t e. renew_slice cfg aw rg n [ex_wattempt] (ex_restored po con d) = (t, Inl e) \<and> only_policies (ex_restored po con d) t" by auto
qed


end
