(* ===== verification/Work_Inputs_Props.thy ===== *)
theory Work_Inputs_Props
  imports Work_Inputs
begin

text \<open>
  The binding of a submission to its input data: what was bound once is bound to the same files
  again, and passes the check that precedes every later use.
\<close>

lemma bind_dataset_stable:
  assumes "bind_dataset rs request v = Inr b"
  shows "bind_dataset rs b v = Inr b" and "dataset_references v = Inr (job_inputs (sub_job b))"
    and "b = request\<lparr>sub_job := (sub_job request)\<lparr>job_inputs := job_inputs (sub_job b), job_sensitive := job_sensitive (sub_job b)\<rparr>\<rparr>"
    and "sum_list (map obj_bytes (job_inputs (sub_job b))) \<le> storage_bytes (job_limits (sub_job b))"
    and "job_sensitive (sub_job request) \<or> rs_effective rs v = Inr True \<Longrightarrow> job_sensitive (sub_job b)"
proof -
  obtain xs sensitive where xs: "dataset_references v = Inr xs" "sum_list (map obj_bytes xs) \<le> storage_bytes (job_limits (sub_job request))"
    "(if job_sensitive (sub_job request) then Inr True else rs_effective rs v) = Inr sensitive"
    and b: "b = request\<lparr>sub_job := (sub_job request)\<lparr>job_inputs := xs, job_sensitive := sensitive\<rparr>\<rparr>"
    using assms by (auto simp: bind_dataset_def bindr_Inr not_less split: if_splits)
  have "rs_effective rs v = Inr sensitive" if "\<not> sensitive" using xs(3) that by (auto split: if_splits)
  then have again: "(if sensitive then Inr True else rs_effective rs v) = Inr sensitive" by auto
  show "bind_dataset rs b v = Inr b" using xs(1,2) again by (simp add: bind_dataset_def b ensure_def)
  show "dataset_references v = Inr (job_inputs (sub_job b))" "sum_list (map obj_bytes (job_inputs (sub_job b))) \<le> storage_bytes (job_limits (sub_job b))"
    "b = request\<lparr>sub_job := (sub_job request)\<lparr>job_inputs := job_inputs (sub_job b), job_sensitive := job_sensitive (sub_job b)\<rparr>\<rparr>"
    using xs(1,2) by (simp_all add: b)
  show "job_sensitive (sub_job b)" if "job_sensitive (sub_job request) \<or> rs_effective rs v = Inr True"
    using xs(3) that by (auto simp: b split: if_splits)
qed

lemma bind_inputs_cases:
  assumes "bind_inputs rs request dele d = Inr b"
  obtains (unbound) "b = request" and "sub_model_revision request \<noteq> None \<or> sub_dataset request = None" and "bind_inputs rs b dele d = Inr b"
  | (dataset) v where "sub_model_revision request = None" and "selected_dataset rs request (delegation_current dele d) = Inr (Some v)"
      and "bind_dataset rs request v = Inr b"
proof (cases "sub_model_revision request")
  case None
  with assms obtain r where r: "selected_dataset rs request (delegation_current dele d) = Inr r"
    and "(case r of None \<Rightarrow> if list_ex (\<lambda>x. obj_delivery x = Stream) (job_inputs (sub_job request)) then Inl (Failure ''dataset_required'' 400) else Inr request
      | Some v \<Rightarrow> bind_dataset rs request v) = Inr b" by (auto simp: bind_inputs_def bindr_Inr)
  then show ?thesis
  proof (cases r)
    case missing: None
    then have "sub_dataset request = None" "b = request" using r \<open>(case r of None \<Rightarrow> _ | Some v \<Rightarrow> _) = Inr b\<close>
      by (auto simp: selected_dataset_def bindr_Inr split: option.splits if_splits)
    then show ?thesis using assms by (intro unbound) auto
  next
    case (Some v)
    then show ?thesis using None r \<open>(case r of None \<Rightarrow> _ | Some v \<Rightarrow> _) = Inr b\<close> by (intro dataset) auto
  qed
next
  case (Some m)
  then have "b = request" using assms by (auto simp: bind_inputs_def bindr_Inr split: if_splits)
  then show ?thesis using assms Some by (intro unbound) auto
qed

lemma selected_after_bind:
  assumes "bind_dataset rs request v = Inr b"
  shows "sub_model_revision b = sub_model_revision request" "selected_dataset rs b a = selected_dataset rs request a"
  by (subst bind_dataset_stable(3) [OF assms], simp add: selected_dataset_def)+

section \<open>Properties\<close>

text \<open>
  C25: binding a submission to its data is stable. A bound submission is bound to itself again, as the
  second binding of a submission after its audit needs; the inputs of a selected dataset are exactly
  its files and fit into the storage of the job; a job that was sensitive stays so; and, while
  nothing else changes, the check before each later use accepts the bound job.
\<close>

theorem bound_inputs_stable:
  assumes "bind_inputs rs request dele d = Inr b" and "rec_request job = b" and "rec_delegation job = dele"
  shows "bind_inputs rs b dele d = Inr b \<and> (job_sensitive (sub_job request) \<longrightarrow> job_sensitive (sub_job b)) \<and>
     (sub_model_revision request = None \<longrightarrow> (\<exists>data. check_inputs rs d job = Inr data)) \<and>
     (sub_model_revision request = None \<and> sub_dataset request \<noteq> None \<longrightarrow>
       sum_list (map obj_bytes (job_inputs (sub_job b))) \<le> storage_bytes (job_limits (sub_job b)) \<and>
       (\<exists>v. selected_dataset rs request (delegation_current dele d) = Inr (Some v) \<and> dataset_references v = Inr (job_inputs (sub_job b))))"
  using assms(1)
proof (cases rule: bind_inputs_cases)
  case unbound
  then show ?thesis using assms(2,3) by (auto simp: check_inputs_def selected_dataset_def)
next
  case (dataset v)
  note st = bind_dataset_stable [OF dataset(3)] and sel = selected_after_bind [OF dataset(3)]
  have "\<exists>data. rs_require rs v = Inr data" using dataset(2) by (auto simp: selected_dataset_def bindr_Inr split: option.splits if_splits)
  then have "\<exists>data. check_inputs rs d job = Inr data" using dataset(2) st(2) sel(2) assms(2,3) by (auto simp: check_inputs_def ensure_def)
  moreover have "bind_inputs rs b dele d = Inr b" using dataset(1,2) st(1) sel by (simp add: bind_inputs_def)
  ultimately show ?thesis using dataset(2) st(2,4,5) by blast
qed

definition ex_dataset :: dataset_value where
  "ex_dataset = \<lparr>dv_id = ''d1'', dv_manifest_digest = ''m1'', dv_files = [\<lparr>df_name = ''rows.csv'', df_sha256 = sha256_hex ''abc'', df_size = 3\<rparr>]\<rparr>"

definition ex_registries :: registries where
  "ex_registries = \<lparr>rs_dataset = (\<lambda>_ _. Inr ex_dataset), rs_require = (\<lambda>_. Inr True), rs_effective = (\<lambda>_. Inr True),
     rs_model = (\<lambda>_ _. Inl (Failure ''not_found'' 404))\<rparr>"

definition ex_with_data :: submission where
  "ex_with_data = ex_submission\<lparr>sub_dataset := Some \<lparr>ds_id = ''d1'', ds_manifest_digest = ''m1''\<rparr>\<rparr>"

definition ex_bound :: submission where
  "ex_bound = ex_with_data\<lparr>sub_job := (sub_job ex_with_data)\<lparr>job_inputs := [input_reference ''d1'' (0, hd (dv_files ex_dataset))], job_sensitive := True\<rparr>\<rparr>"

lemma ex_dataset_references: "dataset_references ex_dataset = Inr [input_reference ''d1'' (0, hd (dv_files ex_dataset))]"
proof -
  have "Digest (''sha256:'' @ sha256_hex ''abc'')" using sha256_hex_shape [of "''abc''"] by (simp add: Digest_def)
  moreover have "Identity (take 32 (sha256_hex x))" for x using sha256_hex_shape [of x] by (auto simp: Identity_def list_all_iff dest: in_set_takeD)
  moreover have "input_name_ok ''rows.csv''" by code_simp
  ultimately have "valid_object_reference (input_reference ''d1'' (0, hd (dv_files ex_dataset)))"
    by (simp add: valid_object_reference_def input_reference_def ex_dataset_def Count_def input_name_ok_def)
  then show ?thesis by (simp add: dataset_references_def ex_dataset_def)
qed

lemma ex_bind: "bind_inputs ex_registries ex_with_data dele d = Inr ex_bound"
proof -
  have "bind_dataset ex_registries ex_with_data ex_dataset = Inr ex_bound"
    using ex_dataset_references
    by (simp add: bind_dataset_def ensure_def ex_registries_def ex_with_data_def ex_bound_def ex_submission_def ex_job_def ex_limits_def)
      (simp add: input_reference_def ex_dataset_def)
  then show ?thesis
    by (simp add: bind_inputs_def selected_dataset_def ex_with_data_def ex_submission_def ex_registries_def ex_dataset_def ensure_def)
qed

theorem bound_inputs_stable_witness:
  "\<forall>d. bind_inputs ex_registries ex_bound ex_delegation d = Inr ex_bound \<and>
     (\<exists>data. check_inputs ex_registries d (ex_record\<lparr>rec_request := ex_bound, rec_delegation := ex_delegation\<rparr>) = Inr data)"
  using bound_inputs_stable [OF ex_bind, of "ex_record\<lparr>rec_request := ex_bound, rec_delegation := ex_delegation\<rparr>" ex_delegation]
  by (simp add: ex_with_data_def ex_submission_def)

end
