(* ===== verification/Work_Queue.thy ===== *)
theory Work_Queue
  imports Work_Loop
begin

text \<open>
  The workload queue (\<open>src/ficc/workloads/queue.py\<close>): the operations by which a principal of a
  project submits, lists, cancels, retries, releases, removes and abandons jobs and reads their
  output, each under the principal's current authority; with the batch submission and the
  suspension switch of \<open>routes.py\<close> and the release guard of \<open>artifacts.py\<close>. The registries of data,
  the publications and the external identity provider are arguments. A transaction of the code is
  one operation on the records; an await takes what others did to the controller meanwhile.
  Audit rows keep action, target, outcome and actor.
\<close>

section \<open>Surroundings\<close>

text \<open>An output publication: the job it belongs to, and what its items still need.\<close>

record publication_item =
  pi_state :: string
  pi_dataset_request :: bool
  pi_dataset :: bool
  pi_dataset_cancelled :: bool

record publication =
  pu_job_id :: "string option"
  pu_items :: "publication_item list"

definition pending_dataset :: "publication_item \<Rightarrow> bool" where
  "pending_dataset x \<longleftrightarrow> pi_dataset_request x \<and> \<not> pi_dataset x \<and> \<not> pi_dataset_cancelled x"

definition item_blocks :: "bool \<Rightarrow> publication_item \<Rightarrow> bool" where
  "item_blocks removing x \<longleftrightarrow> pi_state x \<notin> {''succeeded'', ''cancelled''} \<or> removing \<and> pending_dataset x \<and> pi_state x \<noteq> ''cancelled''"

definition require_releasable :: "publication list \<Rightarrow> string \<Rightarrow> bool \<Rightarrow> unit res" where
  "require_releasable ops i removing =
     ensure (\<not> list_ex (\<lambda>p. pu_job_id p = Some i \<and> list_ex (item_blocks removing) (pu_items p)) ops) (Failure ''output_publication_active'' 409)"

text \<open>What the queue reads of its surroundings; the argument numbers the readings of one operation.\<close>

record queue_world =
  qw_external :: "(string \<Rightarrow> string \<Rightarrow> unit res) option"
  qw_registries :: "nat \<Rightarrow> registries"
  qw_publications :: "nat \<Rightarrow> publication list"
  qw_live :: "unit res"

text \<open>The delivery of an audit record before an operation: an await that may fail.\<close>

record 'p audit_delivery =
  dl_result :: "unit res"
  dl_others :: "'p controller \<Rightarrow> 'p controller"

definition audit_required :: "'p audit_delivery \<Rightarrow> ('p, unit) ctl_op" where
  "audit_required dl s = (dl_others dl s, dl_result dl)"

definition with_policies :: "(directory \<Rightarrow> database \<Rightarrow> policies \<Rightarrow> policies \<times> 'a res) \<Rightarrow> ('p, 'a) ctl_op" where
  "with_policies f s = (case f (ct_directory s) (co_db (ct_contributors s)) (ct_policies s) of (po, r) \<Rightarrow> (s\<lparr>ct_policies := po\<rparr>, r))"

section \<open>Authority of the caller\<close>

definition caller_bound :: "auth_principal \<Rightarrow> auth_principal \<Rightarrow> bool" where
  "caller_bound actor c \<longleftrightarrow> pr_project_id c = pr_project_id actor \<and> pr_node_ids c = None \<and> pr_root_ids c = None"

definition queue_actor :: "queue_world \<Rightarrow> readings \<Rightarrow> auth_principal \<Rightarrow> string \<Rightarrow> ('p, auth_principal) ctl_op" where
  "queue_actor q rg actor scope =
     ctl_bind (ctl_lift (\<lambda>s. auth_current (qw_external q) (rg_clk rg 0) (pr_id actor) (ct_directory s))) (\<lambda>c.
     ctl_bind (with_policies (\<lambda>d db. require (Some (policies_check (rg_world rg) (qw_external q) (\<lambda>n. rg_clk rg (1 + n)) d)) c scope None None)) (\<lambda>_.
     ctl_lift (\<lambda>_. bindr (ensure (caller_bound actor c) (Failure ''denied'' 403)) (\<lambda>_. Inr c))))"

definition owned :: "queue_world \<Rightarrow> readings \<Rightarrow> string \<Rightarrow> auth_principal \<Rightarrow> string \<Rightarrow> ('p, job_record) ctl_op" where
  "owned q rg i actor scope =
     ctl_bind (queue_actor q rg actor scope) (\<lambda>c.
     ctl_bind (ctl_lift (\<lambda>s. get_job (ct_store s) i)) (\<lambda>job.
     ctl_lift (\<lambda>_. bindr (ensure (rec_project_id job = pr_project_id c) (Failure ''not_found'' 404)) (\<lambda>_. Inr job))))"

section \<open>Views\<close>

record attempt_view =
  av_id :: string
  av_node_id :: string
  av_generation :: int
  av_state :: wstate
  av_lease_expires_at :: rat
  av_input_progress :: "(int \<times> int) option"
  av_observed :: "attempt_result option"
  av_outcome :: "attempt_result option"

record job_view =
  jv_id :: string
  jv_project_id :: string
  jv_subject_id :: string
  jv_actor :: string
  jv_request :: submission
  jv_state :: wstate
  jv_reason :: "string option"
  jv_generation :: int
  jv_cancelled :: bool
  jv_revision :: int
  jv_created_at :: rat
  jv_updated_at :: rat
  jv_attempt :: "attempt_view option"

definition attempt_view_of :: "wattempt \<Rightarrow> 'p controller \<Rightarrow> attempt_view" where
  "attempt_view_of a s =
     \<lparr>av_id = wa_id a, av_node_id = wa_node_id a, av_generation = plan_generation (wa_plan a), av_state = wa_state a,
      av_lease_expires_at = ren_expires_at (wa_lease a),
      av_input_progress = Option.bind (map_of (cm_observed (ct_commands s)) (wa_id a)) ob_inputs,
      av_observed = wa_observed a, av_outcome = wa_outcome a\<rparr>"

definition job_view_of :: "job_record \<Rightarrow> attempt_view option \<Rightarrow> job_view" where
  "job_view_of job a =
     \<lparr>jv_id = rec_id job, jv_project_id = rec_project_id job, jv_subject_id = rec_subject_id job, jv_actor = rec_actor job,
      jv_request = rec_request job, jv_state = rec_state job, jv_reason = rec_reason job, jv_generation = rec_generation job,
      jv_cancelled = rec_cancelled job, jv_revision = rec_revision job, jv_created_at = rec_created_at job,
      jv_updated_at = rec_updated_at job, jv_attempt = a\<rparr>"

definition view_job :: "'p controller \<Rightarrow> job_record \<Rightarrow> job_view res" where
  "view_job s job =
     (case rec_current_attempt job of
        None \<Rightarrow> Inr (job_view_of job None)
      | Some c \<Rightarrow> bindr (get_attempt (ct_store s) c) (\<lambda>a. Inr (job_view_of job (Some (attempt_view_of a s)))))"

definition queue_view :: "job_record \<Rightarrow> ('p, job_view) ctl_op" where
  "queue_view job = ctl_lift (\<lambda>s. view_job s job)"

definition queue_get :: "queue_world \<Rightarrow> readings \<Rightarrow> string \<Rightarrow> auth_principal \<Rightarrow> ('p, job_view) ctl_op" where
  "queue_get q rg i actor = ctl_bind (owned q rg i actor ''jobs:read'') queue_view"

fun view_jobs :: "'p controller \<Rightarrow> job_record list \<Rightarrow> job_view list res" where
  "view_jobs s [] = Inr []"
| "view_jobs s (j # js) = bindr (view_job s j) (\<lambda>v. bindr (view_jobs s js) (\<lambda>vs. Inr (v # vs)))"

record queue_report =
  qr_workloads :: "job_view list"
  qr_usage :: usage
  qr_configured :: bool
  qr_suspended :: bool
  qr_scheduler_error :: bool

definition queue_all :: "queue_world \<Rightarrow> readings \<Rightarrow> auth_principal \<Rightarrow> ('p, queue_report) ctl_op" where
  "queue_all q rg actor =
     ctl_bind (queue_actor q rg actor ''jobs:read'') (\<lambda>c.
     ctl_lift (\<lambda>s. bindr (view_jobs s (list_jobs (ct_store s) (Some (pr_project_id c)))) (\<lambda>vs.
       Inr \<lparr>qr_workloads = vs, qr_usage = report (ct_store s) (pr_project_id c), qr_configured = ct_scheduler s \<noteq> None,
            qr_suspended = suspended s, qr_scheduler_error = rn_failed (ct_runner s)\<rparr>)))"

record offer_view =
  ov_observation :: node_observation
  ov_available :: bool
  ov_reason :: "string option"

definition offered :: "string \<Rightarrow> node_observation \<Rightarrow> node_observation" where
  "offered project x =
     (let n = no_snapshot x; o' = sn_offer n
      in x\<lparr>no_snapshot := n\<lparr>sn_offer := o'\<lparr>off_projects := filter (\<lambda>p. p = project) (off_projects o')\<rparr>\<rparr>\<rparr>)"

fun offer_views :: "contributor_settings \<Rightarrow> readings \<Rightarrow> string \<Rightarrow> 'p controller \<Rightarrow> node_observation list \<Rightarrow> offer_view list res" where
  "offer_views cfg rg project s [] = Inr []"
| "offer_views cfg rg project s (x # xs) =
     (let i = sn_node_id (no_snapshot x) in
      bindr (available cfg rg i s) (\<lambda>ok.
      bindr (offer_views cfg rg project s xs) (\<lambda>vs.
      Inr (\<lparr>ov_observation = offered project x, ov_available = ok, ov_reason = map_of (rn_errors (ct_runner s)) i\<rparr> # vs))))"

definition queue_offers :: "contributor_settings \<Rightarrow> queue_world \<Rightarrow> readings \<Rightarrow> auth_principal \<Rightarrow> ('p, offer_view list) ctl_op" where
  "queue_offers cfg q rg actor =
     ctl_bind (queue_actor q rg actor ''contributors:read'') (\<lambda>c.
     ctl_lift (\<lambda>s.
       let allowed = map cn_id (filter (\<lambda>n. cn_project_id n = pr_project_id c \<and> \<not> cn_disabled n) (db_nodes (co_db (ct_contributors s))))
       in offer_views cfg rg (pr_project_id c) s (filter (\<lambda>x. sn_node_id (no_snapshot x) \<in> set allowed) (all_nodes (ct_store s)))))"

section \<open>Decisions about a job\<close>

definition queue_audit :: "string \<Rightarrow> string \<Rightarrow> auth_principal \<Rightarrow> ('p, unit) ctl_op" where
  "queue_audit action target actor = with_store (\<lambda>s.
     Inr (s\<lparr>ws_audit := ws_audit s @ [\<lparr>au_action = action, au_target = target, au_outcome = ''success'', au_actor = pr_id actor\<rparr>]\<rparr>, ()))"

definition queue_capture :: "queue_world \<Rightarrow> readings \<Rightarrow> auth_principal \<Rightarrow> submission \<Rightarrow> ('p, delegation) ctl_op" where
  "queue_capture q rg actor request =
     with_policies (\<lambda>d db. capture (rg_world rg) (qw_external q) (rg_clk rg) (rg_token rg) (pr_id actor) request d db)"

definition queue_bind :: "queue_world \<Rightarrow> nat \<Rightarrow> submission \<Rightarrow> delegation \<Rightarrow> ('p, submission) ctl_op" where
  "queue_bind q k request dele = ctl_lift (\<lambda>s. bind_inputs (qw_registries q k) request dele (ct_directory s))"

definition queue_submit :: "queue_world \<Rightarrow> 'p audit_delivery \<Rightarrow> (nat \<Rightarrow> readings) \<Rightarrow> submission \<Rightarrow> string \<Rightarrow> auth_principal \<Rightarrow> ('p, job_view) ctl_op" where
  "queue_submit q dl rg request key actor =
     ctl_bind (ctl_lift (\<lambda>_. qw_live q)) (\<lambda>_.
     ctl_bind (ctl_lift (\<lambda>s. ensure (ct_scheduler s \<noteq> None) (Failure ''scheduler_unavailable'' 409))) (\<lambda>_.
     ctl_bind (ctl_lift (\<lambda>s. ensure (\<not> suspended s) (Failure ''workloads_suspended'' 409))) (\<lambda>_.
     ctl_bind (queue_capture q (rg 0) actor request) (\<lambda>d0.
     ctl_bind (queue_bind q 0 request d0) (\<lambda>bound0.
     ctl_bind (audit_required dl) (\<lambda>_.
     ctl_bind (queue_capture q (rg 1) actor bound0) (\<lambda>dele.
     ctl_bind (queue_bind q 1 bound0 dele) (\<lambda>bound1.
     ctl_bind (with_store (submit_job (rg_clk (rg 2)) (rg_token (rg 2)) bound1 key dele)) (\<lambda>job.
     ctl_bind (queue_audit ''workload.submit'' (rec_id job) actor) (\<lambda>_.
     queue_view job))))))))))"

text \<open>The batch of \<open>routes.py\<close>: every item has its own result; other exceptions end the request.\<close>

fun submit_batch :: "queue_world \<Rightarrow> (nat \<Rightarrow> 'p audit_delivery) \<Rightarrow> (nat \<Rightarrow> nat \<Rightarrow> readings) \<Rightarrow> auth_principal \<Rightarrow> (string \<times> submission) list
    \<Rightarrow> ('p, (string \<times> (string + job_view)) list) ctl_op" where
  "submit_batch q dl rg actor [] s = (s, Inr [])"
| "submit_batch q dl rg actor ((key, request) # items) s =
     (let rest = submit_batch q (\<lambda>k. dl (Suc k)) (\<lambda>k. rg (Suc k)) actor items;
          andthen = (\<lambda>x. ctl_bind rest (\<lambda>xs. ctl_lift (\<lambda>_. Inr ((key, x) # xs))))
      in case queue_submit q (dl 0) (rg 0) request key actor s of
        (s1, Inr v) \<Rightarrow> andthen (Inr v) s1
      | (s1, Inl (Failure code _)) \<Rightarrow> andthen (Inl code) s1
      | (s1, Inl e) \<Rightarrow> (s1, Inl e))"

definition queue_cancel :: "queue_world \<Rightarrow> (nat \<Rightarrow> readings) \<Rightarrow> string \<Rightarrow> int \<Rightarrow> auth_principal \<Rightarrow> ('p, job_view) ctl_op" where
  "queue_cancel q rg i revision actor =
     ctl_bind (owned q (rg 0) i actor ''jobs:cancel'') (\<lambda>_.
     ctl_bind (with_store (cancel_job (rg_clk (rg 1)) i revision)) (\<lambda>job.
     ctl_bind (\<lambda>s. (discard_job i s, Inr ())) (\<lambda>_.
     ctl_bind (queue_audit ''workload.cancel'' i actor) (\<lambda>_.
     queue_view job))))"

definition queue_retry :: "queue_world \<Rightarrow> 'p audit_delivery \<Rightarrow> (nat \<Rightarrow> readings) \<Rightarrow> string \<Rightarrow> int \<Rightarrow> auth_principal \<Rightarrow> bool \<Rightarrow> ('p, job_view) ctl_op" where
  "queue_retry q dl rg i revision actor acknowledge_unknown =
     ctl_bind (owned q (rg 0) i actor ''jobs:execute'') (\<lambda>_.
     ctl_bind (audit_required dl) (\<lambda>_.
     ctl_bind (owned q (rg 1) i actor ''jobs:execute'') (\<lambda>job.
     ctl_bind (ctl_lift (\<lambda>_. ensure (rec_subject_id job = pr_subject_id actor) (Failure ''denied'' 403))) (\<lambda>_.
     ctl_bind (queue_capture q (rg 2) actor (rec_request job)) (\<lambda>dele.
     ctl_bind (queue_bind q 0 (rec_request job) dele) (\<lambda>_.
     ctl_bind (with_store (retry_job (rg_clk (rg 3)) i revision dele acknowledge_unknown)) (\<lambda>job1.
     ctl_bind (queue_audit ''workload.retry'' i actor) (\<lambda>_.
     queue_view job1))))))))"

definition queue_remove :: "queue_world \<Rightarrow> readings \<Rightarrow> string \<Rightarrow> int \<Rightarrow> auth_principal \<Rightarrow> ('p, unit) ctl_op" where
  "queue_remove q rg i revision actor =
     ctl_bind (owned q rg i actor ''jobs:cancel'') (\<lambda>_.
     ctl_bind (ctl_lift (\<lambda>_. require_releasable (qw_publications q 0) i True)) (\<lambda>_.
     ctl_bind (with_store (remove_job i revision)) (\<lambda>_.
     queue_audit ''workload.remove'' i actor)))"

definition queue_abandon :: "queue_world \<Rightarrow> (nat \<Rightarrow> readings) \<Rightarrow> string \<Rightarrow> int \<Rightarrow> auth_principal \<Rightarrow> bool \<Rightarrow> ('p, job_view) ctl_op" where
  "queue_abandon q rg i revision actor acknowledge_unknown =
     ctl_bind (ctl_lift (\<lambda>_. ensure acknowledge_unknown (Failure ''acknowledgement_required'' 409))) (\<lambda>_.
     ctl_bind (owned q (rg 0) i actor ''jobs:cancel'') (\<lambda>_.
     ctl_bind (queue_actor q (rg 1) actor ''contributors:manage'') (\<lambda>_.
     ctl_bind (ctl_lift (\<lambda>_. require_releasable (qw_publications q 0) i False)) (\<lambda>_.
     ctl_bind (with_store (abandon_job (rg_clk (rg 2)) i revision)) (\<lambda>job.
     ctl_bind (queue_audit ''workload.abandon'' i actor) (\<lambda>_.
     queue_view job))))))"

section \<open>Release of an output\<close>

text \<open>Holding the lock of a contributor, which an exception gives back as well.\<close>

definition holding_lock :: "string \<Rightarrow> ('p, 'a) ctl_op \<Rightarrow> ('p, 'a) ctl_op" where
  "holding_lock i f s = (case f (lock_node i s) of (t, r) \<Rightarrow> (unlock_node i t, r))"

definition is_locked :: "string \<Rightarrow> 'p controller \<Rightarrow> bool" where
  "is_locked i s \<longleftrightarrow> i \<in> set (rn_locked (ct_runner s))"

definition release_check :: "queue_world \<Rightarrow> (nat \<Rightarrow> readings) \<Rightarrow> string \<Rightarrow> auth_principal \<Rightarrow> wattempt \<Rightarrow> nat \<Rightarrow> ('p, unit) ctl_op" where
  "release_check q rg i actor a k =
     ctl_bind (owned q (rg (2 + k)) i actor ''jobs:cancel'') (\<lambda>job.
     ctl_bind (ctl_lift (\<lambda>_. require_releasable (qw_publications q (1 + k)) i False)) (\<lambda>_.
     ctl_lift (\<lambda>_. ensure (rec_current_attempt job = Some (wa_id a)) (Failure ''attempt_changed'' 409))))"

definition release_locked :: "contributor_settings \<Rightarrow> queue_world \<Rightarrow> 'p await \<Rightarrow> (nat \<Rightarrow> readings) \<Rightarrow> string \<Rightarrow> auth_principal \<Rightarrow> wattempt
    \<Rightarrow> ('p, wattempt list) ctl_op" where
  "release_locked cfg q aw rg i actor a =
     ctl_bind (ctl_lift (require_available cfg (rg 1) (wa_node_id a))) (\<lambda>n.
     send_batch aw (release_check q rg i actor a) (rg 1) n (Some (control_message (rg 1) Act_release [a])) [a])"

definition release_ready :: "job_record \<Rightarrow> int \<Rightarrow> bool" where
  "release_ready job revision \<longleftrightarrow> rec_revision job = revision \<and> rec_state job \<in> terminal \<union> {Unknown} \<and> rec_current_attempt job \<noteq> None"

definition queue_release :: "contributor_settings \<Rightarrow> queue_world \<Rightarrow> 'p await \<Rightarrow> (nat \<Rightarrow> readings) \<Rightarrow> string \<Rightarrow> int \<Rightarrow> auth_principal
    \<Rightarrow> ('p, job_view) ctl_op" where
  "queue_release cfg q aw rg i revision actor =
     ctl_bind (owned q (rg 0) i actor ''jobs:cancel'') (\<lambda>job.
     ctl_bind (ctl_lift (\<lambda>_. ensure (release_ready job revision) (Failure ''workload_unresolved'' 409))) (\<lambda>_.
     ctl_bind (ctl_lift (\<lambda>s. get_attempt (ct_store s) (the (rec_current_attempt job)))) (\<lambda>a.
     ctl_bind (ctl_lift (\<lambda>_. require_releasable (qw_publications q 0) i False)) (\<lambda>_.
     ctl_bind (ctl_lift (\<lambda>_. ensure (wa_state a \<noteq> Abandoned) (Failure ''attempt_abandoned'' 409))) (\<lambda>_.
     if wa_state a = Released then queue_view job
     else
       ctl_bind (ctl_lift (\<lambda>_. ensure (cleaned a) (Failure ''workload_unresolved'' 409))) (\<lambda>_.
       ctl_bind (ctl_lift (\<lambda>s. ensure (\<not> is_locked (wa_node_id a) s) (Failure ''executor_busy'' 409))) (\<lambda>_.
       ctl_bind (holding_lock (wa_node_id a) (release_locked cfg q aw rg i actor a)) (\<lambda>_.
       ctl_bind (queue_audit ''workload.release'' i actor) (\<lambda>_.
       ctl_bind (owned q (rg 4) i actor ''jobs:cancel'') queue_view)))))))))"

section \<open>Reading an output\<close>

record output_read =
  od_object :: string
  od_offset :: int
  od_length :: int

definition READERS :: nat where
  "READERS = 8"

definition collect_message :: "readings \<Rightarrow> wattempt \<Rightarrow> output_read list \<Rightarrow> message" where
  "collect_message rg a reads = Collect (runner_request rg)
     (map (\<lambda>x. \<lparr>f_attempt_id = wa_id a, f_generation = plan_generation (wa_plan a), f_plan_digest = digest_of_plan (wa_plan a),
       rd_object = od_object x, rd_offset = od_offset x, rd_length = od_length x\<rparr>) reads)"

definition bad_output :: exn where
  "bad_output = Failure ''executor_response'' 502"

definition range_ok :: "output_read \<Rightarrow> read_result \<Rightarrow> int \<Rightarrow> bool" where
  "range_ok x r m \<longleftrightarrow> \<not> (m > od_length x \<or> rr_next_offset r \<noteq> rr_offset r + m \<or> rr_next_offset r > rr_total_bytes r \<or>
     rr_eof r \<noteq> (rr_next_offset r = rr_total_bytes r))"

fun collected_row :: "wattempt \<Rightarrow> output_read \<Rightarrow> reply_row \<Rightarrow> read_result res" where
  "collected_row a x (ReadResult f r) =
     (if f \<noteq> fence_of_attempt a \<or> rr_object r \<noteq> od_object x \<or> rr_offset r \<noteq> od_offset x then Inl bad_output
      else case b64decode (rr_data r) of
        None \<Rightarrow> Inl bad_output
      | Some bytes \<Rightarrow> if range_ok x r (int (length bytes)) then Inr r else Inl bad_output)"
| "collected_row a x _ = Inl bad_output"

fun collected_rows :: "wattempt \<Rightarrow> output_read list \<Rightarrow> reply_row list \<Rightarrow> read_result list res" where
  "collected_rows a (x # xs) (r # rs) = bindr (collected_row a x r) (\<lambda>v. bindr (collected_rows a xs rs) (\<lambda>vs. Inr (v # vs)))"
| "collected_rows a _ _ = Inr []"

fun collected :: "wattempt \<Rightarrow> output_read list \<Rightarrow> reply \<Rightarrow> read_result list res" where
  "collected a reads (BatchReply h rows) = (if length rows \<noteq> length reads then Inl bad_output else collected_rows a reads rows)"
| "collected a reads _ = Inl bad_output"

definition collect_check :: "queue_world \<Rightarrow> (nat \<Rightarrow> readings) \<Rightarrow> string \<Rightarrow> auth_principal \<Rightarrow> wattempt \<Rightarrow> nat \<Rightarrow> ('p, unit) ctl_op" where
  "collect_check q rg i actor a k =
     ctl_bind (owned q (rg (2 + k)) i actor ''jobs:logs'') (\<lambda>job.
     ctl_lift (\<lambda>_. ensure (rec_current_attempt job = Some (wa_id a)) (Failure ''attempt_changed'' 409)))"

definition reading_output :: "('p, 'a) ctl_op \<Rightarrow> ('p, 'a) ctl_op" where
  "reading_output f s = (case f (s\<lparr>ct_readers := Suc (ct_readers s)\<rparr>) of (t, r) \<Rightarrow> (t\<lparr>ct_readers := ct_readers t - 1\<rparr>, r))"

definition collect_locked :: "queue_world \<Rightarrow> 'p await \<Rightarrow> (nat \<Rightarrow> readings) \<Rightarrow> string \<Rightarrow> auth_principal \<Rightarrow> wattempt \<Rightarrow> output_read list
    \<Rightarrow> ('p, string \<times> read_result list) ctl_op" where
  "collect_locked q aw rg i actor a reads =
     ctl_bind (channel_request aw (collect_check q rg i actor a) (collect_message (rg 1) a reads)) (\<lambda>r.
     ctl_bind (ctl_lift (\<lambda>_. collected a reads r)) (\<lambda>rows.
     ctl_bind (collect_check q rg i actor a 2) (\<lambda>_.
     ctl_lift (\<lambda>_. Inr (wa_id a, rows)))))"

definition queue_collect :: "queue_world \<Rightarrow> 'p await \<Rightarrow> (nat \<Rightarrow> readings) \<Rightarrow> string \<Rightarrow> output_read list \<Rightarrow> auth_principal
    \<Rightarrow> ('p, string \<times> read_result list) ctl_op" where
  "queue_collect q aw rg i reads actor =
     ctl_bind (owned q (rg 0) i actor ''jobs:logs'') (\<lambda>job.
     ctl_bind (ctl_lift (\<lambda>s. case rec_current_attempt job of None \<Rightarrow> Inl (Failure ''output_unavailable'' 409) | Some c \<Rightarrow> get_attempt (ct_store s) c)) (\<lambda>a.
     ctl_bind (ctl_lift (\<lambda>_. ensure (wa_state a \<notin> {Released, Abandoned}) (Failure ''output_released'' 409))) (\<lambda>_.
     ctl_bind (ctl_lift (\<lambda>_. ensure (valid_message (collect_message (rg 1) a reads)) ValueError)) (\<lambda>_.
     ctl_bind (ctl_lift (\<lambda>s. ensure (\<not> (ct_readers s \<ge> READERS \<or> is_locked (wa_node_id a) s)) (Failure ''executor_busy'' 409))) (\<lambda>_.
     reading_output (holding_lock (wa_node_id a) (collect_locked q aw rg i actor a reads)))))))"

section \<open>Suspension and shutdown\<close>

definition set_suspended :: "bool \<Rightarrow> auth_principal \<Rightarrow> ('p, bool) ctl_op" where
  "set_suspended b actor =
     ctl_bind (ctl_lift (\<lambda>_. ensure (local_owner actor) (Failure ''denied'' 403))) (\<lambda>_.
     ctl_bind (with_store (\<lambda>s. Inr (s\<lparr>ws_suspended := b\<rparr>, ()))) (\<lambda>_.
     ctl_bind (queue_audit ''workload.suspension'' (if b then ''true'' else ''false'') actor) (\<lambda>_.
     ctl_lift (\<lambda>s. Inr (suspended s)))))"

definition queue_close :: "'p controller \<Rightarrow> channel \<Rightarrow> 'p controller \<times> channel" where
  "queue_close s ch = (inputs_stop s, channel_close ch)"

end
