(* ===== verification/Work_Queue_Props.thy ===== *)
theory Work_Queue_Props
  imports Work_Queue Work_Loop_Props
begin

text \<open>
  Properties of the workload queue. Its operations change the stored records only by transactions
  of the records (\<open>queue_client\<close>, an extension of the runner's interface); they act only for a
  caller whose current credential holds the scope and belongs to the project of the job; and what
  belongs to other projects stays as it is.
\<close>

section \<open>Requests\<close>

datatype queue_request =
    Do_submit submission string
  | Do_cancel string int
  | Do_retry string int bool
  | Do_release string int
  | Do_remove string int
  | Do_abandon string int bool
  | Do_collect string "output_read list"

definition unit_op :: "('p, 'a) ctl_op \<Rightarrow> ('p, unit) ctl_op" where
  "unit_op f = ctl_bind f (\<lambda>_. ctl_lift (\<lambda>_. Inr ()))"

text \<open>Any operation of the queue, without the value it returns.\<close>

fun perform :: "contributor_settings \<Rightarrow> queue_world \<Rightarrow> 'p audit_delivery \<Rightarrow> 'p await \<Rightarrow> (nat \<Rightarrow> readings) \<Rightarrow> auth_principal \<Rightarrow> queue_request
    \<Rightarrow> ('p, unit) ctl_op" where
  "perform cfg q dl aw rg actor (Do_submit request key) = unit_op (queue_submit q dl rg request key actor)"
| "perform cfg q dl aw rg actor (Do_cancel i revision) = unit_op (queue_cancel q rg i revision actor)"
| "perform cfg q dl aw rg actor (Do_retry i revision ack) = unit_op (queue_retry q dl rg i revision actor ack)"
| "perform cfg q dl aw rg actor (Do_release i revision) = unit_op (queue_release cfg q aw rg i revision actor)"
| "perform cfg q dl aw rg actor (Do_remove i revision) = unit_op (queue_remove q (rg 0) i revision actor)"
| "perform cfg q dl aw rg actor (Do_abandon i revision ack) = unit_op (queue_abandon q rg i revision actor ack)"
| "perform cfg q dl aw rg actor (Do_collect i reads) = unit_op (queue_collect q aw rg i reads actor)"

section \<open>Operations of any client of the records\<close>

context store_preorder
begin

lemma keeps_unit: "keeps f \<Longrightarrow> keeps (unit_op f)"
  unfolding unit_op_def by (intro keeps_bind keeps_lift)

lemma keeps_policies: "keeps (with_policies f)"
  by (rule keeps_same) (simp add: with_policies_def split: prod.split)

lemma keeps_queue_actor: "keeps (queue_actor q rg actor scope)"
  unfolding queue_actor_def by (intro keeps_bind keeps_lift keeps_policies)

lemma keeps_owned: "keeps (owned q rg i actor scope)"
  unfolding owned_def by (intro keeps_bind keeps_lift keeps_queue_actor)

lemma keeps_queue_view: "keeps (queue_view job)"
  unfolding queue_view_def by (rule keeps_lift)

lemma keeps_queue_audit: "keeps (queue_audit action target actor)"
  unfolding queue_audit_def by (rule keeps_store) (auto simp: R_audit)

lemma keeps_queue_capture: "keeps (queue_capture q rg actor request)"
  unfolding queue_capture_def by (rule keeps_policies)

lemma keeps_queue_bind: "keeps (queue_bind q k request dele)"
  unfolding queue_bind_def by (rule keeps_lift)

lemma keeps_delivery: "tame R (dl_others dl) \<Longrightarrow> keeps (audit_required dl)"
  by (simp add: keeps_def tame_def audit_required_def)

lemma keeps_discard_job: "keeps (\<lambda>s. (discard_job i s, Inr ()))"
  by (rule keeps_same) simp

lemma keeps_holding: "keeps f \<Longrightarrow> keeps (holding_lock i f)"
  by (rule keepsI) (fastforce simp: holding_lock_def split: prod.splits dest: keepsD)

lemma keeps_reading: "keeps f \<Longrightarrow> keeps (reading_output f)"
  by (rule keepsI) (fastforce simp: reading_output_def split: prod.splits dest: keepsD)

lemmas keeps_queue = keeps_unit keeps_bind keeps_lift keeps_queue_actor keeps_owned keeps_queue_view keeps_queue_audit keeps_queue_capture
  keeps_queue_bind keeps_delivery keeps_discard_job keeps_holding keeps_reading keeps_if

lemma keeps_release_check: "keeps (release_check q rg i actor a k)"
  unfolding release_check_def by (intro keeps_queue)

lemma keeps_collect_check: "keeps (collect_check q rg i actor a k)"
  unfolding collect_check_def by (intro keeps_queue)

lemma keeps_collect: "tame R (aw_others aw) \<Longrightarrow> keeps (queue_collect q aw rg i reads actor)"
  unfolding queue_collect_def collect_locked_def by (intro keeps_queue keeps_channel_request keeps_collect_check)

end

section \<open>The queue implements the records\<close>

locale queue_client = records_client +
  assumes R_submit: "submit_job clk token request key dele s = Inr (t, v) \<Longrightarrow> R s t"
    and R_retry: "retry_job clk i revision dele ack s = Inr (t, v) \<Longrightarrow> R s t"
    and R_abandon: "abandon_job clk i revision s = Inr (t, v) \<Longrightarrow> R s t"
    and R_remove: "remove_job i revision s = Inr (t, u) \<Longrightarrow> R s t"
    and R_control: "R s (s\<lparr>ws_suspended := b\<rparr>)"
begin

lemma perform_keeps:
  assumes "tame R (dl_others dl)" and "tame R (aw_others aw)"
  shows "keeps (perform cfg q dl aw rg actor request)"
proof (cases request)
  case (Do_submit r key)
  show ?thesis unfolding Do_submit perform.simps queue_submit_def by (intro keeps_queue keeps_store R_submit assms)
next
  case (Do_cancel i revision)
  show ?thesis unfolding Do_cancel perform.simps queue_cancel_def by (intro keeps_queue keeps_store R_cancel)
next
  case (Do_retry i revision ack)
  show ?thesis unfolding Do_retry perform.simps queue_retry_def by (intro keeps_queue keeps_store R_retry assms)
next
  case (Do_release i revision)
  show ?thesis unfolding Do_release perform.simps queue_release_def release_locked_def
    by (intro keeps_queue keeps_send_batch keeps_release_check assms)
next
  case (Do_remove i revision)
  show ?thesis unfolding Do_remove perform.simps queue_remove_def by (intro keeps_queue keeps_store R_remove)
next
  case (Do_abandon i revision ack)
  show ?thesis unfolding Do_abandon perform.simps queue_abandon_def by (intro keeps_queue keeps_store R_abandon)
next
  case (Do_collect i reads)
  show ?thesis unfolding Do_collect perform.simps by (intro keeps_unit keeps_collect assms)
qed

lemma set_suspended_keeps: "keeps (set_suspended b actor)"
  unfolding set_suspended_def by (intro keeps_queue keeps_store) (auto simp: R_control)

end

interpretation queue_steps: queue_client "work_step\<^sup>*\<^sup>*"
  by unfold_locales (auto intro: work_step.intros)

section \<open>Projects are isolated\<close>

text \<open>What a store holds of projects other than \<open>p\<close>.\<close>

definition foreign_jobs :: "string \<Rightarrow> work_store \<Rightarrow> string \<rightharpoonup> job_record" where
  "foreign_jobs p s i = (case job_at s i of None \<Rightarrow> None | Some j \<Rightarrow> if rec_project_id j = p then None else Some j)"

definition foreign_attempts :: "string \<Rightarrow> work_store \<Rightarrow> string \<rightharpoonup> wattempt" where
  "foreign_attempts p s i = (case attempt_at s i of None \<Rightarrow> None | Some a \<Rightarrow> if plan_project_id (wa_plan a) = p then None else Some a)"

definition outside :: "string \<Rightarrow> work_store \<Rightarrow> (string \<rightharpoonup> job_record) \<times> (string \<rightharpoonup> wattempt)" where
  "outside p s = (foreign_jobs p s, foreign_attempts p s)"

definition view_kept :: "string \<Rightarrow> (string \<rightharpoonup> job_record) \<times> (string \<rightharpoonup> wattempt) \<Rightarrow> work_store \<Rightarrow> work_store \<Rightarrow> bool" where
  "view_kept p F s t \<longleftrightarrow> (work_inv s \<and> outside p s = F \<longrightarrow> work_inv t \<and> outside p t = F)"

lemma view_keptI:
  "(work_inv s \<Longrightarrow> outside p s = F \<Longrightarrow> work_inv t) \<Longrightarrow> (work_inv s \<Longrightarrow> outside p s = F \<Longrightarrow> outside p t = F) \<Longrightarrow> view_kept p F s t"
  by (simp add: view_kept_def)

lemma outside_cong: "job_at t = job_at s \<Longrightarrow> attempt_at t = attempt_at s \<Longrightarrow> outside p t = outside p s"
  by (simp add: outside_def foreign_jobs_def [abs_def] foreign_attempts_def [abs_def])

lemma outside_put_job:
  "job_at s (rec_id v) = Some j \<Longrightarrow> rec_project_id j = p \<Longrightarrow> rec_project_id v = p \<Longrightarrow> outside p (put_job v s) = outside p s"
  by (auto simp: outside_def foreign_jobs_def foreign_attempts_def fun_eq_iff put_job_at)

lemma outside_put_attempt:
  "attempt_at s (wa_id a) = Some b \<Longrightarrow> plan_project_id (wa_plan b) = p \<Longrightarrow> plan_project_id (wa_plan a) = p \<Longrightarrow>
    outside p (put_attempt a s) = outside p s"
  by (auto simp: outside_def foreign_jobs_def foreign_attempts_def fun_eq_iff put_attempt_at)

lemma outside_save_job:
  assumes "save_job now v s = Inr (t, w)" and "job_at s (rec_id v) = Some j" and "rec_project_id j = p" and "rec_project_id v = p"
  shows "outside p t = outside p s"
proof -
  note d = save_jobD [OF assms(1)]
  show ?thesis unfolding d(1) by (rule outside_put_job [of _ _ j]) (use assms d(3) in simp_all)
qed

lemma outside_save_attempt:
  assumes "save_attempt now a s = Inr (t, w)" and "attempt_at s (wa_id a) = Some b" and "plan_project_id (wa_plan b) = p"
    and "plan_project_id (wa_plan a) = p"
  shows "outside p t = outside p s"
proof -
  note d = save_attemptD [OF assms(1)]
  show ?thesis unfolding d(1) by (rule outside_put_attempt [of _ _ b]) (use assms d(3) in simp_all)
qed

lemma not_foreign_job: "fst (outside p s) i = None \<Longrightarrow> job_at s i = Some j \<Longrightarrow> rec_project_id j = p"
  by (simp add: outside_def foreign_jobs_def split: if_splits)

lemma not_foreign_attempt:
  assumes "work_inv s" and "snd (outside p s) i = None" and "attempt_at s i = Some a" and "job_at s (wa_job_id a) = Some j"
  shows "plan_project_id (wa_plan a) = p" "rec_project_id j = p"
proof -
  show 1: "plan_project_id (wa_plan a) = p" using assms(2,3) by (simp add: outside_def foreign_attempts_def split: if_splits)
  have "attempt_of a j" using attempt_at_job [OF assms(1,3)] assms(4) by simp
  with 1 show "rec_project_id j = p" by (simp add: attempt_of_def)
qed

lemma current_not_foreign:
  assumes "work_inv s" and "job_at s i = Some j" and "rec_project_id j = p" and "rec_current_attempt j = Some c"
  shows "snd (outside p s) c = None"
proof -
  have "current_ok s j" using assms(1,2) by (simp add: work_inv_def chains_ok_def)
  then obtain a where a: "attempt_at s c = Some a" "wa_job_id a = rec_id j" using assms(4) by (auto simp: current_ok_def)
  have "rec_id j = i" using job_at_ok [OF assms(1,2)] by simp
  with attempt_at_job [OF assms(1) a(1)] a(2) assms(2,3) show ?thesis
    using a(1) by (auto simp: outside_def foreign_attempts_def attempt_of_def)
qed

lemma view_observe:
  assumes "observe_attempt clk r node inst s = Inr (t, c)" and "valid_attempt_result r" and "snd F (f_attempt_id r) = None"
  shows "view_kept p F s t"
proof (rule view_keptI)
  assume inv: "work_inv s" and F: "outside p s = F"
  from assms(1) have "outside p t = F"
  proof (cases rule: observe_cases)
    case (2 a job b s1 j s2)
    note a = not_foreign_attempt [OF inv assms(3) [folded F] 2(1,3)]
    have b: "wa_id b = wa_id a" "wa_plan b = wa_plan a" using observed_attemptD(1) [OF 2(5)] by (simp_all add: same_attempt_def)
    have ids: "rec_id job = wa_job_id a" "wa_id a = f_attempt_id r" using job_at_ok [OF inv 2(3)] attempt_at_ok [OF inv 2(1)] by simp_all
    have s1: "outside p s1 = F"
    proof (cases "s1 = s")
      case False
      then have "save_job (clk 0) (job\<lparr>rec_state := res_state r, rec_reason := res_reason r\<rparr>) s = Inr (s1, j)"
        using 2(6) by (auto simp: observe_job_def split: if_splits)
      from outside_save_job [OF this] show ?thesis using 2(3) ids a(2) F by simp
    qed (simp add: F)
    have "attempt_at s1 = attempt_at s" using 2(6) by (auto simp: observe_job_def split: if_splits dest!: save_jobD(1))
    then have "outside p s2 = F" using outside_save_attempt [OF 2(7), of a p] 2(1) a(1) b ids s1 by simp
    moreover have "job_at t = job_at s2" "attempt_at t = attempt_at s2" using 2(8,9) by (simp_all add: job_at_def attempt_at_def fun_eq_iff)
    ultimately show ?thesis using outside_cong by metis
  qed (simp add: F)
  then show "outside p t = F" .
  show "work_inv t" by (rule observe_inv [OF inv assms(2,1)])
qed

lemma view_transition:
  assumes "transition_attempt clk i expected state reason s = Inr (t, b)" and "snd F i = None"
  shows "view_kept p F s t"
proof (rule view_keptI)
  assume inv: "work_inv s" and F: "outside p s = F"
  from assms(1) have "outside p t = F"
  proof (cases rule: transition_cases)
    case (1 a job s1 s2 j)
    note a = not_foreign_attempt [OF inv assms(2) [folded F] 1(1,2)]
    have ids: "rec_id job = wa_job_id a" "wa_id a = i" using job_at_ok [OF inv 1(2)] attempt_at_ok [OF inv 1(1)] by simp_all
    have "outside p s1 = F" using outside_save_attempt [OF 1(6), of a p] 1(1) a(1) ids F by simp
    moreover have "job_at s1 = job_at s" by (rule kept_attempt [OF 1(6)])
    ultimately have "outside p s2 = F" using outside_save_job [OF 1(7), of job p] 1(2) ids a(2) by simp
    then show ?thesis using outside_cong [of t s2 p] 1(8) by simp
  qed
  then show "outside p t = F" .
  show "work_inv t" by (rule transition_inv [OF inv assms(1)])
qed

lemma view_job_save:
  assumes "work_inv s" and "job_at s i = Some j" and "fst F i = None" and "outside p s = F"
    and "save_job now v s = Inr (t, w)" and "rec_id v = rec_id j" and "rec_project_id v = rec_project_id j"
  shows "outside p t = F"
proof -
  have "rec_project_id j = p" using not_foreign_job assms(2-4) by blast
  moreover have "rec_id j = i" using job_at_ok [OF assms(1,2)] by simp
  ultimately show ?thesis using outside_save_job [OF assms(5)] assms(2,4,6,7) by metis
qed

lemma view_cancel:
  assumes c: "cancel_job clk i revision s = Inr (t, w)" and F: "fst F i = None"
  shows "view_kept p F s t"
proof (rule view_keptI)
  assume s: "work_inv s" "outside p s = F"
  then show "work_inv t" using cancel_inv c by blast
  show "outside p t = F" using c s F by (auto simp: cancel_job_def bindr_Inr get_Inr split: if_splits elim!: view_job_save)
qed

lemma view_retry:
  assumes r: "retry_job clk i revision dele ack s = Inr (t, w)" and F: "fst F i = None"
  shows "view_kept p F s t"
proof (rule view_keptI)
  assume s: "work_inv s" "outside p s = F"
  then show "work_inv t" using retry_inv r by blast
  from r show "outside p t = F" using s F by (cases rule: retry_cases) (auto elim!: view_job_save)
qed

lemma view_abandon:
  assumes "abandon_job clk i revision s = Inr (t, w)" and "fst F i = None"
  shows "view_kept p F s t"
proof (rule view_keptI)
  assume inv: "work_inv s" and F: "outside p s = F"
  from assms(1) have "outside p t = F"
  proof (cases rule: abandon_cases)
    case (1 job c a b s1)
    have p: "rec_project_id job = p" using not_foreign_job 1(1) assms(2) F by blast
    have ids: "rec_id job = i" "wa_id a = c" using job_at_ok [OF inv 1(1)] attempt_at_ok [OF inv 1(4)] by simp_all
    have "plan_project_id (wa_plan a) = p"
      using current_not_foreign [OF inv 1(1) p 1(3)] 1(4) by (simp add: outside_def foreign_attempts_def split: if_splits)
    then have "outside p s1 = F" using outside_save_attempt [OF 1(7), of a p] 1(4) ids F by simp
    moreover have "job_at s1 = job_at s" by (rule kept_attempt [OF 1(7)])
    ultimately show ?thesis using outside_save_job [OF 1(8), of job p] 1(1) ids p by simp
  qed
  then show "outside p t = F" .
  show "work_inv t" by (rule abandon_inv [OF inv assms(1)])
qed

lemma view_remove:
  assumes "remove_job i revision s = Inr (t, u)" and "fst F i = None"
  shows "view_kept p F s t"
proof (rule view_keptI)
  assume inv: "work_inv s" and F: "outside p s = F"
  note at = remove_at [OF inv assms(1)]
  have p: "rec_project_id j = p" if "job_at s i = Some j" for j using not_foreign_job that assms(2) F by blast
  have "plan_project_id (wa_plan a) = p" if a: "attempt_at s k = Some a" "wa_job_id a = i" for k a
    using attempt_at_job [OF inv a(1)] a(2) p by (auto simp: attempt_of_def)
  then have "foreign_attempts p t = foreign_attempts p s" by (auto simp: foreign_attempts_def fun_eq_iff at(1) split: option.split)
  moreover have "foreign_jobs p t = foreign_jobs p s" using p by (auto simp: foreign_jobs_def fun_eq_iff at(2) split: option.split)
  ultimately have "outside p t = F" using F by (simp add: outside_def)
  then show "outside p t = F" .
  show "work_inv t" by (rule remove_inv [OF inv assms(1)])
qed

interpretation outsiders: attempt_client "view_kept p F" "{i. snd F i = None}" for p F
proof unfold_locales
  show "view_kept p F s (s\<lparr>ws_audit := au\<rparr>)" for s au
    using work_inv_cong [of s "s\<lparr>ws_audit := au\<rparr>"] outside_cong [of "s\<lparr>ws_audit := au\<rparr>" s p]
    by (simp add: view_kept_def job_at_def attempt_at_def fun_eq_iff)
qed (auto simp: view_kept_def [of p F] view_observe [unfolded view_kept_def] view_transition [unfolded view_kept_def]
    dest: view_observe [unfolded view_kept_def] view_transition [unfolded view_kept_def])

section \<open>Authority of the caller\<close>

definition entitled :: "queue_world \<Rightarrow> auth_principal \<Rightarrow> string \<Rightarrow> directory \<Rightarrow> bool" where
  "entitled q actor scope d \<longleftrightarrow>
     (\<exists>now c. auth_current (qw_external q) now (pr_id actor) d = Inr c \<and> host_allows c scope None None \<and> caller_bound actor c)"

lemma with_policies_result: "with_policies f s = (t, r) \<Longrightarrow> \<exists>po. t = s\<lparr>ct_policies := po\<rparr>"
  by (auto simp: with_policies_def split: prod.splits)

lemma require_allowed: "require pol c scope nid rid po = (po1, Inr ()) \<Longrightarrow> host_allows c scope nid rid"
  by (auto simp: require_def require_host_def split: sum.splits)

lemma queue_actor_result:
  assumes "queue_actor q rg actor scope s = (t, r)"
  shows "\<exists>po. t = s\<lparr>ct_policies := po\<rparr>" and "r = Inr c \<Longrightarrow> entitled q actor scope (ct_directory s) \<and> pr_project_id c = pr_project_id actor"
proof -
  show "\<exists>po. t = s\<lparr>ct_policies := po\<rparr>"
  proof (cases "auth_current (qw_external q) (rg_clk rg 0) (pr_id actor) (ct_directory s)")
    case (Inl e)
    then have "t = s\<lparr>ct_policies := ct_policies s\<rparr>" using assms by (simp add: queue_actor_def ctl_bind_def ctl_lift_def)
    then show ?thesis ..
  next
    case (Inr c)
    then show ?thesis using assms
      by (auto simp: queue_actor_def ctl_bind_def ctl_lift_def split: sum.splits prod.splits dest: with_policies_result)
  qed
  show "entitled q actor scope (ct_directory s) \<and> pr_project_id c = pr_project_id actor" if "r = Inr c"
    using assms that
    by (auto simp: queue_actor_def ctl_bind_def ctl_lift_def with_policies_def entitled_def caller_bound_def bindr_Inr
        split: sum.splits prod.splits if_splits dest!: require_allowed)
qed

lemma owned_result:
  assumes "owned q rg i actor scope s = (t, r)"
  shows "\<exists>po. t = s\<lparr>ct_policies := po\<rparr>" and "r = Inr job \<Longrightarrow> job_at (ct_store s) i = Some job \<and> rec_project_id job = pr_project_id actor \<and>
    entitled q actor scope (ct_directory s)"
proof -
  obtain s1 v where a: "queue_actor q rg actor scope s = (s1, v)" by fastforce
  obtain po where s1: "s1 = s\<lparr>ct_policies := po\<rparr>" using queue_actor_result(1) [OF a] by blast
  have t: "t = s1" using assms by (auto simp: owned_def ctl_bind_def a ctl_lift_def split: sum.splits prod.splits)
  then show "\<exists>po. t = s\<lparr>ct_policies := po\<rparr>" using s1 by blast
  show "job_at (ct_store s) i = Some job \<and> rec_project_id job = pr_project_id actor \<and> entitled q actor scope (ct_directory s)" if "r = Inr job"
    using assms that queue_actor_result(2) [OF a]
    by (cases v) (auto simp: owned_def ctl_bind_def a ctl_lift_def s1 get_Inr bindr_Inr split: sum.splits prod.splits if_splits)
qed

section \<open>Operations on jobs of the caller's project\<close>

lemma owned_view:
  assumes "\<And>job. fst F i = None \<Longrightarrow> outsiders.keeps (pr_project_id actor) F (g job)"
  shows "outsiders.keeps (pr_project_id actor) F (ctl_bind (owned q rg i actor scope) g)"
proof (rule outsiders.keepsI)
  fix s t r
  assume run: "ctl_bind (owned q rg i actor scope) g s = (t, r)"
  obtain s1 v where o: "owned q rg i actor scope s = (s1, v)" by fastforce
  have st: "ct_store s1 = ct_store s" using owned_result(1) [OF o] by auto
  show "view_kept (pr_project_id actor) F (ct_store s) (ct_store t)"
  proof (cases v)
    case (Inr job)
    show ?thesis
    proof (cases "outside (pr_project_id actor) (ct_store s) = F")
      case True
      have "fst F i = None" using owned_result(2) [OF o Inr] True by (auto simp: outside_def foreign_jobs_def)
      from outsiders.keepsD [OF assms [OF this], of job s1 t r] run o Inr st show ?thesis by (simp add: ctl_bind_def)
    qed (simp add: view_kept_def)
  qed (use run o st outsiders.R_refl in \<open>auto simp: ctl_bind_def\<close>)
qed

lemmas view_queue = outsiders.keeps_queue outsiders.keeps_store

lemma cancel_isolated: "outsiders.keeps (pr_project_id actor) F (queue_cancel q rg i revision actor)"
  unfolding queue_cancel_def by (intro owned_view) (intro view_queue view_cancel)

lemma retry_isolated:
  "tame (view_kept (pr_project_id actor) F) (dl_others dl) \<Longrightarrow> outsiders.keeps (pr_project_id actor) F (queue_retry q dl rg i revision actor ack)"
  unfolding queue_retry_def by (intro owned_view) (intro view_queue view_retry)

lemma remove_isolated: "outsiders.keeps (pr_project_id actor) F (queue_remove q rg i revision actor)"
  unfolding queue_remove_def by (intro owned_view) (intro view_queue view_remove)

lemma abandon_isolated: "outsiders.keeps (pr_project_id actor) F (queue_abandon q rg i revision actor ack)"
  unfolding queue_abandon_def by (rule outsiders.keeps_bind, rule outsiders.keeps_lift, rule owned_view) (intro view_queue view_abandon)

text \<open>A release acts on the current attempt of the job, which belongs to the project as well.\<close>

lemma release_rest_isolated:
  assumes "tame (view_kept p F) (aw_others aw)" and "snd F (wa_id a) = None"
  shows "outsiders.keeps p F (holding_lock (wa_node_id a) (release_locked cfg q aw rg i actor a))"
  unfolding release_locked_def using assms
  by (intro outsiders.keeps_holding outsiders.keeps_bind outsiders.keeps_lift outsiders.send_within outsiders.keeps_release_check) auto

lemma release_isolated:
  assumes aw: "tame (view_kept (pr_project_id actor) F) (aw_others aw)"
  shows "outsiders.keeps (pr_project_id actor) F (queue_release cfg q aw rg i revision actor)"
proof (rule outsiders.keepsI)
  let ?p = "pr_project_id actor"
  fix s t r
  assume run: "queue_release cfg q aw rg i revision actor s = (t, r)"
  define rest where "rest job a = ctl_bind (ctl_lift (\<lambda>_. require_releasable (qw_publications q 0) i False)) (\<lambda>_.
     ctl_bind (ctl_lift (\<lambda>_. ensure (wa_state a \<noteq> Abandoned) (Failure ''attempt_abandoned'' 409))) (\<lambda>_.
     if wa_state a = Released then queue_view job
     else
       ctl_bind (ctl_lift (\<lambda>_. ensure (cleaned a) (Failure ''workload_unresolved'' 409))) (\<lambda>_.
       ctl_bind (ctl_lift (\<lambda>s. ensure (\<not> is_locked (wa_node_id a) s) (Failure ''executor_busy'' 409))) (\<lambda>_.
       ctl_bind (holding_lock (wa_node_id a) (release_locked cfg q aw rg i actor a)) (\<lambda>_.
       ctl_bind (queue_audit ''workload.release'' i actor) (\<lambda>_.
       ctl_bind (owned q (rg 4) i actor ''jobs:cancel'') queue_view))))))" for job and a :: wattempt
  have rest: "outsiders.keeps ?p F (rest job a)" if "snd F (wa_id a) = None" for job a
    unfolding rest_def by (intro outsiders.keeps_queue release_rest_isolated [OF aw that])
  obtain s1 v where o: "owned q (rg 0) i actor ''jobs:cancel'' s = (s1, v)" by fastforce
  have st: "ct_store s1 = ct_store s" using owned_result(1) [OF o] by auto
  show "view_kept ?p F (ct_store s) (ct_store t)"
  proof (cases "\<exists>job c a. v = Inr job \<and> release_ready job revision \<and> rec_current_attempt job = Some c \<and> attempt_at (ct_store s) c = Some a")
    case True
    then obtain job c a where job: "v = Inr job" "rec_current_attempt job = Some c" "attempt_at (ct_store s) c = Some a" "release_ready job revision"
      by blast
    have "get_attempt (ct_store s1) c = Inr a" using job(3) st by (simp add: get_Inr)
    then have t: "rest job a s1 = (t, r)"
      using run unfolding queue_release_def rest_def [symmetric] by (simp add: ctl_bind_def [of "owned q (rg 0) i actor ''jobs:cancel''"] o job)
        (simp add: ctl_bind_def ctl_lift_def job ensure_def)
    note h = owned_result(2) [OF o job(1)]
    have "view_kept ?p F (ct_store s1) (ct_store t)" if inv: "work_inv (ct_store s)" "outside ?p (ct_store s) = F"
    proof -
      have "snd F c = None" using current_not_foreign [OF inv(1), of i job ?p c] h job(2) inv(2) by simp
      then have "snd F (wa_id a) = None" using attempt_at_ok [OF inv(1) job(3)] by simp
      from outsiders.keepsD [OF rest [OF this] t] show ?thesis .
    qed
    then show ?thesis by (auto simp: view_kept_def st)
  next
    case False
    then have "ct_store t = ct_store s1"
      using run st by (auto simp: queue_release_def ctl_bind_def o ctl_lift_def release_ready_def get_attempt_def attempt_at_def ensure_def
          split: sum.splits prod.splits option.splits if_splits)
    then show ?thesis using outsiders.R_refl st by simp
  qed
qed

section \<open>Requests about a job\<close>

fun target_job :: "queue_request \<Rightarrow> string option" where
  "target_job (Do_submit request key) = None"
| "target_job (Do_cancel i revision) = Some i"
| "target_job (Do_retry i revision ack) = Some i"
| "target_job (Do_release i revision) = Some i"
| "target_job (Do_remove i revision) = Some i"
| "target_job (Do_abandon i revision ack) = Some i"
| "target_job (Do_collect i reads) = Some i"

fun needed_scope :: "queue_request \<Rightarrow> string" where
  "needed_scope (Do_submit request key) = ''jobs:execute''"
| "needed_scope (Do_retry i revision ack) = ''jobs:execute''"
| "needed_scope (Do_collect i reads) = ''jobs:logs''"
| "needed_scope _ = ''jobs:cancel''"

text \<open>The caller may act on the job: a current credential with the scope, unrestricted, in the project of the job.\<close>

definition may_act :: "queue_world \<Rightarrow> auth_principal \<Rightarrow> string \<Rightarrow> string \<Rightarrow> 'p controller \<Rightarrow> bool" where
  "may_act q actor scope i s \<longleftrightarrow> entitled q actor scope (ct_directory s) \<and>
     (\<exists>job. job_at (ct_store s) i = Some job \<and> rec_project_id job = pr_project_id actor)"

definition refused_op :: "'p controller \<Rightarrow> ('p, 'a) ctl_op \<Rightarrow> bool" where
  "refused_op s f \<longleftrightarrow> (\<exists>po e. f s = (s\<lparr>ct_policies := po\<rparr>, Inl e))"

lemma refused_owned: "\<not> may_act q actor scope i s \<Longrightarrow> refused_op s (ctl_bind (owned q rg i actor scope) g)"
proof -
  assume no: "\<not> may_act q actor scope i s"
  obtain s1 v where o: "owned q rg i actor scope s = (s1, v)" by fastforce
  have "v \<noteq> Inr job" for job using owned_result(2) [OF o] no by (auto simp: may_act_def)
  then obtain e where "v = Inl e" by (cases v) auto
  with owned_result(1) [OF o] o show ?thesis by (auto simp: refused_op_def ctl_bind_def)
qed

lemma refused_bind: "refused_op s f \<Longrightarrow> refused_op s (ctl_bind f g)"
  by (auto simp: refused_op_def ctl_bind_def)

lemma refused_after_ensure: "refused_op s g \<Longrightarrow> refused_op s (ctl_bind (ctl_lift (\<lambda>_. ensure b e)) (\<lambda>_. g))"
proof (cases b)
  case False
  have "ctl_bind (ctl_lift (\<lambda>_. ensure b e)) (\<lambda>_. g) s = (s\<lparr>ct_policies := ct_policies s\<rparr>, Inl e)"
    by (simp add: ctl_bind_def ctl_lift_def ensure_def False)
  then show ?thesis unfolding refused_op_def by blast
qed (simp add: refused_op_def ctl_bind_def ctl_lift_def ensure_def)

lemma perform_refused:
  assumes "target_job request = Some i" and "\<not> may_act q actor (needed_scope request) i s"
  shows "refused_op s (perform cfg q dl aw rg actor request)"
proof (cases request)
  case (Do_cancel j revision)
  show ?thesis using assms unfolding Do_cancel perform.simps unit_op_def queue_cancel_def by (simp add: refused_bind refused_owned)
next
  case (Do_retry j revision ack)
  show ?thesis using assms unfolding Do_retry perform.simps unit_op_def queue_retry_def by (simp add: refused_bind refused_owned)
next
  case (Do_release j revision)
  show ?thesis using assms unfolding Do_release perform.simps unit_op_def queue_release_def by (simp add: refused_bind refused_owned)
next
  case (Do_remove j revision)
  show ?thesis using assms unfolding Do_remove perform.simps unit_op_def queue_remove_def by (simp add: refused_bind refused_owned)
next
  case (Do_abandon j revision ack)
  show ?thesis using assms unfolding Do_abandon perform.simps unit_op_def queue_abandon_def
    by (intro refused_bind refused_after_ensure refused_owned) simp
next
  case (Do_collect j reads)
  show ?thesis using assms unfolding Do_collect perform.simps unit_op_def queue_collect_def by (simp add: refused_bind refused_owned)
qed (use assms in simp)

text \<open>Other tasks stay outside the caller's project neither: they may do anything inside it.\<close>

definition confined :: "string \<Rightarrow> work_store \<Rightarrow> work_store \<Rightarrow> bool" where
  "confined p s t \<longleftrightarrow> (work_inv s \<longrightarrow> work_inv t \<and> outside p t = outside p s)"

lemma tame_confined: "tame (confined p) f \<Longrightarrow> tame (view_kept p F) f"
  by (auto simp: tame_def confined_def view_kept_def)

lemma perform_isolated:
  assumes "target_job request \<noteq> None" and "tame (view_kept (pr_project_id actor) F) (dl_others dl)"
    and "tame (view_kept (pr_project_id actor) F) (aw_others aw)"
  shows "outsiders.keeps (pr_project_id actor) F (perform cfg q dl aw rg actor request)"
  using assms
  by (cases request)
    (simp_all add: outsiders.keeps_unit cancel_isolated retry_isolated remove_isolated abandon_isolated release_isolated outsiders.keeps_collect)

section \<open>Properties\<close>


text \<open>
  C18: projects are isolated. On reachable records, a request about a job leaves every job and every
  attempt of every project other than the caller's exactly as it was, whether it succeeds or fails
  and whatever the executor answers, if the tasks that run meanwhile do so as well.
\<close>

theorem queue_isolates_projects:
  assumes "work_reach (ct_store s)" and "target_job request \<noteq> None"
    and "tame (confined (pr_project_id actor)) (dl_others dl)" and "tame (confined (pr_project_id actor)) (aw_others aw)"
    and "perform cfg q dl aw rg actor request s = (t, r)"
  shows "outside (pr_project_id actor) (ct_store t) = outside (pr_project_id actor) (ct_store s)"
proof -
  have "outsiders.keeps (pr_project_id actor) (outside (pr_project_id actor) (ct_store s)) (perform cfg q dl aw rg actor request)"
    by (rule perform_isolated [OF assms(2) tame_confined [OF assms(3)] tame_confined [OF assms(4)]])
  from outsiders.keepsD [OF this assms(5)] work.reach_inv [OF assms(1)] show ?thesis by (simp add: view_kept_def)
qed


end
