(* ===== verification/Work_Queue_Run.thy ===== *)
theory Work_Queue_Run
  imports Work_Queue_Props Work_Runner_Run
begin

text \<open>
  A concrete request: the submitter of a queued job cancels it with a current credential. The run
  shows that the hypotheses of the properties of the queue can hold.
\<close>

definition ex_canceller :: credential where
  "ex_canceller = ex_submitter\<lparr>cd_scopes := [''jobs:cancel'']\<rparr>"

definition ex_cancelling :: auth_principal where
  "ex_cancelling = ex_submitting\<lparr>pr_scopes := [''jobs:cancel'']\<rparr>"

definition ex_queue_world :: queue_world where
  "ex_queue_world = \<lparr>qw_external = None, qw_registries = (\<lambda>_. \<lparr>rs_dataset = (\<lambda>_ _. Inl (Failure ''not_found'' 404)), rs_require = (\<lambda>_. Inr False),
       rs_effective = (\<lambda>_. Inr False), rs_model = (\<lambda>_ _. Inl (Failure ''not_found'' 404))\<rparr>),
     qw_publications = (\<lambda>_. []), qw_live = Inr ()\<rparr>"

definition ex_desk :: "scheduler controller" where
  "ex_desk = (ex_ready ex_sched)\<lparr>ct_directory := empty_directory\<lparr>dir_credentials := [ex_canceller]\<rparr>, ct_policies := ex_unenforced\<rparr>"

definition ex_delivery :: "scheduler audit_delivery" where
  "ex_delivery = \<lparr>dl_result = Inr (), dl_others = id\<rparr>"

definition ex_asking :: "nat \<Rightarrow> readings" where
  "ex_asking k = ex_readings\<lparr>rg_clk := (\<lambda>_. 1)\<rparr>"

lemma ex_cancelling_current: "auth_current None 1 (ex_id (CHR ''7'')) (ct_directory ex_desk) = Inr ex_cancelling"
proof -
  have "sorted_set [''jobs:cancel''] = [''jobs:cancel'']" by code_simp
  then show ?thesis
    by (simp add: ex_desk_def auth_current_def access_row_def empty_directory_def initialize_def find_row_def ex_canceller_def ex_submitter_def
        live_entry_def principal_of_def external_ok_def permitted_scopes_def ex_credential_def SCOPES_def ex_principal_def ex_submitting_def
        ex_cancelling_def)
qed

lemma ex_cancelling_sel:
  "pr_id ex_cancelling = ex_id (CHR ''7'')" "pr_project_id ex_cancelling = LOCAL_PROJECT" "host_allows ex_cancelling ''jobs:cancel'' None None"
  "caller_bound ex_cancelling ex_cancelling"
  by (simp_all add: ex_cancelling_def ex_submitting_def ex_principal_def host_allows_def caller_bound_def)

lemma ex_desk_owned: "owned ex_queue_world (ex_asking 0) (ex_id (CHR ''c'')) ex_cancelling ''jobs:cancel'' ex_desk = (ex_desk, Inr ex_workload)"
proof -
  have "\<not> po_required ex_unenforced" by (simp add: ex_unenforced_def)
  then have "require (Some (policies_check w e clk d)) ex_cancelling ''jobs:cancel'' None None ex_unenforced = (ex_unenforced, Inr ())" for w e clk d
    by (simp add: require_def require_host_def ex_cancelling_sel policies_check_def ensure_def)
  moreover have "ct_policies ex_desk = ex_unenforced" "ex_desk\<lparr>ct_policies := ex_unenforced\<rparr> = ex_desk" "qw_external ex_queue_world = None"
    "rg_clk (ex_asking 0) 0 = 1" by (simp_all add: ex_desk_def ex_queue_world_def ex_asking_def)
  moreover have "get_job (ct_store ex_desk) (ex_id (CHR ''c'')) = Inr ex_workload"
    by (simp add: get_job_def ex_desk_def ex_ready_def ex_waiting_def find_row_def)
  moreover have "rec_project_id ex_workload = LOCAL_PROJECT" by (simp add: ex_workload_def)
  ultimately show ?thesis
    by (simp add: owned_def queue_actor_def ctl_bind_def ctl_lift_def with_policies_def ex_cancelling_sel ex_cancelling_current ensure_def)
qed

lemma ex_desk_cancelled:
  "\<exists>t v. queue_cancel ex_queue_world ex_asking (ex_id (CHR ''c'')) 1 ex_cancelling ex_desk = (t, Inr v) \<and> jv_cancelled v \<and> jv_state v = Cancelled"
proof -
  let ?job = "ex_workload\<lparr>rec_cancelled := True, rec_state := Cancelled, rec_reason := Some ''cancelled_before_dispatch'', rec_updated_at := 1000, rec_revision := 2\<rparr>"
  have "Name ''cancelled_before_dispatch''" by code_simp
  then have "valid_record ?job"
    using ex_workload_valid by (simp add: valid_record_def ex_workload_def ex_record_def Revision_def Count_def ownership_def)
  then have "cancel_job (\<lambda>_. 1) (ex_id (CHR ''c'')) 1 ex_waiting = Inr (put_job ?job ex_waiting, ?job)"
    by (simp add: cancel_job_def get_job_def ex_waiting_def find_row_def save_job_def ex_workload_def ex_record_def Let_def max_def)
  moreover have "ct_store ex_desk = ex_waiting" "rg_clk (ex_asking k) = (\<lambda>_. 1)" "rec_current_attempt ?job = None" for k
    by (simp_all add: ex_desk_def ex_ready_def ex_asking_def ex_workload_def ex_record_def)
  ultimately show ?thesis
    by (simp add: queue_cancel_def ctl_bind_def ex_desk_owned with_store_def on_store_def queue_audit_def queue_view_def ctl_lift_def view_job_def
        job_view_of_def)
qed

lemma ex_desk_performed:
  "\<exists>t. perform cfg ex_queue_world ex_delivery ex_await ex_asking ex_cancelling (Do_cancel (ex_id (CHR ''c'')) 1) ex_desk = (t, Inr ())"
  using ex_desk_cancelled by (auto simp: unit_op_def ctl_bind_def ctl_lift_def)

lemma ex_desk_reach: "work_reach (ct_store ex_desk)"
  by (simp add: ex_desk_def ex_ready_def ex_waiting_reach)

lemma ex_idle: "(\<And>s. R s s) \<Longrightarrow> tame R (dl_others ex_delivery)" "(\<And>s. R s s) \<Longrightarrow> tame R (aw_others ex_await)"
  by (simp_all add: tame_def ex_delivery_def ex_await_def)


theorem queue_isolates_projects_witness:
  "\<forall>cfg. \<exists>t. perform cfg ex_queue_world ex_delivery ex_await ex_asking ex_cancelling (Do_cancel (ex_id (CHR ''c'')) 1) ex_desk = (t, Inr ()) \<and>
     outside LOCAL_PROJECT (ct_store t) = outside LOCAL_PROJECT (ct_store ex_desk)"
proof
  fix cfg
  obtain t where t: "perform cfg ex_queue_world ex_delivery ex_await ex_asking ex_cancelling (Do_cancel (ex_id (CHR ''c'')) 1) ex_desk = (t, Inr ())"
    using ex_desk_performed by blast
  have "confined p s s" for p s by (simp add: confined_def)
  from queue_isolates_projects [OF ex_desk_reach _ ex_idle(1) ex_idle(2) t, OF _ this this] t
  show "\<exists>t. perform cfg ex_queue_world ex_delivery ex_await ex_asking ex_cancelling (Do_cancel (ex_id (CHR ''c'')) 1) ex_desk = (t, Inr ()) \<and>
     outside LOCAL_PROJECT (ct_store t) = outside LOCAL_PROJECT (ct_store ex_desk)" by (simp add: ex_cancelling_sel)
qed


end
