(* ===== verification/Node_Relay.thy ===== *)
theory Node_Relay
  imports Work_Channel
begin

text \<open>
  The node's side of contributor execution. \<open>src/ficc/execution/client.py\<close> exchanges one bounded
  frame with the local supervisor, whose end of the connection is \<open>Service.accept\<close> of
  \<open>src/ficc/execution/service.py\<close>; \<open>src/ficc/contributor_client.py\<close> keeps the node's connection
  lease by heartbeats; \<open>src/ficc/contributor_execution.py\<close> polls the controller under this lease
  and relays its commands to the local supervisor and the replies back. The heartbeat and the relay
  are two tasks of one event loop that share the \<open>Execution\<close> object: a turn of the relay is cut
  at its awaits, and the heartbeats that ran meanwhile are part of its world.

  Pydantic's validation and serialisation of messages and replies is the parameter \<open>codec\<close>.
\<close>

record codec =
  cd_message :: "json \<Rightarrow> message res"
  cd_message_json :: "string \<Rightarrow> message res"
  cd_dump_message :: "message \<Rightarrow> json"
  cd_dump_message_json :: "message \<Rightarrow> string"
  cd_reply_json :: "string \<Rightarrow> reply res"
  cd_dump_reply :: "reply \<Rightarrow> json"

section \<open>Frames\<close>

text \<open>\<open>struct.pack("!I", n)\<close> and its inverse: four bytes, the most significant first.\<close>

definition pack_length :: "nat \<Rightarrow> string" where
  "pack_length n = map char_of [n div 16777216 mod 256, n div 65536 mod 256, n div 256 mod 256, n mod 256]"

definition unpack_length :: "string \<Rightarrow> nat" where
  "unpack_length s = foldl (\<lambda>a c. 256 * a + of_char c) 0 s"

definition send_frame :: "nat \<Rightarrow> string \<Rightarrow> string res" where
  "send_frame maximum data =
     (if \<not> (0 < length data \<and> length data \<le> maximum) then Inl ValueError else Inr (pack_length (length data) @ data))"

text \<open>
  \<open>input\<close> is what the peer sends before it closes its end; a read beyond it is an
  \<open>IncompleteReadError\<close>, which the client turns into the \<open>OSError\<close> used here.
\<close>

definition readexactly :: "nat \<Rightarrow> string \<Rightarrow> (string \<times> string) res" where
  "readexactly n input = (if length input < n then Inl OSError else Inr (take n input, drop n input))"

definition receive_frame :: "nat \<Rightarrow> (nat \<Rightarrow> unit res) \<Rightarrow> string \<Rightarrow> string res" where
  "receive_frame maximum budget input =
     bindr (readexactly 4 input) (\<lambda>(prefix, rest).
     let n = unpack_length prefix in
     if \<not> (0 < n \<and> n \<le> maximum) then Inl ValueError
     else bindr (budget n) (\<lambda>_. bindr (readexactly n rest) (\<lambda>(data, _). Inr data)))"

section \<open>The local client\<close>

text \<open>
  The peer of the socket: whether the connection opens, the account that serves it, and the bytes it
  sends for the bytes it got. An exception of the transport, the timeout among them, is an answer.
\<close>

record local_peer =
  lp_connect :: "unit res"
  lp_uid :: int
  lp_answer :: "string \<Rightarrow> string res"

fun message_version :: "message \<Rightarrow> int" where
  "message_version (Prepare r _) = req_version r"
| "message_version (RejectAbsent r _) = req_version r"
| "message_version (ReconcileAbsent r _) = req_version r"
| "message_version (Renew r _) = req_version r"
| "message_version (Control r _ _) = req_version r"
| "message_version (Collect r _) = req_version r"
| "message_version (InputStatus r _) = req_version r"
| "message_version (InputWrite r _) = req_version r"
| "message_version (EndpointExchange r _) = req_version r"
| "message_version (Snapshot r _) = req_version r"
| "message_version (SetOffer r _ _ _) = req_version r"

definition client_request :: "codec \<Rightarrow> local_peer \<Rightarrow> message \<Rightarrow> reply res" where
  "client_request cd peer m =
     bindr (cd_message_json cd (cd_dump_message_json cd m)) (\<lambda>request.
     bindr (lp_connect peer) (\<lambda>_.
     if lp_uid peer \<noteq> 0 then Inl ValueError
     else
       bindr (send_frame MAX_MESSAGE (encoded (cd_dump_message cd request))) (\<lambda>sent.
       bindr (lp_answer peer sent) (\<lambda>input.
       bindr (receive_frame MAX_REPLY (\<lambda>_. Inr ()) input) (\<lambda>data.
       bindr (decode_reply (cd_reply_json cd) data) (\<lambda>rp.
       if rep_version (reply_head rp) \<noteq> message_version request \<or> rep_id (reply_head rp) \<noteq> message_id request then Inl ValueError
       else Inr rp))))))"

text \<open>
  The supervisor's end of the connection: the bytes it writes for the bytes it reads. A connection
  beyond the sixteenth, a foreign account, a frame beyond its bound or the budget, a request or a
  reply that does not validate end it without an answer.
\<close>

definition accept_connection :: "codec \<Rightarrow> (nat \<Rightarrow> item_world) \<Rightarrow> nat \<Rightarrow> int \<Rightarrow> server \<Rightarrow> string \<Rightarrow> service \<Rightarrow> service \<times> string" where
  "accept_connection cd world i uid srv input sv =
     (let st = sup_settings (svc_sup sv) in
      case accept_begin i srv of
        None \<Rightarrow> (sv, [])
      | Some srv1 \<Rightarrow>
          if uid \<notin> {0, set_transport_uid st} \<union> set (set_local_owner_uids st) then (sv, [])
          else (case bindr (receive_frame MAX_MESSAGE (\<lambda>n. bindr (accept_reserve i (int n) srv1) (\<lambda>_. Inr ())) input)
                  (decode_message (cd_message_json cd)) of
              Inl _ \<Rightarrow> (sv, [])
            | Inr request \<Rightarrow>
                (case answer world request uid sv of
                   (sv1, None) \<Rightarrow> (sv1, [])
                 | (sv1, Some rp) \<Rightarrow> (sv1, case send_frame MAX_REPLY (encoded (cd_dump_reply cd rp)) of Inl _ \<Rightarrow> [] | Inr sent \<Rightarrow> sent))))"

section \<open>The connection lease\<close>

text \<open>
  A value of a parsed heartbeat answer, with the numbers Python tells apart: \<open>bool\<close> is a subclass of
  \<open>int\<close>, so \<open>True == 1\<close>, and \<open>json.loads\<close> accepts \<open>NaN\<close> and the infinities (\<open>VNonfinite\<close>).
\<close>

datatype scalar = VBool bool | VInt int | VFloat rat | VNonfinite | VStr string | VOther

definition equals_int :: "int \<Rightarrow> scalar option \<Rightarrow> bool" where
  "equals_int n v = (case v of
       Some (VInt i) \<Rightarrow> i = n
     | Some (VFloat q) \<Rightarrow> q = of_int n
     | Some (VBool b) \<Rightarrow> (if b then 1 else 0) = n
     | _ \<Rightarrow> False)"

text \<open>The material of a certificate: the fields the relay compares, and the expiry.\<close>

record material =
  mt_fields :: json
  mt_not_before :: rat
  mt_expires_at :: rat

record node_value =
  nv_deployment_id :: string
  nv_node_id :: string
  nv_current :: material
  nv_pending :: bool

record lease =
  ls_value :: node_value
  ls_session_id :: string
  ls_deadline :: rat
  ls_certificate :: material

text \<open>The \<open>Execution\<close> object, with the local variables of its loop.\<close>

record relay =
  rl_current :: "lease option"
  rl_available :: bool
  rl_response :: "reply option"
  rl_session_id :: "string option"

definition new_relay :: relay where
  "new_relay = \<lparr>rl_current = None, rl_available = False, rl_response = None, rl_session_id = None\<rparr>"

definition relay_connection :: "node_value \<Rightarrow> string \<Rightarrow> rat \<Rightarrow> relay \<Rightarrow> relay" where
  "relay_connection v sid until r =
     r\<lparr>rl_current := Some \<lparr>ls_value = v, ls_session_id = sid, ls_deadline = until, ls_certificate = nv_current v\<rparr>\<rparr>"

definition relay_disconnected :: "relay \<Rightarrow> relay" where
  "relay_disconnected r = r\<lparr>rl_current := None, rl_available := False\<rparr>"

definition relay_valid :: "rat \<Rightarrow> lease \<Rightarrow> relay \<Rightarrow> bool" where
  "relay_valid now c r =
     (case rl_current r of
        None \<Rightarrow> False
      | Some d \<Rightarrow> ls_session_id d = ls_session_id c \<and> ls_certificate d = ls_certificate c \<and> min (ls_deadline c) (ls_deadline d) > now)"

text \<open>\<open>acknowledgement\<close>: the answer to a heartbeat, as the fields of a dictionary.\<close>

record clock_readings =
  cr_started :: rat
  cr_mono :: rat
  cr_wall :: rat
  cr_end :: rat

definition acknowledgement :: "node_value \<Rightarrow> string option \<Rightarrow> int \<Rightarrow> (string \<times> scalar) list \<Rightarrow> clock_readings \<Rightarrow> (string \<times> int \<times> bool \<times> rat) res" where
  "acknowledgement v sid sequence kvs cr =
     (let get = map_of kvs in
      case (get ''session_id'', get ''heartbeat_seconds'', get ''execution_available'',
            case get ''lease_seconds'' of Some (VInt i) \<Rightarrow> Some (of_int i) | Some (VFloat q) \<Rightarrow> Some q | _ \<Rightarrow> None) of
        (Some (VStr s), Some (VInt every), Some (VBool available), Some seconds) \<Rightarrow>
          if \<not> equals_int 1 (get ''version'') \<or> get ''node_id'' \<noteq> Some (VStr (nv_node_id v)) \<or> \<not> equals_int sequence (get ''sequence'')
            \<or> \<not> Identity s \<or> (sid \<noteq> None \<and> sid \<noteq> Some s) \<or> \<not> (0 < seconds \<and> seconds \<le> 30) \<or> \<not> (1 \<le> every \<and> every \<le> 10)
          then Inl ValueError
          else
            let until = min (cr_started cr + seconds) (cr_mono cr + mt_expires_at (nv_current v) - cr_wall cr) in
            if until \<le> cr_end cr then Inl ValueError else Inr (s, every, available, until)
      | _ \<Rightarrow> Inl ValueError)"

text \<open>What the controller answers to a heartbeat, as these fields.\<close>

definition heartbeat_fields :: "heartbeat_reply \<Rightarrow> bool \<Rightarrow> (string \<times> scalar) list" where
  "heartbeat_fields r available = [(''version'', VInt 1), (''node_id'', VStr (hr_node_id r)), (''session_id'', VStr (hr_session_id r)),
     (''sequence'', VInt (hr_sequence r)), (''lease_seconds'', VFloat (hr_lease_seconds r)), (''heartbeat_seconds'', VInt (hr_heartbeat_seconds r)),
     (''execution_available'', VBool available)]"

text \<open>The state of \<open>run\<close>, for a node that is enrolled.\<close>

datatype transport = Persistent | Polling
datatype transport_choice = Auto | Only transport

record node_client =
  nc_value :: node_value
  nc_session_id :: "string option"
  nc_sequence :: int
  nc_interval :: int
  nc_deadline :: rat
  nc_attempts :: nat
  nc_selected :: transport
  nc_relay :: relay

definition new_client :: "transport_choice \<Rightarrow> node_value \<Rightarrow> node_client" where
  "new_client choice v = \<lparr>nc_value = v, nc_session_id = None, nc_sequence = 1, nc_interval = 5, nc_deadline = 0, nc_attempts = 0,
     nc_selected = (if choice = Only Polling then Polling else Persistent), nc_relay = new_relay\<rparr>"

definition rotation_due :: "rat \<Rightarrow> node_value \<Rightarrow> bool" where
  "rotation_due now v \<longleftrightarrow> nv_pending v \<or>
     mt_expires_at (nv_current v) - now < min 300 ((mt_expires_at (nv_current v) - mt_not_before (nv_current v)) / 3)"

text \<open>\<open>rotate\<close>: a key once made stays pending until the controller activated its certificate.\<close>

definition client_rotate :: "unit res \<Rightarrow> material res \<Rightarrow> node_client \<Rightarrow> node_client \<times> unit res" where
  "client_rotate keyed activated cl =
     (case (if nv_pending (nc_value cl) then Inr () else keyed) of
        Inl e \<Rightarrow> (cl, Inl e)
      | Inr _ \<Rightarrow>
          (case activated of
             Inl e \<Rightarrow> (cl\<lparr>nc_value := (nc_value cl)\<lparr>nv_pending := True\<rparr>\<rparr>, Inl e)
           | Inr m \<Rightarrow> (cl\<lparr>nc_value := (nc_value cl)\<lparr>nv_current := m, nv_pending := False\<rparr>, nc_session_id := None, nc_sequence := 1, nc_deadline := 0\<rparr>,
               Inr ())))"

definition client_failed :: "transport_choice \<Rightarrow> node_client \<Rightarrow> node_client" where
  "client_failed choice cl =
     (let attempts = nc_attempts cl + 1 in
      cl\<lparr>nc_relay := relay_disconnected (nc_relay cl), nc_attempts := attempts,
         nc_selected := (if choice = Auto then
             (if nc_selected cl = Persistent then Polling else if attempts mod 6 = 0 then Persistent else Polling) else nc_selected cl),
         nc_interval := min 30 (2 ^ min attempts 5)\<rparr>)"

text \<open>
  One round of the heartbeat loop: what the rotation, the collection of the sample and the exchange
  with the controller gave, and the readings of the clocks. The result is what the round reports
  as available for execution.
\<close>

record round_world =
  ro_wall :: rat
  ro_keyed :: "unit res"
  ro_rotated :: "material res"
  ro_collected :: "unit res"
  ro_now :: rat
  ro_answer :: "(string \<times> scalar) list res"
  ro_readings :: clock_readings

definition restart_session :: "rat \<Rightarrow> node_client \<Rightarrow> node_client" where
  "restart_session now cl = (if nc_deadline cl \<le> now then cl\<lparr>nc_session_id := None, nc_sequence := 1\<rparr> else cl)"

definition client_beat :: "round_world \<Rightarrow> node_client \<Rightarrow> node_client \<times> bool res" where
  "client_beat w cl =
     (case bindr (ro_answer w) (\<lambda>kvs. acknowledgement (nc_value cl) (nc_session_id cl) (nc_sequence cl) kvs (ro_readings w)) of
        Inl e \<Rightarrow> (cl, Inl e)
      | Inr (sid, every, available, until) \<Rightarrow>
          (cl\<lparr>nc_deadline := until, nc_session_id := Some sid, nc_sequence := nc_sequence cl + 1,
              nc_relay := relay_connection (nc_value cl) sid until (nc_relay cl), nc_interval := every, nc_attempts := 0\<rparr>,
           Inr (rl_available (nc_relay cl) \<and> available)))"

definition relay_caught :: "exn \<Rightarrow> bool" where
  "relay_caught e \<longleftrightarrow> e \<in> {ValueError, OSError, TimeoutError}"

definition client_round :: "transport_choice \<Rightarrow> round_world \<Rightarrow> node_client \<Rightarrow> node_client \<times> bool res" where
  "client_round choice w cl =
     (case (if rotation_due (ro_wall w) (nc_value cl) then client_rotate (ro_keyed w) (ro_rotated w) cl else (cl, Inr ())) of
        (cl1, Inl e) \<Rightarrow> if relay_caught e then (client_failed choice cl1, Inr False) else (cl1, Inl e)
      | (cl1, Inr _) \<Rightarrow>
          (case (case ro_collected w of Inl e \<Rightarrow> (cl1, Inl e) | Inr _ \<Rightarrow> client_beat w (restart_session (ro_now w) cl1)) of
             (cl2, Inl e) \<Rightarrow> if relay_caught e then (client_failed choice cl2, Inr False) else (cl2, Inl e)
           | (cl2, Inr a) \<Rightarrow> (cl2, Inr a)))"

section \<open>The relay\<close>

definition on_relay :: "(relay \<Rightarrow> relay) \<Rightarrow> node_client \<Rightarrow> node_client" where
  "on_relay f cl = cl\<lparr>nc_relay := f (nc_relay cl)\<rparr>"

text \<open>The body of a post: \<open>response\<close> is the serialised reply to the last command, or null.\<close>

definition exchange_body :: "codec \<Rightarrow> string \<Rightarrow> reply option \<Rightarrow> json" where
  "exchange_body cd sid response = JObj [(''version'', JInt 1), (''session_id'', JStr sid),
     (''response'', case response of None \<Rightarrow> JNull | Some rp \<Rightarrow> cd_dump_reply cd rp)]"

text \<open>The start of a turn: a lost or expired lease forgets the response and sleeps.\<close>

definition relay_begin :: "rat \<Rightarrow> relay \<Rightarrow> relay \<times> lease option" where
  "relay_begin now r =
     (case rl_current r of
        Some c \<Rightarrow>
          if relay_valid now c r
          then (if rl_session_id r \<noteq> Some (ls_session_id c) then r\<lparr>rl_response := None, rl_session_id := Some (ls_session_id c)\<rparr> else r, Some c)
          else (r\<lparr>rl_response := None, rl_session_id := None, rl_available := False\<rparr>, None)
      | None \<Rightarrow> (r\<lparr>rl_response := None, rl_session_id := None, rl_available := False\<rparr>, None))"

text \<open>\<open>Channel.envelope\<close>: the answer of the controller to a poll.\<close>

definition channel_envelope :: "contributor_settings \<Rightarrow> string \<Rightarrow> string \<Rightarrow> json \<Rightarrow> json" where
  "channel_envelope cfg node sid command = JObj [(''version'', JInt 1), (''deployment_id'', JStr (cfg_deployment_id cfg)), (''node_id'', JStr node),
     (''session_id'', JStr sid), (''command'', command)]"

text \<open>The identity check of an answer of the controller; its command, or null.\<close>

definition envelope_command :: "lease \<Rightarrow> json \<Rightarrow> json res" where
  "envelope_command c result =
     (case result of
        JObj kvs \<Rightarrow>
          (case (map_of kvs ''command'') of
             Some command \<Rightarrow>
               if set (map fst kvs) \<noteq> {''version'', ''deployment_id'', ''node_id'', ''session_id'', ''command''}
                 \<or> map_of kvs ''version'' \<noteq> Some (JInt 1)
                 \<or> map_of kvs ''deployment_id'' \<noteq> Some (JStr (nv_deployment_id (ls_value c)))
                 \<or> map_of kvs ''node_id'' \<noteq> Some (JStr (nv_node_id (ls_value c)))
                 \<or> map_of kvs ''session_id'' \<noteq> Some (JStr (ls_session_id c))
               then Inl ValueError else Inr command
           | None \<Rightarrow> Inl ValueError)
      | _ \<Rightarrow> Inl ValueError)"

definition unavailable_reply :: "lease \<Rightarrow> message \<Rightarrow> reply" where
  "unavailable_reply c m = FailureReply
     \<lparr>rep_version = 1, rep_id = message_id m, rep_deployment_id = nv_deployment_id (ls_value c), rep_node_id = nv_node_id (ls_value c)\<rparr>
     \<lparr>err_code = ''executor_unavailable'', err_message = ''The local executor did not return a verified response.''\<rparr>"

fun reply_ok :: "reply \<Rightarrow> bool" where
  "reply_ok (FailureReply _ _) = False"
| "reply_ok _ = True"

text \<open>The inner \<open>try\<close>: the reply of the local executor, or the failure that stands for it.\<close>

definition relay_answer :: "lease \<Rightarrow> message \<Rightarrow> reply res \<Rightarrow> (bool \<times> reply) res" where
  "relay_answer c m got =
     (case bindr got (\<lambda>rp.
         if (rep_deployment_id (reply_head rp), rep_node_id (reply_head rp)) \<noteq> (nv_deployment_id (ls_value c), nv_node_id (ls_value c))
         then Inl ValueError else Inr rp) of
        Inr rp \<Rightarrow> Inr (reply_ok rp, rp)
      | Inl e \<Rightarrow>
          if \<not> relay_caught e then Inl e
          else if valid_reply (unavailable_reply c m) then Inr (False, unavailable_reply c m) else Inl ValueError)"

text \<open>What a turn does outside: a post to the controller, a command handed to the local client.\<close>

datatype relay_event = Posted lease "reply option" rat | Forwarded lease message rat

record relay_world =
  rw_start :: rat
  rw_post :: "json \<Rightarrow> json res"
  rw_during_post :: "(transport_choice \<times> round_world) list"
  rw_checked :: rat
  rw_peer :: local_peer
  rw_during_request :: "(transport_choice \<times> round_world) list"
  rw_end :: rat

definition beats :: "(transport_choice \<times> round_world) list \<Rightarrow> node_client \<Rightarrow> node_client" where
  "beats ws cl = fold (\<lambda>(choice, w) cl. fst (client_round choice w cl)) ws cl"

text \<open>The outer handler: the response is dropped, and an exception it does not name ends the task.\<close>

definition relay_failed :: "exn \<Rightarrow> node_client \<Rightarrow> node_client \<times> unit res" where
  "relay_failed e cl =
     (if relay_caught e then (on_relay (\<lambda>r. r\<lparr>rl_response := None, rl_available := False\<rparr>) cl, Inr ()) else (cl, Inl e))"

definition relay_command :: "codec \<Rightarrow> relay_world \<Rightarrow> lease \<Rightarrow> json \<Rightarrow> node_client \<Rightarrow> relay_event list \<times> node_client \<times> unit res" where
  "relay_command cd w c command cl =
     (case cd_message cd command of
        Inl e \<Rightarrow> ([], relay_failed e cl)
      | Inr m \<Rightarrow>
          if is_set_offer m then ([], relay_failed ValueError cl)
          else
            let cl1 = beats (rw_during_request w) cl in
            ([Forwarded c m (rw_checked w)],
             case relay_answer c m (client_request cd (rw_peer w) m) of
               Inl e \<Rightarrow> relay_failed e cl1
             | Inr (ok, rp) \<Rightarrow>
                 (on_relay (\<lambda>r. r\<lparr>rl_available := ok, rl_response := if relay_valid (rw_end w) c r then Some rp else None\<rparr>) cl1, Inr ())))"

definition relay_exchange :: "codec \<Rightarrow> relay_world \<Rightarrow> lease \<Rightarrow> node_client \<Rightarrow> relay_event list \<times> node_client \<times> unit res" where
  "relay_exchange cd w c cl =
     (let body = exchange_body cd (ls_session_id c) (rl_response (nc_relay cl)); cl1 = beats (rw_during_post w) cl in
      case rw_post w body of
        Inl e \<Rightarrow> ([], relay_failed e cl1)
      | Inr result \<Rightarrow>
          let cl2 = on_relay (\<lambda>r. r\<lparr>rl_response := None\<rparr>) cl1 in
          (case envelope_command c result of
             Inl e \<Rightarrow> ([], relay_failed e cl2)
           | Inr command \<Rightarrow>
               if \<not> relay_valid (rw_checked w) c (nc_relay cl2) \<or> command = JNull then ([], cl2, Inr ())
               else relay_command cd w c command cl2))"

definition relay_turn :: "codec \<Rightarrow> relay_world \<Rightarrow> node_client \<Rightarrow> relay_event list \<times> node_client \<times> unit res" where
  "relay_turn cd w cl =
     (case relay_begin (rw_start w) (nc_relay cl) of
        (r, None) \<Rightarrow> ([], cl\<lparr>nc_relay := r\<rparr>, Inr ())
      | (r, Some c) \<Rightarrow>
          (case relay_exchange cd w c (cl\<lparr>nc_relay := r\<rparr>) of
             (evs, cl1, x) \<Rightarrow> (Posted c (rl_response r) (rw_start w) # evs, cl1, x)))"

end
