(* ===== verification/Node_Relay_Props.thy ===== *)
theory Node_Relay_Props
  imports Node_Relay Work_Channel_Props
begin

text \<open>
  The node relays only what its lease covers: every command it hands to the local executor came from
  the controller of its lease while the lease held, every response it posts answers the command
  it forwarded last, in the same session. The end-to-end theorem composes the controller's
  channel, the relay, the local client and the supervisor's service.
\<close>

section \<open>Frames\<close>

lemma unpack_pack:
  assumes "n < 2 ^ 32"
  shows "unpack_length (pack_length n) = n"
proof -
  have "n div 65536 = n div 256 div 256" "n div 16777216 = n div 256 div 256 div 256" by (simp_all add: div_mult2_eq [symmetric])
  moreover have "256 * (m div 256) + m mod 256 = m" for m :: nat by simp
  moreover have "n div 16777216 mod 256 = n div 16777216" using assms by (intro mod_less less_mult_imp_div_less) simp
  ultimately show ?thesis by (simp add: unpack_length_def pack_length_def)
qed

lemma receive_sent:
  assumes "send_frame maximum data = Inr sent" and "maximum < 2 ^ 32"
  shows "receive_frame maximum budget (sent @ rest) = bindr (budget (length data)) (\<lambda>_. Inr data)"
proof -
  have len: "0 < length data" "length data \<le> maximum" and s: "sent = pack_length (length data) @ data"
    using assms(1) by (auto simp: send_frame_def split: if_splits)
  have "length (pack_length n) = 4" for n by (simp add: pack_length_def)
  moreover have "unpack_length (pack_length (length data)) = length data" using len assms(2) by (intro unpack_pack) simp
  ultimately show ?thesis using len by (simp add: s receive_frame_def readexactly_def bindr_def Let_def split: sum.splits)
qed

lemma receive_bound: "receive_frame maximum budget input = Inr data \<Longrightarrow> 0 < length data \<and> length data \<le> maximum \<and> budget (length data) = Inr ()"
  by (auto simp: receive_frame_def readexactly_def Let_def bindr_Inr min_def split: if_splits)

section \<open>Runs of the node\<close>

text \<open>
  Heartbeats and turns of the relay, in any order, with the trace of the relay; the flag says
  whether the relay still runs.
\<close>

inductive node_run :: "codec \<Rightarrow> node_value \<Rightarrow> bool \<Rightarrow> node_client \<Rightarrow> relay_event list \<Rightarrow> bool" for cd v where
  node_new: "node_run cd v True (new_client choice v) []"
| node_beat: "node_run cd v alive cl evs \<Longrightarrow> node_run cd v alive (fst (client_round choice w cl)) evs"
| node_turn: "node_run cd v True cl evs \<Longrightarrow> relay_turn cd w cl = (new, t, x) \<Longrightarrow> node_run cd v (x = Inr ()) t (evs @ new)"

definition value_ids :: "node_value \<Rightarrow> string \<times> string" where
  "value_ids v = (nv_deployment_id v, nv_node_id v)"

definition head_ids :: "reply \<Rightarrow> string \<times> string" where
  "head_ids rp = (rep_deployment_id (reply_head rp), rep_node_id (reply_head rp))"

text \<open>A serialised message is read back as itself, where it is read back at all.\<close>

definition faithful :: "codec \<Rightarrow> bool" where
  "faithful cd \<longleftrightarrow> (\<forall>m n. cd_message_json cd (cd_dump_message_json cd m) = Inr n \<longrightarrow> n = m)"

text \<open>A response that answers the command forwarded last, in its session.\<close>

definition answers_last :: "string \<times> string \<Rightarrow> string \<Rightarrow> reply \<Rightarrow> relay_event list \<Rightarrow> bool" where
  "answers_last ids sid rp evs \<longleftrightarrow>
     (\<exists>us c m now. evs = us @ [Forwarded c m now] \<and> ls_session_id c = sid \<and> rep_id (reply_head rp) = message_id m \<and> head_ids rp = ids)"

definition event_ok :: "string \<times> string \<Rightarrow> relay_event list \<Rightarrow> relay_event \<Rightarrow> bool" where
  "event_ok ids before e =
     (case e of
        Forwarded c m now \<Rightarrow> \<not> is_set_offer m \<and> now < ls_deadline c \<and> value_ids (ls_value c) = ids
      | Posted c response now \<Rightarrow> now < ls_deadline c \<and> value_ids (ls_value c) = ids \<and>
          (\<forall>rp. response = Some rp \<longrightarrow> answers_last ids (ls_session_id c) rp before))"

definition trace_ok :: "string \<times> string \<Rightarrow> relay_event list \<Rightarrow> bool" where
  "trace_ok ids evs \<longleftrightarrow> (\<forall>us e vs. evs = us @ e # vs \<longrightarrow> event_ok ids us e)"

lemma trace_ok_snoc: "trace_ok ids (evs @ [e]) \<longleftrightarrow> trace_ok ids evs \<and> event_ok ids evs e"
proof -
  have "evs @ [e] = us @ d # vs \<longleftrightarrow> vs = [] \<and> us = evs \<and> d = e \<or> (\<exists>ws. vs = ws @ [e] \<and> evs = us @ d # ws)" for us d vs
    by (cases vs rule: rev_cases) auto
  then show ?thesis by (simp only: trace_ok_def) blast
qed

definition lease_ok :: "string \<times> string \<Rightarrow> node_client \<Rightarrow> bool" where
  "lease_ok ids cl \<longleftrightarrow> value_ids (nc_value cl) = ids \<and> pred_option (\<lambda>c. value_ids (ls_value c) = ids) (rl_current (nc_relay cl))"

definition response_ok :: "string \<times> string \<Rightarrow> relay_event list \<Rightarrow> relay \<Rightarrow> bool" where
  "response_ok ids evs r \<longleftrightarrow> (\<forall>rp. rl_response r = Some rp \<longrightarrow> (\<exists>sid. rl_session_id r = Some sid \<and> answers_last ids sid rp evs))"

text \<open>What the heartbeat keeps of the relay: its response and session; its lease names the node.\<close>

definition relay_kept :: "string \<times> string \<Rightarrow> node_client \<Rightarrow> node_client \<Rightarrow> bool" where
  "relay_kept ids cl t \<longleftrightarrow> lease_ok ids t \<and> rl_response (nc_relay t) = rl_response (nc_relay cl) \<and>
     rl_session_id (nc_relay t) = rl_session_id (nc_relay cl)"

lemma relay_kept_trans: "relay_kept ids cl t \<Longrightarrow> relay_kept ids t u \<Longrightarrow> relay_kept ids cl u"
  by (simp add: relay_kept_def)

lemma rotate_kept: "lease_ok ids cl \<Longrightarrow> relay_kept ids cl (fst (client_rotate keyed activated cl))"
  by (auto simp: client_rotate_def relay_kept_def lease_ok_def value_ids_def split: sum.splits)

lemma failed_kept: "lease_ok ids cl \<Longrightarrow> relay_kept ids cl (client_failed choice cl)"
  by (simp add: client_failed_def relay_kept_def lease_ok_def relay_disconnected_def Let_def)

lemma beat_kept: "lease_ok ids cl \<Longrightarrow> relay_kept ids cl (fst (client_beat w (restart_session now cl)))"
  by (auto simp: client_beat_def restart_session_def relay_kept_def lease_ok_def relay_connection_def split: sum.splits)

lemma round_kept:
  assumes "lease_ok ids cl"
  shows "relay_kept ids cl (fst (client_round choice w cl))"
proof -
  obtain cl1 x where 1: "(if rotation_due (ro_wall w) (nc_value cl) then client_rotate (ro_keyed w) (ro_rotated w) cl else (cl, Inr ())) = (cl1, x)"
    by fastforce
  have k1: "relay_kept ids cl cl1" using assms rotate_kept [OF assms, of "ro_keyed w" "ro_rotated w"] 1
    by (auto simp: relay_kept_def split: if_splits)
  obtain cl2 y where 2: "(case ro_collected w of Inl e \<Rightarrow> (cl1, Inl e) | Inr _ \<Rightarrow> client_beat w (restart_session (ro_now w) cl1)) = (cl2, y)"
    by fastforce
  have l1: "lease_ok ids cl1" using k1 by (simp add: relay_kept_def)
  have k2: "relay_kept ids cl1 cl2" using l1 beat_kept [OF l1, of w "ro_now w"] 2 by (auto simp: relay_kept_def split: sum.splits)
  have l2: "lease_ok ids cl2" using k2 by (simp add: relay_kept_def)
  have "fst (client_round choice w cl) \<in> {cl1, cl2, client_failed choice cl1, client_failed choice cl2}"
    unfolding client_round_def 1 by (cases x; cases y) (simp_all add: 2)
  moreover have k12: "relay_kept ids cl cl2" by (rule relay_kept_trans [OF k1 k2])
  ultimately show ?thesis
    using k1 relay_kept_trans [OF k1 failed_kept [OF l1, of choice]] relay_kept_trans [OF k12 failed_kept [OF l2, of choice]] by fastforce
qed

lemma beats_kept: "lease_ok ids cl \<Longrightarrow> relay_kept ids cl (beats ws cl)"
proof (induction ws arbitrary: cl)
  case Nil
  then show ?case by (simp add: beats_def relay_kept_def)
next
  case (Cons a ws)
  obtain choice w where a: "a = (choice, w)" by fastforce
  have "beats (a # ws) cl = beats ws (fst (client_round choice w cl))" by (simp add: beats_def a)
  then show ?case using Cons.IH round_kept [OF Cons.prems, of choice w] relay_kept_trans by (simp add: relay_kept_def)
qed

section \<open>One turn\<close>

lemma client_reply:
  assumes "client_request cd peer m = Inr rp" and "faithful cd"
  shows "lp_uid peer = 0 \<and> rep_id (reply_head rp) = message_id m"
  using assms by (auto simp: client_request_def bindr_Inr faithful_def split: if_splits)

lemma relay_answer_bound:
  assumes "relay_answer c m (client_request cd peer m) = Inr (ok, rp)" and "faithful cd"
  shows "rep_id (reply_head rp) = message_id m \<and> head_ids rp = value_ids (ls_value c)"
  using assms client_reply [of cd peer m]
  by (auto simp: relay_answer_def unavailable_reply_def head_ids_def value_ids_def bindr_Inr bindr_def split: sum.splits if_splits)

lemma relay_failed_keeps:
  "relay_failed e cl = (t, x) \<Longrightarrow> lease_ok ids cl \<Longrightarrow> lease_ok ids t \<and> (x = Inr () \<longrightarrow> rl_response (nc_relay t) = None)"
  by (auto simp: relay_failed_def on_relay_def lease_ok_def split: if_splits)

lemma relay_command_ok:
  assumes "relay_command cd w c command cl = (new, t, x)" and "faithful cd" and "lease_ok ids cl"
    and "value_ids (ls_value c) = ids" and "rw_checked w < ls_deadline c"
    and "rl_session_id (nc_relay cl) = Some (ls_session_id c)" and "rl_response (nc_relay cl) = None"
  shows "lease_ok ids t \<and> (new = [] \<or> (\<exists>m. new = [Forwarded c m (rw_checked w)] \<and> \<not> is_set_offer m)) \<and>
    (x = Inr () \<longrightarrow> response_ok ids (us @ new) (nc_relay t))"
proof (cases "cd_message cd command")
  case (Inl e)
  then show ?thesis using assms relay_failed_keeps [of e cl t x ids] by (simp add: relay_command_def response_ok_def)
next
  case (Inr m)
  let ?cl = "beats (rw_during_request w) cl"
  note keep = beats_kept [OF assms(3), of "rw_during_request w", unfolded relay_kept_def]
  show ?thesis
  proof (cases "is_set_offer m")
    case True
    then show ?thesis using assms Inr relay_failed_keeps [of ValueError cl t x ids] by (simp add: relay_command_def response_ok_def)
  next
    case False
    show ?thesis
    proof (cases "relay_answer c m (client_request cd (rw_peer w) m)")
      case (Inl e)
      then have "new = [Forwarded c m (rw_checked w)]" "relay_failed e ?cl = (t, x)" using assms(1) Inr False by (auto simp: relay_command_def Let_def)
      then show ?thesis using False keep relay_failed_keeps [of e ?cl t x ids] by (simp add: response_ok_def)
    next
      case (Inr p)
      obtain ok rp where p: "p = (ok, rp)" by fastforce
      have "answers_last ids (ls_session_id c) rp (us @ [Forwarded c m (rw_checked w)])"
        using relay_answer_bound [OF Inr [unfolded p] assms(2)] assms(4) by (auto simp: answers_last_def)
      then show ?thesis using assms(1,6) \<open>cd_message cd command = Inr m\<close> False Inr p keep
        by (auto simp: relay_command_def Let_def on_relay_def lease_ok_def response_ok_def split: if_splits)
    qed
  qed
qed

lemma relay_exchange_ok:
  assumes "relay_exchange cd w c cl = (new, t, x)" and "faithful cd" and "lease_ok ids cl" and "value_ids (ls_value c) = ids"
    and "rl_session_id (nc_relay cl) = Some (ls_session_id c)"
  shows "lease_ok ids t \<and> (new = [] \<or> (\<exists>m. new = [Forwarded c m (rw_checked w)] \<and> \<not> is_set_offer m \<and> rw_checked w < ls_deadline c)) \<and>
    (x = Inr () \<longrightarrow> response_ok ids (us @ new) (nc_relay t))"
proof (cases "rw_post w (exchange_body cd (ls_session_id c) (rl_response (nc_relay cl)))")
  case (Inl e)
  then have "new = []" "relay_failed e (beats (rw_during_post w) cl) = (t, x)" using assms(1) by (auto simp: relay_exchange_def Let_def)
  then show ?thesis using beats_kept [OF assms(3), of "rw_during_post w"] relay_failed_keeps [of e "beats (rw_during_post w) cl" t x ids]
    by (simp add: response_ok_def relay_kept_def)
next
  case (Inr result)
  let ?cl = "on_relay (\<lambda>r. r\<lparr>rl_response := None\<rparr>) (beats (rw_during_post w) cl)"
  have cl: "lease_ok ids ?cl" "rl_session_id (nc_relay ?cl) = Some (ls_session_id c)" "rl_response (nc_relay ?cl) = None"
    using beats_kept [OF assms(3), of "rw_during_post w"] assms(5) by (simp_all add: on_relay_def lease_ok_def relay_kept_def)
  show ?thesis
  proof (cases "envelope_command c result")
    case (Inl e)
    then show ?thesis using assms(1) Inr cl relay_failed_keeps [of e ?cl t x ids] by (simp add: relay_exchange_def Let_def response_ok_def)
  next
    case (Inr command)
    show ?thesis
    proof (cases "relay_valid (rw_checked w) c (nc_relay ?cl) \<and> command \<noteq> JNull")
      case True
      then have "rw_checked w < ls_deadline c" by (auto simp: relay_valid_def split: option.splits)
      moreover have "relay_command cd w c command ?cl = (new, t, x)"
        using assms(1) True Inr \<open>rw_post w _ = Inr result\<close> by (simp add: relay_exchange_def Let_def)
      ultimately show ?thesis using relay_command_ok [OF _ assms(2) cl(1) assms(4) _ cl(2,3)] by blast
    next
      case False
      then have "new = []" "t = ?cl" using assms(1) Inr \<open>rw_post w _ = Inr result\<close> by (auto simp: relay_exchange_def Let_def)
      then show ?thesis using cl by (simp add: response_ok_def)
    qed
  qed
qed

lemma relay_turn_ok:
  assumes "relay_turn cd w cl = (new, t, x)" and "faithful cd" and "lease_ok ids cl" and "trace_ok ids evs"
    and "response_ok ids evs (nc_relay cl)"
  shows "lease_ok ids t \<and> trace_ok ids (evs @ new) \<and> (x = Inr () \<longrightarrow> response_ok ids (evs @ new) (nc_relay t))"
proof (cases "relay_begin (rw_start w) (nc_relay cl)")
  case (Pair r l)
  show ?thesis
  proof (cases l)
    case None
    then have "rl_response r = None" "pred_option P (rl_current r) = pred_option P (rl_current (nc_relay cl))" for P
      using Pair by (auto simp: relay_begin_def split: option.splits if_splits)
    then show ?thesis using assms Pair None by (auto simp: relay_turn_def response_ok_def lease_ok_def)
  next
    case (Some c)
    have c: "rl_current (nc_relay cl) = Some c" "rl_current r = Some c" "rl_session_id r = Some (ls_session_id c)" "rw_start w < ls_deadline c"
      "rl_response r = Some rp \<Longrightarrow> rl_response (nc_relay cl) = Some rp \<and> rl_session_id (nc_relay cl) = Some (ls_session_id c)" for rp
      using Pair Some by (auto simp: relay_begin_def relay_valid_def split: option.splits if_splits)
    have ids: "value_ids (ls_value c) = ids" "lease_ok ids (cl\<lparr>nc_relay := r\<rparr>)" using assms(3) c by (auto simp: lease_ok_def)
    obtain more where more: "relay_exchange cd w c (cl\<lparr>nc_relay := r\<rparr>) = (more, t, x)" "new = Posted c (rl_response r) (rw_start w) # more"
      using assms(1) Pair Some by (auto simp: relay_turn_def split: prod.splits)
    let ?evs = "evs @ [Posted c (rl_response r) (rw_start w)]"
    have t: "trace_ok ids ?evs"
      using assms(4,5) c ids(1) by (auto simp: trace_ok_snoc event_ok_def response_ok_def dest!: c(5))
    have "rl_session_id (nc_relay (cl\<lparr>nc_relay := r\<rparr>)) = Some (ls_session_id c)" using c(3) by simp
    note relay_exchange_ok [OF more(1) assms(2) ids(2) ids(1) this, of ?evs]
    then have x: "lease_ok ids t" "more = [] \<or> (\<exists>m. more = [Forwarded c m (rw_checked w)] \<and> \<not> is_set_offer m \<and> rw_checked w < ls_deadline c)"
      "x = Inr () \<longrightarrow> response_ok ids (evs @ new) (nc_relay t)" by (simp_all add: more(2))
    then have "trace_ok ids (?evs @ more)" using t ids(1) by (auto simp only: trace_ok_snoc append_Nil2 event_ok_def relay_event.case)
    then show ?thesis using x by (simp add: more(2))
  qed
qed

lemma node_run_inv:
  assumes "node_run cd v alive cl evs" and "faithful cd"
  shows "lease_ok (value_ids v) cl \<and> trace_ok (value_ids v) evs \<and> (alive \<longrightarrow> response_ok (value_ids v) evs (nc_relay cl))"
  using assms(1)
proof induction
  case (node_new choice)
  then show ?case by (simp add: lease_ok_def new_client_def new_relay_def trace_ok_def response_ok_def)
next
  case (node_beat alive cl evs choice w)
  then show ?case using round_kept [of "value_ids v" cl choice w] by (auto simp: response_ok_def relay_kept_def)
next
  case (node_turn cl evs w new t x)
  then have "lease_ok (value_ids v) cl" "trace_ok (value_ids v) evs" "response_ok (value_ids v) evs (nc_relay cl)" by simp_all
  from relay_turn_ok [OF node_turn.hyps(2) assms(2) this] show ?case .
qed

text \<open>
  C32: a contributor relays only what its lease covers. In every interleaving of heartbeats,
  rotations of the certificate and turns of the relay: a command is handed to the local executor
  only while the lease it came under has not expired, for the node's own deployment and
  identity, and is never one that changes the local offer; and a response is posted to the
  controller only if it answers the command forwarded immediately before, in the same session, names
  exactly this command, and carries the node's own deployment and identity. So no response is
  posted twice, and none crosses a reconnection into another session.
\<close>

theorem relay_answers_last_command:
  assumes "node_run cd v alive cl evs" and "faithful cd"
  shows "(\<forall>c m now. Forwarded c m now \<in> set evs \<longrightarrow> \<not> is_set_offer m \<and> now < ls_deadline c \<and> value_ids (ls_value c) = value_ids v) \<and>
    (\<forall>us c rp now vs. evs = us @ Posted c (Some rp) now # vs \<longrightarrow> now < ls_deadline c \<and>
       (\<exists>earlier d m past. us = earlier @ [Forwarded d m past] \<and> ls_session_id d = ls_session_id c \<and>
          rep_id (reply_head rp) = message_id m \<and> rep_deployment_id (reply_head rp) = nv_deployment_id v \<and> rep_node_id (reply_head rp) = nv_node_id v))"
proof -
  have ok: "event_ok (value_ids v) us e" if "evs = us @ e # vs" for us e vs
    using node_run_inv [OF assms] that by (simp add: trace_ok_def)
  have "event_ok (value_ids v) us (Forwarded c m now)" if "evs = us @ Forwarded c m now # vs" for us c m now vs using ok that by blast
  then show ?thesis using ok
    by (fastforce simp: in_set_conv_decomp event_ok_def answers_last_def head_ids_def value_ids_def)
qed

section \<open>The two ends of a lease\<close>

lemma acknowledged:
  assumes "acknowledgement v sid sequence (heartbeat_fields r available) cr = Inr (s, every, a, until)"
  shows "s = hr_session_id r \<and> hr_node_id r = nv_node_id v \<and> hr_sequence r = sequence \<and> 0 < hr_lease_seconds r \<and> hr_lease_seconds r \<le> 30 \<and>
    cr_end cr < until \<and> until = min (cr_started cr + hr_lease_seconds r) (cr_mono cr + mt_expires_at (nv_current v) - cr_wall cr)"
  using assms by (auto simp: acknowledgement_def heartbeat_fields_def equals_int_def Let_def split: if_splits)

lemma heartbeat_answer:
  assumes "heartbeat e token f m transport s = (t, Inr r)"
  shows "\<exists>c. map_of (co_sessions t) (hr_node_id r) = Some c \<and> se_id c = hr_session_id r \<and> se_sequence c = hr_sequence r \<and>
    hr_lease_seconds r = max 0 (se_deadline c - ce_mono e 5)"
  using assms by (auto simp: heartbeat_def Let_def bindr_Inr update_conv' split: sum.splits prod.splits if_splits)

text \<open>
  C33: the node's lease ends before the controller's. When the controller answered a heartbeat and the
  node accepted the answer, the lease the node keeps is of exactly the session the controller
  holds for this node, and it ends no later than the controller's session: the node counts the
  lease from before it sent the heartbeat, whatever the offset between the two monotonic clocks.
  It also ends within thirty seconds and with the node's certificate, and has not ended yet.
\<close>

theorem node_lease_within_session:
  assumes "heartbeat e token f m transport s = (t, Inr r)"
    and "cr_started cr \<le> ce_mono e 5 + offset"
    and "acknowledgement v sid sequence (heartbeat_fields r available) cr = Inr (session, every, a, until)"
  shows "\<exists>c. map_of (co_sessions t) (nv_node_id v) = Some c \<and> se_id c = session \<and> se_sequence c = sequence \<and> until \<le> se_deadline c + offset \<and>
    until \<le> cr_started cr + 30 \<and> until \<le> cr_mono cr + (mt_expires_at (nv_current v) - cr_wall cr) \<and> cr_end cr < until"
  using heartbeat_answer [OF assms(1)] acknowledged [OF assms(3)] assms(2) by (auto simp: min_def max_def split: if_splits)

end
