(* ===== verification/Node_Relay_Trip.thy ===== *)
theory Node_Relay_Trip
  imports Node_Relay_Props Exec_Service_Props
begin

text \<open>
  The way of one command through the whole system: the controller's channel, the node's relay, the
  local client, the supervisor's service, and the reply back to the request that waits.
\<close>

section \<open>The supervisor's end\<close>

lemma message_header: "valid_message m \<Longrightarrow> message_version m = 1"
  by (cases m) (auto simp: valid_request_def valid_bound_request_def)

lemma dispatch_header:
  assumes "dispatch_message world m sv = (sv1, Inr rp)"
  shows "rep_id (reply_head rp) = message_id m \<and> head_ids rp = (set_deployment_id (sup_settings (svc_sup sv)), set_node_id (sup_settings (svc_sup sv)))"
  using assms
  by (cases m) (auto simp: bound_reply_def batch_reply_def header_of_def head_ids_def split: prod.splits sum.splits)

lemma answer_header:
  assumes "answer world m uid sv = (sv1, Some rp)"
  shows "valid_reply rp \<and> rep_version (reply_head rp) = 1 \<and> rep_id (reply_head rp) = message_id m \<and>
    head_ids rp = (set_deployment_id (sup_settings (svc_sup sv)), set_node_id (sup_settings (svc_sup sv))) \<and>
    uid \<in> {0, set_transport_uid (sup_settings (svc_sup sv))} \<union> set (set_local_owner_uids (sup_settings (svc_sup sv)))"
proof -
  have valid: "valid_reply rp" and uid: "uid \<in> {0, set_transport_uid (sup_settings (svc_sup sv))} \<union> set (set_local_owner_uids (sup_settings (svc_sup sv)))"
    using assms by (auto simp: answer_def Let_def split: if_splits prod.splits)
  have "rep_version (reply_head rp) = 1" using valid by (cases rp) (simp_all add: valid_header_def)
  moreover have "rep_id (reply_head rp) = message_id m \<and> head_ids rp = (set_deployment_id (sup_settings (svc_sup sv)), set_node_id (sup_settings (svc_sup sv)))"
  proof (cases "snd (dispatch world m uid sv)")
    case (Inl e)
    then show ?thesis using assms by (auto simp: answer_def Let_def head_ids_def split: if_splits prod.splits)
  next
    case (Inr x)
    then have "x = rp" using assms by (auto simp: answer_def Let_def split: if_splits prod.splits)
    then have "dispatch_message world m sv = (fst (dispatch world m uid sv), Inr rp)"
      using Inr by (auto simp: dispatch_def prod_eq_iff split: sum.splits)
    then show ?thesis by (rule dispatch_header)
  qed
  ultimately show ?thesis using valid uid by blast
qed

section \<open>The wire\<close>

text \<open>
  What a command and a reply need on their way: they are within their frames, and pydantic reads
  back what it wrote, in the three places where a message and the two where a reply is read.
\<close>

definition transmits :: "codec \<Rightarrow> message \<Rightarrow> bool" where
  "transmits cd m \<longleftrightarrow> cd_message cd (cd_dump_message cd m) = Inr m \<and> cd_message_json cd (cd_dump_message_json cd m) = Inr m \<and>
     cd_message_json cd (encoded (cd_dump_message cd m)) = Inr m \<and> cd_dump_message cd m \<noteq> JNull \<and>
     length (encoded (cd_dump_message cd m)) \<le> MAX_MESSAGE"

definition returns :: "codec \<Rightarrow> (json \<Rightarrow> reply res) \<Rightarrow> reply \<Rightarrow> bool" where
  "returns cd validate rp \<longleftrightarrow> cd_reply_json cd (encoded (cd_dump_reply cd rp)) = Inr rp \<and> validate (cd_dump_reply cd rp) = Inr rp \<and>
     length (encoded (cd_dump_reply cd rp)) \<le> MAX_REPLY"

lemma encoded_sent: "length (encoded v) \<le> maximum \<Longrightarrow> send_frame maximum (encoded v) = Inr (pack_length (length (encoded v)) @ encoded v)"
  using dumps_tag [of v] by (auto simp: send_frame_def encoded_def)

text \<open>The free capacity of the supervisor's server for a connection with a frame of \<open>n\<close> bytes.\<close>

definition accepts :: "server \<Rightarrow> nat \<Rightarrow> bool" where
  "accepts srv n \<longleftrightarrow> srv_connections srv < 16 \<and> srv_request_bytes srv + int n \<le> 16 * 1024 * 1024"

definition served_by :: "codec \<Rightarrow> (nat \<Rightarrow> item_world) \<Rightarrow> nat \<Rightarrow> int \<Rightarrow> server \<Rightarrow> service \<Rightarrow> local_peer" where
  "served_by cd world i uid srv sv = \<lparr>lp_connect = Inr (), lp_uid = 0, lp_answer = (\<lambda>b. Inr (snd (accept_connection cd world i uid srv b sv)))\<rparr>"

lemma connection_answers:
  assumes "transmits cd m" and "returns cd validate rp" and "answer world m uid sv = (sv1, Some rp)"
    and "accepts srv (length (encoded (cd_dump_message cd m)))"
    and "send_frame MAX_MESSAGE (encoded (cd_dump_message cd m)) = Inr sent"
  shows "\<exists>out. send_frame MAX_REPLY (encoded (cd_dump_reply cd rp)) = Inr out \<and> accept_connection cd world i uid srv sent sv = (sv1, out)"
proof -
  obtain out where out: "send_frame MAX_REPLY (encoded (cd_dump_reply cd rp)) = Inr out"
    using assms(2) encoded_sent [of "cd_dump_reply cd rp" MAX_REPLY] by (simp add: returns_def)
  obtain srv1 where srv1: "accept_begin i srv = Some srv1" "srv_request_bytes srv1 = srv_request_bytes srv"
    using assms(4) by (auto simp: accepts_def accept_begin_def)
  have "\<exists>s. accept_reserve i (int (length (encoded (cd_dump_message cd m)))) srv1 = Inr s"
    using assms(4) srv1 by (auto simp: accepts_def accept_reserve_def)
  then have "receive_frame MAX_MESSAGE (\<lambda>n. bindr (accept_reserve i (int n) srv1) (\<lambda>_. Inr ())) sent = Inr (encoded (cd_dump_message cd m))"
    using receive_sent [OF assms(5), of _ "[]"] by (auto simp: MAX_MESSAGE_def bindr_def)
  moreover have "decode_message (cd_message_json cd) (encoded (cd_dump_message cd m)) = Inr m"
    using assms(1) by (simp add: transmits_def decode_message_def)
  ultimately have "bindr (receive_frame MAX_MESSAGE (\<lambda>n. bindr (accept_reserve i (int n) srv1) (\<lambda>_. Inr ())) sent) (decode_message (cd_message_json cd)) = Inr m"
    by (simp add: bindr_def)
  then show ?thesis using answer_header [OF assms(3)] srv1(1) assms(3) out by (auto simp: accept_connection_def Let_def)
qed

lemma client_served:
  assumes "transmits cd m" and "returns cd validate rp" and "valid_message m" and "answer world m uid sv = (sv1, Some rp)"
    and "accepts srv (length (encoded (cd_dump_message cd m)))"
  shows "client_request cd (served_by cd world i uid srv sv) m = Inr rp"
proof -
  obtain sent where sent: "send_frame MAX_MESSAGE (encoded (cd_dump_message cd m)) = Inr sent"
    using assms(1) encoded_sent [of "cd_dump_message cd m" MAX_MESSAGE] by (simp add: transmits_def)
  obtain out where out: "send_frame MAX_REPLY (encoded (cd_dump_reply cd rp)) = Inr out" "accept_connection cd world i uid srv sent sv = (sv1, out)"
    using connection_answers [OF assms(1,2,4,5) sent] by blast
  have "receive_frame MAX_REPLY (\<lambda>_. Inr ()) out = Inr (encoded (cd_dump_reply cd rp))"
    using receive_sent [OF out(1), of "\<lambda>_. Inr ()" "[]"] by (simp add: MAX_REPLY_def bindr_def)
  then show ?thesis
    using assms(1,2) sent out(2) answer_header [OF assms(4)] message_header [OF assms(3)]
    by (simp add: client_request_def served_by_def transmits_def returns_def bindr_def decode_reply_def)
qed

section \<open>The node's turn\<close>

lemma envelope_read:
  assumes "value_ids (ls_value c) = (cfg_deployment_id cfg, node)" and "ls_session_id c = sid"
  shows "envelope_command c (channel_envelope cfg node sid command) = Inr command"
  using assms by (auto simp: envelope_command_def channel_envelope_def value_ids_def)

definition leased :: "relay_world \<Rightarrow> rat \<Rightarrow> lease \<Rightarrow> node_client \<Rightarrow> bool" where
  "leased w later c cl \<longleftrightarrow> rl_current (nc_relay cl) = Some c \<and> rw_during_post w = [] \<and> rw_during_request w = [] \<and>
     max (max (rw_start w) (rw_checked w)) (max (rw_end w) later) < ls_deadline c"

lemma leased_valid:
  assumes "leased w later c cl" and "rl_current r = Some c"
  shows "relay_valid (rw_start w) c r" "relay_valid (rw_checked w) c r" "relay_valid (rw_end w) c r" "relay_valid later c r"
  using assms by (auto simp: leased_def relay_valid_def)

lemma relay_turn_served:
  assumes lease: "leased w later c cl" "value_ids (ls_value c) = (cfg_deployment_id cfg, node)" "ls_session_id c = sid"
    and post: "\<And>body. rw_post w body = Inr (channel_envelope cfg node sid (cd_dump_message cd m))"
    and got: "transmits cd m" "\<not> is_set_offer m" "client_request cd (rw_peer w) m = Inr rp" "head_ids rp = value_ids (ls_value c)"
  shows "\<exists>posted t. relay_turn cd w cl = ([Posted c posted (rw_start w), Forwarded c m (rw_checked w)], t, Inr ()) \<and>
    rl_response (nc_relay t) = Some rp \<and> relay_begin later (nc_relay t) = (nc_relay t, Some c)"
proof -
  have cur: "rl_current (nc_relay cl) = Some c" "rw_during_post w = []" "rw_during_request w = []" using lease(1) by (simp_all add: leased_def)
  obtain r where r: "relay_begin (rw_start w) (nc_relay cl) = (r, Some c)" "rl_current r = Some c" "rl_session_id r = Some sid"
    using leased_valid(1) [OF lease(1) cur(1)] cur(1) lease(3) by (cases "rl_session_id (nc_relay cl) = Some sid") (auto simp: relay_begin_def)
  have a: "relay_answer c m (client_request cd (rw_peer w) m) = Inr (reply_ok rp, rp)"
    using got(3,4) by (auto simp: relay_answer_def bindr_def head_ids_def value_ids_def)
  let ?r = "r\<lparr>rl_response := Some rp, rl_available := reply_ok rp\<rparr>"
  let ?cl = "cl\<lparr>nc_relay := r\<lparr>rl_response := None\<rparr>\<rparr>"
  have "relay_command cd w c (cd_dump_message cd m) ?cl = ([Forwarded c m (rw_checked w)], cl\<lparr>nc_relay := ?r\<rparr>, Inr ())"
    using got(1,2) a cur(3) leased_valid(3) [OF lease(1), of "r\<lparr>rl_response := None\<rparr>"] r(2)
    by (simp add: relay_command_def transmits_def beats_def on_relay_def)
  moreover have "cd_dump_message cd m \<noteq> JNull" using got(1) by (simp add: transmits_def)
  ultimately have "relay_exchange cd w c (cl\<lparr>nc_relay := r\<rparr>) = ([Forwarded c m (rw_checked w)], cl\<lparr>nc_relay := ?r\<rparr>, Inr ())"
    using post envelope_read [OF lease(2,3)] leased_valid(2) [OF lease(1), of "r\<lparr>rl_response := None\<rparr>"] r(2) cur(2)
    by (simp add: relay_exchange_def on_relay_def beats_def)
  then have "relay_turn cd w cl = ([Posted c (rl_response r) (rw_start w), Forwarded c m (rw_checked w)], cl\<lparr>nc_relay := ?r\<rparr>, Inr ())"
    using r(1) by (simp add: relay_turn_def)
  moreover have "relay_begin later ?r = (?r, Some c)" using leased_valid(4) [OF lease(1), of ?r] r lease(3) by (simp add: relay_begin_def)
  ultimately show ?thesis by fastforce
qed

section \<open>The controller's end\<close>

text \<open>The polls of one contributor, under the connection the request found.\<close>

definition polls_as :: "contributor_settings \<Rightarrow> contributors \<Rightarrow> string \<Rightarrow> string \<Rightarrow> string \<Rightarrow> turn \<Rightarrow> bool" where
  "polls_as cfg con node sid f tn \<longleftrightarrow> turn_guard cfg tn node sid f con = Inr () \<and> tn_check tn = Inr ()"

lemma polled_bound:
  assumes "polls_as cfg con node sid f tn" and "pn_session_id (ch_objects ch ! k) = sid" and "pn_fingerprint (ch_objects ch ! k) = f"
  shows "bound cfg tn con node k sid f ch = (ch, Inr ())"
  using assms by (simp add: bound_def polls_as_def)

lemma request_waits:
  assumes "request_begin cfg tn con node m ch = (ch1, Inr k)"
  shows "valid_message m \<and> \<not> is_set_offer m \<and> map_of (ch_pending ch1) node = Some k \<and> k < length (ch_objects ch1) \<and> ch_polling ch1 = ch_polling ch \<and>
    (\<exists>s. map_of (co_sessions con) node = Some s \<and> ch_objects ch1 ! k = new_command m s)"
  using assms by (auto simp: request_begin_def channel_session_def bindr_Inr Let_def update_conv' split: if_splits sum.splits option.splits)

lemma poll_delivers:
  assumes "polls_as cfg con node sid f tn" and "map_of (ch_pending ch) node = Some k" and "ch_objects ch ! k = new_command m s"
    and "se_id s = sid" and "se_fingerprint s = f"
  shows "exchange_turn cfg tn con node sid f ch =
    (ch\<lparr>ch_objects := (ch_objects ch)[k := (new_command m s)\<lparr>pn_delivered := True\<rparr>]\<rparr>, Inr (Some m))"
proof -
  have "bound cfg tn con node k sid f ch = (ch, Inr ())" using assms by (intro polled_bound) (simp_all add: new_command_def)
  then show ?thesis using assms by (simp add: exchange_turn_def polls_as_def new_command_def)
qed

lemma response_resolves:
  assumes poll: "polls_as cfg con node sid f tn" "polls_as cfg con node sid f tn'"
    and auth: "authenticate (tn_now tn) f False (co_db con) = Inr (n, cert)" "cn_id n = node" "node \<notin> set (ch_polling ch)"
    and cmd: "map_of (ch_pending ch) node = Some k" "k < length (ch_objects ch)"
      "ch_objects ch ! k = (new_command m s)\<lparr>pn_delivered := True\<rparr>" "se_id s = sid" "se_fingerprint s = f"
    and rp: "returns cd validate rp" "rep_id (reply_head rp) = message_id m" "head_ids rp = (cfg_deployment_id cfg, node)"
  shows "\<exists>t u. exchange_open cfg validate tn con f \<lparr>xm_session_id = sid, xm_response = Some (cd_dump_reply cd rp)\<rparr> ch = (t, Inr node) \<and>
    request_end cfg tn' con node k t = (u, Inr rp)"
proof -
  have b: "bound cfg tn con node k sid f ch = (ch, Inr ())" using poll(1) cmd by (intro polled_bound) (simp_all add: new_command_def)
  have "accept_response cfg validate tn con node sid f (cd_dump_reply cd rp) ch = (resolve k (Answered rp) ch, Inr ())"
    using rp cmd(1,3) b by (simp add: accept_response_def returns_def head_ids_def new_command_def)
  then have "exchange_open cfg validate tn con f \<lparr>xm_session_id = sid, xm_response = Some (cd_dump_reply cd rp)\<rparr> ch =
      ((resolve k (Answered rp) ch)\<lparr>ch_polling := node # ch_polling ch\<rparr>, Inr node)"
    using auth poll(1) by (simp add: exchange_open_def polls_as_def bindr_def resolve_def)
  moreover have "\<exists>u. request_end cfg tn' con node k ((resolve k (Answered rp) ch)\<lparr>ch_polling := node # ch_polling ch\<rparr>) = (u, Inr rp)"
    using poll(2) cmd by (simp add: request_end_def resolve_def resolved_with_def new_command_def polls_as_def bindr_def)
  ultimately show ?thesis by blast
qed

text \<open>
  C31: a command makes its way through the whole system and its request returns the executor's own
  reply. The controller accepts a request for a connected contributor; the contributor's poll
  delivers it; the relay, whose lease covers the exchange, hands it to the local executor, which
  has room for the connection and answers it; the next poll carries this answer; and the request
  returns exactly the reply the supervisor's service gave to exactly this command. In between,
  the command crosses the socket as a frame within its bound, and so does the reply.
\<close>

theorem command_round_trip:
  assumes request: "request_begin cfg tn0 con node m ch0 = (ch, Inr k)"
    and contributor: "map_of (co_sessions con) node = Some s" "se_id s = sid" "se_fingerprint s = f"
      "authenticate (tn_now tn2) f False (co_db con) = Inr (n, cert)" "cn_id n = node"
    and polls: "polls_as cfg con node sid f tn1" "polls_as cfg con node sid f tn2" "polls_as cfg con node sid f tn3"
    and lease: "leased w later c cl" "value_ids (ls_value c) = (cfg_deployment_id cfg, node)" "ls_session_id c = sid"
    and network: "\<And>body. rw_post w body = Inr (channel_envelope cfg node sid (cd_dump_message cd m))" "transmits cd m" "returns cd validate rp"
    and executor: "rw_peer w = served_by cd world i uid srv sv" "accepts srv (length (encoded (cd_dump_message cd m)))"
      "answer world m uid sv = (sv1, Some rp)"
      "(set_deployment_id (sup_settings (svc_sup sv)), set_node_id (sup_settings (svc_sup sv))) = value_ids (ls_value c)"
  shows "\<exists>ch1 posted t ch2 u.
    exchange_turn cfg tn1 con node sid f ch = (ch1, Inr (Some m)) \<and>
    relay_turn cd w cl = ([Posted c posted (rw_start w), Forwarded c m (rw_checked w)], t, Inr ()) \<and>
    relay_begin later (nc_relay t) = (nc_relay t, Some c) \<and> rl_response (nc_relay t) = Some rp \<and>
    exchange_open cfg validate tn2 con f \<lparr>xm_session_id = sid, xm_response = Some (cd_dump_reply cd rp)\<rparr> (exchange_close node ch1) = (ch2, Inr node) \<and>
    request_end cfg tn3 con node k ch2 = (u, Inr rp)"
proof -
  have q: "valid_message m" "\<not> is_set_offer m" "map_of (ch_pending ch) node = Some k" "k < length (ch_objects ch)" "ch_objects ch ! k = new_command m s"
    using request_waits [OF request] contributor(1) by auto
  let ?ch = "ch\<lparr>ch_objects := (ch_objects ch)[k := (new_command m s)\<lparr>pn_delivered := True\<rparr>]\<rparr>"
  have d: "exchange_turn cfg tn1 con node sid f ch = (?ch, Inr (Some m))" by (rule poll_delivers [OF polls(1) q(3,5) contributor(2,3)])
  have h: "rep_id (reply_head rp) = message_id m" "head_ids rp = value_ids (ls_value c)" using answer_header [OF executor(3)] executor(4) by auto
  have "client_request cd (rw_peer w) m = Inr rp" using client_served [OF network(2,3) q(1) executor(3,2)] executor(1) by simp
  then have r: "\<exists>posted t. relay_turn cd w cl = ([Posted c posted (rw_start w), Forwarded c m (rw_checked w)], t, Inr ()) \<and>
      rl_response (nc_relay t) = Some rp \<and> relay_begin later (nc_relay t) = (nc_relay t, Some c)"
    by (rule relay_turn_served [OF lease network(1,2) q(2) _ h(2)])
  have "\<exists>t u. exchange_open cfg validate tn2 con f \<lparr>xm_session_id = sid, xm_response = Some (cd_dump_reply cd rp)\<rparr> (exchange_close node ?ch) = (t, Inr node) \<and>
      request_end cfg tn3 con node k t = (u, Inr rp)"
    by (rule response_resolves [OF polls(2,3) contributor(4,5)])
      (use q contributor network(3) h lease(2) in \<open>simp_all add: exchange_close_def\<close>)
  with d r show ?thesis by blast
qed

end
