(* ===== verification/Node_Relay_Run.thy ===== *)
theory Node_Relay_Run
  imports Node_Relay_Trip
begin

text \<open>
  A concrete exchange: a connected node, the command of the executor's example, and the reply of
  its service, for the transport account.
\<close>

definition ex_node_service :: service where
  "ex_node_service = \<lparr>svc_sup = ex_sup0\<lparr>sup_settings := ex_settings\<lparr>set_deployment_id := ex_id (CHR ''d'')\<rparr>\<rparr>, svc_streams = []\<rparr>"

definition ex_node_reply :: reply where
  "ex_node_reply = BatchReply \<lparr>rep_version = 1, rep_id = ex_id (CHR ''5''), rep_deployment_id = ex_id (CHR ''d''), rep_node_id = ex_id (CHR ''1'')\<rparr>
     [Refused ex_asked (service_error (Conflict (Sentence Not_current_attempt)))]"

definition ex_codec :: codec where
  "ex_codec = \<lparr>cd_message = (\<lambda>v. if v = JStr ''m'' then Inr ex_message else Inl ValueError),
     cd_message_json = (\<lambda>s. if s = encoded (JStr ''m'') \<or> s = ''m'' then Inr ex_message else Inl ValueError),
     cd_dump_message = (\<lambda>_. JStr ''m''), cd_dump_message_json = (\<lambda>m. if m = ex_message then ''m'' else []),
     cd_reply_json = (\<lambda>s. if s = encoded (JStr ''r'') then Inr ex_node_reply else Inl ValueError), cd_dump_reply = (\<lambda>_. JStr ''r'')\<rparr>"

definition ex_validate :: "json \<Rightarrow> reply res" where
  "ex_validate v = (if v = JStr ''r'' then Inr ex_node_reply else Inl ValueError)"

definition ex_node_value :: node_value where
  "ex_node_value = \<lparr>nv_deployment_id = ex_id (CHR ''d''), nv_node_id = ex_id (CHR ''1''),
     nv_current = \<lparr>mt_fields = JNull, mt_not_before = 0, mt_expires_at = 10000\<rparr>, nv_pending = False\<rparr>"

definition ex_node_lease :: "string \<Rightarrow> lease" where
  "ex_node_lease sid = \<lparr>ls_value = ex_node_value, ls_session_id = sid, ls_deadline = 70, ls_certificate = nv_current ex_node_value\<rparr>"

definition ex_server :: server where
  "ex_server = \<lparr>srv_connections = 0, srv_request_bytes = 0, srv_held = []\<rparr>"

definition ex_link :: "string \<Rightarrow> relay_world" where
  "ex_link sid = \<lparr>rw_start = 51, rw_post = (\<lambda>_. Inr (channel_envelope ex_cfg (ex_id (CHR ''1'')) sid (JStr ''m''))), rw_during_post = [], rw_checked = 52,
     rw_peer = served_by ex_codec (\<lambda>_. ex_world) 0 500 ex_server ex_node_service, rw_during_request = [], rw_end = 53\<rparr>"

lemma ex_encoded: "encoded (JStr ''m'') = [CHR 0x22, CHR ''m'', CHR 0x22]" "encoded (JStr ''r'') = [CHR 0x22, CHR ''r'', CHR 0x22]"
  by code_simp+

lemma ex_transmits: "transmits ex_codec ex_message" "returns ex_codec ex_validate ex_node_reply" "faithful ex_codec"
  by (auto simp: transmits_def returns_def faithful_def ex_codec_def ex_validate_def ex_encoded MAX_MESSAGE_def MAX_REPLY_def split: if_splits)

lemma ex_room: "accepts ex_server (length (encoded (cd_dump_message ex_codec ex_message)))"
  by (simp add: accepts_def ex_server_def ex_codec_def ex_encoded)

lemma ex_reply_valid: "valid_reply ex_node_reply"
  by code_simp

lemma ex_answer: "answer (\<lambda>_. ex_world) ex_message 500 ex_node_service = (ex_node_service, Some ex_node_reply)"
proof -
  have "fenced_by ex_asked (svc_sup ex_node_service) = Inl (Conflict (Sentence Not_current_attempt))"
    by (simp add: fenced_by_def fenced_def ex_node_service_def ex_sup0_def ex_led0_def ex_open_def get_def find_row_def empty_ledger_def)
  then have "dispatch (\<lambda>_. ex_world) ex_message 500 ex_node_service = (ex_node_service, Inr ex_node_reply)"
    by (simp add: dispatch_def ex_message_def authorize_def batch_reply_def ex_node_service_def attempt_item_def control_op_def ex_settings_def
        lift_def ex_world_def item_fence_def fence.defs ex_asked_def header_of_def ex_node_reply_def)
  then show ?thesis using ex_reply_valid by (simp add: answer_def) (simp add: ex_node_service_def ex_settings_def)
qed

section \<open>A request and its reply\<close>

definition ex_node_client :: "string \<Rightarrow> node_client" where
  "ex_node_client sid = (new_client Auto ex_node_value)\<lparr>nc_relay := new_relay\<lparr>rl_current := Some (ex_node_lease sid)\<rparr>\<rparr>"

lemma ex_leased: "leased (ex_link sid) 54 (ex_node_lease sid) (ex_node_client sid)"
  by (simp add: leased_def ex_link_def ex_node_lease_def ex_node_client_def)

lemma ex_polls: "polls_as ex_cfg ex_live (ex_id (CHR ''1'')) ''s1'' ''f1'' ex_turn"
  using ex_guard by (simp add: polls_as_def ex_turn_def)

lemma ex_node_request:
  "request_begin ex_cfg ex_turn ex_live (ex_id (CHR ''1'')) ex_message new_channel =
     (new_channel\<lparr>ch_objects := [new_command ex_message ex_session], ch_pending := [(ex_id (CHR ''1''), 0)]\<rparr>, Inr 0)"
proof -
  have "\<not> is_set_offer ex_message" by (simp add: ex_message_def)
  moreover have "channel_session ex_cfg ex_turn (ex_id (CHR ''1'')) ex_live = Inr ex_session"
    using ex_guard by (simp add: channel_session_def ex_live_def ex_session_def new_session_def bindr_def)
  ultimately show ?thesis using ex_message_valid by (simp add: request_begin_def new_channel_def bindr_def ex_turn_def)
qed

theorem command_round_trip_witness:
  "\<exists>ch1 posted t ch2 u. relay_turn ex_codec (ex_link ''s1'') (ex_node_client ''s1'') =
       ([Posted (ex_node_lease ''s1'') posted 51, Forwarded (ex_node_lease ''s1'') ex_message 52], t, Inr ()) \<and>
     exchange_open ex_cfg ex_validate ex_turn ex_live ''f1'' \<lparr>xm_session_id = ''s1'', xm_response = Some (JStr ''r'')\<rparr> ch1 = (ch2, Inr (ex_id (CHR ''1''))) \<and>
     request_end ex_cfg ex_turn ex_live (ex_id (CHR ''1'')) 0 ch2 = (u, Inr ex_node_reply)"
proof -
  have s: "map_of (co_sessions ex_live) (ex_id (CHR ''1'')) = Some ex_session" "se_id ex_session = ''s1''" "se_fingerprint ex_session = ''f1''"
    by (simp_all add: ex_live_def ex_session_def new_session_def)
  have a: "authenticate (tn_now ex_turn) ''f1'' False (co_db ex_live) = Inr ((enrolled_node ex_invitation 100)\<lparr>cn_revision := 2\<rparr>, ex_cert\<lparr>ct_status := Current\<rparr>)"
    using ex_auth_live by (simp add: ex_turn_def)
  have n: "cn_id ((enrolled_node ex_invitation 100)\<lparr>cn_revision := 2\<rparr>) = ex_id (CHR ''1'')" by (simp add: enrolled_node_def ex_invitation_def)
  have l: "value_ids (ls_value (ex_node_lease ''s1'')) = (cfg_deployment_id ex_cfg, ex_id (CHR ''1''))" "ls_session_id (ex_node_lease ''s1'') = ''s1''"
    by (simp_all add: value_ids_def ex_node_lease_def ex_node_value_def ex_cfg_def)
  have w: "rw_post (ex_link ''s1'') body = Inr (channel_envelope ex_cfg (ex_id (CHR ''1'')) ''s1'' (cd_dump_message ex_codec ex_message))"
    "rw_peer (ex_link ''s1'') = served_by ex_codec (\<lambda>_. ex_world) 0 500 ex_server ex_node_service" for body
    by (simp_all add: ex_link_def ex_codec_def)
  have v: "(set_deployment_id (sup_settings (svc_sup ex_node_service)), set_node_id (sup_settings (svc_sup ex_node_service))) = value_ids (ls_value (ex_node_lease ''s1''))"
    by (simp add: ex_node_service_def ex_settings_def value_ids_def ex_node_lease_def ex_node_value_def)
  have "cd_dump_reply ex_codec ex_node_reply = JStr ''r''" "rw_start (ex_link ''s1'') = 51" "rw_checked (ex_link ''s1'') = 52"
    by (simp_all add: ex_codec_def ex_link_def)
  with command_round_trip [OF ex_node_request s a n ex_polls ex_polls ex_polls ex_leased l w(1) ex_transmits(1,2) w(2) ex_room ex_answer v]
  show ?thesis by (elim exE conjE) (simp only:, blast)
qed

section \<open>A lease and two turns\<close>

definition ex_round :: round_world where
  "ex_round = \<lparr>ro_wall = 100, ro_keyed = Inr (), ro_rotated = Inl OSError, ro_collected = Inr (), ro_now = 50,
     ro_answer = Inr [(''version'', VInt 1), (''node_id'', VStr (ex_id (CHR ''1''))), (''sequence'', VInt 1), (''session_id'', VStr (ex_id (CHR ''7''))),
       (''lease_seconds'', VInt 20), (''heartbeat_seconds'', VInt 5), (''execution_available'', VBool True)],
     ro_readings = \<lparr>cr_started = 50, cr_mono = 51, cr_wall = 101, cr_end = 51\<rparr>\<rparr>"

lemma ex_connected: "nc_relay (fst (client_round Auto ex_round (new_client Auto ex_node_value))) = new_relay\<lparr>rl_current := Some (ex_node_lease (ex_id (CHR ''7'')))\<rparr>"
proof -
  have "Identity (ex_id (CHR ''7''))" by code_simp
  then show ?thesis
    by (simp add: client_round_def rotation_due_def ex_round_def new_client_def ex_node_value_def client_beat_def restart_session_def acknowledgement_def
        Let_def equals_int_def bindr_def relay_connection_def ex_node_lease_def)
qed

theorem relay_answers_last_command_witness:
  "\<exists>cl us d past c now. node_run ex_codec ex_node_value True cl (us @ [Forwarded d ex_message past, Posted c (Some ex_node_reply) now]) \<and>
     ls_session_id d = ls_session_id c \<and> rep_id (reply_head ex_node_reply) = message_id ex_message \<and> now < ls_deadline c"
proof -
  let ?sid = "ex_id (CHR ''7'')"
  let ?cl = "fst (client_round Auto ex_round (new_client Auto ex_node_value))"
  let ?c = "ex_node_lease ?sid"
  let ?w = "(ex_link ?sid)\<lparr>rw_start := 54, rw_post := \<lambda>_. Inl OSError\<rparr>"
  have l: "leased (ex_link ?sid) 54 ?c ?cl" "value_ids (ls_value ?c) = (cfg_deployment_id ex_cfg, ex_id (CHR ''1''))" "ls_session_id ?c = ?sid"
    using ex_connected by (simp_all add: leased_def ex_link_def ex_node_lease_def value_ids_def ex_node_value_def ex_cfg_def)
  have w: "rw_post (ex_link ?sid) body = Inr (channel_envelope ex_cfg (ex_id (CHR ''1'')) ?sid (cd_dump_message ex_codec ex_message))" for body
    by (simp add: ex_link_def ex_codec_def)
  have o: "\<not> is_set_offer ex_message" by (simp add: ex_message_def)
  have r: "client_request ex_codec (rw_peer (ex_link ?sid)) ex_message = Inr ex_node_reply"
    using client_served [OF ex_transmits(1,2) ex_message_valid ex_answer ex_room] by (simp add: ex_link_def)
  have h: "head_ids ex_node_reply = value_ids (ls_value ?c)" by (simp add: head_ids_def ex_node_reply_def value_ids_def ex_node_lease_def ex_node_value_def)
  obtain posted t where t: "relay_turn ex_codec (ex_link ?sid) ?cl = ([Posted ?c posted 51, Forwarded ?c ex_message 52], t, Inr ())"
      "rl_response (nc_relay t) = Some ex_node_reply" "relay_begin 54 (nc_relay t) = (nc_relay t, Some ?c)"
    using relay_turn_served [OF l w ex_transmits(1) o r h] by (auto simp: ex_link_def)
  obtain u where u: "relay_turn ex_codec ?w t = ([Posted ?c (Some ex_node_reply) 54], u, Inr ())"
    using t(2,3) by (simp add: relay_turn_def relay_exchange_def relay_failed_def relay_caught_def)
  have "node_run ex_codec ex_node_value (Inr () = (Inr () :: unit res)) u
      ((([] @ [Posted ?c posted 51, Forwarded ?c ex_message 52])) @ [Posted ?c (Some ex_node_reply) 54])"
    by (rule node_turn [OF _ u]) (use node_turn [OF node_beat [OF node_new] t(1)] in simp)
  then have run: "node_run ex_codec ex_node_value True u ([Posted ?c posted 51] @ [Forwarded ?c ex_message 52, Posted ?c (Some ex_node_reply) 54])" by simp
  then show ?thesis using conjunct2 [OF relay_answers_last_command [OF run ex_transmits(3)], rule_format,
      of "[Posted ?c posted 51, Forwarded ?c ex_message 52]" ?c ex_node_reply 54 "[]"] by fastforce
qed

section \<open>A heartbeat\<close>

definition ex_heard :: heartbeat_reply where
  "ex_heard = \<lparr>hr_node_id = ex_id (CHR ''1''), hr_session_id = ex_id (CHR ''7''), hr_sequence = 1, hr_lease_seconds = 20, hr_heartbeat_seconds = 5\<rparr>"

lemma ex_heartbeat:
  "\<exists>t. heartbeat ex_cenv (ex_id (CHR ''7'')) ''f1'' \<lparr>hb_session_id = None, hb_sequence = 1, hb_sample = JNull\<rparr> ''polling'' ex_con = (t, Inr ex_heard)"
proof -
  have "authenticate (ce_clk ex_cenv 0) ''f1'' False (co_db ex_con) = Inr ((enrolled_node ex_invitation 100)\<lparr>cn_revision := 2\<rparr>, ex_cert\<lparr>ct_status := Current\<rparr>)"
    using ex_auth_live by (simp add: ex_live_def ex_cenv_def ex_clk_def)
  then show ?thesis
    by (simp add: heartbeat_def configured_def heartbeat_session_def connection_def renewed_session_def new_session_def bindr_def Let_def
        enrolled_node_def ex_invitation_def ex_cert_def ex_leaf_def ex_cenv_def ex_clk_def ex_con_def ex_cfg_def ex_heard_def)
qed

theorem node_lease_within_session_witness:
  "\<exists>t c. heartbeat ex_cenv (ex_id (CHR ''7'')) ''f1'' \<lparr>hb_session_id = None, hb_sequence = 1, hb_sample = JNull\<rparr> ''polling'' ex_con = (t, Inr ex_heard) \<and>
     map_of (co_sessions t) (ex_id (CHR ''1'')) = Some c \<and> 1070 \<le> se_deadline c + 1000"
proof -
  obtain t where t: "heartbeat ex_cenv (ex_id (CHR ''7'')) ''f1'' \<lparr>hb_session_id = None, hb_sequence = 1, hb_sample = JNull\<rparr> ''polling'' ex_con = (t, Inr ex_heard)"
    using ex_heartbeat by blast
  let ?cr = "\<lparr>cr_started = 1050, cr_mono = 1051, cr_wall = 101, cr_end = 1051\<rparr>"
  have "Identity (ex_id (CHR ''7''))" by code_simp
  then have a: "acknowledgement ex_node_value None 1 (heartbeat_fields ex_heard True) ?cr = Inr (ex_id (CHR ''7''), 5, True, 1070)"
    by (simp add: acknowledgement_def heartbeat_fields_def ex_heard_def ex_node_value_def equals_int_def)
  have "cr_started ?cr \<le> ce_mono ex_cenv 5 + 1000" by (simp add: ex_cenv_def)
  from node_lease_within_session [OF t this a] show ?thesis using t by (auto simp: ex_node_value_def)
qed

end
