(* ===== verification/Exec_Cache.thy ===== *)
theory Exec_Cache
  imports Exec_Ledger Work_Schema
begin

unbundle bit_operations_syntax

text \<open>
  The finite model cache of a node (\<open>src/ficc/execution/model_cache.py\<close>): immutable blobs named by
  the project and the digest of their contents, filled in the background from verified inputs
  and evicted oldest first, never while a retained attempt names them. The directory is the list
  of its \<open>.blob\<close> files; a \<open>.partial\<close> file lives only within one call. What \<open>copy\<close> meets on the
  disk while it reads its source is a parameter.
\<close>

record blob =
  bl_data :: string
  bl_mtime :: rat
  bl_regular :: bool
  bl_uid :: int
  bl_mode :: int
  bl_links :: int

record model_cache =
  mc_files :: "(string \<times> blob) list"
  mc_pending :: "string list"

definition removeprefix :: "string \<Rightarrow> string \<Rightarrow> string" where
  "removeprefix p s = (if take (length p) s = p then drop (length p) s else s)"

definition cache_name :: "string \<Rightarrow> string \<Rightarrow> string" where
  "cache_name project dg = project @ ''-'' @ removeprefix ''sha256:'' dg @ ''.blob''"

section \<open>Copies\<close>

text \<open>
  One pass over a source: how it opens, its status before, the data of every read with what the
  caller's check and the write of this data did, and whether its identity is the same afterwards.
\<close>

record source_reading =
  sd_open :: "unit res"
  sd_regular :: bool
  sd_uid :: int
  sd_size :: int
  sd_mode :: int
  sd_reads :: "string list"
  sd_steps :: "nat \<Rightarrow> unit res"
  sd_unchanged :: bool

fun all_steps :: "(nat \<Rightarrow> unit res) \<Rightarrow> nat \<Rightarrow> unit res" where
  "all_steps f 0 = Inr ()"
| "all_steps f (Suc n) = bindr (all_steps f n) (\<lambda>_. f n)"

definition copy_object :: "source_reading \<Rightarrow> int \<Rightarrow> string \<Rightarrow> int \<Rightarrow> int \<Rightarrow> rat \<Rightarrow> blob res" where
  "copy_object src bytes dg gid source_owner now =
     bindr (sd_open src) (\<lambda>_.
     if \<not> sd_regular src \<or> sd_uid src \<noteq> source_owner \<or> sd_size src \<noteq> bytes \<or> sd_mode src AND 0x12 \<noteq> 0 then Inl ValueError
     else
       bindr (all_steps (sd_steps src) (length (sd_reads src))) (\<lambda>_.
       let data = concat (sd_reads src) in
       if int (length data) \<noteq> bytes \<or> ''sha256:'' @ sha256_hex data \<noteq> dg \<or> \<not> sd_unchanged src then Inl ValueError
       else Inr \<lparr>bl_data = data, bl_mtime = now, bl_regular = True, bl_uid = 0, bl_mode = (if gid \<noteq> 0 then 0x120 else 0x100), bl_links = 1\<rparr>))"

text \<open>\<open>os.read\<close> of at most \<open>n\<close> bytes until the end.\<close>

fun chunks :: "nat \<Rightarrow> string \<Rightarrow> string list" where
  "chunks n s = (if s = [] \<or> n = 0 then [] else take n s # chunks n (drop n s))"

declare chunks.simps [simp del]

text \<open>A blob of the cache as a source: only the holder of the cache's lock writes there.\<close>

definition blob_reading :: "(nat \<Rightarrow> unit res) \<Rightarrow> blob \<Rightarrow> source_reading" where
  "blob_reading steps b = \<lparr>sd_open = Inr (), sd_regular = bl_regular b, sd_uid = bl_uid b, sd_size = int (length (bl_data b)), sd_mode = bl_mode b,
     sd_reads = chunks 1048576 (bl_data b), sd_steps = steps, sd_unchanged = True\<rparr>"

section \<open>Restore and publish\<close>

definition touch :: "string \<Rightarrow> rat \<Rightarrow> (string \<times> blob) list \<Rightarrow> (string \<times> blob) list" where
  "touch n now files = map (\<lambda>(m, b). (m, if m = n then b\<lparr>bl_mtime := now\<rparr> else b)) files"

definition cache_restore :: "unit res \<Rightarrow> (nat \<Rightarrow> unit res) \<Rightarrow> rat \<Rightarrow> string \<Rightarrow> object_reference \<Rightarrow> int \<Rightarrow> model_cache \<Rightarrow> model_cache \<times> blob option res" where
  "cache_restore verified steps now project item gid c =
     (case verified of
        Inl e \<Rightarrow> (c, Inl e)
      | Inr _ \<Rightarrow>
          (case map_of (mc_files c) (cache_name project (obj_digest item)) of
             None \<Rightarrow> (c, Inr None)
           | Some b \<Rightarrow>
               (case copy_object (blob_reading steps b) (obj_bytes item) (obj_digest item) gid 0 now of
                  Inl e \<Rightarrow> (c, Inl e)
                | Inr out \<Rightarrow> (c\<lparr>mc_files := touch (cache_name project (obj_digest item)) now (mc_files c)\<rparr>, Inr (Some out)))))"

definition publish_begin :: "string \<Rightarrow> model_cache \<Rightarrow> model_cache \<times> bool" where
  "publish_begin n c =
     (if n \<in> set (mc_pending c) \<or> length (mc_pending c) \<ge> 64 then (c, False) else (c\<lparr>mc_pending := mc_pending c @ [n]\<rparr>, True))"

definition pinned_names :: "attempt_value list \<Rightarrow> string list" where
  "pinned_names vs = concat (map (\<lambda>v. map (\<lambda>x. cache_name (plan_project_id (v_plan v)) (obj_digest x)) (job_inputs (plan_job (v_plan v)))) vs)"

definition blob_size :: "blob \<Rightarrow> int" where
  "blob_size b = int (length (bl_data b))"

definition cache_total :: "(string \<times> blob) list \<Rightarrow> int" where
  "cache_total files = sum_list (map (blob_size \<circ> snd) files)"

definition has_room :: "cache_settings \<Rightarrow> int \<Rightarrow> int \<Rightarrow> (string \<times> blob) list \<Rightarrow> bool" where
  "has_room cfg bytes held files \<longleftrightarrow> held + bytes \<le> cache_maximum_bytes cfg \<and> int (length files) < cache_maximum_files cfg"

text \<open>The eviction loop over the files sorted by age, with the running total.\<close>

fun evict :: "cache_settings \<Rightarrow> int \<Rightarrow> string list \<Rightarrow> (string \<times> blob) list \<Rightarrow> int \<Rightarrow> (string \<times> blob) list \<Rightarrow> int \<times> (string \<times> blob) list" where
  "evict cfg bytes pinned [] held files = (held, files)"
| "evict cfg bytes pinned (p # ps) held files =
     (if has_room cfg bytes held files then (held, files)
      else if fst p \<notin> set pinned then evict cfg bytes pinned ps (held - blob_size (snd p)) (filter (\<lambda>q. fst q \<noteq> fst p) files)
      else evict cfg bytes pinned ps held files)"

text \<open>
  The background work of \<open>publish\<close>. Its exceptions change nothing but what the eviction already
  removed, and the name leaves the pending set in every case.
\<close>

definition publish_files :: "cache_settings \<Rightarrow> unit res \<Rightarrow> string list \<Rightarrow> source_reading \<Rightarrow> rat \<Rightarrow> string \<Rightarrow> object_reference
    \<Rightarrow> (string \<times> blob) list \<Rightarrow> (string \<times> blob) list" where
  "publish_files cfg verified pinned src now n item files =
     (if verified \<noteq> Inr () \<or> map_of files n \<noteq> None then files
      else case evict cfg (obj_bytes item) pinned (sort_key (bl_mtime \<circ> snd) files) (cache_total files) files of
        (held, kept) \<Rightarrow>
          if \<not> has_room cfg (obj_bytes item) held kept then kept
          else (case copy_object src (obj_bytes item) (obj_digest item) 0 0 now of
              Inl _ \<Rightarrow> kept
            | Inr b \<Rightarrow> kept @ [(n, b)]))"

definition publish_work :: "cache_settings \<Rightarrow> unit res \<Rightarrow> attempt_value list \<Rightarrow> source_reading \<Rightarrow> rat \<Rightarrow> string \<Rightarrow> object_reference
    \<Rightarrow> model_cache \<Rightarrow> model_cache" where
  "publish_work cfg verified retained_values src now project item c =
     (let n = cache_name project (obj_digest item) in
      c\<lparr>mc_files := publish_files cfg verified (pinned_names retained_values) src now n item (mc_files c),
        mc_pending := removeAll n (mc_pending c)\<rparr>)"

section \<open>Administration\<close>

text \<open>
  \<open>src/ficc/execution/cache_admin.py\<close>. \<open>stopped_by\<close> is the guard the administrator's operations
  share: the machine administrator, with the installed supervisor stopped.
\<close>

record admin_env =
  ad_euid :: int
  ad_properties :: "(string \<times> string) list"

definition stopped_by :: "admin_env \<Rightarrow> unit res" where
  "stopped_by a =
     (if ad_euid a \<noteq> 0 then Inl ValueError
      else if map_of (ad_properties a) ''ActiveState'' \<notin> {Some ''inactive'', Some ''failed''} \<or> map_of (ad_properties a) ''MainPID'' \<noteq> Some ''0''
      then Inl ValueError else Inr ())"

definition all_released :: "ledger \<Rightarrow> bool" where
  "all_released s = list_all (\<lambda>r. v_state (row_value r) = Released) (all_rows s)"

text \<open>The pattern of a blob's name: a project, a dash, 64 digits, the suffix.\<close>

definition blob_match :: "string \<Rightarrow> (string \<times> string) option" where
  "blob_match n =
     (let project = take 32 n; hex = take 64 (drop 33 n) in
      if length n = 102 \<and> list_all is_hex project \<and> n ! 32 = CHR ''-'' \<and> list_all is_hex hex \<and> drop 97 n = ''.blob''
      then Some (project, hex) else None)"

fun cache_rows :: "(string \<times> blob) list \<Rightarrow> (string \<times> string \<times> int) list res" where
  "cache_rows [] = Inr []"
| "cache_rows ((n, b) # fs) =
     (case blob_match n of
        None \<Rightarrow> Inl ValueError
      | Some (project, hex) \<Rightarrow>
          if \<not> bl_regular b \<or> bl_uid b \<noteq> 0 \<or> bl_links b \<noteq> 1 \<or> bl_mode b AND 0x92 \<noteq> 0 then Inl ValueError
          else bindr (cache_rows fs) (\<lambda>rows. Inr ((project, ''sha256:'' @ hex, blob_size b) # rows)))"

datatype cache_action =
    Cache_list
  | Cache_evict string string
  | Cache_import string string int source_reading

datatype cache_answer = Objects "(string \<times> string \<times> int) list" | Removed | Cached | Verified

definition import_item :: "string \<Rightarrow> int \<Rightarrow> bool" where
  "import_item dg bytes \<longleftrightarrow> Digest dg \<and> Count bytes"

definition cache_operate :: "settings \<Rightarrow> admin_env \<Rightarrow> ledger \<Rightarrow> unit res \<Rightarrow> rat \<Rightarrow> cache_action \<Rightarrow> model_cache \<Rightarrow> model_cache \<times> cache_answer res" where
  "cache_operate st a led verified now act c =
     (case set_model_cache st of
        None \<Rightarrow> (c, Inl ValueError)
      | Some cfg \<Rightarrow>
          (case bindr (stopped_by a) (\<lambda>_. bindr (if all_released led then verified else Inl ValueError) (\<lambda>_. cache_rows (mc_files c))) of
             Inl e \<Rightarrow> (c, Inl e)
           | Inr rows \<Rightarrow>
               (case act of
                  Cache_list \<Rightarrow> (c, Inr (Objects rows))
                | Cache_evict project dg \<Rightarrow>
                    if \<not> Identity project \<or> \<not> Digest dg then (c, Inl ValueError)
                    else (c\<lparr>mc_files := filter (\<lambda>q. fst q \<noteq> cache_name project dg) (mc_files c)\<rparr>, Inr Removed)
                | Cache_import project dg bytes src \<Rightarrow>
                    if \<not> Identity project \<or> \<not> import_item dg bytes then (c, Inl ValueError)
                    else (case map_of (mc_files c) (cache_name project dg) of
                        Some b \<Rightarrow> (c, if blob_size b \<noteq> bytes then Inl ValueError else Inr Cached)
                      | None \<Rightarrow>
                          if int (length rows) \<ge> cache_maximum_files cfg \<or> sum_list (map (\<lambda>(_, _, n). n) rows) + bytes > cache_maximum_bytes cfg
                          then (c, Inl ValueError)
                          else (case bindr (copy_object src bytes dg 0 (sd_uid src) now) (\<lambda>b. bindr verified (\<lambda>_. Inr b)) of
                              Inl e \<Rightarrow> (c, Inl e)
                            | Inr b \<Rightarrow> (c\<lparr>mc_files := mc_files c @ [(cache_name project dg, b)]\<rparr>, Inr Verified))))))"

end
