(* ===== verification/Exec_Cache_Props.thy ===== *)
theory Exec_Cache_Props
  imports Exec_Cache Exec_Spec_Props
begin

unbundle bit_operations_syntax

text \<open>
  The model cache stays finite and honest: whatever is published, restored, imported and evicted, in
  any order, the blobs fit the configured bounds, every blob holds exactly the bytes its name's
  digest promises, and a publication never removes what a retained attempt names.
\<close>

section \<open>Names and copies\<close>

lemma concat_chunks: "n \<noteq> 0 \<Longrightarrow> concat (chunks n s) = s"
proof (induction n s rule: chunks.induct)
  case (1 n s)
  then show ?case by (subst chunks.simps) auto
qed

lemma cache_name_hash: "cache_name project (''sha256:'' @ h) = project @ ''-'' @ h @ ''.blob''"
  by (simp add: cache_name_def removeprefix_def)

lemma all_steps_ok: "(\<And>k. f k = Inr ()) \<Longrightarrow> all_steps f n = Inr ()"
  by (induction n) simp_all

text \<open>A blob as \<open>copy\<close> leaves it, under the name of its contents.\<close>

definition blob_ok :: "string \<Rightarrow> blob \<Rightarrow> bool" where
  "blob_ok n b \<longleftrightarrow> bl_regular b \<and> bl_uid b = 0 \<and> bl_links b = 1 \<and> bl_mode b = 0x100 \<and>
     (\<exists>project. Identity project \<and> n = cache_name project (''sha256:'' @ sha256_hex (bl_data b)))"

lemma copied:
  assumes "copy_object src bytes dg gid owner now = Inr b"
  shows "blob_size b = bytes \<and> ''sha256:'' @ sha256_hex (bl_data b) = dg \<and> bl_data b = concat (sd_reads src) \<and> bl_mtime b = now"
    "gid = 0 \<Longrightarrow> Identity project \<Longrightarrow> blob_ok (cache_name project dg) b"
  using assms by (auto simp: copy_object_def bindr_Inr Let_def blob_size_def blob_ok_def split: if_splits)

lemma blob_restored:
  assumes "blob_ok n b" and "\<And>k. steps k = Inr ()" and "obj_digest item = ''sha256:'' @ sha256_hex (bl_data b)" and "obj_bytes item = blob_size b"
  shows "\<exists>out. copy_object (blob_reading steps b) (obj_bytes item) (obj_digest item) gid 0 now = Inr out \<and> bl_data out = bl_data b"
  using assms by (simp add: copy_object_def blob_reading_def blob_ok_def all_steps_ok concat_chunks blob_size_def)

lemma blob_matched:
  assumes "blob_ok n b"
  shows "\<exists>project. blob_match n = Some (project, sha256_hex (bl_data b))"
proof -
  obtain project where p: "Identity project" "n = project @ ''-'' @ sha256_hex (bl_data b) @ ''.blob''"
    using assms unfolding blob_ok_def cache_name_hash by blast
  have "length project = 32" "list_all is_hex project" using p(1) by (simp_all add: Identity_def)
  then show ?thesis using sha256_hex_shape [of "bl_data b"] by (simp add: p(2) blob_match_def Let_def nth_append)
qed

section \<open>The invariant\<close>

definition files_ok :: "cache_settings \<Rightarrow> (string \<times> blob) list \<Rightarrow> bool" where
  "files_ok cfg files \<longleftrightarrow> distinct (map fst files) \<and> int (length files) \<le> cache_maximum_files cfg \<and> cache_total files \<le> cache_maximum_bytes cfg \<and>
     (\<forall>(n, b)\<in>set files. blob_ok n b)"

definition cache_inv :: "cache_settings \<Rightarrow> model_cache \<Rightarrow> bool" where
  "cache_inv cfg c \<longleftrightarrow> files_ok cfg (mc_files c) \<and> distinct (mc_pending c) \<and> length (mc_pending c) \<le> 64"

lemma total_filter: "cache_total (filter P files) \<le> cache_total files"
  by (induction files) (auto simp: cache_total_def blob_size_def)

lemma total_remove:
  "distinct (map fst files) \<Longrightarrow> (n, b) \<in> set files \<Longrightarrow> cache_total (filter (\<lambda>q. fst q \<noteq> n) files) = cache_total files - blob_size b"
proof (induction files)
  case (Cons a files)
  show ?case
  proof (cases "fst a = n")
    case True
    then have "n \<notin> fst ` set files" using Cons.prems(1) by auto
    then have "filter (\<lambda>q. fst q \<noteq> n) files = files" "(n, b) \<notin> set files" by (force intro: filter_True)+
    then show ?thesis using True Cons.prems(2) by (cases a) (auto simp: cache_total_def)
  next
    case False
    then show ?thesis using Cons by (auto simp: cache_total_def)
  qed
qed simp

lemma files_filter:
  assumes "files_ok cfg files"
  shows "files_ok cfg (filter P files)"
proof -
  have "cache_total (filter P files) \<le> cache_maximum_bytes cfg" using assms total_filter [of P files] by (auto simp: files_ok_def)
  moreover have "int (length (filter P files)) \<le> cache_maximum_files cfg" using assms of_nat_mono [OF length_filter_le [of P files], where 'a = int] unfolding files_ok_def by linarith
  ultimately show ?thesis using assms by (auto simp: files_ok_def distinct_map_filter)
qed

lemma files_add:
  assumes "files_ok cfg files" and "has_room cfg (blob_size b) (cache_total files) files" and "map_of files n = None" and "blob_ok n b"
  shows "files_ok cfg (files @ [(n, b)])"
  using assms by (auto simp: files_ok_def has_room_def cache_total_def map_of_eq_None_iff)

lemma touch_blob: "(m, b) \<in> set (touch n now files) \<Longrightarrow> \<exists>a. (m, a) \<in> set files \<and> (b = a \<or> b = a\<lparr>bl_mtime := now\<rparr>)"
  by (auto simp: touch_def)

lemma files_touch:
  assumes "files_ok cfg files"
  shows "files_ok cfg (touch n now files)"
proof -
  have same: "map fst (touch n now files) = map fst files" "cache_total (touch n now files) = cache_total files" "length (touch n now files) = length files"
    by (induction files) (auto simp: touch_def cache_total_def blob_size_def)
  have "blob_ok m (a\<lparr>bl_mtime := now\<rparr>) = blob_ok m a" for m a by (simp add: blob_ok_def)
  then have "blob_ok m b" if "(m, b) \<in> set (touch n now files)" for m b
    using touch_blob [OF that] assms by (auto simp: files_ok_def)
  then show ?thesis using assms unfolding files_ok_def same by blast
qed

text \<open>The eviction removes files, keeps the running total exact and every pinned file.\<close>

lemma evict_keeps:
  assumes "evict cfg bytes pinned ps held files = (held', kept)" and "distinct (map fst files)" and "distinct (map fst ps)"
    and "set ps \<subseteq> set files" and "held = cache_total files"
  shows "held' = cache_total kept \<and> (\<exists>P. kept = filter P files \<and> (\<forall>q\<in>set files. fst q \<in> set pinned \<longrightarrow> P q))"
  using assms
proof (induction cfg bytes pinned ps held files rule: evict.induct)
  case (1 cfg bytes pinned held files)
  then show ?case by (auto intro: exI [of _ "\<lambda>_. True"])
next
  case (2 cfg bytes pinned p ps held files)
  consider (stop) "has_room cfg bytes held files" | (drop) "\<not> has_room cfg bytes held files" "fst p \<notin> set pinned"
    | (keep) "\<not> has_room cfg bytes held files" "fst p \<in> set pinned" by blast
  then show ?case
  proof cases
    case stop
    then show ?thesis using 2 by (auto intro: exI [of _ "\<lambda>_. True"])
  next
    case drop
    let ?files = "filter (\<lambda>q. fst q \<noteq> fst p) files"
    have "fst q \<noteq> fst p" if "q \<in> set ps" for q using that 2(5) by (metis distinct.simps(2) image_eqI list.set_map list.simps(9))
    then have "set ps \<subseteq> set ?files" using 2(6) by auto
    moreover have "held - blob_size (snd p) = cache_total ?files" using total_remove [of files "fst p" "snd p"] 2(4,6,7) by simp
    moreover have "evict cfg bytes pinned ps (held - blob_size (snd p)) ?files = (held', kept)" using 2(3) drop by simp
    moreover have "distinct (map fst ?files)" "distinct (map fst ps)" using 2(4,5) by (simp_all add: distinct_map_filter)
    ultimately have "held' = cache_total kept \<and> (\<exists>P. kept = filter P ?files \<and> (\<forall>q\<in>set ?files. fst q \<in> set pinned \<longrightarrow> P q))"
      by (intro 2(1) [OF drop])
    then obtain P where P: "held' = cache_total kept" "kept = filter P ?files" "\<forall>q\<in>set ?files. fst q \<in> set pinned \<longrightarrow> P q" by blast
    then have "kept = filter (\<lambda>q. fst q \<noteq> fst p \<and> P q) files" by (simp add: conj_commute)
    moreover have "fst q \<noteq> fst p \<and> P q" if "q \<in> set files" "fst q \<in> set pinned" for q using P(3) drop(2) that by fastforce
    ultimately show ?thesis using P(1) by blast
  next
    case keep
    then show ?thesis using 2 by simp
  qed
qed

lemma publish_evicts:
  assumes "files_ok cfg files" and "evict cfg bytes pinned (sort_key f files) (cache_total files) files = (held, kept)"
  shows "held = cache_total kept \<and> (\<exists>P. kept = filter P files \<and> (\<forall>q\<in>set files. fst q \<in> set pinned \<longrightarrow> P q))"
proof (rule evict_keeps [OF assms(2)])
  have d: "distinct (map fst files)" using assms(1) by (simp add: files_ok_def)
  then show "distinct (map fst files)" .
  show "distinct (map fst (sort_key f files))" using d by (simp add: distinct_map)
qed simp_all

lemma publish_files_ok:
  assumes "files_ok cfg files" and "Identity project" and "n = cache_name project (obj_digest item)"
  shows "files_ok cfg (publish_files cfg verified pinned src now n item files) \<and>
    (\<forall>q\<in>set files. fst q \<in> set pinned \<longrightarrow> q \<in> set (publish_files cfg verified pinned src now n item files))"
proof (cases "verified \<noteq> Inr () \<or> map_of files n \<noteq> None")
  case True
  then show ?thesis using assms(1) by (auto simp: publish_files_def)
next
  case False
  obtain held kept where ev: "evict cfg (obj_bytes item) pinned (sort_key (bl_mtime \<circ> snd) files) (cache_total files) files = (held, kept)" by fastforce
  then obtain P where P: "held = cache_total kept" "kept = filter P files" "\<forall>q\<in>set files. fst q \<in> set pinned \<longrightarrow> P q"
    using publish_evicts [OF assms(1)] by blast
  have k: "files_ok cfg kept" using files_filter [OF assms(1)] P(2) by simp
  have "map_of kept n = None" using False P(2) by (auto simp: map_of_eq_None_iff)
  then have "files_ok cfg (kept @ [(n, b)])"
    if "has_room cfg (obj_bytes item) held kept" "copy_object src (obj_bytes item) (obj_digest item) 0 0 now = Inr b" for b
    using files_add [OF k _ _] copied [OF that(2)] that(1) P(1) assms(2,3) by simp
  then have "files_ok cfg (publish_files cfg verified pinned src now n item files)"
    using False k ev by (auto simp: publish_files_def split: sum.splits)
  moreover have "set kept \<subseteq> set (publish_files cfg verified pinned src now n item files)"
    using False ev by (auto simp: publish_files_def split: sum.splits)
  ultimately show ?thesis using P by auto
qed

lemma evict_subset: "set (snd (evict cfg bytes pinned ps held files)) \<subseteq> set files"
proof (induction cfg bytes pinned ps held files rule: evict.induct)
  case (2 cfg bytes pinned p ps held files)
  show ?case
  proof (cases "\<not> has_room cfg bytes held files \<and> fst p \<notin> set pinned")
    case True
    then have "set (snd (evict cfg bytes pinned (p # ps) held files)) \<subseteq> set (filter (\<lambda>q. fst q \<noteq> fst p) files)" using 2(1) by simp
    then show ?thesis by (rule order.trans) (rule filter_is_subset)
  next
    case False
    then show ?thesis using 2(2) by (cases "has_room cfg bytes held files") simp_all
  qed
qed simp

text \<open>It stops with room, or when nothing but pinned files is left.\<close>

lemma evict_done:
  "evict cfg bytes pinned ps held files = (held', kept) \<Longrightarrow>
    has_room cfg bytes held' kept \<or> (\<forall>q\<in>set kept. fst q \<in> fst ` set ps \<longrightarrow> fst q \<in> set pinned)"
proof (induction cfg bytes pinned ps held files rule: evict.induct)
  case (2 cfg bytes pinned p ps held files)
  consider (stop) "has_room cfg bytes held files" | (drop) "\<not> has_room cfg bytes held files" "fst p \<notin> set pinned"
    | (keep) "\<not> has_room cfg bytes held files" "fst p \<in> set pinned" by blast
  then show ?case
  proof cases
    case drop
    then have "evict cfg bytes pinned ps (held - blob_size (snd p)) (filter (\<lambda>q. fst q \<noteq> fst p) files) = (held', kept)" using 2(3) by simp
    moreover from this have "set kept \<subseteq> set (filter (\<lambda>q. fst q \<noteq> fst p) files)" by (metis evict_subset snd_conv)
    ultimately have "fst q \<noteq> fst p" "has_room cfg bytes held' kept \<or> (fst q \<in> fst ` set ps \<longrightarrow> fst q \<in> set pinned)" if "q \<in> set kept" for q
      using 2(1) [OF drop] that by auto
    then have "has_room cfg bytes held' kept \<or> (fst q \<in> fst ` set (p # ps) \<longrightarrow> fst q \<in> set pinned)" if "q \<in> set kept" for q
      using that by simp
    then show ?thesis by blast
  qed (use 2 in auto)
qed simp

section \<open>Every operation\<close>

lemma rows_total: "cache_rows fs = Inr rows \<Longrightarrow> length rows = length fs \<and> sum_list (map (\<lambda>(_, _, n). n) rows) = cache_total fs"
  by (induction fs arbitrary: rows) (auto simp: cache_total_def bindr_Inr split: option.splits if_splits prod.splits)

lemma rows_listed: "\<forall>(n, b)\<in>set fs. blob_ok n b \<Longrightarrow> \<exists>rows. cache_rows fs = Inr rows"
proof (induction fs)
  case (Cons a fs)
  obtain n b where a: "a = (n, b)" by fastforce
  obtain rows where "cache_rows fs = Inr rows" using Cons by auto
  moreover have "blob_ok n b" using Cons.prems a by simp
  ultimately show ?case using blob_matched [of n b] by (auto simp: a blob_ok_def)
qed simp

lemma restore_copied:
  "cache_restore verified steps now project item gid c = (t, Inr (Some out)) \<Longrightarrow>
    \<exists>b. copy_object (blob_reading steps b) (obj_bytes item) (obj_digest item) gid 0 now = Inr out"
  by (auto simp: cache_restore_def split: sum.splits option.splits)

lemma restore_inv: "cache_inv cfg c \<Longrightarrow> cache_restore verified steps now project item gid c = (t, r) \<Longrightarrow> cache_inv cfg t"
  by (auto simp: cache_restore_def cache_inv_def files_touch split: sum.splits option.splits)

lemma cache_begin_inv: "cache_inv cfg c \<Longrightarrow> publish_begin n c = (t, ok) \<Longrightarrow> cache_inv cfg t"
  by (auto simp: publish_begin_def cache_inv_def split: if_splits)

lemma cache_work_inv: "cache_inv cfg c \<Longrightarrow> Identity project \<Longrightarrow> cache_inv cfg (publish_work cfg verified vs src now project item c)"
  using publish_files_ok [of cfg "mc_files c" project _ item]
  by (auto simp: publish_work_def cache_inv_def Let_def distinct_removeAll intro: order.trans [OF length_removeAll_less_eq])

lemma operate_inv:
  assumes "cache_inv cfg c" and "set_model_cache st = Some cfg" and "cache_operate st a led verified now act c = (t, r)"
  shows "cache_inv cfg t"
proof (cases "t = c")
  case False
  have ok: "files_ok cfg (mc_files c)" using assms(1) by (simp add: cache_inv_def)
  obtain rows where rows: "cache_rows (mc_files c) = Inr rows"
    using assms(2,3) False by (cases "cache_rows (mc_files c)") (auto simp: cache_operate_def bindr_def split: sum.splits if_splits)
  have "mc_pending t = mc_pending c \<and> files_ok cfg (mc_files t)"
  proof (cases act)
    case Cache_list
    then show ?thesis using assms(2,3) False by (auto simp: cache_operate_def split: sum.splits)
  next
    case (Cache_evict project dg)
    then show ?thesis using assms(2,3) False files_filter [OF ok] by (auto simp: cache_operate_def split: sum.splits if_splits)
  next
    case (Cache_import project dg bytes src)
    then obtain b where b: "copy_object src bytes dg 0 (sd_uid src) now = Inr b" "Identity project" "map_of (mc_files c) (cache_name project dg) = None"
        "t = c\<lparr>mc_files := mc_files c @ [(cache_name project dg, b)]\<rparr>"
        "int (length rows) < cache_maximum_files cfg" "sum_list (map (\<lambda>(_, _, n). n) rows) + bytes \<le> cache_maximum_bytes cfg"
      using assms(2,3) False rows by (auto simp: cache_operate_def bindr_Inr not_le split: sum.splits if_splits option.splits)
    have "has_room cfg (blob_size b) (cache_total (mc_files c)) (mc_files c)"
      using rows_total [OF rows] b(5,6) copied(1) [OF b(1)] by (simp add: has_room_def)
    then show ?thesis using files_add [OF ok _ b(3)] copied(2) [OF b(1) _ b(2)] b(4) by simp
  qed
  then show ?thesis using assms(1) by (simp add: cache_inv_def)
qed (use assms in simp)

inductive cache_step :: "settings \<Rightarrow> cache_settings \<Rightarrow> model_cache \<Rightarrow> model_cache \<Rightarrow> bool" for st cfg where
  step_restore: "cache_restore verified steps now project item gid c = (t, r) \<Longrightarrow> cache_step st cfg c t"
| step_publish: "publish_begin n c = (t, ok) \<Longrightarrow> cache_step st cfg c t"
| step_work: "Identity project \<Longrightarrow> cache_step st cfg c (publish_work cfg verified vs src now project item c)"
| step_admin: "set_model_cache st = Some cfg \<Longrightarrow> cache_operate st a led verified now act c = (t, ra) \<Longrightarrow> cache_step st cfg c t"

definition cache_empty :: "cache_settings \<Rightarrow> model_cache \<Rightarrow> bool" where
  "cache_empty cfg c \<longleftrightarrow> c = \<lparr>mc_files = [], mc_pending = []\<rparr> \<and> valid_cache_settings cfg"

interpretation cache: invariant_system "cache_empty cfg" "cache_step st cfg" "cache_inv cfg" for st cfg
proof
  fix c assume "cache_empty cfg c"
  then show "cache_inv cfg c" by (simp add: cache_empty_def cache_inv_def files_ok_def cache_total_def valid_cache_settings_def Positive_def)
next
  fix c t assume "cache_step st cfg c t" "cache_inv cfg c"
  then show "cache_inv cfg t" by (cases rule: cache_step.cases) (auto intro: restore_inv cache_begin_inv cache_work_inv operate_inv)
qed

text \<open>
  C34: the model cache is bounded and honest. However publications, restorations, imports and
  evictions interleave, the cache stays within its configured bytes and files with at most 64
  publications outstanding; every blob lies under the name of a project and of the digest of
  exactly the bytes it holds, so that the administrator's listing always succeeds; and whatever
  a restoration hands to an attempt has exactly the size and the digest the plan names.
\<close>

theorem cache_bounded_and_honest:
  assumes "reach (cache_empty cfg) (cache_step st cfg) c"
  shows "int (length (mc_files c)) \<le> cache_maximum_files cfg \<and> cache_total (mc_files c) \<le> cache_maximum_bytes cfg \<and> length (mc_pending c) \<le> 64 \<and>
    distinct (map fst (mc_files c)) \<and>
    (\<forall>(n, b)\<in>set (mc_files c). \<exists>project. Identity project \<and> n = cache_name project (''sha256:'' @ sha256_hex (bl_data b))) \<and>
    (\<exists>rows. cache_rows (mc_files c) = Inr rows) \<and>
    (\<forall>verified steps now project item gid t out. cache_restore verified steps now project item gid c = (t, Inr (Some out)) \<longrightarrow>
       blob_size out = obj_bytes item \<and> ''sha256:'' @ sha256_hex (bl_data out) = obj_digest item)"
proof -
  have inv: "cache_inv cfg c" by (rule cache.reach_inv [OF assms])
  then have blobs: "\<forall>(n, b)\<in>set (mc_files c). blob_ok n b" by (simp add: cache_inv_def files_ok_def)
  have "blob_size out = obj_bytes item \<and> ''sha256:'' @ sha256_hex (bl_data out) = obj_digest item"
    if "cache_restore verified steps now project item gid c = (t, Inr (Some out))" for verified steps now project item gid t out
    using restore_copied [OF that] copied(1) by blast
  moreover have "\<forall>(n, b)\<in>set (mc_files c). \<exists>project. Identity project \<and> n = cache_name project (''sha256:'' @ sha256_hex (bl_data b))"
    using blobs by (auto simp: blob_ok_def)
  ultimately show ?thesis using inv rows_listed [OF blobs] by (simp add: cache_inv_def files_ok_def)
qed

section \<open>Publication\<close>

lemma room_antimono: "has_room cfg bytes (cache_total files) files \<Longrightarrow> has_room cfg bytes (cache_total (filter P files)) (filter P files)"
  using total_filter [of P files] of_nat_mono [OF length_filter_le [of P files], where 'a = int] unfolding has_room_def by linarith

definition pinned_files :: "string list \<Rightarrow> (string \<times> blob) list \<Rightarrow> (string \<times> blob) list" where
  "pinned_files pinned files = filter (\<lambda>q. fst q \<in> set pinned) files"

lemma publish_stores:
  assumes "files_ok cfg files" and "map_of files n = None" and "has_room cfg (obj_bytes item) (cache_total (pinned_files pinned files)) (pinned_files pinned files)"
    and "copy_object src (obj_bytes item) (obj_digest item) 0 0 now = Inr b"
  shows "map_of (publish_files cfg (Inr ()) pinned src now n item files) n = Some b"
proof -
  obtain held kept where ev: "evict cfg (obj_bytes item) pinned (sort_key (bl_mtime \<circ> snd) files) (cache_total files) files = (held, kept)" by fastforce
  then obtain P where P: "held = cache_total kept" "kept = filter P files" using publish_evicts [OF assms(1)] by blast
  have "has_room cfg (obj_bytes item) held kept"
  proof (rule ccontr)
    assume no: "\<not> has_room cfg (obj_bytes item) held kept"
    then have "fst q \<in> set pinned" if "q \<in> set files" "P q" for q using evict_done [OF ev] that no P(2) by (cases q) auto
    then have "kept = filter P (pinned_files pinned files)" unfolding P(2) pinned_files_def filter_filter by (intro filter_cong) auto
    then show False using room_antimono [OF assms(3), of P] no P(1) by simp
  qed
  moreover have "map_of kept n = None" using assms(2) P(2) by (auto simp: map_of_eq_None_iff)
  ultimately show ?thesis using assms(2,4) ev by (simp add: publish_files_def map_add_def)
qed

lemma mapped_member: "map_of files n = Some b \<Longrightarrow> files_ok cfg files \<Longrightarrow> blob_ok n b"
  by (auto simp: files_ok_def dest!: map_of_SomeD)

text \<open>
  C35: a publication fills the cache without taking what is in use. Every blob that an input of a
  retained attempt names is still there afterwards, unchanged. And when the blobs in use leave
  room for the new object and its source is what the plan says, the object is stored, whatever
  else has to be evicted for it, and a restoration for the same project then returns its bytes.
\<close>

theorem publish_fills_and_keeps:
  assumes "reach (cache_empty cfg) (cache_step st cfg) c" and "Identity project"
    and "t = publish_work cfg verified vs src now project item c"
  shows "(\<forall>q\<in>set (mc_files c). fst q \<in> set (pinned_names vs) \<longrightarrow> q \<in> set (mc_files t)) \<and>
    (verified = Inr () \<and> map_of (mc_files c) (cache_name project (obj_digest item)) = None \<and>
     has_room cfg (obj_bytes item) (cache_total (pinned_files (pinned_names vs) (mc_files c))) (pinned_files (pinned_names vs) (mc_files c)) \<and>
     copy_object src (obj_bytes item) (obj_digest item) 0 0 now = Inr b \<longrightarrow>
       (\<exists>u out. cache_restore (Inr ()) (\<lambda>_. Inr ()) later project item gid t = (u, Inr (Some out)) \<and> bl_data out = concat (sd_reads src)))"
    (is "?keeps \<and> (?fills \<longrightarrow> ?restored)")
proof
  have ok: "files_ok cfg (mc_files c)" "files_ok cfg (mc_files t)"
    using cache.reach_inv [OF assms(1)] cache_work_inv [of cfg c project] assms(2,3) by (simp_all add: cache_inv_def)
  show ?keeps using publish_files_ok [OF ok(1) assms(2) refl] by (simp add: assms(3) publish_work_def Let_def)
  show "?fills \<longrightarrow> ?restored"
  proof
    assume f: ?fills
    then have b: "map_of (mc_files t) (cache_name project (obj_digest item)) = Some b"
      using publish_stores [OF ok(1)] by (simp add: assms(3) publish_work_def Let_def)
    have c: "copy_object src (obj_bytes item) (obj_digest item) 0 0 now = Inr b" using f by blast
    have "obj_bytes item = blob_size b" "obj_digest item = ''sha256:'' @ sha256_hex (bl_data b)"
      using copied(1) [OF c] by (simp, metis)
    then obtain out where "copy_object (blob_reading (\<lambda>_. Inr ()) b) (obj_bytes item) (obj_digest item) gid 0 later = Inr out" "bl_data out = bl_data b"
      using blob_restored [OF mapped_member [OF b ok(2)], of "\<lambda>_. Inr ()" item gid later] by blast
    then show ?restored using b copied(1) [OF c] by (simp add: cache_restore_def)
  qed
qed

section \<open>A publication\<close>

definition ex_cache_settings :: cache_settings where
  "ex_cache_settings = \<lparr>cache_directory = ''/var/cache/ficc'', cache_filesystem_uuid = ''abcd-ef01'', cache_maximum_bytes = 4, cache_maximum_files = 2\<rparr>"

definition ex_item :: object_reference where
  "ex_item = \<lparr>obj_id = ex_id (CHR ''7''), obj_digest = ''sha256:'' @ sha256_hex ''abc'', obj_bytes = 3, obj_name = ''model.bin'', obj_delivery = Stream\<rparr>"

definition ex_source :: source_reading where
  "ex_source = \<lparr>sd_open = Inr (), sd_regular = True, sd_uid = 0, sd_size = 3, sd_mode = 0x100, sd_reads = [''ab'', ''c''], sd_steps = (\<lambda>_. Inr ()), sd_unchanged = True\<rparr>"

definition ex_cache :: model_cache where
  "ex_cache = \<lparr>mc_files = [], mc_pending = []\<rparr>"

lemma ex_cache_reach: "reach (cache_empty ex_cache_settings) (cache_step st ex_cache_settings) ex_cache"
proof -
  have "valid_cache_settings ex_cache_settings" by code_simp
  then show ?thesis by (intro reach_start) (simp add: cache_empty_def ex_cache_def)
qed

lemma ex_project: "Identity (ex_id (CHR ''2''))"
  by code_simp

lemma ex_copied: "\<exists>b. copy_object ex_source (obj_bytes ex_item) (obj_digest ex_item) 0 0 9 = Inr b"
  by (simp add: copy_object_def ex_source_def ex_item_def eval_nat_numeral)

theorem publish_fills_and_keeps_witness:
  "\<exists>u out. cache_restore (Inr ()) (\<lambda>_. Inr ()) 10 (ex_id (CHR ''2'')) ex_item 700
     (publish_work ex_cache_settings (Inr ()) [] ex_source 9 (ex_id (CHR ''2'')) ex_item ex_cache) = (u, Inr (Some out)) \<and> bl_data out = ''abc''"
proof -
  obtain b where "copy_object ex_source (obj_bytes ex_item) (obj_digest ex_item) 0 0 9 = Inr b" using ex_copied by blast
  then show ?thesis
    using publish_fills_and_keeps [where verified = "Inr ()" and vs = "[]" and src = ex_source and now = 9 and item = ex_item and b = b
        and later = 10 and gid = 700, OF ex_cache_reach ex_project refl]
    by (auto simp: ex_cache_def pinned_files_def has_room_def cache_total_def ex_cache_settings_def ex_item_def ex_source_def)
qed

theorem cache_bounded_and_honest_witness:
  "(let c = publish_work ex_cache_settings (Inr ()) [] ex_source 9 (ex_id (CHR ''2'')) ex_item ex_cache
    in cache_total (mc_files c) \<le> 4 \<and> (\<exists>rows. cache_rows (mc_files c) = Inr rows))"
  using cache_bounded_and_honest [OF reach_step [OF ex_cache_reach step_work [OF ex_project]], of "Inr ()" "[]" ex_source 9 ex_item]
  by (simp add: Let_def ex_cache_settings_def)

end
