(* ===== verification/Exec_Admin.thy ===== *)
theory Exec_Admin
  imports Exec_Cache Exec_Supervisor_Props
begin

text \<open>
  What the machine administrator does to a stopped executor: \<open>src/ficc/execution/recovery.py\<close> binds
  a retained attempt to the remounted filesystem of its slot, \<open>src/ficc/execution/reconfigure.py\<close>
  installs a new offer, and \<open>src/ficc/execution/storage.py\<close> proves that a slot's mount and account
  are the installed ones. What the operating system reports is a parameter of \<open>verify_slot\<close>.
\<close>

section \<open>The mount table\<close>

record mount_row =
  mr_id :: string
  mr_device :: string
  mr_root :: string
  mr_target :: string
  mr_options :: "string list"
  mr_fstype :: string
  mr_source :: string
  mr_super_options :: string

definition is_white :: "char \<Rightarrow> bool" where
  "is_white c \<longleftrightarrow> (of_char c :: nat) \<in> {9, 10, 11, 12, 13, 28, 29, 30, 31, 32, 133, 160}"

text \<open>\<open>str.split()\<close> and \<open>str.split(sep)\<close>; the first argument is the word read so far.\<close>

fun split_white :: "string \<Rightarrow> string \<Rightarrow> string list" where
  "split_white w [] = (if w = [] then [] else [w])"
| "split_white w (c # cs) =
     (if \<not> is_white c then split_white (w @ [c]) cs else if w = [] then split_white [] cs else w # split_white [] cs)"

fun split_at :: "char \<Rightarrow> string \<Rightarrow> string \<Rightarrow> string list" where
  "split_at sep w [] = [w]"
| "split_at sep w (c # cs) = (if c = sep then w # split_at sep [] cs else split_at sep (w @ [c]) cs)"

definition mount_row_of :: "string \<Rightarrow> mount_row res" where
  "mount_row_of line =
     (let parts = split_white [] line; sep = length (takeWhile (\<lambda>p. p \<noteq> ''-'') parts) in
      if sep = length parts \<or> length parts \<noteq> sep + 4 \<or> sep < 6 then Inl ValueError
      else Inr \<lparr>mr_id = parts ! 0, mr_device = parts ! 2, mr_root = parts ! 3, mr_target = parts ! 4, mr_options = split_at (CHR '','') [] (parts ! 5),
        mr_fstype = parts ! (sep + 1), mr_source = parts ! (sep + 2), mr_super_options = parts ! (sep + 3)\<rparr>)"

fun mount_rows :: "string list \<Rightarrow> mount_row list res" where
  "mount_rows [] = Inr []"
| "mount_rows (l # ls) = bindr (mount_row_of l) (\<lambda>r. bindr (mount_rows ls) (\<lambda>rs. Inr (r # rs)))"

section \<open>A slot's storage\<close>

text \<open>
  The reports on one slot: the opened directory (device, inode, whether it is a directory), the
  account (uid, gid, shell), its group and the group's members, the members of all groups, the
  lines of the mount table, the device in the form of the mount table and that of the parent, the
  filesystem's identity, its blocks, their size and its inodes, and the account's processes.
\<close>

record slot_report =
  sr_directory :: "(int \<times> int \<times> bool) res"
  sr_user :: "(int \<times> int \<times> string) res"
  sr_group :: "int res"
  sr_primary_members :: "string list"
  sr_all_members :: "string list list"
  sr_mountinfo :: "string list"
  sr_device :: string
  sr_parent_device :: int
  sr_uuid :: "string res"
  sr_space :: "int \<times> int \<times> int"
  sr_processes :: "int list"

definition slot_binding :: "slot \<Rightarrow> mount_row \<Rightarrow> int \<Rightarrow> int \<Rightarrow> string \<Rightarrow> int \<Rightarrow> int \<Rightarrow> json" where
  "slot_binding sl row dev ino uuid maximum inodes = JObj [(''slot_id'', JStr (slot_id sl)), (''generation'', JInt (slot_generation sl)),
     (''mount_id'', JStr (mr_id row)), (''device'', JInt dev), (''inode'', JInt ino), (''filesystem_uuid'', JStr uuid),
     (''storage_bytes'', JInt maximum), (''storage_inodes'', JInt inodes), (''uid'', JInt (slot_uid sl)), (''gid'', JInt (slot_gid sl))]"

definition account_ok :: "slot \<Rightarrow> slot_report \<Rightarrow> unit res" where
  "account_ok sl h =
     bindr (sr_user h) (\<lambda>(uid, gid, shell). bindr (sr_group h) (\<lambda>group.
     if (uid, gid, group) \<noteq> (slot_uid sl, slot_gid sl, slot_gid sl) then Inl ValueError
     else if shell \<notin> {''/usr/sbin/nologin'', ''/sbin/nologin'', ''/bin/false''} \<or> sr_primary_members h \<noteq> [] then Inl ValueError
     else if list_ex (\<lambda>members. slot_account sl \<in> set members) (sr_all_members h) then Inl ValueError else Inr ()))"

definition mount_ok :: "slot \<Rightarrow> slot_report \<Rightarrow> int \<Rightarrow> mount_row res" where
  "mount_ok sl h dev =
     bindr (mount_rows (sr_mountinfo h)) (\<lambda>rows.
     case filter (\<lambda>r. mr_target r = slot_mount sl) rows of
       [row] \<Rightarrow>
         if mr_root row \<noteq> ''/'' \<or> ''rw'' \<notin> set (mr_options row) then Inl ValueError
         else if mr_fstype row \<noteq> ''ext4'' \<or> \<not> {''nosuid'', ''nodev''} \<subseteq> set (mr_options row) then Inl ValueError
         else if mr_device row \<noteq> sr_device h \<or> dev = sr_parent_device h then Inl ValueError
         else Inr row
     | _ \<Rightarrow> Inl ValueError)"

definition verify_slot :: "slot_report \<Rightarrow> slot \<Rightarrow> json option \<Rightarrow> bool \<Rightarrow> json res" where
  "verify_slot h sl previous idle =
     bindr (sr_directory h) (\<lambda>(dev, ino, isdir).
     bindr (account_ok sl h) (\<lambda>_.
     bindr (mount_ok sl h dev) (\<lambda>row.
     bindr (sr_uuid h) (\<lambda>uuid.
     case sr_space h of (blocks, frsize, inodes) \<Rightarrow>
       let maximum = blocks * frsize; binding = slot_binding sl row dev ino uuid maximum inodes in
       if uuid \<noteq> slot_filesystem_uuid sl then Inl ValueError
       else if \<not> (0 < maximum \<and> maximum \<le> slot_storage_bytes sl) \<or> \<not> (0 < inodes \<and> inodes \<le> slot_storage_inodes sl) then Inl ValueError
       else if previous \<noteq> None \<and> previous \<noteq> Some binding then Inl ValueError
       else if idle \<and> sr_processes h \<noteq> [] then Inl ValueError
       else if \<not> isdir then Inl ValueError else Inr binding))))"

section \<open>Recovery\<close>

fun field :: "json \<Rightarrow> string \<Rightarrow> json option" where
  "field (JObj kvs) k = map_of kvs k"
| "field _ k = None"

definition recovered_keys :: "string list" where
  "recovered_keys = [''slot_id'', ''filesystem_uuid'', ''storage_bytes'', ''storage_inodes'', ''uid'', ''gid'', ''inode'']"

text \<open>A binding that is absent or has no such key is an exception of the interpreter, here \<open>KeyError\<close>.\<close>

definition storage_match :: "json \<Rightarrow> json \<Rightarrow> unit res" where
  "storage_match before binding =
     (if list_ex (\<lambda>k. field before k = None) recovered_keys then Inl KeyError
      else if list_ex (\<lambda>k. field binding k \<noteq> field before k) recovered_keys then Inl ValueError else Inr ())"

definition recovery_slot :: "settings \<Rightarrow> int \<Rightarrow> attempt_value \<Rightarrow> (slot \<times> json) res" where
  "recovery_slot st expected v =
     (case find (\<lambda>sl. Some (slot_id sl) = v_slot v) (set_slots st) of
        None \<Rightarrow> Inl ValueError
      | Some sl \<Rightarrow>
          (case v_binding v of
             None \<Rightarrow> Inl KeyError
           | Some before \<Rightarrow>
               (case field before ''generation'' of
                  None \<Rightarrow> Inl KeyError
                | Some g \<Rightarrow> if g \<noteq> JInt expected \<or> slot_generation sl \<le> expected then Inl ValueError else Inr (sl, before))))"

text \<open>\<open>stopped\<close> is the outcome of stopping what is left of the attempt's unit.\<close>

definition recover :: "settings \<Rightarrow> admin_env \<Rightarrow> (slot \<Rightarrow> slot_report) \<Rightarrow> unit res \<Rightarrow> fence \<Rightarrow> int \<Rightarrow> rat \<Rightarrow> string \<Rightarrow> ledger \<Rightarrow> ledger \<times> public_attempt res" where
  "recover st a reports stopped asked expected now token s =
     (case bindr (stopped_by a) (\<lambda>_. open_ledger (set_installation_id st) token s) of
        Inl e \<Rightarrow> (s, Inl e)
      | Inr s1 \<Rightarrow>
          (case bindr (fenced s1 (f_attempt_id asked) (f_generation asked) (f_plan_digest asked)) (\<lambda>v.
              bindr (recovery_slot st expected v) (\<lambda>(sl, before).
              bindr stopped (\<lambda>_. bindr (verify_slot (reports sl) sl None True) (\<lambda>binding.
              bindr (storage_match before binding) (\<lambda>_. recover_storage asked (Some before) binding now s1))))) of
             Inl e \<Rightarrow> (s1, Inl e)
           | Inr (t, v) \<Rightarrow> (t, public v)))"

section \<open>Reconfiguration\<close>

definition reconfigure :: "settings \<Rightarrow> admin_env \<Rightarrow> int \<Rightarrow> string \<Rightarrow> ledger \<Rightarrow> ledger \<times> offer res" where
  "reconfigure st a revision token s =
     (case bindr (stopped_by a) (\<lambda>_. open_ledger (set_installation_id st) token s) of
        Inl e \<Rightarrow> (s, Inl e)
      | Inr s1 \<Rightarrow>
          let v = (set_initial_offer st)\<lparr>off_revision := revision + 1\<rparr> in
          (case bindr (if all_released s1 then Inr () else Inl ValueError) (\<lambda>_. bindr (validate_offer v (set_ceiling st)) (\<lambda>_. save_offer v revision s1)) of
             Inl e \<Rightarrow> (s1, Inl e)
           | Inr t \<Rightarrow> (t, Inr v)))"

end
