(* ===== verification/Exec_Admin_Props.thy ===== *)
theory Exec_Admin_Props
  imports Exec_Admin
begin

text \<open>
  The administrator's operations are transactions of the ledger like any other: they keep its
  invariant, touch one attempt or none, and give nothing away. Recovery keeps the reserved
  filesystem and account, and a reconfiguration waits until no attempt is retained.
\<close>

lemma opened:
  assumes "open_ledger installation token s = Inr t"
  shows "get t = get s" "led_offer t = led_offer s" "led_attempts t = led_attempts s" "ledger_step s t"
  using assms by (auto simp: open_ledger_def get_def Let_def fun_eq_iff split: if_splits intro: step_open)

lemma verified:
  assumes "verify_slot h sl previous idle = Inr b"
  shows "field b ''generation'' = Some (JInt (slot_generation sl)) \<and> field b ''slot_id'' = Some (JStr (slot_id sl)) \<and>
    field b ''filesystem_uuid'' = Some (JStr (slot_filesystem_uuid sl)) \<and> field b ''uid'' = Some (JInt (slot_uid sl)) \<and> (idle \<longrightarrow> sr_processes h = []) \<and>
    (previous = None \<or> previous = Some b) \<and> (\<exists>n\<in>{1..slot_storage_bytes sl}. field b ''storage_bytes'' = Some (JInt n))"
  using assms by (cases "sr_space h") (auto simp: verify_slot_def bindr_Inr Let_def slot_binding_def split: if_splits)

lemma recovery_slotD:
  assumes "recovery_slot st expected v = Inr (sl, before)"
  shows "sl \<in> set (set_slots st) \<and> v_slot v = Some (slot_id sl) \<and> v_binding v = Some before \<and>
    field before ''generation'' = Some (JInt expected) \<and> expected < slot_generation sl"
  using assms by (auto simp: recovery_slot_def find_Some_iff split: option.splits if_splits)

lemma recover_committed:
  assumes "ledger_inv s" and "recover_storage asked before b now s = Inr (t, v)"
  shows "\<exists>u. get s (f_attempt_id asked) = Some u \<and> v_state u \<noteq> Released \<and> v = recovered before b now u \<and> v_slot v = v_slot u \<and>
    (\<forall>k. get t k = (if k = f_attempt_id asked then Some v else get s k))"
  using assms(2)
proof (cases rule: recover_cases)
  case (1 u)
  have "same_plan u v" "v_slot v = v_slot u" by (simp_all add: 1(5) recovered_def same_plan_def Let_def)
  then show ?thesis using 1 fencedD(1) [OF 1(1)] get_fenced_save [OF assms(1) 1(1)] by auto
qed

lemma recover_steps:
  assumes "recover st a reports stopped asked expected now token s = (t, r)"
  shows "ledger_step\<^sup>*\<^sup>* s t"
proof (cases "bindr (stopped_by a) (\<lambda>_. open_ledger (set_installation_id st) token s)")
  case (Inl e)
  then show ?thesis using assms by (simp add: recover_def)
next
  case (Inr s1)
  then have "ledger_step s s1" using opened(4) by (auto simp: bindr_Inr)
  moreover have "t = s1 \<or> ledger_step s1 t"
    using assms Inr by (auto simp: recover_def bindr_Inr split: sum.splits prod.splits intro: step_recover)
  ultimately show ?thesis by (meson converse_rtranclp_into_rtranclp r_into_rtranclp rtranclp.rtrancl_refl)
qed

text \<open>
  C36: recovery gives an attempt its own storage back and nothing else. The ledger after a recovery
  is reached by its transactions and keeps its invariant, whatever the recovery answered. When it
  succeeded, the administrator ran it on a stopped executor; the attempt was not released; its slot
  is an installed one with a generation above the one the administrator named, which is the
  one recorded; the new binding is what the verification of this slot found with no process of
  the workload account left, and agrees with the recorded one on filesystem, capacity, account
  and inode; no other attempt changed; and the attempt keeps its slot, its terminal state if it
  had one, and otherwise has an unknown outcome.
\<close>

theorem recovery_rebinds_same_storage:
  assumes "ledger_reach s" and "recover st a reports stopped asked expected now token s = (t, r)"
  shows "ledger_inv t \<and> (\<forall>p. r = Inr p \<longrightarrow> ad_euid a = 0 \<and>
    (\<exists>u sl before b. get s (f_attempt_id asked) = Some u \<and> v_state u \<noteq> Released \<and> sl \<in> set (set_slots st) \<and> v_slot u = Some (slot_id sl) \<and>
       v_binding u = Some before \<and> field before ''generation'' = Some (JInt expected) \<and> expected < slot_generation sl \<and>
       verify_slot (reports sl) sl None True = Inr b \<and> sr_processes (reports sl) = [] \<and> (\<forall>k\<in>set recovered_keys. field b k = field before k) \<and>
       get t = (get s)(f_attempt_id asked \<mapsto> recovered (Some before) b now u)))"
proof -
  have inv: "ledger_inv t" using recover_steps [OF assms(2)] led.reach_inv [OF assms(1)] led.run_inv by blast
  have "ad_euid a = 0 \<and> (\<exists>u sl before b. get s (f_attempt_id asked) = Some u \<and> v_state u \<noteq> Released \<and> sl \<in> set (set_slots st) \<and> v_slot u = Some (slot_id sl) \<and>
       v_binding u = Some before \<and> field before ''generation'' = Some (JInt expected) \<and> expected < slot_generation sl \<and>
       verify_slot (reports sl) sl None True = Inr b \<and> sr_processes (reports sl) = [] \<and> (\<forall>k\<in>set recovered_keys. field b k = field before k) \<and>
       get t = (get s)(f_attempt_id asked \<mapsto> recovered (Some before) b now u))" if r: "r = Inr p" for p
  proof -
    obtain s1 w sl before b v where x: "stopped_by a = Inr ()" "open_ledger (set_installation_id st) token s = Inr s1"
        "fenced s1 (f_attempt_id asked) (f_generation asked) (f_plan_digest asked) = Inr w" "recovery_slot st expected w = Inr (sl, before)"
        "verify_slot (reports sl) sl None True = Inr b" "storage_match before b = Inr ()" "recover_storage asked (Some before) b now s1 = Inr (t, v)"
      using assms(2) r by (auto simp: recover_def bindr_Inr split: sum.splits)
    have s1: "ledger_inv s1" using led.reach_inv [OF reach_step [OF assms(1) opened(4) [OF x(2)]]] .
    have w: "get s (f_attempt_id asked) = Some w" using fencedD(1) [OF x(3)] opened(1) [OF x(2)] by simp
    have "v_state w \<noteq> Released \<and> get t = (get s)(f_attempt_id asked \<mapsto> recovered (Some before) b now w)"
      using recover_committed [OF s1 x(7)] w opened(1) [OF x(2)] by (auto simp: fun_eq_iff)
    moreover have "\<forall>k\<in>set recovered_keys. field b k = field before k" using x(6) by (auto simp: storage_match_def list_ex_iff split: if_splits)
    moreover have "ad_euid a = 0" using x(1) by (auto simp: stopped_by_def split: if_splits)
    moreover have "sr_processes (reports sl) = []" using verified [OF x(5)] by simp
    ultimately show ?thesis using w recovery_slotD [OF x(4)] x(5) by blast
  qed
  then show ?thesis using inv by blast
qed

text \<open>
  A reconfiguration changes the offer only of an idle executor. Whatever it answers, no attempt
  changed and the ledger keeps its invariant. When it succeeded, every attempt is released, and
  the offer is the installed one with the next revision, within the ceiling, in the mode
  the executor already had.
\<close>

theorem reconfiguration_when_released:
  assumes "ledger_reach s" and "reconfigure st a revision token s = (t, r)"
  shows "ledger_inv t \<and> get t = get s \<and> ((\<exists>e. r = Inl e) \<longrightarrow> led_offer t = led_offer s) \<and>
    (\<forall>v. r = Inr v \<longrightarrow> ad_euid a = 0 \<and> (\<forall>k u. get s k = Some u \<longrightarrow> v_state u = Released) \<and>
       led_offer t = Some v \<and> v = (set_initial_offer st)\<lparr>off_revision := revision + 1\<rparr> \<and> validate_offer v (set_ceiling st) = Inr () \<and>
       (case led_offer s of None \<Rightarrow> revision = 0 | Some old \<Rightarrow> off_revision old = revision \<and> off_mode old = off_mode v))"
proof (cases "bindr (stopped_by a) (\<lambda>_. open_ledger (set_installation_id st) token s)")
  case (Inl e)
  then show ?thesis using assms led.reach_inv by (auto simp: reconfigure_def)
next
  case (Inr s1)
  then have o: "stopped_by a = Inr ()" "open_ledger (set_installation_id st) token s = Inr s1" by (auto simp: bindr_Inr)
  note open1 = opened [OF o(2)]
  have inv1: "ledger_inv s1" using led.reach_inv [OF reach_step [OF assms(1) open1(4)]] .
  let ?v = "(set_initial_offer st)\<lparr>off_revision := revision + 1\<rparr>"
  have root: "ad_euid a = 0" using o(1) by (auto simp: stopped_by_def split: if_splits)
  show ?thesis
  proof (cases "bindr (if all_released s1 then Inr () else Inl ValueError) (\<lambda>_. bindr (validate_offer ?v (set_ceiling st)) (\<lambda>_. save_offer ?v revision s1))")
    case (Inl e)
    then have "t = s1" "r = Inl e" using assms(2) Inr by (simp_all add: reconfigure_def)
    then show ?thesis using inv1 open1 by simp
  next
    case ok: (Inr t')
    then have t: "t = t'" "r = Inr ?v" using assms(2) Inr by (simp_all add: reconfigure_def)
    have s: "all_released s1" "validate_offer ?v (set_ceiling st) = Inr ()" "save_offer ?v revision s1 = Inr t" using ok t by (auto simp: bindr_Inr split: if_splits)
    have "\<forall>k u. get s k = Some u \<longrightarrow> v_state u = Released"
      using s(1) open1(1) [symmetric] by (auto simp: all_released_def all_rows_def list_all_iff get_def dest!: find_row_Some)
    moreover have "led_offer t = Some ?v" "get t = get s"
      "case led_offer s of None \<Rightarrow> revision = 0 | Some old \<Rightarrow> off_revision old = revision \<and> off_mode old = off_mode ?v"
      using s(3) open1 by (auto simp: save_offer_def Let_def get_def fun_eq_iff split: if_splits option.splits)
    ultimately show ?thesis using save_offer_inv [OF inv1 s(3)] root s(2) t by auto
  qed
qed

text \<open>The installed mode stays, also for the administrator.\<close>

lemma reconfigure_refuses_mode:
  assumes "led_offer s = Some old" and "off_mode old \<noteq> off_mode (set_initial_offer st)"
  shows "\<exists>e. snd (reconfigure st a revision token s) = Inl e"
proof (cases "bindr (stopped_by a) (\<lambda>_. open_ledger (set_installation_id st) token s)")
  case (Inl e)
  then show ?thesis by (simp add: reconfigure_def)
next
  case (Inr s1)
  then have "led_offer s1 = Some old" using opened(2) assms(1) by (auto simp: bindr_Inr)
  then have "\<exists>e. save_offer ((set_initial_offer st)\<lparr>off_revision := revision + 1\<rparr>) revision s1 = Inl e" using assms(2) by (simp add: save_offer_def Let_def)
  then show ?thesis using Inr by (auto simp: reconfigure_def bindr_def Let_def split: sum.splits)
qed

section \<open>A remounted slot\<close>

definition ex_remount :: slot where
  "ex_remount = (ex_slot ''slot-a'' ''/srv/a'' 700)\<lparr>slot_generation := 2\<rparr>"

definition ex_admin_settings :: settings where
  "ex_admin_settings = ex_settings\<lparr>set_slots := [ex_remount]\<rparr>"

definition ex_admin :: admin_env where
  "ex_admin = \<lparr>ad_euid = 0, ad_properties = [(''ActiveState'', ''inactive''), (''MainPID'', ''0'')]\<rparr>"

definition ex_row :: mount_row where
  "ex_row = \<lparr>mr_id = ''36'', mr_device = ''8:1'', mr_root = ''/'', mr_target = ''/srv/a'', mr_options = [''rw'', ''nosuid'', ''nodev''], mr_fstype = ''ext4'',
     mr_source = ''/dev/sda1'', mr_super_options = ''rw''\<rparr>"

definition ex_report :: slot_report where
  "ex_report = \<lparr>sr_directory = Inr (2049, 2, True), sr_user = Inr (700, 700, ''/bin/false''), sr_group = Inr 700, sr_primary_members = [],
     sr_all_members = [[''root'']], sr_mountinfo = [''35 1 8:0 / / rw - ext4 /dev/sda rw'', ''36 35 8:1 / /srv/a rw,nosuid,nodev - ext4 /dev/sda1 rw''],
     sr_device = ''8:1'', sr_parent_device = 2048, sr_uuid = Inr ''12345678'', sr_space = (10, 2, 8), sr_processes = []\<rparr>"

definition ex_before :: json where
  "ex_before = slot_binding (ex_slot ''slot-a'' ''/srv/a'' 700) (ex_row\<lparr>mr_id := ''30''\<rparr>) 2050 2 ''12345678'' 20 8"

lemma ex_mounted: "\<exists>row. mount_rows (sr_mountinfo ex_report) = Inr [row, ex_row] \<and> mr_target row = ''/''"
proof -
  have "mount_row_of ''36 35 8:1 / /srv/a rw,nosuid,nodev - ext4 /dev/sda1 rw'' = Inr ex_row" by code_simp
  moreover have "\<exists>row. mount_row_of ''35 1 8:0 / / rw - ext4 /dev/sda rw'' = Inr row \<and> mr_target row = ''/''"
    by (simp add: mount_row_of_def is_white_def Let_def)
  ultimately show ?thesis by (auto simp: ex_report_def)
qed

lemma ex_verified: "verify_slot ex_report ex_remount None True = Inr (slot_binding ex_remount ex_row 2049 2 ''12345678'' 20 8)"
proof -
  have "mount_ok ex_remount ex_report 2049 = Inr ex_row"
    using ex_mounted by (auto simp: mount_ok_def ex_remount_def ex_slot_def) (simp_all add: ex_row_def ex_report_def)
  then show ?thesis by (simp add: verify_slot_def account_ok_def Let_def) (simp add: ex_report_def ex_remount_def ex_slot_def)
qed

definition ex_bound_value :: attempt_value where
  "ex_bound_value = new_value ex_plan1 (Some ''slot-a'') (Some ex_before) Prepared False 1000 None None"

definition ex_bound_ledger :: ledger where
  "ex_bound_ledger = ex_led0\<lparr>led_attempts := [value_row ex_bound_value], led_devices := [(''gpu0'', ex_id (CHR ''a''))]\<rparr>"

lemma ex_bound_reach: "ledger_reach ex_bound_ledger"
proof -
  have 0: "ex_led0 = \<lparr>led_installation_id = Some (ex_id (CHR ''0'')), led_ledger_id = Some (ex_id (CHR ''9'')), led_offer = Some ex_offer, led_attempts = [],
      led_devices = []\<rparr>" by (simp add: ex_led0_def empty_ledger_def)
  have "reserve ex_plan1 ''slot-a'' ex_before 1000 ex_led0 = Inr (ex_bound_ledger, ex_bound_value)"
    unfolding ex_bound_ledger_def ex_bound_value_def
    by (subst reserve_accepts [OF ex_led0_inv ex_valid(1), where offer = ex_offer])
      (simp_all add: 0 vals_def total_def get_def find_row_def ex_plan1_def ex_refusal,
        simp_all add: ex_offer_def ex_plan_def ex_job_def ex_limits_def)
  from reach_step [OF ex_led0_reach step_reserve [OF ex_valid(1) this]] show ?thesis .
qed

definition ex_bound_fence :: fence where
  "ex_bound_fence = \<lparr>f_attempt_id = ex_id (CHR ''a''), f_generation = 1, f_plan_digest = digest_of_plan ex_plan1\<rparr>"

lemma ex_recovered:
  "\<exists>t p. recover ex_admin_settings ex_admin (\<lambda>_. ex_report) (Inr ()) ex_bound_fence 1 5000 (ex_id (CHR ''9'')) ex_bound_ledger = (t, Inr p)"
proof -
  have "Identity (ex_id (CHR ''9''))" by code_simp
  then have 1: "open_ledger (set_installation_id ex_admin_settings) (ex_id (CHR ''9'')) ex_bound_ledger = Inr ex_bound_ledger"
    by (simp add: open_ledger_def ex_bound_ledger_def ex_led0_def empty_ledger_def ex_admin_settings_def ex_settings_def)
  have 2: "fenced ex_bound_ledger (f_attempt_id ex_bound_fence) (f_generation ex_bound_fence) (f_plan_digest ex_bound_fence) = Inr ex_bound_value"
    by (simp add: fenced_def get_def find_row_def ex_bound_ledger_def ex_bound_fence_def value_row_def ex_bound_value_def new_value_def ex_plan1_def ex_plan_def)
  have 3: "recovery_slot ex_admin_settings 1 ex_bound_value = Inr (ex_remount, ex_before)"
    by (simp add: recovery_slot_def ex_admin_settings_def ex_remount_def ex_slot_def ex_bound_value_def new_value_def ex_before_def slot_binding_def)
  have 4: "storage_match ex_before (slot_binding ex_remount ex_row 2049 2 ''12345678'' 20 8) = Inr ()"
    by (simp add: storage_match_def recovered_keys_def ex_before_def slot_binding_def ex_remount_def ex_slot_def)
  let ?v = "recovered (Some ex_before) (slot_binding ex_remount ex_row 2049 2 ''12345678'' 20 8) 5000 ex_bound_value"
  have "v_state ex_bound_value = Prepared" "v_binding ex_bound_value = Some ex_before" "v_storage_recovery ex_bound_value = []"
    by (simp_all add: ex_bound_value_def new_value_def)
  then have 5: "recover_storage ex_bound_fence (Some ex_before) (slot_binding ex_remount ex_row 2049 2 ''12345678'' 20 8) 5000 ex_bound_ledger =
      Inr (delete_devices (f_attempt_id ex_bound_fence) (save ?v ex_bound_ledger), ?v)"
    using 2 by (simp add: recover_storage_def Let_def recovered_def)
  have "Digest (digest_of_plan ex_plan1)" by (simp add: digest_of_plan_def digest_Digest)
  moreover have "Identity (ex_id (CHR ''a''))" "Name ''storage_recovered_outcome_unknown''" by code_simp+
  ultimately have "public ?v = Inr (public_of ?v)"
    by (simp add: public_def public_of_def recovered_def Let_def ex_bound_value_def new_value_def ex_plan1_def ex_plan_def terminal_def
        valid_attempt_result_def valid_fence_def Revision_def Count_def terminal_truth_def)
  then show ?thesis using 1 2 3 4 5 ex_verified by (simp add: recover_def stopped_by_def ex_admin_def)
qed

theorem recovery_rebinds_same_storage_witness:
  "\<exists>t p u. recover ex_admin_settings ex_admin (\<lambda>_. ex_report) (Inr ()) ex_bound_fence 1 5000 (ex_id (CHR ''9'')) ex_bound_ledger = (t, Inr p) \<and>
     get ex_bound_ledger (ex_id (CHR ''a'')) = Some u \<and> v_state u \<noteq> Released \<and> ledger_inv t"
proof -
  obtain t p where r: "recover ex_admin_settings ex_admin (\<lambda>_. ex_report) (Inr ()) ex_bound_fence 1 5000 (ex_id (CHR ''9'')) ex_bound_ledger = (t, Inr p)"
    using ex_recovered by blast
  have "f_attempt_id ex_bound_fence = ex_id (CHR ''a'')" by (simp add: ex_bound_fence_def)
  with recovery_rebinds_same_storage [OF ex_bound_reach r] r show ?thesis by auto
qed

lemma ex_installed: "open_ledger (set_installation_id ex_settings) (ex_id (CHR ''9'')) ex_led0 = Inr ex_led0"
proof -
  have "Identity (ex_id (CHR ''9''))" by code_simp
  then show ?thesis by (simp add: open_ledger_def ex_led0_def empty_ledger_def ex_settings_def)
qed

theorem reconfiguration_when_released_witness:
  "\<exists>t v. reconfigure ex_settings ex_admin 1 (ex_id (CHR ''9'')) ex_led0 = (t, Inr v) \<and> led_offer t = Some v \<and> off_revision v = 2"
proof -
  let ?v = "(set_initial_offer ex_settings)\<lparr>off_revision := 2\<rparr>"
  have "led_attempts ex_led0 = []" "led_offer ex_led0 = Some ex_offer" "set_initial_offer ex_settings = ex_offer" "off_revision ex_offer = 1"
    by (simp_all add: ex_led0_def empty_ledger_def ex_settings_def ex_offer_def)
  moreover from this have "save_offer ?v 1 ex_led0 = Inr (ex_led0\<lparr>led_offer := Some ?v\<rparr>)" by (simp add: save_offer_def)
  moreover have "validate_offer ?v (set_ceiling ex_settings) = Inr ()" by code_simp
  ultimately have r: "reconfigure ex_settings ex_admin 1 (ex_id (CHR ''9'')) ex_led0 = (ex_led0\<lparr>led_offer := Some ?v\<rparr>, Inr ?v)"
    using ex_installed by (simp add: reconfigure_def stopped_by_def ex_admin_def all_released_def all_rows_def Let_def)
  with reconfiguration_when_released [OF ex_led0_reach r] show ?thesis by auto
qed

end
