(* ===== verification/Spec2Isabelle.thy ===== *)
theory Spec2Isabelle
  imports Exec_Spec_Props Exec_Monitor_Props Exec_Service_Props Exec_Outputs Fair_Scheduler Work_Records_Props
    Contributors_Props Work_Commands_Props Work_Channel_Props Access_Props Work_Authority_Props Work_Loop_Props Work_Runner_Run
    Work_Inputs_Props Work_Queue_Run Node_Relay_Run Exec_Cache_Props Exec_Admin_Props
begin

text \<open>
  A verification development of the contributor execution core of ficc: a controller runs
  project workloads on contributed machines. All paths are below \<open>src/\<close> of the repository, and
  \<open>execution/\<close> and \<open>workloads/\<close> stand for \<open>src/ficc/execution/\<close> and \<open>src/ficc/workloads/\<close>.

  \<^bold>\<open>The parts and how they interact.\<close> On every contributed machine an \<^emph>\<open>executor\<close> runs: a service
  that reads messages from a local socket (\<open>service.py\<close>), dispatches them to a supervisor
  (\<open>supervisor.py\<close>), which records every decision in a durable ledger (\<open>ledger.py\<close>) before it has an
  effect, and a monitor (\<open>monitor.py\<close>) that ends whatever lost its authority. On the \<^emph>\<open>controller\<close>, a
  principal of a project (\<open>auth.py\<close>, \<open>identity_store.py\<close>) submits jobs to a queue (\<open>workloads/queue.py\<close>),
  which captures a delegation (\<open>workloads/authority.py\<close>) under an enforced policy (\<open>policies.py\<close>); a runner
  (\<open>workloads/runner.py\<close>) polls the contributors, reconciles what their executors report with the durable
  records (\<open>workloads/records.py\<close>), asks a scheduler package for the next jobs, reserves capacity,
  dispatches, renews leases and stops attempts, through a command channel (\<open>workloads/channel.py\<close>)
  that contributors poll with enrolled certificates (\<open>contributors.py\<close>, \<open>contributor_store.py\<close>). Between the two, on the
  contributed machine, a node client keeps a lease by heartbeats (\<open>contributor_client.py\<close>) and relays commands
  and replies (\<open>contributor_execution.py\<close>) over the executor's socket (\<open>execution/client.py\<close>).

  \<^bold>\<open>Conventions.\<close> Python strings and bytes are \<open>string\<close>, integers are \<open>int\<close>, seconds are \<open>rat\<close>; a class
  with validators is a \<open>record\<close> with a predicate \<open>valid_...\<close>; a dictionary whose order matters is an
  association list; a call that may raise returns \<open>exn + 'a\<close>, and an operation that keeps effects made before
  the exception returns the state together with the result. A database is the state of the
  operations, and a \<open>with store.db\<close> block is one operation that leaves the state alone when it
  raises. A coroutine takes for every await what was returned to it and a function for what other
  tasks did meanwhile, restricted in the theorems by a relation (\<open>tame\<close>). Clocks, random tokens,
  sockets, processes, files, certificates and package code are arguments: the records \<open>env\<close>
  (executor), \<open>cenv\<close> (contributors), \<open>policy_world\<close> and \<open>policy_library\<close> (policies), \<open>readings\<close> and
  \<open>await\<close> (runner), \<open>registries\<close> and \<open>queue_world\<close> (queue), \<open>round_world\<close> and \<open>relay_world\<close> (node), \<open>slot_report\<close> (storage),
  \<open>source_reading\<close> (cache). Pydantic's validation and serialisation is the record \<open>codec\<close>.

  \<^bold>\<open>Theories.\<close>
  \<^item> \<open>Prelude\<close>: result types, \<open>bindr\<close> and \<open>ensure\<close>, tables, the locale \<open>invariant_system\<close> for reachable states
    and their invariants. \<open>Json_Codec\<close>: the canonical JSON text of \<open>spec.py\<close> and that it determines the
    value. \<open>Sha256\<close>: the hash on 32-bit words.
  \<^item> \<open>Exec_Spec\<close>, \<open>Exec_Clock\<close>, \<open>Exec_Offer\<close>, \<open>Exec_Settings\<close>, \<open>Exec_Protocol\<close>, \<open>Exec_Wire\<close>: the models and validators of
    \<open>execution/spec.py\<close>, \<open>clock.py\<close>, \<open>offer.py\<close>, \<open>settings.py\<close>, \<open>protocol.py\<close>, \<open>wire.py\<close>; \<open>Exec_Spec_Props\<close> shows that the encoding
    of a plan determines the plan and that owner, transport and workloads have separate authority.
  \<^item> \<open>Exec_Ledger\<close> with \<open>_Inv\<close>, \<open>_Run\<close>, \<open>_Props\<close>: \<open>ledger.py\<close>, its invariant, and that it refines an allocator of
    storage slots and devices, never lets two attempts share one, stays within the offer, moves
    attempts only forward and bounds every lease.
  \<^item> \<open>Exec_Supervisor\<close> with \<open>_Inv\<close>, \<open>_Props\<close>; \<open>Exec_Monitor\<close> with \<open>_Props\<close>: \<open>supervisor.py\<close>, \<open>inputs.py\<close>, \<open>monitor.py\<close>;
    whatever the machine answers, their operations are ledger transactions, nothing starts beyond
    the ceiling of the administrator, and a tick leaves nothing running without authority.
  \<^item> \<open>Exec_Endpoints\<close>, \<open>Exec_Service\<close> with \<open>_Props\<close>, \<open>Exec_Outputs\<close>: \<open>endpoints.py\<close>, \<open>service.py\<close>, \<open>outputs.py\<close>, \<open>files.py\<close>;
    dispatching a message moves the ledger only by its transactions, and reading an output chunk
    by chunk returns the whole file.
  \<^item> \<open>Exec_Cache\<close> with \<open>_Props\<close>: \<open>model_cache.py\<close>, \<open>cache_admin.py\<close>; the cache stays within its bounds, its blobs hold what their
    names promise, and a publication keeps what is in use. \<open>Exec_Admin\<close> with \<open>_Props\<close>: \<open>storage.py\<close>, \<open>recovery.py\<close>,
    \<open>reconfigure.py\<close>; what the administrator does to a stopped executor are ledger transactions, and a
    recovered attempt keeps its filesystem and account.
  \<^item> \<open>Fair_Scheduler\<close>: the scheduler package \<open>scheduler-providers/fair\<close>; it respects its limits, is fair and
    does not starve a project.
  \<^item> \<open>Work_Schema\<close>, \<open>Work_Records\<close> with \<open>_Inv\<close>, \<open>_Props\<close>: \<open>workloads/schema.py\<close>, \<open>records.py\<close>, \<open>node_records.py\<close>, \<open>usage.py\<close>; the
    controller's tables as a transition system \<open>work_step\<close>, whose reachable states never hold two open
    attempts of a job nor share a GPU, stay within reported capacity and pass restore validation.
  \<^item> \<open>Contrib_Certificates\<close>, \<open>Contrib_Store\<close> with \<open>_Inv\<close>, \<open>Contrib_Props\<close>, \<open>Contributors\<close> with \<open>_Props\<close>: enrolment, certificates
    and sessions of contributors; whoever authenticates is enabled and holds its only current
    certificate, and a disabled contributor never authenticates again.
  \<^item> \<open>Work_Commands\<close>, \<open>Work_Channel\<close> with \<open>_Props\<close>: \<open>commands.py\<close>, \<open>channel.py\<close>; executor answers pass the binding check
    of the controller (the two sides composed), and a command is delivered at most once and
    answered only by the contributor it went to, in every interleaving.
  \<^item> \<open>Node_Relay\<close> with \<open>_Props\<close>, \<open>_Trip\<close>, \<open>_Run\<close>: \<open>execution/client.py\<close>, \<open>contributor_client.py\<close>, \<open>contributor_execution.py\<close>; a node
    forwards only under its lease, which ends within the controller's session, and posts a
    response only to the command it forwarded last. \<open>command_round_trip\<close> composes channel, relay, socket and
    service: a request returns the reply that the supervisor gave to its command.
  \<^item> \<open>Access_Store\<close>, \<open>Auth\<close>, \<open>Policy_Store\<close>, \<open>Policies\<close> with \<open>Access_Inv\<close>, \<open>Access_Props\<close>; \<open>Work_Authority\<close> with \<open>_Props\<close>: identities,
    credentials, policy packages and delegations; credentials follow access, enforcement and
    revisions never go back, a job passes the check only with current delegated authority, and a
    revoked delegation is never current again.
  \<^item> \<open>Work_Provider\<close>, \<open>Work_Runner\<close>, \<open>Work_Inputs\<close> with \<open>_Props\<close>, \<open>Work_Loop\<close>, \<open>Work_Queue\<close>: \<open>provider.py\<close>, \<open>runner.py\<close>, \<open>inputs.py\<close>, \<open>queue.py\<close> and
    the routes that do more than call the queue. \<open>Work_Client\<close> states their interface to the records as
    locales: \<open>store_preorder\<close>, \<open>attempt_client\<close>, extended by \<open>records_client\<close> (\<open>Work_Loop_Props\<close>) and \<open>queue_client\<close>
    (\<open>Work_Queue_Props\<close>), interpreted by the steps of the records, by the decisions of the owner and by what
    lies outside a project. So a turn of the loop and every operation of the queue implement the
    records, the loop keeps the decisions of the owner, a turn returns, and projects are isolated.
    \<open>Work_Runner_Props\<close> shows that only authorised work is placed, renewed, started and dispatched;
    \<open>Work_Runner_Run\<close> and \<open>Work_Queue_Run\<close> are concrete runs for the witnesses.

  \<^bold>\<open>Loops and bounds.\<close> All loops are structural or have termination proofs, but for the pages of a
  reconciliation (\<open>reconcile_pages\<close>), which is a partial function to \<open>option\<close>: \<open>None\<close> is a loop that never ends, and
  \<open>poll_turn_returns\<close> shows that a turn returns if replies pass the validation of the channel, because attempt
  identities are strings of length 32 that grow from page to page. Integers of the code are
  unbounded; their limits (\<open>2^53 - 1\<close> for counts and revisions) are part of the validators. Reading an
  output is stated with as many reads as the file has bytes.

  \<^bold>\<open>Not modelled.\<close> System calls (units, mounts, sockets, atomic file writers), generated HTTP clients and
  routes that only call a modelled operation, command lines, migrations of old databases, and
  wake-ups of sleeping polls, which change only the time of an event; of the node client the enrolment,
  its key files and the option to run once. Outside the core and left
  out: user files, transfers and publications, SSH jobs, modules, backup archives, remote sign-in,
  viewers and terminals, inference services, federation, agents and the node helper. Floating point seconds are exact rationals. The wire form of exceptions keeps code
  and status of a failure but not its text.
\<close>

end
